(* ===== verification/Prelude.thy ===== *)
theory Prelude
  imports Complex_Main
begin

text \<open>
  Shared vocabulary of the development: timezone-aware timestamps, Python's rounding, the
  character classes behind the program's regular expressions, ordered policy checks
  (``the first violated limit wins''), and the row operations that the persistence adapters
  issue against one table.  Component theories import this one and state their lemmas over it.

  Conventions.  Python's unbounded integers are \<^typ>\<open>int\<close>; text and identifiers are
  \<^typ>\<open>string\<close>, whose characters have code points 0 to 255, so a property about
  characters is proved for that alphabet.  An exception is the left summand of a sum type, and
  every component names its own exceptions.
\<close>

named_theorems dt_simps \<open>reading and shifting timestamps\<close>
named_theorems row_simps \<open>row updates, deletions and counts of one table\<close>
named_theorems guard_simps \<open>outcomes of a chain of early returns\<close>

section \<open>Timestamps\<close>

text \<open>
  A Python \<^verbatim>\<open>datetime\<close> carries an optional \<^verbatim>\<open>tzinfo\<close>, whose
  \<^verbatim>\<open>utcoffset()\<close> may itself be missing.  The instant is counted in microseconds;
  a \<^verbatim>\<open>timedelta\<close> is a number of microseconds.  The overflow of
  \<^verbatim>\<open>datetime\<close> addition after the year 9999 is not modelled.
\<close>

record datetime =
  dt_tzinfo :: bool
  dt_utcoffset :: bool
  dt_instant :: int

type_synonym timedelta = int

definition aware :: "datetime \<Rightarrow> bool" where
  "aware d \<longleftrightarrow> dt_tzinfo d \<and> dt_utcoffset d"

definition dt_add :: "datetime \<Rightarrow> timedelta \<Rightarrow> datetime" where
  "dt_add d delta = d\<lparr>dt_instant := dt_instant d + delta\<rparr>"

definition dt_le :: "datetime \<Rightarrow> datetime \<Rightarrow> bool" where
  "dt_le a b \<longleftrightarrow> dt_instant a \<le> dt_instant b"

definition dt_less :: "datetime \<Rightarrow> datetime \<Rightarrow> bool" where
  "dt_less a b \<longleftrightarrow> dt_instant a < dt_instant b"

definition dt_min :: "datetime \<Rightarrow> datetime \<Rightarrow> datetime" where
  "dt_min a b = (if dt_less b a then b else a)"

definition dt_max :: "datetime \<Rightarrow> datetime \<Rightarrow> datetime" where
  "dt_max a b = (if dt_less a b then b else a)"

definition utc :: "int \<Rightarrow> datetime" where
  "utc t = \<lparr>dt_tzinfo = True, dt_utcoffset = True, dt_instant = t\<rparr>"

definition seconds :: "int \<Rightarrow> timedelta" where
  "seconds n = n * 1000000"

definition minutes :: "int \<Rightarrow> timedelta" where
  "minutes n = seconds (n * 60)"

definition hours :: "int \<Rightarrow> timedelta" where
  "hours n = minutes (n * 60)"

definition days :: "int \<Rightarrow> timedelta" where
  "days n = hours (n * 24)"

lemmas timedelta_defs = seconds_def minutes_def hours_def days_def

lemma dt_instant_add [dt_simps]: "dt_instant (dt_add d delta) = dt_instant d + delta"
  by (simp add: dt_add_def)

lemma aware_add [dt_simps]: "aware (dt_add d delta) = aware d"
  by (simp add: dt_add_def aware_def)

lemma dt_add_add [dt_simps]: "dt_add (dt_add d x) y = dt_add d (x + y)"
  by (simp add: dt_add_def add.assoc)

lemma dt_instant_min [dt_simps]: "dt_instant (dt_min a b) = min (dt_instant a) (dt_instant b)"
  by (auto simp: dt_min_def dt_less_def)

lemma dt_instant_max [dt_simps]: "dt_instant (dt_max a b) = max (dt_instant a) (dt_instant b)"
  by (auto simp: dt_max_def dt_less_def)

lemma aware_utc [dt_simps]: "aware (utc t)"
  by (simp add: aware_def utc_def)

lemma dt_instant_utc [dt_simps]: "dt_instant (utc t) = t"
  by (simp add: utc_def)

lemma dt_add_utc [dt_simps]: "dt_add (utc t) delta = utc (t + delta)"
  by (simp add: utc_def dt_add_def)

text \<open>Values read back from the database are normalised to UTC.\<close>

definition normalise_utc :: "datetime \<Rightarrow> datetime" where
  "normalise_utc d =
     (if dt_tzinfo d then d else d\<lparr>dt_tzinfo := True, dt_utcoffset := True\<rparr>)"

lemma normalise_aware: "aware d \<Longrightarrow> normalise_utc d = d"
  by (simp add: normalise_utc_def aware_def)

text \<open>Python's \<^verbatim>\<open>round\<close>: to the nearest integer, ties to the even one.\<close>

definition py_round :: "real \<Rightarrow> int" where
  "py_round x =
     (let f = \<lfloor>x\<rfloor>; d = x - of_int f in
      if d < 1 / 2 then f
      else if 1 / 2 < d then f + 1
      else if even f then f else f + 1)"

lemma py_round_near: "\<bar>of_int (py_round x) - x\<bar> \<le> 1 / 2"
proof -
  have "of_int \<lfloor>x\<rfloor> \<le> x" and "x < of_int \<lfloor>x\<rfloor> + 1" by linarith+
  then show ?thesis by (auto simp: py_round_def Let_def)
qed

lemma py_round_of_int [simp]: "py_round (of_int n) = n"
  by (simp add: py_round_def)

lemma py_round_le: "x \<le> of_int n \<Longrightarrow> py_round x \<le> n"
proof -
  assume le: "x \<le> of_int n"
  have near: "of_int (py_round x) \<le> x + 1 / 2" using py_round_near [of x] by linarith
  show ?thesis
  proof (rule ccontr)
    assume "\<not> ?thesis"
    then have "of_int n + 1 \<le> (of_int (py_round x) :: real)" by linarith
    with le near show False by linarith
  qed
qed

section \<open>Characters and patterns\<close>

text \<open>
  The program validates text with anchored regular expressions over fixed classes.  A class is
  a predicate on characters and an anchored pattern a predicate on strings.
\<close>

definition is_upper_az :: "char \<Rightarrow> bool" where
  "is_upper_az c \<longleftrightarrow> 65 \<le> (of_char c :: nat) \<and> (of_char c :: nat) \<le> 90"

definition is_lower_az :: "char \<Rightarrow> bool" where
  "is_lower_az c \<longleftrightarrow> 97 \<le> (of_char c :: nat) \<and> (of_char c :: nat) \<le> 122"

definition is_digit_09 :: "char \<Rightarrow> bool" where
  "is_digit_09 c \<longleftrightarrow> 48 \<le> (of_char c :: nat) \<and> (of_char c :: nat) \<le> 57"

definition is_alnum_ascii :: "char \<Rightarrow> bool" where
  "is_alnum_ascii c \<longleftrightarrow> is_upper_az c \<or> is_lower_az c \<or> is_digit_09 c"

text \<open>\<^verbatim>\<open>[A-Za-z0-9_-]\<close>\<close>

definition is_b64url :: "char \<Rightarrow> bool" where
  "is_b64url c \<longleftrightarrow> is_alnum_ascii c \<or> (of_char c :: nat) = 95 \<or> (of_char c :: nat) = 45"

text \<open>\<^verbatim>\<open>[0-9a-f]\<close>\<close>

definition is_lower_hex :: "char \<Rightarrow> bool" where
  "is_lower_hex c \<longleftrightarrow> is_digit_09 c \<or> (97 \<le> (of_char c :: nat) \<and> (of_char c :: nat) \<le> 102)"

definition is_ascii_char :: "char \<Rightarrow> bool" where
  "is_ascii_char c \<longleftrightarrow> (of_char c :: nat) < 128"

lemmas char_class_defs =
  is_upper_az_def is_lower_az_def is_digit_09_def is_alnum_ascii_def is_b64url_def
  is_lower_hex_def is_ascii_char_def

text \<open>\<^verbatim>\<open>^[0-9a-f]{64}$\<close>, the canonical SHA-256 text.\<close>

definition sha256_hex :: "string \<Rightarrow> bool" where
  "sha256_hex s \<longleftrightarrow> length s = 64 \<and> list_all is_lower_hex s"

text \<open>\<^verbatim>\<open>^[a-z][a-z0-9_]{0,63}$\<close>, a bounded machine code.\<close>

definition machine_code :: "string \<Rightarrow> bool" where
  "machine_code s \<longleftrightarrow>
     (case s of [] \<Rightarrow> False
      | c # cs \<Rightarrow> is_lower_az c \<and> length cs \<le> 63 \<and>
                  list_all (\<lambda>d. is_lower_az d \<or> is_digit_09 d \<or> d = CHR ''_'') cs)"

lemma machine_code_length: "machine_code s \<Longrightarrow> 1 \<le> length s \<and> length s \<le> 64"
  by (auto simp: machine_code_def split: list.splits)

text \<open>\<^verbatim>\<open>text.split(separator)\<close> for a one-character separator.\<close>

fun split_on :: "char \<Rightarrow> string \<Rightarrow> string list" where
  "split_on sep [] = [[]]"
| "split_on sep (c # cs) =
     (if c = sep then [] # split_on sep cs
      else case split_on sep cs of part # parts \<Rightarrow> (c # part) # parts | [] \<Rightarrow> [[c]])"

lemma split_on_nonempty: "split_on sep s \<noteq> []"
  by (induction s) (auto split: list.splits)

lemma split_on_part: "sep \<notin> set a \<Longrightarrow> split_on sep a = [a]"
  by (induction a) auto

lemma split_on_append: "sep \<notin> set a \<Longrightarrow> split_on sep (a @ sep # b) = a # split_on sep b"
  by (induction a) auto

section \<open>Ordered policy checks\<close>

text \<open>
  Several policies list their limits in a fixed order and answer with the first one that is
  exceeded: Python's \<^verbatim>\<open>next((d for exceeded, d in checks if exceeded), default)\<close>.
\<close>

fun first_exceeded :: "(bool \<times> 'd) list \<Rightarrow> 'd \<Rightarrow> 'd" where
  "first_exceeded [] fallback = fallback"
| "first_exceeded ((exceeded, d) # rest) fallback =
     (if exceeded then d else first_exceeded rest fallback)"

lemma first_exceeded_none [guard_simps]:
  "(\<And>b d. (b, d) \<in> set cs \<Longrightarrow> \<not> b) \<Longrightarrow> first_exceeded cs z = z"
proof (induction cs)
  case (Cons c cs)
  then show ?case by (cases c) auto
qed simp

lemma first_exceeded_fallback_iff:
  assumes "z \<notin> snd ` set cs"
  shows "first_exceeded cs z = z \<longleftrightarrow> (\<forall>(b, d) \<in> set cs. \<not> b)"
  using assms by (induction cs z rule: first_exceeded.induct) auto

lemma first_exceeded_cases:
  "first_exceeded cs z = d \<Longrightarrow>
     d = z \<and> (\<forall>(b, e) \<in> set cs. \<not> b) \<or>
     (\<exists>pre post. cs = pre @ (True, d) # post \<and> (\<forall>(b, e) \<in> set pre. \<not> b))"
proof (induction cs z rule: first_exceeded.induct)
  case (2 exceeded e rest z)
  show ?case
  proof (cases exceeded)
    case True
    with "2.prems" have "(exceeded, e) # rest = [] @ (True, d) # rest" by simp
    then show ?thesis by (metis empty_iff list.set(1))
  next
    case False
    with "2" have "d = z \<and> (\<forall>(b, e) \<in> set rest. \<not> b) \<or>
      (\<exists>pre post. rest = pre @ (True, d) # post \<and> (\<forall>(b, e) \<in> set pre. \<not> b))" by simp
    then show ?thesis
    proof
      assume "\<exists>pre post. rest = pre @ (True, d) # post \<and> (\<forall>(b, e) \<in> set pre. \<not> b)"
      then obtain pre post where "rest = pre @ (True, d) # post" "\<forall>(b, e) \<in> set pre. \<not> b"
        by blast
      then have "(exceeded, e) # rest = ((exceeded, e) # pre) @ (True, d) # post \<and>
        (\<forall>(b, e) \<in> set ((exceeded, e) # pre). \<not> b)" using False by auto
      then show ?thesis by blast
    qed (use False in auto)
  qed
qed simp

text \<open>
  A loop of checks that may raise: the first error ends it.
\<close>

fun all_checks :: "('e + unit) list \<Rightarrow> 'e + unit" where
  "all_checks [] = Inr ()"
| "all_checks (c # cs) = (case c of Inl e \<Rightarrow> Inl e | Inr _ \<Rightarrow> all_checks cs)"

lemma all_checks_ok [guard_simps]: "all_checks cs = Inr () \<longleftrightarrow> (\<forall>c \<in> set cs. c = Inr ())"
  by (induction cs) (auto split: sum.splits)

text \<open>A computation that goes on with the result of another one or raises its error.\<close>

definition result_then :: "'e + 'a \<Rightarrow> ('a \<Rightarrow> 'e + 'b) \<Rightarrow> 'e + 'b" where
  "result_then x f = (case x of Inl e \<Rightarrow> Inl e | Inr a \<Rightarrow> f a)"

lemma result_then_simps [simp]: "result_then (Inl e) f = Inl e" "result_then (Inr a) f = f a"
  by (simp_all add: result_then_def)

lemma result_then_ok: "result_then x f = Inr b \<longleftrightarrow> (\<exists>a. x = Inr a \<and> f a = Inr b)"
  by (simp add: result_then_def split: sum.splits)

lemma all_checks_okD: "all_checks cs = Inr u \<Longrightarrow> c \<in> set cs \<Longrightarrow> c = Inr ()"
  by (simp add: guard_simps)

section \<open>Rows of one table\<close>

text \<open>
  A table is the list of its rows.  \<^verbatim>\<open>UPDATE ... WHERE\<close> and
  \<^verbatim>\<open>DELETE ... WHERE\<close> return the new table and the number of rows they touched;
  \<^verbatim>\<open>SELECT ... WHERE\<close> on a unique key is \<^const>\<open>find\<close>.
\<close>

definition update_where :: "('r \<Rightarrow> bool) \<Rightarrow> ('r \<Rightarrow> 'r) \<Rightarrow> 'r list \<Rightarrow> 'r list" where
  "update_where p f rows = map (\<lambda>r. if p r then f r else r) rows"

definition delete_where :: "('r \<Rightarrow> bool) \<Rightarrow> 'r list \<Rightarrow> 'r list" where
  "delete_where p rows = filter (\<lambda>r. \<not> p r) rows"

definition count_where :: "('r \<Rightarrow> bool) \<Rightarrow> 'r list \<Rightarrow> nat" where
  "count_where p rows = length (filter p rows)"

definition sum_where :: "('r \<Rightarrow> bool) \<Rightarrow> ('r \<Rightarrow> int) \<Rightarrow> 'r list \<Rightarrow> int" where
  "sum_where p f rows = sum_list (map f (filter p rows))"

lemma update_where_none [row_simps]: "count_where p rows = 0 \<Longrightarrow> update_where p f rows = rows"
  by (induction rows) (auto simp: update_where_def count_where_def split: if_splits)

lemma length_update_where [row_simps]: "length (update_where p f rows) = length rows"
  by (simp add: update_where_def)

lemma set_update_where: "set (update_where p f rows) = (\<lambda>r. if p r then f r else r) ` set rows"
  by (simp add: update_where_def)

lemma ball_update_where:
  "(\<forall>r \<in> set (update_where p f rows). q r) \<longleftrightarrow>
     (\<forall>r \<in> set rows. (p r \<longrightarrow> q (f r)) \<and> (\<not> p r \<longrightarrow> q r))"
  by (auto simp: update_where_def)

lemma set_delete_where [row_simps]: "set (delete_where p rows) = {r \<in> set rows. \<not> p r}"
  by (simp add: delete_where_def)

lemma count_where_pos: "0 < count_where p rows \<longleftrightarrow> (\<exists>r \<in> set rows. p r)"
  by (auto simp: count_where_def length_greater_0_conv filter_empty_conv)

lemma count_where_zero: "count_where p rows = 0 \<longleftrightarrow> (\<forall>r \<in> set rows. \<not> p r)"
  by (auto simp: count_where_def filter_empty_conv)

lemma count_where_delete:
  "count_where p (delete_where p rows) = 0"
  by (simp add: count_where_def delete_where_def)

lemma length_delete_where: "length (delete_where p rows) + count_where p rows = length rows"
  by (induction rows) (auto simp: delete_where_def count_where_def)

lemma map_key_update_where [row_simps]:
  "(\<And>r. p r \<Longrightarrow> key (f r) = key r) \<Longrightarrow> map key (update_where p f rows) = map key rows"
  by (simp add: update_where_def)

lemma distinct_key_delete_where [row_simps]:
  "distinct (map key rows) \<Longrightarrow> distinct (map key (delete_where p rows))"
  by (simp add: delete_where_def distinct_map_filter)

lemma find_SomeD: "find p rows = Some r \<Longrightarrow> r \<in> set rows \<and> p r"
  by (induction rows) (auto split: if_splits)

lemma find_unique:
  assumes "distinct (map key rows)" "r \<in> set rows"
  shows "find (\<lambda>x. key x = key r) rows = Some r"
  using assms by (induction rows) (auto simp: image_iff)

lemma distinct_key_eq:
  "distinct (map key rows) \<Longrightarrow> a \<in> set rows \<Longrightarrow> b \<in> set rows \<Longrightarrow> key a = key b \<Longrightarrow> a = b"
  by (simp add: distinct_map inj_on_def)

text \<open>
  The row of a unique key is found again after an update that keeps keys.
\<close>

lemma find_update_where:
  assumes keep: "\<And>r. p r \<Longrightarrow> key (f r) = key r"
  shows "find (\<lambda>x. key x = k) (update_where p f rows) =
         map_option (\<lambda>r. if p r then f r else r) (find (\<lambda>x. key x = k) rows)"
proof (induction rows)
  case (Cons r rows)
  then show ?case using keep [of r] by (auto simp: update_where_def)
qed (simp add: update_where_def)

lemma count_where_key_le_1:
  assumes "distinct (map key rows)"
  shows "count_where (\<lambda>r. key r = k \<and> q r) rows \<le> 1"
  using assms
proof (induction rows)
  case (Cons r rows)
  show ?case
  proof (cases "key r = k \<and> q r")
    case True
    with Cons.prems have "\<forall>x \<in> set rows. key x \<noteq> k" by (auto simp: image_iff)
    then have "filter (\<lambda>r. key r = k \<and> q r) rows = []" by (simp add: filter_empty_conv)
    with True show ?thesis by (simp add: count_where_def)
  next
    case False
    with Cons show ?thesis by (auto simp: count_where_def)
  qed
qed (simp add: count_where_def)

lemma count_where_mono: "(\<And>r. p r \<Longrightarrow> q r) \<Longrightarrow> count_where p rows \<le> count_where q rows"
  by (induction rows) (auto simp: count_where_def)

lemma sum_where_mono:
  "list_all (\<lambda>r. 0 \<le> f r) rows \<Longrightarrow> (\<And>r. p r \<Longrightarrow> q r) \<Longrightarrow> sum_where p f rows \<le> sum_where q f rows"
  by (induction rows) (auto simp: sum_where_def)

lemma count_where_append [row_simps]:
  "count_where p (rows @ [r]) = count_where p rows + (if p r then 1 else 0)"
  by (simp add: count_where_def)

lemma sum_where_append [row_simps]:
  "sum_where p f (rows @ [r]) = sum_where p f rows + (if p r then f r else 0)"
  by (simp add: sum_where_def)

lemma count_where_delete_le: "count_where p (delete_where q rows) \<le> count_where p rows"
  by (induction rows) (auto simp: count_where_def delete_where_def)

lemma sum_where_delete_le:
  "list_all (\<lambda>r. 0 \<le> f r) rows \<Longrightarrow> sum_where p f (delete_where q rows) \<le> sum_where p f rows"
  by (induction rows) (auto simp: sum_where_def delete_where_def)

lemma count_where_update_le:
  "count_where q (update_where p f rows) \<le> count_where q rows + count_where p rows"
  by (induction rows) (auto simp: count_where_def update_where_def)

end
