(* ===== verification/Contracts.thy ===== *)
theory Contracts
  imports Prelude
begin

text \<open>
  The frozen protocol vocabulary and ceilings shared by the ingestion components
  (\<^verbatim>\<open>shared/contracts/local_scan.py\<close> and
  \<^verbatim>\<open>shared/contracts/ingest_v2.py\<close>): token constants, usage limits, reason
  codes, the problem table and the webhook policy.
\<close>

section \<open>Local scans\<close>

definition TOKEN_PREFIX :: string where "TOKEN_PREFIX = ''asu_v1_''"

definition TOKEN_SELECTOR_BYTES :: nat where "TOKEN_SELECTOR_BYTES = 12"

definition TOKEN_SECRET_BYTES :: nat where "TOKEN_SECRET_BYTES = 32"

definition TOKEN_DEFAULT_EXPIRY_DAYS :: int where "TOKEN_DEFAULT_EXPIRY_DAYS = 90"

definition TOKEN_MAX_EXPIRY_DAYS :: int where "TOKEN_MAX_EXPIRY_DAYS = 365"

definition TOKEN_ACTIVE_LIMIT :: int where "TOKEN_ACTIVE_LIMIT = 5"

definition TOKEN_CREATION_HOURLY_LIMIT :: int where "TOKEN_CREATION_HOURLY_LIMIT = 5"

definition TOKEN_SCOPE :: string where "TOKEN_SCOPE = ''scans:upload''"

lemmas token_constants =
  TOKEN_PREFIX_def TOKEN_SELECTOR_BYTES_def TOKEN_SECRET_BYTES_def TOKEN_DEFAULT_EXPIRY_DAYS_def
  TOKEN_MAX_EXPIRY_DAYS_def TOKEN_ACTIVE_LIMIT_def TOKEN_CREATION_HOURLY_LIMIT_def TOKEN_SCOPE_def

record usage_limits =
  uploads_per_token_hour :: int
  uploads_per_user_day :: int
  inflight_per_token :: int
  inflight_per_user :: int
  inflight_per_instance :: int
  retained_bytes_per_user :: int
  retained_bytes_per_instance :: int
  accepted_bytes_per_user_day :: int

definition USAGE_LIMITS :: usage_limits where
  "USAGE_LIMITS =
     \<lparr>uploads_per_token_hour = 10, uploads_per_user_day = 100, inflight_per_token = 1,
      inflight_per_user = 2, inflight_per_instance = 4,
      retained_bytes_per_user = 1024 * 1024 * 1024,
      retained_bytes_per_instance = 5 * 1024 * 1024 * 1024,
      accepted_bytes_per_user_day = 500 * 1024 * 1024\<rparr>"

section \<open>Version-two push ingestion\<close>

definition ENVELOPE_DOMAIN :: string where "ENVELOPE_DOMAIN = ''assurance-scan-envelope-v2''"

definition ENVELOPE_PARTS :: "string list" where
  "ENVELOPE_PARTS =
    [''metadata'', ''findings'', ''source_contexts'', ''sarif'', ''sbom'']"

definition REQUIRED_PARTS :: "string list" where
  "REQUIRED_PARTS =
    [''metadata'', ''findings'', ''source_contexts'']"

definition OPTIONAL_PARTS :: "string list" where
  "OPTIONAL_PARTS =
    [''sarif'', ''sbom'']"

definition SCANNER_KINDS :: "string list" where
  "SCANNER_KINDS =
    [''semgrep'', ''gitleaks'', ''trivy-fs'', ''trivy-config'', ''trivy-image'',
     ''syft'', ''grype'', ''osv-scanner'', ''tribal'']"

definition SCANNER_STATUSES :: "string list" where
  "SCANNER_STATUSES =
    [''completed'', ''failed'', ''skipped'']"

definition SCANNER_ERROR_CODES :: "string list" where
  "SCANNER_ERROR_CODES =
    [''scanner_dependency_failed'', ''scanner_exit_nonzero'',
     ''scanner_not_configured'', ''scanner_output_invalid'', ''scanner_timeout'',
     ''scanner_unsupported'']"

definition INGEST_ATTEMPT_OUTCOMES :: "string list" where
  "INGEST_ATTEMPT_OUTCOMES =
    [''accepted'', ''replayed'', ''rejected'', ''failed_internal'']"

definition INGEST_REASON_CODES :: "string list" where
  "INGEST_REASON_CODES =
    [''accepted'', ''artifact_mismatch'', ''authentication_rate_limited'',
     ''capacity_exceeded'', ''duplicate_json_key'', ''duplicate_part'',
     ''github_verification_failed'', ''idempotency_conflict'', ''idempotent_replay'',
     ''insufficient_scope'', ''internal_persistence_failed'', ''invalid_content_type'',
     ''invalid_credential'', ''invalid_json'', ''invalid_part_media_type'',
     ''malformed_multipart'', ''non_default_branch'', ''oidc_invalid'',
     ''oidc_replayed'', ''project_not_enabled'', ''quota_exceeded'',
     ''repository_not_authorized'', ''schema_validation_failed'', ''stale_entitlement'',
     ''storage_quota_exceeded'', ''unexpected_part'', ''unsupported_content_encoding'',
     ''unsupported_event'', ''wire_limit_exceeded'']"

definition PROBLEM_CODES :: "string list" where
  "PROBLEM_CODES =
    filter (\<lambda>code. code \<notin> {''accepted'', ''idempotent_replay''}) INGEST_REASON_CODES"

definition OIDC_REQUIRED_CLAIMS :: "string list" where
  "OIDC_REQUIRED_CLAIMS =
    [''iss'', ''aud'', ''sub'', ''repository_id'', ''repository_owner_id'',
     ''repository'', ''run_id'', ''run_number'', ''run_attempt'', ''sha'', ''ref'',
     ''event_name'', ''actor'', ''actor_id'', ''workflow_ref'', ''workflow_sha'',
     ''iat'', ''nbf'', ''exp'', ''jti'']"

definition WEBHOOK_EVENT_ACTIONS :: "(string \<times> string) list" where
  "WEBHOOK_EVENT_ACTIONS =
    [(''installation'', ''created''), (''installation'', ''deleted''),
     (''installation'', ''suspend''), (''installation'', ''unsuspend''),
     (''installation'', ''new_permissions_accepted''),
     (''installation_repositories'', ''added''),
     (''installation_repositories'', ''removed''), (''repository'', ''edited''),
     (''repository'', ''renamed''), (''repository'', ''transferred''),
     (''repository'', ''archived''), (''repository'', ''unarchived''),
     (''repository'', ''deleted''), (''installation_target'', ''renamed'')]"

record webhook_policy =
  maximum_body_bytes :: int
  delivery_retention_days :: int
  secret_overlap_seconds :: int

definition WEBHOOK_POLICY_V2 :: webhook_policy where
  "WEBHOOK_POLICY_V2 =
     \<lparr>maximum_body_bytes = 2 * 1024 * 1024, delivery_retention_days = 30,
      secret_overlap_seconds = 60 * 60\<rparr>"

record problem_policy =
  problem_code :: string
  problem_status :: int
  problem_retryable :: bool
  problem_retry_after :: bool

definition problem :: "string \<Rightarrow> int \<Rightarrow> bool \<Rightarrow> bool \<Rightarrow> problem_policy" where
  "problem c s r a =
     \<lparr>problem_code = c, problem_status = s, problem_retryable = r, problem_retry_after = a\<rparr>"

definition PROBLEM_POLICIES_V2 :: "problem_policy list" where
  "PROBLEM_POLICIES_V2 =
    [problem ''artifact_mismatch'' 422 False False,
     problem ''authentication_rate_limited'' 429 True True,
     problem ''capacity_exceeded'' 429 True True,
     problem ''duplicate_json_key'' 400 False False,
     problem ''duplicate_part'' 400 False False,
     problem ''github_verification_failed'' 503 True True,
     problem ''idempotency_conflict'' 409 False False,
     problem ''insufficient_scope'' 403 False False,
     problem ''internal_persistence_failed'' 500 True True,
     problem ''invalid_content_type'' 415 False False,
     problem ''invalid_credential'' 401 False False,
     problem ''invalid_json'' 400 False False,
     problem ''invalid_part_media_type'' 415 False False,
     problem ''malformed_multipart'' 400 False False,
     problem ''non_default_branch'' 403 False False,
     problem ''oidc_invalid'' 401 False False,
     problem ''oidc_replayed'' 401 False False,
     problem ''project_not_enabled'' 403 False False,
     problem ''quota_exceeded'' 429 True True,
     problem ''repository_not_authorized'' 403 False False,
     problem ''schema_validation_failed'' 422 False False,
     problem ''stale_entitlement'' 403 False False,
     problem ''storage_quota_exceeded'' 507 False False,
     problem ''unexpected_part'' 400 False False,
     problem ''unsupported_content_encoding'' 415 False False,
     problem ''unsupported_event'' 422 False False,
     problem ''wire_limit_exceeded'' 413 False False]"

record github_usage_limits =
  uploads_per_repository_hour :: int
  uploads_per_owner_day :: int
  inflight_per_repository :: int
  accepted_bytes_per_owner_day :: int

definition GITHUB_USAGE_LIMITS_V2 :: github_usage_limits where
  "GITHUB_USAGE_LIMITS_V2 =
     \<lparr>uploads_per_repository_hour = 30, uploads_per_owner_day = 500,
      inflight_per_repository = 2, accepted_bytes_per_owner_day = 2 * 1024 * 1024 * 1024\<rparr>"

record shared_usage_limits =
  shared_inflight_per_instance :: int
  inflight_local_per_instance :: int

definition SHARED_USAGE_LIMITS_V2 :: shared_usage_limits where
  "SHARED_USAGE_LIMITS_V2 =
     \<lparr>shared_inflight_per_instance = 8, inflight_local_per_instance = 4\<rparr>"

section \<open>The problem table is consistent\<close>

lemma problem_simps [simp]:
  "problem_code (problem c s r a) = c" "problem_status (problem c s r a) = s"
  "problem_retryable (problem c s r a) = r" "problem_retry_after (problem c s r a) = a"
  by (simp_all add: problem_def)

lemma problem_codes_covered: "map problem_code PROBLEM_POLICIES_V2 = PROBLEM_CODES"
  by (simp add: PROBLEM_POLICIES_V2_def PROBLEM_CODES_def INGEST_REASON_CODES_def)

lemma distinct_reason_codes: "distinct INGEST_REASON_CODES"
  by (simp add: INGEST_REASON_CODES_def)

text \<open>
  Every rejection code of the protocol has exactly one row in the problem table, and the
  table is coherent: a row is an HTTP error, one that advertises \<open>Retry-After\<close> is retryable,
  and one that is retryable is a rate limit or a server failure.
\<close>

theorem problem_table_coherent:
  "map problem_code PROBLEM_POLICIES_V2 = PROBLEM_CODES \<and> distinct PROBLEM_CODES \<and>
   list_all (\<lambda>p. 400 \<le> problem_status p \<and> problem_status p \<le> 599 \<and>
                 (problem_retry_after p = problem_retryable p) \<and>
                 (problem_retryable p = (problem_status p \<in> {429, 500, 503})))
     PROBLEM_POLICIES_V2"
proof (intro conjI)
  show "distinct PROBLEM_CODES"
    unfolding PROBLEM_CODES_def by (rule distinct_filter) (rule distinct_reason_codes)
qed (simp_all add: problem_codes_covered, simp add: PROBLEM_POLICIES_V2_def)

end
