(* ===== verification/Access_Policy.thy ===== *)
theory Access_Policy
  imports Prelude Contracts "HOL-Library.AList"
begin

text \<open>
  Who may do what to which project: the permission order (\<^verbatim>\<open>project_membership\<close>),
  upload authorization (\<^verbatim>\<open>project_authorization\<close>), the visibility of one run
  (\<^verbatim>\<open>run_visibility\<close>), the projection of GitHub grants onto projects
  (\<^verbatim>\<open>github_membership_projection\<close>) and the validation of installation snapshots
  before reconciliation (\<^verbatim>\<open>github_repository_reconciliation\<close>).
\<close>

section \<open>Project permissions\<close>

datatype permission = VIEW | UPLOAD | MANAGE

definition allowed_permissions :: "permission \<Rightarrow> permission set" where
  "allowed_permissions required =
     (case required of
        VIEW \<Rightarrow> {VIEW, UPLOAD, MANAGE}
      | UPLOAD \<Rightarrow> {UPLOAD, MANAGE}
      | MANAGE \<Rightarrow> {MANAGE})"

definition permission_allows :: "permission \<Rightarrow> permission \<Rightarrow> bool" where
  "permission_allows granted required \<longleftrightarrow> granted \<in> allowed_permissions required"

definition permission_rank :: "permission \<Rightarrow> nat" where
  "permission_rank p = (case p of VIEW \<Rightarrow> 0 | UPLOAD \<Rightarrow> 1 | MANAGE \<Rightarrow> 2)"

lemma permission_rank_inj: "permission_rank a = permission_rank b \<Longrightarrow> a = b"
  by (cases a; cases b) (simp_all add: permission_rank_def)

instantiation permission :: linorder
begin

definition less_eq_permission :: "permission \<Rightarrow> permission \<Rightarrow> bool" where
  "less_eq_permission a b \<longleftrightarrow> permission_rank a \<le> permission_rank b"

definition less_permission :: "permission \<Rightarrow> permission \<Rightarrow> bool" where
  "less_permission a b \<longleftrightarrow> permission_rank a < permission_rank b"

instance
  by standard (auto simp: less_eq_permission_def less_permission_def dest: permission_rank_inj)

end

lemma permission_allows_iff: "permission_allows granted required \<longleftrightarrow> required \<le> granted"
  by (cases granted; cases required)
    (simp_all add: permission_allows_def allowed_permissions_def less_eq_permission_def
      permission_rank_def)

section \<open>Project authorization\<close>

datatype project_action = Read | Create | Update | Delete | Upload_scan

record authorization =
  az_allowed :: bool
  az_reason :: string

record upload_context =
  user_active :: bool
  token_scopes :: "string set"
  project_registered :: bool
  project_hidden :: bool
  user_can_upload :: bool

definition action_name :: "project_action \<Rightarrow> string" where
  "action_name a =
     (case a of Read \<Rightarrow> ''read'' | Create \<Rightarrow> ''create'' | Update \<Rightarrow> ''update''
      | Delete \<Rightarrow> ''delete'' | Upload_scan \<Rightarrow> ''upload_scan'')"

definition authorize_project_action :: "project_action \<Rightarrow> authorization" where
  "authorize_project_action a =
     \<lparr>az_allowed = True, az_reason = action_name a @ '' passed the outer project-access boundary''\<rparr>"

definition authorize_local_scan_upload :: "upload_context \<Rightarrow> authorization" where
  "authorize_local_scan_upload c =
     (if \<not> user_active c then
        \<lparr>az_allowed = False, az_reason = ''the submitting user is disabled''\<rparr>
      else if TOKEN_SCOPE \<notin> token_scopes c then
        \<lparr>az_allowed = False, az_reason = ''the token lacks the scan-upload scope''\<rparr>
      else if \<not> project_registered c \<or> project_hidden c then
        \<lparr>az_allowed = False, az_reason = ''the project is not available for upload''\<rparr>
      else if \<not> user_can_upload c then
        \<lparr>az_allowed = False, az_reason = ''the user cannot upload to this project''\<rparr>
      else \<lparr>az_allowed = True, az_reason = ''upload_scan is allowed by project membership''\<rparr>)"

lemma authorize_local_scan_upload_iff:
  "az_allowed (authorize_local_scan_upload c) \<longleftrightarrow>
     user_active c \<and> TOKEN_SCOPE \<in> token_scopes c \<and> project_registered c \<and>
     \<not> project_hidden c \<and> user_can_upload c"
  by (simp add: authorize_local_scan_upload_def)

section \<open>Visibility of one run\<close>

record run_visibility_context =
  principal_user_id :: "int option"
  run_origin :: string
  submitted_by :: "int option"

definition can_view_run :: "run_visibility_context \<Rightarrow> bool" where
  "can_view_run c =
     (if principal_user_id c = None then True
      else if run_origin c \<noteq> ''local'' then True
      else submitted_by c = principal_user_id c)"

text \<open>
  Local results stay private: a human principal sees a local run exactly when that
  principal submitted it, whatever the role, and a local run without a submitter is visible to
  the internal system principal only.
\<close>

theorem local_run_private:
  "can_view_run \<lparr>principal_user_id = Some u, run_origin = ''local'', submitted_by = s\<rparr>
     \<longleftrightarrow> s = Some u"
  by (simp add: can_view_run_def)

section \<open>Projection of GitHub grants\<close>

record entitlement =
  ent_installation :: int
  ent_repository :: int
  ent_permission :: permission

record membership =
  mb_project :: int
  mb_permission :: permission
  mb_verified_at :: datetime
  mb_expires_at :: datetime

datatype projection_error = Projection_ValueError string | Projection_RuntimeError string

fun validate_rows :: "int set \<Rightarrow> membership list \<Rightarrow> projection_error option" where
  "validate_rows seen [] = None"
| "validate_rows seen (row # rows) =
     (if mb_project row \<le> 0 \<or> mb_project row \<in> seen then
        Some (Projection_ValueError ''GitHub membership projects must be unique positive IDs'')
      else if \<not> dt_tzinfo (mb_verified_at row) \<or> \<not> dt_tzinfo (mb_expires_at row) then
        Some (Projection_RuntimeError ''GitHub membership timestamps must be timezone-aware'')
      else if dt_le (mb_expires_at row) (mb_verified_at row) then
        Some (Projection_ValueError ''GitHub membership expiry must follow verification'')
      else validate_rows (insert (mb_project row) seen) rows)"

definition validate_membership_projection ::
    "membership list \<Rightarrow> projection_error + membership list" where
  "validate_membership_projection rows =
     (case validate_rows {} rows of Some e \<Rightarrow> Inl e | None \<Rightarrow> Inr rows)"

text \<open>
  The loop over the grants: \<open>seen\<close> holds the repositories met so far, \<open>by_project\<close> the best
  permission per project in insertion order.
\<close>

fun project_grants ::
    "(int \<times> int \<rightharpoonup> int) \<Rightarrow> entitlement list \<Rightarrow> int set \<Rightarrow> (int \<times> permission) list
     \<Rightarrow> projection_error + (int \<times> permission) list" where
  "project_grants ids [] seen by_project = Inr by_project"
| "project_grants ids (e # es) seen by_project =
     (if ent_installation e \<le> 0 \<or> ent_repository e \<le> 0 then
        Inl (Projection_ValueError ''GitHub entitlement identities must be positive integers'')
      else if ent_repository e \<in> seen then
        Inl (Projection_ValueError ''GitHub entitlement repositories must be unique'')
      else
        (case ids (ent_installation e, ent_repository e) of
           None \<Rightarrow> project_grants ids es (insert (ent_repository e) seen) by_project
         | Some pid \<Rightarrow>
             project_grants ids es (insert (ent_repository e) seen)
               (case map_of by_project pid of
                  None \<Rightarrow> AList.update pid (ent_permission e) by_project
                | Some current \<Rightarrow>
                    if permission_rank current < permission_rank (ent_permission e)
                    then AList.update pid (ent_permission e) by_project
                    else by_project)))"

definition project_membership_projections ::
    "entitlement list \<Rightarrow> (int \<times> int \<rightharpoonup> int) \<Rightarrow> datetime \<Rightarrow> datetime
     \<Rightarrow> projection_error + membership list" where
  "project_membership_projections es ids verified_at expires_at =
     (if \<not> dt_tzinfo verified_at \<or> \<not> dt_tzinfo expires_at then
        Inl (Projection_RuntimeError ''GitHub membership timestamps must be timezone-aware'')
      else if dt_le expires_at verified_at then
        Inl (Projection_ValueError ''GitHub membership expiry must follow verification'')
      else
        (case project_grants ids es {} [] of
           Inl e \<Rightarrow> Inl e
         | Inr by_project \<Rightarrow>
             validate_membership_projection
               (map (\<lambda>(pid, p). \<lparr>mb_project = pid, mb_permission = p,
                                   mb_verified_at = verified_at, mb_expires_at = expires_at\<rparr>)
                    (sort_key fst by_project))))"

subsection \<open>The strongest grant wins\<close>

text \<open>The permissions that the grants give to one project.\<close>

definition grants_of :: "(int \<times> int \<rightharpoonup> int) \<Rightarrow> entitlement list \<Rightarrow> int \<Rightarrow> permission set" where
  "grants_of ids es pid =
     ent_permission ` {e \<in> set es. ids (ent_installation e, ent_repository e) = Some pid}"

definition best_grant :: "permission set \<Rightarrow> permission option" where
  "best_grant ps = (if ps = {} then None else Some (Max ps))"

lemma finite_grants [simp]: "finite (grants_of ids es pid)"
  by (simp add: grants_of_def)

lemma grants_of_Nil [simp]: "grants_of ids [] pid = {}"
  by (simp add: grants_of_def)

lemma grants_of_Cons:
  "grants_of ids (e # es) pid =
     (if ids (ent_installation e, ent_repository e) = Some pid
      then insert (ent_permission e) (grants_of ids es pid) else grants_of ids es pid)"
  by (auto simp: grants_of_def)

definition better :: "permission option \<Rightarrow> permission option \<Rightarrow> permission option" where
  "better a b =
     (case (a, b) of (None, _) \<Rightarrow> b | (_, None) \<Rightarrow> a | (Some p, Some q) \<Rightarrow> Some (max p q))"

lemma better_None [simp]: "better a None = a" "better None a = a"
  by (simp_all add: better_def split: option.split)

lemma best_grant_insert: "finite ps \<Longrightarrow> best_grant (insert p ps) = better (Some p) (best_grant ps)"
  by (simp add: best_grant_def better_def)

lemma better_assoc: "better (better a b) c = better a (better b c)"
  by (simp add: better_def max.assoc split: option.split)

lemma keep_best:
  "map_of (case map_of bp pid of
      None \<Rightarrow> AList.update pid p bp
    | Some current \<Rightarrow>
        if permission_rank current < permission_rank p then AList.update pid p bp else bp) k
   = (if k = pid then better (map_of bp k) (Some p) else map_of bp k)"
  by (auto simp: better_def update_conv' max_def less_eq_permission_def dest: permission_rank_inj
      split: option.split)

lemma distinct_keep_best:
  "distinct (map fst bp) \<Longrightarrow>
   distinct (map fst (case map_of bp pid of
      None \<Rightarrow> AList.update pid p bp
    | Some current \<Rightarrow>
        if permission_rank current < permission_rank p then AList.update pid p bp else bp))"
  by (simp add: distinct_update split: option.split)

lemma project_grants_best:
  "project_grants ids es seen bp = Inr bp' \<Longrightarrow> distinct (map fst bp) \<Longrightarrow>
     distinct (map fst bp') \<and>
     (\<forall>k. map_of bp' k = better (map_of bp k) (best_grant (grants_of ids es k)))"
proof (induction ids es seen bp rule: project_grants.induct)
  case (2 ids e es seen bp)
  let ?new = "\<lambda>pid. case map_of bp pid of
      None \<Rightarrow> AList.update pid (ent_permission e) bp
    | Some current \<Rightarrow> if permission_rank current < permission_rank (ent_permission e)
        then AList.update pid (ent_permission e) bp else bp"
  show ?case
  proof (cases "ids (ent_installation e, ent_repository e)")
    case None
    with 2 show ?thesis by (simp add: grants_of_Cons split: if_splits)
  next
    case (Some pid)
    with "2.prems" have "project_grants ids es (insert (ent_repository e) seen) (?new pid) = Inr bp'"
      and pos: "\<not> (ent_installation e \<le> 0 \<or> ent_repository e \<le> 0)" "ent_repository e \<notin> seen"
      by (simp_all split: if_splits)
    with "2.IH"(2) [OF pos Some] have "distinct (map fst bp') \<and>
      (\<forall>k. map_of bp' k = better (map_of (?new pid) k) (best_grant (grants_of ids es k)))"
      using distinct_keep_best [OF "2.prems"(2)] by blast
    then show ?thesis
      using Some by (simp add: keep_best grants_of_Cons best_grant_insert better_assoc)
  qed
qed (simp add: best_grant_def)

lemma validate_rows_None:
  "validate_rows seen rows = None \<longleftrightarrow>
     distinct (map mb_project rows) \<and> seen \<inter> mb_project ` set rows = {} \<and>
     (\<forall>r \<in> set rows. 0 < mb_project r \<and> dt_tzinfo (mb_verified_at r) \<and>
        dt_tzinfo (mb_expires_at r) \<and> dt_less (mb_verified_at r) (mb_expires_at r))"
proof (induction seen rows rule: validate_rows.induct)
  case (2 seen row rows)
  have order: "\<not> dt_le a b \<longleftrightarrow> dt_less b a" for a b by (auto simp: dt_le_def dt_less_def)
  show ?case
  proof (cases "0 < mb_project row \<and> mb_project row \<notin> seen \<and> dt_tzinfo (mb_verified_at row) \<and>
      dt_tzinfo (mb_expires_at row) \<and> dt_less (mb_verified_at row) (mb_expires_at row)")
    case True
    with 2 show ?thesis by (auto simp: order [symmetric])
  next
    case False
    then show ?thesis by (auto simp: order [symmetric])
  qed
qed simp

lemma set_sort_pairs: "set (sort_key fst (xs :: (int \<times> permission) list)) = set xs"
  by simp

text \<open>
  The projection is exactly the strongest grant per project: its rows are ordered by
  project without repetition, a project has a row precisely when some repository grant maps to
  it, and that row carries the greatest permission among those grants, verified and expiring at
  the given instants.
\<close>

theorem projection_is_strongest_grant:
  assumes ok: "project_membership_projections es ids verified_at expires_at = Inr rows"
  shows "sorted (map mb_project rows) \<and> distinct (map mb_project rows) \<and>
    (\<forall>k p. (\<exists>r \<in> set rows. mb_project r = k \<and> mb_permission r = p) \<longleftrightarrow>
       grants_of ids es k \<noteq> {} \<and> p = Max (grants_of ids es k)) \<and>
    list_all (\<lambda>r. mb_verified_at r = verified_at \<and> mb_expires_at r = expires_at) rows"
proof -
  let ?row = "\<lambda>(pid, p). \<lparr>mb_project = pid, mb_permission = p, mb_verified_at = verified_at,
    mb_expires_at = expires_at\<rparr>"
  obtain bp where bp: "project_grants ids es {} [] = Inr bp"
    and rows: "validate_membership_projection (map ?row (sort_key fst bp)) = Inr rows"
    using ok by (auto simp: project_membership_projections_def split: if_splits sum.splits)
  then have r: "rows = map ?row (sort_key fst bp)" and
    v: "validate_rows {} (map ?row (sort_key fst bp)) = None"
    by (auto simp: validate_membership_projection_def split: option.splits)
  have proj: "map mb_project rows = map fst (sort_key fst bp)"
    by (simp add: r case_prod_unfold)
  have best: "distinct (map fst bp)" "map_of bp k = best_grant (grants_of ids es k)" for k
    using project_grants_best [OF bp] by simp_all
  have "(\<exists>r \<in> set rows. mb_project r = k \<and> mb_permission r = p) \<longleftrightarrow> (k, p) \<in> set bp" for k p
    by (force simp: r)
  also have "(k, p) \<in> set bp \<longleftrightarrow> grants_of ids es k \<noteq> {} \<and> p = Max (grants_of ids es k)" for k p
    using map_of_eq_Some_iff [OF best(1), of k p] best(2) [of k]
    by (cases "grants_of ids es k = {}") (auto simp: best_grant_def)
  finally have mem: "(\<exists>r \<in> set rows. mb_project r = k \<and> mb_permission r = p) \<longleftrightarrow>
      grants_of ids es k \<noteq> {} \<and> p = Max (grants_of ids es k)" for k p .
  moreover have "distinct (map mb_project rows)"
    using v r by (simp add: validate_rows_None)
  moreover have "sorted (map mb_project rows)" by (simp add: proj)
  moreover have "list_all (\<lambda>r. mb_verified_at r = verified_at \<and> mb_expires_at r = expires_at) rows"
    by (auto simp: r list_all_iff)
  ultimately show ?thesis by blast
qed

theorem projection_is_strongest_grant_witness:
  "\<exists>rows. project_membership_projections
      [\<lparr>ent_installation = 1, ent_repository = 10, ent_permission = VIEW\<rparr>,
       \<lparr>ent_installation = 1, ent_repository = 11, ent_permission = MANAGE\<rparr>]
      (\<lambda>k. if fst k = 1 then Some 7 else None) (utc 0) (utc 5) = Inr rows \<and>
     (\<exists>r \<in> set rows. mb_project r = 7 \<and> mb_permission r = MANAGE)"
proof -
  let ?es = "[\<lparr>ent_installation = 1, ent_repository = 10, ent_permission = VIEW\<rparr>,
       \<lparr>ent_installation = 1, ent_repository = 11, ent_permission = MANAGE\<rparr>]"
  let ?ids = "(\<lambda>k. if fst k = 1 then Some 7 else None) :: int \<times> int \<rightharpoonup> int"
  obtain rows where rows: "project_membership_projections ?es ?ids (utc 0) (utc 5) = Inr rows"
    by (simp add: project_membership_projections_def validate_membership_projection_def
        permission_rank_def dt_le_def utc_def)
  have "grants_of ?ids ?es 7 = {VIEW, MANAGE}" by (simp add: grants_of_Cons)
  moreover have "Max {VIEW, MANAGE} = MANAGE"
    by (simp add: max_def less_eq_permission_def permission_rank_def)
  ultimately have "\<exists>r \<in> set rows. mb_project r = 7 \<and> mb_permission r = MANAGE"
    using projection_is_strongest_grant [OF rows] by simp
  with rows show ?thesis by blast
qed

section \<open>Installation snapshots\<close>

datatype account_type = Account_user | Account_organization | Account_enterprise

datatype repo_selection = Selection_all | Selection_selected

datatype repo_visibility = Public | Private | Internal

record repository_snapshot =
  rs_repository_id :: int
  rs_owner_id :: int
  rs_full_name :: string
  rs_default_branch :: string
  rs_visibility :: repo_visibility
  rs_archived :: bool
  rs_disabled :: bool

record installation_snapshot =
  is_installation_id :: int
  is_owner_id :: int
  is_owner_login :: string
  is_account_type :: account_type
  is_selection :: repo_selection
  is_suspended_at :: "datetime option"
  is_deleted_at :: "datetime option"
  is_etag :: "string option"
  is_cursor :: "string option"
  is_repositories :: "repository_snapshot list"

datatype reconciliation_error = ReconciliationValidationError string

definition bounded_text :: "string \<Rightarrow> nat \<Rightarrow> bool" where
  "bounded_text value maximum \<longleftrightarrow>
     value \<noteq> [] \<and> length value \<le> maximum \<and>
     list_all (\<lambda>c. 32 \<le> (of_char c :: nat) \<and> (of_char c :: nat) \<noteq> 127) value"

definition aware_or :: "datetime \<Rightarrow> string \<Rightarrow> reconciliation_error option" where
  "aware_or value label =
     (if \<not> aware value
      then Some (ReconciliationValidationError (label @ '' time must be timezone-aware''))
      else None)"

text \<open>
  \<^verbatim>\<open>^[A-Za-z0-9](?:[A-Za-z0-9-]{0,37}[A-Za-z0-9])?/[A-Za-z0-9._-]{1,100}$\<close>: neither
  part may contain a slash, so the first slash separates them.
\<close>

definition owner_name :: "string \<Rightarrow> bool" where
  "owner_name s \<longleftrightarrow>
     s \<noteq> [] \<and> length s \<le> 39 \<and> is_alnum_ascii (hd s) \<and> is_alnum_ascii (last s) \<and>
     list_all (\<lambda>c. is_alnum_ascii c \<or> c = CHR ''-'') s"

definition repository_name :: "string \<Rightarrow> bool" where
  "repository_name s \<longleftrightarrow>
     s \<noteq> [] \<and> length s \<le> 100 \<and>
     list_all (\<lambda>c. is_alnum_ascii c \<or> c \<in> {CHR ''.'', CHR ''_'', CHR ''-''}) s"

definition full_name_ok :: "string \<Rightarrow> bool" where
  "full_name_ok s \<longleftrightarrow>
     owner_name (takeWhile (\<lambda>c. c \<noteq> CHR ''/'') s) \<and>
     (case dropWhile (\<lambda>c. c \<noteq> CHR ''/'') s of [] \<Rightarrow> False | _ # name \<Rightarrow> repository_name name)"

text \<open>\<^verbatim>\<open>full_name.rpartition("/")[2]\<close>\<close>

definition last_segment :: "string \<Rightarrow> string" where
  "last_segment s = rev (takeWhile (\<lambda>c. c \<noteq> CHR ''/'') (rev s))"

fun validate_repositories ::
    "int set \<Rightarrow> repository_snapshot list \<Rightarrow> reconciliation_error option" where
  "validate_repositories seen [] = None"
| "validate_repositories seen (item # rest) =
     (if rs_repository_id item \<le> 0 \<or> rs_repository_id item \<in> seen then
        Some (ReconciliationValidationError ''repository IDs must be unique and positive'')
      else if rs_owner_id item \<le> 0 \<or> \<not> full_name_ok (rs_full_name item) \<or>
              last_segment (rs_full_name item) \<in> {''.'', ''..''} then
        Some (ReconciliationValidationError ''repository identity is invalid'')
      else if \<not> bounded_text (rs_default_branch item) 256 then
        Some (ReconciliationValidationError ''repository default branch is invalid'')
      else validate_repositories (insert (rs_repository_id item) seen) rest)"

definition validate_installation_snapshot ::
    "installation_snapshot \<Rightarrow> reconciliation_error + installation_snapshot" where
  "validate_installation_snapshot s =
     (if is_installation_id s \<le> 0 \<or> is_owner_id s \<le> 0 then
        Inl (ReconciliationValidationError ''installation and owner IDs must be positive'')
      else if \<not> bounded_text (is_owner_login s) 128 then
        Inl (ReconciliationValidationError ''installation owner login is invalid'')
      else
        (case (case is_suspended_at s of None \<Rightarrow> None | Some t \<Rightarrow> aware_or t ''suspension'') of
           Some e \<Rightarrow> Inl e
         | None \<Rightarrow>
        (case (case is_deleted_at s of None \<Rightarrow> None | Some t \<Rightarrow> aware_or t ''deletion'') of
           Some e \<Rightarrow> Inl e
         | None \<Rightarrow>
           if (case is_etag s of None \<Rightarrow> False | Some v \<Rightarrow> \<not> bounded_text v 256) then
             Inl (ReconciliationValidationError ''repository ETag is invalid'')
           else if (case is_cursor s of None \<Rightarrow> False | Some v \<Rightarrow> \<not> bounded_text v 512) then
             Inl (ReconciliationValidationError ''reconciliation cursor is invalid'')
           else
             (case validate_repositories {} (is_repositories s) of
                Some e \<Rightarrow> Inl e
              | None \<Rightarrow> Inr s))))"

text \<open>
  The operations hand a validated request to the persistence port, a parameter here.
\<close>

definition reconcile_github_repositories ::
    "(installation_snapshot \<Rightarrow> datetime \<Rightarrow> 'r) \<Rightarrow> installation_snapshot \<Rightarrow> datetime
     \<Rightarrow> reconciliation_error + 'r" where
  "reconcile_github_repositories replace snapshot verified_at =
     (case validate_installation_snapshot snapshot of
        Inl e \<Rightarrow> Inl e
      | Inr _ \<Rightarrow>
          if \<not> aware verified_at then
            Inl (ReconciliationValidationError ''verification time must be timezone-aware'')
          else Inr (replace snapshot verified_at))"

definition deactivate_github_installation ::
    "(int \<Rightarrow> datetime \<Rightarrow> 'r) \<Rightarrow> int \<Rightarrow> datetime \<Rightarrow> reconciliation_error + 'r" where
  "deactivate_github_installation deactivate installation_id deleted_at =
     (if installation_id \<le> 0 then
        Inl (ReconciliationValidationError ''installation ID must be positive'')
      else (case aware_or deleted_at ''deletion'' of
              Some e \<Rightarrow> Inl e
            | None \<Rightarrow> Inr (deactivate installation_id deleted_at)))"

definition suspend_github_installation ::
    "(int \<Rightarrow> datetime \<Rightarrow> datetime \<Rightarrow> 'r) \<Rightarrow> int \<Rightarrow> datetime \<Rightarrow> datetime option
     \<Rightarrow> reconciliation_error + 'r" where
  "suspend_github_installation suspend installation_id suspended_at verified_at =
     (if installation_id \<le> 0 then
        Inl (ReconciliationValidationError ''installation ID must be positive'')
      else (case aware_or suspended_at ''suspension'' of
              Some e \<Rightarrow> Inl e
            | None \<Rightarrow>
                (let checked_at = (case verified_at of None \<Rightarrow> suspended_at | Some v \<Rightarrow> v) in
                 case aware_or checked_at ''verification'' of
                   Some e \<Rightarrow> Inl e
                 | None \<Rightarrow> Inr (suspend installation_id suspended_at checked_at))))"

text \<open>The snapshots that may reach the port, as one predicate.\<close>

definition repository_ok :: "repository_snapshot \<Rightarrow> bool" where
  "repository_ok r \<longleftrightarrow>
     0 < rs_repository_id r \<and> 0 < rs_owner_id r \<and> full_name_ok (rs_full_name r) \<and>
     last_segment (rs_full_name r) \<notin> {''.'', ''..''} \<and> bounded_text (rs_default_branch r) 256"

definition snapshot_ok :: "installation_snapshot \<Rightarrow> bool" where
  "snapshot_ok s \<longleftrightarrow>
     0 < is_installation_id s \<and> 0 < is_owner_id s \<and> bounded_text (is_owner_login s) 128 \<and>
     pred_option aware (is_suspended_at s) \<and> pred_option aware (is_deleted_at s) \<and>
     pred_option (\<lambda>v. bounded_text v 256) (is_etag s) \<and>
     pred_option (\<lambda>v. bounded_text v 512) (is_cursor s) \<and>
     distinct (map rs_repository_id (is_repositories s)) \<and>
     list_all repository_ok (is_repositories s)"

lemma validate_repositories_None:
  "validate_repositories seen items = None \<longleftrightarrow>
     distinct (map rs_repository_id items) \<and> seen \<inter> rs_repository_id ` set items = {} \<and>
     list_all repository_ok items"
  by (induction seen items rule: validate_repositories.induct) (auto simp: repository_ok_def)

lemma aware_or_None [simp]: "aware_or t l = None \<longleftrightarrow> aware t"
  by (simp add: aware_or_def)

lemma aware_or_Some [simp]:
  "aware_or t l = Some e \<longleftrightarrow>
     \<not> aware t \<and> e = ReconciliationValidationError (l @ '' time must be timezone-aware'')"
  by (auto simp: aware_or_def)

lemma validate_installation_snapshot_iff:
  "validate_installation_snapshot s = Inr t \<longleftrightarrow> snapshot_ok s \<and> t = s"
proof (cases "validate_repositories {} (is_repositories s)")
  case None
  then have "distinct (map rs_repository_id (is_repositories s))"
    "list_all repository_ok (is_repositories s)"
    by (simp_all add: validate_repositories_None)
  with None show ?thesis
    by (auto simp: validate_installation_snapshot_def snapshot_ok_def split: option.splits)
next
  case (Some e)
  then have "\<not> snapshot_ok s"
    using validate_repositories_None [of "{}" "is_repositories s"] by (auto simp: snapshot_ok_def)
  with Some show ?thesis
    by (auto simp: validate_installation_snapshot_def split: option.splits if_splits)
qed

text \<open>
  Nothing unvalidated reaches the reconciliation store: the port is called exactly for an
  aware verification time and a snapshot whose identifiers are positive, whose repositories are
  distinct and well named, and it receives that snapshot unchanged.
\<close>

theorem reconcile_only_validated:
  "reconcile_github_repositories replace snapshot verified_at = Inr r \<longleftrightarrow>
     snapshot_ok snapshot \<and> aware verified_at \<and> r = replace snapshot verified_at"
proof (cases "validate_installation_snapshot snapshot")
  case (Inl e)
  then have "\<not> snapshot_ok snapshot"
    using validate_installation_snapshot_iff [of snapshot snapshot] by auto
  with Inl show ?thesis by (simp add: reconcile_github_repositories_def)
next
  case (Inr t)
  then have "snapshot_ok snapshot" by (simp add: validate_installation_snapshot_iff)
  with Inr show ?thesis by (auto simp: reconcile_github_repositories_def)
qed

end
