(* ===== verification/Py_Codec.thy ===== *)
theory Py_Codec
  imports Prelude "HOL-Library.Word"
begin

unbundle bit_operations_syntax

text \<open>
  Bytes and their textual forms: unpadded base64url, lowercase hexadecimal and the canonical
  UUID, as the program uses them for token selectors, secrets, cookies, digests and request
  identifiers.  The locale \<open>text_codec\<close> is the interface the credential components rely on
  (what is encoded decodes to itself, over a fixed alphabet); base64url and hexadecimal
  interpret it.  The random-bytes port is a function from a generator state, and
  \<open>random_bytes_checked\<close> and \<open>random_uuid\<close> are the checked reads of it.
\<close>

section \<open>Bytes\<close>

type_synonym byte = "8 word"
type_synonym bytes = "byte list"

definition ascii_bytes :: "string \<Rightarrow> bytes" where
  "ascii_bytes s = map (\<lambda>c. word_of_nat (of_char c)) s"

lemma length_ascii_bytes [simp]: "length (ascii_bytes s) = length s"
  by (simp add: ascii_bytes_def)

lemma of_char_lt: "(of_char c :: nat) < 256"
  using nat_of_char_less_256 by simp

lemma ascii_bytes_inj: "ascii_bytes s = ascii_bytes t \<longleftrightarrow> s = t"
proof -
  have "inj (\<lambda>c. word_of_nat (of_char c) :: byte)"
  proof (rule injI)
    fix c d :: char
    assume "(word_of_nat (of_char c) :: byte) = word_of_nat (of_char d)"
    then have "(of_char c :: nat) mod 256 = of_char d mod 256"
      by (simp add: word_of_nat_eq_iff take_bit_eq_mod)
    then have "(of_char c :: nat) = of_char d" using of_char_lt [of c] of_char_lt [of d] by simp
    then show "c = d" by simp
  qed
  then show ?thesis by (simp add: ascii_bytes_def inj_map_eq_map)
qed

lemma unat_byte_lt: "unat (b :: byte) < 256"
  using unsigned_less [of b, where ?'a = nat] by simp

lemma word_of_nat_unat_byte: "word_of_nat (unat b) = (b :: byte)"
  by simp

section \<open>An encoding into a fixed alphabet\<close>

locale text_codec =
  fixes enc :: "bytes \<Rightarrow> string"
    and dec :: "string \<Rightarrow> bytes option"
    and letter :: "char \<Rightarrow> bool"
  assumes dec_enc: "dec (enc b) = Some b"
    and enc_letters: "list_all letter (enc b)"
begin

lemma enc_inject: "enc a = enc b \<longleftrightarrow> a = b"
  using dec_enc [of a] dec_enc [of b] by (metis option.inject)

text \<open>
  A decoder that re-encodes what it read and compares accepts exactly the encoder's image, so
  every accepted value has one spelling.
\<close>

lemma reencode_iff: "(\<exists>b. dec s = Some b \<and> enc b = s) \<longleftrightarrow> s \<in> range enc"
  using dec_enc by (auto simp: image_iff)

lemma canonical_unique:
  "dec s = Some b \<Longrightarrow> enc b = s \<Longrightarrow> dec t = Some b \<Longrightarrow> enc b = t \<Longrightarrow> s = t"
  by simp

lemma enc_member: "c \<in> set (enc b) \<Longrightarrow> letter c"
  using enc_letters by (auto simp: list_all_iff)

end

section \<open>Unpadded base64url\<close>

definition b64_char :: "nat \<Rightarrow> char" where
  "b64_char n =
     (if n < 26 then char_of (65 + n)
      else if n < 52 then char_of (71 + n)
      else if n < 62 then char_of (n - 4)
      else if n = 62 then char_of (45 :: nat) else char_of (95 :: nat))"

text \<open>
  \<^verbatim>\<open>b64decode\<close> with \<^verbatim>\<open>altchars\<close> maps \<open>-\<close> and \<open>_\<close> onto the
  standard letters and still reads \<open>+\<close> and \<open>/\<close>.
\<close>

definition b64_val :: "char \<Rightarrow> nat option" where
  "b64_val c =
     (let n = of_char c in
      if is_upper_az c then Some (n - 65)
      else if is_lower_az c then Some (n - 71)
      else if is_digit_09 c then Some (n + 4)
      else if n = 45 \<or> n = 43 then Some 62
      else if n = 95 \<or> n = 47 then Some 63
      else None)"

lemma b64_val_char: "n < 64 \<Longrightarrow> b64_val (b64_char n) = Some n"
  by (auto simp: b64_val_def b64_char_def char_class_defs Let_def)

lemma b64_char_letter: "n < 64 \<Longrightarrow> is_b64url (b64_char n)"
  by (auto simp: b64_char_def char_class_defs)

fun b64_encode :: "bytes \<Rightarrow> string" where
  "b64_encode [] = []"
| "b64_encode [a] = [b64_char (unat a div 4), b64_char (unat a mod 4 * 16)]"
| "b64_encode [a, b] =
     [b64_char (unat a div 4), b64_char (unat a mod 4 * 16 + unat b div 16),
      b64_char (unat b mod 16 * 4)]"
| "b64_encode (a # b # c # rest) =
     b64_char (unat a div 4) # b64_char (unat a mod 4 * 16 + unat b div 16)
     # b64_char (unat b mod 16 * 4 + unat c div 64) # b64_char (unat c mod 64)
     # b64_encode rest"

definition b64_byte1 :: "nat \<Rightarrow> nat \<Rightarrow> byte" where
  "b64_byte1 s0 s1 = word_of_nat (s0 * 4 + s1 div 16)"

definition b64_byte2 :: "nat \<Rightarrow> nat \<Rightarrow> byte" where
  "b64_byte2 s1 s2 = word_of_nat (s1 mod 16 * 16 + s2 div 4)"

definition b64_byte3 :: "nat \<Rightarrow> nat \<Rightarrow> byte" where
  "b64_byte3 s2 s3 = word_of_nat (s2 mod 4 * 64 + s3)"

text \<open>
  Decoding of text over the alphabet after the padding has been restored: a single trailing
  character is an error, and the unused low bits of the last character are ignored.
\<close>

fun b64_decode :: "string \<Rightarrow> bytes option" where
  "b64_decode [] = Some []"
| "b64_decode [x] = None"
| "b64_decode [x, y] =
     (case (b64_val x, b64_val y) of
        (Some p, Some q) \<Rightarrow> Some [b64_byte1 p q]
      | _ \<Rightarrow> None)"
| "b64_decode [x, y, z] =
     (case (b64_val x, b64_val y, b64_val z) of
        (Some p, Some q, Some r) \<Rightarrow> Some [b64_byte1 p q, b64_byte2 q r]
      | _ \<Rightarrow> None)"
| "b64_decode (x # y # z # w # rest) =
     (case (b64_val x, b64_val y, b64_val z, b64_val w) of
        (Some p, Some q, Some r, Some s) \<Rightarrow>
          map_option (\<lambda>bs. b64_byte1 p q # b64_byte2 q r # b64_byte3 r s # bs)
            (b64_decode rest)
      | _ \<Rightarrow> None)"

lemma b64_sextets:
  fixes a b c :: byte
  shows "unat a div 4 < 64" "unat a mod 4 * 16 < 64"
    "unat a mod 4 * 16 + unat b div 16 < 64" "unat b mod 16 * 4 < 64"
    "unat b mod 16 * 4 + unat c div 64 < 64" "unat c mod 64 < 64"
  using unat_byte_lt [of a] unat_byte_lt [of b] unat_byte_lt [of c] by auto

lemma pack_div: "q < m \<Longrightarrow> (x * m + q) div m = (x :: nat)"
  by (metis add.commute div_mult_self3 div_less gr_implies_not0 add_0_right)

lemma pack_mod: "q < m \<Longrightarrow> (x * m + q) mod m = (q :: nat)"
  by (simp add: mod_less)

lemma b64_unpack:
  fixes a b c :: byte
  shows "b64_byte1 (unat a div 4) (unat a mod 4 * 16) = a"
    "b64_byte1 (unat a div 4) (unat a mod 4 * 16 + unat b div 16) = a"
    "b64_byte2 (unat a mod 4 * 16 + unat b div 16) (unat b mod 16 * 4) = b"
    "b64_byte2 (unat a mod 4 * 16 + unat b div 16) (unat b mod 16 * 4 + unat c div 64) = b"
    "b64_byte3 (unat b mod 16 * 4 + unat c div 64) (unat c mod 64) = c"
proof -
  have lt: "unat b div 16 < 16" "unat c div 64 < 4"
    using unat_byte_lt [of b] unat_byte_lt [of c] by linarith+
  show "b64_byte1 (unat a div 4) (unat a mod 4 * 16) = a"
    by (simp add: b64_byte1_def)
  show "b64_byte1 (unat a div 4) (unat a mod 4 * 16 + unat b div 16) = a"
    by (simp only: b64_byte1_def pack_div [OF lt(1)] div_mult_mod_eq word_of_nat_unat_byte)
  have four: "unat b mod 16 * 4 div 4 = unat b mod 16" by simp
  show "b64_byte2 (unat a mod 4 * 16 + unat b div 16) (unat b mod 16 * 4) = b"
    by (simp only: b64_byte2_def pack_mod [OF lt(1)] four div_mult_mod_eq word_of_nat_unat_byte)
  show "b64_byte2 (unat a mod 4 * 16 + unat b div 16)
      (unat b mod 16 * 4 + unat c div 64) = b"
    by (simp only: b64_byte2_def pack_div [OF lt(2)] pack_mod [OF lt(1)] div_mult_mod_eq
        word_of_nat_unat_byte)
  show "b64_byte3 (unat b mod 16 * 4 + unat c div 64) (unat c mod 64) = c"
    by (simp only: b64_byte3_def pack_mod [OF lt(2)] div_mult_mod_eq word_of_nat_unat_byte)
qed

lemma b64_decode_encode: "b64_decode (b64_encode bs) = Some bs"
  by (induction bs rule: b64_encode.induct) (simp_all add: b64_val_char b64_sextets b64_unpack)

lemma b64_encode_letters: "list_all is_b64url (b64_encode bs)"
  by (induction bs rule: b64_encode.induct) (simp_all add: b64_char_letter b64_sextets)

lemma length_b64_encode: "length (b64_encode bs) = (4 * length bs + 2) div 3"
proof (induction bs rule: b64_encode.induct)
  case (4 a b c rest)
  have "(4 * Suc (Suc (Suc n)) + 2) div 3 = 4 + (4 * n + 2) div (3 :: nat)" for n by presburger
  with 4 show ?case by simp
qed simp_all

interpretation b64: text_codec b64_encode b64_decode is_b64url
  by unfold_locales (simp_all add: b64_decode_encode b64_encode_letters)

lemma b64_decode_length:
  "b64_decode s = Some bs \<Longrightarrow> length bs = 3 * length s div 4"
  by (induction s arbitrary: bs rule: b64_decode.induct) (auto split: option.splits)

section \<open>Lowercase hexadecimal\<close>

definition hex_char :: "nat \<Rightarrow> char" where
  "hex_char n = (if n < 10 then char_of (48 + n) else char_of (87 + n))"

definition hex_val :: "char \<Rightarrow> nat option" where
  "hex_val c =
     (let n = of_char c in
      if is_digit_09 c then Some (n - 48)
      else if is_lower_hex c then Some (n - 87)
      else None)"

lemma hex_val_char: "n < 16 \<Longrightarrow> hex_val (hex_char n) = Some n"
  by (auto simp: hex_val_def hex_char_def char_class_defs Let_def)

lemma hex_char_letter: "n < 16 \<Longrightarrow> is_lower_hex (hex_char n)"
  by (auto simp: hex_char_def char_class_defs)

fun hex_encode :: "bytes \<Rightarrow> string" where
  "hex_encode [] = []"
| "hex_encode (b # bs) = hex_char (unat b div 16) # hex_char (unat b mod 16) # hex_encode bs"

definition hex_byte :: "nat \<Rightarrow> nat \<Rightarrow> byte" where
  "hex_byte p q = word_of_nat (p * 16 + q)"

lemma hex_byte_nibbles: "hex_byte (unat b div 16) (unat b mod 16) = b"
  by (simp only: hex_byte_def div_mult_mod_eq word_of_nat_unat_byte)

fun hex_decode :: "string \<Rightarrow> bytes option" where
  "hex_decode [] = Some []"
| "hex_decode [x] = None"
| "hex_decode (x # y # rest) =
     (case (hex_val x, hex_val y) of
        (Some p, Some q) \<Rightarrow> map_option (\<lambda>bs. hex_byte p q # bs) (hex_decode rest)
      | _ \<Rightarrow> None)"

lemma hex_nibbles:
  fixes b :: byte
  shows "unat b div 16 < 16" "unat b mod 16 < 16"
  using unat_byte_lt [of b] by auto

lemma hex_decode_encode: "hex_decode (hex_encode bs) = Some bs"
  by (induction bs) (simp_all add: hex_val_char hex_nibbles hex_byte_nibbles)

lemma hex_encode_letters: "list_all is_lower_hex (hex_encode bs)"
  by (induction bs) (simp_all add: hex_char_letter hex_nibbles)

lemma length_hex_encode [simp]: "length (hex_encode bs) = 2 * length bs"
  by (induction bs) simp_all

interpretation hexa: text_codec hex_encode hex_decode is_lower_hex
  by unfold_locales (simp_all add: hex_decode_encode hex_encode_letters)

text \<open>\<^verbatim>\<open>sha256(...).hexdigest()\<close> is canonical when the digest has 32 bytes.\<close>

lemma sha256_hex_encode: "length d = 32 \<Longrightarrow> sha256_hex (hex_encode d)"
  by (simp add: sha256_hex_def hex_encode_letters)

section \<open>Canonical UUIDs\<close>

text \<open>\<^verbatim>\<open>str(uuid.UUID(bytes=value))\<close>\<close>

definition uuid_text :: "bytes \<Rightarrow> string" where
  "uuid_text bs =
     (let h = hex_encode bs in
      take 8 h @ ''-'' @ take 4 (drop 8 h) @ ''-'' @ take 4 (drop 12 h) @ ''-'' @
      take 4 (drop 16 h) @ ''-'' @ drop 20 h)"

text \<open>
  \<^verbatim>\<open>str(uuid.UUID(s)) == s\<close> holds exactly for the 8-4-4-4-12 lowercase form; the
  version field is the first digit of the third group and counts only for the RFC variant.
\<close>

definition canonical_uuid :: "string \<Rightarrow> bool" where
  "canonical_uuid s \<longleftrightarrow>
     length s = 36 \<and>
     list_all is_lower_hex (take 8 s) \<and> s ! 8 = CHR ''-'' \<and>
     list_all is_lower_hex (take 4 (drop 9 s)) \<and> s ! 13 = CHR ''-'' \<and>
     list_all is_lower_hex (take 4 (drop 14 s)) \<and> s ! 18 = CHR ''-'' \<and>
     list_all is_lower_hex (take 4 (drop 19 s)) \<and> s ! 23 = CHR ''-'' \<and>
     list_all is_lower_hex (drop 24 s)"

definition uuid_version_is :: "char \<Rightarrow> string \<Rightarrow> bool" where
  "uuid_version_is v s \<longleftrightarrow> s ! 14 = v \<and> s ! 19 \<in> set ''89ab''"

definition canonical_uuid4 :: "string \<Rightarrow> bool" where
  "canonical_uuid4 s \<longleftrightarrow> canonical_uuid s \<and> uuid_version_is (CHR ''4'') s"

definition canonical_uuid5 :: "string \<Rightarrow> bool" where
  "canonical_uuid5 s \<longleftrightarrow> canonical_uuid s \<and> uuid_version_is (CHR ''5'') s"

lemma length_16E:
  assumes "length bs = 16"
  obtains b0 b1 b2 b3 b4 b5 b6 b7 b8 b9 b10 b11 b12 b13 b14 b15
  where "bs = [b0, b1, b2, b3, b4, b5, b6, b7, b8, b9, b10, b11, b12, b13, b14, b15]"
  using assms by (auto simp: eval_nat_numeral length_Suc_conv)

lemma canonical_uuid_text: "length bs = 16 \<Longrightarrow> canonical_uuid (uuid_text bs)"
  by (erule length_16E)
    (simp add: canonical_uuid_def uuid_text_def hex_char_letter hex_nibbles)

section \<open>The random-bytes port\<close>

text \<open>
  A generator is a function from its state and a requested size to bytes and the next state.
  A port that returns the wrong number of bytes is an error of the runtime.
\<close>

type_synonym 'r random_port = "'r \<Rightarrow> nat \<Rightarrow> bytes \<times> 'r"

definition random_bytes_checked :: "'r random_port \<Rightarrow> 'r \<Rightarrow> nat \<Rightarrow> string + bytes \<times> 'r" where
  "random_bytes_checked port r n =
     (case port r n of (value, r') \<Rightarrow>
        if length value = n then Inr (value, r')
        else Inl ''random port returned invalid value'')"

definition stamp_uuid4 :: "bytes \<Rightarrow> bytes" where
  "stamp_uuid4 v = v[6 := (v ! 6 AND 0x0F) OR 0x40, 8 := (v ! 8 AND 0x3F) OR 0x80]"

definition random_uuid :: "'r random_port \<Rightarrow> 'r \<Rightarrow> string + string \<times> 'r" where
  "random_uuid port r =
     (case random_bytes_checked port r 16 of
        Inl e \<Rightarrow> Inl e
      | Inr (value, r') \<Rightarrow> Inr (uuid_text (stamp_uuid4 value), r'))"

lemma random_bytes_checked_length:
  "random_bytes_checked port r n = Inr (v, r') \<Longrightarrow> length v = n"
  by (auto simp: random_bytes_checked_def split: prod.splits if_splits)

lemma or_disjoint_nat:
  fixes m :: nat
  assumes "m < 2 ^ k"
  shows "m OR 2 ^ k = m + 2 ^ k"
proof -
  have "\<not> bit m k" using assms by (simp add: bit_iff_odd)
  then have "m AND 2 ^ k = 0"
    by (simp add: and_exp_eq_0_iff_not_bit)
  then show ?thesis by (simp add: disjunctive_add_eq_or)
qed

lemma unat_and_mask: "unat ((b :: byte) AND mask n) = unat b mod 2 ^ n"
proof -
  have "unat (take_bit n b) = take_bit n (unat b)" by (rule unsigned_take_bit_eq)
  then show ?thesis by (simp only: take_bit_eq_mask [of n b] take_bit_eq_mod [of n "unat b"])
qed

lemma stamp6_unat: "unat (((b :: byte) AND 0x0F) OR 0x40) = unat b mod 16 + 64"
  using unat_and_mask [of b 4] or_disjoint_nat [of "unat b mod 16" 6]
  by (simp add: unsigned_or_eq mask_numeral)

lemma stamp8_unat: "unat (((b :: byte) AND 0x3F) OR 0x80) = unat b mod 64 + 128"
  using unat_and_mask [of b 6] or_disjoint_nat [of "unat b mod 64" 7]
  by (simp add: unsigned_or_eq mask_numeral)

lemma stamp6_div: "unat (((b :: byte) AND 0x0F) OR 0x40) div 16 = 4"
  by (simp add: stamp6_unat)

lemma stamp8_div: "unat (((b :: byte) AND 0x3F) OR 0x80) div 16 \<in> {8, 9, 10, 11}"
proof -
  have "(unat b mod 64 + 128) div 16 \<in> {8, 9, 10, 11 :: nat}"
    by (simp, linarith)
  then show ?thesis by (simp add: stamp8_unat)
qed

lemma hex_char_4: "hex_char 4 = CHR ''4''"
  by (simp add: hex_char_def char_of_eq_iff)

lemma hex_char_variant: "n \<in> {8, 9, 10, 11} \<Longrightarrow> hex_char n \<in> set ''89ab''"
  by (auto simp: hex_char_def char_of_eq_iff)

lemma canonical_uuid4_stamp:
  assumes "length v = 16"
  shows "canonical_uuid4 (uuid_text (stamp_uuid4 v))"
proof -
  have canonical: "canonical_uuid (uuid_text (stamp_uuid4 v))"
    using assms by (intro canonical_uuid_text) (simp add: stamp_uuid4_def)
  obtain b0 b1 b2 b3 b4 b5 b6 b7 b8 b9 b10 b11 b12 b13 b14 b15 where
    v: "v = [b0, b1, b2, b3, b4, b5, b6, b7, b8, b9, b10, b11, b12, b13, b14, b15]"
    using assms by (rule length_16E)
  have "uuid_text (stamp_uuid4 v) ! 14 = hex_char (unat ((b6 AND 0x0F) OR 0x40) div 16)"
    and "uuid_text (stamp_uuid4 v) ! 19 = hex_char (unat ((b8 AND 0x3F) OR 0x80) div 16)"
    by (simp_all add: uuid_text_def stamp_uuid4_def v)
  then have "uuid_version_is (CHR ''4'') (uuid_text (stamp_uuid4 v))"
    using hex_char_variant [OF stamp8_div [of b8]]
    by (simp add: uuid_version_is_def stamp6_div hex_char_4)
  with canonical show ?thesis by (simp add: canonical_uuid4_def)
qed

lemma random_uuid_canonical:
  "random_uuid port r = Inr (u, r') \<Longrightarrow> canonical_uuid4 u"
  by (auto simp: random_uuid_def canonical_uuid4_stamp dest: random_bytes_checked_length
      split: sum.splits)

lemma canonical_uuid_length: "canonical_uuid s \<Longrightarrow> length s = 36"
  by (simp add: canonical_uuid_def)

lemma canonical_uuid4_uuid: "canonical_uuid4 s \<Longrightarrow> canonical_uuid s"
  by (simp add: canonical_uuid4_def)

text \<open>A generator that always returns zero bytes.\<close>

definition zero_port :: "unit random_port" where
  "zero_port r n = (replicate n 0, r)"

lemma zero_port_uuid: "\<exists>u. random_uuid zero_port () = Inr (u, ())"
  by (simp add: random_uuid_def random_bytes_checked_def zero_port_def)

lemma zero_port_bytes: "random_bytes_checked zero_port () n = Inr (replicate n 0, ())"
  by (simp add: random_bytes_checked_def zero_port_def)

end
