(* ===== verification/Py_Text.thy ===== *)
theory Py_Text
  imports Prelude Py_Codec
begin

text \<open>
  Text codecs of the standard library: UTF-8 in both directions, padded base64url with the
  lenient decoder of \<^verbatim>\<open>binascii\<close>, and decimal numerals.  Text that may hold any
  character is a list of code points.
\<close>

section \<open>UTF-8\<close>

type_synonym codes = "nat list"

definition codes_of :: "string \<Rightarrow> codes" where
  "codes_of s = map of_char s"

text \<open>The scalar values: everything up to 10FFFF except the surrogates.\<close>

definition scalar_value :: "nat \<Rightarrow> bool" where
  "scalar_value c \<longleftrightarrow> c < 55296 \<or> 57344 \<le> c \<and> c < 1114112"

definition utf8_char :: "nat \<Rightarrow> nat list" where
  "utf8_char c =
     (if c < 128 then [c]
      else if c < 2048 then [192 + c div 64, 128 + c mod 64]
      else if c < 65536 then [224 + c div 4096, 128 + c div 64 mod 64, 128 + c mod 64]
      else [240 + c div 262144, 128 + c div 4096 mod 64, 128 + c div 64 mod 64, 128 + c mod 64])"

definition utf8_encode :: "codes \<Rightarrow> bytes option" where
  "utf8_encode s =
     (if list_all scalar_value s then Some (map word_of_nat (concat (map utf8_char s))) else None)"

definition continuation :: "nat \<Rightarrow> bool" where
  "continuation b \<longleftrightarrow> 128 \<le> b \<and> b < 192"

definition accept_code :: "bool \<Rightarrow> nat \<Rightarrow> codes option \<Rightarrow> codes option" where
  "accept_code ok c rest = (if ok then map_option ((#) c) rest else None)"

text \<open>
  The decoder refuses overlong forms and code points outside \<open>admits\<close>; the strict one admits
  the scalar values.
\<close>

fun utf8_read :: "(nat \<Rightarrow> bool) \<Rightarrow> nat list \<Rightarrow> codes option" where
  "utf8_read admits [] = Some []"
| "utf8_read admits (a # s) =
     (if a < 128 then map_option ((#) a) (utf8_read admits s)
      else case s of
        [] \<Rightarrow> None
      | b # s1 \<Rightarrow>
          if \<not> continuation b then None
          else if 192 \<le> a \<and> a < 224 then
            (let c = (a - 192) * 64 + (b - 128) in accept_code (128 \<le> c \<and> admits c) c (utf8_read admits s1))
          else case s1 of
            [] \<Rightarrow> None
          | d # s2 \<Rightarrow>
              if \<not> continuation d then None
              else if 224 \<le> a \<and> a < 240 then
                (let c = (a - 224) * 4096 + (b - 128) * 64 + (d - 128)
                 in accept_code (2048 \<le> c \<and> admits c) c (utf8_read admits s2))
              else case s2 of
                [] \<Rightarrow> None
              | e # s3 \<Rightarrow>
                  if continuation e \<and> 240 \<le> a \<and> a < 248 then
                    (let c = (a - 240) * 262144 + (b - 128) * 4096 + (d - 128) * 64 + (e - 128)
                     in accept_code (65536 \<le> c \<and> admits c) c (utf8_read admits s3))
                  else None)"

definition utf8_decode :: "bytes \<Rightarrow> codes option" where
  "utf8_decode bs = utf8_read scalar_value (map unat bs)"

lemma split4096: "c div 4096 * 4096 + c div 64 mod 64 * 64 + c mod 64 = (c :: nat)"
proof -
  have scale: "x * 4096 + y * 64 = (x * 64 + y) * 64" for x y :: nat by simp
  have "c div 4096 = c div 64 div 64" by (simp flip: div_mult2_eq)
  then show ?thesis by (simp only: scale div_mult_mod_eq)
qed

lemma split262144:
  "c div 262144 * 262144 + c div 4096 mod 64 * 4096 + c div 64 mod 64 * 64 + c mod 64 = (c :: nat)"
proof -
  have scale: "x * 262144 + y * 4096 = (x * 64 + y) * 4096" for x y :: nat by simp
  have "c div 262144 = c div 4096 div 64" by (simp flip: div_mult2_eq)
  then show ?thesis by (simp only: scale div_mult_mod_eq split4096)
qed

lemma utf8_read_char:
  assumes "scalar_value c"
  shows "utf8_read scalar_value (utf8_char c @ s) = map_option ((#) c) (utf8_read scalar_value s)"
proof -
  have m: "c div 64 mod 64 < 64" "c mod 64 < 64" "c div 4096 mod 64 < 64" by simp_all
  consider "c < 128" | "128 \<le> c" "c < 2048" | "2048 \<le> c" "c < 65536" | "65536 \<le> c" by linarith
  then show ?thesis
  proof cases
    case 1
    then show ?thesis by (simp add: utf8_char_def)
  next
    case 2
    then have "c div 64 < 32" by simp
    with 2 m assms show ?thesis
      by (simp add: utf8_char_def continuation_def accept_code_def)
  next
    case 3
    then have form: "utf8_char c = [224 + c div 4096, 128 + c div 64 mod 64, 128 + c mod 64]"
      by (simp add: utf8_char_def)
    from 3 have "224 + c div 4096 < 240" by simp
    with m assms 3 show ?thesis
      unfolding form by (simp add: continuation_def accept_code_def Let_def split4096)
  next
    case 4
    then have form: "utf8_char c =
        [240 + c div 262144, 128 + c div 4096 mod 64, 128 + c div 64 mod 64, 128 + c mod 64]"
      by (simp add: utf8_char_def)
    from 4 assms have "240 + c div 262144 < 248" by (simp add: scalar_value_def)
    with m assms 4 show ?thesis
      unfolding form by (simp add: continuation_def accept_code_def Let_def split262144)
  qed
qed

lemma utf8_read_concat:
  "list_all scalar_value s \<Longrightarrow> utf8_read scalar_value (concat (map utf8_char s)) = Some s"
  by (induction s) (simp_all add: utf8_read_char)

lemma utf8_char_bytes: "scalar_value c \<Longrightarrow> list_all (\<lambda>b. b < 256) (utf8_char c)"
  by (auto simp: utf8_char_def scalar_value_def)

lemma utf8_bytes: "list_all scalar_value s \<Longrightarrow> list_all (\<lambda>b. b < 256) (concat (map utf8_char s))"
  by (induction s) (simp_all add: utf8_char_bytes)

lemma unat_bytes: "list_all (\<lambda>b. b < 256) bs \<Longrightarrow> map (unat \<circ> (word_of_nat :: nat \<Rightarrow> byte)) bs = bs"
  by (induction bs) (simp_all add: unat_of_nat)

lemma utf8_roundtrip: "utf8_encode s = Some bs \<Longrightarrow> utf8_decode bs = Some s"
  by (auto simp: utf8_encode_def utf8_decode_def unat_bytes utf8_bytes utf8_read_concat split: if_splits)

section \<open>Padded base64url\<close>

unbundle bit_operations_syntax

definition urlsafe_b64encode :: "bytes \<Rightarrow> string" where
  "urlsafe_b64encode bs = b64_encode bs @ replicate ((3 - length bs mod 3) mod 3) (CHR ''='')"

text \<open>
  The lenient decoder: characters outside the alphabet are skipped, enough padding ends the
  text, and an unfinished group of four is an error.  Its registers are the position in the
  group, the bits left over and the number of pads seen.
\<close>

fun a2b_base64 :: "nat \<Rightarrow> nat \<Rightarrow> nat \<Rightarrow> string \<Rightarrow> bytes option" where
  "a2b_base64 quad left pads [] = (if quad = 0 then Some [] else None)"
| "a2b_base64 quad left pads (c # s) =
     (if c = CHR ''='' then
        (if 2 \<le> quad \<and> 4 \<le> quad + Suc pads then Some []
         else a2b_base64 quad left (if 2 \<le> quad then Suc pads else pads) s)
      else case b64_val c of
        None \<Rightarrow> a2b_base64 quad left pads s
      | Some v \<Rightarrow>
          (if quad = 0 then a2b_base64 1 v 0 s
           else if quad = 1 then
             map_option ((#) (word_of_nat (left * 4 + v div 16))) (a2b_base64 2 (v mod 16) 0 s)
           else if quad = 2 then
             map_option ((#) (word_of_nat (left * 16 + v div 4))) (a2b_base64 3 (v mod 4) 0 s)
           else map_option ((#) (word_of_nat (left * 64 + v))) (a2b_base64 0 0 0 s)))"

definition urlsafe_b64decode :: "string \<Rightarrow> bytes option" where
  "urlsafe_b64decode s = (if list_all is_ascii_char s then a2b_base64 0 0 0 s else None)"

lemma a2b_nil: "a2b_base64 quad left pads [] = (if quad = 0 then Some [] else None)"
  by simp

lemma a2b_pad: "a2b_base64 quad left pads (CHR ''='' # s) =
    (if 2 \<le> quad \<and> 4 \<le> quad + Suc pads then Some []
     else a2b_base64 quad left (if 2 \<le> quad then Suc pads else pads) s)"
  by simp

lemma a2b_char: "n < 64 \<Longrightarrow> a2b_base64 quad left pads (b64_char n # s) =
    (if quad = 0 then a2b_base64 1 n 0 s
     else if quad = 1 then map_option ((#) (word_of_nat (left * 4 + n div 16))) (a2b_base64 2 (n mod 16) 0 s)
     else if quad = 2 then map_option ((#) (word_of_nat (left * 16 + n div 4))) (a2b_base64 3 (n mod 4) 0 s)
     else map_option ((#) (word_of_nat (left * 64 + n))) (a2b_base64 0 0 0 s))"
proof -
  assume n: "n < 64"
  have "b64_val (CHR ''='') = None" by (simp add: b64_val_def char_class_defs)
  then have "b64_char n \<noteq> CHR ''=''" using b64_val_char [OF n] by auto
  then show ?thesis using b64_val_char [OF n] by simp
qed

declare a2b_base64.simps [simp del]

lemmas a2b_simps = a2b_nil a2b_pad a2b_char

lemma a2b_encode:
  "a2b_base64 0 0 0 (b64_encode bs @ replicate ((3 - length bs mod 3) mod 3) (CHR ''='')) = Some bs"
proof (induction bs rule: b64_encode.induct)
  case (2 a)
  have two: "replicate 2 x = [x, x]" for x :: char by (simp add: numeral_2_eq_2)
  have "replicate ((3 - length [a] mod 3) mod 3) (CHR ''='') = ''==''" by (simp add: two)
  then show ?case using b64_unpack(1) [of a]
    by (simp only: b64_encode.simps append.simps a2b_simps b64_sextets b64_byte1_def) simp
next
  case (3 a b)
  have "replicate ((3 - length [a, b] mod 3) mod 3) (CHR ''='') = ''=''" by simp
  then show ?case using b64_unpack(2) [of a b] b64_unpack(3) [of a b]
    by (simp only: b64_encode.simps append.simps a2b_simps b64_sextets b64_byte1_def b64_byte2_def)
      simp
next
  case (4 a b c rest)
  have "length (a # b # c # rest) mod 3 = length rest mod 3" by simp
  with 4 show ?case
    using b64_unpack(2) [of a b] b64_unpack(4) [of a b c] b64_unpack(5) [of b c]
    by (simp add: a2b_simps b64_sextets b64_byte1_def b64_byte2_def b64_byte3_def)
qed (simp add: a2b_nil)

lemma b64url_ascii: "is_b64url c \<Longrightarrow> is_ascii_char c \<and> c \<noteq> CHR ''.''"
proof
  show "is_b64url c \<Longrightarrow> is_ascii_char c" by (auto simp: char_class_defs)
  have "\<not> is_b64url (CHR ''.'')" by (simp add: char_class_defs)
  then show "is_b64url c \<Longrightarrow> c \<noteq> CHR ''.''" by blast
qed

lemma b64_part: "list_all is_ascii_char (urlsafe_b64encode bs) \<and> CHR ''.'' \<notin> set (urlsafe_b64encode bs)"
proof -
  have "is_ascii_char c \<and> c \<noteq> CHR ''.''" if "c \<in> set (urlsafe_b64encode bs)" for c
  proof -
    from that have "is_b64url c \<or> c = CHR ''=''"
      using b64_encode_letters [of bs] by (auto simp: urlsafe_b64encode_def list_all_iff)
    moreover have "is_ascii_char (CHR ''='')" by (simp add: is_ascii_char_def)
    ultimately show ?thesis using b64url_ascii by auto
  qed
  then show ?thesis unfolding list_all_iff by blast
qed

lemma urlsafe_roundtrip: "urlsafe_b64decode (urlsafe_b64encode bs) = Some bs"
  using b64_part [of bs] a2b_encode [of bs] by (simp add: urlsafe_b64decode_def urlsafe_b64encode_def)

section \<open>Decimal numerals\<close>

text \<open>Decimal text, most significant digit first.\<close>

definition digit_val :: "char \<Rightarrow> nat" where
  "digit_val c = of_char c - 48"

fun decimal_val :: "nat \<Rightarrow> string \<Rightarrow> nat" where
  "decimal_val acc [] = acc"
| "decimal_val acc (c # cs) = decimal_val (10 * acc + digit_val c) cs"


text \<open>\<^verbatim>\<open>str(n)\<close> of a natural number.\<close>

function decimal :: "nat \<Rightarrow> string" where
  "decimal n = (if n < 10 then [char_of (48 + n)] else decimal (n div 10) @ [char_of (48 + n mod 10)])"
  by pat_completeness auto

termination by (relation "measure id") auto

declare decimal.simps [simp del]

lemma digit_char: "d < 10 \<Longrightarrow> is_digit_09 (char_of (48 + d)) \<and> digit_val (char_of (48 + d)) = d"
  by (simp add: is_digit_09_def digit_val_def)

lemma decimal_digits: "list_all is_digit_09 (decimal n) \<and> decimal n \<noteq> []"
proof (induction n rule: decimal.induct)
  case (1 n)
  show ?case
  proof (cases "n < 10")
    case True
    then show ?thesis by (subst (1 2) decimal.simps) (simp add: digit_char)
  next
    case False
    with 1 show ?thesis using digit_char [of "n mod 10"] by (subst (1 2) decimal.simps) simp
  qed
qed

lemma decimal_val_append: "decimal_val acc (s @ t) = decimal_val (decimal_val acc s) t"
  by (induction s arbitrary: acc) auto

lemma decimal_val_decimal: "decimal_val 0 (decimal n) = n"
proof (induction n rule: decimal.induct)
  case (1 n)
  show ?case
  proof (cases "n < 10")
    case True
    then show ?thesis by (subst decimal.simps) (simp add: digit_char)
  next
    case False
    with 1 show ?thesis
      by (subst decimal.simps) (simp add: decimal_val_append digit_char)
  qed
qed

lemma length_decimal: "n < 10 ^ k \<Longrightarrow> 0 < k \<Longrightarrow> length (decimal n) \<le> k"
proof (induction n arbitrary: k rule: decimal.induct)
  case (1 n)
  show ?case
  proof (cases "n < 10")
    case True
    with "1.prems" show ?thesis by (subst decimal.simps) simp
  next
    case False
    then obtain j where j: "k = Suc j" "0 < j"
      using "1.prems" by (cases k; cases "k - 1") auto
    then have "n div 10 < 10 ^ j" using "1.prems" by (simp add: less_mult_imp_div_less mult.commute)
    with "1.IH" [of j] False j show ?thesis by (subst decimal.simps) simp
  qed
qed

text \<open>\<^verbatim>\<open>str(n)\<close> of an integer.\<close>

definition decimal_int :: "int \<Rightarrow> string" where
  "decimal_int n = (if n < 0 then CHR ''-'' # decimal (nat (- n)) else decimal (nat n))"

text \<open>UTF-8 of text whose characters are code points 0 to 255, which always encodes.\<close>

definition utf8_bytes_of :: "string \<Rightarrow> bytes" where
  "utf8_bytes_of s = map word_of_nat (concat (map utf8_char (codes_of s)))"

lemma utf8_encode_codes: "utf8_encode (codes_of s) = Some (utf8_bytes_of s)"
proof -
  have "scalar_value (of_char c)" for c :: char
    using of_char_lt [of c] unfolding scalar_value_def by linarith
  then show ?thesis by (simp add: utf8_encode_def utf8_bytes_of_def codes_of_def list_all_iff)
qed

section \<open>White space\<close>

text \<open>Python's white space among the characters 0 to 255.\<close>

definition py_space :: "char \<Rightarrow> bool" where
  "py_space c \<longleftrightarrow>
     9 \<le> (of_char c :: nat) \<and> (of_char c :: nat) \<le> 13 \<or>
     28 \<le> (of_char c :: nat) \<and> (of_char c :: nat) \<le> 32 \<or>
     (of_char c :: nat) = 133 \<or> (of_char c :: nat) = 160"

definition py_strip :: "string \<Rightarrow> string" where
  "py_strip s = rev (dropWhile py_space (rev (dropWhile py_space s)))"

end
