(* ===== verification/Py_Url.thy ===== *)
theory Py_Url
  imports Py_Text
begin

text \<open>
  What the program uses of \<^verbatim>\<open>urllib.parse\<close>: \<^verbatim>\<open>urlsplit\<close> and the
  \<^verbatim>\<open>hostname\<close> and \<^verbatim>\<open>port\<close> properties of its result.  The checks on
  a bracketed or non-ASCII network location are the parameter \<open>netloc_ok\<close>.  \<^const>\<open>None\<close> is
  the \<^verbatim>\<open>ValueError\<close> of the library.
\<close>

record split_url =
  url_scheme :: string
  url_netloc :: string
  url_path :: string
  url_query :: string
  url_fragment :: string

text \<open>\<^verbatim>\<open>text.partition(sep)\<close>: the part before, whether it was found, the part after.\<close>

fun partition_on :: "char \<Rightarrow> string \<Rightarrow> string \<times> bool \<times> string" where
  "partition_on sep [] = ([], False, [])"
| "partition_on sep (c # cs) =
     (if c = sep then ([], True, cs)
      else case partition_on sep cs of (a, found, b) \<Rightarrow> (c # a, found, b))"

text \<open>The third component of \<^verbatim>\<open>text.rpartition(sep)\<close>.\<close>

definition after_last :: "char \<Rightarrow> string \<Rightarrow> string" where
  "after_last sep s = rev (takeWhile (\<lambda>c. c \<noteq> sep) (rev s))"

text \<open>\<^verbatim>\<open>str.lower\<close> on the code points 0 to 255.\<close>

definition lower_char :: "char \<Rightarrow> char" where
  "lower_char c =
     (if is_upper_az c \<or>
         192 \<le> (of_char c :: nat) \<and> (of_char c :: nat) \<le> 222 \<and> (of_char c :: nat) \<noteq> 215
      then char_of ((of_char c :: nat) + 32) else c)"

definition py_lower :: "string \<Rightarrow> string" where
  "py_lower s = map lower_char s"

definition control_or_space :: "char \<Rightarrow> bool" where
  "control_or_space c \<longleftrightarrow> (of_char c :: nat) \<le> 32"

definition unsafe_url_char :: "char \<Rightarrow> bool" where
  "unsafe_url_char c \<longleftrightarrow> (of_char c :: nat) \<in> {9, 10, 13}"

definition scheme_char :: "char \<Rightarrow> bool" where
  "scheme_char c \<longleftrightarrow> is_alnum_ascii c \<or> c \<in> set ''+-.''"

definition ascii_alpha :: "char \<Rightarrow> bool" where
  "ascii_alpha c \<longleftrightarrow> is_upper_az c \<or> is_lower_az c"

definition split_scheme :: "string \<Rightarrow> string \<times> string" where
  "split_scheme url =
     (case partition_on (CHR '':'') url of (before, found, rest) \<Rightarrow>
        if found \<and> before \<noteq> [] \<and> ascii_alpha (hd before) \<and> list_all scheme_char before
        then (py_lower before, rest) else ([], url))"

definition netloc_end :: "char \<Rightarrow> bool" where
  "netloc_end c \<longleftrightarrow> c \<in> set ''/?#''"

definition split_netloc :: "string \<Rightarrow> string \<times> string" where
  "split_netloc url =
     (if take 2 url = ''//''
      then (takeWhile (\<lambda>c. \<not> netloc_end c) (drop 2 url),
            dropWhile (\<lambda>c. \<not> netloc_end c) (drop 2 url))
      else ([], url))"

definition urlsplit :: "(string \<Rightarrow> bool) \<Rightarrow> string \<Rightarrow> split_url option" where
  "urlsplit netloc_ok value =
     (let url = filter (\<lambda>c. \<not> unsafe_url_char c) (dropWhile control_or_space value);
          (scheme, url1) = split_scheme url;
          (netloc, url2) = split_netloc url1
      in if (CHR ''['' \<in> set netloc) \<noteq> (CHR '']'' \<in> set netloc) \<or> \<not> netloc_ok netloc then None
         else
           (case partition_on (CHR ''#'') url2 of (url3, _, fragment) \<Rightarrow>
            case partition_on (CHR ''?'') url3 of (path, _, query) \<Rightarrow>
              Some \<lparr>url_scheme = scheme, url_netloc = netloc, url_path = path, url_query = query,
                    url_fragment = fragment\<rparr>))"

text \<open>Host and port text of a network location.\<close>

definition hostinfo :: "string \<Rightarrow> string \<times> string" where
  "hostinfo netloc =
     (let info = after_last (CHR ''@'') netloc in
      case partition_on (CHR ''['') info of (_, bracket, bracketed) \<Rightarrow>
        if bracket then
          (case partition_on (CHR '']'') bracketed of (host, _, after) \<Rightarrow>
           case partition_on (CHR '':'') after of (_, _, port) \<Rightarrow> (host, port))
        else case partition_on (CHR '':'') info of (host, _, port) \<Rightarrow> (host, port))"

definition url_hostname :: "split_url \<Rightarrow> string option" where
  "url_hostname u =
     (case fst (hostinfo (url_netloc u)) of
        [] \<Rightarrow> None
      | host \<Rightarrow>
          (case partition_on (CHR ''%'') host of (name, percent, zone) \<Rightarrow>
             Some (py_lower name @ (if percent then CHR ''%'' # zone else []))))"

text \<open>
  The outer option is the \<^verbatim>\<open>ValueError\<close> for a port that is no number or out of range,
  the inner one an absent port.
\<close>

definition url_port :: "split_url \<Rightarrow> nat option option" where
  "url_port u =
     (let port = snd (hostinfo (url_netloc u)) in
      if port = [] then Some None
      else if \<not> list_all is_digit_09 port then None
      else if decimal_val 0 port \<le> 65535 then Some (Some (decimal_val 0 port)) else None)"

section \<open>Partition\<close>

lemma partition_on_absent: "sep \<notin> set s \<Longrightarrow> partition_on sep s = (s, False, [])"
  by (induction s) auto

lemma partition_on_append: "sep \<notin> set a \<Longrightarrow> partition_on sep (a @ sep # b) = (a, True, b)"
  by (induction a) auto

end
