(* ===== verification/Browser_Csrf.thy ===== *)
theory Browser_Csrf
  imports Py_Text Py_Url
begin

text \<open>
  Signed double-submit tokens (\<^verbatim>\<open>access/browser_csrf\<close>).  A token is
  \<^verbatim>\<open>nonce.expiry.signature\<close>; the keyed hash is the parameter \<open>hmac\<close>.
\<close>

datatype csrf_error = Csrf_TypeError | Csrf_ValueError | Csrf_PortError string

definition CSRF_TTL_SECONDS :: int where "CSRF_TTL_SECONDS = 60 * 60"

definition origin_of :: "(string \<Rightarrow> bool) \<Rightarrow> string \<Rightarrow> string option" where
  "origin_of netloc_ok v =
     (case urlsplit netloc_ok v of
        None \<Rightarrow> None
      | Some parsed \<Rightarrow>
     (case url_port parsed of
        None \<Rightarrow> None
      | Some port \<Rightarrow>
     (if url_scheme parsed \<notin> {''http'', ''https''} then None
      else case url_hostname parsed of
        None \<Rightarrow> None
      | Some host \<Rightarrow>
     (let default_port = (if url_scheme parsed = ''http'' then 80 else 443);
          authority = (case port of
                         None \<Rightarrow> host
                       | Some p \<Rightarrow> if p = default_port then host else host @ '':'' @ decimal p)
      in Some (url_scheme parsed @ ''://'' @ authority)))))"

definition csrf_signature ::
    "(bytes \<Rightarrow> bytes \<Rightarrow> bytes) \<Rightarrow> string \<Rightarrow> string \<Rightarrow> string \<Rightarrow> string" where
  "csrf_signature hmac body user_key secret =
     hex_encode (hmac (utf8_bytes_of secret) (utf8_bytes_of (user_key @ [char_of (0 :: nat)] @ body)))"

definition mint_csrf_token ::
    "(bytes \<Rightarrow> bytes \<Rightarrow> bytes) \<Rightarrow> 'r random_port \<Rightarrow> 'r \<Rightarrow> string \<Rightarrow> string \<Rightarrow> int \<Rightarrow> string \<times> 'r" where
  "mint_csrf_token hmac port r user_key secret issued_at =
     (case port r 24 of (raw, r') \<Rightarrow>
        let body = b64_encode raw @ ''.'' @ decimal_int (issued_at + CSRF_TTL_SECONDS)
        in (body @ ''.'' @ csrf_signature hmac body user_key secret, r'))"

text \<open>
  \<^verbatim>\<open>hmac.compare_digest\<close> on text raises a \<^verbatim>\<open>TypeError\<close> for characters outside
  ASCII, and \<^verbatim>\<open>int\<close> refuses more than 4300 digits.
\<close>

definition INT_MAX_STR_DIGITS :: nat where "INT_MAX_STR_DIGITS = 4300"

definition compare_digest_text :: "string \<Rightarrow> string \<Rightarrow> csrf_error + bool" where
  "compare_digest_text a b =
     (if list_all is_ascii_char a \<and> list_all is_ascii_char b then Inr (a = b) else Inl Csrf_TypeError)"

definition csrf_parts ::
    "(bytes \<Rightarrow> bytes \<Rightarrow> bytes) \<Rightarrow> string \<Rightarrow> string \<Rightarrow> string \<Rightarrow> int \<Rightarrow> csrf_error + bool" where
  "csrf_parts hmac cookie user_key secret current_time =
     (case split_on (CHR ''.'') cookie of
        [nonce, expiry, supplied] \<Rightarrow>
          (if nonce = [] \<or> expiry = [] \<or> \<not> list_all is_digit_09 expiry then Inr False
           else
             (let expected = csrf_signature hmac (nonce @ ''.'' @ expiry) user_key secret in
              case compare_digest_text supplied expected of
                Inl e \<Rightarrow> Inl e
              | Inr False \<Rightarrow> Inr False
              | Inr True \<Rightarrow>
                  if INT_MAX_STR_DIGITS < length expiry then Inl Csrf_ValueError
                  else Inr (current_time \<le> int (decimal_val 0 expiry))))
      | _ \<Rightarrow> Inr False)"

definition validate_csrf_request ::
    "(bytes \<Rightarrow> bytes \<Rightarrow> bytes) \<Rightarrow> (string \<Rightarrow> bool) \<Rightarrow> string option \<Rightarrow> string option \<Rightarrow> string option
     \<Rightarrow> string \<Rightarrow> string \<Rightarrow> string \<Rightarrow> int \<Rightarrow> csrf_error + bool" where
  "validate_csrf_request hmac netloc_ok cookie_token header_token request_origin
     public_base_url user_key secret now =
     (case (origin_of netloc_ok public_base_url, request_origin) of
        (Some expected, Some req) \<Rightarrow>
          (if origin_of netloc_ok req \<noteq> Some expected then Inr False
           else case (cookie_token, header_token) of
             (Some cookie, Some header) \<Rightarrow>
               (if cookie = [] \<or> header = [] then Inr False
                else case compare_digest_text cookie header of
                  Inl e \<Rightarrow> Inl e
                | Inr False \<Rightarrow> Inr False
                | Inr True \<Rightarrow> csrf_parts hmac cookie user_key secret now)
           | _ \<Rightarrow> Inr False)
      | _ \<Rightarrow> Inr False)"

section \<open>A minted token\<close>

lemma no_dot:
  "list_all is_b64url s \<or> list_all is_digit_09 s \<or> list_all is_lower_hex s \<Longrightarrow>
     CHR ''.'' \<notin> set s \<and> list_all is_ascii_char s"
proof -
  have dot: "\<not> is_b64url (CHR ''.'')" "\<not> is_digit_09 (CHR ''.'')" "\<not> is_lower_hex (CHR ''.'')"
    by (simp_all add: char_class_defs)
  have ascii: "is_b64url c \<or> is_digit_09 c \<or> is_lower_hex c \<Longrightarrow> is_ascii_char c" for c
    by (auto simp: char_class_defs)
  assume "list_all is_b64url s \<or> list_all is_digit_09 s \<or> list_all is_lower_hex s"
  then have "\<forall>c \<in> set s. is_b64url c \<or> is_digit_09 c \<or> is_lower_hex c"
    unfolding list_all_iff by blast
  then show ?thesis using dot ascii unfolding list_all_iff by blast
qed

lemma csrf_parts_minted:
  assumes "0 \<le> now" "now + CSRF_TTL_SECONDS < 10 ^ INT_MAX_STR_DIGITS" and raw: "length raw = 24"
    and body: "body = b64_encode raw @ ''.'' @ decimal_int (now + CSRF_TTL_SECONDS)"
  shows "csrf_parts hmac (body @ ''.'' @ csrf_signature hmac body user secret) user' secret t =
    Inr (csrf_signature hmac body user secret = csrf_signature hmac body user' secret \<and>
         t \<le> now + CSRF_TTL_SECONDS)"
proof -
  define e where "e = decimal_int (now + CSRF_TTL_SECONDS)"
  have e: "e = decimal (nat (now + CSRF_TTL_SECONDS))"
    using assms(1) by (simp add: e_def decimal_int_def CSRF_TTL_SECONDS_def)
  have digits: "list_all is_digit_09 e" "e \<noteq> []" unfolding e using decimal_digits by auto
  have "nat (now + CSRF_TTL_SECONDS) < 10 ^ INT_MAX_STR_DIGITS"
    using assms(2) by (simp add: nat_less_iff CSRF_TTL_SECONDS_def)
  then have len: "length e \<le> INT_MAX_STR_DIGITS"
    unfolding e by (rule length_decimal) (simp add: INT_MAX_STR_DIGITS_def)
  have val: "int (decimal_val 0 e) = now + CSRF_TTL_SECONDS"
    unfolding e using assms(1) by (simp add: decimal_val_decimal CSRF_TTL_SECONDS_def)
  have nonce: "b64_encode raw \<noteq> []" using raw length_b64_encode [of raw] by auto
  have sig: "list_all is_lower_hex (csrf_signature hmac body u secret)" for u
    by (simp add: csrf_signature_def hex_encode_letters)
  have split: "split_on (CHR ''.'') (body @ ''.'' @ csrf_signature hmac body user secret)
      = [b64_encode raw, e, csrf_signature hmac body user secret]"
    unfolding body e_def [symmetric]
    using no_dot [of "b64_encode raw"] no_dot [of e] no_dot [OF disjI2, OF disjI2, OF sig]
      digits b64_encode_letters [of raw]
    by (simp add: split_on_append split_on_part body e_def [symmetric])
  show ?thesis
    unfolding csrf_parts_def split
    using nonce digits len val no_dot sig
    by (auto simp: compare_digest_text_def body e_def [symmetric] Let_def split: bool.splits)
qed

text \<open>
  A freshly minted token, submitted twice from the public origin, is accepted for exactly
  one hour, and for another user exactly if that user's signature collides.
\<close>

theorem csrf_minted_token:
  assumes "mint_csrf_token hmac port r user secret now = (token, r')"
    and "length (fst (port r 24)) = 24" "0 \<le> now" "now + CSRF_TTL_SECONDS < 10 ^ INT_MAX_STR_DIGITS"
    and "origin_of netloc_ok public_base_url = Some origin" "origin_of netloc_ok req = Some origin"
  shows "\<exists>body. token = body @ ''.'' @ csrf_signature hmac body user secret \<and>
    (\<forall>user' t. validate_csrf_request hmac netloc_ok (Some token) (Some token) (Some req)
        public_base_url user' secret t =
      Inr (csrf_signature hmac body user secret = csrf_signature hmac body user' secret \<and>
           t \<le> now + CSRF_TTL_SECONDS))"
proof -
  obtain raw where raw: "port r 24 = (raw, r')" "length raw = 24"
    using assms(1,2) by (auto simp: mint_csrf_token_def Let_def split: prod.splits)
  define body where "body = b64_encode raw @ ''.'' @ decimal_int (now + CSRF_TTL_SECONDS)"
  have token: "token = body @ ''.'' @ csrf_signature hmac body user secret"
    using assms(1) raw by (simp add: mint_csrf_token_def body_def Let_def)
  have digits: "list_all is_digit_09 (decimal_int (now + CSRF_TTL_SECONDS))"
    using assms(3) decimal_digits by (simp add: decimal_int_def CSRF_TTL_SECONDS_def)
  have "is_ascii_char (CHR ''.'')" by (simp add: is_ascii_char_def)
  then have "list_all is_ascii_char token"
    using no_dot [of "b64_encode raw"] no_dot [of "decimal_int (now + CSRF_TTL_SECONDS)"] digits
      no_dot [of "csrf_signature hmac body user secret"] b64_encode_letters [of raw]
    by (simp add: token body_def csrf_signature_def hex_encode_letters)
  moreover have "token \<noteq> []" by (simp add: token)
  ultimately have val: "validate_csrf_request hmac netloc_ok (Some token) (Some token) (Some req)
      public_base_url user' secret t = csrf_parts hmac token user' secret t" for user' t
    using assms(5,6) by (simp add: validate_csrf_request_def compare_digest_text_def)
  have parts: "csrf_parts hmac token user' secret t =
      Inr (csrf_signature hmac body user secret = csrf_signature hmac body user' secret \<and>
        t \<le> now + CSRF_TTL_SECONDS)" for user' t
    unfolding token by (rule csrf_parts_minted [OF assms(3,4) raw(2) body_def])
  show ?thesis using token val parts by metis
qed

theorem csrf_minted_token_witness:
  "\<exists>token body. validate_csrf_request (\<lambda>k m. k @ m) (\<lambda>n. True) (Some token) (Some token)
      (Some ''https://a.io:443'') ''https://A.io/x'' ''u2'' ''s'' 9 =
    Inr (csrf_signature (\<lambda>k m. k @ m) body ''u1'' ''s'' = csrf_signature (\<lambda>k m. k @ m) body ''u2'' ''s'' \<and>
         9 \<le> 5 + CSRF_TTL_SECONDS)"
proof -
  have o: "origin_of (\<lambda>n. True) ''https://A.io/x'' = Some ''https://a.io''"
    "origin_of (\<lambda>n. True) ''https://a.io:443'' = Some ''https://a.io''"
    by (simp_all add: origin_of_def urlsplit_def split_scheme_def split_netloc_def url_port_def
        url_hostname_def hostinfo_def after_last_def py_lower_def lower_char_def netloc_end_def
        unsafe_url_char_def control_or_space_def scheme_char_def ascii_alpha_def char_class_defs
        digit_val_def char_of_eq_iff)
  have small: "(5 :: int) + CSRF_TTL_SECONDS < 10 ^ 4" by (simp add: CSRF_TTL_SECONDS_def)
  have "4 \<le> INT_MAX_STR_DIGITS" by (simp add: INT_MAX_STR_DIGITS_def)
  then have "(10 :: int) ^ 4 \<le> 10 ^ INT_MAX_STR_DIGITS" by (intro power_increasing) simp_all
  with small have big: "(5 :: int) + CSRF_TTL_SECONDS < 10 ^ INT_MAX_STR_DIGITS" by linarith
  obtain token where "mint_csrf_token (\<lambda>k m. k @ m) (\<lambda>r n. (replicate n 0, r)) () ''u1'' ''s'' 5 = (token, ())"
    by (simp add: mint_csrf_token_def Let_def)
  from csrf_minted_token [OF this _ _ big o] show ?thesis by fastforce
qed

end
