(* ===== verification/Browser_Session.thy ===== *)
theory Browser_Session
  imports Prelude Py_Codec
begin

text \<open>
  Server-side browser sessions (\<^verbatim>\<open>access/server_session\<close>) and their table
  (\<^verbatim>\<open>db/repositories/identity_sessions.py\<close>).  The cookie is an opaque secret of
  which only the SHA-256 digest is stored; the hash is a parameter \<open>sha\<close>.  A session ends by
  revocation, by twelve idle hours or at its absolute limit of seven days, which no refresh moves.
\<close>

section \<open>Records and decisions\<close>

datatype session_decision =
    Session_authenticated
  | Session_invalid
  | Session_revoked
  | Session_idle_expired
  | Session_absolute_expired

record browser_session =
  bs_session_id :: string
  bs_user_id :: int
  bs_digest :: bytes
  bs_created_at :: datetime
  bs_last_seen_at :: datetime
  bs_idle_expires_at :: datetime
  bs_absolute_expires_at :: datetime
  bs_revoked_at :: "datetime option"
  bs_rotated_from :: "string option"

record issued_session =
  is_cookie_value :: string
  is_record :: browser_session

record session_result =
  sr_decision :: session_decision
  sr_user_id :: "int option"

datatype session_error = SessionValidationError string | Session_RuntimeError string

definition SESSION_COOKIE_PREFIX :: string where "SESSION_COOKIE_PREFIX = ''ass_v1_''"

definition SESSION_IDLE_LIMIT :: timedelta where "SESSION_IDLE_LIMIT = hours 12"

definition SESSION_ABSOLUTE_LIMIT :: timedelta where "SESSION_ABSOLUTE_LIMIT = days 7"

lemmas session_limits = SESSION_IDLE_LIMIT_def SESSION_ABSOLUTE_LIMIT_def timedelta_defs

section \<open>Issuing and checking a cookie\<close>

definition cookie_pattern :: "string \<Rightarrow> bool" where
  "cookie_pattern s \<longleftrightarrow>
     take 7 s = SESSION_COOKIE_PREFIX \<and> length s = 50 \<and> list_all is_b64url (drop 7 s)"

definition digest_session_cookie :: "(bytes \<Rightarrow> bytes) \<Rightarrow> string \<Rightarrow> session_error + bytes" where
  "digest_session_cookie sha cookie =
     (if \<not> cookie_pattern cookie
      then Inl (SessionValidationError ''browser session cookie has an invalid format'')
      else Inr (sha (ascii_bytes cookie)))"

definition session_aware :: "datetime \<Rightarrow> session_error + datetime" where
  "session_aware d =
     (if \<not> aware d
      then Inl (Session_RuntimeError ''browser-session timestamps must be timezone-aware'')
      else Inr d)"

definition issue_browser_session ::
    "(bytes \<Rightarrow> bytes) \<Rightarrow> 'r random_port \<Rightarrow> 'r \<Rightarrow> int \<Rightarrow> datetime \<Rightarrow> string option
     \<Rightarrow> session_error + issued_session \<times> 'r" where
  "issue_browser_session sha port r user_id now rotated_from =
     (case session_aware now of
        Inl e \<Rightarrow> Inl e
      | Inr current \<Rightarrow>
     (case random_bytes_checked port r 32 of
        Inl msg \<Rightarrow> Inl (Session_RuntimeError msg)
      | Inr (secret, r1) \<Rightarrow>
     (let cookie = SESSION_COOKIE_PREFIX @ b64_encode secret in
      case random_uuid port r1 of
        Inl msg \<Rightarrow> Inl (Session_RuntimeError msg)
      | Inr (session_id, r2) \<Rightarrow>
     (case digest_session_cookie sha cookie of
        Inl e \<Rightarrow> Inl e
      | Inr digest \<Rightarrow>
          Inr (\<lparr>is_cookie_value = cookie,
                is_record = \<lparr>bs_session_id = session_id, bs_user_id = user_id,
                  bs_digest = digest, bs_created_at = current, bs_last_seen_at = current,
                  bs_idle_expires_at = dt_add current SESSION_IDLE_LIMIT,
                  bs_absolute_expires_at = dt_add current SESSION_ABSOLUTE_LIMIT,
                  bs_revoked_at = None, bs_rotated_from = rotated_from\<rparr>\<rparr>, r2)))))"

definition session_answer :: "session_decision \<Rightarrow> session_result" where
  "session_answer d = \<lparr>sr_decision = d, sr_user_id = None\<rparr>"

definition authenticate_browser_session ::
    "(bytes \<Rightarrow> bytes) \<Rightarrow> string \<Rightarrow> browser_session option \<Rightarrow> datetime
     \<Rightarrow> session_error + session_result" where
  "authenticate_browser_session sha cookie record now =
     (case session_aware now of
        Inl e \<Rightarrow> Inl e
      | Inr current \<Rightarrow>
     (let supplied = (case digest_session_cookie sha cookie of
                        Inl _ \<Rightarrow> replicate 32 0 | Inr d \<Rightarrow> d);
          expected = (case record of Some rec \<Rightarrow> bs_digest rec | None \<Rightarrow> replicate 32 0);
          matches = (supplied = expected)
      in case record of
           None \<Rightarrow> Inr (session_answer Session_invalid)
         | Some rec \<Rightarrow>
             if \<not> matches then Inr (session_answer Session_invalid)
             else if bs_revoked_at rec \<noteq> None then Inr (session_answer Session_revoked)
             else
               (case session_aware (bs_absolute_expires_at rec) of
                  Inl e \<Rightarrow> Inl e
                | Inr absolute \<Rightarrow>
                    if dt_le absolute current then Inr (session_answer Session_absolute_expired)
                    else
                      (case session_aware (bs_idle_expires_at rec) of
                         Inl e \<Rightarrow> Inl e
                       | Inr idle \<Rightarrow>
                           if dt_le idle current then Inr (session_answer Session_idle_expired)
                           else Inr \<lparr>sr_decision = Session_authenticated,
                                     sr_user_id = Some (bs_user_id rec)\<rparr>))))"

definition refreshed_idle_expiry :: "browser_session \<Rightarrow> datetime \<Rightarrow> session_error + datetime" where
  "refreshed_idle_expiry rec now =
     (case session_aware now of
        Inl e \<Rightarrow> Inl e
      | Inr current \<Rightarrow>
          (case session_aware (bs_absolute_expires_at rec) of
             Inl e \<Rightarrow> Inl e
           | Inr absolute \<Rightarrow> Inr (dt_min (dt_add current SESSION_IDLE_LIMIT) absolute)))"

section \<open>The session table\<close>

type_synonym session_table = "browser_session list"

text \<open>The primary key and the unique digest make a colliding insert an integrity error.\<close>

definition session_create :: "browser_session \<Rightarrow> session_table \<Rightarrow> session_table option" where
  "session_create record rows =
     (if bs_session_id record \<in> bs_session_id ` set rows \<or> bs_digest record \<in> bs_digest ` set rows
      then None else Some (rows @ [record]))"

definition session_record :: "browser_session \<Rightarrow> browser_session" where
  "session_record row =
     row\<lparr>bs_created_at := normalise_utc (bs_created_at row),
         bs_last_seen_at := normalise_utc (bs_last_seen_at row),
         bs_idle_expires_at := normalise_utc (bs_idle_expires_at row),
         bs_absolute_expires_at := normalise_utc (bs_absolute_expires_at row),
         bs_revoked_at := map_option normalise_utc (bs_revoked_at row)\<rparr>"

definition find_by_cookie ::
    "(bytes \<Rightarrow> bytes) \<Rightarrow> session_table \<Rightarrow> string \<Rightarrow> browser_session option" where
  "find_by_cookie sha rows cookie =
     (case digest_session_cookie sha cookie of
        Inl _ \<Rightarrow> None
      | Inr digest \<Rightarrow> map_option session_record (find (\<lambda>row. bs_digest row = digest) rows))"

definition session_revoke :: "string \<Rightarrow> datetime \<Rightarrow> session_table \<Rightarrow> session_table \<times> bool" where
  "session_revoke session_id now rows =
     (let p = (\<lambda>row. bs_session_id row = session_id \<and> bs_revoked_at row = None) in
      (update_where p (\<lambda>row. row\<lparr>bs_revoked_at := Some now\<rparr>) rows, 0 < count_where p rows))"

definition session_touch ::
    "string \<Rightarrow> datetime \<Rightarrow> datetime \<Rightarrow> session_table \<Rightarrow> session_table \<times> bool" where
  "session_touch session_id now idle_expires_at rows =
     (let p = (\<lambda>row. bs_session_id row = session_id \<and> bs_revoked_at row = None \<and>
                      dt_less now (bs_idle_expires_at row) \<and>
                      dt_less now (bs_absolute_expires_at row)) in
      (update_where p
         (\<lambda>row. row\<lparr>bs_last_seen_at := now, bs_idle_expires_at := idle_expires_at\<rparr>) rows,
       0 < count_where p rows))"

section \<open>Decisions\<close>

lemma cookie_pattern_issued: "length secret = 32 \<Longrightarrow> cookie_pattern (SESSION_COOKIE_PREFIX @ b64_encode secret)"
  by (simp add: cookie_pattern_def SESSION_COOKIE_PREFIX_def length_b64_encode b64_encode_letters)

text \<open>When a cookie is accepted.\<close>

definition session_accepts ::
    "(bytes \<Rightarrow> bytes) \<Rightarrow> string \<Rightarrow> browser_session \<Rightarrow> datetime \<Rightarrow> bool" where
  "session_accepts sha cookie rec now \<longleftrightarrow>
     bs_digest rec = (if cookie_pattern cookie then sha (ascii_bytes cookie) else replicate 32 0) \<and>
     bs_revoked_at rec = None \<and> aware (bs_absolute_expires_at rec) \<and>
     aware (bs_idle_expires_at rec) \<and> dt_less now (bs_absolute_expires_at rec) \<and>
     dt_less now (bs_idle_expires_at rec)"

lemma authenticate_iff:
  assumes "aware now"
  shows "authenticate_browser_session sha cookie (Some rec) now =
      Inr \<lparr>sr_decision = Session_authenticated, sr_user_id = Some u\<rparr>
    \<longleftrightarrow> session_accepts sha cookie rec now \<and> u = bs_user_id rec"
  using assms
  by (auto simp: authenticate_browser_session_def session_accepts_def session_aware_def
      digest_session_cookie_def session_answer_def dt_le_def dt_less_def)

lemma issued_fields:
  assumes "issue_browser_session sha port r user_id now rot = Inr (s, r')"
  shows "aware now \<and> cookie_pattern (is_cookie_value s) \<and>
    bs_digest (is_record s) = sha (ascii_bytes (is_cookie_value s)) \<and>
    bs_user_id (is_record s) = user_id \<and> bs_revoked_at (is_record s) = None \<and>
    bs_created_at (is_record s) = now \<and>
    bs_idle_expires_at (is_record s) = dt_add now SESSION_IDLE_LIMIT \<and>
    bs_absolute_expires_at (is_record s) = dt_add now SESSION_ABSOLUTE_LIMIT \<and>
    canonical_uuid4 (bs_session_id (is_record s))"
  using assms
  by (auto simp: issue_browser_session_def session_aware_def digest_session_cookie_def Let_def
      cookie_pattern_issued random_uuid_canonical dest: random_bytes_checked_length
      split: if_splits sum.splits)

text \<open>
  A freshly issued cookie authenticates its user against the stored record at exactly the
  instants of its first twelve hours: earlier refusals can only come from revocation, later ones
  from the idle limit.
\<close>

theorem issued_session_window:
  assumes "issue_browser_session sha port r user_id now rot = Inr (s, r')" "aware t"
  shows "authenticate_browser_session sha (is_cookie_value s) (Some (is_record s)) t =
      Inr \<lparr>sr_decision = Session_authenticated, sr_user_id = Some user_id\<rparr>
    \<longleftrightarrow> dt_instant t < dt_instant now + hours 12"
  using issued_fields [OF assms(1)] assms(2)
  by (auto simp: authenticate_iff session_accepts_def dt_simps dt_less_def session_limits)

theorem issued_session_window_witness:
  "\<exists>s. issue_browser_session (\<lambda>b. replicate 32 1) zero_port () 7 (utc 0) None = Inr (s, ()) \<and>
     authenticate_browser_session (\<lambda>b. replicate 32 1) (is_cookie_value s) (Some (is_record s))
       (utc 5) = Inr \<lparr>sr_decision = Session_authenticated, sr_user_id = Some 7\<rparr>"
proof -
  have pat: "cookie_pattern (SESSION_COOKIE_PREFIX @ b64_encode (replicate 32 0))"
    by (rule cookie_pattern_issued) simp
  obtain u where u: "random_uuid zero_port () = Inr (u, ())" using zero_port_uuid by blast
  have zero: "random_bytes_checked zero_port () 32 = Inr (replicate 32 0, ())"
    by (simp add: random_bytes_checked_def zero_port_def)
  obtain s where s: "issue_browser_session (\<lambda>b. replicate 32 1) zero_port () 7 (utc 0) None = Inr (s, ())"
    using pat u zero
    by (simp add: issue_browser_session_def session_aware_def digest_session_cookie_def dt_simps)
  with issued_session_window [OF s, of "utc 5"] show ?thesis
    by (auto simp: dt_simps timedelta_defs)
qed

section \<open>Any history of requests\<close>

text \<open>
  The request boundary (\<^verbatim>\<open>main.py\<close>): look the cookie up, authenticate it, and on success
  extend the idle expiry.
\<close>

definition browser_user_id ::
    "(bytes \<Rightarrow> bytes) \<Rightarrow> string \<Rightarrow> datetime \<Rightarrow> session_table
     \<Rightarrow> session_error + session_table \<times> int option" where
  "browser_user_id sha cookie now rows =
     (let record = find_by_cookie sha rows cookie in
      case authenticate_browser_session sha cookie record now of
        Inl e \<Rightarrow> Inl e
      | Inr res \<Rightarrow>
          (case record of
             None \<Rightarrow> Inr (rows, None)
           | Some rec \<Rightarrow>
               if sr_decision res \<noteq> Session_authenticated then Inr (rows, None)
               else
                 (case refreshed_idle_expiry rec now of
                    Inl e \<Rightarrow> Inl e
                  | Inr idle \<Rightarrow>
                      Inr (fst (session_touch (bs_session_id rec) now idle rows), sr_user_id res))))"

inductive session_step ::
    "(bytes \<Rightarrow> bytes) \<Rightarrow> 'r random_port \<Rightarrow> session_table \<Rightarrow> session_table \<Rightarrow> bool"
  for sha port where
  issue: "issue_browser_session sha port r uid now rot = Inr (s, r') \<Longrightarrow>
     session_create (is_record s) rows = Some rows' \<Longrightarrow> session_step sha port rows rows'"
| request: "browser_user_id sha cookie now rows = Inr (rows', u) \<Longrightarrow> session_step sha port rows rows'"
| revoke: "session_revoke sid now rows = (rows', b) \<Longrightarrow> session_step sha port rows rows'"

inductive session_reachable ::
    "(bytes \<Rightarrow> bytes) \<Rightarrow> 'r random_port \<Rightarrow> session_table \<Rightarrow> bool"
  for sha port where
  start: "session_reachable sha port []"
| step: "session_reachable sha port rows \<Longrightarrow> session_step sha port rows rows' \<Longrightarrow>
     session_reachable sha port rows'"

definition session_row_ok :: "browser_session \<Rightarrow> bool" where
  "session_row_ok row \<longleftrightarrow>
     bs_absolute_expires_at row = dt_add (bs_created_at row) SESSION_ABSOLUTE_LIMIT \<and>
     aware (bs_absolute_expires_at row) \<and>
     dt_instant (bs_idle_expires_at row) \<le> dt_instant (bs_absolute_expires_at row)"

definition session_table_ok :: "session_table \<Rightarrow> bool" where
  "session_table_ok rows \<longleftrightarrow>
     distinct (map bs_session_id rows) \<and> distinct (map bs_digest rows) \<and> list_all session_row_ok rows"

lemma issued_row_ok:
  "issue_browser_session sha port r uid now rot = Inr (s, r') \<Longrightarrow> session_row_ok (is_record s)"
  by (drule issued_fields) (simp add: session_row_ok_def dt_simps session_limits)

lemma create_table_ok:
  "session_table_ok rows \<Longrightarrow> session_row_ok rec \<Longrightarrow> session_create rec rows = Some rows' \<Longrightarrow>
     session_table_ok rows'"
  by (auto simp: session_table_ok_def session_create_def split: if_splits)

lemma update_table_ok:
  assumes "session_table_ok rows"
    and "\<And>row. row \<in> set rows \<Longrightarrow> p row \<Longrightarrow> session_row_ok (f row)"
    and "\<And>row. bs_session_id (f row) = bs_session_id row"
    and "\<And>row. bs_digest (f row) = bs_digest row"
  shows "session_table_ok (update_where p f rows)"
  using assms by (auto simp: session_table_ok_def list_all_iff set_update_where row_simps)

lemma revoke_table_ok: "session_table_ok rows \<Longrightarrow> session_table_ok (fst (session_revoke sid now rows))"
  unfolding session_revoke_def Let_def fst_conv
  by (rule update_table_ok) (auto simp: session_table_ok_def list_all_iff session_row_ok_def)

lemma found_row:
  assumes "find_by_cookie sha rows cookie = Some rec"
  obtains row where "row \<in> set rows" "rec = session_record row" "cookie_pattern cookie"
    "bs_digest row = sha (ascii_bytes cookie)"
  using assms
  by (auto simp: find_by_cookie_def digest_session_cookie_def split: if_splits dest: find_SomeD)

lemma session_record_fields [simp]:
  "bs_session_id (session_record row) = bs_session_id row"
  "bs_user_id (session_record row) = bs_user_id row"
  "bs_digest (session_record row) = bs_digest row"
  "bs_absolute_expires_at (session_record row) = normalise_utc (bs_absolute_expires_at row)"
  "bs_idle_expires_at (session_record row) = normalise_utc (bs_idle_expires_at row)"
  "(bs_revoked_at (session_record row) = None) = (bs_revoked_at row = None)"
  by (simp_all add: session_record_def)

lemma instant_normalise [simp]: "dt_instant (normalise_utc d) = dt_instant d"
  by (simp add: normalise_utc_def)

lemma refreshed_le_absolute:
  "refreshed_idle_expiry rec now = Inr idle \<Longrightarrow>
     dt_instant idle \<le> dt_instant (bs_absolute_expires_at rec)"
  by (auto simp: refreshed_idle_expiry_def session_aware_def dt_simps split: if_splits)

lemma touch_table_ok:
  assumes ok: "session_table_ok rows" and row: "row \<in> set rows"
    and idle: "dt_instant idle \<le> dt_instant (bs_absolute_expires_at row)"
  shows "session_table_ok (fst (session_touch (bs_session_id row) now idle rows))"
proof -
  have same: "row' = row" if "row' \<in> set rows" "bs_session_id row' = bs_session_id row" for row'
    using ok row that by (auto simp: session_table_ok_def dest: distinct_key_eq)
  have "session_row_ok row" using ok row by (simp add: session_table_ok_def list_all_iff)
  with idle have "session_row_ok (row\<lparr>bs_last_seen_at := now, bs_idle_expires_at := idle\<rparr>)"
    unfolding session_row_ok_def by auto
  with same show ?thesis
    unfolding session_touch_def Let_def fst_conv by (intro update_table_ok ok) auto
qed

lemma request_cases:
  assumes "browser_user_id sha cookie now rows = Inr (rows', u)"
  shows "rows' = rows \<and> u = None \<or>
    (\<exists>row idle. row \<in> set rows \<and> find_by_cookie sha rows cookie = Some (session_record row) \<and>
       bs_digest row = sha (ascii_bytes cookie) \<and> u = Some (bs_user_id row) \<and>
       bs_revoked_at row = None \<and> dt_less now (bs_idle_expires_at row) \<and>
       dt_less now (bs_absolute_expires_at row) \<and>
       refreshed_idle_expiry (session_record row) now = Inr idle \<and>
       rows' = fst (session_touch (bs_session_id row) now idle rows))"
proof (cases "find_by_cookie sha rows cookie")
  case None
  with assms show ?thesis by (auto simp: browser_user_id_def split: sum.splits)
next
  case (Some rec)
  then obtain row where row: "row \<in> set rows" "rec = session_record row" "cookie_pattern cookie"
    "bs_digest row = sha (ascii_bytes cookie)"
    by (rule found_row)
  have now: "aware now"
    using assms by (auto simp: browser_user_id_def authenticate_browser_session_def
        session_aware_def Let_def split: if_splits)
  obtain res where res: "authenticate_browser_session sha cookie (Some rec) now = Inr res"
    using assms Some
    by (cases "authenticate_browser_session sha cookie (Some rec) now") (simp_all add: browser_user_id_def Let_def)
  show ?thesis
  proof (cases "sr_decision res = Session_authenticated")
    case False
    with assms Some res show ?thesis by (simp add: browser_user_id_def)
  next
    case True
    then obtain v where v: "res = \<lparr>sr_decision = Session_authenticated, sr_user_id = Some v\<rparr>"
      using res by (auto simp: authenticate_browser_session_def session_answer_def Let_def
          split: sum.splits if_splits)
    then have acc: "session_accepts sha cookie rec now \<and> v = bs_user_id rec"
      using res authenticate_iff [OF now] by blast
    obtain idle where "refreshed_idle_expiry rec now = Inr idle"
      "rows' = fst (session_touch (bs_session_id rec) now idle rows)" "u = Some v"
      using assms Some res True v by (auto simp: browser_user_id_def split: sum.splits)
    with acc row Some show ?thesis
      by (auto simp: session_accepts_def dt_less_def)
  qed
qed

lemma request_table_ok:
  assumes ok: "session_table_ok rows" and req: "browser_user_id sha cookie now rows = Inr (rows', u)"
  shows "session_table_ok rows'"
  using request_cases [OF req]
proof
  assume "\<exists>row idle. row \<in> set rows \<and> find_by_cookie sha rows cookie = Some (session_record row) \<and>
       bs_digest row = sha (ascii_bytes cookie) \<and> u = Some (bs_user_id row) \<and>
       bs_revoked_at row = None \<and> dt_less now (bs_idle_expires_at row) \<and>
       dt_less now (bs_absolute_expires_at row) \<and>
       refreshed_idle_expiry (session_record row) now = Inr idle \<and>
       rows' = fst (session_touch (bs_session_id row) now idle rows)"
  then obtain row idle where "row \<in> set rows"
    "refreshed_idle_expiry (session_record row) now = Inr idle"
    "rows' = fst (session_touch (bs_session_id row) now idle rows)"
    by blast
  with ok show ?thesis
    using refreshed_le_absolute [of "session_record row" now idle] by (simp add: touch_table_ok)
qed (use ok in simp)

lemma session_step_ok: "session_step sha port rows rows' \<Longrightarrow> session_table_ok rows \<Longrightarrow> session_table_ok rows'"
proof (induction rule: session_step.induct)
  case (issue r uid now rot s r' rows rows')
  then show ?case by (blast intro: create_table_ok issued_row_ok)
next
  case (request cookie now rows rows' u)
  then show ?case by (blast intro: request_table_ok)
next
  case (revoke sid now rows rows' b)
  then show ?case using revoke_table_ok [of rows sid now] by simp
qed

lemma session_reachable_ok: "session_reachable sha port rows \<Longrightarrow> session_table_ok rows"
  by (induction rule: session_reachable.induct)
    (simp add: session_table_ok_def, blast intro: session_step_ok)

text \<open>
  C37.  After any history of sign-ins, requests and revocations, a request that is answered with
  a user comes with the cookie of an unrevoked session of that user, within its idle window and
  less than seven days after the session was issued: no amount of activity outlives the absolute
  limit.
\<close>

theorem authenticated_request_sound:
  assumes "session_reachable sha port rows"
    and "browser_user_id sha cookie now rows = Inr (rows', Some u)"
  shows "\<exists>row \<in> set rows. bs_user_id row = u \<and> bs_digest row = sha (ascii_bytes cookie) \<and>
    bs_revoked_at row = None \<and> dt_less now (bs_idle_expires_at row) \<and>
    dt_instant now < dt_instant (bs_created_at row) + days 7"
proof -
  obtain row where row: "row \<in> set rows" "bs_user_id row = u"
    "bs_digest row = sha (ascii_bytes cookie)" "bs_revoked_at row = None"
    "dt_less now (bs_idle_expires_at row)" "dt_less now (bs_absolute_expires_at row)"
    using request_cases [OF assms(2)] by auto
  have "session_row_ok row"
    using session_reachable_ok [OF assms(1)] row(1) by (simp add: session_table_ok_def list_all_iff)
  then have "dt_instant now < dt_instant (bs_created_at row) + days 7"
    using row(6) by (simp add: session_row_ok_def dt_less_def dt_simps session_limits)
  with row show ?thesis by blast
qed

theorem authenticated_request_sound_witness:
  "\<exists>rows cookie rows'. session_reachable (\<lambda>b. replicate 32 1) zero_port rows \<and>
     browser_user_id (\<lambda>b. replicate 32 1) cookie (utc 5) rows = Inr (rows', Some 7) \<and>
     (\<exists>row \<in> set rows. dt_instant (utc 5) < dt_instant (bs_created_at row) + days 7)"
proof -
  obtain s where s: "issue_browser_session (\<lambda>b. replicate 32 1) zero_port () 7 (utc 0) None = Inr (s, ())"
    and auth: "authenticate_browser_session (\<lambda>b. replicate 32 1) (is_cookie_value s)
      (Some (is_record s)) (utc 5) = Inr \<lparr>sr_decision = Session_authenticated, sr_user_id = Some 7\<rparr>"
    using issued_session_window_witness by blast
  have f: "cookie_pattern (is_cookie_value s)" "bs_digest (is_record s) = replicate 32 1"
    "bs_absolute_expires_at (is_record s) = utc (days 7)"
    "bs_idle_expires_at (is_record s) = utc (hours 12)" "bs_created_at (is_record s) = utc 0"
    "bs_revoked_at (is_record s) = None" "bs_user_id (is_record s) = 7"
    using issued_fields [OF s] by (simp_all add: dt_simps session_limits)
  let ?rows = "[is_record s]"
  have reach: "session_reachable (\<lambda>b. replicate 32 1) zero_port ?rows"
    by (rule session_reachable.step [OF session_reachable.start session_step.issue [OF s]])
      (simp add: session_create_def)
  have "find_by_cookie (\<lambda>b. replicate 32 1) ?rows (is_cookie_value s) = Some (session_record (is_record s))"
    using f by (simp add: find_by_cookie_def digest_session_cookie_def)
  moreover have "authenticate_browser_session (\<lambda>b. replicate 32 1) (is_cookie_value s)
      (Some (session_record (is_record s))) (utc 5)
    = Inr \<lparr>sr_decision = Session_authenticated, sr_user_id = Some 7\<rparr>"
    using f by (simp add: authenticate_iff session_accepts_def dt_simps normalise_aware dt_less_def
        timedelta_defs)
  ultimately obtain rows' where req:
    "browser_user_id (\<lambda>b. replicate 32 1) (is_cookie_value s) (utc 5) ?rows = Inr (rows', Some 7)"
    using f by (auto simp: browser_user_id_def refreshed_idle_expiry_def session_aware_def dt_simps
        normalise_aware)
  show ?thesis using authenticated_request_sound [OF reach req] reach req by blast
qed

section \<open>Revocation and the table\<close>

lemma revoked_never_accepted:
  "bs_revoked_at rec \<noteq> None \<Longrightarrow> \<not> session_accepts sha cookie rec now"
  by (simp add: session_accepts_def)

text \<open>
  Revocation is final.  After the row of a session was revoked, whatever later touches are
  attempted, the cookie that finds the row is answered with ``revoked'' at every time, and touching reports that nothing changed.
\<close>

theorem revoked_session_stays_revoked:
  assumes rows: "fst (session_revoke sid now rows) = rows'" and "aware t"
    and found: "find_by_cookie sha (fst (session_touch sid u idle rows')) cookie = Some rec"
    and sid: "bs_session_id rec = sid"
  shows "authenticate_browser_session sha cookie (Some rec) t = Inr (session_answer Session_revoked) \<and>
    snd (session_touch sid u idle rows') = False"
proof -
  have "rows' = (update_where (\<lambda>row. bs_session_id row = sid \<and> bs_revoked_at row = None)
      (\<lambda>row. row\<lparr>bs_revoked_at := Some now\<rparr>) rows)"
    unfolding assms(1) [symmetric] by (simp add: session_revoke_def Let_def)
  then have "\<forall>row \<in> set rows'. bs_session_id row = sid \<longrightarrow> bs_revoked_at row \<noteq> None"
    by (simp only: ball_update_where) simp
  then have revoked: "bs_revoked_at row \<noteq> None" if "row \<in> set rows'" "bs_session_id row = sid" for row
    using that by blast
  have untouched: "count_where (\<lambda>row. bs_session_id row = sid \<and> bs_revoked_at row = None \<and>
      dt_less u (bs_idle_expires_at row) \<and> dt_less u (bs_absolute_expires_at row)) rows' = 0"
    using revoked by (auto simp: count_where_zero)
  then have same: "session_touch sid u idle rows' = (rows', False)"
    by (simp add: session_touch_def Let_def update_where_none)
  obtain row digest where row: "digest_session_cookie sha cookie = Inr digest"
    "find (\<lambda>row. bs_digest row = digest) rows' = Some row" "rec = session_record row"
  proof (cases "digest_session_cookie sha cookie")
    case (Inr digest)
    with found same that show ?thesis by (auto simp: find_by_cookie_def)
  qed (use found in \<open>simp add: find_by_cookie_def\<close>)
  have "bs_revoked_at row \<noteq> None"
    using revoked [of row] find_SomeD [OF row(2)] sid row(3) by (simp add: session_record_def)
  moreover have "bs_digest row = digest" using find_SomeD [OF row(2)] by simp
  ultimately show ?thesis
    using row(1,3) \<open>aware t\<close> same
    by (simp add: authenticate_browser_session_def session_aware_def session_record_def)
qed

theorem revoked_session_stays_revoked_witness:
  "\<exists>row. let rows' = fst (session_revoke ''s'' (utc 3) [row]) in
     authenticate_browser_session (\<lambda>b. replicate 32 1) (SESSION_COOKIE_PREFIX @ b64_encode (replicate 32 0))
       (find_by_cookie (\<lambda>b. replicate 32 1) (fst (session_touch ''s'' (utc 4) (utc 9) rows'))
          (SESSION_COOKIE_PREFIX @ b64_encode (replicate 32 0))) (utc 5) =
       Inr (session_answer Session_revoked)"
proof -
  let ?cookie = "SESSION_COOKIE_PREFIX @ b64_encode (replicate 32 0)"
  let ?sha = "\<lambda>b :: bytes. replicate 32 (1 :: 8 word)"
  define row where "row = \<lparr>bs_session_id = ''s'', bs_user_id = 7, bs_digest = ?sha [],
    bs_created_at = utc 0, bs_last_seen_at = utc 0, bs_idle_expires_at = utc (hours 12),
    bs_absolute_expires_at = utc (days 7), bs_revoked_at = None, bs_rotated_from = None\<rparr>"
  define rows' where "rows' = fst (session_revoke ''s'' (utc 3) [row])"
  have rows: "rows' = [row\<lparr>bs_revoked_at := Some (utc 3)\<rparr>]"
    by (simp add: rows'_def session_revoke_def update_where_def row_def)
  have "cookie_pattern ?cookie" by (rule cookie_pattern_issued) simp
  then obtain rec where rec: "find_by_cookie ?sha (fst (session_touch ''s'' (utc 4) (utc 9) rows'))
      ?cookie = Some rec" "bs_session_id rec = ''s''"
    by (simp add: rows session_touch_def update_where_def row_def find_by_cookie_def
        digest_session_cookie_def session_record_def)
  have "fst (session_revoke ''s'' (utc 3) [row]) = rows'" by (simp add: rows'_def)
  from revoked_session_stays_revoked [OF this _ rec, of "utc 5"] show ?thesis
    unfolding rows'_def [symmetric] Let_def
    by (intro exI [of _ row]) (simp add: rec rows'_def [symmetric] dt_simps)
qed

end
