(* ===== verification/Db_Session.thy ===== *)
theory Db_Session
  imports Prelude
begin

text \<open>
  A database session as the workflows use it: statements work on an uncommitted copy, a commit
  publishes the copy as one step, a rollback throws it away.  Any statement and any commit may
  raise, and between two transactions other workers may change the database: the pending faults
  and the pending changes of others are part of the state, so that a theorem about every state
  speaks about every failure and every interleaving at the boundaries of transactions.  The log
  keeps the database before and after each commit of this session.
\<close>

section \<open>Sessions and operations\<close>

record 'd session =
  se_saved :: 'd
  se_work :: 'd
  se_faults :: "bool list"
  se_others :: "('d \<Rightarrow> 'd) list"
  se_log :: "('d \<times> 'd) list"

datatype 'e raised = Db_Fault | Raised 'e

type_synonym ('s, 'e, 'a) op = "'s \<Rightarrow> ('e raised + 'a) \<times> 's"

definition new_session :: "bool list \<Rightarrow> ('d \<Rightarrow> 'd) list \<Rightarrow> 'd \<Rightarrow> 'd session" where
  "new_session faults others d =
     \<lparr>se_saved = d, se_work = d, se_faults = faults, se_others = others, se_log = []\<rparr>"

definition with_fault :: "('d session, 'e, 'a) op \<Rightarrow> ('d session, 'e, 'a) op" where
  "with_fault f s =
     (case se_faults s of
        [] \<Rightarrow> f s
      | fault # faults \<Rightarrow>
          (let s' = s\<lparr>se_faults := faults\<rparr> in if fault then (Inl Db_Fault, s') else f s'))"

text \<open>A statement reads and changes the uncommitted copy, or raises and leaves it.\<close>

definition statement :: "('d \<Rightarrow> 'e + 'a \<times> 'd) \<Rightarrow> ('d session, 'e, 'a) op" where
  "statement f = with_fault (\<lambda>s.
     case f (se_work s) of
       Inl e \<Rightarrow> (Inl (Raised e), s)
     | Inr (a, d) \<Rightarrow> (Inr a, s\<lparr>se_work := d\<rparr>))"

text \<open>The next transaction starts from the database with the changes of others in it.\<close>

definition next_transaction :: "'d \<Rightarrow> 'd session \<Rightarrow> 'd session" where
  "next_transaction d s =
     (case se_others s of
        [] \<Rightarrow> s\<lparr>se_saved := d, se_work := d\<rparr>
      | f # fs \<Rightarrow> s\<lparr>se_saved := f d, se_work := f d, se_others := fs\<rparr>)"

definition commit :: "('d session, 'e, unit) op" where
  "commit = with_fault (\<lambda>s.
     (Inr (), next_transaction (se_work s) (s\<lparr>se_log := se_log s @ [(se_saved s, se_work s)]\<rparr>)))"

text \<open>A rollback that raises has closed the transaction all the same.\<close>

definition rollback :: "('d session, 'e, unit) op" where
  "rollback s = with_fault (\<lambda>s'. (Inr (), s')) (next_transaction (se_saved s) s)"

section \<open>Composing operations\<close>

definition return_op :: "'a \<Rightarrow> ('s, 'e, 'a) op" where
  "return_op a s = (Inr a, s)"

definition raise_op :: "'e \<Rightarrow> ('s, 'e, 'a) op" where
  "raise_op e s = (Inl (Raised e), s)"

definition and_then :: "('s, 'e, 'a) op \<Rightarrow> ('a \<Rightarrow> ('s, 'e, 'b) op) \<Rightarrow> ('s, 'e, 'b) op" where
  "and_then m k s = (case m s of (Inl e, s') \<Rightarrow> (Inl e, s') | (Inr a, s') \<Rightarrow> k a s')"

fun each :: "('a \<Rightarrow> ('s, 'e, unit) op) \<Rightarrow> 'a list \<Rightarrow> ('s, 'e, unit) op" where
  "each f [] = return_op ()"
| "each f (x # xs) = and_then (f x) (\<lambda>_. each f xs)"

text \<open>
  \<^verbatim>\<open>except BaseException\<close> with a clean-up whose own exception is logged, then
  \<^verbatim>\<open>raise\<close>.
\<close>

definition on_error :: "('s, 'e, 'a) op \<Rightarrow> ('s, 'e, unit) op \<Rightarrow> ('s, 'e, 'a) op" where
  "on_error m cleanup s =
     (case m s of (Inl e, s') \<Rightarrow> (Inl e, snd (cleanup s')) | (Inr a, s') \<Rightarrow> (Inr a, s'))"

definition ignoring_errors :: "('s, 'e, 'a) op \<Rightarrow> ('s, 'e, unit) op" where
  "ignoring_errors m s = (Inr (), snd (m s))"

section \<open>Triples\<close>

text \<open>From \<open>P\<close>, a result satisfies \<open>Q\<close> and an exception leaves \<open>E\<close>.\<close>

definition triple ::
    "('s \<Rightarrow> bool) \<Rightarrow> ('s, 'e, 'a) op \<Rightarrow> ('a \<Rightarrow> 's \<Rightarrow> bool) \<Rightarrow> ('s \<Rightarrow> bool) \<Rightarrow> bool" where
  "triple P m Q E \<longleftrightarrow>
     (\<forall>s. P s \<longrightarrow> (case m s of (Inl e, s') \<Rightarrow> E s' | (Inr a, s') \<Rightarrow> Q a s'))"

lemma tripleI:
  "(\<And>s. P s \<Longrightarrow> case m s of (Inl e, s') \<Rightarrow> E s' | (Inr a, s') \<Rightarrow> Q a s') \<Longrightarrow> triple P m Q E"
  by (simp add: triple_def)

lemma triple_result: "triple P m Q E \<Longrightarrow> P s \<Longrightarrow> m s = (Inr a, s') \<Longrightarrow> Q a s'"
  by (force simp: triple_def)

lemma triple_error: "triple P m Q E \<Longrightarrow> P s \<Longrightarrow> m s = (Inl e, s') \<Longrightarrow> E s'"
  by (force simp: triple_def)

lemma triple_end: "triple P m (\<lambda>_. F) F \<Longrightarrow> P s \<Longrightarrow> F (snd (m s))"
  unfolding triple_def by (drule spec [of _ s]) (simp split: prod.splits sum.splits)

lemma triple_weaken:
  "triple P m Q E \<Longrightarrow> (\<And>s. P' s \<Longrightarrow> P s) \<Longrightarrow> (\<And>a s. Q a s \<Longrightarrow> Q' a s) \<Longrightarrow> (\<And>s. E s \<Longrightarrow> E' s)
     \<Longrightarrow> triple P' m Q' E'"
  unfolding triple_def by (fastforce split: prod.splits sum.splits)

lemma triple_return: "(\<And>s. P s \<Longrightarrow> Q a s) \<Longrightarrow> triple P (return_op a) Q E"
  by (simp add: triple_def return_op_def)

lemma triple_raise: "(\<And>s. P s \<Longrightarrow> E s) \<Longrightarrow> triple P (raise_op e) Q E"
  by (simp add: triple_def raise_op_def)

lemma triple_and_then:
  assumes "triple P m Q E" "\<And>a. triple (Q a) (k a) R E"
  shows "triple P (and_then m k) R E"
proof (rule tripleI)
  fix s
  assume "P s"
  show "case and_then m k s of (Inl e, s') \<Rightarrow> E s' | (Inr a, s') \<Rightarrow> R a s'"
  proof (cases "m s")
    case (Pair r s')
    show ?thesis
    proof (cases r)
      case (Inl e)
      with Pair triple_error [OF assms(1) \<open>P s\<close>] show ?thesis by (simp add: and_then_def)
    next
      case (Inr a)
      with Pair triple_result [OF assms(1) \<open>P s\<close>] have "Q a s'" by simp
      with assms(2) [of a] Pair Inr show ?thesis by (simp add: and_then_def triple_def)
    qed
  qed
qed

lemma triple_each:
  "(\<And>x. x \<in> set xs \<Longrightarrow> triple P (f x) (\<lambda>_. P) E) \<Longrightarrow> triple P (each f xs) (\<lambda>_. P) E"
proof (induction xs)
  case (Cons x xs)
  then have "triple P (each f xs) (\<lambda>_. P) E" by simp
  with Cons.prems [of x] show ?case by (auto intro: triple_and_then)
qed (simp add: triple_return)

lemma triple_on_error:
  assumes "triple P m Q E" "triple E cleanup (\<lambda>_. F) F"
  shows "triple P (on_error m cleanup) Q F"
proof (rule tripleI)
  fix s
  assume "P s"
  show "case on_error m cleanup s of (Inl e, s') \<Rightarrow> F s' | (Inr a, s') \<Rightarrow> Q a s'"
  proof (cases "m s")
    case (Pair r s')
    show ?thesis
    proof (cases r)
      case (Inl e)
      with Pair triple_error [OF assms(1) \<open>P s\<close>] have "E s'" by simp
      with assms(2) have "F (snd (cleanup s'))" by (rule triple_end)
      with Pair Inl show ?thesis by (simp add: on_error_def)
    next
      case (Inr a)
      with Pair triple_result [OF assms(1) \<open>P s\<close>] show ?thesis by (simp add: on_error_def)
    qed
  qed
qed

lemma triple_ignoring: "triple P m (\<lambda>_. F) F \<Longrightarrow> triple P (ignoring_errors m) (\<lambda>_. F) F"
  by (rule tripleI) (simp add: ignoring_errors_def triple_end)

lemma triple_case_option:
  "(x = None \<Longrightarrow> triple P f Q E) \<Longrightarrow> (\<And>a. x = Some a \<Longrightarrow> triple P (g a) Q E)
     \<Longrightarrow> triple P (case x of None \<Rightarrow> f | Some a \<Rightarrow> g a) Q E"
  by (cases x) auto

lemma triple_case_sum:
  "(\<And>e. x = Inl e \<Longrightarrow> triple P (f e) Q E) \<Longrightarrow> (\<And>a. x = Inr a \<Longrightarrow> triple P (g a) Q E)
     \<Longrightarrow> triple P (case x of Inl e \<Rightarrow> f e | Inr a \<Rightarrow> g a) Q E"
  by (cases x) auto

lemma triple_if:
  "(b \<Longrightarrow> triple P f Q E) \<Longrightarrow> (\<not> b \<Longrightarrow> triple P g Q E) \<Longrightarrow> triple P (if b then f else g) Q E"
  by auto

section \<open>Triples of a session\<close>

text \<open>
  A property of a session that the faults to come do not change: of the database, the copy and
  the log.
\<close>

definition fault_free :: "('d session \<Rightarrow> bool) \<Rightarrow> bool" where
  "fault_free P \<longleftrightarrow> (\<forall>s fs. P (s\<lparr>se_faults := fs\<rparr>) = P s)"

lemma triple_with_fault:
  assumes "\<And>s. P s \<Longrightarrow> case f s of (Inl e, s') \<Rightarrow> E s' | (Inr a, s') \<Rightarrow> Q a s'"
    and "fault_free P" "\<And>s. P s \<Longrightarrow> E s"
  shows "triple P (with_fault f) Q E"
proof (rule tripleI)
  fix s
  assume "P s"
  then have "P (s\<lparr>se_faults := fs\<rparr>)" for fs using assms(2) by (simp add: fault_free_def)
  with assms(1,3) \<open>P s\<close> show "case with_fault f s of (Inl e, s') \<Rightarrow> E s' | (Inr a, s') \<Rightarrow> Q a s'"
    by (simp add: with_fault_def Let_def split: list.splits)
qed

lemma triple_statement:
  assumes "fault_free P" "\<And>s. P s \<Longrightarrow> E s"
    and "\<And>s a d. P s \<Longrightarrow> f (se_work s) = Inr (a, d) \<Longrightarrow> Q a (s\<lparr>se_work := d\<rparr>)"
  shows "triple P (statement f) Q E"
  unfolding statement_def
  by (rule triple_with_fault) (use assms in \<open>auto split: sum.splits\<close>)

lemma triple_commit:
  assumes "fault_free P" "\<And>s. P s \<Longrightarrow> E s"
    and "\<And>s. P s \<Longrightarrow> Q () (next_transaction (se_work s) (s\<lparr>se_log := se_log s @ [(se_saved s, se_work s)]\<rparr>))"
  shows "triple P commit Q E"
  unfolding commit_def by (rule triple_with_fault) (use assms in auto)

lemma triple_rollback:
  assumes "fault_free F" "\<And>s. P s \<Longrightarrow> F (next_transaction (se_saved s) s)"
  shows "triple P rollback (\<lambda>_. F) F"
proof (rule tripleI)
  fix s
  assume "P s"
  then have "F (next_transaction (se_saved s) s)" by (rule assms(2))
  with assms(1) show "case rollback s of (Inl e, s') \<Rightarrow> F s' | (Inr a, s') \<Rightarrow> F s'"
    by (simp add: rollback_def with_fault_def Let_def fault_free_def split: list.splits)
qed

text \<open>The session between two transactions.\<close>

definition idle :: "'d session \<Rightarrow> bool" where
  "idle s \<longleftrightarrow> se_work s = se_saved s"

lemma idle_faults [simp]: "idle (s\<lparr>se_faults := fs\<rparr>) = idle s"
  by (simp add: idle_def)

lemma next_transaction_simps [simp]:
  "se_log (next_transaction d s) = se_log s" "idle (next_transaction d s)"
  "se_faults (next_transaction d s) = se_faults s"
  by (simp_all add: next_transaction_def idle_def split: list.split)

end
