(* ===== verification/Py_Re.thy ===== *)
theory Py_Re
  imports Py_Text "HOL-Library.Sublist"
begin

text \<open>
  The part of Python's \<^verbatim>\<open>re\<close> that the redactor uses: a backtracking matcher over code
  points, whose successes come in the engine's order of preference, and the substitution of all
  non-overlapping matches from left to right.  Every repetition in the program's patterns
  repeats a single character class and no pattern matches the empty text.  Which code points
  beyond ASCII are word characters is the parameter \<open>word\<close> of the patterns that ask.
\<close>

section \<open>Character classes\<close>

text \<open>\<^verbatim>\<open>\s\<close> for text: the characters for which \<^verbatim>\<open>str.isspace\<close> holds.\<close>

definition code_space :: "nat \<Rightarrow> bool" where
  "code_space c \<longleftrightarrow>
     c \<in> {9, 10, 11, 12, 13, 28, 29, 30, 31, 32, 133, 160, 5760, 8232, 8233, 8239, 8287, 12288} \<or>
     8192 \<le> c \<and> c \<le> 8202"

definition code_lower :: "nat \<Rightarrow> bool" where "code_lower c \<longleftrightarrow> 97 \<le> c \<and> c \<le> 122"

definition code_upper :: "nat \<Rightarrow> bool" where "code_upper c \<longleftrightarrow> 65 \<le> c \<and> c \<le> 90"

definition code_dec :: "nat \<Rightarrow> bool" where "code_dec c \<longleftrightarrow> 48 \<le> c \<and> c \<le> 57"

definition code_alnum :: "nat \<Rightarrow> bool" where
  "code_alnum c \<longleftrightarrow> code_lower c \<or> code_upper c \<or> code_dec c"

text \<open>\<^verbatim>\<open>\w\<close>; \<open>word\<close> decides beyond ASCII.\<close>

definition code_word :: "(nat \<Rightarrow> bool) \<Rightarrow> nat \<Rightarrow> bool" where
  "code_word word c \<longleftrightarrow> code_alnum c \<or> c = 95 \<or> 128 \<le> c \<and> word c"

text \<open>
  The lower-case letter that a character stands for under \<^verbatim>\<open>IGNORECASE\<close>: next to the
  capitals, the dotted and dotless i, the long s and the Kelvin sign.
\<close>

definition code_fold :: "nat \<Rightarrow> nat" where
  "code_fold c =
     (if code_upper c then c + 32
      else if c = 304 \<or> c = 305 then 105
      else if c = 383 then 115
      else if c = 8490 then 107
      else c)"

section \<open>Patterns and matching\<close>

datatype re =
    Re_class "nat \<Rightarrow> bool"
  | Re_exactly nat "nat \<Rightarrow> bool"
  | Re_greedy nat "nat \<Rightarrow> bool"
  | Re_lazy "nat \<Rightarrow> bool"
  | Re_optional re
  | Re_seq re re
  | Re_or re re
  | Re_boundary "nat \<Rightarrow> bool"
  | Re_not_behind "nat \<Rightarrow> bool"
  | Re_ahead re
  | Re_empty

text \<open>A position is the text before it, reversed, and the text after it.\<close>

type_synonym position = "codes \<times> codes"

fun advance :: "nat \<Rightarrow> position \<Rightarrow> position" where
  "advance n (before, rest) = (rev (take n rest) @ before, drop n rest)"

definition span :: "(nat \<Rightarrow> bool) \<Rightarrow> codes \<Rightarrow> nat" where
  "span P s = length (takeWhile P s)"

definition word_before :: "(nat \<Rightarrow> bool) \<Rightarrow> codes \<Rightarrow> bool" where
  "word_before P s \<longleftrightarrow> (case s of [] \<Rightarrow> False | c # _ \<Rightarrow> P c)"

fun successes :: "re \<Rightarrow> position \<Rightarrow> position list" where
  "successes (Re_class P) z = (if word_before P (snd z) then [advance 1 z] else [])"
| "successes (Re_exactly n P) z = (if n \<le> span P (snd z) then [advance n z] else [])"
| "successes (Re_greedy m P) z = map (\<lambda>n. advance n z) (rev [m ..< Suc (span P (snd z))])"
| "successes (Re_lazy P) z = map (\<lambda>n. advance n z) [0 ..< Suc (span P (snd z))]"
| "successes (Re_optional r) z = successes r z @ [z]"
| "successes (Re_seq r q) z = concat (map (successes q) (successes r z))"
| "successes (Re_or r q) z = successes r z @ successes q z"
| "successes (Re_boundary P) z =
     (if word_before P (fst z) \<noteq> word_before P (snd z) then [z] else [])"
| "successes (Re_not_behind P) z = (if word_before P (fst z) then [] else [z])"
| "successes (Re_ahead r) z = (if successes r z = [] then [] else [z])"
| "successes Re_empty z = [z]"

definition re_match :: "re \<Rightarrow> position \<Rightarrow> position option" where
  "re_match r z = (case successes r z of [] \<Rightarrow> None | z' # _ \<Rightarrow> Some z')"

text \<open>A literal text, and the alternatives of a list of patterns.\<close>

fun re_codes :: "codes \<Rightarrow> re" where
  "re_codes [] = Re_empty"
| "re_codes (c # cs) = Re_seq (Re_class (\<lambda>x. x = c)) (re_codes cs)"

definition re_text :: "string \<Rightarrow> re" where
  "re_text s = re_codes (codes_of s)"

definition re_text_any_case :: "string \<Rightarrow> re" where
  "re_text_any_case s = foldr (\<lambda>c r. Re_seq (Re_class (\<lambda>x. code_fold x = c)) r) (codes_of s) Re_empty"

fun re_all :: "re list \<Rightarrow> re" where
  "re_all [] = Re_empty"
| "re_all [r] = r"
| "re_all (r # rs) = Re_seq r (re_all rs)"

fun re_any :: "re list \<Rightarrow> re" where
  "re_any [] = Re_class (\<lambda>_. False)"
| "re_any [r] = r"
| "re_any (r # rs) = Re_or r (re_any rs)"

section \<open>Substitution\<close>

text \<open>
  \<^verbatim>\<open>pattern.subn(replacement, text)\<close>: the new text and the number of replacements.  The
  characters behind a position are those of the old text.
\<close>

function subn_at :: "re \<Rightarrow> codes \<Rightarrow> position \<Rightarrow> codes \<times> nat" where
  "subn_at r repl (before, rest) =
     (case re_match r (before, rest) of
        Some (before', rest') \<Rightarrow>
          if length rest' < length rest
          then (case subn_at r repl (before', rest') of (t, n) \<Rightarrow> (repl @ t, Suc n))
          else (case rest of [] \<Rightarrow> ([], 0)
                | c # s \<Rightarrow> (case subn_at r repl (c # before, s) of (t, n) \<Rightarrow> (c # t, n)))
      | None \<Rightarrow>
          (case rest of [] \<Rightarrow> ([], 0)
           | c # s \<Rightarrow> (case subn_at r repl (c # before, s) of (t, n) \<Rightarrow> (c # t, n))))"
  by pat_completeness auto
termination by (relation "measure (\<lambda>(r, repl, before, rest). length rest)") auto

declare subn_at.simps [simp del]

definition subn :: "re \<Rightarrow> codes \<Rightarrow> codes \<Rightarrow> codes \<times> nat" where
  "subn r repl s = subn_at r repl ([], s)"

lemma success_suffix: "z' \<in> set (successes r z) \<Longrightarrow> suffix (snd z') (snd z)"
proof (induction r z arbitrary: z' rule: successes.induct)
  case (6 r q z)
  from "6.prems" obtain y where y: "y \<in> set (successes r z)" "z' \<in> set (successes q y)" by auto
  from "6.IH"(2) [OF y] "6.IH"(1) [OF y(1)] show ?case by (rule suffix_order.trans)
qed (auto simp: suffix_drop split: if_splits)

lemma re_match_suffix: "re_match r z = Some z' \<Longrightarrow> suffix (snd z') (snd z)"
  using success_suffix [of z' r z] by (simp add: re_match_def split: list.splits)

text \<open>
  What is left of the old text after a substitution: a factor of the new text that is free of
  the replacement's outer characters, and not part of the replacement, starts in the old text
  at a place where the pattern did not match.
\<close>

definition re_consumes :: "re \<Rightarrow> position \<Rightarrow> bool" where
  "re_consumes r z \<longleftrightarrow>
     (case re_match r z of None \<Rightarrow> False | Some z' \<Rightarrow> length (snd z') < length (snd z))"

lemma subn_at_cases:
  obtains (replaced) z' t n where "re_consumes r z" "re_match r z = Some z'"
      "subn_at r repl z' = (t, n)" "subn_at r repl z = (repl @ t, Suc n)"
      "length (snd z') < length (snd z)"
  | (kept) c s t n where "\<not> re_consumes r z" "snd z = c # s"
      "subn_at r repl (c # fst z, s) = (t, n)" "subn_at r repl z = (c # t, n)"
  | (finished) "snd z = []" "subn_at r repl z = ([], 0)"
proof (cases z)
  case (Pair b s)
  show ?thesis
  proof (cases "re_consumes r z")
    case True
    then obtain b' s' where m: "re_match r z = Some (b', s')" "length s' < length s"
      by (auto simp: re_consumes_def Pair split: option.splits)
    obtain t n where t: "subn_at r repl (b', s') = (t, n)" by fastforce
    with m have "subn_at r repl z = (repl @ t, Suc n)"
      by (simp add: Pair subn_at.simps [of r repl b s])
    with True m t show ?thesis by (intro replaced) (auto simp: Pair)
  next
    case False
    then have step: "subn_at r repl z =
        (case s of [] \<Rightarrow> ([], 0)
         | c # s' \<Rightarrow> (case subn_at r repl (c # b, s') of (t, n) \<Rightarrow> (c # t, n)))"
      by (auto simp: re_consumes_def Pair subn_at.simps [of r repl b s] split: option.splits)
    show ?thesis
    proof (cases s)
      case Nil
      with step show ?thesis by (intro finished) (simp_all add: Pair)
    next
      case (Cons c s')
      obtain t n where "subn_at r repl (c # b, s') = (t, n)" by fastforce
      with step Cons False show ?thesis by (intro kept) (simp_all add: Pair)
    qed
  qed
qed

lemma subn_prefix:
  assumes "repl \<noteq> []" "hd repl \<notin> set w" "prefix w (fst (subn_at r repl z))"
  shows "prefix w (snd z)"
  using assms(2,3)
proof (induction "length (snd z)" arbitrary: z w rule: less_induct)
  case less
  show ?case
  proof (cases rule: subn_at_cases [of r z repl])
    case (replaced z' t n)
    with less.prems assms(1) show ?thesis by (cases repl; cases w) auto
  next
    case (kept c s t n)
    with less.prems show ?thesis
    proof (cases w)
      case (Cons x w')
      with less.prems kept have w': "x = c" "hd repl \<notin> set w'" "prefix w' t" by auto
      have "prefix w' s"
        using less.hyps [of "(c # fst z, s)" w'] kept w' by simp
      with w' Cons kept show ?thesis by simp
    qed simp
  qed (use less.prems in auto)
qed

lemma subn_factor:
  assumes w: "w \<noteq> []" "hd repl \<notin> set w" "last repl \<notin> set w" "\<not> sublist w repl" and r: "repl \<noteq> []"
    and "sublist w (fst (subn_at r repl z))"
  shows "\<exists>b s. suffix s (snd z) \<and> prefix w s \<and> \<not> re_consumes r (b, s)"
  using assms(6)
proof (induction "length (snd z)" arbitrary: z rule: less_induct)
  case less
  show ?case
  proof (cases rule: subn_at_cases [of r z repl])
    case (replaced z' t n)
    have "sublist w t"
    proof -
      from less.prems replaced(4) consider "sublist w repl" | "sublist w t"
        | u v where "w = u @ v" "suffix u repl" "prefix v t"
        by (auto simp: sublist_append)
      then show ?thesis
      proof cases
        case 3
        have "u = []"
        proof (rule ccontr)
          assume "u \<noteq> []"
          with 3(2) have "last repl = last u" by (auto simp: suffix_def)
          with \<open>u \<noteq> []\<close> 3(1) w(3) show False by auto
        qed
        with 3 show ?thesis by (simp add: prefix_imp_sublist)
      qed (use w in auto)
    qed
    then obtain b s where bs: "suffix s (snd z')" "prefix w s" "\<not> re_consumes r (b, s)"
      using less.hyps [of z'] replaced by auto
    from bs(1) re_match_suffix [OF replaced(2)] have "suffix s (snd z)" by (rule suffix_order.trans)
    with bs(2,3) show ?thesis by blast
  next
    case (kept c s t n)
    from less.prems kept(4) consider "prefix w (c # t)" | "sublist w t" by (auto simp: sublist_Cons_right)
    then show ?thesis
    proof cases
      case 1
      then have "prefix w (snd z)" using subn_prefix [of repl w r z] r w(2) kept(4) by simp
      with kept(1) show ?thesis by (intro exI [of _ "fst z"] exI [of _ "snd z"]) simp
    next
      case 2
      with less.hyps [of "(c # fst z, s)"] kept show ?thesis by (auto intro: suffix_ConsI)
    qed
  qed (use less.prems w in auto)
qed

text \<open>Where a literal, or a fixed number of characters of a class, matches.\<close>

lemma successes_codes:
  "successes (re_codes cs) z = (if prefix cs (snd z) then [advance (length cs) z] else [])"
proof (induction cs arbitrary: z)
  case (Cons c cs)
  show ?case by (cases z; cases "snd z") (auto simp: Cons.IH word_before_def)
next
  case Nil
  show ?case by (cases z) simp
qed

lemma span_append: "list_all P xs \<Longrightarrow> length xs \<le> span P (xs @ s)"
  by (induction xs) (simp_all add: span_def)

lemma seq_match:
  "z' \<in> set (successes r z) \<Longrightarrow> z'' \<in> set (successes q z') \<Longrightarrow> z'' \<in> set (successes (Re_seq r q) z)"
  by auto

lemma codes_match: "(rev cs @ b, s) \<in> set (successes (re_codes cs) (b, cs @ s))"
  by (simp add: successes_codes)

lemma exactly_match:
  "list_all P xs \<Longrightarrow> length xs = n \<Longrightarrow> (rev xs @ b, s) \<in> set (successes (Re_exactly n P) (b, xs @ s))"
  using span_append [of P xs s] by auto

text \<open>A pattern that starts with a non-empty literal never matches the empty text.\<close>

lemma literal_consumes:
  assumes "c # cs = lit" "successes (Re_seq (re_codes lit) q) (b, s) \<noteq> []"
  shows "re_consumes (Re_seq (re_codes lit) q) (b, s)"
proof -
  from assms(2) obtain z' zs where zs: "successes (Re_seq (re_codes lit) q) (b, s) = z' # zs"
    by (cases "successes (Re_seq (re_codes lit) q) (b, s)") auto
  then have z': "z' \<in> set (successes (Re_seq (re_codes lit) q) (b, s))" by simp
  then have p: "prefix lit s" and q: "z' \<in> set (successes q (advance (length lit) (b, s)))"
    by (auto simp: successes_codes split: if_splits)
  from p assms(1) have "length (drop (length lit) s) < length s"
    by (auto simp: prefix_def)
  with success_suffix [OF q] have "length (snd z') < length s"
    by (auto dest: suffix_length_le)
  with zs show ?thesis by (simp add: re_consumes_def re_match_def)
qed

lemma subn_keeps_out:
  assumes w: "w \<noteq> []" "hd repl \<notin> set w" "last repl \<notin> set w" "\<not> sublist w repl" "repl \<noteq> []"
    and "\<not> sublist w s"
  shows "\<not> sublist w (fst (subn r repl s))"
proof
  assume "sublist w (fst (subn r repl s))"
  then obtain t where "suffix t s" "prefix w t"
    using subn_factor [of w repl r "([], s)"] w by (auto simp: subn_def)
  then have "sublist w s" by (metis prefix_def sublist_appendI suffix_def)
  with assms(6) show False by simp
qed

lemma subn_removes:
  assumes w: "w \<noteq> []" "hd repl \<notin> set w" "last repl \<notin> set w" "\<not> sublist w repl" "repl \<noteq> []"
    and "\<And>b s. re_consumes r (b, w @ s)"
  shows "\<not> sublist w (fst (subn r repl s))"
proof
  assume "sublist w (fst (subn r repl s))"
  then obtain b t where "prefix w t" "\<not> re_consumes r (b, t)"
    using subn_factor [of w repl r "([], s)"] w by (auto simp: subn_def)
  with assms(6) show False by (auto simp: prefix_def)
qed

end
