(* ===== verification/Py_Json.thy ===== *)
theory Py_Json
  imports Py_Text
begin

text \<open>
  The \<^verbatim>\<open>json\<close> module of the standard library as the program uses it: the decoder
  with its hooks, and the string encoder.  Text is a list of code points.  A decoded object is
  what the object hook makes of its pairs, a number with a fraction or an exponent and the
  constants \<^verbatim>\<open>NaN\<close> and \<^verbatim>\<open>Infinity\<close> keep their text.  Nesting beyond the
  interpreter's recursion limit is an error of its own, and so is an integer of more than 4300
  digits.
\<close>

named_theorems json_simps \<open>reading the text of one JSON token\<close>

section \<open>Values, errors and hooks\<close>

datatype json =
    JNull
  | JBool bool
  | JInt int
  | JFloat codes
  | JConstant codes
  | JString codes
  | JArray "json list"
  | JObject "(codes \<times> json) list"

text \<open>
  \<open>Json_Decode\<close> is \<^verbatim>\<open>JSONDecodeError\<close>, \<open>Json_Digits\<close> the plain
  \<^verbatim>\<open>ValueError\<close> of an oversized integer, \<open>Json_Recursion\<close> the
  \<^verbatim>\<open>RecursionError\<close>; whatever a hook raises passes through.
\<close>

datatype 'e json_error = Json_Decode | Json_Digits | Json_Recursion | Json_Hook 'e

record 'e json_hooks =
  jh_object :: "(codes \<times> json) list \<Rightarrow> 'e + json"
  jh_float :: "codes \<Rightarrow> 'e + json"
  jh_constant :: "codes \<Rightarrow> 'e + json"

text \<open>Without an object hook the last member of a name wins, at the place of the first one.\<close>

fun dict_insert :: "codes \<Rightarrow> json \<Rightarrow> (codes \<times> json) list \<Rightarrow> (codes \<times> json) list" where
  "dict_insert k v [] = [(k, v)]"
| "dict_insert k v ((k', v') # ms) = (if k = k' then (k, v) # ms else (k', v') # dict_insert k v ms)"

definition dict_of_pairs :: "(codes \<times> json) list \<Rightarrow> (codes \<times> json) list" where
  "dict_of_pairs pairs = foldl (\<lambda>d (k, v). dict_insert k v d) [] pairs"

definition dict_hook :: "(codes \<times> json) list \<Rightarrow> 'e + json" where
  "dict_hook pairs = Inr (JObject (dict_of_pairs pairs))"

text \<open>A hook that copies the pairs one by one and raises at the first repeated name.\<close>

definition unique_hook :: "'e \<Rightarrow> (codes \<times> json) list \<Rightarrow> 'e + json" where
  "unique_hook e pairs = (if distinct (map fst pairs) then Inr (JObject pairs) else Inl e)"

definition keep_float :: "codes \<Rightarrow> 'e + json" where
  "keep_float s = Inr (JFloat s)"

definition keep_constant :: "codes \<Rightarrow> 'e + json" where
  "keep_constant s = Inr (JConstant s)"

definition hook_error :: "'e + 'a \<Rightarrow> 'e json_error + 'a" where
  "hook_error x = (case x of Inl e \<Rightarrow> Inl (Json_Hook e) | Inr v \<Rightarrow> Inr v)"

section \<open>Reading strings\<close>

definition json_hex :: "nat \<Rightarrow> nat option" where
  "json_hex c =
     (if 48 \<le> c \<and> c \<le> 57 then Some (c - 48)
      else if 97 \<le> c \<and> c \<le> 102 then Some (c - 87)
      else if 65 \<le> c \<and> c \<le> 70 then Some (c - 55)
      else None)"

definition hex4 :: "nat \<Rightarrow> nat \<Rightarrow> nat \<Rightarrow> nat \<Rightarrow> nat option" where
  "hex4 a b c d =
     (case (json_hex a, json_hex b, json_hex c, json_hex d) of
        (Some p, Some q, Some r, Some s) \<Rightarrow> Some (((p * 16 + q) * 16 + r) * 16 + s)
      | _ \<Rightarrow> None)"

definition high_surrogate :: "nat \<Rightarrow> bool" where
  "high_surrogate c \<longleftrightarrow> 55296 \<le> c \<and> c < 56320"

definition low_surrogate :: "nat \<Rightarrow> bool" where
  "low_surrogate c \<longleftrightarrow> 56320 \<le> c \<and> c < 57344"

definition join_surrogates :: "nat \<Rightarrow> nat \<Rightarrow> nat" where
  "join_surrogates h l = 65536 + (h - 55296) * 1024 + (l - 56320)"

text \<open>The escapes of one letter: quote, backslash, slash, b, f, n, r and t.\<close>

definition simple_escape :: "nat \<Rightarrow> nat option" where
  "simple_escape e =
     map_of [(34, 34), (92, 92), (47, 47), (98, 8), (102, 12), (110, 10), (114, 13), (116, 9)] e"

definition then_code :: "nat \<Rightarrow> (codes \<times> codes) option \<Rightarrow> (codes \<times> codes) option" where
  "then_code c rest = map_option (\<lambda>(cs, s). (c # cs, s)) rest"

text \<open>
  The text after an opening quote up to its closing one.  A high surrogate escape joins with a
  low surrogate escape that follows it and stays alone otherwise.
\<close>

fun read_string :: "codes \<Rightarrow> (codes \<times> codes) option" where
  "read_string [] = None"
| "read_string (c # s) =
     (if c = 34 then Some ([], s)
      else if c \<noteq> 92 then (if c < 32 then None else then_code c (read_string s))
      else case s of
        [] \<Rightarrow> None
      | e # s1 \<Rightarrow>
          if e \<noteq> 117 then
            (case simple_escape e of None \<Rightarrow> None | Some d \<Rightarrow> then_code d (read_string s1))
          else (case s1 of
            p # q # r # t # s2 \<Rightarrow>
              (case hex4 p q r t of
                 None \<Rightarrow> None
               | Some u \<Rightarrow>
                   (case s2 of
                      x # y # p' # q' # r' # t' # s3 \<Rightarrow>
                        (case hex4 p' q' r' t' of
                           Some l \<Rightarrow>
                             if high_surrogate u \<and> x = 92 \<and> y = 117 \<and> low_surrogate l
                             then then_code (join_surrogates u l) (read_string s3)
                             else then_code u (read_string s2)
                         | None \<Rightarrow> then_code u (read_string s2))
                    | _ \<Rightarrow> then_code u (read_string s2)))
          | _ \<Rightarrow> None))"

section \<open>Reading numbers\<close>

definition code_digit :: "nat \<Rightarrow> bool" where
  "code_digit c \<longleftrightarrow> 48 \<le> c \<and> c \<le> 57"

definition digits_of :: "codes \<Rightarrow> codes" where
  "digits_of s = takeWhile code_digit s"

definition digits_value :: "codes \<Rightarrow> nat" where
  "digits_value ds = foldl (\<lambda>acc d. 10 * acc + (d - 48)) 0 ds"

definition MAX_INT_DIGITS :: nat where "MAX_INT_DIGITS = 4300"

definition fraction_of :: "codes \<Rightarrow> codes" where
  "fraction_of s =
     (case s of [] \<Rightarrow> []
      | c # r \<Rightarrow> if c = 46 \<and> digits_of r \<noteq> [] then c # digits_of r else [])"

definition exponent_of :: "codes \<Rightarrow> codes" where
  "exponent_of s =
     (case s of [] \<Rightarrow> []
      | c # r \<Rightarrow>
          if c \<noteq> 69 \<and> c \<noteq> 101 then []
          else (let sign = (case r of [] \<Rightarrow> [] | x # _ \<Rightarrow> if x = 43 \<or> x = 45 then [x] else []);
                    ds = digits_of (drop (length sign) r)
                in if ds = [] then [] else c # sign @ ds))"

definition read_number ::
    "'e json_hooks \<Rightarrow> bool \<Rightarrow> codes \<Rightarrow> 'e json_error + json \<times> codes" where
  "read_number hooks negative s =
     (let whole = (case s of [] \<Rightarrow> [] | c # _ \<Rightarrow> if c = 48 then [c] else digits_of s);
          s1 = drop (length whole) s; fraction = fraction_of s1;
          s2 = drop (length fraction) s1; exponent = exponent_of s2;
          rest = drop (length exponent) s2; sign = (if negative then [45] else [])
      in if whole = [] then Inl Json_Decode
         else if fraction = [] \<and> exponent = [] then
           (if MAX_INT_DIGITS < length whole then Inl Json_Digits
            else Inr (JInt (if negative then - int (digits_value whole) else int (digits_value whole)), rest))
         else (case hook_error (jh_float hooks (sign @ whole @ fraction @ exponent)) of
             Inl e \<Rightarrow> Inl e
           | Inr v \<Rightarrow> Inr (v, rest)))"

section \<open>Reading values\<close>

definition json_space :: "nat \<Rightarrow> bool" where
  "json_space c \<longleftrightarrow> c = 32 \<or> c = 9 \<or> c = 10 \<or> c = 13"

definition skip_space :: "codes \<Rightarrow> codes" where
  "skip_space s = dropWhile json_space s"

fun strip_word :: "codes \<Rightarrow> codes \<Rightarrow> codes option" where
  "strip_word [] s = Some s"
| "strip_word (w # ws) [] = None"
| "strip_word (w # ws) (c # s) = (if w = c then strip_word ws s else None)"

definition read_word :: "codes \<Rightarrow> json \<Rightarrow> codes \<Rightarrow> 'e json_error + json \<times> codes" where
  "read_word w v s = (case strip_word w s of None \<Rightarrow> Inl Json_Decode | Some rest \<Rightarrow> Inr (v, rest))"

definition read_constant ::
    "'e json_hooks \<Rightarrow> codes \<Rightarrow> codes \<Rightarrow> 'e json_error + json \<times> codes" where
  "read_constant hooks w s =
     (case strip_word w s of
        None \<Rightarrow> Inl Json_Decode
      | Some rest \<Rightarrow>
          (case hook_error (jh_constant hooks w) of Inl e \<Rightarrow> Inl e | Inr v \<Rightarrow> Inr (v, rest)))"

definition word_null :: codes where "word_null = [110, 117, 108, 108]"
definition word_true :: codes where "word_true = [116, 114, 117, 101]"
definition word_false :: codes where "word_false = [102, 97, 108, 115, 101]"
definition word_nan :: codes where "word_nan = [78, 97, 78]"
definition word_infinity :: codes where "word_infinity = [73, 110, 102, 105, 110, 105, 116, 121]"

text \<open>Every value that is neither an array nor an object.\<close>

definition read_scalar :: "'e json_hooks \<Rightarrow> codes \<Rightarrow> 'e json_error + json \<times> codes" where
  "read_scalar hooks s =
     (case s of
        [] \<Rightarrow> Inl Json_Decode
      | c # r \<Rightarrow>
          if c = 34 then
            (case read_string r of None \<Rightarrow> Inl Json_Decode | Some (t, rest) \<Rightarrow> Inr (JString t, rest))
          else if c = 110 then read_word word_null JNull s
          else if c = 116 then read_word word_true (JBool True) s
          else if c = 102 then read_word word_false (JBool False) s
          else if c = 78 then read_constant hooks word_nan s
          else if c = 73 then read_constant hooks word_infinity s
          else if c = 45 then
            (if strip_word word_infinity r \<noteq> None then read_constant hooks (45 # word_infinity) s
             else read_number hooks True r)
          else read_number hooks False s)"

text \<open>
  Arrays and objects.  \<open>depth\<close> is what is left of the recursion limit and \<open>fuel\<close> bounds the
  number of values still to be read.
\<close>

fun read_value :: "'e json_hooks \<Rightarrow> nat \<Rightarrow> nat \<Rightarrow> codes \<Rightarrow> 'e json_error + json \<times> codes"
  and read_items :: "'e json_hooks \<Rightarrow> nat \<Rightarrow> nat \<Rightarrow> codes \<Rightarrow> 'e json_error + json list \<times> codes"
  and read_members ::
    "'e json_hooks \<Rightarrow> nat \<Rightarrow> nat \<Rightarrow> codes \<Rightarrow> 'e json_error + (codes \<times> json) list \<times> codes" where
  "read_value hooks 0 depth s = Inl Json_Decode"
| "read_value hooks (Suc fuel) depth s =
     (case s of
        [] \<Rightarrow> Inl Json_Decode
      | c # r \<Rightarrow>
          if c = 91 then
            (case depth of
               0 \<Rightarrow> Inl Json_Recursion
             | Suc d \<Rightarrow>
                 if (case skip_space r of [] \<Rightarrow> False | x # _ \<Rightarrow> x = 93)
                 then Inr (JArray [], tl (skip_space r))
                 else (case read_items hooks fuel d (skip_space r) of
                     Inl e \<Rightarrow> Inl e
                   | Inr (vs, rest) \<Rightarrow> Inr (JArray vs, rest)))
          else if c = 123 then
            (case depth of
               0 \<Rightarrow> Inl Json_Recursion
             | Suc d \<Rightarrow>
                 (case (if (case skip_space r of [] \<Rightarrow> False | x # _ \<Rightarrow> x = 125)
                        then Inr ([], tl (skip_space r))
                        else read_members hooks fuel d (skip_space r)) of
                     Inl e \<Rightarrow> Inl e
                   | Inr (pairs, rest) \<Rightarrow>
                       (case hook_error (jh_object hooks pairs) of Inl e \<Rightarrow> Inl e | Inr v \<Rightarrow> Inr (v, rest))))
          else read_scalar hooks s)"
| "read_items hooks 0 depth s = Inl Json_Decode"
| "read_items hooks (Suc fuel) depth s =
     (case read_value hooks fuel depth s of
        Inl e \<Rightarrow> Inl e
      | Inr (v, s1) \<Rightarrow>
          (case skip_space s1 of
             [] \<Rightarrow> Inl Json_Decode
           | c # s2 \<Rightarrow>
               if c = 93 then Inr ([v], s2)
               else if c = 44 then
                 (case read_items hooks fuel depth (skip_space s2) of
                    Inl e \<Rightarrow> Inl e
                  | Inr (vs, rest) \<Rightarrow> Inr (v # vs, rest))
               else Inl Json_Decode))"
| "read_members hooks 0 depth s = Inl Json_Decode"
| "read_members hooks (Suc fuel) depth s =
     (case s of
        [] \<Rightarrow> Inl Json_Decode
      | q # r \<Rightarrow>
          if q \<noteq> 34 then Inl Json_Decode
          else (case read_string r of
              None \<Rightarrow> Inl Json_Decode
            | Some (k, s1) \<Rightarrow>
                (case skip_space s1 of
                   [] \<Rightarrow> Inl Json_Decode
                 | x # s2 \<Rightarrow>
                     if x \<noteq> 58 then Inl Json_Decode
                     else (case read_value hooks fuel depth (skip_space s2) of
                         Inl e \<Rightarrow> Inl e
                       | Inr (v, s3) \<Rightarrow>
                           (case skip_space s3 of
                              [] \<Rightarrow> Inl Json_Decode
                            | c # s4 \<Rightarrow>
                                if c = 125 then Inr ([(k, v)], s4)
                                else if c = 44 then
                                  (case read_members hooks fuel depth (skip_space s4) of
                                     Inl e \<Rightarrow> Inl e
                                   | Inr (ms, rest) \<Rightarrow> Inr ((k, v) # ms, rest))
                                else Inl Json_Decode)))))"

text \<open>
  \<^verbatim>\<open>json.loads\<close> of text: white space around one value, and a byte order mark is refused.
  Every value and every separator takes a character, so twice the length is fuel enough.
\<close>

definition json_loads :: "'e json_hooks \<Rightarrow> nat \<Rightarrow> codes \<Rightarrow> 'e json_error + json" where
  "json_loads hooks depth s =
     (if (case s of [] \<Rightarrow> False | c # _ \<Rightarrow> c = 65279) then Inl Json_Decode
      else case read_value hooks (2 * length s + 2) depth (skip_space s) of
        Inl e \<Rightarrow> Inl e
      | Inr (v, rest) \<Rightarrow> if skip_space rest = [] then Inr v else Inl Json_Decode)"

section \<open>Every token takes a character\<close>

lemma then_code_Some: "then_code c x = Some (cs, s) \<longleftrightarrow> (\<exists>ds. x = Some (ds, s) \<and> cs = c # ds)"
  by (auto simp: then_code_def)

lemma read_string_cases:
  assumes "read_string (c # s) = Some (t, rest)"
  shows "rest = s \<or> (\<exists>s' t'. read_string s' = Some (t', rest) \<and> length s' \<le> length s)"
  using assms unfolding read_string.simps(2)
  by (fastforce simp del: read_string.simps simp: then_code_Some split: if_splits list.splits option.splits)

lemma read_string_shorter: "read_string s = Some (t, rest) \<Longrightarrow> length rest < length s"
proof (induction s arbitrary: t rest rule: length_induct)
  case (1 s)
  show ?case
  proof (cases s)
    case (Cons c s0)
    with "1.prems" read_string_cases [of c s0 t rest]
    consider "rest = s0" | s' t' where "read_string s' = Some (t', rest)" "length s' \<le> length s0" by blast
    then show ?thesis
    proof cases
      case 2
      with Cons "1.IH" [rule_format, of s' t' rest] show ?thesis by simp
    qed (simp add: Cons)
  qed (use "1.prems" in simp)
qed

lemma skip_space_shorter: "length (skip_space s) \<le> length s"
  by (simp add: skip_space_def length_dropWhile_le)

lemma read_number_shorter: "read_number hooks b s = Inr (v, rest) \<Longrightarrow> length rest < length s"
  by (auto simp: read_number_def Let_def digits_of_def split: if_splits list.splits sum.splits)

lemma strip_word_length: "strip_word w s = Some rest \<Longrightarrow> length s = length w + length rest"
  by (induction w s rule: strip_word.induct) (auto split: if_splits)

lemma read_scalar_shorter: "read_scalar hooks s = Inr (v, rest) \<Longrightarrow> length rest < length s"
  by (auto simp: read_scalar_def read_word_def read_constant_def word_null_def word_true_def
      word_false_def word_nan_def word_infinity_def
      dest!: read_string_shorter read_number_shorter strip_word_length
      split: list.splits if_splits option.splits sum.splits)

lemma read_items_Inr:
  assumes "read_items hooks (Suc f) d s = Inr (vs, rest)"
  obtains v s1 c s2 where "read_value hooks f d s = Inr (v, s1)" "skip_space s1 = c # s2"
    "c = 93 \<and> vs = [v] \<and> rest = s2 \<or>
     c = 44 \<and> (\<exists>ws. read_items hooks f d (skip_space s2) = Inr (ws, rest) \<and> vs = v # ws)"
  using assms unfolding read_items.simps(2)
  by (simp del: read_value.simps read_items.simps split: sum.splits prod.splits list.splits if_splits)

lemma read_members_Inr:
  assumes "read_members hooks (Suc f) d s = Inr (ms, rest)"
  obtains r k s1 s2 v s3 c s4 where "s = 34 # r" "read_string r = Some (k, s1)"
    "skip_space s1 = 58 # s2" "read_value hooks f d (skip_space s2) = Inr (v, s3)" "skip_space s3 = c # s4"
    "c = 125 \<and> ms = [(k, v)] \<and> rest = s4 \<or>
     c = 44 \<and> (\<exists>ns. read_members hooks f d (skip_space s4) = Inr (ns, rest) \<and> ms = (k, v) # ns)"
  using assms unfolding read_members.simps(2)
  by (simp del: read_value.simps read_members.simps read_string.simps
      split: sum.splits prod.splits list.splits if_splits option.splits)

lemma read_value_Inr:
  assumes "read_value hooks (Suc f) d s = Inr (v, rest)"
  obtains c r where "s = c # r" "read_scalar hooks s = Inr (v, rest)"
  | c r where "s = c # r" "rest = tl (skip_space r)"
  | c r e vs where "s = c # r" "read_items hooks f e (skip_space r) = Inr (vs, rest)"
  | c r e ms where "s = c # r" "read_members hooks f e (skip_space r) = Inr (ms, rest)"
  using assms unfolding read_value.simps(2)
  by (simp del: read_value.simps read_items.simps read_members.simps
      split: sum.splits prod.splits list.splits if_splits nat.splits)

lemma read_shorter:
  "(\<forall>d s v rest. read_value hooks f d s = Inr (v, rest) \<longrightarrow> length rest < length s) \<and>
   (\<forall>d s vs rest. read_items hooks f d s = Inr (vs, rest) \<longrightarrow> length rest < length s) \<and>
   (\<forall>d s ms rest. read_members hooks f d s = Inr (ms, rest) \<longrightarrow> length rest < length s)"
proof (induction f)
  case (Suc f)
  then have IH: "\<And>d s v rest. read_value hooks f d s = Inr (v, rest) \<Longrightarrow> length rest < length s"
    "\<And>d s vs rest. read_items hooks f d s = Inr (vs, rest) \<Longrightarrow> length rest < length s"
    "\<And>d s ms rest. read_members hooks f d s = Inr (ms, rest) \<Longrightarrow> length rest < length s" by blast+
  have sp: "length rest < length r" if "length rest < length (skip_space r)" for rest r
    using that skip_space_shorter [of r] by simp
  have "length rest < length s" if "read_value hooks (Suc f) d s = Inr (v, rest)" for d s v rest
    using that
  proof (cases rule: read_value_Inr)
    case (1 c r)
    then show ?thesis using read_scalar_shorter [of hooks s v rest] by blast
  next
    case (2 c r)
    then show ?thesis using skip_space_shorter [of r] by simp
  next
    case (3 c r e vs)
    then show ?thesis using sp [OF IH(2)] by (simp add: less_SucI)
  next
    case (4 c r e ms)
    then show ?thesis using sp [OF IH(3)] by (simp add: less_SucI)
  qed
  moreover have "length rest < length s" if "read_items hooks (Suc f) d s = Inr (vs, rest)" for d s vs rest
    using that
  proof (cases rule: read_items_Inr)
    case (1 v s1 c s2)
    have "length s1 < length s" "length s2 < length s1"
      using IH(1) [OF 1(1)] skip_space_shorter [of s1] 1(2) by simp_all
    moreover have "rest = s2 \<or> length rest < length s2" using 1(3) sp [OF IH(2)] by blast
    ultimately show ?thesis by auto
  qed
  moreover have "length rest < length s" if "read_members hooks (Suc f) d s = Inr (ms, rest)" for d s ms rest
    using that
  proof (cases rule: read_members_Inr)
    case (1 r k s1 s2 v s3 c s4)
    have "length s1 < length r" "length s2 < length s1" "length s3 < length s2" "length s4 < length s3"
      using read_string_shorter [OF 1(2)] skip_space_shorter [of s1] 1(3) sp [OF IH(1) [OF 1(4)]]
        skip_space_shorter [of s3] 1(5) by simp_all
    moreover have "rest = s4 \<or> length rest < length s4" using 1(6) sp [OF IH(3)] by blast
    ultimately show ?thesis using 1(1) by auto
  qed
  ultimately show ?case by blast
qed simp

lemmas read_value_shorter = read_shorter [THEN conjunct1, rule_format]
lemmas read_items_shorter = read_shorter [THEN conjunct2, THEN conjunct1, rule_format]
lemmas read_members_shorter = read_shorter [THEN conjunct2, THEN conjunct2, rule_format]

text \<open>More fuel than the length asks for changes nothing.\<close>

lemma read_items_step:
  assumes val: "read_value hooks g d s = read_value hooks f d s"
    and items: "\<And>v s1 s2. read_value hooks f d s = Inr (v, s1) \<Longrightarrow> skip_space s1 = 44 # s2 \<Longrightarrow>
      read_items hooks g d (skip_space s2) = read_items hooks f d (skip_space s2)"
  shows "read_items hooks (Suc g) d s = read_items hooks (Suc f) d s"
proof (cases "read_value hooks f d s")
  case (Inr a)
  obtain v s1 where a: "a = (v, s1)" by (cases a)
  note items' = items [of v s1, unfolded Inr a, OF refl]
  show ?thesis
    unfolding read_items.simps(2) val Inr a
    by (cases "skip_space s1") (auto simp del: read_value.simps read_items.simps simp: items')
qed (unfold read_items.simps(2) val, simp)

lemma read_members_step:
  assumes val: "\<And>s2. length s2 < length s \<Longrightarrow>
      read_value hooks g d (skip_space s2) = read_value hooks f d (skip_space s2)"
    and members: "\<And>s2. length s2 < length s \<Longrightarrow>
      read_members hooks g d (skip_space s2) = read_members hooks f d (skip_space s2)"
  shows "read_members hooks (Suc g) d s = read_members hooks (Suc f) d s"
proof (cases s)
  case (Cons q r)
  show ?thesis
  proof (cases "read_string r")
    case None
    then show ?thesis unfolding read_members.simps(2) Cons by (simp del: read_string.simps)
  next
    case (Some a)
    obtain k s1 where a: "a = (k, s1)" by (cases a)
    show ?thesis
    proof (cases "skip_space s1")
      case (Cons x s2)
      have l: "length s2 < length s"
        using read_string_shorter [OF Some [unfolded a]] skip_space_shorter [of s1] Cons \<open>s = q # r\<close> by simp
      show ?thesis
      proof (cases "read_value hooks f d (skip_space s2)")
        case (Inr b)
        obtain v s3 where b: "b = (v, s3)" by (cases b)
        show ?thesis
        proof (cases "skip_space s3")
          case (Cons c s4)
          have "length s3 < length (skip_space s2)" using read_value_shorter Inr b by blast
          then have "length s4 < length s"
            using l skip_space_shorter [of s2] skip_space_shorter [of s3] Cons by simp
          from members [OF this] show ?thesis
            unfolding read_members.simps(2) \<open>s = q # r\<close> 
            by (simp del: read_string.simps add: Some a \<open>skip_space s1 = x # s2\<close> val [OF l] Inr b Cons)
        qed (unfold read_members.simps(2) \<open>s = q # r\<close>,
            simp del: read_string.simps add: Some a \<open>skip_space s1 = x # s2\<close> val [OF l] Inr b)
      qed (unfold read_members.simps(2) \<open>s = q # r\<close>,
            simp del: read_string.simps add: Some a Cons val [OF l])
    qed (unfold read_members.simps(2) Cons, simp del: read_string.simps add: Some a)
  qed
qed (simp add: read_members.simps)

lemma read_value_step:
  assumes "\<And>e r. length r < length s \<Longrightarrow> read_items hooks g e (skip_space r) = read_items hooks f e (skip_space r)"
    and "\<And>e r. length r < length s \<Longrightarrow> read_members hooks g e (skip_space r) = read_members hooks f e (skip_space r)"
  shows "read_value hooks (Suc g) d s = read_value hooks (Suc f) d s"
proof (cases s)
  case (Cons c r)
  then have "length r < length s" by simp
  from assms [OF this] show ?thesis
    unfolding read_value.simps(2) Cons by (simp del: read_items.simps read_members.simps split: nat.splits)
qed simp

lemma read_fuel:
  "(\<forall>d s f'. 2 * length s + 1 \<le> f \<longrightarrow> f \<le> f' \<longrightarrow> read_value hooks f' d s = read_value hooks f d s) \<and>
   (\<forall>d s f'. 2 * length s + 2 \<le> f \<longrightarrow> f \<le> f' \<longrightarrow> read_items hooks f' d s = read_items hooks f d s) \<and>
   (\<forall>d s f'. 2 * length s + 2 \<le> f \<longrightarrow> f \<le> f' \<longrightarrow> read_members hooks f' d s = read_members hooks f d s)"
proof (induction f)
  case (Suc f)
  then have IH: "\<And>d s f'. 2 * length s + 1 \<le> f \<Longrightarrow> f \<le> f' \<Longrightarrow> read_value hooks f' d s = read_value hooks f d s"
    "\<And>d s f'. 2 * length s + 2 \<le> f \<Longrightarrow> f \<le> f' \<Longrightarrow> read_items hooks f' d s = read_items hooks f d s"
    "\<And>d s f'. 2 * length s + 2 \<le> f \<Longrightarrow> f \<le> f' \<Longrightarrow> read_members hooks f' d s = read_members hooks f d s"
    by blast+
  have sp: "2 * length (skip_space r) + 2 \<le> f" if "length r < length s" "2 * length s \<le> f" for r s :: codes
    using that skip_space_shorter [of r] by linarith
  have V: "read_value hooks (Suc g) d s = read_value hooks (Suc f) d s"
    if "2 * length s \<le> f" "f \<le> g" for d s g
  proof (rule read_value_step)
    fix e r assume "length (r :: codes) < length s"
    with that sp [of r s] have "2 * length (skip_space r) + 2 \<le> f" by linarith
    with that(2) IH(2,3) [of "skip_space r" g e]
    show "read_items hooks g e (skip_space r) = read_items hooks f e (skip_space r)"
      "read_members hooks g e (skip_space r) = read_members hooks f e (skip_space r)" by simp_all
  qed
  have I: "read_items hooks (Suc g) d s = read_items hooks (Suc f) d s"
    if l: "2 * length s + 1 \<le> f" "f \<le> g" for d s g
  proof (rule read_items_step [OF IH(1) [OF l]])
    fix v s1 s2
    assume "read_value hooks f d s = Inr (v, s1)" "skip_space s1 = 44 # s2"
    then have "length s2 < length s" using read_value_shorter [of hooks f d s v s1] skip_space_shorter [of s1] by simp
    with l sp [of s2 s] have "2 * length (skip_space s2) + 2 \<le> f" by linarith
    then show "read_items hooks g d (skip_space s2) = read_items hooks f d (skip_space s2)" by (rule IH(2)) (rule l(2))
  qed
  have M: "read_members hooks (Suc g) d s = read_members hooks (Suc f) d s"
    if l: "2 * length s + 1 \<le> f" "f \<le> g" for d s g
  proof (rule read_members_step)
    fix r assume "length (r :: codes) < length s"
    with l sp [of r s] have "2 * length (skip_space r) + 2 \<le> f" by linarith
    with l(2) IH(1,3) [of "skip_space r" g d]
    show "read_value hooks g d (skip_space r) = read_value hooks f d (skip_space r)"
      "read_members hooks g d (skip_space r) = read_members hooks f d (skip_space r)" by simp_all
  qed
  have pred: "\<exists>g. f' = Suc g \<and> f \<le> g" if "Suc f \<le> f'" for f'
    using that by (cases f') simp_all
  show ?case
  proof (intro conjI allI impI)
    fix d and s :: codes and f' assume l: "2 * length s + 1 \<le> Suc f" "Suc f \<le> f'"
    obtain g where g: "f' = Suc g" "f \<le> g" using pred [OF l(2)] by blast
    show "read_value hooks f' d s = read_value hooks (Suc f) d s" unfolding g(1) by (rule V) (use l g in linarith)+
  next
    fix d and s :: codes and f' assume l: "2 * length s + 2 \<le> Suc f" "Suc f \<le> f'"
    obtain g where g: "f' = Suc g" "f \<le> g" using pred [OF l(2)] by blast
    show "read_items hooks f' d s = read_items hooks (Suc f) d s" unfolding g(1) by (rule I) (use l g in linarith)+
  next
    fix d and s :: codes and f' assume l: "2 * length s + 2 \<le> Suc f" "Suc f \<le> f'"
    obtain g where g: "f' = Suc g" "f \<le> g" using pred [OF l(2)] by blast
    show "read_members hooks f' d s = read_members hooks (Suc f) d s" unfolding g(1) by (rule M) (use l g in linarith)+
  qed
qed simp

lemmas read_value_fuel = read_fuel [THEN conjunct1, rule_format]

lemma json_loads_fuel:
  assumes "2 * length s + 2 \<le> f"
  shows "json_loads hooks depth s =
    (if (case s of [] \<Rightarrow> False | c # _ \<Rightarrow> c = 65279) then Inl Json_Decode
     else case read_value hooks f depth (skip_space s) of
       Inl e \<Rightarrow> Inl e
     | Inr (v, rest) \<Rightarrow> if skip_space rest = [] then Inr v else Inl Json_Decode)"
proof -
  have "read_value hooks f depth (skip_space s) = read_value hooks (2 * length s + 2) depth (skip_space s)"
    by (rule read_value_fuel) (use assms skip_space_shorter [of s] in linarith)+
  then show ?thesis by (simp only: json_loads_def)
qed

section \<open>Writing strings\<close>

text \<open>
  \<^verbatim>\<open>json.dumps\<close> of text with \<^verbatim>\<open>ensure_ascii\<close> off: the quote, the
  backslash and the controls are escaped, everything else is copied.
\<close>

definition hex_code :: "nat \<Rightarrow> nat" where
  "hex_code d = (if d < 10 then 48 + d else 87 + d)"

definition json_escape :: "nat \<Rightarrow> codes" where
  "json_escape c =
     (if c = 34 then [92, 34]
      else if c = 92 then [92, 92]
      else if c = 8 then [92, 98]
      else if c = 12 then [92, 102]
      else if c = 10 then [92, 110]
      else if c = 13 then [92, 114]
      else if c = 9 then [92, 116]
      else if c < 32 then [92, 117, 48, 48, hex_code (c div 16), hex_code (c mod 16)]
      else [c])"

definition json_quote :: "codes \<Rightarrow> codes" where
  "json_quote s = 34 # concat (map json_escape s) @ [34]"

lemma read_plain: "c \<noteq> 34 \<Longrightarrow> c \<noteq> 92 \<Longrightarrow> 32 \<le> c \<Longrightarrow> read_string (c # s) = then_code c (read_string s)"
  by simp

lemma read_escape: "e \<noteq> 117 \<Longrightarrow> simple_escape e = Some d \<Longrightarrow> read_string (92 # e # s) = then_code d (read_string s)"
  by simp

lemma read_unicode_escape:
  assumes "hex4 p q r t = Some u" "\<not> high_surrogate u"
  shows "read_string (92 # 117 # p # q # r # t # s) = then_code u (read_string s)"
  using assms by (subst read_string.simps) (simp del: read_string.simps split: list.split option.split)

lemma json_hex_code: "d < 16 \<Longrightarrow> json_hex (hex_code d) = Some d"
  by (auto simp: json_hex_def hex_code_def)

lemma read_json_escape: "read_string (json_escape c @ s) = then_code c (read_string s)"
proof (cases "c < 32 \<and> c \<notin> {8, 9, 10, 12, 13}")
  case True
  then have "hex4 48 48 (hex_code (c div 16)) (hex_code (c mod 16)) = Some c"
    by (simp add: hex4_def json_hex_code less_mult_imp_div_less) (simp add: json_hex_def)
  moreover have "json_escape c = [92, 117, 48, 48, hex_code (c div 16), hex_code (c mod 16)]"
    using True by (auto simp: json_escape_def)
  moreover have "\<not> high_surrogate c" using True by (simp add: high_surrogate_def)
  ultimately show ?thesis by (simp del: read_string.simps add: read_unicode_escape)
next
  case False
  have e: "read_string (92 # e # s) = then_code d (read_string s)" if "simple_escape e = Some d" "e \<noteq> 117" for e d
    using that by (rule read_escape [rotated])
  show ?thesis
  proof (cases "32 \<le> c \<and> c \<noteq> 34 \<and> c \<noteq> 92")
    case True
    then show ?thesis by (simp add: json_escape_def read_plain del: read_string.simps)
  next
    case other: False
    then have "c \<in> {34, 92, 8, 9, 10, 12, 13}" using False by auto
    then show ?thesis
      by (elim insertE) (simp_all del: read_string.simps add: json_escape_def e simple_escape_def)
  qed
qed

lemma read_string_escaped:
  "read_string (concat (map json_escape s) @ 34 # rest) = Some (s, rest)"
proof (induction s)
  case (Cons c s)
  then show ?case
    by (simp del: read_string.simps add: read_json_escape) (simp add: then_code_def)
qed simp

section \<open>Bytes\<close>

text \<open>
  \<^verbatim>\<open>json.loads\<close> of bytes guesses the encoding from the first bytes, and surrogates
  pass through.  A byte order mark is removed by the codecs that carry one.
\<close>

definition code_point :: "nat \<Rightarrow> bool" where
  "code_point c \<longleftrightarrow> c < 1114112"

definition pair_unit :: "bool \<Rightarrow> nat \<Rightarrow> nat \<Rightarrow> nat" where
  "pair_unit big a b = (if big then a * 256 + b else b * 256 + a)"

fun utf16_read :: "bool \<Rightarrow> nat list \<Rightarrow> codes option" where
  "utf16_read big [] = Some []"
| "utf16_read big [a] = None"
| "utf16_read big [a, b] = Some [pair_unit big a b]"
| "utf16_read big [a, b, c] = None"
| "utf16_read big (a # b # c # d # s) =
     (if high_surrogate (pair_unit big a b) \<and> low_surrogate (pair_unit big c d)
      then map_option ((#) (join_surrogates (pair_unit big a b) (pair_unit big c d))) (utf16_read big s)
      else map_option ((#) (pair_unit big a b)) (utf16_read big (c # d # s)))"

fun utf32_read :: "bool \<Rightarrow> nat list \<Rightarrow> codes option" where
  "utf32_read big [] = Some []"
| "utf32_read big (a # b # c # d # s) =
     (let u = (if big then pair_unit big a b * 65536 + pair_unit big c d
               else pair_unit big c d * 65536 + pair_unit big a b)
      in if code_point u then map_option ((#) u) (utf32_read big s) else None)"
| "utf32_read big s = None"

definition starts_with :: "nat list \<Rightarrow> nat list \<Rightarrow> bool" where
  "starts_with p s \<longleftrightarrow> take (length p) s = p"

definition json_decode_bytes :: "bytes \<Rightarrow> codes option" where
  "json_decode_bytes bs =
     (let s = map unat bs in
      if starts_with [0, 0, 254, 255] s then utf32_read True (drop 4 s)
      else if starts_with [255, 254, 0, 0] s then utf32_read False (drop 4 s)
      else if starts_with [254, 255] s then utf16_read True (drop 2 s)
      else if starts_with [255, 254] s then utf16_read False (drop 2 s)
      else if starts_with [239, 187, 191] s then utf8_read code_point (drop 3 s)
      else case s of
        a # b # c # d # r \<Rightarrow>
          if a = 0 then (if b = 0 then utf32_read True s else utf16_read True s)
          else if b = 0 then (if c = 0 \<and> d = 0 then utf32_read False s else utf16_read False s)
          else utf8_read code_point s
      | [a, b] \<Rightarrow>
          if a = 0 then utf16_read True s else if b = 0 then utf16_read False s
          else utf8_read code_point s
      | _ \<Rightarrow> utf8_read code_point s)"

end
