(* ===== verification/Scan_Token.thy ===== *)
theory Scan_Token
  imports Contracts Py_Text
begin

text \<open>
  Bearer tokens of the scan uploader (\<^verbatim>\<open>access/scan_token\<close>) and their table
  (\<^verbatim>\<open>db/repositories/api_tokens.py\<close>).  A token is
  \<^verbatim>\<open>asu_v1_<selector>.<secret>\<close>; the table keeps the selector and the digest of the
  secret.  SHA-256 and the Unicode tables (NFKC, case folding) are parameters.
\<close>

section \<open>Records\<close>

datatype scan_token_decision =
    Token_Authenticated | Token_Invalid | Token_User_Disabled | Token_Revoked | Token_Expired
  | Token_Insufficient_Scope

datatype create_decision =
    Token_Created | Active_Limit_Reached | Creation_Rate_Limited | Label_Conflict | Selector_Collision

record create_token_command =
  ct_user_id :: int
  ct_label :: string
  ct_expiry_days :: "int option"

record parsed_token =
  pt_selector :: string
  pt_secret :: bytes

record token_record =
  tr_token_id :: string
  tr_user_id :: int
  tr_label :: string
  tr_label_key :: string
  tr_selector :: string
  tr_secret_digest :: bytes
  tr_scope :: string
  tr_token_version :: int
  tr_created_at :: datetime
  tr_expires_at :: datetime
  tr_revoked_at :: "datetime option"

record token_authentication_record =
  ta_token :: token_record
  ta_account_name :: string
  ta_user_disabled_at :: "datetime option"

record issued_token =
  it_plaintext_token :: string
  it_record :: token_record

record token_principal =
  tp_token_id :: string
  tp_user_id :: int
  tp_account_name :: string
  tp_token_label :: string
  tp_scope :: string
  tp_expires_at :: datetime

record token_auth_result =
  tx_decision :: scan_token_decision
  tx_principal :: "token_principal option"

datatype token_error =
    ScanTokenValidationError string
  | ScanTokenActiveLimitError
  | ScanTokenCreationRateLimitError
  | ScanTokenLabelConflictError
  | ScanTokenSelectorCollisionError
  | Token_RuntimeError string
  | Token_IntegrityError

text \<open>The Unicode functions the label rules use.\<close>

record unicode_port =
  uc_nfkc :: "string \<Rightarrow> string"
  uc_casefold :: "string \<Rightarrow> string"

section \<open>Labels and expiry\<close>

text \<open>Characters 0 to 255 whose Unicode category begins with \<open>C\<close>.\<close>

definition category_other :: "char \<Rightarrow> bool" where
  "category_other c \<longleftrightarrow>
     (of_char c :: nat) < 32 \<or> 127 \<le> (of_char c :: nat) \<and> (of_char c :: nat) < 160 \<or>
     (of_char c :: nat) = 173"

definition normalize_scan_token_label :: "unicode_port \<Rightarrow> string \<Rightarrow> token_error + string \<times> string" where
  "normalize_scan_token_label uc label =
     (let normalized = uc_nfkc uc label in
      if list_ex category_other normalized
      then Inl (ScanTokenValidationError ''token label must not contain control characters'')
      else
        (let stripped = py_strip normalized in
         if \<not> (1 \<le> length stripped \<and> length stripped \<le> 64)
         then Inl (ScanTokenValidationError ''token label must contain 1 to 64 characters'')
         else Inr (stripped, uc_casefold uc stripped)))"

definition normalize_expiry_days :: "int option \<Rightarrow> token_error + int" where
  "normalize_expiry_days expiry =
     (case expiry of
        None \<Rightarrow> Inr TOKEN_DEFAULT_EXPIRY_DAYS
      | Some n \<Rightarrow>
          if \<not> (1 \<le> n \<and> n \<le> TOKEN_MAX_EXPIRY_DAYS)
          then Inl (ScanTokenValidationError ''token expiry must be between 1 and 365 days'')
          else Inr n)"

section \<open>Parsing\<close>

definition digest_token_secret :: "(bytes \<Rightarrow> bytes) \<Rightarrow> bytes \<Rightarrow> bytes" where
  "digest_token_secret sha secret = sha secret"

definition dummy_secret_digest :: "(bytes \<Rightarrow> bytes) \<Rightarrow> bytes" where
  "dummy_secret_digest sha = sha (replicate TOKEN_SECRET_BYTES 0)"

text \<open>The groups of the token pattern: sixteen selector and 43 secret characters.\<close>

definition match_token :: "string \<Rightarrow> (string \<times> string) option" where
  "match_token s =
     (let rest = drop (length TOKEN_PREFIX) s; selector = take 16 rest; secret = drop 17 rest in
      if take (length TOKEN_PREFIX) s = TOKEN_PREFIX \<and> length selector = 16 \<and>
         list_all is_b64url selector \<and> take 1 (drop 16 rest) = ''.'' \<and> length secret = 43 \<and>
         list_all is_b64url secret
      then Some (selector, secret) else None)"

text \<open>
  With \<^verbatim>\<open>validate=True\<close> the decoder refuses characters outside the alphabet, which the
  pattern has already excluded.
\<close>

definition parse_scan_token :: "string \<Rightarrow> token_error + parsed_token" where
  "parse_scan_token plaintext =
     (case match_token plaintext of
        None \<Rightarrow> Inl (ScanTokenValidationError ''scan token has an invalid format'')
      | Some (selector, encoded_secret) \<Rightarrow>
     (case (b64_decode selector, b64_decode encoded_secret) of
        (Some selector_bytes, Some secret) \<Rightarrow>
          (if length selector_bytes \<noteq> TOKEN_SELECTOR_BYTES \<or> length secret \<noteq> TOKEN_SECRET_BYTES
           then Inl (ScanTokenValidationError ''scan token has invalid component lengths'')
           else if b64_encode selector_bytes \<noteq> selector
           then Inl (ScanTokenValidationError ''scan token selector is not canonical'')
           else if b64_encode secret \<noteq> encoded_secret
           then Inl (ScanTokenValidationError ''scan token secret is not canonical'')
           else Inr \<lparr>pt_selector = selector, pt_secret = secret\<rparr>)
      | _ \<Rightarrow> Inl (ScanTokenValidationError ''scan token has invalid base64url data'')))"

definition token_text :: "bytes \<Rightarrow> bytes \<Rightarrow> string" where
  "token_text selector_bytes secret =
     TOKEN_PREFIX @ b64_encode selector_bytes @ ''.'' @ b64_encode secret"

lemma match_token_append:
  assumes "length a = 16" "length b = 43" "list_all is_b64url a" "list_all is_b64url b"
  shows "match_token (TOKEN_PREFIX @ a @ ''.'' @ b) = Some (a, b)"
  using assms by (simp add: match_token_def Let_def)

lemma match_tokenD:
  assumes "match_token s = Some (a, b)"
  shows "s = TOKEN_PREFIX @ a @ ''.'' @ b \<and> length a = 16 \<and> length b = 43"
proof -
  define rest where "rest = drop (length TOKEN_PREFIX) s"
  have parts: "a = take 16 rest" "b = drop 17 rest" "take (length TOKEN_PREFIX) s = TOKEN_PREFIX"
    "length (take 16 rest) = 16" "take 1 (drop 16 rest) = ''.''" "length b = 43"
    using assms by (auto simp: match_token_def rest_def Let_def split: if_splits)
  have "rest = take 16 rest @ take 1 (drop 16 rest) @ drop 17 rest"
    by (metis append_take_drop_id drop_drop add.commute one_plus_numeral semiring_norm(5) semiring_norm(3)
        numeral_One numeral_plus_one)
  moreover have "s = TOKEN_PREFIX @ rest"
    using append_take_drop_id [of "length TOKEN_PREFIX" s] parts(3) by (simp add: rest_def)
  ultimately show ?thesis using parts by simp
qed

lemma parse_scan_token_canonical:
  assumes "length selector = 12" "length secret = 32"
  shows "parse_scan_token (token_text selector secret) =
    Inr \<lparr>pt_selector = b64_encode selector, pt_secret = secret\<rparr>"
proof -
  have "match_token (token_text selector secret) = Some (b64_encode selector, b64_encode secret)"
    unfolding token_text_def
    by (rule match_token_append) (simp_all add: assms length_b64_encode b64_encode_letters)
  with assms show ?thesis
    by (simp add: parse_scan_token_def b64_decode_encode token_constants)
qed

text \<open>
  A bearer text is accepted by the parser exactly if it is the canonical spelling of a
  twelve-byte selector and a 32-byte secret, and then gives that secret back: every token has
  one spelling only.
\<close>

theorem parse_scan_token_iff:
  "parse_scan_token s = Inr p \<longleftrightarrow>
     (\<exists>selector secret. length selector = 12 \<and> length secret = 32 \<and> s = token_text selector secret \<and>
        p = \<lparr>pt_selector = b64_encode selector, pt_secret = secret\<rparr>)"
proof
  assume parsed: "parse_scan_token s = Inr p"
  then obtain a b where m: "match_token s = Some (a, b)"
    by (auto simp: parse_scan_token_def split: option.splits)
  then obtain selector secret where "b64_encode selector = a" "b64_encode secret = b"
      "length selector = 12" "length secret = 32" "p = \<lparr>pt_selector = a, pt_secret = secret\<rparr>"
    using parsed by (auto simp: parse_scan_token_def token_constants split: option.splits if_splits)
  then show "\<exists>selector secret. length selector = 12 \<and> length secret = 32 \<and> s = token_text selector secret \<and>
      p = \<lparr>pt_selector = b64_encode selector, pt_secret = secret\<rparr>"
    using match_tokenD [OF m] by (auto simp: token_text_def)
qed (auto simp: parse_scan_token_canonical)

section \<open>Issuing\<close>

definition token_aware :: "datetime \<Rightarrow> token_error + datetime" where
  "token_aware d =
     (if \<not> aware d
      then Inl (Token_RuntimeError ''scan-token clock and stored timestamps must be timezone-aware'')
      else Inr d)"

text \<open>
  The loop over at most \<open>n\<close> further attempts; only a selector collision leads to another one.
\<close>

fun create_attempts ::
    "(bytes \<Rightarrow> bytes) \<Rightarrow> 'r random_port \<Rightarrow> (token_record \<Rightarrow> datetime \<Rightarrow> 's \<Rightarrow> token_error + create_decision \<times> 's)
     \<Rightarrow> int \<Rightarrow> string \<Rightarrow> string \<Rightarrow> datetime \<Rightarrow> int \<Rightarrow> nat \<Rightarrow> 'r \<Rightarrow> 's
     \<Rightarrow> token_error + issued_token \<times> 's" where
  "create_attempts sha port create user_id label label_key now expiry_days 0 r s =
     Inl ScanTokenSelectorCollisionError"
| "create_attempts sha port create user_id label label_key now expiry_days (Suc n) r s =
     (case random_bytes_checked port r TOKEN_SELECTOR_BYTES of
        Inl msg \<Rightarrow> Inl (Token_RuntimeError msg)
      | Inr (selector_bytes, r1) \<Rightarrow>
     (case random_bytes_checked port r1 TOKEN_SECRET_BYTES of
        Inl msg \<Rightarrow> Inl (Token_RuntimeError msg)
      | Inr (secret, r2) \<Rightarrow>
     (case random_uuid port r2 of
        Inl msg \<Rightarrow> Inl (Token_RuntimeError msg)
      | Inr (token_id, r3) \<Rightarrow>
     (let record = \<lparr>tr_token_id = token_id, tr_user_id = user_id, tr_label = label,
            tr_label_key = label_key, tr_selector = b64_encode selector_bytes,
            tr_secret_digest = digest_token_secret sha secret, tr_scope = TOKEN_SCOPE,
            tr_token_version = 1, tr_created_at = now,
            tr_expires_at = dt_add now (days expiry_days), tr_revoked_at = None\<rparr>
      in case create record now s of
           Inl e \<Rightarrow> Inl e
         | Inr (Token_Created, s') \<Rightarrow>
             Inr (\<lparr>it_plaintext_token = token_text selector_bytes secret, it_record = record\<rparr>, s')
         | Inr (Active_Limit_Reached, s') \<Rightarrow> Inl ScanTokenActiveLimitError
         | Inr (Creation_Rate_Limited, s') \<Rightarrow> Inl ScanTokenCreationRateLimitError
         | Inr (Label_Conflict, s') \<Rightarrow> Inl ScanTokenLabelConflictError
         | Inr (Selector_Collision, s') \<Rightarrow>
             create_attempts sha port create user_id label label_key now expiry_days n r3 s'))))"

definition MAX_COLLISION_ATTEMPTS :: nat where "MAX_COLLISION_ATTEMPTS = 4"

definition create_scan_token ::
    "(bytes \<Rightarrow> bytes) \<Rightarrow> unicode_port \<Rightarrow> 'r random_port
     \<Rightarrow> (token_record \<Rightarrow> datetime \<Rightarrow> int \<Rightarrow> int \<Rightarrow> 's \<Rightarrow> token_error + create_decision \<times> 's)
     \<Rightarrow> create_token_command \<Rightarrow> datetime \<Rightarrow> 'r \<Rightarrow> 's \<Rightarrow> token_error + issued_token \<times> 's" where
  "create_scan_token sha uc port create command clock r s =
     (case normalize_scan_token_label uc (ct_label command) of
        Inl e \<Rightarrow> Inl e
      | Inr (label, label_key) \<Rightarrow>
     (case normalize_expiry_days (ct_expiry_days command) of
        Inl e \<Rightarrow> Inl e
      | Inr expiry_days \<Rightarrow>
     (case token_aware clock of
        Inl e \<Rightarrow> Inl e
      | Inr now \<Rightarrow>
          create_attempts sha port
            (\<lambda>record now s. create record now TOKEN_ACTIVE_LIMIT TOKEN_CREATION_HOURLY_LIMIT s)
            (ct_user_id command) label label_key now expiry_days MAX_COLLISION_ATTEMPTS r s)))"

section \<open>Authenticating\<close>

definition token_answer :: "scan_token_decision \<Rightarrow> token_auth_result" where
  "token_answer d = \<lparr>tx_decision = d, tx_principal = None\<rparr>"

definition authenticate_scan_token ::
    "(bytes \<Rightarrow> bytes) \<Rightarrow> (string \<Rightarrow> token_authentication_record option) \<Rightarrow> string \<Rightarrow> datetime \<Rightarrow> string
     \<Rightarrow> token_error + token_auth_result" where
  "authenticate_scan_token sha find_for_authentication plaintext clock required_scope =
     (case parse_scan_token plaintext of
        Inl _ \<Rightarrow> Inr (token_answer Token_Invalid)
      | Inr parsed \<Rightarrow>
     (let rec = find_for_authentication (pt_selector parsed);
          expected = (case rec of
             Some a \<Rightarrow> if length (tr_secret_digest (ta_token a)) = 32
                       then tr_secret_digest (ta_token a) else dummy_secret_digest sha
           | None \<Rightarrow> dummy_secret_digest sha);
          secret_matches = (digest_token_secret sha (pt_secret parsed) = expected)
      in case rec of
           None \<Rightarrow> Inr (token_answer Token_Invalid)
         | Some a \<Rightarrow>
             if \<not> secret_matches then Inr (token_answer Token_Invalid)
             else case token_aware clock of
               Inl e \<Rightarrow> Inl e
             | Inr now \<Rightarrow>
                 if ta_user_disabled_at a \<noteq> None then Inr (token_answer Token_User_Disabled)
                 else if tr_revoked_at (ta_token a) \<noteq> None then Inr (token_answer Token_Revoked)
                 else case token_aware (tr_expires_at (ta_token a)) of
                   Inl e \<Rightarrow> Inl e
                 | Inr expires \<Rightarrow>
                     if dt_le expires now then Inr (token_answer Token_Expired)
                     else if tr_scope (ta_token a) \<noteq> required_scope
                     then Inr (token_answer Token_Insufficient_Scope)
                     else Inr \<lparr>tx_decision = Token_Authenticated,
                       tx_principal = Some \<lparr>tp_token_id = tr_token_id (ta_token a),
                         tp_user_id = tr_user_id (ta_token a), tp_account_name = ta_account_name a,
                         tp_token_label = tr_label (ta_token a), tp_scope = tr_scope (ta_token a),
                         tp_expires_at = tr_expires_at (ta_token a)\<rparr>\<rparr>))"

end
