(* ===== verification/Redactor.thy ===== *)
theory Redactor
  imports Py_Re Py_Json Scan_Token
begin

text \<open>
  Secret and host-path redaction (\<^verbatim>\<open>ingestion/data_redactor\<close>), shared by the uploader
  and the server.  The patterns are those of the module, in its order; the redactor walks a JSON
  tree and rebuilds it.  Which characters beyond ASCII are word characters is a parameter.
\<close>

section \<open>Patterns\<close>

definition REDACTED :: codes where "REDACTED = codes_of ''[REDACTED]''"

definition REDACTED_HOST :: codes where "REDACTED_HOST = codes_of ''[REDACTED_HOST_PATH]''"

definition SENSITIVE_KEYS :: "string list" where
  "SENSITIVE_KEYS =
     [''secret'', ''secret_value'', ''password'', ''passwd'', ''pwd'', ''authorization'',
      ''proxy_authorization'', ''cookie'', ''set_cookie'', ''credential'', ''credentials'',
      ''private_key'', ''api_key'', ''access_key'', ''access_token'', ''refresh_token'',
      ''client_secret'', ''git_credentials'', ''token'']"

definition sensitive_key :: "codes \<Rightarrow> bool" where
  "sensitive_key key \<longleftrightarrow> map code_fold key \<in> set (map codes_of SENSITIVE_KEYS)"

definition CANARY :: codes where "CANARY = codes_of ''AS_CANARY_SECRET_DO_NOT_PERSIST''"

definition token_char :: "nat \<Rightarrow> bool" where
  "token_char c \<longleftrightarrow> code_alnum c \<or> c = 95 \<or> c = 45"

definition re_one :: "string \<Rightarrow> re" where
  "re_one s = Re_class (\<lambda>c. c \<in> set (codes_of s))"

definition re_none_of :: "nat \<Rightarrow> string \<Rightarrow> re" where
  "re_none_of m s = Re_greedy m (\<lambda>c. \<not> code_space c \<and> c \<notin> set (codes_of s))"

definition canary_pattern :: re where
  "canary_pattern =
     Re_seq (re_codes CANARY) (Re_optional (Re_seq (re_text ''_'') (Re_greedy 1 token_char)))"

definition scan_token_pattern :: re where
  "scan_token_pattern =
     Re_seq (re_text ''asu_v1_'') (re_all
       [Re_exactly 16 token_char, re_text ''.'', Re_exactly 43 token_char])"

definition bearer_pattern :: "(nat \<Rightarrow> bool) \<Rightarrow> re" where
  "bearer_pattern word = re_all
     [Re_boundary (code_word word), re_text_any_case ''bearer'', Re_greedy 1 code_space,
      Re_greedy 8 (\<lambda>c. code_alnum (code_fold c) \<or> c \<in> set (codes_of ''._~+/=-''))]"

definition github_pat_pattern :: "(nat \<Rightarrow> bool) \<Rightarrow> re" where
  "github_pat_pattern word = re_all
     [Re_boundary (code_word word), re_text ''github_pat_'',
      Re_greedy 20 (\<lambda>c. code_alnum c \<or> c = 95), Re_boundary (code_word word)]"

definition github_token_pattern :: "(nat \<Rightarrow> bool) \<Rightarrow> re" where
  "github_token_pattern word = re_all
     [Re_boundary (code_word word), re_text ''gh'', re_one ''pousr'', re_text ''_'',
      Re_greedy 20 code_alnum, Re_boundary (code_word word)]"

definition assignment_pattern :: "(nat \<Rightarrow> bool) \<Rightarrow> re" where
  "assignment_pattern word = re_all
     [Re_boundary (code_word word),
      re_any [re_text_any_case ''password'', re_text_any_case ''passwd'', re_text_any_case ''pwd'',
        re_text_any_case ''secret'',
        re_all [re_text_any_case ''api'', Re_optional (re_one ''_-''), re_text_any_case ''key''],
        re_all [re_text_any_case ''access'', Re_optional (re_one ''_-''), re_text_any_case ''token'']],
      Re_greedy 0 code_space, re_one '':='', Re_greedy 0 code_space, re_none_of 1 '',;'']"

definition url_password_pattern :: re where
  "url_password_pattern = re_all
     [re_any [Re_seq (re_text_any_case ''http'') (Re_optional (re_text_any_case ''s'')),
        re_text_any_case ''ssh''],
      re_text ''://'', re_none_of 1 ''/@:'', re_text '':'', re_none_of 1 ''/@'', re_text ''@'']"

definition key_kind :: re where
  "key_kind = Re_optional (re_any [re_text ''RSA '', re_text ''EC '', re_text ''OPENSSH ''])"

definition private_key_pattern :: re where
  "private_key_pattern = re_all
     [re_text ''-----BEGIN '', key_kind, re_text ''PRIVATE KEY-----'', Re_lazy (\<lambda>_. True),
      re_text ''-----END '', key_kind, re_text ''PRIVATE KEY-----'']"

definition unix_host_path :: "(nat \<Rightarrow> bool) \<Rightarrow> re" where
  "unix_host_path word = re_all
     [Re_not_behind (\<lambda>c. code_word word c \<or> c = 46), re_text ''/'',
      re_any [re_text ''Users'', re_text ''home''], re_text ''/'', re_none_of 1 ''/'',
      Re_ahead (Re_or (re_text ''/'') (Re_boundary (code_word word)))]"

text \<open>The backslash is code 92.\<close>

definition backslash :: re where "backslash = re_codes [92]"

definition windows_host_path :: "(nat \<Rightarrow> bool) \<Rightarrow> re" where
  "windows_host_path word = re_all
     [Re_not_behind (code_word word),
      Re_optional (re_all [Re_class (\<lambda>c. code_lower (code_fold c)), re_text '':'', backslash]),
      re_text_any_case ''users'', backslash, Re_greedy 1 (\<lambda>c. c \<noteq> 92 \<and> \<not> code_space c),
      Re_ahead (Re_or backslash (Re_boundary (code_word word)))]"

section \<open>Text\<close>

definition redaction_passes :: "(nat \<Rightarrow> bool) \<Rightarrow> (re \<times> codes) list" where
  "redaction_passes word =
     [(canary_pattern, REDACTED), (scan_token_pattern, REDACTED), (bearer_pattern word, REDACTED),
      (github_pat_pattern word, REDACTED), (github_token_pattern word, REDACTED),
      (assignment_pattern word, REDACTED), (url_password_pattern, REDACTED),
      (private_key_pattern, REDACTED), (unix_host_path word, REDACTED_HOST),
      (windows_host_path word, REDACTED_HOST)]"

fun apply_passes :: "(re \<times> codes) list \<Rightarrow> codes \<Rightarrow> codes \<times> nat" where
  "apply_passes [] s = (s, 0)"
| "apply_passes ((r, repl) # passes) s =
     (case subn r repl s of (t, n) \<Rightarrow>
        (case apply_passes passes t of (u, k) \<Rightarrow> (u, n + k)))"

definition strip_slashes :: "codes \<Rightarrow> codes" where
  "strip_slashes base = rev (dropWhile (\<lambda>c. c = 47 \<or> c = 92) (rev base))"

text \<open>The passes of a call: with a repository root its prefix is replaced by a dot first.\<close>

definition root_passes :: "codes option \<Rightarrow> (re \<times> codes) list" where
  "root_passes base =
     (case base of None \<Rightarrow> []
      | Some r \<Rightarrow>
          if strip_slashes r = [] then []
          else [(Re_seq (re_codes (strip_slashes r)) (Re_ahead (Re_class (\<lambda>c. c = 47 \<or> c = 92))), [46])])"

definition redact_text :: "(nat \<Rightarrow> bool) \<Rightarrow> codes option \<Rightarrow> codes \<Rightarrow> codes \<times> nat" where
  "redact_text word base s = apply_passes (root_passes base @ redaction_passes word) s"

section \<open>Trees\<close>

definition counted :: "('a list \<Rightarrow> json) \<Rightarrow> ('a \<times> nat) list \<Rightarrow> json \<times> nat" where
  "counted build rs = (build (map fst rs), sum_list (map snd rs))"

fun redact_value :: "(codes \<Rightarrow> codes \<times> nat) \<Rightarrow> json \<Rightarrow> json \<times> nat" where
  "redact_value f (JObject ms) =
     counted JObject (map (\<lambda>m. if sensitive_key (fst m) then ((fst m, JString REDACTED), 1)
                                else apfst (Pair (fst m)) (redact_value f (snd m))) ms)"
| "redact_value f (JArray vs) = counted JArray (map (redact_value f) vs)"
| "redact_value f (JString s) = apfst JString (f s)"
| "redact_value f v = (v, 0)"

text \<open>\<^verbatim>\<open>str(PurePosixPath(path))\<close>: empty and dot components disappear.\<close>

fun path_parts :: "codes \<Rightarrow> codes \<Rightarrow> codes list" where
  "path_parts part [] = [rev part]"
| "path_parts part (c # s) = (if c = 47 then rev part # path_parts [] s else path_parts (c # part) s)"

definition path_root :: "codes \<Rightarrow> codes" where
  "path_root s =
     (let slashes = span (\<lambda>c. c = 47) s in
      if slashes = 0 then [] else if slashes = 2 then [47, 47] else [47])"

fun join_path :: "codes list \<Rightarrow> codes" where
  "join_path [] = []"
| "join_path [p] = p"
| "join_path (p # ps) = p @ 47 # join_path ps"

definition posix_path :: "codes \<Rightarrow> codes" where
  "posix_path s =
     (let text = path_root s @ join_path (filter (\<lambda>p. p \<notin> {[], [46]}) (path_parts [] s)) in
      if text = [] then [46] else text)"

definition normalize_root :: "codes option \<Rightarrow> codes option" where
  "normalize_root base =
     (case base of None \<Rightarrow> None
      | Some r \<Rightarrow>
          if r = [] then None
          else (let normalized = posix_path (map (\<lambda>c. if c = 92 then 47 else c) r) in
                if normalized \<in> {[], [46]} then None else Some normalized))"

definition redact_json :: "(nat \<Rightarrow> bool) \<Rightarrow> codes option \<Rightarrow> json \<Rightarrow> json \<times> nat" where
  "redact_json word base v = redact_value (redact_text word (normalize_root base)) v"

section \<open>What a redacted tree keeps\<close>

text \<open>The tree with every text, and every member of a sensitive name, blanked out.\<close>

fun skeleton :: "json \<Rightarrow> json" where
  "skeleton (JObject ms) =
     JObject (map (\<lambda>m. (fst m, if sensitive_key (fst m) then JString [] else skeleton (snd m))) ms)"
| "skeleton (JArray vs) = JArray (map skeleton vs)"
| "skeleton (JString s) = JString []"
| "skeleton v = v"

fun sensitive_hidden :: "json \<Rightarrow> bool" where
  "sensitive_hidden (JObject ms) \<longleftrightarrow>
     list_all (\<lambda>m. if sensitive_key (fst m) then snd m = JString REDACTED else sensitive_hidden (snd m)) ms"
| "sensitive_hidden (JArray vs) \<longleftrightarrow> list_all sensitive_hidden vs"
| "sensitive_hidden v \<longleftrightarrow> True"

text \<open>Every text in a value, at any depth.\<close>

fun value_texts :: "json \<Rightarrow> codes list" where
  "value_texts (JObject ms) = concat (map (\<lambda>m. value_texts (snd m)) ms)"
| "value_texts (JArray vs) = concat (map value_texts vs)"
| "value_texts (JString s) = [s]"
| "value_texts v = []"

text \<open>Every member name in a value, at any depth.\<close>

fun value_names :: "json \<Rightarrow> codes list" where
  "value_names (JObject ms) = concat (map (\<lambda>m. fst m # value_names (snd m)) ms)"
| "value_names (JArray vs) = concat (map value_names vs)"
| "value_names v = []"

lemma redact_value_names: "set (value_names (fst (redact_value f v))) \<subseteq> set (value_names v)"
proof (induction f v rule: redact_value.induct)
  case (1 f ms)
  let ?g = "\<lambda>m. if sensitive_key (fst m) then ((fst m, JString REDACTED), 1)
    else apfst (Pair (fst m)) (redact_value f (snd m))"
  have "fst (fst (?g m)) = fst m \<and> set (value_names (snd (fst (?g m)))) \<subseteq> set (value_names (snd m))"
    if "m \<in> set ms" for m
    using 1 [OF that] by simp
  then show ?case by (simp add: counted_def del: fst_apfst snd_apfst split del: if_split) (blast | force)
qed (auto simp: counted_def)

lemma redact_value_skeleton: "skeleton (fst (redact_value f v)) = skeleton v"
  by (induction f v rule: redact_value.induct) (auto simp: counted_def)

lemma redact_value_hidden: "sensitive_hidden (fst (redact_value f v))"
  by (induction f v rule: redact_value.induct) (auto simp: counted_def list_all_iff)

lemma redact_value_texts:
  assumes "\<And>s. P (fst (f s))" "P REDACTED"
  shows "list_all P (value_texts (fst (redact_value f v)))"
  using assms by (induction f v rule: redact_value.induct) (auto simp: counted_def list_all_iff)

section \<open>No secret of the program survives\<close>

text \<open>A text without brackets that is longer than the replacements' own words.\<close>

definition foreign :: "codes \<Rightarrow> bool" where
  "foreign w \<longleftrightarrow> w \<noteq> [] \<and> 91 \<notin> set w \<and> 93 \<notin> set w \<and> 20 < length w"

lemma foreign_outside:
  assumes "foreign w" "repl \<in> {REDACTED, REDACTED_HOST}"
  shows "w \<noteq> []" "hd repl \<notin> set w" "last repl \<notin> set w" "\<not> sublist w repl" "repl \<noteq> []"
  using assms sublist_length_le [of w repl]
  by (auto simp: foreign_def REDACTED_def REDACTED_HOST_def codes_of_def)

lemma passes_keep_out:
  assumes "foreign w" "list_all (\<lambda>p. snd p \<in> {REDACTED, REDACTED_HOST}) passes" "\<not> sublist w s"
  shows "\<not> sublist w (fst (apply_passes passes s))"
  using assms(2,3)
proof (induction passes s rule: apply_passes.induct)
  case (2 r repl passes s)
  have "\<not> sublist w (fst (subn r repl s))"
    using 2(2,3) foreign_outside [OF assms(1), of repl] by (intro subn_keeps_out) auto
  with 2 show ?case by (auto split: prod.split)
qed simp

lemma passes_remove:
  assumes "foreign w" "list_all (\<lambda>p. snd p \<in> {REDACTED, REDACTED_HOST}) passes"
    and "(r, repl) \<in> set passes" "\<And>b s. re_consumes r (b, w @ s)"
  shows "\<not> sublist w (fst (apply_passes passes s))"
  using assms(2,3)
proof (induction passes s rule: apply_passes.induct)
  case (2 r' repl' passes s)
  show ?case
  proof (cases "(r', repl') = (r, repl)")
    case True
    have "\<not> sublist w (fst (subn r repl s))"
      using 2(2) True foreign_outside [OF assms(1), of repl] assms(4) by (intro subn_removes) auto
    with 2(2) True show ?thesis
      using passes_keep_out [OF assms(1), of passes "fst (subn r repl s)"] by (auto split: prod.split)
  next
    case False
    with 2 show ?thesis by (auto split: prod.split)
  qed
qed simp

lemma apply_passes_append:
  "fst (apply_passes (ps @ qs) s) = fst (apply_passes qs (fst (apply_passes ps s)))"
  by (induction ps s rule: apply_passes.induct) (auto split: prod.split)

lemma redact_text_removes:
  assumes "foreign w" "(r, repl) \<in> set (redaction_passes word)" "\<And>b s. re_consumes r (b, w @ s)"
  shows "\<not> sublist w (fst (redact_text word base s))"
proof -
  have "list_all (\<lambda>p. snd p \<in> {REDACTED, REDACTED_HOST}) (redaction_passes word)"
    by (simp add: redaction_passes_def)
  from passes_remove [OF assms(1) this assms(2,3)] show ?thesis
    by (simp add: redact_text_def apply_passes_append)
qed

lemma b64url_token_char: "is_b64url c \<Longrightarrow> token_char (of_char c)"
  by (auto simp: char_class_defs token_char_def code_alnum_def code_lower_def code_upper_def code_dec_def)

lemma match_token_parts:
  assumes "match_token t = Some (selector, secret)"
  shows "t = TOKEN_PREFIX @ selector @ ''.'' @ secret"
    "length selector = 16" "length secret = 43" "list_all is_b64url selector" "list_all is_b64url secret"
  using match_tokenD [OF assms] assms by (auto simp: match_token_def Let_def split: if_splits)

lemma token_text_foreign:
  assumes "match_token t = Some (selector, secret)"
  shows "foreign (codes_of t)"
proof -
  have chars: "c \<noteq> CHR ''['' \<and> c \<noteq> CHR '']''" if "is_b64url c" for c
    using that by (auto simp: char_class_defs)
  note parts = match_token_parts [OF assms]
  have "CHR ''['' \<notin> set t" "CHR '']'' \<notin> set t"
    using parts(4,5) chars by (auto simp: parts(1) TOKEN_PREFIX_def list_all_iff)
  moreover have "c = CHR ''[''" if "of_char c = (91 :: nat)" for c :: char
    using that of_char_eq_iff [where 'a = nat, of c "CHR ''[''"] by simp
  moreover have "c = CHR '']''" if "of_char c = (93 :: nat)" for c :: char
    using that of_char_eq_iff [where 'a = nat, of c "CHR '']''"] by simp
  ultimately show ?thesis
    using parts(2,3) by (auto simp: foreign_def codes_of_def parts(1) TOKEN_PREFIX_def)
qed

lemma scan_token_consumed:
  assumes "match_token t = Some (selector, secret)"
  shows "re_consumes scan_token_pattern (b, codes_of t @ s)"
proof -
  note parts = match_token_parts [OF assms]
  have chars: "list_all token_char (codes_of selector)" "list_all token_char (codes_of secret)"
    using parts(4,5) b64url_token_char by (auto simp: list_all_iff codes_of_def)
  have shape: "codes_of t @ s =
      codes_of ''asu_v1_'' @ codes_of selector @ codes_of ''.'' @ codes_of secret @ s"
    by (simp add: parts(1) TOKEN_PREFIX_def codes_of_def)
  have "successes scan_token_pattern (b, codes_of t @ s) \<noteq> []"
  proof -
    have "\<exists>z. z \<in> set (successes scan_token_pattern (b, codes_of t @ s))"
      unfolding scan_token_pattern_def re_text_def shape re_all.simps
      by (rule exI, (rule seq_match codes_match)+, rule exactly_match [OF chars(1)], simp add: codes_of_def parts(2),
          (rule seq_match codes_match)+, rule exactly_match [OF chars(2)], simp add: codes_of_def parts(3))
    then show ?thesis by auto
  qed
  moreover have "\<exists>c cs. c # cs = codes_of ''asu_v1_''" by (simp add: codes_of_def)
  ultimately show ?thesis
    unfolding scan_token_pattern_def re_text_def by (blast intro: literal_consumes)
qed

lemma canary_consumed: "re_consumes canary_pattern (b, CANARY @ s)"
proof -
  obtain c cs where "c # cs = CANARY" by (auto simp: CANARY_def codes_of_def)
  moreover have "successes canary_pattern (b, CANARY @ s) \<noteq> []"
    by (simp add: canary_pattern_def successes_codes)
  ultimately show ?thesis unfolding canary_pattern_def by (rule literal_consumes)
qed

lemma canary_foreign: "foreign CANARY"
  by (simp add: foreign_def CANARY_def codes_of_def)

lemma redact_text_safe:
  assumes "parse_scan_token t = Inr p"
  shows "\<not> sublist (codes_of t) (fst (redact_text word base s)) \<and>
    \<not> sublist CANARY (fst (redact_text word base s))"
proof -
  from assms obtain selector secret where m: "match_token t = Some (selector, secret)"
    by (auto simp: parse_scan_token_def split: option.splits)
  have mem: "(scan_token_pattern, REDACTED) \<in> set (redaction_passes word)"
    "(canary_pattern, REDACTED) \<in> set (redaction_passes word)"
    by (simp_all add: redaction_passes_def)
  show ?thesis
    using redact_text_removes [OF token_text_foreign [OF m] mem(1) scan_token_consumed [OF m]]
      redact_text_removes [OF canary_foreign mem(2) canary_consumed] by blast
qed

lemma redacted_itself_safe:
  assumes "parse_scan_token t = Inr p"
  shows "\<not> sublist (codes_of t) REDACTED \<and> \<not> sublist CANARY REDACTED"
proof -
  from assms obtain selector secret where m: "match_token t = Some (selector, secret)"
    by (auto simp: parse_scan_token_def split: option.splits)
  show ?thesis
    using foreign_outside(4) [OF token_text_foreign [OF m], of REDACTED]
      foreign_outside(4) [OF canary_foreign, of REDACTED] by blast
qed

text \<open>
  C23.  No scan token survives redaction in a value: whatever document goes through the redactor, and
  for any repository root, no text value at any depth of the result contains a text that the token
  parser accepts, nor the program's canary secret.  The names of object members are not
  redacted: the result has no member name that the document did not have, so a token is left
  only where the document itself used it within a member name.
\<close>

theorem scan_tokens_redacted:
  assumes "parse_scan_token t = Inr p"
  shows "list_all (\<lambda>s. \<not> sublist (codes_of t) s \<and> \<not> sublist CANARY s)
      (value_texts (fst (redact_json word base v))) \<and>
    set (value_names (fst (redact_json word base v))) \<subseteq> set (value_names v)"
proof
  show "list_all (\<lambda>s. \<not> sublist (codes_of t) s \<and> \<not> sublist CANARY s)
      (value_texts (fst (redact_json word base v)))"
    unfolding redact_json_def
    by (rule redact_value_texts) (use redact_text_safe [OF assms] redacted_itself_safe [OF assms] in blast)+
qed (simp add: redact_json_def redact_value_names)

text \<open>
  Redaction only replaces texts: the result has the members, the array lengths, the numbers
  and the constants of the document, and every member of a sensitive name, in any case and at any
  depth, holds the redaction mark whatever it held before.
\<close>

theorem redacted_tree_shape:
  "skeleton (fst (redact_json word base v)) = skeleton v \<and>
   sensitive_hidden (fst (redact_json word base v))"
  unfolding redact_json_def using redact_value_skeleton redact_value_hidden by blast

section \<open>Witness\<close>

definition sample_token :: string where
  "sample_token = token_text (replicate 12 0) (replicate 32 7)"

lemma sample_token_parses: "\<exists>p. parse_scan_token sample_token = Inr p"
  unfolding sample_token_def by (rule exI, rule parse_scan_token_canonical) simp_all

theorem scan_tokens_redacted_witness:
  "(\<exists>p. parse_scan_token sample_token = Inr p) \<and>
   list_all (\<lambda>s. \<not> sublist (codes_of sample_token) s \<and> \<not> sublist CANARY s)
     (value_texts (fst (redact_json (\<lambda>_. False) (Some (codes_of ''/srv''))
       (JObject [(codes_of ''a'', JArray [JNull, JString (codes_of sample_token)])])))) \<and>
   set (value_names (fst (redact_json (\<lambda>_. False) (Some (codes_of ''/srv''))
       (JObject [(codes_of ''a'', JArray [JNull, JString (codes_of sample_token)])])))) \<subseteq> {codes_of ''a''}"
proof -
  let ?v = "JObject [(codes_of ''a'', JArray [JNull, JString (codes_of sample_token)])]"
  obtain p where p: "parse_scan_token sample_token = Inr p" using sample_token_parses by blast
  from scan_tokens_redacted [OF p, of "\<lambda>_. False" "Some (codes_of ''/srv'')" ?v] p
  show ?thesis by (auto simp: list_all_iff)
qed

end
