(* ===== verification/Source_Context.thy ===== *)
theory Source_Context
  imports Redactor
begin

text \<open>
  Source windows that accompany findings (\<^verbatim>\<open>ingestion/source_context\<close>): the uploader
  cuts a bounded window around every finding out of its snapshot, redacts it line by line and
  truncates it; the server checks the declared window of each context, redacts the lines again
  and enforces the same limits.  A context is a JSON object.  The snapshot's files, SHA-1,
  SHA-256 and Unicode normalisation are parameters.
\<close>

section \<open>Reading JSON members the way Python does\<close>

type_synonym members = "(codes \<times> json) list"

text \<open>\<^verbatim>\<open>d.get(key)\<close>; a missing member is \<^verbatim>\<open>None\<close>.\<close>

definition member_of :: "members \<Rightarrow> string \<Rightarrow> json" where
  "member_of ms key = (case map_of ms (codes_of key) of None \<Rightarrow> JNull | Some v \<Rightarrow> v)"

text \<open>
  Truth of a value.  A number written with a fraction or an exponent is zero when all digits
  before its exponent are; a nonzero number too small for a float is not distinguished.
\<close>

fun truthy :: "json \<Rightarrow> bool" where
  "truthy JNull = False"
| "truthy (JBool b) = b"
| "truthy (JInt n) = (n \<noteq> 0)"
| "truthy (JFloat s) = list_ex (\<lambda>c. 49 \<le> c \<and> c \<le> 57) (takeWhile (\<lambda>c. c \<noteq> 69 \<and> c \<noteq> 101) s)"
| "truthy (JConstant s) = True"
| "truthy (JString s) = (s \<noteq> [])"
| "truthy (JArray vs) = (vs \<noteq> [])"
| "truthy (JObject ms) = (ms \<noteq> [])"

text \<open>
  The integer behind \<^verbatim>\<open>isinstance(v, int)\<close>: booleans are integers in Python.  The
  strict profile has no numbers with a fraction, which never count as integers here.
\<close>

fun int_of :: "json \<Rightarrow> int option" where
  "int_of (JInt n) = Some n"
| "int_of (JBool b) = Some (if b then 1 else 0)"
| "int_of v = None"

fun text_of :: "json \<Rightarrow> codes option" where
  "text_of (JString s) = Some s"
| "text_of v = None"

definition code_char :: "codes \<Rightarrow> string" where
  "code_char s = map char_of s"

definition is_uuid5 :: "codes \<Rightarrow> bool" where
  "is_uuid5 s \<longleftrightarrow> list_all (\<lambda>c. c < 256) s \<and> canonical_uuid5 (code_char s)"

section \<open>Limits\<close>

record context_limits =
  max_windows :: int
  max_lines :: int
  max_line_bytes :: int
  max_window_bytes :: int
  max_request_bytes :: int
  max_source_file_bytes :: int

definition SOURCE_CONTEXT_LIMITS :: context_limits where
  "SOURCE_CONTEXT_LIMITS =
     \<lparr>max_windows = 500, max_lines = 11, max_line_bytes = 1024, max_window_bytes = 8 * 1024,
      max_request_bytes = 2 * 1024 * 1024, max_source_file_bytes = 1024 * 1024\<rparr>"

definition REDACTION_VERSION :: int where "REDACTION_VERSION = 1"

datatype context_error =
  Context_ValueError string | Context_AttributeError | Context_TypeError | Context_UnicodeError

section \<open>Links between findings and contexts\<close>

text \<open>
  What iterating over the member yields: the elements of an array, the names of an object, the
  characters of a text; an element that is itself a container cannot be put into a set.
\<close>

definition hashable :: "json \<Rightarrow> bool" where
  "hashable v \<longleftrightarrow> (case v of JArray _ \<Rightarrow> False | JObject _ \<Rightarrow> False | _ \<Rightarrow> True)"

definition finding_keys_of :: "members \<Rightarrow> json list option" where
  "finding_keys_of context =
     (let keys = member_of context ''finding_keys'' in
      if \<not> truthy keys then Some []
      else (case keys of
              JArray vs \<Rightarrow> if list_all hashable vs then Some vs else None
            | JObject ms \<Rightarrow> Some (map (\<lambda>m. JString (fst m)) ms)
            | JString cs \<Rightarrow> Some (map (\<lambda>c. JString [c]) cs)
            | _ \<Rightarrow> None))"

text \<open>
  The key of a finding is the text of its member; a value that is no text has no canonical UUID
  as its text either.
\<close>

definition finding_key_of :: "members \<Rightarrow> codes" where
  "finding_key_of finding =
     (case member_of finding ''finding_key'' of JString s \<Rightarrow> s | _ \<Rightarrow> [])"

fun check_links :: "codes list \<Rightarrow> members list \<Rightarrow> json list \<Rightarrow> context_error + json list" where
  "check_links valid [] referenced = Inr referenced"
| "check_links valid (context # contexts) referenced =
     (case finding_keys_of context of
        None \<Rightarrow> Inl Context_TypeError
      | Some keys \<Rightarrow>
          if keys = [] \<or> \<not> distinct keys \<or> \<not> list_all (\<lambda>k. k \<in> JString ` set valid) keys
          then Inl (Context_ValueError ''source context contains orphan or duplicate finding keys'')
          else check_links valid contexts (referenced @ keys))"

definition validate_source_context_links ::
    "members list \<Rightarrow> members list \<Rightarrow> context_error + unit" where
  "validate_source_context_links findings contexts =
     (let finding_keys = map finding_key_of findings;
          context_keys = map (\<lambda>c. member_of c ''context_key'') contexts in
      if \<not> list_all is_uuid5 finding_keys \<or> \<not> distinct finding_keys
      then Inl (Context_ValueError ''findings must contain unique finding_key values'')
      else if \<not> list_all (\<lambda>k. case text_of k of None \<Rightarrow> False | Some s \<Rightarrow> is_uuid5 s) context_keys \<or>
              \<not> distinct context_keys
      then Inl (Context_ValueError ''source contexts contain duplicate context_key values'')
      else (case check_links finding_keys contexts [] of
              Inl e \<Rightarrow> Inl e
            | Inr referenced \<Rightarrow>
                if set referenced \<noteq> JString ` set finding_keys \<or>
                   length referenced \<noteq> length finding_keys
                then Inl (Context_ValueError
                  ''every finding must reference exactly one source context'')
                else Inr ()))"

section \<open>Sanitising uploaded contexts\<close>

text \<open>The member of an object is replaced in its place or appended.\<close>

definition set_member :: "string \<Rightarrow> json \<Rightarrow> members \<Rightarrow> members" where
  "set_member key v ms = dict_insert (codes_of key) v ms"

definition line_number :: "json \<Rightarrow> context_error + int option" where
  "line_number line =
     (case line of JObject ms \<Rightarrow> Inr (int_of (member_of ms ''number'')) | _ \<Rightarrow> Inl Context_AttributeError)"

fun line_numbers :: "json list \<Rightarrow> context_error + int option list" where
  "line_numbers [] = Inr []"
| "line_numbers (l # ls) =
     (case line_number l of
        Inl e \<Rightarrow> Inl e
      | Inr n \<Rightarrow> (case line_numbers ls of Inl e \<Rightarrow> Inl e | Inr ns \<Rightarrow> Inr (n # ns)))"

definition range_from :: "int \<Rightarrow> nat \<Rightarrow> int list" where
  "range_from start n = map (\<lambda>i. start + int i) [0 ..< n]"

definition window_ok :: "context_limits \<Rightarrow> members \<Rightarrow> json list \<Rightarrow> context_error + unit" where
  "window_ok limits context ls =
     (case (int_of (member_of context ''window_start''), int_of (member_of context ''window_end'')) of
        (Some window_start, Some window_end) \<Rightarrow>
          if window_end < window_start \<or> max_lines limits < window_end - window_start + 1
          then Inl (Context_ValueError ''source context window is invalid'')
          else
         (case line_numbers ls of
            Inl e \<Rightarrow> Inl e
          | Inr numbers \<Rightarrow>
              if numbers \<noteq> map Some (range_from window_start (length ls))
              then Inl (Context_ValueError ''source context lines are not contiguous'')
              else if window_start + int (length ls) - 1 \<noteq> window_end
              then Inl (Context_ValueError ''source context lines do not fill their declared window'')
              else
             (case (int_of (member_of context ''highlight_start''),
                    int_of (member_of context ''highlight_end'')) of
                (Some highlight_start, Some highlight_end) \<Rightarrow>
                  if highlight_start < window_start \<or> window_end < highlight_start \<or>
                     highlight_end < highlight_start \<or>
                     window_end < highlight_end \<and> \<not> truthy (member_of context ''highlight_truncated'')
                  then Inl (Context_ValueError ''source context highlight is invalid'')
                  else Inr ()
              | _ \<Rightarrow> Inl (Context_ValueError ''source context highlight is invalid'')))
      | _ \<Rightarrow> Inl (Context_ValueError ''source context window is invalid''))"

definition source_hash_ok :: "members \<Rightarrow> bool" where
  "source_hash_ok context =
     (case text_of (member_of context ''source_hash'') of
        None \<Rightarrow> False
      | Some s \<Rightarrow> length s = 64 \<and> list_all (\<lambda>c. code_dec c \<or> 97 \<le> c \<and> c \<le> 102) s)"

definition text_bytes :: "codes \<Rightarrow> int option" where
  "text_bytes s = map_option (\<lambda>b. int (length b)) (utf8_encode s)"

definition clean_line :: "json \<Rightarrow> codes \<Rightarrow> bool \<Rightarrow> json" where
  "clean_line number clean truncated =
     JObject [(codes_of ''number'', number), (codes_of ''text'', JString clean),
              (codes_of ''truncated'', JBool truncated)]"

text \<open>The clean lines, whether redaction changed any of them, and their bytes.\<close>

fun clean_lines ::
    "(nat \<Rightarrow> bool) \<Rightarrow> context_limits \<Rightarrow> json list \<Rightarrow> context_error + json list \<times> bool \<times> int" where
  "clean_lines word limits [] = Inr ([], False, 0)"
| "clean_lines word limits (JObject ms # ls) =
     (case text_of (member_of ms ''text'') of
        None \<Rightarrow> Inl (Context_ValueError ''source context line text is invalid'')
      | Some value \<Rightarrow>
          (case redact_text word None value of (clean, replacements) \<Rightarrow>
            (case text_bytes clean of
               None \<Rightarrow> Inl Context_UnicodeError
             | Some width \<Rightarrow>
                 if max_line_bytes limits < width
                 then Inl (Context_ValueError ''source context line exceeds byte limit'')
                 else
                (case clean_lines word limits ls of
                   Inl e \<Rightarrow> Inl e
                 | Inr (rest, changed, bytes) \<Rightarrow>
                     Inr (clean_line (member_of ms ''number'') clean (truthy (member_of ms ''truncated'')) # rest,
                          0 < replacements \<or> changed, width + bytes)))))"
| "clean_lines word limits (l # ls) = Inl Context_AttributeError"

definition sanitize_available ::
    "(nat \<Rightarrow> bool) \<Rightarrow> context_limits \<Rightarrow> members \<Rightarrow> context_error + members \<times> int" where
  "sanitize_available word limits context =
     (case member_of context ''lines'' of
        JArray ls \<Rightarrow>
          if ls = [] \<or> max_lines limits < int (length ls)
          then Inl (Context_ValueError ''source context line count is invalid'')
          else
         (case window_ok limits context ls of
            Inl e \<Rightarrow> Inl e
          | Inr _ \<Rightarrow>
              if \<not> source_hash_ok context
              then Inl (Context_ValueError ''source context hash is invalid'')
              else
             (case clean_lines word limits ls of
                Inl e \<Rightarrow> Inl e
              | Inr (lines, changed, bytes) \<Rightarrow>
                  if max_window_bytes limits < bytes
                  then Inl (Context_ValueError ''source context window exceeds byte limit'')
                  else Inr (set_member ''redaction_changed''
                              (JBool (truthy (member_of context ''redaction_changed'') \<or> changed))
                              (set_member ''lines'' (JArray lines) context), bytes)))
      | _ \<Rightarrow> Inl (Context_ValueError ''source context line count is invalid''))"

fun sanitize_from ::
    "(nat \<Rightarrow> bool) \<Rightarrow> context_limits \<Rightarrow> int \<Rightarrow> int \<Rightarrow> members list \<Rightarrow> context_error + members list" where
  "sanitize_from word limits used count [] = Inr []"
| "sanitize_from word limits used count (context # contexts) =
     (if member_of context ''provider'' \<noteq> JString (codes_of ''snapshot'')
      then Inl (Context_ValueError ''unsupported source context provider'')
      else if int_of (member_of context ''redaction_version'') \<noteq> Some REDACTION_VERSION
      then Inl (Context_ValueError ''unsupported source context redaction version'')
      else if \<not> truthy (member_of context ''available'') then
        (if truthy (member_of context ''lines'') \<or> truthy (member_of context ''source_hash'')
         then Inl (Context_ValueError ''unavailable source context contains source text'')
         else (case sanitize_from word limits used count contexts of
                 Inl e \<Rightarrow> Inl e | Inr rest \<Rightarrow> Inr (context # rest)))
      else if max_windows limits < count + 1
      then Inl (Context_ValueError ''source context count exceeds limit'')
      else
        (case sanitize_available word limits context of
           Inl e \<Rightarrow> Inl e
         | Inr (clean, bytes) \<Rightarrow>
             if max_request_bytes limits < used + bytes
             then Inl (Context_ValueError ''source contexts exceed request byte limit'')
             else (case sanitize_from word limits (used + bytes) (count + 1) contexts of
                     Inl e \<Rightarrow> Inl e | Inr rest \<Rightarrow> Inr (clean # rest))))"

definition sanitize_source_contexts ::
    "(nat \<Rightarrow> bool) \<Rightarrow> context_limits \<Rightarrow> members list \<Rightarrow> context_error + members list" where
  "sanitize_source_contexts word limits contexts = sanitize_from word limits 0 0 contexts"

section \<open>What sanitising guarantees\<close>

text \<open>The texts of the lines of a context.\<close>

definition line_texts :: "members \<Rightarrow> codes list" where
  "line_texts context =
     (case member_of context ''lines'' of
        JArray ls \<Rightarrow> map (\<lambda>l. case l of JObject ms \<Rightarrow> (case text_of (member_of ms ''text'') of None \<Rightarrow> [] | Some t \<Rightarrow> t)
                                       | _ \<Rightarrow> []) ls
      | _ \<Rightarrow> [])"

definition texts_bytes :: "codes list \<Rightarrow> int" where
  "texts_bytes ts = sum_list (map (\<lambda>t. case text_bytes t of None \<Rightarrow> 0 | Some n \<Rightarrow> n) ts)"

definition within_lines :: "context_limits \<Rightarrow> codes list \<Rightarrow> bool" where
  "within_lines limits ts \<longleftrightarrow>
     int (length ts) \<le> max_lines limits \<and> texts_bytes ts \<le> max_window_bytes limits \<and>
     list_all (\<lambda>t. \<exists>n. text_bytes t = Some n \<and> n \<le> max_line_bytes limits) ts"

lemma texts_bytes_simps [simp]:
  "texts_bytes [] = 0"
  "text_bytes t = Some n \<Longrightarrow> texts_bytes (t # ts) = n + texts_bytes ts"
  "texts_bytes (ts @ us) = texts_bytes ts + texts_bytes us"
  by (simp_all add: texts_bytes_def)

lemma map_of_dict_insert: "map_of (dict_insert k v ms) = (map_of ms)(k \<mapsto> v)"
  by (induction k v ms rule: dict_insert.induct) auto

lemma member_of_set_member:
  "member_of (set_member key v ms) key' = (if codes_of key' = codes_of key then v else member_of ms key')"
  by (simp add: member_of_def set_member_def map_of_dict_insert)

definition line_text :: "json \<Rightarrow> codes" where
  "line_text l =
     (case l of JObject ms \<Rightarrow> (case text_of (member_of ms ''text'') of None \<Rightarrow> [] | Some t \<Rightarrow> t) | _ \<Rightarrow> [])"

lemma line_texts_lines: "member_of context ''lines'' = JArray ls \<Longrightarrow> line_texts context = map line_text ls"
  by (simp add: line_texts_def line_text_def cong: map_cong)

lemma line_text_clean [simp]: "line_text (clean_line n t b) = t"
  by (simp add: line_text_def clean_line_def member_of_def codes_of_def)

lemma clean_lines_texts:
  assumes "clean_lines word limits ls = Inr (out, changed, bytes)"
    and "\<And>s. P (fst (redact_text word None s))"
  shows "length out = length ls \<and> texts_bytes (map line_text out) = bytes \<and>
    list_all (\<lambda>t. P t \<and> (\<exists>n. text_bytes t = Some n \<and> n \<le> max_line_bytes limits)) (map line_text out)"
  using assms
proof (induction word limits ls arbitrary: out changed bytes rule: clean_lines.induct)
  case (2 word limits ms ls)
  obtain old clean k where v: "text_of (member_of ms ''text'') = Some old"
    and r: "redact_text word None old = (clean, k)"
    using "2.prems"(1) by (cases "redact_text word None (the (text_of (member_of ms ''text'')))")
      (auto split: option.splits)
  obtain n rest c b where n: "text_bytes clean = Some n" "n \<le> max_line_bytes limits"
    and rest: "clean_lines word limits ls = Inr (rest, c, b)"
    and out: "out = clean_line (member_of ms ''number'') clean (truthy (member_of ms ''truncated'')) # rest"
      "bytes = n + b"
    using "2.prems"(1) by (auto simp: v r split: option.splits sum.splits if_splits)
  have "P clean" using "2.prems"(2) [of old] r by simp
  with "2.IH" [OF v r [symmetric] n(1) _ rest "2.prems"(2)] n out show ?case by auto
qed auto

lemma sanitize_available_ok:
  assumes "sanitize_available word limits context = Inr (out, bytes)"
    and "\<And>s. P (fst (redact_text word None s))"
  shows "within_lines limits (line_texts out) \<and> list_all P (line_texts out) \<and>
    texts_bytes (line_texts out) = bytes"
proof -
  from assms(1) obtain ls lines changed where ls: "member_of context ''lines'' = JArray ls"
      "int (length ls) \<le> max_lines limits" "clean_lines word limits ls = Inr (lines, changed, bytes)"
      "bytes \<le> max_window_bytes limits"
    and out: "out = set_member ''redaction_changed''
      (JBool (truthy (member_of context ''redaction_changed'') \<or> changed))
      (set_member ''lines'' (JArray lines) context)"
    by (auto simp: sanitize_available_def split: json.splits sum.splits if_splits)
  have "member_of out ''lines'' = JArray lines"
    by (simp add: out member_of_set_member codes_of_def)
  then have texts: "line_texts out = map line_text lines" by (rule line_texts_lines)
  from clean_lines_texts [OF ls(3), of P] assms(2) ls(2,4) show ?thesis
    by (auto simp: texts within_lines_def list_all_iff)
qed

lemma sanitize_from_ok:
  assumes "sanitize_from word limits used count contexts = Inr out"
    and "\<And>s. P (fst (redact_text word None s))"
    and "0 \<le> max_lines limits" "0 \<le> max_window_bytes limits"
    and "used \<le> max_request_bytes limits" "count \<le> max_windows limits"
  shows "length out = length contexts \<and>
    list_all (\<lambda>c. within_lines limits (line_texts c) \<and> list_all P (line_texts c)) out \<and>
    used + sum_list (map (\<lambda>c. texts_bytes (line_texts c)) out) \<le> max_request_bytes limits \<and>
    count + int (length (filter (\<lambda>c. line_texts c \<noteq> []) out)) \<le> max_windows limits"
  using assms
proof (induction word limits used count contexts arbitrary: out rule: sanitize_from.induct)
  case (2 word limits used count ctx ctxs)
  show ?case
  proof (cases "truthy (member_of ctx ''available'')")
    case False
    with "2.prems"(1) obtain rest where rest: "sanitize_from word limits used count ctxs = Inr rest"
      and out: "out = ctx # rest" and lines: "\<not> truthy (member_of ctx ''lines'')"
      by (auto split: sum.splits if_splits)
    from lines have "line_texts ctx = []"
      by (cases "member_of ctx ''lines''") (auto simp: line_texts_def)
    with "2.IH"(1) [OF _ _ False _ rest "2.prems"(2-)] "2.prems" False lines show ?thesis
      by (auto simp: out within_lines_def split: if_splits)
  next
    case True
    with "2.prems"(1) obtain clean bytes rest where
        clean: "sanitize_available word limits ctx = Inr (clean, bytes)"
      and le: "used + bytes \<le> max_request_bytes limits" "count + 1 \<le> max_windows limits"
      and rest: "sanitize_from word limits (used + bytes) (count + 1) ctxs = Inr rest"
      and out: "out = clean # rest"
      by (auto split: sum.splits if_splits)
    note ok = sanitize_available_ok [of word limits ctx clean bytes P, OF clean "2.prems"(2)]
    have "length rest = length ctxs \<and>
      list_all (\<lambda>c. within_lines limits (line_texts c) \<and> list_all P (line_texts c)) rest \<and>
      used + bytes + sum_list (map (\<lambda>c. texts_bytes (line_texts c)) rest) \<le> max_request_bytes limits \<and>
      count + 1 + int (length (filter (\<lambda>c. line_texts c \<noteq> []) rest)) \<le> max_windows limits"
      by (rule "2.IH"(2) [OF _ _ _ _ clean]) (use "2.prems" True le rest in \<open>auto split: if_splits\<close>)
    with ok show ?thesis by (auto simp: out)
  qed
qed simp

text \<open>
  C28.  What the server keeps of uploaded source windows is bounded and clean: at most 500
  windows with text, of at most 11 lines of at most 1024 bytes and 8 KiB in all, 2 MiB over the
  whole upload, and no line contains a scan token or the canary secret.
\<close>

theorem sanitized_contexts_bounded:
  assumes "sanitize_source_contexts word SOURCE_CONTEXT_LIMITS contexts = Inr out"
    and "parse_scan_token t = Inr p"
  shows "length out = length contexts \<and>
    list_all (\<lambda>c. within_lines SOURCE_CONTEXT_LIMITS (line_texts c) \<and>
      list_all (\<lambda>s. \<not> sublist (codes_of t) s \<and> \<not> sublist CANARY s) (line_texts c)) out \<and>
    sum_list (map (\<lambda>c. texts_bytes (line_texts c)) out) \<le> 2097152 \<and>
    length (filter (\<lambda>c. line_texts c \<noteq> []) out) \<le> 500"
proof -
  have "\<not> sublist (codes_of t) (fst (redact_text word None s)) \<and>
      \<not> sublist CANARY (fst (redact_text word None s))" for s
    by (rule redact_text_safe [OF assms(2)])
  then show ?thesis
    using sanitize_from_ok [of word SOURCE_CONTEXT_LIMITS 0 0 contexts out
        "\<lambda>s. \<not> sublist (codes_of t) s \<and> \<not> sublist CANARY s"] assms(1)
    by (simp add: sanitize_source_contexts_def SOURCE_CONTEXT_LIMITS_def)
qed

section \<open>Witness\<close>

lemma subn_empty [simp]: "subn r repl [] = ([], 0)"
  unfolding subn_def by (subst subn_at.simps) (simp split: option.split)

lemma apply_passes_empty [simp]: "apply_passes passes [] = ([], 0)"
  by (induction passes) auto

definition sample_context :: members where
  "sample_context =
     [(codes_of ''provider'', JString (codes_of ''snapshot'')), (codes_of ''redaction_version'', JInt 1),
      (codes_of ''available'', JBool True),
      (codes_of ''lines'', JArray [JObject [(codes_of ''number'', JInt 3), (codes_of ''text'', JString [])]]),
      (codes_of ''window_start'', JInt 3), (codes_of ''window_end'', JInt 3),
      (codes_of ''highlight_start'', JInt 3), (codes_of ''highlight_end'', JInt 3),
      (codes_of ''source_hash'', JString (replicate 64 97))]"

lemma sample_context_clean:
  "\<exists>out. sanitize_source_contexts word SOURCE_CONTEXT_LIMITS [sample_context] = Inr [out]"
proof -
  have members: "member_of sample_context ''provider'' = JString (codes_of ''snapshot'')"
    "member_of sample_context ''redaction_version'' = JInt 1" "member_of sample_context ''available'' = JBool True"
    "member_of sample_context ''lines'' =
      JArray [JObject [(codes_of ''number'', JInt 3), (codes_of ''text'', JString [])]]"
    "member_of sample_context ''window_start'' = JInt 3" "member_of sample_context ''window_end'' = JInt 3"
    "member_of sample_context ''highlight_start'' = JInt 3" "member_of sample_context ''highlight_end'' = JInt 3"
    "member_of sample_context ''source_hash'' = JString (replicate 64 97)"
    by (simp_all add: sample_context_def member_of_def codes_of_def)
  have line: "member_of [(codes_of ''number'', JInt 3), (codes_of ''text'', JString [])] ''number'' = JInt 3"
    "member_of [(codes_of ''number'', JInt 3), (codes_of ''text'', JString [])] ''text'' = JString []"
    by (simp_all add: member_of_def codes_of_def)
  have hash: "source_hash_ok sample_context" by (simp add: source_hash_ok_def members list_all_iff)
  have window: "window_ok SOURCE_CONTEXT_LIMITS sample_context
      [JObject [(codes_of ''number'', JInt 3), (codes_of ''text'', JString [])]] = Inr ()"
    by (simp add: window_ok_def members line line_number_def range_from_def SOURCE_CONTEXT_LIMITS_def)
  have bytes: "text_bytes [] = Some 0" by (simp add: text_bytes_def utf8_encode_def)
  show ?thesis
    by (simp add: sanitize_source_contexts_def sanitize_available_def members line hash window bytes
        redact_text_def SOURCE_CONTEXT_LIMITS_def [THEN arg_cong [where f = max_lines]]
        SOURCE_CONTEXT_LIMITS_def [THEN arg_cong [where f = max_line_bytes]]
        SOURCE_CONTEXT_LIMITS_def [THEN arg_cong [where f = max_window_bytes]]
        SOURCE_CONTEXT_LIMITS_def [THEN arg_cong [where f = max_windows]]
        SOURCE_CONTEXT_LIMITS_def [THEN arg_cong [where f = max_request_bytes]] REDACTION_VERSION_def)
qed

theorem sanitized_contexts_bounded_witness:
  "\<exists>out p. sanitize_source_contexts (\<lambda>_. False) SOURCE_CONTEXT_LIMITS [sample_context] = Inr out \<and>
     parse_scan_token sample_token = Inr p \<and> length out = 1 \<and>
     list_all (\<lambda>c. within_lines SOURCE_CONTEXT_LIMITS (line_texts c)) out"
proof -
  obtain out where out: "sanitize_source_contexts (\<lambda>_. False) SOURCE_CONTEXT_LIMITS [sample_context] = Inr [out]"
    using sample_context_clean by blast
  obtain p where p: "parse_scan_token sample_token = Inr p" using sample_token_parses by blast
  from sanitized_contexts_bounded [OF out p]
  have "list_all (\<lambda>c. within_lines SOURCE_CONTEXT_LIMITS (line_texts c)) [out]" by simp
  with out p show ?thesis by fastforce
qed

end
