(* ===== verification/Result_Bundle.thy ===== *)
theory Result_Bundle
  imports Source_Context "HOL-Library.List_Lexorder"
begin

text \<open>
  The source-neutral result contracts (\<^verbatim>\<open>shared/contracts/ingest.py\<close>) and the
  preparation of one upload for persistence (\<^verbatim>\<open>workflows/result_ingest\<close>): building
  the bundle from a validated document, the bundle's own checks, redaction of everything that
  will be stored, the run record of either origin, and the rows of the findings.  The documents
  have passed the protocol's schema; where the code converts a value of another type than the
  schema's, the model raises.
\<close>

section \<open>Contracts\<close>

record artifact_spec =
  as_part_name :: string
  as_artifact_kind :: string
  as_scanner_kind :: string

definition ARTIFACT_SPECS :: "artifact_spec list" where
  "ARTIFACT_SPECS =
     [\<lparr>as_part_name = ''sarif'', as_artifact_kind = ''sarif'', as_scanner_kind = ''assurance-scan/sarif''\<rparr>,
      \<lparr>as_part_name = ''sbom'', as_artifact_kind = ''cyclonedx-json'', as_scanner_kind = ''assurance-scan/sbom''\<rparr>,
      \<lparr>as_part_name = ''findings'', as_artifact_kind = ''json'', as_scanner_kind = ''assurance-scan/findings''\<rparr>]"

record resolved_project =
  rj_project_id :: int
  rj_repository :: string
  rj_github_repository_id :: "int option"

record scanner_result =
  sr_kind :: codes
  sr_status :: codes
  sr_duration_ms :: "int option"
  sr_image_reference :: "codes option"
  sr_image_digest :: "codes option"
  sr_tool_version :: "codes option"
  sr_database_version :: "codes option"
  sr_error_code :: "codes option"

record result_bundle =
  rb_schema_version :: int
  rb_capabilities :: "json list"
  rb_scanners :: "scanner_result list"
  rb_findings :: "members list"
  rb_source_contexts :: "members list"
  rb_artifacts :: "(string \<times> bytes) list"

record github_envelope =
  ge_project :: resolved_project
  ge_github_run_id :: int
  ge_checkout_sha :: codes
  ge_head_sha :: codes
  ge_git_object_format :: codes
  ge_branch :: "codes option"
  ge_conclusion :: "string option"
  ge_started_at :: "datetime option"
  ge_completed_at :: "datetime option"
  ge_run_number :: "int option"
  ge_run_attempt :: "int option"
  ge_run_url :: "string option"
  ge_event :: "codes option"
  ge_actor :: "codes option"
  ge_display_title :: "codes option"
  ge_payload_hash :: "string option"
  ge_source_content_hash :: "codes option"
  ge_source_manifest_version :: "codes option"

record local_envelope =
  le_run_id :: string
  le_project :: resolved_project
  le_submitted_by_user_id :: int
  le_submitting_token_id :: string
  le_submitting_token_label :: string
  le_payload_hash :: string
  le_commit_sha :: codes
  le_git_object_format :: codes
  le_branch :: "codes option"
  le_working_tree_dirty :: bool
  le_source_content_hash :: codes
  le_source_manifest_version :: codes
  le_client_provenance_version :: int
  le_client_provenance :: members
  le_started_at :: "datetime option"
  le_completed_at :: "datetime option"

datatype ingest_envelope = Github_origin github_envelope | Local_origin local_envelope

record run_record =
  rr_run_id :: string
  rr_project_id :: int
  rr_origin :: string
  rr_options_json :: codes
  rr_status :: string
  rr_started_at :: "datetime option"
  rr_completed_at :: "datetime option"
  rr_commit_sha :: codes
  rr_git_branch :: "codes option"
  rr_error_message :: "string option"
  rr_findings_json :: codes
  rr_repository_full_name :: string
  rr_git_object_format :: codes
  rr_working_tree_dirty :: bool
  rr_source_content_hash :: "codes option"
  rr_source_manifest_version :: "codes option"
  rr_submitted_by_user_id :: "int option"
  rr_submitting_token_id :: "string option"
  rr_payload_hash :: "string option"
  rr_client_provenance_version :: "int option"
  rr_client_provenance_json :: "codes option"
  rr_github_run_id :: "int option"
  rr_github_run_number :: "int option"
  rr_github_run_attempt :: "int option"
  rr_github_run_url :: "string option"
  rr_github_event :: "codes option"
  rr_github_actor :: "codes option"
  rr_github_head_sha :: "codes option"
  rr_local_machine_label :: "string option"

definition PACKAGE_IDENTITY_CAPABILITY :: codes where
  "PACKAGE_IDENTITY_CAPABILITY = codes_of ''package-identity-v1''"

datatype bundle_error =
    Bundle_ValueError string
  | Bundle_KeyError
  | Bundle_IndexError
  | Bundle_TypeError
  | Bundle_Context context_error
  | Bundle_Json "unit json_error"

section \<open>Writing JSON\<close>

text \<open>
  \<^verbatim>\<open>json.dumps(..., sort_keys=True, separators=(",", ":"))\<close>: everything outside printable
  ASCII is escaped, members are sorted by code points.  How a float prints is a parameter.
\<close>

definition hex4_codes :: "nat \<Rightarrow> codes" where
  "hex4_codes u =
     [hex_code (u div 4096), hex_code (u div 256 mod 16), hex_code (u div 16 mod 16), hex_code (u mod 16)]"

definition ascii_escape :: "nat \<Rightarrow> codes" where
  "ascii_escape c =
     (if c \<in> {34, 92, 8, 12, 10, 13, 9} then json_escape c
      else if 32 \<le> c \<and> c < 127 then [c]
      else if c < 65536 then 92 # 117 # hex4_codes c
      else 92 # 117 # hex4_codes (55296 + (c - 65536) div 1024) @
           92 # 117 # hex4_codes (56320 + (c - 65536) mod 1024))"

definition ascii_quote :: "codes \<Rightarrow> codes" where
  "ascii_quote s = 34 # concat (map ascii_escape s) @ [34]"

fun comma_codes :: "codes list \<Rightarrow> codes" where
  "comma_codes [] = []"
| "comma_codes [t] = t"
| "comma_codes (t # ts) = t @ 44 # comma_codes ts"

fun dump_json :: "(codes \<Rightarrow> codes) \<Rightarrow> json \<Rightarrow> codes" where
  "dump_json float_repr JNull = word_null"
| "dump_json float_repr (JBool b) = (if b then word_true else word_false)"
| "dump_json float_repr (JInt n) = codes_of (decimal_int n)"
| "dump_json float_repr (JFloat s) = float_repr s"
| "dump_json float_repr (JConstant s) = s"
| "dump_json float_repr (JString s) = ascii_quote s"
| "dump_json float_repr (JArray vs) = 91 # comma_codes (map (dump_json float_repr) vs) @ [93]"
| "dump_json float_repr (JObject ms) =
     123 # comma_codes (map (\<lambda>m. ascii_quote (fst m) @ 58 # snd m)
       (sort_key fst (map (\<lambda>m. (fst m, dump_json float_repr (snd m))) ms))) @ [125]"

section \<open>Building the bundle\<close>

definition required :: "members \<Rightarrow> string \<Rightarrow> bundle_error + json" where
  "required ms key =
     (case map_of ms (codes_of key) of None \<Rightarrow> Inl Bundle_KeyError | Some v \<Rightarrow> Inr v)"

definition required_text :: "members \<Rightarrow> string \<Rightarrow> bundle_error + codes" where
  "required_text ms key =
     (case required ms key of
        Inl e \<Rightarrow> Inl e
      | Inr v \<Rightarrow> (case text_of v of None \<Rightarrow> Inl Bundle_TypeError | Some s \<Rightarrow> Inr s))"

definition required_int :: "members \<Rightarrow> string \<Rightarrow> bundle_error + int" where
  "required_int ms key =
     (case required ms key of
        Inl e \<Rightarrow> Inl e
      | Inr v \<Rightarrow> (case int_of v of None \<Rightarrow> Inl Bundle_TypeError | Some n \<Rightarrow> Inr n))"

definition objects_of :: "json \<Rightarrow> bundle_error + members list" where
  "objects_of v =
     (case v of
        JArray vs \<Rightarrow>
          (case those (map (\<lambda>x. case x of JObject ms \<Rightarrow> Some ms | _ \<Rightarrow> None) vs) of
             None \<Rightarrow> Inl Bundle_TypeError | Some mss \<Rightarrow> Inr mss)
      | _ \<Rightarrow> Inl Bundle_TypeError)"

text \<open>\<^verbatim>\<open>document.get(key) or ()\<close>\<close>

definition optional_items :: "members \<Rightarrow> string \<Rightarrow> bundle_error + json list" where
  "optional_items ms key =
     (let v = member_of ms key in
      if \<not> truthy v then Inr [] else (case v of JArray vs \<Rightarrow> Inr vs | _ \<Rightarrow> Inl Bundle_TypeError))"

fun rsplit_rest :: "codes \<Rightarrow> codes \<Rightarrow> codes option" where
  "rsplit_rest sep [] = None"
| "rsplit_rest sep (c # s) =
     (case rsplit_rest sep s of
        Some rest \<Rightarrow> Some rest
      | None \<Rightarrow> if prefix sep (c # s) then Some (drop (length sep) (c # s)) else None)"

definition local_scanner_result :: "members \<Rightarrow> bundle_error + scanner_result" where
  "local_scanner_result item =
     (let image = text_of (member_of item ''image'') in
      case (case image of
              None \<Rightarrow> Inr None
            | Some i \<Rightarrow>
                (case rsplit_rest (codes_of ''@sha256:'') i of
                   None \<Rightarrow> Inl Bundle_IndexError
                 | Some digest \<Rightarrow> Inr (Some (codes_of ''sha256:'' @ digest)))) of
        Inl e \<Rightarrow> Inl e
      | Inr image_digest \<Rightarrow>
     (case required_text item ''kind'' of
        Inl e \<Rightarrow> Inl e
      | Inr kind \<Rightarrow>
     (case required_text item ''status'' of
        Inl e \<Rightarrow> Inl e
      | Inr status \<Rightarrow>
     (case required_int item ''duration_ms'' of
        Inl e \<Rightarrow> Inl e
      | Inr duration \<Rightarrow>
          Inr \<lparr>sr_kind = kind, sr_status = status, sr_duration_ms = Some duration,
               sr_image_reference = image, sr_image_digest = image_digest,
               sr_tool_version = text_of (member_of item ''tool_version''),
               sr_database_version = text_of (member_of item ''database_version''),
               sr_error_code = text_of (member_of item ''error_code'')\<rparr>))))"

fun map_results :: "('a \<Rightarrow> 'e + 'b) \<Rightarrow> 'a list \<Rightarrow> 'e + 'b list" where
  "map_results f [] = Inr []"
| "map_results f (x # xs) =
     (case f x of
        Inl e \<Rightarrow> Inl e
      | Inr y \<Rightarrow> (case map_results f xs of Inl e \<Rightarrow> Inl e | Inr ys \<Rightarrow> Inr (y # ys)))"

text \<open>The two builders differ in where the source contexts come from.\<close>

definition build_bundle ::
    "members \<Rightarrow> bundle_error + members list \<Rightarrow> (string \<times> bytes) list \<Rightarrow> bundle_error + result_bundle" where
  "build_bundle document contexts artifacts =
     (case required document ''scanners'' of
        Inl e \<Rightarrow> Inl e
      | Inr items \<Rightarrow>
     (case objects_of items of
        Inl e \<Rightarrow> Inl e
      | Inr objects \<Rightarrow>
     (case map_results local_scanner_result objects of
        Inl e \<Rightarrow> Inl e
      | Inr scanners \<Rightarrow>
     (case required_int document ''schema_version'' of
        Inl e \<Rightarrow> Inl e
      | Inr version \<Rightarrow>
     (case optional_items document ''capabilities'' of
        Inl e \<Rightarrow> Inl e
      | Inr capabilities \<Rightarrow>
     (case required document ''findings'' of
        Inl e \<Rightarrow> Inl e
      | Inr fs \<Rightarrow>
     (case objects_of fs of
        Inl e \<Rightarrow> Inl e
      | Inr findings \<Rightarrow>
     (case contexts of
        Inl e \<Rightarrow> Inl e
      | Inr cs \<Rightarrow>
          Inr \<lparr>rb_schema_version = version, rb_capabilities = capabilities, rb_scanners = scanners,
               rb_findings = findings, rb_source_contexts = cs, rb_artifacts = artifacts\<rparr>))))))))"

definition build_local_result_bundle ::
    "members \<Rightarrow> (string \<times> bytes) list \<Rightarrow> bundle_error + result_bundle" where
  "build_local_result_bundle document artifacts =
     build_bundle document
       (case optional_items document ''source_contexts'' of
          Inl e \<Rightarrow> Inl e | Inr vs \<Rightarrow> objects_of (JArray vs)) artifacts"

definition build_v2_result_bundle ::
    "members \<Rightarrow> members \<Rightarrow> (string \<times> bytes) list \<Rightarrow> bundle_error + result_bundle" where
  "build_v2_result_bundle document contexts_document artifacts =
     build_bundle document
       (case required contexts_document ''contexts'' of Inl e \<Rightarrow> Inl e | Inr v \<Rightarrow> objects_of v) artifacts"

section \<open>Checks of the bundle\<close>

definition needs_scanners :: "ingest_envelope \<Rightarrow> bool" where
  "needs_scanners envelope =
     (case envelope of Local_origin _ \<Rightarrow> True | Github_origin g \<Rightarrow> ge_conclusion g = Some ''success'')"

definition validate_result_bundle :: "ingest_envelope \<Rightarrow> result_bundle \<Rightarrow> bundle_error + unit" where
  "validate_result_bundle envelope bundle =
     (if rb_schema_version bundle \<notin> {1, 2}
      then Inl (Bundle_ValueError ''unsupported result-bundle schema version'')
      else if \<not> list_all hashable (rb_capabilities bundle) then Inl Bundle_TypeError
      else if \<not> distinct (rb_capabilities bundle)
      then Inl (Bundle_ValueError ''result bundle contains duplicate capabilities'')
      else if \<not> list_all (\<lambda>c. c = JString PACKAGE_IDENTITY_CAPABILITY) (rb_capabilities bundle)
      then Inl (Bundle_ValueError ''result bundle contains an unsupported capability'')
      else if \<not> distinct (map sr_kind (rb_scanners bundle))
      then Inl (Bundle_ValueError ''result bundle contains duplicate scanner kinds'')
      else if rb_scanners bundle = [] \<and> needs_scanners envelope
      then Inl (Bundle_ValueError ''result bundle contains no scanner results'')
      else if rb_source_contexts bundle = [] then Inr ()
      else (case validate_source_context_links (rb_findings bundle) (rb_source_contexts bundle) of
              Inl e \<Rightarrow> Inl (Bundle_Context e) | Inr _ \<Rightarrow> Inr ()))"

section \<open>Redaction of the bundle\<close>

definition optional_text_json :: "codes option \<Rightarrow> json" where
  "optional_text_json t = (case t of None \<Rightarrow> JNull | Some s \<Rightarrow> JString s)"

definition scanner_json :: "scanner_result \<Rightarrow> json" where
  "scanner_json r = JObject
     [(codes_of ''kind'', JString (sr_kind r)), (codes_of ''status'', JString (sr_status r)),
      (codes_of ''duration_ms'', case sr_duration_ms r of None \<Rightarrow> JNull | Some n \<Rightarrow> JInt n),
      (codes_of ''image_reference'', optional_text_json (sr_image_reference r)),
      (codes_of ''image_digest'', optional_text_json (sr_image_digest r)),
      (codes_of ''tool_version'', optional_text_json (sr_tool_version r)),
      (codes_of ''database_version'', optional_text_json (sr_database_version r)),
      (codes_of ''error_code'', optional_text_json (sr_error_code r))]"

definition findings_json :: "(codes \<Rightarrow> codes) \<Rightarrow> result_bundle \<Rightarrow> codes" where
  "findings_json float_repr bundle = dump_json float_repr (JObject
     [(codes_of ''schema_version'', JInt (rb_schema_version bundle)),
      (codes_of ''capabilities'', JArray (rb_capabilities bundle)),
      (codes_of ''scanners'', JArray (map scanner_json (rb_scanners bundle))),
      (codes_of ''findings'', JArray (map JObject (rb_findings bundle))),
      (codes_of ''source_contexts'', JArray (map JObject (rb_source_contexts bundle)))])"

record redaction_port =
  rp_word :: "nat \<Rightarrow> bool"
  rp_float_repr :: "codes \<Rightarrow> codes"
  rp_recursion_limit :: nat

definition redacted_optional_text :: "redaction_port \<Rightarrow> codes option \<Rightarrow> codes option" where
  "redacted_optional_text port t = map_option (\<lambda>s. fst (redact_text (rp_word port) None s)) t"

definition redact_scanner :: "redaction_port \<Rightarrow> scanner_result \<Rightarrow> scanner_result" where
  "redact_scanner port r =
     r\<lparr>sr_error_code := redacted_optional_text port (sr_error_code r),
       sr_database_version := redacted_optional_text port (sr_database_version r),
       sr_tool_version := redacted_optional_text port (sr_tool_version r)\<rparr>"

definition json_hooks_default :: "unit json_hooks" where
  "json_hooks_default = \<lparr>jh_object = dict_hook, jh_float = keep_float, jh_constant = keep_constant\<rparr>"

definition codes_bytes :: "codes \<Rightarrow> bytes" where
  "codes_bytes s = map word_of_nat s"

definition redact_artifact :: "redaction_port \<Rightarrow> string \<times> bytes \<Rightarrow> bundle_error + string \<times> bytes" where
  "redact_artifact port part =
     (case json_decode_bytes (snd part) of
        None \<Rightarrow> Inl (Bundle_ValueError (fst part @ '' artifact must be valid JSON''))
      | Some t \<Rightarrow>
     (case json_loads json_hooks_default (rp_recursion_limit port) t of
        Inl Json_Decode \<Rightarrow> Inl (Bundle_ValueError (fst part @ '' artifact must be valid JSON''))
      | Inl e \<Rightarrow> Inl (Bundle_Json e)
      | Inr document \<Rightarrow>
          Inr (fst part, codes_bytes (dump_json (rp_float_repr port)
            (fst (redact_json (rp_word port) None document))))))"

definition redact_findings :: "redaction_port \<Rightarrow> members list \<Rightarrow> members list" where
  "redact_findings port findings =
     map (\<lambda>ms. case fst (redact_json (rp_word port) None (JObject ms)) of JObject ms' \<Rightarrow> ms' | _ \<Rightarrow> []) findings"

definition redact_result_bundle :: "redaction_port \<Rightarrow> result_bundle \<Rightarrow> bundle_error + result_bundle" where
  "redact_result_bundle port bundle =
     (case sanitize_source_contexts (rp_word port) SOURCE_CONTEXT_LIMITS (rb_source_contexts bundle) of
        Inl e \<Rightarrow> Inl (Bundle_Context e)
      | Inr contexts \<Rightarrow>
     (case map_results (redact_artifact port) (filter (\<lambda>p. fst p \<noteq> ''findings'') (rb_artifacts bundle)) of
        Inl e \<Rightarrow> Inl e
      | Inr artifacts \<Rightarrow>
          (let clean = bundle\<lparr>rb_scanners := map (redact_scanner port) (rb_scanners bundle),
                              rb_findings := redact_findings port (rb_findings bundle),
                              rb_source_contexts := contexts, rb_artifacts := artifacts\<rparr> in
           Inr (if ''findings'' \<in> fst ` set (rb_artifacts bundle)
                then clean\<lparr>rb_artifacts := artifacts @
                       [(''findings'', codes_bytes (findings_json (rp_float_repr port) clean))]\<rparr>
                else clean))))"

section \<open>The run record\<close>

definition github_run_key :: "int \<Rightarrow> int \<Rightarrow> int \<Rightarrow> string" where
  "github_run_key repository run attempt =
     ''gh-'' @ decimal_int repository @ ''-'' @ decimal_int run @ ''-'' @ decimal_int attempt"

definition github_run_id :: "int \<Rightarrow> int \<Rightarrow> int \<Rightarrow> bundle_error + string" where
  "github_run_id repository run attempt =
     (if repository \<le> 0 \<or> run \<le> 0 \<or> attempt \<le> 0
      then Inl (Bundle_ValueError ''GitHub repository, run and attempt IDs must be positive'')
      else Inr (github_run_key repository run attempt))"

definition or_zero :: "int option \<Rightarrow> int" where
  "or_zero x = (case x of None \<Rightarrow> 0 | Some n \<Rightarrow> n)"

definition github_run_record ::
    "redaction_port \<Rightarrow> github_envelope \<Rightarrow> result_bundle \<Rightarrow> bundle_error + run_record" where
  "github_run_record port g bundle =
     (case github_run_id (or_zero (rj_github_repository_id (ge_project g))) (ge_github_run_id g)
             (or_zero (ge_run_attempt g)) of
        Inl e \<Rightarrow> Inl e
      | Inr run_id \<Rightarrow>
          (let has_results = rb_scanners bundle \<noteq> [] in
           Inr \<lparr>rr_run_id = run_id, rr_project_id = rj_project_id (ge_project g),
                rr_origin = ''github-actions'',
                rr_options_json = dump_json (rp_float_repr port)
                  (JObject [(codes_of ''display_title'', optional_text_json (ge_display_title g))]),
                rr_status = (if has_results then ''completed'' else ''failed''),
                rr_started_at = ge_started_at g, rr_completed_at = ge_completed_at g,
                rr_commit_sha = ge_checkout_sha g, rr_git_branch = ge_branch g,
                rr_error_message =
                  (if has_results then None else Some ''GitHub workflow produced no scan results''),
                rr_findings_json = findings_json (rp_float_repr port) bundle,
                rr_repository_full_name = rj_repository (ge_project g),
                rr_git_object_format = ge_git_object_format g, rr_working_tree_dirty = False,
                rr_source_content_hash = ge_source_content_hash g,
                rr_source_manifest_version = ge_source_manifest_version g,
                rr_submitted_by_user_id = None, rr_submitting_token_id = None,
                rr_payload_hash = ge_payload_hash g, rr_client_provenance_version = None,
                rr_client_provenance_json = None, rr_github_run_id = Some (ge_github_run_id g),
                rr_github_run_number = ge_run_number g, rr_github_run_attempt = ge_run_attempt g,
                rr_github_run_url = ge_run_url g, rr_github_event = ge_event g,
                rr_github_actor = ge_actor g, rr_github_head_sha = Some (ge_head_sha g),
                rr_local_machine_label = None\<rparr>))"

definition local_run_record :: "redaction_port \<Rightarrow> local_envelope \<Rightarrow> result_bundle \<Rightarrow> run_record" where
  "local_run_record port l bundle =
     \<lparr>rr_run_id = le_run_id l, rr_project_id = rj_project_id (le_project l), rr_origin = ''local'',
      rr_options_json = codes_of ''{}'', rr_status = ''completed'',
      rr_started_at = le_started_at l, rr_completed_at = le_completed_at l,
      rr_commit_sha = le_commit_sha l, rr_git_branch = le_branch l, rr_error_message = None,
      rr_findings_json = findings_json (rp_float_repr port) bundle,
      rr_repository_full_name = rj_repository (le_project l),
      rr_git_object_format = le_git_object_format l,
      rr_working_tree_dirty = le_working_tree_dirty l,
      rr_source_content_hash = Some (le_source_content_hash l),
      rr_source_manifest_version = Some (le_source_manifest_version l),
      rr_submitted_by_user_id = Some (le_submitted_by_user_id l),
      rr_submitting_token_id = Some (le_submitting_token_id l),
      rr_payload_hash = Some (le_payload_hash l),
      rr_client_provenance_version = Some (le_client_provenance_version l),
      rr_client_provenance_json = Some (dump_json (rp_float_repr port)
        (fst (redact_json (rp_word port) None (JObject (le_client_provenance l))))),
      rr_github_run_id = None, rr_github_run_number = None, rr_github_run_attempt = None,
      rr_github_run_url = None, rr_github_event = None, rr_github_actor = None,
      rr_github_head_sha = None, rr_local_machine_label = Some (le_submitting_token_label l)\<rparr>"

definition make_run_record ::
    "redaction_port \<Rightarrow> ingest_envelope \<Rightarrow> result_bundle \<Rightarrow> bundle_error + run_record" where
  "make_run_record port envelope bundle =
     (case envelope of
        Github_origin g \<Rightarrow> github_run_record port g bundle
      | Local_origin l \<Rightarrow> Inr (local_run_record port l bundle))"

section \<open>Findings\<close>

text \<open>The fields of a stored finding keep the values of the document.\<close>

record normalized_finding =
  nf_run_id :: string
  nf_finding_key :: json
  nf_scanner_kind :: json
  nf_rule_id :: json
  nf_severity :: json
  nf_file_path :: json
  nf_line_start :: json
  nf_line_end :: json
  nf_message :: json
  nf_theme :: json
  nf_fix_strategy :: json
  nf_compliance_tags :: json
  nf_package_name :: json
  nf_package_version :: json
  nf_package_ecosystem :: json
  nf_package_purl :: json

definition value_or :: "json \<Rightarrow> json \<Rightarrow> json" where
  "value_or v fallback = (if truthy v then v else fallback)"

definition normalize_finding :: "string \<Rightarrow> members \<Rightarrow> bundle_error + normalized_finding" where
  "normalize_finding run_id finding =
     (case required finding ''scanner'' of
        Inl e \<Rightarrow> Inl e
      | Inr scanner \<Rightarrow>
          Inr \<lparr>nf_run_id = run_id, nf_finding_key = member_of finding ''finding_key'',
               nf_scanner_kind = scanner, nf_rule_id = member_of finding ''rule_id'',
               nf_severity = member_of finding ''severity'',
               nf_file_path = member_of finding ''file_path'',
               nf_line_start = member_of finding ''line_start'',
               nf_line_end = member_of finding ''line_end'',
               nf_message = value_or (member_of finding ''message'') (JString []),
               nf_theme = member_of finding ''theme'',
               nf_fix_strategy = member_of finding ''fix_strategy'',
               nf_compliance_tags = value_or (member_of finding ''compliance_tags'') (JArray []),
               nf_package_name = member_of finding ''package_name'',
               nf_package_version = member_of finding ''package_version'',
               nf_package_ecosystem = member_of finding ''package_ecosystem'',
               nf_package_purl = member_of finding ''package_purl''\<rparr>)"

definition normalize_findings :: "string \<Rightarrow> members list \<Rightarrow> bundle_error + normalized_finding list" where
  "normalize_findings run_id findings = map_results (normalize_finding run_id) findings"

end
