(* ===== verification/Ingest_Attempt.thy ===== *)
theory Ingest_Attempt
  imports Contracts Py_Text
begin

text \<open>
  Audit evidence of upload attempts (\<^verbatim>\<open>ingestion/ingest_attempt\<close> and its table): a
  record holds digests of the identities, never the identities themselves, and expires after
  thirty days.  SHA-256 is a parameter; the id of a record is supplied by the caller.
\<close>

record attempt_command =
  ac_correlation_id :: string
  ac_origin :: string
  ac_project_id :: int
  ac_principal_kind :: string
  ac_principal_reference :: string
  ac_request_key :: string
  ac_outcome :: string
  ac_reason_code :: string
  ac_retryable :: bool
  ac_wire_bytes :: int
  ac_received_at :: datetime
  ac_completed_at :: datetime
  ac_run_id :: "string option"
  ac_submitted_by_user_id :: "int option"

record attempt_record =
  at_id :: string
  at_correlation_id :: string
  at_origin :: string
  at_project_id :: int
  at_principal_kind :: string
  at_principal_reference_hash :: string
  at_request_key_hash :: string
  at_outcome :: string
  at_reason_code :: string
  at_retryable :: bool
  at_wire_bytes :: int
  at_received_at :: datetime
  at_completed_at :: datetime
  at_expires_at :: datetime
  at_run_id :: "string option"
  at_submitted_by_user_id :: "int option"

datatype attempt_error = Attempt_ValueError string | Attempt_IntegrityError

definition ATTEMPT_RETENTION :: timedelta where "ATTEMPT_RETENTION = days 30"

definition ATTEMPT_ORIGINS :: "string list" where "ATTEMPT_ORIGINS = [''github'', ''local'']"

definition PRINCIPAL_KINDS :: "string list" where "PRINCIPAL_KINDS = [''github_oidc'', ''local_token'']"

text \<open>Text here has code points below 256, whose UTF-8 form always exists.\<close>

definition attempt_digest :: "(bytes \<Rightarrow> bytes) \<Rightarrow> string \<Rightarrow> string" where
  "attempt_digest sha s =
     hex_encode (sha (case utf8_encode (codes_of s) of None \<Rightarrow> [] | Some b \<Rightarrow> b))"

definition attempt_checks :: "attempt_command \<Rightarrow> (bool \<times> string) list" where
  "attempt_checks c =
     [(\<not> canonical_uuid (ac_correlation_id c), ''correlation ID must be a canonical UUID''),
      (ac_origin c \<notin> set ATTEMPT_ORIGINS \<or> ac_principal_kind c \<notin> set PRINCIPAL_KINDS,
       ''ingest attempt origin or principal kind is invalid''),
      (ac_outcome c \<notin> set INGEST_ATTEMPT_OUTCOMES, ''ingest attempt outcome is invalid''),
      (ac_reason_code c \<notin> set INGEST_REASON_CODES, ''ingest attempt reason code is invalid''),
      (ac_project_id c \<le> 0 \<or> ac_principal_reference c = [] \<or> ac_request_key c = [],
       ''ingest attempt binding fields are required''),
      (case ac_submitted_by_user_id c of None \<Rightarrow> False | Some u \<Rightarrow> u \<le> 0,
       ''submitting user ID must be positive''),
      (ac_wire_bytes c < 0, ''ingest attempt wire bytes must be a non-negative integer''),
      (\<not> dt_tzinfo (ac_received_at c) \<or> \<not> dt_tzinfo (ac_completed_at c),
       ''ingest attempt timestamps must be timezone-aware''),
      (dt_less (ac_completed_at c) (ac_received_at c),
       ''ingest attempt completion precedes receipt'')]"

definition attempt_of :: "(bytes \<Rightarrow> bytes) \<Rightarrow> string \<Rightarrow> attempt_command \<Rightarrow> attempt_record" where
  "attempt_of sha new_id c =
     \<lparr>at_id = new_id, at_correlation_id = ac_correlation_id c, at_origin = ac_origin c,
      at_project_id = ac_project_id c, at_principal_kind = ac_principal_kind c,
      at_principal_reference_hash = attempt_digest sha (ac_principal_reference c),
      at_request_key_hash = attempt_digest sha (ac_request_key c), at_outcome = ac_outcome c,
      at_reason_code = ac_reason_code c, at_retryable = ac_retryable c,
      at_wire_bytes = ac_wire_bytes c, at_received_at = ac_received_at c,
      at_completed_at = ac_completed_at c,
      at_expires_at = dt_add (ac_received_at c) ATTEMPT_RETENTION, at_run_id = ac_run_id c,
      at_submitted_by_user_id = ac_submitted_by_user_id c\<rparr>"

definition build_ingest_attempt ::
    "(bytes \<Rightarrow> bytes) \<Rightarrow> string \<Rightarrow> attempt_command \<Rightarrow> attempt_error + attempt_record" where
  "build_ingest_attempt sha new_id c =
     (case find fst (attempt_checks c) of
        Some (_, message) \<Rightarrow> Inl (Attempt_ValueError message)
      | None \<Rightarrow> Inr (attempt_of sha new_id c))"

section \<open>The table\<close>

text \<open>The check constraints of a row, and the unique correlation id.\<close>

definition attempt_row_allowed :: "attempt_record \<Rightarrow> bool" where
  "attempt_row_allowed r \<longleftrightarrow>
     at_origin r \<in> {''github'', ''local''} \<and> at_principal_kind r \<in> {''github_oidc'', ''local_token''} \<and>
     at_outcome r \<in> {''accepted'', ''replayed'', ''rejected'', ''failed_internal''} \<and>
     0 \<le> at_wire_bytes r \<and> dt_less (at_received_at r) (at_expires_at r) \<and>
     dt_le (at_received_at r) (at_completed_at r) \<and> length (at_id r) = 36 \<and>
     length (at_correlation_id r) = 36 \<and> length (at_principal_reference_hash r) = 64 \<and>
     length (at_request_key_hash r) = 64 \<and>
     (at_origin r = ''github'' \<and> at_principal_kind r = ''github_oidc'' \<and> at_submitted_by_user_id r = None \<or>
      at_origin r = ''local'' \<and> at_principal_kind r = ''local_token'' \<and> at_submitted_by_user_id r \<noteq> None)"

definition attempt_stage ::
    "attempt_record \<Rightarrow> attempt_record list \<Rightarrow> attempt_error + attempt_record list" where
  "attempt_stage r rows =
     (if \<not> attempt_row_allowed r \<or> at_id r \<in> at_id ` set rows \<or>
         at_correlation_id r \<in> at_correlation_id ` set rows
      then Inl Attempt_IntegrityError else Inr (rows @ [r]))"

definition attempt_purge_expired :: "datetime \<Rightarrow> attempt_record list \<Rightarrow> nat \<times> attempt_record list" where
  "attempt_purge_expired now rows =
     (let expired = (\<lambda>r. dt_le (at_expires_at r) now) in (count_where expired rows, delete_where expired rows))"

text \<open>
  A record that was built satisfies every constraint of its table when its principal fits its
  origin, so that only a repeated correlation id can make the insert fail.
\<close>

lemma sha_digest_length: "(\<And>b. length (sha b) = 32) \<Longrightarrow> length (attempt_digest sha s) = 64"
  by (simp add: attempt_digest_def)

lemma built_attempt_allowed:
  assumes "build_ingest_attempt sha new_id c = Inr r" "\<And>b. length (sha b) = 32" "length new_id = 36"
    and "ac_origin c = ''github'' \<and> ac_principal_kind c = ''github_oidc'' \<and> ac_submitted_by_user_id c = None \<or>
      ac_origin c = ''local'' \<and> ac_principal_kind c = ''local_token'' \<and> ac_submitted_by_user_id c \<noteq> None"
  shows "attempt_row_allowed r"
proof -
  from assms(1) have none: "find fst (attempt_checks c) = None" and r: "r = attempt_of sha new_id c"
    by (auto simp: build_ingest_attempt_def split: option.splits)
  from none have "list_all (\<lambda>x. \<not> fst x) (attempt_checks c)" by (auto simp: find_None_iff list_all_iff)
  then have "canonical_uuid (ac_correlation_id c)" "ac_outcome c \<in> set INGEST_ATTEMPT_OUTCOMES"
    "0 \<le> ac_wire_bytes c" "\<not> dt_less (ac_completed_at c) (ac_received_at c)"
    by (simp_all add: attempt_checks_def)
  with assms(2-4) show ?thesis
    by (auto simp: r attempt_row_allowed_def attempt_of_def sha_digest_length canonical_uuid_length
        INGEST_ATTEMPT_OUTCOMES_def ATTEMPT_RETENTION_def timedelta_defs dt_less_def dt_le_def dt_simps)
qed

end
