(* ===== verification/Idempotency.thy ===== *)
theory Idempotency
  imports Prelude Py_Codec
begin

text \<open>
  Leased idempotency claims (\<^verbatim>\<open>ingestion/idempotency_guard\<close>): the commands, results and
  lease handles, the validating entry points over a repository port, the life of one claim row
  as both repositories write it, and the contract \<open>leased_claims\<close> that both keep.
\<close>

section \<open>Commands, results and handles\<close>

datatype claim_decision =
  Claim_Acquired | Stale_Takeover | Replay | Claim_Conflict | In_Progress | Claim_Tombstoned

record claim_command =
  cc_user_id :: int
  cc_token_id :: string
  cc_client_request_id :: string
  cc_project_id :: int
  cc_payload_hash :: string
  cc_accepted_bytes :: int

record claim_result =
  cr_decision :: claim_decision
  cr_lease_id :: "string option"
  cr_lease_expires_at :: "datetime option"
  cr_run_id :: "string option"

definition acquired :: "claim_result \<Rightarrow> bool" where
  "acquired res \<longleftrightarrow> cr_decision res \<in> {Claim_Acquired, Stale_Takeover}"

record idempotency_claim =
  ic_user_id :: int
  ic_client_request_id :: string
  ic_payload_hash :: string
  ic_lease_id :: string
  ic_lease_expires_at :: datetime

record github_claim_command =
  gc_repository_id :: int
  gc_owner_id :: int
  gc_run_id :: int
  gc_run_attempt :: int
  gc_project_id :: int
  gc_payload_hash :: string
  gc_accepted_bytes :: int

record github_idempotency_claim =
  gi_repository_id :: int
  gi_owner_id :: int
  gi_run_id :: int
  gi_run_attempt :: int
  gi_payload_hash :: string
  gi_lease_id :: string
  gi_lease_expires_at :: datetime

datatype claim_error =
    IdempotencyValidationError string
  | Claim_RuntimeError string
  | Claim_IntegrityError
  | Claim_RecursionError

definition DEFAULT_LEASE :: timedelta where "DEFAULT_LEASE = minutes 5"

definition DEFAULT_TOMBSTONE_RETENTION :: timedelta where "DEFAULT_TOMBSTONE_RETENTION = days 30"

section \<open>Validation\<close>

definition validate_content :: "string \<Rightarrow> int \<Rightarrow> claim_error + unit" where
  "validate_content payload_hash accepted_bytes =
     (if accepted_bytes < 0
      then Inl (IdempotencyValidationError ''accepted bytes must be a non-negative integer'')
      else if \<not> sha256_hex payload_hash
      then Inl (IdempotencyValidationError ''payload hash must be lowercase SHA-256 hex'')
      else Inr ())"

text \<open>Text that is no UUID at all and a UUID in another spelling are the same exception.\<close>

definition validate_claim_command :: "claim_command \<Rightarrow> claim_error + claim_command" where
  "validate_claim_command command =
     (if cc_user_id command \<le> 0 \<or> cc_project_id command \<le> 0 \<or> cc_token_id command = []
      then Inl (IdempotencyValidationError ''user_id and project_id must be positive'')
      else if \<not> canonical_uuid4 (cc_client_request_id command)
      then Inl (IdempotencyValidationError ''client request id must be a canonical lowercase UUIDv4'')
      else case validate_content (cc_payload_hash command) (cc_accepted_bytes command) of
        Inl e \<Rightarrow> Inl e
      | Inr _ \<Rightarrow> Inr command)"

definition validate_github_claim_command ::
    "github_claim_command \<Rightarrow> claim_error + github_claim_command" where
  "validate_github_claim_command command =
     (if list_ex (\<lambda>v. v \<le> 0) [gc_repository_id command, gc_owner_id command, gc_run_id command,
          gc_run_attempt command, gc_project_id command]
      then Inl (IdempotencyValidationError
        ''GitHub repository, run, attempt and project IDs must be positive integers'')
      else case validate_content (gc_payload_hash command) (gc_accepted_bytes command) of
        Inl e \<Rightarrow> Inl e
      | Inr _ \<Rightarrow> Inr command)"

definition claim_aware :: "datetime \<Rightarrow> claim_error + datetime" where
  "claim_aware d =
     (if \<not> aware d then Inl (IdempotencyValidationError ''idempotency timestamps must be timezone-aware'')
      else Inr d)"

section \<open>Entry points over a repository port\<close>

text \<open>
  A port operation maps the repository state to an error or a result with the next state; an
  exception leaves the state as it was.
\<close>

definition acquire_claim ::
    "(claim_command \<Rightarrow> datetime \<Rightarrow> datetime \<Rightarrow> 's \<Rightarrow> claim_error + claim_result \<times> 's)
     \<Rightarrow> claim_command \<Rightarrow> datetime \<Rightarrow> timedelta \<Rightarrow> 's \<Rightarrow> claim_error + claim_result \<times> 's" where
  "acquire_claim acquire command now lease_duration s =
     (case validate_claim_command command of
        Inl e \<Rightarrow> Inl e
      | Inr _ \<Rightarrow>
     (case claim_aware now of
        Inl e \<Rightarrow> Inl e
      | Inr aware_now \<Rightarrow>
          if lease_duration \<le> 0
          then Inl (IdempotencyValidationError ''lease duration must be positive'')
          else acquire command aware_now (dt_add aware_now lease_duration) s))"

definition acquire_github_claim ::
    "(github_claim_command \<Rightarrow> datetime \<Rightarrow> datetime \<Rightarrow> 's \<Rightarrow> claim_error + claim_result \<times> 's)
     \<Rightarrow> github_claim_command \<Rightarrow> datetime \<Rightarrow> timedelta \<Rightarrow> 's \<Rightarrow> claim_error + claim_result \<times> 's" where
  "acquire_github_claim acquire command now lease_duration s =
     (case validate_github_claim_command command of
        Inl e \<Rightarrow> Inl e
      | Inr _ \<Rightarrow>
     (case claim_aware now of
        Inl e \<Rightarrow> Inl e
      | Inr aware_now \<Rightarrow>
          if lease_duration \<le> 0
          then Inl (IdempotencyValidationError ''lease duration must be positive'')
          else acquire command aware_now (dt_add aware_now lease_duration) s))"

definition claim_handle :: "claim_command \<Rightarrow> claim_result \<Rightarrow> claim_error + idempotency_claim" where
  "claim_handle command res =
     (case (acquired res, cr_lease_expires_at res, cr_lease_id res) of
        (True, Some expires, Some lease) \<Rightarrow>
          Inr \<lparr>ic_user_id = cc_user_id command,
               ic_client_request_id = cc_client_request_id command,
               ic_payload_hash = cc_payload_hash command, ic_lease_id = lease,
               ic_lease_expires_at = expires\<rparr>
      | _ \<Rightarrow> Inl (IdempotencyValidationError ''only an acquired result has a lease handle''))"

definition github_claim_handle ::
    "github_claim_command \<Rightarrow> claim_result \<Rightarrow> claim_error + github_idempotency_claim" where
  "github_claim_handle command res =
     (case (acquired res, cr_lease_expires_at res, cr_lease_id res) of
        (True, Some expires, Some lease) \<Rightarrow>
          Inr \<lparr>gi_repository_id = gc_repository_id command, gi_owner_id = gc_owner_id command,
               gi_run_id = gc_run_id command, gi_run_attempt = gc_run_attempt command,
               gi_payload_hash = gc_payload_hash command, gi_lease_id = lease,
               gi_lease_expires_at = expires\<rparr>
      | _ \<Rightarrow> Inl (IdempotencyValidationError ''only an acquired result has a lease handle''))"

definition heartbeat_claim ::
    "(idempotency_claim \<Rightarrow> datetime \<Rightarrow> 's \<Rightarrow> bool \<times> 's)
     \<Rightarrow> idempotency_claim \<Rightarrow> datetime \<Rightarrow> timedelta \<Rightarrow> 's
     \<Rightarrow> claim_error + idempotency_claim option \<times> 's" where
  "heartbeat_claim heartbeat claim now lease_duration s =
     (case claim_aware now of
        Inl e \<Rightarrow> Inl e
      | Inr aware_now \<Rightarrow>
          if lease_duration \<le> 0
          then Inl (IdempotencyValidationError ''lease duration must be positive'')
          else
            (let new_expiry = dt_add aware_now lease_duration in
             case heartbeat claim new_expiry s of (alive, s') \<Rightarrow>
               Inr (if alive then Some (claim\<lparr>ic_lease_expires_at := new_expiry\<rparr>) else None, s')))"

definition tombstone_completed_claim ::
    "(string \<Rightarrow> datetime \<Rightarrow> datetime \<Rightarrow> 's \<Rightarrow> bool \<times> 's)
     \<Rightarrow> string \<Rightarrow> datetime \<Rightarrow> timedelta \<Rightarrow> 's \<Rightarrow> claim_error + bool \<times> 's" where
  "tombstone_completed_claim tombstone run_id now retention s =
     (case claim_aware now of
        Inl e \<Rightarrow> Inl e
      | Inr aware_now \<Rightarrow>
          if run_id = [] \<or> retention \<le> 0
          then Inl (IdempotencyValidationError
            ''run id and positive tombstone retention are required'')
          else Inr (tombstone run_id aware_now (dt_add aware_now retention) s))"

section \<open>The life of a claim row\<close>

datatype claim_state = Processing | Completed | Claim_Failed | Tombstoned

text \<open>The columns that the tables of local and GitHub claims share.\<close>

record claim_life =
  cl_project_id :: int
  cl_payload_hash :: string
  cl_accepted_bytes :: int
  cl_state :: claim_state
  cl_run_id :: "string option"
  cl_lease_id :: "string option"
  cl_lease_expires_at :: "datetime option"
  cl_tombstoned_at :: "datetime option"
  cl_tombstone_expires_at :: "datetime option"
  cl_created_at :: datetime
  cl_updated_at :: datetime

definition plain_result :: "claim_decision \<Rightarrow> claim_result" where
  "plain_result d = \<lparr>cr_decision = d, cr_lease_id = None, cr_lease_expires_at = None, cr_run_id = None\<rparr>"

definition lease_result :: "claim_decision \<Rightarrow> string option \<Rightarrow> datetime option \<Rightarrow> claim_result" where
  "lease_result d lease expires =
     \<lparr>cr_decision = d, cr_lease_id = lease, cr_lease_expires_at = expires, cr_run_id = None\<rparr>"

text \<open>
  What an existing row decides; \<open>same\<close> says whether the command is bound to the row's content.
\<close>

definition life_decision :: "bool \<Rightarrow> datetime \<Rightarrow> 'a claim_life_scheme \<Rightarrow> claim_result option" where
  "life_decision same now row =
     (if cl_state row = Tombstoned then
        (case map_option normalise_utc (cl_tombstone_expires_at row) of
           None \<Rightarrow> Some (plain_result Claim_Tombstoned)
         | Some expiry \<Rightarrow>
             if dt_less now expiry then Some (plain_result Claim_Tombstoned) else None)
      else if \<not> same then Some (plain_result Claim_Conflict)
      else if cl_state row = Completed then
        Some ((plain_result Replay)\<lparr>cr_run_id := cl_run_id row\<rparr>)
      else
        (let lease_expiry = map_option normalise_utc (cl_lease_expires_at row) in
         if cl_state row = Processing \<and>
            (case lease_expiry of None \<Rightarrow> True | Some expiry \<Rightarrow> dt_less now expiry)
         then Some (lease_result In_Progress (cl_lease_id row) lease_expiry)
         else None))"

definition life_takeover ::
    "int \<Rightarrow> string \<Rightarrow> datetime \<Rightarrow> datetime \<Rightarrow> 'a claim_life_scheme \<Rightarrow> 'a claim_life_scheme" where
  "life_takeover accepted_bytes lease_id lease_expires_at now row =
     row\<lparr>cl_state := Processing, cl_accepted_bytes := accepted_bytes, cl_run_id := None,
         cl_lease_id := Some lease_id, cl_lease_expires_at := Some lease_expires_at,
         cl_tombstoned_at := None, cl_tombstone_expires_at := None, cl_updated_at := now\<rparr>"

definition life_heartbeat ::
    "('a claim_life_scheme \<Rightarrow> bool) \<Rightarrow> datetime \<Rightarrow> datetime \<Rightarrow> 'a claim_life_scheme list
     \<Rightarrow> bool \<times> 'a claim_life_scheme list" where
  "life_heartbeat owned new_expiry now rows =
     (0 < count_where owned rows,
      update_where owned
        (\<lambda>row. row\<lparr>cl_lease_expires_at := Some new_expiry, cl_updated_at := now\<rparr>) rows)"

text \<open>Run ids are unique in the table: completing onto a run of another row fails.\<close>

definition life_complete ::
    "('a claim_life_scheme \<Rightarrow> bool) \<Rightarrow> string \<Rightarrow> datetime \<Rightarrow> 'a claim_life_scheme list
     \<Rightarrow> claim_error + bool \<times> 'a claim_life_scheme list" where
  "life_complete owned run_id now rows =
     (if 0 < count_where owned rows \<and> (\<exists>row \<in> set rows. \<not> owned row \<and> cl_run_id row = Some run_id)
      then Inl Claim_IntegrityError
      else Inr (0 < count_where owned rows,
        update_where owned
          (\<lambda>row. row\<lparr>cl_state := Completed, cl_run_id := Some run_id, cl_lease_id := None,
                     cl_lease_expires_at := None, cl_updated_at := now\<rparr>) rows))"

definition life_fail ::
    "('a claim_life_scheme \<Rightarrow> bool) \<Rightarrow> datetime \<Rightarrow> 'a claim_life_scheme list
     \<Rightarrow> bool \<times> 'a claim_life_scheme list" where
  "life_fail owned now rows =
     (0 < count_where owned rows,
      update_where owned
        (\<lambda>row. row\<lparr>cl_state := Claim_Failed, cl_run_id := None, cl_lease_id := None,
                   cl_lease_expires_at := None, cl_updated_at := now\<rparr>) rows)"

definition life_tombstone ::
    "string \<Rightarrow> datetime \<Rightarrow> datetime \<Rightarrow> 'a claim_life_scheme list
     \<Rightarrow> bool \<times> 'a claim_life_scheme list" where
  "life_tombstone run_id now expires_at rows =
     (let p = (\<lambda>row. cl_run_id row = Some run_id \<and> cl_state row = Completed) in
      (0 < count_where p rows,
       update_where p
         (\<lambda>row. row\<lparr>cl_state := Tombstoned, cl_run_id := None, cl_tombstoned_at := Some now,
                    cl_tombstone_expires_at := Some expires_at, cl_updated_at := now\<rparr>) rows))"

definition life_purge :: "datetime \<Rightarrow> 'a claim_life_scheme list \<Rightarrow> nat \<times> 'a claim_life_scheme list" where
  "life_purge now rows =
     (let p = (\<lambda>row. cl_state row = Tombstoned \<and>
                 (case cl_tombstone_expires_at row of None \<Rightarrow> False | Some e \<Rightarrow> dt_le e now)) in
      (count_where p rows, delete_where p rows))"

text \<open>Which lease holds a key.\<close>

definition life_holds ::
    "('a claim_life_scheme \<Rightarrow> 'k) \<Rightarrow> 'a claim_life_scheme list \<Rightarrow> 'k \<Rightarrow> string \<Rightarrow> bool" where
  "life_holds key rows k lease \<longleftrightarrow>
     (\<exists>row \<in> set rows. key row = k \<and> cl_state row = Processing \<and> cl_lease_id row = Some lease)"

lemma life_holds_same:
  assumes "\<And>row. row \<in> set rows \<Longrightarrow> p row \<Longrightarrow> key (f row) = key row \<and>
      (cl_state (f row) = Processing \<and> cl_lease_id (f row) = Some l \<longleftrightarrow>
       cl_state row = Processing \<and> cl_lease_id row = Some l)"
  shows "life_holds key (update_where p f rows) k l \<longleftrightarrow> life_holds key rows k l"
  unfolding life_holds_def set_update_where bex_simps by (rule bex_cong) (use assms in auto)

lemma life_holds_release:
  assumes dist: "distinct (map key rows)" and some: "0 < count_where owned rows"
    and owned: "\<And>row. owned row \<Longrightarrow> key row = k0 \<and> cl_state row = Processing \<and> cl_lease_id row = Some l0"
    and f: "\<And>row. key (f row) = key row \<and> cl_state (f row) \<noteq> Processing"
  shows "life_holds key rows k0 l0 \<and>
    (life_holds key (update_where owned f rows) k l \<longleftrightarrow> life_holds key rows k l \<and> k \<noteq> k0)"
proof -
  obtain r where r: "r \<in> set rows" "owned r" using some by (auto simp: count_where_pos)
  have only: "owned x" if "x \<in> set rows" "key x = k0" for x
    using distinct_key_eq [OF dist that(1) r(1)] owned [OF r(2)] that(2) r(2) by simp
  have "life_holds key rows k0 l0" unfolding life_holds_def using r owned by blast
  moreover have "life_holds key (update_where owned f rows) k l \<longleftrightarrow> life_holds key rows k l \<and> k \<noteq> k0"
  proof
    assume "life_holds key (update_where owned f rows) k l"
    then obtain x where x: "x \<in> set rows" "key (if owned x then f x else x) = k"
      "cl_state (if owned x then f x else x) = Processing"
      "cl_lease_id (if owned x then f x else x) = Some l"
      unfolding life_holds_def set_update_where by blast
    have "\<not> owned x" using x(3) f [of x] by auto
    with x only [of x] show "life_holds key rows k l \<and> k \<noteq> k0"
      unfolding life_holds_def by auto
  next
    assume "life_holds key rows k l \<and> k \<noteq> k0"
    then obtain x where x: "x \<in> set rows" "key x = k" "cl_state x = Processing"
      "cl_lease_id x = Some l" "k \<noteq> k0"
      unfolding life_holds_def by blast
    then have "\<not> owned x" using owned [of x] by blast
    with x show "life_holds key (update_where owned f rows) k l"
      unfolding life_holds_def set_update_where by force
  qed
  ultimately show ?thesis by blast
qed

lemma life_holds_purge: "life_holds key (snd (life_purge now rows)) k l \<longleftrightarrow> life_holds key rows k l"
  by (auto simp: life_holds_def life_purge_def Let_def row_simps)

lemma life_holds_tombstone:
  assumes "\<And>row. key (row\<lparr>cl_state := Tombstoned, cl_run_id := None, cl_tombstoned_at := Some now,
      cl_tombstone_expires_at := Some expires_at, cl_updated_at := now\<rparr>) = key row"
  shows "life_holds key (snd (life_tombstone run now expires_at rows)) k l \<longleftrightarrow> life_holds key rows k l"
  unfolding life_tombstone_def Let_def snd_conv by (rule life_holds_same) (use assms in auto)

lemma life_holds_heartbeat:
  assumes "\<And>row. key (row\<lparr>cl_lease_expires_at := Some e, cl_updated_at := now\<rparr>) = key row"
  shows "life_holds key (snd (life_heartbeat owned e now rows)) k l \<longleftrightarrow> life_holds key rows k l"
  unfolding life_heartbeat_def snd_conv by (rule life_holds_same) (use assms in auto)

lemma life_complete_end:
  assumes "distinct (map key rows)" "life_complete owned run now rows = Inr (True, rows')"
    and "\<And>row. owned row \<Longrightarrow> key row = k0 \<and> cl_state row = Processing \<and> cl_lease_id row = Some l0"
    and "\<And>row. key (row\<lparr>cl_state := Completed, cl_run_id := Some run, cl_lease_id := None,
      cl_lease_expires_at := None, cl_updated_at := now\<rparr>) = key row"
  shows "life_holds key rows k0 l0 \<and>
    (life_holds key rows' k l \<longleftrightarrow> life_holds key rows k l \<and> k \<noteq> k0)"
proof -
  have rows': "rows' = update_where owned (\<lambda>row. row\<lparr>cl_state := Completed, cl_run_id := Some run,
      cl_lease_id := None, cl_lease_expires_at := None, cl_updated_at := now\<rparr>) rows"
    and some: "0 < count_where owned rows"
    using assms(2) by (simp_all add: life_complete_def split: if_splits)
  show ?thesis
    unfolding rows' by (rule life_holds_release [OF assms(1) some assms(3)]) (simp_all add: assms(4))
qed

lemma life_fail_end:
  assumes "distinct (map key rows)" "life_fail owned now rows = (True, rows')"
    and "\<And>row. owned row \<Longrightarrow> key row = k0 \<and> cl_state row = Processing \<and> cl_lease_id row = Some l0"
    and "\<And>row. key (row\<lparr>cl_state := Claim_Failed, cl_run_id := None, cl_lease_id := None,
      cl_lease_expires_at := None, cl_updated_at := now\<rparr>) = key row"
  shows "life_holds key rows k0 l0 \<and>
    (life_holds key rows' k l \<longleftrightarrow> life_holds key rows k l \<and> k \<noteq> k0)"
proof -
  have rows': "rows' = update_where owned (\<lambda>row. row\<lparr>cl_state := Claim_Failed, cl_run_id := None,
      cl_lease_id := None, cl_lease_expires_at := None, cl_updated_at := now\<rparr>) rows"
    and some: "0 < count_where owned rows"
    using assms(2) by (simp_all add: life_fail_def)
  show ?thesis
    unfolding rows' by (rule life_holds_release [OF assms(1) some assms(3)]) (simp_all add: assms(4))
qed

lemma life_complete_refused: "life_complete owned run now rows = Inr (False, rows') \<Longrightarrow> rows' = rows"
  by (auto simp: life_complete_def update_where_none split: if_splits)

lemma life_fail_refused: "life_fail owned now rows = (False, rows') \<Longrightarrow> rows' = rows"
  by (auto simp: life_fail_def update_where_none)

section \<open>The contract of a claim store\<close>

record ('s, 'c, 'h) claim_store =
  st_acquire :: "'c \<Rightarrow> datetime \<Rightarrow> datetime \<Rightarrow> string \<Rightarrow> 's \<Rightarrow> claim_error + claim_result \<times> 's"
  st_heartbeat :: "'h \<Rightarrow> datetime \<Rightarrow> datetime \<Rightarrow> 's \<Rightarrow> bool \<times> 's"
  st_complete :: "'h \<Rightarrow> string \<Rightarrow> datetime \<Rightarrow> 's \<Rightarrow> claim_error + bool \<times> 's"
  st_fail :: "'h \<Rightarrow> datetime \<Rightarrow> 's \<Rightarrow> bool \<times> 's"
  st_tombstone :: "string \<Rightarrow> datetime \<Rightarrow> datetime \<Rightarrow> 's \<Rightarrow> bool \<times> 's"
  st_purge :: "datetime \<Rightarrow> 's \<Rightarrow> nat \<times> 's"

datatype ('c, 'h) claim_op =
    Acquire 'c datetime datetime string
  | Heartbeat 'h datetime datetime
  | Complete 'h string datetime
  | Fail 'h datetime
  | Bury string datetime datetime
  | Purge datetime

text \<open>The effect of one operation, with the handle whose lease it ended.\<close>

fun claim_step :: "('s, 'c, 'h) claim_store \<Rightarrow> ('c, 'h) claim_op \<Rightarrow> 's \<Rightarrow> 's \<times> 'h option" where
  "claim_step st (Acquire c now expires lease) s =
     (case st_acquire st c now expires lease s of Inl _ \<Rightarrow> (s, None) | Inr (_, s') \<Rightarrow> (s', None))"
| "claim_step st (Heartbeat h expires now) s = (snd (st_heartbeat st h expires now s), None)"
| "claim_step st (Complete h run now) s =
     (case st_complete st h run now s of
        Inl _ \<Rightarrow> (s, None)
      | Inr (ended, s') \<Rightarrow> (s', if ended then Some h else None))"
| "claim_step st (Fail h now) s =
     (case st_fail st h now s of (ended, s') \<Rightarrow> (s', if ended then Some h else None))"
| "claim_step st (Bury run now expires) s = (snd (st_tombstone st run now expires s), None)"
| "claim_step st (Purge now) s = (snd (st_purge st now s), None)"

fun ended_handles :: "('s, 'c, 'h) claim_store \<Rightarrow> ('c, 'h) claim_op list \<Rightarrow> 's \<Rightarrow> 'h list" where
  "ended_handles st [] s = []"
| "ended_handles st (op # ops) s =
     (case claim_step st op s of (s', h) \<Rightarrow>
        (case h of None \<Rightarrow> [] | Some h \<Rightarrow> [h]) @ ended_handles st ops s')"

fun drawn_leases :: "('c, 'h) claim_op list \<Rightarrow> string list" where
  "drawn_leases [] = []"
| "drawn_leases (Acquire c now expires lease # ops) = lease # drawn_leases ops"
| "drawn_leases (_ # ops) = drawn_leases ops"

text \<open>Whether an operation turns the completed claim of a run into a tombstone.\<close>

fun buries :: "string \<Rightarrow> ('c, 'h) claim_op \<Rightarrow> bool" where
  "buries run (Bury run' now expires) \<longleftrightarrow> run' = run"
| "buries run _ \<longleftrightarrow> False"

locale leased_claims =
  fixes st :: "('s, 'c, 'h) claim_store"
    and ok :: "'s \<Rightarrow> bool"
    and ckey :: "'c \<Rightarrow> 'k"
    and hkey :: "'h \<Rightarrow> 'k"
    and lease_of :: "'h \<Rightarrow> string"
    and holds :: "'s \<Rightarrow> 'k \<Rightarrow> string \<Rightarrow> bool"
  assumes step_ok: "ok s \<Longrightarrow> ok (fst (claim_step st op s))"
    and acquire_holds: "ok s \<Longrightarrow> st_acquire st c now e l s = Inr (res, s') \<Longrightarrow> acquired res \<Longrightarrow>
      holds s' k l' \<longleftrightarrow> (if k = ckey c then l' = l else holds s k l')"
    and acquire_refused: "st_acquire st c now e l s = Inr (res, s') \<Longrightarrow> \<not> acquired res \<Longrightarrow> s' = s"
    and heartbeat_holds: "holds (snd (st_heartbeat st h e now s)) k l \<longleftrightarrow> holds s k l"
    and heartbeat_owner: "fst (st_heartbeat st h e now s) \<Longrightarrow> holds s (hkey h) (lease_of h)"
    and end_holds: "ok s \<Longrightarrow> op = Complete h run now \<or> op = Fail h now \<Longrightarrow>
      claim_step st op s = (s', Some h') \<Longrightarrow>
      h' = h \<and> holds s (hkey h) (lease_of h) \<and> (holds s' k l \<longleftrightarrow> holds s k l \<and> k \<noteq> hkey h)"
    and end_refused: "op = Complete h run now \<or> op = Fail h now \<Longrightarrow>
      claim_step st op s = (s', None) \<Longrightarrow> s' = s"
    and bury_holds: "holds (snd (st_tombstone st run now e s)) k l \<longleftrightarrow> holds s k l"
    and purge_holds: "holds (snd (st_purge st now s)) k l \<longleftrightarrow> holds s k l"
begin

text \<open>One operation adds at most its own lease and moves no other lease to another key.\<close>

lemma step_holds:
  assumes "ok s" "holds (fst (claim_step st op s)) k l"
  shows "holds s k l \<or> (\<exists>c now e. op = Acquire c now e l \<and> k = ckey c)"
proof (cases op)
  case (Acquire c now e l')
  show ?thesis
  proof (cases "st_acquire st c now e l' s")
    case (Inr x)
    then obtain res s' where x: "st_acquire st c now e l' s = Inr (res, s')" by (cases x) auto
    then show ?thesis
      using assms Acquire acquire_holds [OF assms(1) x] acquire_refused [OF x]
      by (cases "acquired res") (auto split: if_splits)
  qed (use assms Acquire in simp)
next
  case (Complete h run now)
  then show ?thesis
    using assms end_holds [OF assms(1), of op h run now _ _ k l] end_refused [of op h run now s]
    by (cases "claim_step st op s"; cases "snd (claim_step st op s)") auto
next
  case (Fail h now)
  then show ?thesis
    using assms end_holds [OF assms(1), of op h _ now _ _ k l] end_refused [of op h _ now s]
    by (cases "claim_step st op s"; cases "snd (claim_step st op s)") auto
qed (use assms in \<open>simp_all add: heartbeat_holds bury_holds purge_holds\<close>)

lemma step_ends:
  assumes "ok s" "claim_step st op s = (s', Some h)"
  shows "holds s (hkey h) (lease_of h) \<and> (holds s' k l \<longrightarrow> holds s k l \<and> k \<noteq> hkey h)"
proof (cases op)
  case (Complete h' run now)
  then show ?thesis using end_holds [OF assms(1), of op h' run now s' h k l] assms(2) by auto
next
  case (Fail h' now)
  then show ?thesis using end_holds [OF assms(1), of op h' _ now s' h k l] assms(2) by auto
qed (use assms in \<open>auto split: sum.splits prod.splits\<close>)

lemma ended_once:
  "ok s \<Longrightarrow> distinct (drawn_leases ops) \<Longrightarrow>
     (\<And>k l. holds s k l \<Longrightarrow> l \<notin> set (drawn_leases ops)) \<Longrightarrow>
     (\<And>k k' l. holds s k l \<Longrightarrow> holds s k' l \<Longrightarrow> k = k') \<Longrightarrow>
     distinct (map lease_of (ended_handles st ops s)) \<and>
     (\<forall>h \<in> set (ended_handles st ops s).
        lease_of h \<in> set (drawn_leases ops) \<or> (\<exists>k. holds s k (lease_of h)))"
proof (induction ops arbitrary: s)
  case (Cons op ops)
  obtain s' h where step: "claim_step st op s = (s', h)" by (cases "claim_step st op s")
  have drawn: "set (drawn_leases ops) \<subseteq> set (drawn_leases (op # ops))"
    "distinct (drawn_leases ops)"
    "\<And>c now e l. op = Acquire c now e l \<Longrightarrow> l \<notin> set (drawn_leases ops) \<and> l \<in> set (drawn_leases (op # ops))"
    using Cons.prems(2) by (cases op; auto)+
  have new: "holds s' k l \<Longrightarrow> holds s k l \<or> (\<exists>c now e. op = Acquire c now e l \<and> k = ckey c)" for k l
    using step_holds [OF Cons.prems(1), of op k l] step by simp
  have ok': "ok s'" using step_ok [OF Cons.prems(1), of op] step by simp
  have fresh': "holds s' k l \<Longrightarrow> l \<notin> set (drawn_leases ops)" for k l
    using new [of k l] Cons.prems(3) [of k l] drawn by blast
  have unique': "holds s' k l \<Longrightarrow> holds s' k' l \<Longrightarrow> k = k'" for k k' l
    using new [of k l] new [of k' l] Cons.prems(3) [of k l] Cons.prems(3) [of k' l]
      Cons.prems(4) [of k l k'] drawn(3) by (metis claim_op.inject(1))
  have IH: "distinct (map lease_of (ended_handles st ops s')) \<and>
     (\<forall>h \<in> set (ended_handles st ops s').
        lease_of h \<in> set (drawn_leases ops) \<or> (\<exists>k. holds s' k (lease_of h)))"
    by (rule Cons.IH [OF ok' drawn(2)]) (fact fresh', fact unique')
  have sub: "lease_of x \<in> set (drawn_leases (op # ops)) \<or> (\<exists>k. holds s k (lease_of x))"
    if "x \<in> set (ended_handles st ops s')" for x
    using IH that new drawn by blast
  show ?case
  proof (cases h)
    case None
    then show ?thesis using IH sub step by simp
  next
    case (Some h0)
    have ends: "holds s (hkey h0) (lease_of h0)"
      and gone: "holds s' k l \<Longrightarrow> holds s k l \<and> k \<noteq> hkey h0" for k l
      using step_ends [OF Cons.prems(1), of op s' h0] step Some by auto
    have "\<not> holds s' k (lease_of h0)" for k
      using gone [of k "lease_of h0"] Cons.prems(4) [OF ends, of k] by blast
    moreover have "lease_of h0 \<notin> set (drawn_leases ops)"
      using Cons.prems(3) [OF ends] drawn(1) by blast
    ultimately have "lease_of h0 \<notin> lease_of ` set (ended_handles st ops s')"
      using IH by auto
    then show ?thesis using IH sub step Some ends by auto
  qed
qed simp

lemma stale_fenced:
  assumes "ok s" "st_acquire st c now e l s = Inr (res, s')" "acquired res"
    and "hkey h = ckey c" "lease_of h \<noteq> l"
  shows "\<not> fst (st_heartbeat st h e' t s') \<and>
    snd (claim_step st (Complete h run t) s') = None \<and> snd (claim_step st (Fail h t) s') = None"
proof -
  have ok': "ok s'"
    using step_ok [OF assms(1), of "Acquire c now e l"] assms(2) by simp
  have no: "\<not> holds s' (hkey h) (lease_of h)"
    using acquire_holds [OF assms(1-3)] assms(4,5) by simp
  have "snd (claim_step st op s') = None" if "op = Complete h run t \<or> op = Fail h t" for op
    using end_holds [OF ok' that] no
    by (cases "claim_step st op s'"; cases "snd (claim_step st op s')") auto
  then show ?thesis using heartbeat_owner no by blast
qed

end

text \<open>What the heartbeats of one worker answer, in their order, and the state they leave.\<close>

fun renewals :: "('s, 'c, 'h) claim_store \<Rightarrow> 'h \<Rightarrow> (datetime \<times> datetime) list \<Rightarrow> 's \<Rightarrow> bool list \<times> 's" where
  "renewals st h [] s = ([], s)"
| "renewals st h ((expires, now) # beats) s =
     (case st_heartbeat st h expires now s of
        (alive, s1) \<Rightarrow> (case renewals st h beats s1 of (answers, s2) \<Rightarrow> (alive # answers, s2)))"

text \<open>
  A store whose acquisitions always bind the row to the content of the command: the holder of
  the handle can renew and complete, and \<open>lease_until\<close> reads the expiry of the lease on a key.
\<close>

locale rebinding_claims = leased_claims st ok ckey hkey lease_of holds
  for st :: "('s, 'c, 'h) claim_store" and ok ckey hkey lease_of holds +
  fixes handle :: "'c \<Rightarrow> claim_result \<Rightarrow> claim_error + 'h"
    and run_free :: "'s \<Rightarrow> string \<Rightarrow> bool"
    and lease_until :: "'s \<Rightarrow> 'k \<Rightarrow> datetime option"
  assumes handle_owns: "ok s \<Longrightarrow> st_acquire st c now e l s = Inr (res, s') \<Longrightarrow> acquired res \<Longrightarrow>
      \<exists>h. handle c res = Inr h \<and> hkey h = ckey c \<and> lease_until s' (ckey c) = Some e \<and>
        (\<forall>e t. fst (st_heartbeat st h e t s'))"
    and renewed_owns: "fst (st_heartbeat st h e t s) \<Longrightarrow>
      fst (st_heartbeat st h e' t' (snd (st_heartbeat st h e t s)))"
    and renewed_until: "ok s \<Longrightarrow> fst (st_heartbeat st h e t s) \<Longrightarrow>
      lease_until (snd (st_heartbeat st h e t s)) (hkey h) = Some e"
    and acquire_run_free: "st_acquire st c now e l s = Inr (res, s') \<Longrightarrow> run_free s run \<Longrightarrow> run_free s' run"
    and renewed_run_free: "run_free s run \<Longrightarrow> run_free (snd (st_heartbeat st h e t s)) run"
    and owner_completes: "fst (st_heartbeat st h e t s) \<Longrightarrow> run_free s run \<Longrightarrow>
      \<exists>s'. st_complete st h run t' s = Inr (True, s')"
begin

lemma renewals_own:
  "ok s \<Longrightarrow> (\<And>e t. fst (st_heartbeat st h e t s)) \<Longrightarrow> run_free s run \<Longrightarrow> lease_until s (hkey h) = Some e0 \<Longrightarrow>
     \<exists>s'. renewals st h beats s = (replicate (length beats) True, s') \<and> ok s' \<and>
       fst (st_heartbeat st h e t s') \<and> run_free s' run \<and>
       lease_until s' (hkey h) = Some (last (e0 # map fst beats))"
proof (induction beats arbitrary: s e0)
  case (Cons b beats)
  obtain e' t' where b: "b = (e', t')" by (cases b)
  let ?s = "snd (st_heartbeat st h e' t' s)"
  have "ok ?s" using step_ok [OF Cons.prems(1), of "Heartbeat h e' t'"] by simp
  moreover have "lease_until ?s (hkey h) = Some e'" using renewed_until Cons.prems(1,2) by blast
  ultimately obtain s' where s': "renewals st h beats ?s = (replicate (length beats) True, s')" "ok s'"
      "fst (st_heartbeat st h e t s')" "run_free s' run" "lease_until s' (hkey h) = Some (last (e' # map fst beats))"
    using Cons.IH [of ?s e'] renewed_owns [OF Cons.prems(2)] renewed_run_free [OF Cons.prems(3)] by blast
  have "renewals st h (b # beats) s = (replicate (length (b # beats)) True, s')"
    using s'(1) Cons.prems(2) [of e' t'] by (auto simp: b split: prod.splits)
  with s' show ?case by (simp add: b)
qed simp

lemma worker_completes:
  assumes "ok s" "st_acquire st c now e l s = Inr (res, s')" "acquired res" "run_free s run"
  shows "\<exists>h s1 s2. handle c res = Inr h \<and> hkey h = ckey c \<and> ok s1 \<and>
    renewals st h beats s' = (replicate (length beats) True, s1) \<and>
    lease_until s1 (ckey c) = Some (last (e # map fst beats)) \<and>
    st_complete st h run t s1 = Inr (True, s2)"
proof -
  obtain h where h: "handle c res = Inr h" "hkey h = ckey c" "lease_until s' (ckey c) = Some e"
      "\<And>e t. fst (st_heartbeat st h e t s')"
    using handle_owns [OF assms(1-3)] by blast
  have free: "run_free s' run" using acquire_run_free [OF assms(2,4)] .
  have "ok s'" using step_ok [OF assms(1), of "Acquire c now e l"] assms(2) by simp
  from renewals_own [OF this h(4) free, of e] h(1-3) owner_completes
  show ?thesis by metis
qed

end

end
