(* ===== verification/Claim_Store.thy ===== *)
theory Claim_Store
  imports Idempotency
begin

text \<open>
  The two tables of idempotency claims: local uploads
  (\<^verbatim>\<open>db/repositories/ingest_requests.py\<close>) and GitHub run attempts
  (\<^verbatim>\<open>db/repositories/github_ingest_requests.py\<close>).  A write transaction is one step;
  both stores keep the contract \<open>leased_claims\<close>, and only the GitHub store rebinds a reused
  tombstone to the content of the new command.
\<close>

section \<open>Entering the write transaction\<close>

text \<open>
  The session either opens the transaction itself or has been handed one that holds the quota
  lock; every outcome of an acquisition closes it.
\<close>

record tx_state =
  tx_open :: bool
  tx_quota_lock :: bool

definition tx_refused :: "tx_state \<Rightarrow> bool" where
  "tx_refused tx \<longleftrightarrow> tx_open tx \<and> \<not> tx_quota_lock tx"

text \<open>A fresh lease id from sixteen random bytes.\<close>

definition new_lease_id :: "bytes \<Rightarrow> string" where
  "new_lease_id raw = uuid_text (stamp_uuid4 raw)"

lemma new_lease_id_canonical: "length raw = 16 \<Longrightarrow> canonical_uuid4 (new_lease_id raw)"
  by (simp add: new_lease_id_def canonical_uuid4_stamp)

section \<open>Local uploads\<close>

record local_claim_row = claim_life +
  lr_user_id :: int
  lr_token_id :: string
  lr_client_request_id :: string

definition local_key :: "local_claim_row \<Rightarrow> int \<times> string" where
  "local_key row = (lr_user_id row, lr_client_request_id row)"

definition local_existing_decision ::
    "local_claim_row \<Rightarrow> claim_command \<Rightarrow> datetime \<Rightarrow> claim_result option" where
  "local_existing_decision row command now =
     life_decision (cl_project_id row = cc_project_id command \<and>
                    cl_payload_hash row = cc_payload_hash command) now row"

text \<open>
  An insert whose parent rows are missing (\<open>parents\<close>) is an integrity error, after which the
  method calls itself with the same table: the calls only end at the recursion limit.
\<close>

definition local_acquire ::
    "(claim_command \<Rightarrow> bool) \<Rightarrow> tx_state \<Rightarrow> claim_command \<Rightarrow> datetime \<Rightarrow> datetime \<Rightarrow> string
     \<Rightarrow> local_claim_row list \<Rightarrow> claim_error + claim_result \<times> local_claim_row list" where
  "local_acquire parents tx command now lease_expires_at lease_id rows =
     (if tx_refused tx then
        Inl (Claim_RuntimeError ''idempotency acquisition requires a clean session or quota lock'')
      else case find (\<lambda>row. local_key row = (cc_user_id command, cc_client_request_id command)) rows of
        None \<Rightarrow>
          (if \<not> parents command then Inl Claim_RecursionError
           else Inr (lease_result Claim_Acquired (Some lease_id) (Some lease_expires_at),
             rows @ [\<lparr>cl_project_id = cc_project_id command,
                      cl_payload_hash = cc_payload_hash command,
                      cl_accepted_bytes = cc_accepted_bytes command, cl_state = Processing,
                      cl_run_id = None, cl_lease_id = Some lease_id,
                      cl_lease_expires_at = Some lease_expires_at, cl_tombstoned_at = None,
                      cl_tombstone_expires_at = None, cl_created_at = now, cl_updated_at = now,
                      lr_user_id = cc_user_id command, lr_token_id = cc_token_id command,
                      lr_client_request_id = cc_client_request_id command\<rparr>]))
      | Some row \<Rightarrow>
          (case local_existing_decision row command now of
             Some res \<Rightarrow> Inr (res, rows)
           | None \<Rightarrow>
               Inr (lease_result (if cl_state row = Processing then Stale_Takeover else Claim_Acquired)
                      (Some lease_id) (Some lease_expires_at),
                    update_where (\<lambda>r. local_key r = local_key row)
                      (\<lambda>r. (life_takeover (cc_accepted_bytes command) lease_id lease_expires_at now r)
                             \<lparr>lr_token_id := cc_token_id command\<rparr>) rows)))"

definition local_owned :: "idempotency_claim \<Rightarrow> local_claim_row \<Rightarrow> bool" where
  "local_owned claim row \<longleftrightarrow>
     lr_user_id row = ic_user_id claim \<and> lr_client_request_id row = ic_client_request_id claim \<and>
     cl_payload_hash row = ic_payload_hash claim \<and> cl_state row = Processing \<and>
     cl_lease_id row = Some (ic_lease_id claim)"

definition local_heartbeat ::
    "idempotency_claim \<Rightarrow> datetime \<Rightarrow> datetime \<Rightarrow> local_claim_row list \<Rightarrow> bool \<times> local_claim_row list" where
  "local_heartbeat claim = life_heartbeat (local_owned claim)"

definition local_complete ::
    "idempotency_claim \<Rightarrow> string \<Rightarrow> datetime \<Rightarrow> local_claim_row list
     \<Rightarrow> claim_error + bool \<times> local_claim_row list" where
  "local_complete claim = life_complete (local_owned claim)"

definition local_fail ::
    "idempotency_claim \<Rightarrow> datetime \<Rightarrow> local_claim_row list \<Rightarrow> bool \<times> local_claim_row list" where
  "local_fail claim = life_fail (local_owned claim)"

definition local_tombstone_completed ::
    "string \<Rightarrow> datetime \<Rightarrow> datetime \<Rightarrow> local_claim_row list \<Rightarrow> bool \<times> local_claim_row list" where
  "local_tombstone_completed = life_tombstone"

definition local_purge_expired_tombstones ::
    "datetime \<Rightarrow> local_claim_row list \<Rightarrow> nat \<times> local_claim_row list" where
  "local_purge_expired_tombstones = life_purge"

definition local_store ::
    "(claim_command \<Rightarrow> bool) \<Rightarrow> tx_state
     \<Rightarrow> (local_claim_row list, claim_command, idempotency_claim) claim_store" where
  "local_store parents tx =
     \<lparr>st_acquire = local_acquire parents tx, st_heartbeat = local_heartbeat,
      st_complete = local_complete, st_fail = local_fail,
      st_tombstone = local_tombstone_completed, st_purge = local_purge_expired_tombstones\<rparr>"

section \<open>GitHub run attempts\<close>

record github_claim_row = claim_life +
  gr_repository_id :: int
  gr_owner_id :: int
  gr_run_id :: int
  gr_run_attempt :: int

definition github_key :: "github_claim_row \<Rightarrow> int \<times> int \<times> int" where
  "github_key row = (gr_repository_id row, gr_run_id row, gr_run_attempt row)"

definition github_existing_decision ::
    "github_claim_row \<Rightarrow> github_claim_command \<Rightarrow> datetime \<Rightarrow> claim_result option" where
  "github_existing_decision row command now =
     life_decision (cl_project_id row = gc_project_id command \<and>
                    gr_owner_id row = gc_owner_id command \<and>
                    cl_payload_hash row = gc_payload_hash command) now row"

definition github_acquire ::
    "(github_claim_command \<Rightarrow> bool) \<Rightarrow> tx_state \<Rightarrow> github_claim_command \<Rightarrow> datetime \<Rightarrow> datetime
     \<Rightarrow> string \<Rightarrow> github_claim_row list \<Rightarrow> claim_error + claim_result \<times> github_claim_row list" where
  "github_acquire parents tx command now lease_expires_at lease_id rows =
     (if tx_refused tx then
        Inl (Claim_RuntimeError ''GitHub idempotency acquisition requires a clean session'')
      else case find (\<lambda>row. github_key row =
             (gc_repository_id command, gc_run_id command, gc_run_attempt command)) rows of
        None \<Rightarrow>
          (if \<not> parents command then Inl Claim_RecursionError
           else Inr (lease_result Claim_Acquired (Some lease_id) (Some lease_expires_at),
             rows @ [\<lparr>cl_project_id = gc_project_id command,
                      cl_payload_hash = gc_payload_hash command,
                      cl_accepted_bytes = gc_accepted_bytes command, cl_state = Processing,
                      cl_run_id = None, cl_lease_id = Some lease_id,
                      cl_lease_expires_at = Some lease_expires_at, cl_tombstoned_at = None,
                      cl_tombstone_expires_at = None, cl_created_at = now, cl_updated_at = now,
                      gr_repository_id = gc_repository_id command,
                      gr_owner_id = gc_owner_id command, gr_run_id = gc_run_id command,
                      gr_run_attempt = gc_run_attempt command\<rparr>]))
      | Some row \<Rightarrow>
          (case github_existing_decision row command now of
             Some res \<Rightarrow> Inr (res, rows)
           | None \<Rightarrow>
               Inr (lease_result (if cl_state row = Processing then Stale_Takeover else Claim_Acquired)
                      (Some lease_id) (Some lease_expires_at),
                    update_where (\<lambda>r. github_key r = github_key row)
                      (\<lambda>r. (life_takeover (gc_accepted_bytes command) lease_id lease_expires_at now r)
                             \<lparr>cl_project_id := gc_project_id command,
                              cl_payload_hash := gc_payload_hash command\<rparr>) rows)))"

definition github_owned :: "github_idempotency_claim \<Rightarrow> github_claim_row \<Rightarrow> bool" where
  "github_owned claim row \<longleftrightarrow>
     gr_repository_id row = gi_repository_id claim \<and> gr_run_id row = gi_run_id claim \<and>
     gr_run_attempt row = gi_run_attempt claim \<and> cl_payload_hash row = gi_payload_hash claim \<and>
     cl_state row = Processing \<and> cl_lease_id row = Some (gi_lease_id claim)"

definition github_heartbeat ::
    "github_idempotency_claim \<Rightarrow> datetime \<Rightarrow> datetime \<Rightarrow> github_claim_row list
     \<Rightarrow> bool \<times> github_claim_row list" where
  "github_heartbeat claim = life_heartbeat (github_owned claim)"

definition github_complete ::
    "github_idempotency_claim \<Rightarrow> string \<Rightarrow> datetime \<Rightarrow> github_claim_row list
     \<Rightarrow> claim_error + bool \<times> github_claim_row list" where
  "github_complete claim = life_complete (github_owned claim)"

definition github_fail ::
    "github_idempotency_claim \<Rightarrow> datetime \<Rightarrow> github_claim_row list \<Rightarrow> bool \<times> github_claim_row list" where
  "github_fail claim = life_fail (github_owned claim)"

definition github_tombstone_completed ::
    "string \<Rightarrow> datetime \<Rightarrow> datetime \<Rightarrow> github_claim_row list \<Rightarrow> bool \<times> github_claim_row list" where
  "github_tombstone_completed = life_tombstone"

definition github_purge_expired_tombstones ::
    "datetime \<Rightarrow> github_claim_row list \<Rightarrow> nat \<times> github_claim_row list" where
  "github_purge_expired_tombstones = life_purge"

definition github_store ::
    "(github_claim_command \<Rightarrow> bool) \<Rightarrow> tx_state
     \<Rightarrow> (github_claim_row list, github_claim_command, github_idempotency_claim) claim_store" where
  "github_store parents tx =
     \<lparr>st_acquire = github_acquire parents tx, st_heartbeat = github_heartbeat,
      st_complete = github_complete, st_fail = github_fail,
      st_tombstone = github_tombstone_completed, st_purge = github_purge_expired_tombstones\<rparr>"

section \<open>Both stores keep the contract\<close>

definition local_table_ok :: "local_claim_row list \<Rightarrow> bool" where
  "local_table_ok rows \<longleftrightarrow> distinct (map local_key rows)"

definition github_table_ok :: "github_claim_row list \<Rightarrow> bool" where
  "github_table_ok rows \<longleftrightarrow> distinct (map github_key rows)"

text \<open>An acquisition inserts a row, answers from the row of the key, or takes that row over.\<close>

lemma life_decision_refuses: "life_decision same now row = Some res \<Longrightarrow> \<not> acquired res"
  by (auto simp: life_decision_def acquired_def plain_result_def lease_result_def Let_def
      split: if_splits option.splits)

lemma lease_result_acquired:
  "acquired (lease_result (if b then Stale_Takeover else Claim_Acquired) l e)"
  "acquired (lease_result Claim_Acquired l e)" "acquired (lease_result Stale_Takeover l e)"
  by (simp_all add: acquired_def lease_result_def)

text \<open>
  Taking over the row of a key by an update that keeps keys and installs a lease.
\<close>

lemma takeover_holds:
  assumes "distinct (map key rows)" "row \<in> set rows" "key row = k0"
    and "\<And>r. key (f r) = key r \<and> cl_state (f r) = Processing \<and> cl_lease_id (f r) = Some l0"
  shows "life_holds key (update_where (\<lambda>r. key r = k0) f rows) k l \<longleftrightarrow>
    (if k = k0 then l = l0 else life_holds key rows k l)"
  unfolding life_holds_def set_update_where bex_simps using assms by auto

lemma insert_holds:
  assumes "k0 \<notin> key ` set rows" "key new = k0" "cl_state new = Processing" "cl_lease_id new = Some l0"
  shows "life_holds key (rows @ [new]) k l \<longleftrightarrow> (if k = k0 then l = l0 else life_holds key rows k l)"
  unfolding life_holds_def using assms by (auto simp: image_iff)

lemma local_acquire_cases:
  assumes ok: "local_table_ok rows"
    and res: "local_acquire parents tx c now e lease rows = Inr (res, rows')"
  shows "\<not> acquired res \<and> rows' = rows \<or>
    acquired res \<and> local_table_ok rows' \<and>
      (life_holds local_key rows' k l \<longleftrightarrow>
         (if k = (cc_user_id c, cc_client_request_id c) then l = lease else life_holds local_key rows k l))"
proof (cases "find (\<lambda>row. local_key row = (cc_user_id c, cc_client_request_id c)) rows")
  case None
  then have new: "(cc_user_id c, cc_client_request_id c) \<notin> local_key ` set rows" by (auto simp: find_None_iff)
  obtain row where row: "rows' = rows @ [row]" "local_key row = (cc_user_id c, cc_client_request_id c)"
      "cl_state row = Processing" "cl_lease_id row = Some lease" "acquired res"
    using res None by (auto simp: local_acquire_def local_key_def lease_result_acquired split: if_splits)
  with insert_holds [OF new row(2-4)] ok new show ?thesis by (simp add: local_table_ok_def)
next
  case (Some row)
  note row = find_SomeD [OF Some]
  show ?thesis
  proof (cases "local_existing_decision row c now")
    case (Some d)
    with res \<open>find _ rows = Some row\<close> show ?thesis
      using life_decision_refuses by (auto simp: local_acquire_def local_existing_decision_def split: if_splits)
  next
    case None
    define f where "f = (\<lambda>r :: local_claim_row. (life_takeover (cc_accepted_bytes c) lease e now r)\<lparr>lr_token_id := cc_token_id c\<rparr>)"
    have keep: "local_key (f r) = local_key r \<and> cl_state (f r) = Processing \<and> cl_lease_id (f r) = Some lease" for r
      by (simp add: f_def local_key_def life_takeover_def)
    have "local_key row = (cc_user_id c, cc_client_request_id c)" using row by simp
    then have f: "rows' = update_where (\<lambda>r. local_key r = (cc_user_id c, cc_client_request_id c)) f rows" "acquired res"
      using res None \<open>find _ rows = Some row\<close>
      by (auto simp: local_acquire_def f_def lease_result_acquired split: if_splits)
    have "map local_key rows' = map local_key rows" unfolding f by (rule map_key_update_where) (simp add: keep)
    with f takeover_holds [of local_key rows row, OF _ _ _ keep] row ok show ?thesis
      by (simp add: local_table_ok_def)
  qed
qed

lemma local_owned_life:
  "local_owned h row \<Longrightarrow> local_key row = (ic_user_id h, ic_client_request_id h) \<and>
     cl_state row = Processing \<and> cl_lease_id row = Some (ic_lease_id h)"
  by (simp add: local_owned_def local_key_def)

lemma local_key_life:
  "local_key (row\<lparr>cl_state := a\<rparr>) = local_key row"
  "local_key (row\<lparr>cl_run_id := b\<rparr>) = local_key row"
  "local_key (row\<lparr>cl_lease_id := b\<rparr>) = local_key row"
  "local_key (row\<lparr>cl_lease_expires_at := d\<rparr>) = local_key row"
  "local_key (row\<lparr>cl_tombstoned_at := d\<rparr>) = local_key row"
  "local_key (row\<lparr>cl_tombstone_expires_at := d\<rparr>) = local_key row"
  "local_key (row\<lparr>cl_updated_at := u\<rparr>) = local_key row"
  by (simp_all add: local_key_def)

lemma local_end_cases:
  assumes ok: "local_table_ok rows" and op: "op = Complete h run now \<or> op = Fail h now"
    and step: "claim_step (local_store parents tx) op rows = (rows', Some h')"
  shows "h' = h \<and> life_holds local_key rows (ic_user_id h, ic_client_request_id h) (ic_lease_id h) \<and>
    (life_holds local_key rows' k l \<longleftrightarrow>
       life_holds local_key rows k l \<and> k \<noteq> (ic_user_id h, ic_client_request_id h))"
  using op
proof
  assume "op = Complete h run now"
  then have "local_complete h run now rows = Inr (True, rows')" "h' = h"
    using step by (auto simp: local_store_def split: sum.splits if_splits)
  then show ?thesis
    using life_complete_end [OF ok [unfolded local_table_ok_def] _ local_owned_life]
    by (simp add: local_complete_def local_key_life)
next
  assume "op = Fail h now"
  then have "local_fail h now rows = (True, rows')" "h' = h"
    using step by (auto simp: local_store_def split: prod.splits if_splits)
  then show ?thesis
    using life_fail_end [OF ok [unfolded local_table_ok_def] _ local_owned_life]
    by (simp add: local_fail_def local_key_life)
qed

lemma local_end_refused:
  assumes "op = Complete h run now \<or> op = Fail h now"
    and "claim_step (local_store parents tx) op rows = (rows', None)"
  shows "rows' = rows"
  using assms life_complete_refused [of "local_owned h" run now rows rows']
    life_fail_refused [of "local_owned h" now rows rows']
  by (auto simp: local_store_def local_complete_def local_fail_def split: sum.splits prod.splits if_splits)

lemma local_step_ok: "local_table_ok rows \<Longrightarrow> local_table_ok (fst (claim_step (local_store parents tx) op rows))"
proof (cases op)
  case (Acquire c now e lease)
  assume ok: "local_table_ok rows"
  show ?thesis
    using local_acquire_cases [OF ok, of parents tx c now e lease _ _ undefined undefined] ok Acquire
    by (auto simp: local_store_def split: sum.splits prod.splits)
qed (auto simp: local_store_def local_heartbeat_def local_complete_def local_fail_def
    local_tombstone_completed_def local_purge_expired_tombstones_def life_heartbeat_def
    life_complete_def life_fail_def life_tombstone_def life_purge_def local_table_ok_def local_key_life
    row_simps Let_def)

interpretation local: leased_claims "local_store parents tx" local_table_ok
  "\<lambda>c. (cc_user_id c, cc_client_request_id c)" "\<lambda>h. (ic_user_id h, ic_client_request_id h)" ic_lease_id "life_holds local_key"
proof unfold_locales
  fix rows op
  assume "local_table_ok rows"
  then show "local_table_ok (fst (claim_step (local_store parents tx) op rows))" by (rule local_step_ok)
next
  fix rows c now e lease res rows' k l
  assume "local_table_ok rows"
    "st_acquire (local_store parents tx) c now e lease rows = Inr (res, rows')" "acquired res"
  then show "life_holds local_key rows' k l \<longleftrightarrow>
      (if k = (cc_user_id c, cc_client_request_id c) then l = lease else life_holds local_key rows k l)"
    using local_acquire_cases [of rows parents tx c now e lease res rows' k l] by (simp add: local_store_def)
next
  fix rows c now e lease res rows'
  assume "st_acquire (local_store parents tx) c now e lease rows = Inr (res, rows')" "\<not> acquired res"
  then show "rows' = rows"
    by (auto simp: local_store_def local_acquire_def lease_result_acquired split: if_splits option.splits)
next
  fix h e now rows k l
  show "life_holds local_key (snd (st_heartbeat (local_store parents tx) h e now rows)) k l \<longleftrightarrow>
      life_holds local_key rows k l"
    by (simp add: local_store_def local_heartbeat_def life_holds_heartbeat local_key_life)
next
  fix h e now rows
  assume "fst (st_heartbeat (local_store parents tx) h e now rows)"
  then show "life_holds local_key rows (ic_user_id h, ic_client_request_id h) (ic_lease_id h)"
    using local_owned_life
    by (fastforce simp: local_store_def local_heartbeat_def life_heartbeat_def count_where_pos life_holds_def)
next
  fix rows op h run now rows' h' k l
  assume "local_table_ok rows" "op = Complete h run now \<or> op = Fail h now"
    "claim_step (local_store parents tx) op rows = (rows', Some h')"
  then show "h' = h \<and> life_holds local_key rows (ic_user_id h, ic_client_request_id h) (ic_lease_id h) \<and>
      (life_holds local_key rows' k l \<longleftrightarrow>
         life_holds local_key rows k l \<and> k \<noteq> (ic_user_id h, ic_client_request_id h))"
    by (rule local_end_cases)
next
  fix op h run now rows rows'
  assume "op = Complete h run now \<or> op = Fail h now"
    "claim_step (local_store parents tx) op rows = (rows', None)"
  then show "rows' = rows" by (rule local_end_refused)
qed (simp_all add: local_store_def local_tombstone_completed_def local_purge_expired_tombstones_def
    life_holds_tombstone life_holds_purge local_key_life)

lemma github_acquire_cases:
  assumes ok: "github_table_ok rows"
    and res: "github_acquire parents tx c now e lease rows = Inr (res, rows')"
  shows "\<not> acquired res \<and> rows' = rows \<or>
    acquired res \<and> github_table_ok rows' \<and>
      (life_holds github_key rows' k l \<longleftrightarrow>
         (if k = (gc_repository_id c, gc_run_id c, gc_run_attempt c) then l = lease else life_holds github_key rows k l))"
proof (cases "find (\<lambda>row. github_key row = (gc_repository_id c, gc_run_id c, gc_run_attempt c)) rows")
  case None
  then have new: "(gc_repository_id c, gc_run_id c, gc_run_attempt c) \<notin> github_key ` set rows" by (auto simp: find_None_iff)
  obtain row where row: "rows' = rows @ [row]" "github_key row = (gc_repository_id c, gc_run_id c, gc_run_attempt c)"
      "cl_state row = Processing" "cl_lease_id row = Some lease" "acquired res"
    using res None by (auto simp: github_acquire_def github_key_def lease_result_acquired split: if_splits)
  with insert_holds [OF new row(2-4)] ok new show ?thesis by (simp add: github_table_ok_def)
next
  case (Some row)
  note row = find_SomeD [OF Some]
  show ?thesis
  proof (cases "github_existing_decision row c now")
    case (Some d)
    with res \<open>find _ rows = Some row\<close> show ?thesis
      using life_decision_refuses by (auto simp: github_acquire_def github_existing_decision_def split: if_splits)
  next
    case None
    define f where "f = (\<lambda>r :: github_claim_row. (life_takeover (gc_accepted_bytes c) lease e now r)\<lparr>cl_project_id := gc_project_id c,
        cl_payload_hash := gc_payload_hash c\<rparr>)"
    have keep: "github_key (f r) = github_key r \<and> cl_state (f r) = Processing \<and> cl_lease_id (f r) = Some lease" for r
      by (simp add: f_def github_key_def life_takeover_def)
    have "github_key row = (gc_repository_id c, gc_run_id c, gc_run_attempt c)" using row by simp
    then have f: "rows' = update_where (\<lambda>r. github_key r = (gc_repository_id c, gc_run_id c, gc_run_attempt c)) f rows" "acquired res"
      using res None \<open>find _ rows = Some row\<close>
      by (auto simp: github_acquire_def f_def lease_result_acquired split: if_splits)
    have "map github_key rows' = map github_key rows" unfolding f by (rule map_key_update_where) (simp add: keep)
    with f takeover_holds [of github_key rows row, OF _ _ _ keep] row ok show ?thesis
      by (simp add: github_table_ok_def)
  qed
qed

lemma github_owned_life:
  "github_owned h row \<Longrightarrow> github_key row = (gi_repository_id h, gi_run_id h, gi_run_attempt h) \<and>
     cl_state row = Processing \<and> cl_lease_id row = Some (gi_lease_id h)"
  by (simp add: github_owned_def github_key_def)

lemma github_key_life:
  "github_key (row\<lparr>cl_state := a\<rparr>) = github_key row"
  "github_key (row\<lparr>cl_run_id := b\<rparr>) = github_key row"
  "github_key (row\<lparr>cl_lease_id := b\<rparr>) = github_key row"
  "github_key (row\<lparr>cl_lease_expires_at := d\<rparr>) = github_key row"
  "github_key (row\<lparr>cl_tombstoned_at := d\<rparr>) = github_key row"
  "github_key (row\<lparr>cl_tombstone_expires_at := d\<rparr>) = github_key row"
  "github_key (row\<lparr>cl_updated_at := u\<rparr>) = github_key row"
  by (simp_all add: github_key_def)

lemma github_end_cases:
  assumes ok: "github_table_ok rows" and op: "op = Complete h run now \<or> op = Fail h now"
    and step: "claim_step (github_store parents tx) op rows = (rows', Some h')"
  shows "h' = h \<and> life_holds github_key rows (gi_repository_id h, gi_run_id h, gi_run_attempt h) (gi_lease_id h) \<and>
    (life_holds github_key rows' k l \<longleftrightarrow>
       life_holds github_key rows k l \<and> k \<noteq> (gi_repository_id h, gi_run_id h, gi_run_attempt h))"
  using op
proof
  assume "op = Complete h run now"
  then have "github_complete h run now rows = Inr (True, rows')" "h' = h"
    using step by (auto simp: github_store_def split: sum.splits if_splits)
  then show ?thesis
    using life_complete_end [OF ok [unfolded github_table_ok_def] _ github_owned_life]
    by (simp add: github_complete_def github_key_life)
next
  assume "op = Fail h now"
  then have "github_fail h now rows = (True, rows')" "h' = h"
    using step by (auto simp: github_store_def split: prod.splits if_splits)
  then show ?thesis
    using life_fail_end [OF ok [unfolded github_table_ok_def] _ github_owned_life]
    by (simp add: github_fail_def github_key_life)
qed

lemma github_end_refused:
  assumes "op = Complete h run now \<or> op = Fail h now"
    and "claim_step (github_store parents tx) op rows = (rows', None)"
  shows "rows' = rows"
  using assms life_complete_refused [of "github_owned h" run now rows rows']
    life_fail_refused [of "github_owned h" now rows rows']
  by (auto simp: github_store_def github_complete_def github_fail_def split: sum.splits prod.splits if_splits)

lemma github_step_ok: "github_table_ok rows \<Longrightarrow> github_table_ok (fst (claim_step (github_store parents tx) op rows))"
proof (cases op)
  case (Acquire c now e lease)
  assume ok: "github_table_ok rows"
  show ?thesis
    using github_acquire_cases [OF ok, of parents tx c now e lease _ _ undefined undefined] ok Acquire
    by (auto simp: github_store_def split: sum.splits prod.splits)
qed (auto simp: github_store_def github_heartbeat_def github_complete_def github_fail_def
    github_tombstone_completed_def github_purge_expired_tombstones_def life_heartbeat_def
    life_complete_def life_fail_def life_tombstone_def life_purge_def github_table_ok_def github_key_life
    row_simps Let_def)

interpretation github: leased_claims "github_store parents tx" github_table_ok
  "\<lambda>c. (gc_repository_id c, gc_run_id c, gc_run_attempt c)" "\<lambda>h. (gi_repository_id h, gi_run_id h, gi_run_attempt h)" gi_lease_id "life_holds github_key"
proof unfold_locales
  fix rows op
  assume "github_table_ok rows"
  then show "github_table_ok (fst (claim_step (github_store parents tx) op rows))" by (rule github_step_ok)
next
  fix rows c now e lease res rows' k l
  assume "github_table_ok rows"
    "st_acquire (github_store parents tx) c now e lease rows = Inr (res, rows')" "acquired res"
  then show "life_holds github_key rows' k l \<longleftrightarrow>
      (if k = (gc_repository_id c, gc_run_id c, gc_run_attempt c) then l = lease else life_holds github_key rows k l)"
    using github_acquire_cases [of rows parents tx c now e lease res rows' k l] by (simp add: github_store_def)
next
  fix rows c now e lease res rows'
  assume "st_acquire (github_store parents tx) c now e lease rows = Inr (res, rows')" "\<not> acquired res"
  then show "rows' = rows"
    by (auto simp: github_store_def github_acquire_def lease_result_acquired split: if_splits option.splits)
next
  fix h e now rows k l
  show "life_holds github_key (snd (st_heartbeat (github_store parents tx) h e now rows)) k l \<longleftrightarrow>
      life_holds github_key rows k l"
    by (simp add: github_store_def github_heartbeat_def life_holds_heartbeat github_key_life)
next
  fix h e now rows
  assume "fst (st_heartbeat (github_store parents tx) h e now rows)"
  then show "life_holds github_key rows (gi_repository_id h, gi_run_id h, gi_run_attempt h) (gi_lease_id h)"
    using github_owned_life
    by (fastforce simp: github_store_def github_heartbeat_def life_heartbeat_def count_where_pos life_holds_def)
next
  fix rows op h run now rows' h' k l
  assume "github_table_ok rows" "op = Complete h run now \<or> op = Fail h now"
    "claim_step (github_store parents tx) op rows = (rows', Some h')"
  then show "h' = h \<and> life_holds github_key rows (gi_repository_id h, gi_run_id h, gi_run_attempt h) (gi_lease_id h) \<and>
      (life_holds github_key rows' k l \<longleftrightarrow>
         life_holds github_key rows k l \<and> k \<noteq> (gi_repository_id h, gi_run_id h, gi_run_attempt h))"
    by (rule github_end_cases)
next
  fix op h run now rows rows'
  assume "op = Complete h run now \<or> op = Fail h now"
    "claim_step (github_store parents tx) op rows = (rows', None)"
  then show "rows' = rows" by (rule github_end_refused)
qed (simp_all add: github_store_def github_tombstone_completed_def github_purge_expired_tombstones_def
    life_holds_tombstone life_holds_purge github_key_life)

definition claim_run_free :: "github_claim_row list \<Rightarrow> string \<Rightarrow> bool" where
  "claim_run_free rows run \<longleftrightarrow> list_all (\<lambda>row. cl_run_id row \<noteq> Some run) rows"

lemma heartbeat_owned:
  "github_owned h (row\<lparr>cl_lease_expires_at := d, cl_updated_at := u\<rparr>) = github_owned h row"
  by (simp add: github_owned_def)

lemma github_acquired_owned:
  assumes ok: "github_table_ok rows"
    and res: "github_acquire parents tx c now e lease rows = Inr (res, rows')" "acquired res"
  shows "\<exists>h row. github_claim_handle c res = Inr h \<and> row \<in> set rows' \<and> github_owned h row \<and>
    (gi_repository_id h, gi_run_id h, gi_run_attempt h) =
      (gc_repository_id c, gc_run_id c, gc_run_attempt c) \<and> cl_lease_expires_at row = Some e \<and>
    (claim_run_free rows run \<longrightarrow> claim_run_free rows' run)"
proof -
  define h where "h = \<lparr>gi_repository_id = gc_repository_id c, gi_owner_id = gc_owner_id c,
    gi_run_id = gc_run_id c, gi_run_attempt = gc_run_attempt c,
    gi_payload_hash = gc_payload_hash c, gi_lease_id = lease, gi_lease_expires_at = e\<rparr>"
  have h: "github_claim_handle c (lease_result d (Some lease) (Some e)) = Inr h"
    if "d = Claim_Acquired \<or> d = Stale_Takeover" for d
    using that by (auto simp: github_claim_handle_def lease_result_def acquired_def h_def)
  show ?thesis
  proof (cases "find (\<lambda>row. github_key row = (gc_repository_id c, gc_run_id c, gc_run_attempt c)) rows")
    case None
    then show ?thesis using res h [of Claim_Acquired]
      by (auto simp: github_acquire_def github_owned_def h_def claim_run_free_def split: if_splits)
  next
    case (Some row)
    define f where "f = (\<lambda>r :: github_claim_row. (life_takeover (gc_accepted_bytes c) lease e now r)
      \<lparr>cl_project_id := gc_project_id c, cl_payload_hash := gc_payload_hash c\<rparr>)"
    have none: "github_existing_decision row c now = None"
      using res Some life_decision_refuses
      by (cases "github_existing_decision row c now")
        (auto simp: github_acquire_def github_existing_decision_def split: if_splits)
    have rows': "rows' = update_where (\<lambda>r. github_key r = github_key row) f rows"
      and "\<exists>d. res = lease_result d (Some lease) (Some e) \<and> (d = Claim_Acquired \<or> d = Stale_Takeover)"
      using res Some none by (auto simp: github_acquire_def f_def split: if_splits)
    then have "github_claim_handle c res = Inr h" using h by blast
    moreover have "f row \<in> set rows'"
      unfolding rows' set_update_where using find_SomeD [OF Some] by (intro image_eqI [of _ _ row]) auto
    moreover have "github_owned h (f row)"
      using find_SomeD [OF Some]
      by (simp add: github_owned_def h_def f_def life_takeover_def github_key_def)
    moreover have "claim_run_free rows' run" if "claim_run_free rows run"
      using that unfolding rows' claim_run_free_def list_all_iff ball_update_where
      by (simp add: f_def life_takeover_def)
    moreover have "(gi_repository_id h, gi_run_id h, gi_run_attempt h) =
        (gc_repository_id c, gc_run_id c, gc_run_attempt c)" "cl_lease_expires_at (f row) = Some e"
      by (simp_all add: h_def f_def life_takeover_def)
    ultimately show ?thesis by blast
  qed
qed

text \<open>When the lease on the row of a key runs out.\<close>

definition github_lease_until :: "github_claim_row list \<Rightarrow> int \<times> int \<times> int \<Rightarrow> datetime option" where
  "github_lease_until rows key =
     (case find (\<lambda>row. github_key row = key) rows of None \<Rightarrow> None | Some row \<Rightarrow> cl_lease_expires_at row)"

lemma github_lease_until_row:
  "github_table_ok rows \<Longrightarrow> row \<in> set rows \<Longrightarrow> github_lease_until rows (github_key row) = cl_lease_expires_at row"
  using find_unique [of github_key rows row] by (simp add: github_lease_until_def github_table_ok_def)

lemma github_renewed_until:
  assumes ok: "github_table_ok rows" and alive: "fst (github_heartbeat h e t rows)"
  shows "github_lease_until (snd (github_heartbeat h e t rows))
    (gi_repository_id h, gi_run_id h, gi_run_attempt h) = Some e"
proof -
  define f where "f = (\<lambda>row :: github_claim_row. row\<lparr>cl_lease_expires_at := Some e, cl_updated_at := t\<rparr>)"
  have rows': "snd (github_heartbeat h e t rows) = update_where (github_owned h) f rows"
    by (simp add: github_heartbeat_def life_heartbeat_def f_def)
  obtain row where row: "row \<in> set rows" "github_owned h row"
    using alive by (auto simp: github_heartbeat_def life_heartbeat_def count_where_pos)
  have "f row \<in> set (update_where (github_owned h) f rows)"
    unfolding set_update_where using row by (intro image_eqI [of _ _ row]) auto
  moreover have "github_table_ok (update_where (github_owned h) f rows)"
    using ok by (simp add: github_table_ok_def row_simps f_def github_key_life)
  ultimately have "github_lease_until (update_where (github_owned h) f rows) (github_key (f row)) = Some e"
    by (simp add: github_lease_until_row f_def)
  then show ?thesis using github_owned_life [OF row(2)] by (simp add: rows' f_def github_key_life)
qed

interpretation github_rebinding: rebinding_claims "github_store parents tx" github_table_ok
  "\<lambda>c. (gc_repository_id c, gc_run_id c, gc_run_attempt c)"
  "\<lambda>h. (gi_repository_id h, gi_run_id h, gi_run_attempt h)" gi_lease_id "life_holds github_key"
  github_claim_handle claim_run_free github_lease_until
proof unfold_locales
  fix rows c now e lease res rows'
  assume a: "github_table_ok rows"
    "st_acquire (github_store parents tx) c now e lease rows = Inr (res, rows')" "acquired res"
  then have acq: "github_acquire parents tx c now e lease rows = Inr (res, rows')" by (simp add: github_store_def)
  have ok: "github_table_ok rows'"
    using github_acquire_cases [OF a(1) acq, of undefined undefined] a(3) by blast
  obtain h row where h: "github_claim_handle c res = Inr h" "row \<in> set rows'" "github_owned h row"
      "(gi_repository_id h, gi_run_id h, gi_run_attempt h) = (gc_repository_id c, gc_run_id c, gc_run_attempt c)"
      "cl_lease_expires_at row = Some e"
    using github_acquired_owned [OF a(1) acq a(3)] by blast
  have "github_lease_until rows' (gc_repository_id c, gc_run_id c, gc_run_attempt c) = Some e"
    using github_lease_until_row [OF ok h(2)] github_owned_life [OF h(3)] h(4,5) by simp
  with h show "\<exists>h. github_claim_handle c res = Inr h \<and>
      (gi_repository_id h, gi_run_id h, gi_run_attempt h) = (gc_repository_id c, gc_run_id c, gc_run_attempt c) \<and>
      github_lease_until rows' (gc_repository_id c, gc_run_id c, gc_run_attempt c) = Some e \<and>
      (\<forall>e t. fst (st_heartbeat (github_store parents tx) h e t rows'))"
    by (fastforce simp: github_store_def github_heartbeat_def life_heartbeat_def count_where_pos)
next
  fix h e t rows
  assume "github_table_ok rows" "fst (st_heartbeat (github_store parents tx) h e t rows)"
  then show "github_lease_until (snd (st_heartbeat (github_store parents tx) h e t rows))
      (gi_repository_id h, gi_run_id h, gi_run_attempt h) = Some e"
    by (simp add: github_store_def github_renewed_until)
next
  fix h e t rows e' t'
  assume "fst (st_heartbeat (github_store parents tx) h e t rows)"
  then obtain row where row: "row \<in> set rows" "github_owned h row"
    by (auto simp: github_store_def github_heartbeat_def life_heartbeat_def count_where_pos)
  define f where "f = (\<lambda>row :: github_claim_row. row\<lparr>cl_lease_expires_at := Some e, cl_updated_at := t\<rparr>)"
  have "f row \<in> set (update_where (github_owned h) f rows)"
    unfolding set_update_where using row by (intro image_eqI [of _ _ row]) auto
  moreover have "github_owned h (f row)" using row by (simp add: f_def heartbeat_owned)
  ultimately show "fst (st_heartbeat (github_store parents tx) h e' t'
      (snd (st_heartbeat (github_store parents tx) h e t rows)))"
    unfolding github_store_def github_heartbeat_def life_heartbeat_def
    by (auto simp: count_where_pos f_def)
next
  fix c now e lease rows res rows' run
  assume a: "st_acquire (github_store parents tx) c now e lease rows = Inr (res, rows')"
    and free: "claim_run_free rows run"
  show "claim_run_free rows' run"
    using a free
    by (auto simp: github_store_def github_acquire_def claim_run_free_def list_all_iff
        life_takeover_def update_where_def split: if_splits option.splits)
next
  fix rows run h e t
  assume "claim_run_free rows run"
  then show "claim_run_free (snd (st_heartbeat (github_store parents tx) h e t rows)) run"
    by (auto simp: github_store_def github_heartbeat_def life_heartbeat_def claim_run_free_def
        list_all_iff update_where_def)
next
  fix h e t rows run t'
  assume "fst (st_heartbeat (github_store parents tx) h e t rows)" "claim_run_free rows run"
  then show "\<exists>rows'. st_complete (github_store parents tx) h run t' rows = Inr (True, rows')"
    by (auto simp: github_store_def github_heartbeat_def life_heartbeat_def github_complete_def
        life_complete_def claim_run_free_def list_all_iff)
qed

section \<open>What the stores guarantee\<close>

lemma nothing_held: "\<not> life_holds key [] k l"
  by (simp add: life_holds_def)

text \<open>
  C14.  Whatever the interleaving of workers, heartbeats, retries, tombstones and purges, every
  lease ends at most one claim, by completing or by failing it: no upload is completed twice
  under one lease, in either table.
\<close>

theorem claims_ended_once:
  assumes "distinct (drawn_leases ops)" "distinct (drawn_leases github_ops)"
  shows "distinct (map ic_lease_id (ended_handles (local_store parents tx) ops [])) \<and>
    distinct (map gi_lease_id (ended_handles (github_store github_parents tx) github_ops []))"
proof
  show "distinct (map ic_lease_id (ended_handles (local_store parents tx) ops []))"
    by (rule local.ended_once [THEN conjunct1]) (simp_all add: assms local_table_ok_def nothing_held)
  show "distinct (map gi_lease_id (ended_handles (github_store github_parents tx) github_ops []))"
    by (rule github.ended_once [THEN conjunct1]) (simp_all add: assms github_table_ok_def nothing_held)
qed

text \<open>
  C33.  Once a claim is acquired under a new lease, a worker that still carries an older lease
  for the same request can neither renew, complete nor fail it, and its attempts change nothing.
\<close>

theorem stale_worker_fenced:
  assumes "local_table_ok rows"
    and "local_acquire parents tx c now e lease rows = Inr (res, rows')" "acquired res"
    and "(ic_user_id h, ic_client_request_id h) = (cc_user_id c, cc_client_request_id c)"
    and "ic_lease_id h \<noteq> lease"
  shows "local_heartbeat h e' t rows' = (False, rows') \<and>
    local_complete h run t rows' = Inr (False, rows') \<and> local_fail h t rows' = (False, rows')"
proof -
  have "\<not> fst (local_heartbeat h e' t rows')"
    using local.stale_fenced [of rows parents tx c now e lease res rows' h e' t run] assms
    by (simp add: local_store_def)
  then have "count_where (local_owned h) rows' = 0"
    by (simp add: local_heartbeat_def life_heartbeat_def)
  then show ?thesis
    by (simp add: local_heartbeat_def local_complete_def local_fail_def life_heartbeat_def
        life_complete_def life_fail_def update_where_none)
qed

lemma local_acquired_row:
  assumes ok: "local_table_ok rows"
    and res: "local_acquire parents tx c now e lease rows = Inr (res, rows')" "acquired res"
    and live: "list_all (\<lambda>row. local_key row = (cc_user_id c, cc_client_request_id c) \<longrightarrow>
      cl_state row \<noteq> Tombstoned \<or> cl_project_id row = cc_project_id c) rows"
  shows "list_all (\<lambda>row. local_key row = (cc_user_id c, cc_client_request_id c) \<longrightarrow>
    cl_project_id row = cc_project_id c) rows'"
proof (cases "find (\<lambda>row. local_key row = (cc_user_id c, cc_client_request_id c)) rows")
  case None
  then obtain row where "rows' = rows @ [row]" "cl_project_id row = cc_project_id c"
    using res by (auto simp: local_acquire_def split: if_splits)
  with None show ?thesis by (auto simp: find_None_iff list_all_iff)
next
  case (Some row)
  note row = find_SomeD [OF Some]
  have none: "local_existing_decision row c now = None"
    using res Some life_decision_refuses
    by (cases "local_existing_decision row c now")
      (auto simp: local_acquire_def local_existing_decision_def split: if_splits)
  have same: "cl_project_id row = cc_project_id c"
    using none live row
    by (auto simp: local_existing_decision_def life_decision_def list_all_iff split: if_splits)
  have only: "r = row" if "r \<in> set rows" "local_key r = local_key row" for r
    using ok distinct_key_eq [of local_key rows r row] that row by (auto simp: local_table_ok_def)
  have rows': "rows' = update_where (\<lambda>r. local_key r = local_key row)
      (\<lambda>r. (life_takeover (cc_accepted_bytes c) lease e now r)\<lparr>lr_token_id := cc_token_id c\<rparr>) rows"
    using res Some none by (auto simp: local_acquire_def split: if_splits)
  show ?thesis
    unfolding rows' list_all_iff ball_update_where using row same only
    by (auto simp: life_takeover_def local_key_def)
qed

lemma local_completed_row:
  assumes "local_complete h run t rows = Inr (True, rows')"
  shows "\<exists>r \<in> set rows. local_owned h r \<and> r\<lparr>cl_state := Completed, cl_run_id := Some run, cl_lease_id := None,
    cl_lease_expires_at := None, cl_updated_at := t\<rparr> \<in> set rows'"
proof -
  obtain r where "r \<in> set rows" "local_owned h r"
    using assms by (auto simp: local_complete_def life_complete_def count_where_pos split: if_splits)
  then show ?thesis
    using assms by (auto simp: local_complete_def life_complete_def set_update_where split: if_splits)
qed

lemma update_where_keeps: "row \<in> set rows \<Longrightarrow> \<not> p row \<Longrightarrow> row \<in> set (update_where p f rows)"
  by (force simp: set_update_where)

text \<open>
  A completed row stays as it is under every operation that does not bury its run: an
  acquisition of its key is answered from it, its lease is gone, and a purge spares it.
\<close>

lemma local_completed_stays:
  assumes ok: "local_table_ok rows" and row: "row \<in> set rows" "cl_state row = Completed" "cl_run_id row = Some run"
    and other: "\<not> buries run op"
  shows "row \<in> set (fst (claim_step (local_store parents tx) op rows))"
proof (cases op)
  case (Acquire c now e lease)
  have "row \<in> set rows'" if res: "local_acquire parents tx c now e lease rows = Inr (res, rows')" for res rows'
  proof (cases "find (\<lambda>r. local_key r = (cc_user_id c, cc_client_request_id c)) rows")
    case None
    then show ?thesis using res row by (auto simp: local_acquire_def split: if_splits)
  next
    case (Some r)
    note r = find_SomeD [OF Some]
    show ?thesis
    proof (cases "local_existing_decision r c now")
      case None
      have "r \<noteq> row"
        using None row by (auto simp: local_existing_decision_def life_decision_def split: if_splits)
      then have "local_key row \<noteq> local_key r"
        using ok distinct_key_eq [of local_key rows r row] r row by (auto simp: local_table_ok_def)
      then show ?thesis
        using res Some None row by (auto simp: local_acquire_def update_where_keeps split: if_splits)
    qed (use res Some row in \<open>auto simp: local_acquire_def split: if_splits\<close>)
  qed
  then show ?thesis using row Acquire by (auto simp: local_store_def split: sum.splits)
qed (use row other in \<open>auto simp: local_store_def local_heartbeat_def local_complete_def local_fail_def
    local_tombstone_completed_def local_purge_expired_tombstones_def life_heartbeat_def
    life_complete_def life_fail_def life_tombstone_def life_purge_def local_owned_def
    update_where_keeps row_simps Let_def\<close>)

text \<open>What transactions in a row make of the table; each has its own session.\<close>

definition local_transactions ::
    "((claim_command \<Rightarrow> bool) \<times> tx_state \<times> (claim_command, idempotency_claim) claim_op) list
     \<Rightarrow> local_claim_row list \<Rightarrow> local_claim_row list" where
  "local_transactions steps rows =
     fold (\<lambda>(parents, tx, op) rows. fst (claim_step (local_store parents tx) op rows)) steps rows"

lemma local_completed_remains:
  "local_table_ok rows \<Longrightarrow> row \<in> set rows \<Longrightarrow> cl_state row = Completed \<Longrightarrow> cl_run_id row = Some run \<Longrightarrow>
     list_all (\<lambda>(_, _, op). \<not> buries run op) steps \<Longrightarrow>
     local_table_ok (local_transactions steps rows) \<and> row \<in> set (local_transactions steps rows)"
proof (induction steps arbitrary: rows)
  case (Cons step steps)
  obtain parents tx op where step: "step = (parents, tx, op)" by (cases step)
  show ?case
    using Cons.IH [OF local_step_ok [OF Cons.prems(1), of parents tx op]
        local_completed_stays [OF Cons.prems(1-4), of op parents tx]] Cons.prems
    by (simp add: step local_transactions_def)
qed (simp add: local_transactions_def)

text \<open>
  C18.  Exactly one run per request, until that run is tombstoned: a worker completed a claim onto a
  run, and after that any transactions of any sessions ran on the table (acquisitions of
  this and other requests, heartbeats, completions, failures, purges, tombstones of other runs).  Then
  an upload under the same request id is never processed again, at whatever time: with the project and
  the payload hash of the completed upload it is answered with that run, with others as a
  conflict, and the table stays as it is.  The claim may have been acquired over an old row;
  if that was an expired tombstone, it must have named the same project.  Once the run is tombstoned the
  property ends: an expired tombstone can be acquired again.
\<close>

theorem completed_claim_replays:
  assumes ok: "local_table_ok rows"
    and live: "list_all (\<lambda>row. local_key row = (cc_user_id c, cc_client_request_id c) \<longrightarrow>
      cl_state row \<noteq> Tombstoned \<or> cl_project_id row = cc_project_id c) rows"
    and acq: "local_acquire parents tx c now e lease rows = Inr (res, rows1)" "acquired res"
    and handle: "claim_handle c res = Inr h"
    and fin: "local_complete h run t rows1 = Inr (True, rows2)"
    and later: "list_all (\<lambda>(_, _, op). \<not> buries run op) steps" "local_transactions steps rows2 = rows3"
    and again: "cc_user_id c' = cc_user_id c" "cc_client_request_id c' = cc_client_request_id c"
      "\<not> tx_refused tx'"
  shows "local_acquire parents' tx' c' now' e' lease' rows3 =
    Inr (if cc_project_id c' = cc_project_id c \<and> cc_payload_hash c' = cc_payload_hash c
         then \<lparr>cr_decision = Replay, cr_lease_id = None, cr_lease_expires_at = None, cr_run_id = Some run\<rparr>
         else plain_result Claim_Conflict, rows3)"
proof -
  let ?key = "(cc_user_id c, cc_client_request_id c)"
  have ok1: "local_table_ok rows1"
    using local_acquire_cases [OF ok acq(1), of undefined undefined] acq(2) by blast
  have ok2: "local_table_ok rows2"
    using local_step_ok [OF ok1, of parents tx "Complete h run t"] fin by (simp add: local_store_def)
  obtain r r2 where r: "r \<in> set rows1" "local_owned h r" "r2 \<in> set rows2"
    and fields: "r2 = r\<lparr>cl_state := Completed, cl_run_id := Some run, cl_lease_id := None,
      cl_lease_expires_at := None, cl_updated_at := t\<rparr>"
    using local_completed_row [OF fin] by blast
  have "(ic_user_id h, ic_client_request_id h) = ?key" "ic_payload_hash h = cc_payload_hash c"
    using handle by (auto simp: claim_handle_def split: bool.splits option.splits)
  then have key: "local_key r = ?key" "cl_payload_hash r = cc_payload_hash c"
    using local_owned_life [OF r(2)] r(2) by (simp_all add: local_owned_def)
  moreover have "cl_project_id r = cc_project_id c"
    using local_acquired_row [OF ok acq live] r(1) key(1) by (simp add: list_all_iff)
  ultimately have row: "local_key r2 = ?key" "cl_state r2 = Completed" "cl_run_id r2 = Some run"
      "cl_project_id r2 = cc_project_id c" "cl_payload_hash r2 = cc_payload_hash c"
    by (simp_all add: fields local_key_life)
  have "local_table_ok rows3" "r2 \<in> set rows3"
    using local_completed_remains [OF ok2 r(3) row(2,3) later(1)] later(2) by simp_all
  then have "find (\<lambda>row. local_key row = ?key) rows3 = Some r2"
    using find_unique [of local_key rows3 r2] row(1) by (simp add: local_table_ok_def)
  then show ?thesis
    using row again by (simp add: local_acquire_def local_existing_decision_def life_decision_def plain_result_def)
qed

lemma github_completed_row:
  assumes "github_complete h run t rows = Inr (True, rows')"
  shows "\<exists>row \<in> set rows'. github_key row = (gi_repository_id h, gi_run_id h, gi_run_attempt h) \<and>
    cl_state row = Completed \<and> cl_run_id row = Some run"
proof -
  obtain row where "row \<in> set rows" "github_owned h row"
    using assms by (auto simp: github_complete_def life_complete_def count_where_pos split: if_splits)
  then show ?thesis
    using assms github_owned_life [of h row]
    by (auto simp: github_complete_def life_complete_def set_update_where github_key_life split: if_splits
        intro!: bexI [of _ "row\<lparr>cl_state := Completed, cl_run_id := Some run, cl_lease_id := None,
          cl_lease_expires_at := None, cl_updated_at := t\<rparr>"])
qed

text \<open>
  C34.  The worker that acquired the claim of a GitHub run attempt can renew it any number of times in a row:
  every heartbeat answers that the lease is still held and moves the expiry to the time it asked
  for.  It can then complete the claim onto a fresh run: the completion answers true and
  the row of the run attempt is completed with that run, whatever the row contained before.
\<close>

theorem github_worker_completes:
  assumes "github_table_ok rows"
    and "github_acquire parents tx c now e lease rows = Inr (res, rows')" "acquired res"
    and "claim_run_free rows run"
  shows "\<exists>h rows1 rows2. github_claim_handle c res = Inr h \<and>
    renewals (github_store parents tx) h beats rows' = (replicate (length beats) True, rows1) \<and>
    github_lease_until rows1 (gc_repository_id c, gc_run_id c, gc_run_attempt c) =
      Some (last (e # map fst beats)) \<and>
    github_complete h run t rows1 = Inr (True, rows2) \<and>
    (\<exists>row \<in> set rows2. github_key row = (gc_repository_id c, gc_run_id c, gc_run_attempt c) \<and>
       cl_state row = Completed \<and> cl_run_id row = Some run)"
proof -
  have "st_acquire (github_store parents tx) c now e lease rows = Inr (res, rows')"
    using assms(2) by (simp add: github_store_def)
  from github_rebinding.worker_completes [OF assms(1) this assms(3,4), of beats t]
  show ?thesis using github_completed_row by (fastforce simp: github_store_def)
qed

text \<open>
  The local table lacks that guarantee.  When a request id comes back with other content
  after its tombstone expired, the upload is told that it acquired the claim, but its handle can
  never renew, complete or fail it, and a repetition of the upload is answered as a conflict.
\<close>

theorem reused_tombstone_stuck:
  assumes ok: "local_table_ok rows" and tx: "\<not> tx_refused tx"
    and row: "row \<in> set rows" "local_key row = (cc_user_id c, cc_client_request_id c)"
    and dead: "cl_state row = Tombstoned" "cl_tombstone_expires_at row = Some expiry"
      "dt_le (normalise_utc expiry) now"
    and other: "cl_payload_hash row \<noteq> cc_payload_hash c"
  shows "\<exists>res rows' h. local_acquire parents tx c now e lease rows = Inr (res, rows') \<and>
    cr_decision res = Claim_Acquired \<and> claim_handle c res = Inr h \<and>
    (\<forall>e' t run. local_heartbeat h e' t rows' = (False, rows') \<and>
       local_complete h run t rows' = Inr (False, rows') \<and> local_fail h t rows' = (False, rows')) \<and>
    (\<forall>now' e' lease'. local_acquire parents tx c now' e' lease' rows' =
       Inr (plain_result Claim_Conflict, rows'))"
proof -
  let ?key = "(cc_user_id c, cc_client_request_id c)"
  define f where "f = (\<lambda>r :: local_claim_row. (life_takeover (cc_accepted_bytes c) lease e now r)\<lparr>lr_token_id := cc_token_id c\<rparr>)"
  define rows' where "rows' = update_where (\<lambda>r. local_key r = local_key row) f rows"
  define h where "h = \<lparr>ic_user_id = cc_user_id c, ic_client_request_id = cc_client_request_id c,
    ic_payload_hash = cc_payload_hash c, ic_lease_id = lease, ic_lease_expires_at = e\<rparr>"
  have find: "find (\<lambda>r. local_key r = ?key) rows = Some row"
    using find_unique [OF ok [unfolded local_table_ok_def] row(1)] row(2) by simp
  have only: "r = row" if "r \<in> set rows" "local_key r = ?key" for r
    using ok distinct_key_eq [of local_key rows r row] that row by (simp add: local_table_ok_def)
  have none: "local_existing_decision row c now = None"
    using dead by (simp add: local_existing_decision_def life_decision_def dt_le_def dt_less_def)
  have acq: "local_acquire parents tx c now e lease rows =
      Inr (lease_result Claim_Acquired (Some lease) (Some e), rows')"
    using tx find none dead by (simp add: local_acquire_def rows'_def f_def)
  have handle: "claim_handle c (lease_result Claim_Acquired (Some lease) (Some e)) = Inr h"
    by (simp add: claim_handle_def lease_result_def acquired_def h_def)
  have content: "list_all (\<lambda>r. local_key r = ?key \<longrightarrow> cl_payload_hash r \<noteq> cc_payload_hash c) rows'"
  proof -
    have "local_key (f r) = local_key r" "cl_payload_hash (f r) = cl_payload_hash r" for r
      by (simp_all add: f_def life_takeover_def local_key_def)
    then show ?thesis
      unfolding rows'_def list_all_iff ball_update_where using only other by metis
  qed
  have no: "count_where (local_owned h) rows' = 0"
    using content by (auto simp: count_where_zero list_all_iff local_owned_def h_def local_key_def)
  have stuck: "local_heartbeat h e' t rows' = (False, rows') \<and>
      local_complete h run t rows' = Inr (False, rows') \<and> local_fail h t rows' = (False, rows')" for e' t run
    using no by (simp add: local_heartbeat_def local_complete_def local_fail_def life_heartbeat_def
        life_complete_def life_fail_def update_where_none)
  have "find (\<lambda>r. local_key r = ?key) rows' = Some (f row)"
    unfolding rows'_def using find_update_where [of "\<lambda>r. local_key r = local_key row" local_key f ?key rows] find row
    by (simp add: f_def life_takeover_def local_key_def)
  moreover have "local_existing_decision (f row) c now' = Some (plain_result Claim_Conflict)" for now'
    using other by (simp add: local_existing_decision_def life_decision_def f_def life_takeover_def)
  ultimately have "local_acquire parents tx c now' e' lease' rows' =
      Inr (plain_result Claim_Conflict, rows')" for now' e' lease'
    using tx by (simp add: local_acquire_def)
  with acq handle stuck show ?thesis by (fastforce simp: lease_result_def)
qed

section \<open>The guarantees on concrete tables\<close>

definition sample_tx :: tx_state where "sample_tx = \<lparr>tx_open = False, tx_quota_lock = False\<rparr>"

definition sample_command :: claim_command where
  "sample_command = \<lparr>cc_user_id = 1, cc_token_id = ''t'', cc_client_request_id = ''q'',
     cc_project_id = 2, cc_payload_hash = ''h'', cc_accepted_bytes = 3\<rparr>"

definition sample_handle :: "string \<Rightarrow> idempotency_claim" where
  "sample_handle lease = \<lparr>ic_user_id = 1, ic_client_request_id = ''q'', ic_payload_hash = ''h'',
     ic_lease_id = lease, ic_lease_expires_at = utc 300\<rparr>"

definition sample_row :: "claim_state \<Rightarrow> string \<Rightarrow> local_claim_row" where
  "sample_row state h = \<lparr>cl_project_id = 2, cl_payload_hash = h, cl_accepted_bytes = 3,
     cl_state = state, cl_run_id = None, cl_lease_id = Some ''old'',
     cl_lease_expires_at = Some (utc 0), cl_tombstoned_at = None,
     cl_tombstone_expires_at = Some (utc 0), cl_created_at = utc 0, cl_updated_at = utc 0,
     lr_user_id = 1, lr_token_id = ''t'', lr_client_request_id = ''q''\<rparr>"

lemmas sample_defs = sample_tx_def sample_command_def sample_handle_def sample_row_def

definition sample_github_command :: github_claim_command where
  "sample_github_command = \<lparr>gc_repository_id = 1, gc_owner_id = 2, gc_run_id = 3,
     gc_run_attempt = 1, gc_project_id = 2, gc_payload_hash = ''h'', gc_accepted_bytes = 3\<rparr>"

lemma sample_refused: "\<not> tx_refused sample_tx"
  by (simp add: tx_refused_def sample_tx_def)

theorem claims_ended_once_witness:
  "ended_handles (local_store (\<lambda>c. True) sample_tx)
     [Acquire sample_command (utc 0) (utc 300) ''l'', Complete (sample_handle ''l'') ''r'' (utc 1),
      Fail (sample_handle ''l'') (utc 2)] [] = [sample_handle ''l''] \<and>
   distinct (map ic_lease_id (ended_handles (local_store (\<lambda>c. True) sample_tx)
     [Acquire sample_command (utc 0) (utc 300) ''l'', Complete (sample_handle ''l'') ''r'' (utc 1),
      Fail (sample_handle ''l'') (utc 2)] []))"
  (is "?run = _ \<and> _")
proof
  show "?run = [sample_handle ''l'']"
    by (simp add: local_store_def local_acquire_def sample_refused local_complete_def local_fail_def
        life_complete_def life_fail_def local_owned_def sample_command_def sample_handle_def
        count_where_def update_where_def)
  show "distinct (map ic_lease_id ?run)"
    using claims_ended_once [of "[Acquire sample_command (utc 0) (utc 300) ''l'',
      Complete (sample_handle ''l'') ''r'' (utc 1), Fail (sample_handle ''l'') (utc 2)]" "[]"]
    by simp
qed

theorem stale_worker_fenced_witness:
  "\<exists>res rows'. local_acquire (\<lambda>c. True) sample_tx sample_command (utc 5) (utc 300) ''new''
     [sample_row Processing ''h''] = Inr (res, rows') \<and> cr_decision res = Stale_Takeover \<and>
     local_complete (sample_handle ''old'') ''r'' (utc 6) rows' = Inr (False, rows')"
proof -
  have acq: "\<exists>res rows'. local_acquire (\<lambda>c. True) sample_tx sample_command (utc 5) (utc 300) ''new''
     [sample_row Processing ''h''] = Inr (res, rows') \<and> cr_decision res = Stale_Takeover \<and> acquired res"
    by (simp add: local_acquire_def sample_refused local_key_def sample_command_def sample_row_def
        local_existing_decision_def life_decision_def dt_less_def dt_simps normalise_aware
        lease_result_acquired) (simp add: lease_result_def)
  then obtain res rows' where r: "local_acquire (\<lambda>c. True) sample_tx sample_command (utc 5) (utc 300)
      ''new'' [sample_row Processing ''h''] = Inr (res, rows')" "cr_decision res = Stale_Takeover" "acquired res"
    by blast
  have "local_table_ok [sample_row Processing ''h'']" by (simp add: local_table_ok_def)
  from stale_worker_fenced [OF this r(1,3), where h = "sample_handle ''old''" and run = "''r''" and t = "utc 6"] r
  show ?thesis by (auto simp: sample_defs)
qed

theorem completed_claim_replays_witness:
  "\<exists>rows1 rows2 rows3. local_acquire (\<lambda>c. True) sample_tx sample_command (utc 0) (utc 300) ''l'' [] =
     Inr (lease_result Claim_Acquired (Some ''l'') (Some (utc 300)), rows1) \<and>
     local_complete (sample_handle ''l'') ''r'' (utc 6) rows1 = Inr (True, rows2) \<and>
     rows3 = local_transactions [(\<lambda>c. True, sample_tx, Bury ''other'' (utc 7) (utc 8)),
       (\<lambda>c. True, sample_tx, Purge (utc 9)), (\<lambda>c. True, sample_tx, Fail (sample_handle ''l'') (utc 9))] rows2 \<and>
     (\<exists>res. local_acquire (\<lambda>c. True) sample_tx sample_command (utc 10) (utc 300) ''m'' rows3 =
        Inr (res, rows3) \<and> cr_decision res = Replay \<and> cr_run_id res = Some ''r'')"
proof -
  obtain rows1 where acq: "local_acquire (\<lambda>c. True) sample_tx sample_command (utc 0) (utc 300) ''l'' [] =
      Inr (lease_result Claim_Acquired (Some ''l'') (Some (utc 300)), rows1)"
    and rows1: "rows1 = [\<lparr>cl_project_id = 2, cl_payload_hash = ''h'', cl_accepted_bytes = 3,
      cl_state = Processing, cl_run_id = None, cl_lease_id = Some ''l'',
      cl_lease_expires_at = Some (utc 300), cl_tombstoned_at = None, cl_tombstone_expires_at = None,
      cl_created_at = utc 0, cl_updated_at = utc 0, lr_user_id = 1, lr_token_id = ''t'',
      lr_client_request_id = ''q''\<rparr>]"
    by (simp add: local_acquire_def sample_refused sample_command_def)
  obtain rows2 where fin: "local_complete (sample_handle ''l'') ''r'' (utc 6) rows1 = Inr (True, rows2)"
    by (simp add: rows1 local_complete_def life_complete_def local_owned_def sample_handle_def count_where_def)
  have handle: "claim_handle sample_command (lease_result Claim_Acquired (Some ''l'') (Some (utc 300))) =
      Inr (sample_handle ''l'')"
    by (simp add: claim_handle_def lease_result_def acquired_def sample_defs)
  let ?steps = "[(\<lambda>c. True, sample_tx, Bury ''other'' (utc 7) (utc 8)), (\<lambda>c. True, sample_tx, Purge (utc 9)),
      (\<lambda>c. True, sample_tx, Fail (sample_handle ''l'') (utc 9))]"
  have start: "local_table_ok []" and steps: "list_all (\<lambda>(_, _, op). \<not> buries ''r'' op) ?steps"
    by (simp_all add: local_table_ok_def)
  from completed_claim_replays [OF start _ acq lease_result_acquired(2) handle fin steps refl refl refl sample_refused,
      of "\<lambda>c. True" "utc 10" "utc 300" "''m''"] acq fin
  show ?thesis by auto
qed

theorem github_worker_completes_witness:
  "\<exists>h rows' rows1 rows2. github_acquire (\<lambda>c. True) sample_tx sample_github_command (utc 0) (utc 300) ''l'' [] =
     Inr (lease_result Claim_Acquired (Some ''l'') (Some (utc 300)), rows') \<and>
     renewals (github_store (\<lambda>c. True) sample_tx) h [(utc 305, utc 5), (utc 400, utc 100)] rows' =
       ([True, True], rows1) \<and>
     github_lease_until rows1 (1, 3, 1) = Some (utc 400) \<and>
     github_complete h ''r'' (utc 399) rows1 = Inr (True, rows2)"
proof -
  obtain rows' where acq: "github_acquire (\<lambda>c. True) sample_tx sample_github_command (utc 0) (utc 300) ''l'' [] =
      Inr (lease_result Claim_Acquired (Some ''l'') (Some (utc 300)), rows')"
    by (simp add: github_acquire_def sample_refused sample_github_command_def)
  have "github_table_ok []" "claim_run_free [] ''r''" by (simp_all add: github_table_ok_def claim_run_free_def)
  from github_worker_completes [OF this(1) acq lease_result_acquired(2) this(2),
      of "[(utc 305, utc 5), (utc 400, utc 100)]" "utc 399"]
  show ?thesis using acq by (auto simp: sample_github_command_def)
qed

theorem reused_tombstone_stuck_witness:
  "\<exists>res rows' h. local_acquire (\<lambda>c. True) sample_tx sample_command (utc 5) (utc 300) ''new''
     [sample_row Tombstoned ''other''] = Inr (res, rows') \<and> cr_decision res = Claim_Acquired \<and>
     local_complete h ''r'' (utc 6) rows' = Inr (False, rows')"
proof -
  have "local_table_ok [sample_row Tombstoned ''other'']" by (simp add: local_table_ok_def)
  from reused_tombstone_stuck [OF this sample_refused, of "sample_row Tombstoned ''other''" sample_command
      "utc 0" "utc 5" "\<lambda>c. True" "utc 300" "''new''"]
  show ?thesis
    by (fastforce simp: sample_row_def sample_command_def local_key_def dt_le_def dt_simps normalise_aware)
qed

end
