(* ===== verification/Usage_Quota.thy ===== *)
theory Usage_Quota
  imports Contracts Claim_Store
begin

text \<open>
  Usage limits of uploads: the two policies (\<^verbatim>\<open>ingestion/usage_quota\<close>) and the
  reservations that evaluate them on the tables (\<^verbatim>\<open>ingest_usage.py\<close>,
  \<^verbatim>\<open>github_ingest_usage.py\<close>).  A reservation reads its snapshot and writes its charge
  under the one quota lock, so it is one step.
\<close>

section \<open>Commands, snapshots and decisions\<close>

datatype quota_decision =
    Quota_Allowed | Quota_Disabled | Token_Hourly_Rate | User_Daily_Rate | Token_Inflight
  | User_Inflight | Instance_Inflight | Shared_Instance_Inflight | User_Retained_Storage
  | Instance_Retained_Storage | User_Daily_Bytes

record quota_command =
  qc_user_id :: int
  qc_token_id :: string
  qc_client_request_id :: string
  qc_accepted_bytes :: int
  qc_enabled :: bool
  qc_project_id :: int
  qc_payload_hash :: string
  qc_correlation_id :: string

record usage_snapshot =
  sn_token_uploads_hour :: int
  sn_user_uploads_day :: int
  sn_token_inflight :: int
  sn_user_inflight :: int
  sn_instance_inflight :: int
  sn_shared_instance_inflight :: int
  sn_user_retained_bytes :: int
  sn_instance_retained_bytes :: int
  sn_user_accepted_bytes_day :: int

definition empty_snapshot :: usage_snapshot where
  "empty_snapshot = \<lparr>sn_token_uploads_hour = 0, sn_user_uploads_day = 0, sn_token_inflight = 0,
     sn_user_inflight = 0, sn_instance_inflight = 0, sn_shared_instance_inflight = 0,
     sn_user_retained_bytes = 0, sn_instance_retained_bytes = 0, sn_user_accepted_bytes_day = 0\<rparr>"

definition snapshot_values :: "usage_snapshot \<Rightarrow> int list" where
  "snapshot_values s =
     [sn_token_uploads_hour s, sn_user_uploads_day s, sn_token_inflight s, sn_user_inflight s,
      sn_instance_inflight s, sn_shared_instance_inflight s, sn_user_retained_bytes s,
      sn_instance_retained_bytes s, sn_user_accepted_bytes_day s]"

record usage_reservation =
  rv_user_id :: int
  rv_token_id :: string
  rv_client_request_id :: string
  rv_accepted_bytes :: int
  rv_reserved_at :: datetime

record quota_result =
  qr_decision :: quota_decision
  qr_reservation :: "usage_reservation option"
  qr_retry_after_seconds :: "int option"

datatype github_quota_decision =
    Github_Allowed | Repository_Hourly_Rate | Owner_Daily_Rate | Repository_Inflight
  | Github_Instance_Inflight | Owner_Daily_Bytes

record github_quota_command =
  gq_project_id :: int
  gq_repository_id :: int
  gq_owner_id :: int
  gq_run_id :: int
  gq_run_attempt :: int
  gq_accepted_bytes :: int
  gq_payload_hash :: string
  gq_correlation_id :: string

record github_usage_snapshot =
  gn_repository_uploads_hour :: int
  gn_owner_uploads_day :: int
  gn_repository_inflight :: int
  gn_instance_inflight :: int
  gn_owner_accepted_bytes_day :: int

definition empty_github_snapshot :: github_usage_snapshot where
  "empty_github_snapshot = \<lparr>gn_repository_uploads_hour = 0, gn_owner_uploads_day = 0,
     gn_repository_inflight = 0, gn_instance_inflight = 0, gn_owner_accepted_bytes_day = 0\<rparr>"

definition github_snapshot_values :: "github_usage_snapshot \<Rightarrow> int list" where
  "github_snapshot_values s =
     [gn_repository_uploads_hour s, gn_owner_uploads_day s, gn_repository_inflight s,
      gn_instance_inflight s, gn_owner_accepted_bytes_day s]"

record github_usage_reservation =
  gv_repository_id :: int
  gv_owner_id :: int
  gv_run_id :: int
  gv_run_attempt :: int
  gv_accepted_bytes :: int
  gv_reserved_at :: datetime

record github_quota_result =
  gqr_decision :: github_quota_decision
  gqr_reservation :: "github_usage_reservation option"
  gqr_retry_after_seconds :: "int option"

datatype quota_error =
  Quota_ValueError string | Quota_RuntimeError string | Quota_IntegrityError

section \<open>The policies\<close>

definition validate_quota :: "quota_command \<Rightarrow> usage_snapshot \<Rightarrow> quota_error + unit" where
  "validate_quota command snapshot =
     (if qc_user_id command \<le> 0 \<or> qc_token_id command = [] \<or> qc_client_request_id command = []
      then Inl (Quota_ValueError ''quota identity fields must be present'')
      else if list_ex (\<lambda>v. v < 0) (qc_accepted_bytes command # snapshot_values snapshot)
      then Inl (Quota_ValueError ''quota byte and counter values must be non-negative integers'')
      else Inr ())"

definition quota_checks ::
    "usage_limits \<Rightarrow> shared_usage_limits \<Rightarrow> quota_command \<Rightarrow> usage_snapshot
     \<Rightarrow> (bool \<times> quota_decision) list" where
  "quota_checks limits shared command s =
     [(uploads_per_token_hour limits \<le> sn_token_uploads_hour s, Token_Hourly_Rate),
      (uploads_per_user_day limits \<le> sn_user_uploads_day s, User_Daily_Rate),
      (inflight_per_token limits \<le> sn_token_inflight s, Token_Inflight),
      (inflight_per_user limits \<le> sn_user_inflight s, User_Inflight),
      (inflight_per_instance limits \<le> sn_instance_inflight s, Instance_Inflight),
      (shared_inflight_per_instance shared \<le> sn_shared_instance_inflight s, Shared_Instance_Inflight),
      (retained_bytes_per_user limits < sn_user_retained_bytes s + qc_accepted_bytes command,
       User_Retained_Storage),
      (retained_bytes_per_instance limits < sn_instance_retained_bytes s + qc_accepted_bytes command,
       Instance_Retained_Storage),
      (accepted_bytes_per_user_day limits < sn_user_accepted_bytes_day s + qc_accepted_bytes command,
       User_Daily_Bytes)]"

definition decide_usage_quota ::
    "usage_limits \<Rightarrow> shared_usage_limits \<Rightarrow> quota_command \<Rightarrow> usage_snapshot
     \<Rightarrow> quota_error + quota_decision" where
  "decide_usage_quota limits shared command snapshot =
     (case validate_quota command snapshot of
        Inl e \<Rightarrow> Inl e
      | Inr _ \<Rightarrow>
          if \<not> qc_enabled command then Inr Quota_Disabled
          else Inr (first_exceeded (quota_checks limits shared command snapshot) Quota_Allowed))"

definition validate_github_quota ::
    "github_quota_command \<Rightarrow> github_usage_snapshot \<Rightarrow> quota_error + unit" where
  "validate_github_quota command snapshot =
     (if list_ex (\<lambda>v. v \<le> 0) [gq_project_id command, gq_repository_id command, gq_owner_id command,
          gq_run_id command, gq_run_attempt command]
      then Inl (Quota_ValueError ''GitHub quota identity fields must be positive integers'')
      else if list_ex (\<lambda>v. v < 0) (gq_accepted_bytes command # github_snapshot_values snapshot)
      then Inl (Quota_ValueError
        ''GitHub quota byte and counter values must be non-negative integers'')
      else Inr ())"

definition github_quota_checks ::
    "github_usage_limits \<Rightarrow> shared_usage_limits \<Rightarrow> github_quota_command \<Rightarrow> github_usage_snapshot
     \<Rightarrow> (bool \<times> github_quota_decision) list" where
  "github_quota_checks limits shared command s =
     [(uploads_per_repository_hour limits \<le> gn_repository_uploads_hour s, Repository_Hourly_Rate),
      (uploads_per_owner_day limits \<le> gn_owner_uploads_day s, Owner_Daily_Rate),
      (inflight_per_repository limits \<le> gn_repository_inflight s, Repository_Inflight),
      (shared_inflight_per_instance shared \<le> gn_instance_inflight s, Github_Instance_Inflight),
      (accepted_bytes_per_owner_day limits < gn_owner_accepted_bytes_day s + gq_accepted_bytes command,
       Owner_Daily_Bytes)]"

definition decide_github_usage_quota ::
    "github_usage_limits \<Rightarrow> shared_usage_limits \<Rightarrow> github_quota_command \<Rightarrow> github_usage_snapshot
     \<Rightarrow> quota_error + github_quota_decision" where
  "decide_github_usage_quota limits shared command snapshot =
     (case validate_github_quota command snapshot of
        Inl e \<Rightarrow> Inl e
      | Inr _ \<Rightarrow> Inr (first_exceeded (github_quota_checks limits shared command snapshot) Github_Allowed))"

text \<open>The entry points over a repository port.\<close>

definition reserve_usage ::
    "(usage_limits \<Rightarrow> shared_usage_limits \<Rightarrow> quota_command \<Rightarrow> datetime \<Rightarrow> 's
        \<Rightarrow> quota_error + quota_result \<times> 's)
     \<Rightarrow> usage_limits \<Rightarrow> shared_usage_limits \<Rightarrow> quota_command \<Rightarrow> datetime \<Rightarrow> 's
     \<Rightarrow> quota_error + quota_result \<times> 's" where
  "reserve_usage reserve limits shared command now s =
     (case validate_quota command empty_snapshot of
        Inl e \<Rightarrow> Inl e
      | Inr _ \<Rightarrow>
          if \<not> aware now then Inl (Quota_ValueError ''quota timestamp must be timezone-aware'')
          else if \<not> qc_enabled command
          then Inr (\<lparr>qr_decision = Quota_Disabled, qr_reservation = None, qr_retry_after_seconds = None\<rparr>, s)
          else reserve limits shared command now s)"

definition reserve_github_usage ::
    "(github_usage_limits \<Rightarrow> shared_usage_limits \<Rightarrow> github_quota_command \<Rightarrow> datetime \<Rightarrow> 's
        \<Rightarrow> quota_error + github_quota_result \<times> 's)
     \<Rightarrow> github_usage_limits \<Rightarrow> shared_usage_limits \<Rightarrow> github_quota_command \<Rightarrow> datetime \<Rightarrow> 's
     \<Rightarrow> quota_error + github_quota_result \<times> 's" where
  "reserve_github_usage reserve limits shared command now s =
     (case validate_github_quota command empty_github_snapshot of
        Inl e \<Rightarrow> Inl e
      | Inr _ \<Rightarrow>
          if \<not> aware now then Inl (Quota_ValueError ''quota timestamp must be timezone-aware'')
          else reserve limits shared command now s)"

lemma quota_allowed_iff:
  "decide_usage_quota limits shared command snapshot = Inr Quota_Allowed \<longleftrightarrow>
     validate_quota command snapshot = Inr () \<and> qc_enabled command \<and>
     list_all (\<lambda>(exceeded, d). \<not> exceeded) (quota_checks limits shared command snapshot)"
proof -
  have "Quota_Allowed \<notin> snd ` set (quota_checks limits shared command snapshot)"
    by (simp add: quota_checks_def)
  from first_exceeded_fallback_iff [OF this]
  have "first_exceeded (quota_checks limits shared command snapshot) Quota_Allowed = Quota_Allowed \<longleftrightarrow>
      list_all (\<lambda>(exceeded, d). \<not> exceeded) (quota_checks limits shared command snapshot)"
    by (simp add: list_all_iff)
  then show ?thesis by (auto simp: decide_usage_quota_def split: sum.split)
qed

lemma github_quota_allowed_iff:
  "decide_github_usage_quota limits shared command snapshot = Inr Github_Allowed \<longleftrightarrow>
     validate_github_quota command snapshot = Inr () \<and>
     list_all (\<lambda>(exceeded, d). \<not> exceeded) (github_quota_checks limits shared command snapshot)"
proof -
  have "Github_Allowed \<notin> snd ` set (github_quota_checks limits shared command snapshot)"
    by (simp add: github_quota_checks_def)
  from first_exceeded_fallback_iff [OF this]
  have "first_exceeded (github_quota_checks limits shared command snapshot) Github_Allowed = Github_Allowed \<longleftrightarrow>
      list_all (\<lambda>(exceeded, d). \<not> exceeded) (github_quota_checks limits shared command snapshot)"
    by (simp add: list_all_iff)
  then show ?thesis by (auto simp: decide_github_usage_quota_def split: sum.split)
qed

end
