(* ===== verification/Usage_Store.thy ===== *)
theory Usage_Store
  imports Usage_Quota
begin

text \<open>
  Reservations over the tables: charges, claims and retained artifacts.  An allowed reservation
  leaves its write transaction open; the idempotency claim commits it.
\<close>

section \<open>Tables\<close>

record usage_charge =
  ch_correlation_id :: string
  ch_origin :: string
  ch_accepted_bytes :: int
  ch_local_user_id :: "int option"
  ch_local_token_id :: "string option"
  ch_repository_id :: "int option"
  ch_owner_id :: "int option"
  ch_charged_at :: datetime
  ch_expires_at :: datetime

text \<open>
  Retained artifacts are the rows of the join of artifacts with the runs of local origin: the
  submitting user and the size.
\<close>

record quota_db =
  qd_locks :: "string list"
  qd_charges :: "usage_charge list"
  qd_local :: "local_claim_row list"
  qd_github :: "github_claim_row list"
  qd_retained :: "(int option \<times> int) list"

record db_session =
  ds_in_transaction :: bool
  ds_sqlite :: bool

definition acquire_global_ingest_quota_lock :: "db_session \<Rightarrow> quota_db \<Rightarrow> quota_error + quota_db" where
  "acquire_global_ingest_quota_lock session db =
     (if ds_in_transaction session
      then Inl (Quota_RuntimeError ''quota reservation requires a clean session'')
      else if \<not> ds_sqlite session
      then Inl (Quota_RuntimeError ''ingest quota locking requires the supported SQLite database'')
      else Inr (if ''global'' \<in> set (qd_locks db) then db
                else db\<lparr>qd_locks := qd_locks db @ [''global'']\<rparr>))"

text \<open>Midnight of the day in UTC.\<close>

definition utc_day_start :: "datetime \<Rightarrow> datetime" where
  "utc_day_start now = utc (dt_instant now div days 1 * days 1)"

text \<open>A claim that is processed under a lease beyond \<open>now\<close>; a missing expiry is no lease in SQL.\<close>

definition in_flight :: "datetime \<Rightarrow> 'a claim_life_scheme \<Rightarrow> bool" where
  "in_flight now row \<longleftrightarrow> cl_state row = Processing \<and>
     (case cl_lease_expires_at row of None \<Rightarrow> False | Some e \<Rightarrow> dt_less now e)"

definition validate_binding :: "int \<Rightarrow> string \<Rightarrow> string \<Rightarrow> quota_error + unit" where
  "validate_binding project_id payload_hash correlation_id =
     (if project_id \<le> 0 \<or> \<not> sha256_hex payload_hash
      then Inl (Quota_ValueError ''quota reservation requires a canonical project and payload hash'')
      else if \<not> canonical_uuid correlation_id
      then Inl (Quota_ValueError ''quota reservation requires a canonical correlation ID'')
      else Inr ())"

section \<open>Local reservations\<close>

definition retained_bytes :: "quota_db \<Rightarrow> int option \<Rightarrow> int" where
  "retained_bytes db user_id =
     sum_where (\<lambda>(u, _). case user_id of None \<Rightarrow> True | Some i \<Rightarrow> u = Some i) snd (qd_retained db)"

definition local_snapshot :: "quota_db \<Rightarrow> quota_command \<Rightarrow> datetime \<Rightarrow> usage_snapshot" where
  "local_snapshot db command now =
     (let hour_start = dt_add now (- hours 1);
          day_start = utc_day_start now;
          local_inflight = int (count_where (in_flight now) (qd_local db));
          github_inflight = int (count_where (in_flight now) (qd_github db))
      in \<lparr>sn_token_uploads_hour = int (count_where (\<lambda>c.
            ch_local_token_id c = Some (qc_token_id command) \<and> dt_le hour_start (ch_charged_at c))
            (qd_charges db)),
          sn_user_uploads_day = int (count_where (\<lambda>c.
            ch_local_user_id c = Some (qc_user_id command) \<and> dt_le day_start (ch_charged_at c))
            (qd_charges db)),
          sn_token_inflight = int (count_where (\<lambda>r. lr_token_id r = qc_token_id command \<and> in_flight now r)
            (qd_local db)),
          sn_user_inflight = int (count_where (\<lambda>r. lr_user_id r = qc_user_id command \<and> in_flight now r)
            (qd_local db)),
          sn_instance_inflight = local_inflight,
          sn_shared_instance_inflight = local_inflight + github_inflight,
          sn_user_retained_bytes = retained_bytes db (Some (qc_user_id command)) +
            sum_where (\<lambda>r. lr_user_id r = qc_user_id command \<and> in_flight now r) cl_accepted_bytes
              (qd_local db),
          sn_instance_retained_bytes = retained_bytes db None +
            sum_where (in_flight now) cl_accepted_bytes (qd_local db),
          sn_user_accepted_bytes_day = sum_where (\<lambda>c.
            ch_local_user_id c = Some (qc_user_id command) \<and> dt_le day_start (ch_charged_at c))
            ch_accepted_bytes (qd_charges db)\<rparr>)"

definition local_retry_after :: "quota_decision \<Rightarrow> int option" where
  "local_retry_after d =
     (if d = Token_Hourly_Rate then Some 3600
      else if d \<in> {User_Daily_Rate, User_Daily_Bytes} then Some 86400
      else if d \<in> {Token_Inflight, User_Inflight, Instance_Inflight, Shared_Instance_Inflight}
      then Some 30
      else None)"

text \<open>Whether the upload would start no work: the claim table will answer it from its row.\<close>

definition life_no_work :: "bool \<Rightarrow> datetime \<Rightarrow> 'a claim_life_scheme \<Rightarrow> bool" where
  "life_no_work same now row =
     (if cl_state row = Tombstoned then
        (case map_option normalise_utc (cl_tombstone_expires_at row) of
           None \<Rightarrow> True | Some expiry \<Rightarrow> dt_less now expiry)
      else if \<not> same then True
      else cl_state row = Completed \<or> cl_state row = Processing \<and>
        (case map_option normalise_utc (cl_lease_expires_at row) of
           None \<Rightarrow> True | Some expiry \<Rightarrow> dt_less now expiry))"

definition local_no_work :: "local_claim_row \<Rightarrow> quota_command \<Rightarrow> datetime \<Rightarrow> bool" where
  "local_no_work row command now =
     life_no_work (cl_project_id row = qc_project_id command \<and>
                   cl_payload_hash row = qc_payload_hash command) now row"

definition local_allowed :: "quota_command \<Rightarrow> datetime \<Rightarrow> quota_result" where
  "local_allowed command now =
     \<lparr>qr_decision = Quota_Allowed,
      qr_reservation = Some \<lparr>rv_user_id = qc_user_id command, rv_token_id = qc_token_id command,
        rv_client_request_id = qc_client_request_id command,
        rv_accepted_bytes = qc_accepted_bytes command, rv_reserved_at = now\<rparr>,
      qr_retry_after_seconds = None\<rparr>"

definition local_charge :: "quota_command \<Rightarrow> datetime \<Rightarrow> usage_charge" where
  "local_charge command now =
     \<lparr>ch_correlation_id = qc_correlation_id command, ch_origin = ''local'',
      ch_accepted_bytes = qc_accepted_bytes command,
      ch_local_user_id = Some (qc_user_id command), ch_local_token_id = Some (qc_token_id command),
      ch_repository_id = None, ch_owner_id = None, ch_charged_at = now,
      ch_expires_at = dt_add now (days 2)\<rparr>"

text \<open>Correlation ids are unique among the charges.\<close>

definition add_charge :: "usage_charge \<Rightarrow> quota_db \<Rightarrow> quota_error + quota_db" where
  "add_charge charge db =
     (if ch_correlation_id charge \<in> ch_correlation_id ` set (qd_charges db) then Inl Quota_IntegrityError
      else Inr (db\<lparr>qd_charges := qd_charges db @ [charge]\<rparr>))"

definition local_reserve ::
    "db_session \<Rightarrow> usage_limits \<Rightarrow> shared_usage_limits \<Rightarrow> quota_command \<Rightarrow> datetime \<Rightarrow> quota_db
     \<Rightarrow> quota_error + quota_result \<times> quota_db" where
  "local_reserve session limits shared command now db =
     (case validate_binding (qc_project_id command) (qc_payload_hash command) (qc_correlation_id command) of
        Inl e \<Rightarrow> Inl e
      | Inr _ \<Rightarrow>
     (case acquire_global_ingest_quota_lock session db of
        Inl e \<Rightarrow> Inl e
      | Inr locked \<Rightarrow>
     (if (case find (\<lambda>row. local_key row = (qc_user_id command, qc_client_request_id command))
              (qd_local db) of
            None \<Rightarrow> False
          | Some existing \<Rightarrow> local_no_work existing command now)
      then Inr (local_allowed command now, locked)
      else
     (case decide_usage_quota limits shared command (local_snapshot db command now) of
        Inl e \<Rightarrow> Inl e
      | Inr decision \<Rightarrow>
          if decision \<noteq> Quota_Allowed then
            Inr (\<lparr>qr_decision = decision, qr_reservation = None,
                  qr_retry_after_seconds = local_retry_after decision\<rparr>, db)
          else case add_charge (local_charge command now) locked of
            Inl e \<Rightarrow> Inl e
          | Inr charged \<Rightarrow> Inr (local_allowed command now, charged)))))"

section \<open>GitHub reservations\<close>

definition github_snapshot :: "quota_db \<Rightarrow> github_quota_command \<Rightarrow> datetime \<Rightarrow> github_usage_snapshot" where
  "github_snapshot db command now =
     (let hour_start = dt_add now (- hours 1); day_start = utc_day_start now in
      \<lparr>gn_repository_uploads_hour = int (count_where (\<lambda>c.
         ch_repository_id c = Some (gq_repository_id command) \<and> dt_le hour_start (ch_charged_at c))
         (qd_charges db)),
       gn_owner_uploads_day = int (count_where (\<lambda>c.
         ch_owner_id c = Some (gq_owner_id command) \<and> dt_le day_start (ch_charged_at c))
         (qd_charges db)),
       gn_repository_inflight = int (count_where (\<lambda>r.
         gr_repository_id r = gq_repository_id command \<and> in_flight now r) (qd_github db)),
       gn_instance_inflight = int (count_where (in_flight now) (qd_github db)) +
         int (count_where (in_flight now) (qd_local db)),
       gn_owner_accepted_bytes_day = sum_where (\<lambda>c.
         ch_owner_id c = Some (gq_owner_id command) \<and> dt_le day_start (ch_charged_at c))
         ch_accepted_bytes (qd_charges db)\<rparr>)"

definition github_retry_after :: "github_quota_decision \<Rightarrow> int" where
  "github_retry_after d =
     (if d = Repository_Hourly_Rate then 3600
      else if d \<in> {Owner_Daily_Rate, Owner_Daily_Bytes} then 86400 else 30)"

definition github_no_work :: "github_claim_row \<Rightarrow> github_quota_command \<Rightarrow> datetime \<Rightarrow> bool" where
  "github_no_work row command now =
     life_no_work (cl_project_id row = gq_project_id command \<and>
                   gr_owner_id row = gq_owner_id command \<and>
                   cl_payload_hash row = gq_payload_hash command) now row"

definition github_allowed :: "github_quota_command \<Rightarrow> datetime \<Rightarrow> github_quota_result" where
  "github_allowed command now =
     \<lparr>gqr_decision = Github_Allowed,
      gqr_reservation = Some \<lparr>gv_repository_id = gq_repository_id command,
        gv_owner_id = gq_owner_id command, gv_run_id = gq_run_id command,
        gv_run_attempt = gq_run_attempt command, gv_accepted_bytes = gq_accepted_bytes command,
        gv_reserved_at = now\<rparr>,
      gqr_retry_after_seconds = None\<rparr>"

definition github_charge :: "github_quota_command \<Rightarrow> datetime \<Rightarrow> usage_charge" where
  "github_charge command now =
     \<lparr>ch_correlation_id = gq_correlation_id command, ch_origin = ''github'',
      ch_accepted_bytes = gq_accepted_bytes command, ch_local_user_id = None,
      ch_local_token_id = None, ch_repository_id = Some (gq_repository_id command),
      ch_owner_id = Some (gq_owner_id command), ch_charged_at = now,
      ch_expires_at = dt_add now (days 2)\<rparr>"

definition github_reserve ::
    "db_session \<Rightarrow> github_usage_limits \<Rightarrow> shared_usage_limits \<Rightarrow> github_quota_command \<Rightarrow> datetime
     \<Rightarrow> quota_db \<Rightarrow> quota_error + github_quota_result \<times> quota_db" where
  "github_reserve session limits shared command now db =
     (case validate_binding (gq_project_id command) (gq_payload_hash command) (gq_correlation_id command) of
        Inl e \<Rightarrow> Inl e
      | Inr _ \<Rightarrow>
     (case acquire_global_ingest_quota_lock session db of
        Inl e \<Rightarrow> Inl e
      | Inr locked \<Rightarrow>
     (if (case find (\<lambda>row. github_key row =
              (gq_repository_id command, gq_run_id command, gq_run_attempt command)) (qd_github db) of
            None \<Rightarrow> False
          | Some existing \<Rightarrow> github_no_work existing command now)
      then Inr (github_allowed command now, locked)
      else
     (case decide_github_usage_quota limits shared command (github_snapshot db command now) of
        Inl e \<Rightarrow> Inl e
      | Inr decision \<Rightarrow>
          if decision \<noteq> Github_Allowed then
            Inr (\<lparr>gqr_decision = decision, gqr_reservation = None,
                  gqr_retry_after_seconds = Some (github_retry_after decision)\<rparr>, db)
          else case add_charge (github_charge command now) locked of
            Inl e \<Rightarrow> Inl e
          | Inr charged \<Rightarrow> Inr (github_allowed command now, charged)))))"

text \<open>
  Releasing a reservation rolls its transaction back: the result tells whether one was open,
  and the tables are those before the reservation.
\<close>

definition release_reservation :: "db_session \<Rightarrow> quota_db \<Rightarrow> bool \<times> quota_db" where
  "release_reservation session committed = (ds_in_transaction session, committed)"

section \<open>Daily budgets\<close>

definition on_day :: "int \<Rightarrow> usage_charge \<Rightarrow> bool" where
  "on_day d c \<longleftrightarrow> dt_instant (ch_charged_at c) div days 1 = d"

definition since_day :: "datetime \<Rightarrow> usage_charge \<Rightarrow> bool" where
  "since_day now c \<longleftrightarrow> dt_le (utc_day_start now) (ch_charged_at c)"

definition within_budget ::
    "(usage_charge \<Rightarrow> bool) \<Rightarrow> int \<Rightarrow> int \<Rightarrow> usage_charge list \<Rightarrow> bool" where
  "within_budget mine max_count max_bytes cs \<longleftrightarrow>
     (\<forall>d. int (count_where (\<lambda>c. mine c \<and> on_day d c) cs) \<le> max_count \<and>
          sum_where (\<lambda>c. mine c \<and> on_day d c) ch_accepted_bytes cs \<le> max_bytes)"

definition charges_ok :: "usage_charge list \<Rightarrow> bool" where
  "charges_ok cs \<longleftrightarrow> list_all (\<lambda>c. 0 \<le> ch_accepted_bytes c) cs"

lemma on_day_since: "on_day (dt_instant now div days 1) c \<Longrightarrow> since_day now c"
proof -
  assume "on_day (dt_instant now div days 1) c"
  then have "dt_instant (ch_charged_at c) div days 1 = dt_instant now div days 1" by (simp add: on_day_def)
  moreover have "dt_instant (ch_charged_at c) div days 1 * days 1 \<le> dt_instant (ch_charged_at c)"
    by (simp add: timedelta_defs)
  ultimately show ?thesis by (simp add: since_day_def dt_le_def utc_day_start_def dt_simps)
qed

text \<open>
  A reservation charges at its own time and for two days, and a charge to the principal leaves the
  day's count and bytes, measured from midnight on, within the principal's budget.
\<close>

locale charge_ledger =
  fixes mine :: "usage_charge \<Rightarrow> bool"
    and max_count max_bytes :: int
    and reserve :: "'c \<Rightarrow> datetime \<Rightarrow> quota_db \<Rightarrow> quota_error + 'r \<times> quota_db"
  assumes reserve_charge: "reserve c now db = Inr (res, db') \<Longrightarrow>
      qd_charges db' = qd_charges db \<or>
      (\<exists>ch. qd_charges db' = qd_charges db @ [ch] \<and> ch_charged_at ch = now \<and>
         ch_expires_at ch = dt_add now (days 2) \<and> 0 \<le> ch_accepted_bytes ch \<and>
         (mine ch \<longrightarrow>
            int (count_where (\<lambda>c. mine c \<and> since_day now c) (qd_charges db)) < max_count \<and>
            sum_where (\<lambda>c. mine c \<and> since_day now c) ch_accepted_bytes (qd_charges db) +
              ch_accepted_bytes ch \<le> max_bytes))"
begin

lemma reserve_ok: "charges_ok (qd_charges db) \<Longrightarrow> reserve c now db = Inr (res, db') \<Longrightarrow> charges_ok (qd_charges db')"
  using reserve_charge [of c now db res db'] by (auto simp: charges_ok_def)

text \<open>The rows that a reservation appended.\<close>

lemma reserve_appends:
  "reserve c now db = Inr (res, db') \<Longrightarrow>
     qd_charges db' = qd_charges db \<or> (\<exists>ch. qd_charges db' = qd_charges db @ [ch] \<and>
       ch_charged_at ch = now \<and> ch_expires_at ch = dt_add now (days 2) \<and> 0 \<le> ch_accepted_bytes ch)"
  using reserve_charge by blast

text \<open>
  The table may have lost old charges of the history \<open>past\<close>, but none of the day of the reservation.
\<close>

lemma reserve_within:
  assumes ok: "charges_ok (qd_charges db)" and within: "within_budget mine max_count max_bytes past"
    and day: "filter (on_day (dt_instant now div days 1)) (qd_charges db) =
      filter (on_day (dt_instant now div days 1)) past"
    and res: "reserve c now db = Inr (res, db')"
  shows "within_budget mine max_count max_bytes (past @ drop (length (qd_charges db)) (qd_charges db'))"
  using reserve_charge [OF res]
proof
  assume "\<exists>ch. qd_charges db' = qd_charges db @ [ch] \<and> ch_charged_at ch = now \<and>
         ch_expires_at ch = dt_add now (days 2) \<and> 0 \<le> ch_accepted_bytes ch \<and>
         (mine ch \<longrightarrow>
            int (count_where (\<lambda>c. mine c \<and> since_day now c) (qd_charges db)) < max_count \<and>
            sum_where (\<lambda>c. mine c \<and> since_day now c) ch_accepted_bytes (qd_charges db) +
              ch_accepted_bytes ch \<le> max_bytes)"
  then obtain ch where ch: "qd_charges db' = qd_charges db @ [ch]" "ch_charged_at ch = now"
    and room: "mine ch \<Longrightarrow> int (count_where (\<lambda>c. mine c \<and> since_day now c) (qd_charges db)) < max_count"
      "mine ch \<Longrightarrow> sum_where (\<lambda>c. mine c \<and> since_day now c) ch_accepted_bytes (qd_charges db) +
              ch_accepted_bytes ch \<le> max_bytes"
    by blast
  show ?thesis
    unfolding within_budget_def
  proof (intro allI)
    fix d
    let ?p = "\<lambda>c. mine c \<and> on_day d c" and ?new = "past @ drop (length (qd_charges db)) (qd_charges db')"
    show "int (count_where ?p ?new) \<le> max_count \<and> sum_where ?p ch_accepted_bytes ?new \<le> max_bytes"
    proof (cases "?p ch")
      case True
      then have d: "d = dt_instant now div days 1" using ch(2) by (simp add: on_day_def)
      have same: "filter ?p past = filter ?p (qd_charges db)"
        using arg_cong [OF day, of "filter mine"] by (simp add: d conj_commute)
      have sub: "?p c \<Longrightarrow> mine c \<and> since_day now c" for c unfolding d using on_day_since by blast
      have "count_where ?p past \<le> count_where (\<lambda>c. mine c \<and> since_day now c) (qd_charges db)"
        unfolding count_where_def [of ?p past] same
        using count_where_mono [of ?p _ "qd_charges db", OF sub] by (simp add: count_where_def)
      moreover have "sum_where ?p ch_accepted_bytes past \<le>
          sum_where (\<lambda>c. mine c \<and> since_day now c) ch_accepted_bytes (qd_charges db)"
        unfolding sum_where_def [of ?p _ past] same
        using sum_where_mono [OF ok [unfolded charges_ok_def], of ?p, OF sub] by (simp add: sum_where_def)
      ultimately show ?thesis using room True by (simp add: ch(1) row_simps)
    next
      case False
      with within show ?thesis by (auto simp: within_budget_def ch(1) row_simps)
    qed
  qed
qed (use within in simp)

end

lemma lock_charges:
  "acquire_global_ingest_quota_lock session db = Inr locked \<Longrightarrow>
     qd_charges locked = qd_charges db \<and> qd_local locked = qd_local db \<and> qd_github locked = qd_github db"
  by (auto simp: acquire_global_ingest_quota_lock_def split: if_splits)

text \<open>What an allowed reservation did: nothing, or one charge after every check passed.\<close>

lemma local_reserve_cases:
  assumes "local_reserve session limits shared c now db = Inr (res, db')"
  shows "qd_local db' = qd_local db \<and> qd_github db' = qd_github db \<and>
    (qd_charges db' = qd_charges db \<and>
       (qr_decision res \<noteq> Quota_Allowed \<or>
        (\<exists>row. find (\<lambda>row. local_key row = (qc_user_id c, qc_client_request_id c)) (qd_local db) = Some row \<and>
           local_no_work row c now)) \<or>
     qd_charges db' = qd_charges db @ [local_charge c now] \<and>
       decide_usage_quota limits shared c (local_snapshot db c now) = Inr Quota_Allowed)"
proof -
  obtain locked where locked: "acquire_global_ingest_quota_lock session db = Inr locked"
    using assms by (auto simp: local_reserve_def split: sum.splits)
  note same = lock_charges [OF locked]
  show ?thesis
  proof (cases "case find (\<lambda>row. local_key row = (qc_user_id c, qc_client_request_id c)) (qd_local db) of
      None \<Rightarrow> False | Some existing \<Rightarrow> local_no_work existing c now")
    case True
    then obtain row where "find (\<lambda>row. local_key row = (qc_user_id c, qc_client_request_id c)) (qd_local db) = Some row"
        "local_no_work row c now" by (auto split: option.splits)
    then show ?thesis using assms locked same by (auto simp: local_reserve_def split: sum.splits)
  next
    case False
    obtain d where d: "decide_usage_quota limits shared c (local_snapshot db c now) = Inr d"
      using assms locked False by (auto simp: local_reserve_def split: sum.splits if_splits)
    show ?thesis
      using assms locked same False d
      by (cases "d = Quota_Allowed") (auto simp: local_reserve_def add_charge_def split: sum.splits if_splits)
  qed
qed

lemma github_reserve_cases:
  assumes "github_reserve session limits shared c now db = Inr (res, db')"
  shows "qd_local db' = qd_local db \<and> qd_github db' = qd_github db \<and>
    (qd_charges db' = qd_charges db \<or>
     qd_charges db' = qd_charges db @ [github_charge c now] \<and>
       decide_github_usage_quota limits shared c (github_snapshot db c now) = Inr Github_Allowed)"
proof -
  obtain locked where locked: "acquire_global_ingest_quota_lock session db = Inr locked"
    using assms by (auto simp: github_reserve_def split: sum.splits)
  note same = lock_charges [OF locked]
  show ?thesis
  proof (cases "case find (\<lambda>row. github_key row = (gq_repository_id c, gq_run_id c, gq_run_attempt c))
      (qd_github db) of None \<Rightarrow> False | Some existing \<Rightarrow> github_no_work existing c now")
    case True
    then show ?thesis using assms locked same by (auto simp: github_reserve_def split: sum.splits)
  next
    case False
    obtain d where d: "decide_github_usage_quota limits shared c (github_snapshot db c now) = Inr d"
      using assms locked False by (auto simp: github_reserve_def split: sum.splits if_splits)
    show ?thesis
      using assms locked same False d
      by (cases "d = Github_Allowed") (auto simp: github_reserve_def add_charge_def split: sum.splits if_splits)
  qed
qed

interpretation local_ledger: charge_ledger "\<lambda>ch. ch_local_user_id ch = Some u"
  "uploads_per_user_day limits" "accepted_bytes_per_user_day limits" "local_reserve session limits shared"
proof
  fix c now db res db'
  assume "local_reserve session limits shared c now db = Inr (res, db')"
  from local_reserve_cases [OF this]
  show "qd_charges db' = qd_charges db \<or>
      (\<exists>ch. qd_charges db' = qd_charges db @ [ch] \<and> ch_charged_at ch = now \<and>
         ch_expires_at ch = dt_add now (days 2) \<and> 0 \<le> ch_accepted_bytes ch \<and>
         (ch_local_user_id ch = Some u \<longrightarrow>
            int (count_where (\<lambda>c. ch_local_user_id c = Some u \<and> since_day now c) (qd_charges db)) <
              uploads_per_user_day limits \<and>
            sum_where (\<lambda>c. ch_local_user_id c = Some u \<and> since_day now c) ch_accepted_bytes (qd_charges db) +
              ch_accepted_bytes ch \<le> accepted_bytes_per_user_day limits))"
    by (auto simp: quota_allowed_iff quota_checks_def local_snapshot_def local_charge_def Let_def
        since_day_def validate_quota_def split: if_splits)
qed

interpretation github_ledger: charge_ledger "\<lambda>ch. ch_owner_id ch = Some owner"
  "uploads_per_owner_day limits" "accepted_bytes_per_owner_day limits" "github_reserve session limits shared"
proof
  fix c now db res db'
  assume "github_reserve session limits shared c now db = Inr (res, db')"
  from github_reserve_cases [OF this]
  show "qd_charges db' = qd_charges db \<or>
      (\<exists>ch. qd_charges db' = qd_charges db @ [ch] \<and> ch_charged_at ch = now \<and>
         ch_expires_at ch = dt_add now (days 2) \<and> 0 \<le> ch_accepted_bytes ch \<and>
         (ch_owner_id ch = Some owner \<longrightarrow>
            int (count_where (\<lambda>c. ch_owner_id c = Some owner \<and> since_day now c) (qd_charges db)) <
              uploads_per_owner_day limits \<and>
            sum_where (\<lambda>c. ch_owner_id c = Some owner \<and> since_day now c) ch_accepted_bytes (qd_charges db) +
              ch_accepted_bytes ch \<le> accepted_bytes_per_owner_day limits))"
    by (auto simp: github_quota_allowed_iff github_quota_checks_def github_snapshot_def github_charge_def
        Let_def since_day_def validate_github_quota_def split: if_splits)
qed

text \<open>
  Histories of committed reservations and of retention, with the clock's high-water mark, the
  rows of the charges table and every charge that was ever committed.  A reservation that is rolled
  back leaves all of them as they are.  Uploads read the clock before they wait for the write lock,
  so their times may lie behind the mark, by one day at most.  Retention deletes
  any of the charges that have expired at its own time.  The claim and artifact tables are arbitrary at
  every step.
\<close>

inductive charge_history ::
    "usage_limits \<Rightarrow> github_usage_limits \<Rightarrow> shared_usage_limits \<Rightarrow> int \<Rightarrow> usage_charge list \<Rightarrow> usage_charge list \<Rightarrow> bool"
  for limits github_limits shared where
  start: "charge_history limits github_limits shared clock [] []"
| local: "charge_history limits github_limits shared clock (qd_charges db) past \<Longrightarrow>
     clock \<le> dt_instant now + days 1 \<Longrightarrow>
     local_reserve session limits shared c now db = Inr (res, db') \<Longrightarrow>
     charge_history limits github_limits shared (max clock (dt_instant now)) (qd_charges db')
       (past @ drop (length (qd_charges db)) (qd_charges db'))"
| github: "charge_history limits github_limits shared clock (qd_charges db) past \<Longrightarrow>
     clock \<le> dt_instant now + days 1 \<Longrightarrow>
     github_reserve session github_limits shared gc now db = Inr (gres, db') \<Longrightarrow>
     charge_history limits github_limits shared (max clock (dt_instant now)) (qd_charges db')
       (past @ drop (length (qd_charges db)) (qd_charges db'))"
| retention: "charge_history limits github_limits shared clock cs past \<Longrightarrow>
     \<forall>ch \<in> set cs. q ch \<longrightarrow> dt_le (ch_expires_at ch) t \<Longrightarrow>
     charge_history limits github_limits shared (max clock (dt_instant t)) (delete_where q cs) past"

text \<open>
  What every history keeps: charges expire two days after their time, and the table still has
  every charge of a day until the clock has passed the end of the following day.
\<close>

definition days_kept :: "int \<Rightarrow> usage_charge list \<Rightarrow> usage_charge list \<Rightarrow> bool" where
  "days_kept clock cs past \<longleftrightarrow> charges_ok cs \<and>
     (\<forall>ch \<in> set cs. dt_instant (ch_expires_at ch) = dt_instant (ch_charged_at ch) + days 2) \<and>
     (\<forall>d. clock < (d + 2) * days 1 \<longrightarrow> filter (on_day d) cs = filter (on_day d) past)"

lemma days_kept_reserve:
  assumes kept: "days_kept clock (qd_charges db) past"
    and appends: "qd_charges db' = qd_charges db \<or> (\<exists>ch. qd_charges db' = qd_charges db @ [ch] \<and>
       ch_charged_at ch = now \<and> ch_expires_at ch = dt_add now (days 2) \<and> 0 \<le> ch_accepted_bytes ch)"
  shows "days_kept (max clock (dt_instant now)) (qd_charges db')
    (past @ drop (length (qd_charges db)) (qd_charges db'))"
  using appends
proof
  assume "\<exists>ch. qd_charges db' = qd_charges db @ [ch] \<and>
    ch_charged_at ch = now \<and> ch_expires_at ch = dt_add now (days 2) \<and> 0 \<le> ch_accepted_bytes ch"
  then show ?thesis using kept by (auto simp: days_kept_def charges_ok_def dt_simps)
qed (use kept in \<open>simp add: days_kept_def\<close>)

lemma on_day_bounds: "on_day d ch \<Longrightarrow> d * days 1 \<le> dt_instant (ch_charged_at ch) \<and>
    dt_instant (ch_charged_at ch) < (d + 1) * days 1"
  by (auto simp: on_day_def timedelta_defs)

lemma days_kept_retention:
  assumes kept: "days_kept clock cs past" and expired: "\<forall>ch \<in> set cs. q ch \<longrightarrow> dt_le (ch_expires_at ch) t"
  shows "days_kept (max clock (dt_instant t)) (delete_where q cs) past"
proof -
  have "filter (on_day d) (delete_where q cs) = filter (on_day d) past"
    if early: "max clock (dt_instant t) < (d + 2) * days 1" for d
  proof -
    have "\<not> q ch" if "ch \<in> set cs" "on_day d ch" for ch
      using on_day_bounds [OF that(2)] expired kept that(1) early
      by (fastforce simp: days_kept_def dt_le_def timedelta_defs)
    then have "filter (on_day d) (delete_where q cs) = filter (on_day d) cs"
      by (auto simp: delete_where_def intro!: filter_cong)
    then show ?thesis using kept early by (simp add: days_kept_def)
  qed
  then show ?thesis using kept by (auto simp: days_kept_def charges_ok_def delete_where_def list_all_iff)
qed

text \<open>At the time of a reservation the table still has every charge of its day.\<close>

lemma day_complete:
  assumes "days_kept clock cs past" "clock \<le> dt_instant now + days 1"
  shows "filter (on_day (dt_instant now div days 1)) cs = filter (on_day (dt_instant now div days 1)) past"
proof -
  have "dt_instant now < (dt_instant now div days 1 + 1) * days 1" by (simp add: timedelta_defs)
  with assms show ?thesis by (simp add: days_kept_def timedelta_defs)
qed

lemma local_reserve_other:
  "local_reserve session limits shared c now db = Inr (res, db') \<Longrightarrow>
     within_budget (\<lambda>ch. ch_owner_id ch = Some owner) mc mb past \<Longrightarrow>
     within_budget (\<lambda>ch. ch_owner_id ch = Some owner) mc mb
       (past @ drop (length (qd_charges db)) (qd_charges db'))"
  using local_reserve_cases [of session limits shared c now db res db']
  by (auto simp: within_budget_def local_charge_def row_simps)

lemma github_reserve_other:
  "github_reserve session limits shared c now db = Inr (res, db') \<Longrightarrow>
     within_budget (\<lambda>ch. ch_local_user_id ch = Some u) mc mb past \<Longrightarrow>
     within_budget (\<lambda>ch. ch_local_user_id ch = Some u) mc mb
       (past @ drop (length (qd_charges db)) (qd_charges db'))"
  using github_reserve_cases [of session limits shared c now db res db']
  by (auto simp: within_budget_def github_charge_def row_simps)

lemma charges_within:
  assumes "charge_history limits github_limits shared clock cs past"
    and "0 \<le> uploads_per_user_day limits" "0 \<le> accepted_bytes_per_user_day limits"
    and "0 \<le> uploads_per_owner_day github_limits" "0 \<le> accepted_bytes_per_owner_day github_limits"
  shows "days_kept clock cs past \<and>
    within_budget (\<lambda>ch. ch_local_user_id ch = Some u)
      (uploads_per_user_day limits) (accepted_bytes_per_user_day limits) past \<and>
    within_budget (\<lambda>ch. ch_owner_id ch = Some owner)
      (uploads_per_owner_day github_limits) (accepted_bytes_per_owner_day github_limits) past"
  using assms
proof (induction rule: charge_history.induct)
  case (start clock)
  then show ?case by (simp add: days_kept_def charges_ok_def within_budget_def count_where_def sum_where_def)
next
  case (local clock db past now session c res db')
  then have kept: "days_kept clock (qd_charges db) past" by blast
  then have ok: "charges_ok (qd_charges db)" by (simp add: days_kept_def)
  have day: "filter (on_day (dt_instant now div days 1)) (qd_charges db) =
      filter (on_day (dt_instant now div days 1)) past" by (rule day_complete [OF kept]) (rule local)
  have budgets: "within_budget (\<lambda>ch. ch_local_user_id ch = Some u)
        (uploads_per_user_day limits) (accepted_bytes_per_user_day limits) past"
      "within_budget (\<lambda>ch. ch_owner_id ch = Some owner)
        (uploads_per_owner_day github_limits) (accepted_bytes_per_owner_day github_limits) past"
    using local by blast+
  note reserve = local.hyps(3)
  show ?case
    by (intro conjI days_kept_reserve [OF kept local_ledger.reserve_appends [OF reserve]]
        local_ledger.reserve_within [OF ok budgets(1) day reserve] local_reserve_other [OF reserve budgets(2)])
next
  case (github clock db past now session gc gres db')
  then have kept: "days_kept clock (qd_charges db) past" by blast
  then have ok: "charges_ok (qd_charges db)" by (simp add: days_kept_def)
  have day: "filter (on_day (dt_instant now div days 1)) (qd_charges db) =
      filter (on_day (dt_instant now div days 1)) past" by (rule day_complete [OF kept]) (rule github)
  have budgets: "within_budget (\<lambda>ch. ch_local_user_id ch = Some u)
        (uploads_per_user_day limits) (accepted_bytes_per_user_day limits) past"
      "within_budget (\<lambda>ch. ch_owner_id ch = Some owner)
        (uploads_per_owner_day github_limits) (accepted_bytes_per_owner_day github_limits) past"
    using github by blast+
  note reserve = github.hyps(3)
  show ?case
    by (intro conjI days_kept_reserve [OF kept github_ledger.reserve_appends [OF reserve]]
        github_ledger.reserve_within [OF ok budgets(2) day reserve] github_reserve_other [OF reserve budgets(1)])
next
  case (retention clock cs past q t)
  then show ?case using days_kept_retention by blast
qed

text \<open>
  C16.  Of all the charges that were ever committed, including those that retention has
  deleted since, no user has more than 100 uploads or 500 MiB on one UTC day and no GitHub owner more than
  500 uploads or 2 GiB, whatever the order of uploads, retries and clean-ups.  The clock of
  the uploads may lag, but never by more than one day behind the latest time at which a
  reservation or a clean-up ran: charges live for two days, so the table then still
  has every charge of the day of an upload.
\<close>

theorem daily_budget_never_exceeded:
  assumes "charge_history USAGE_LIMITS GITHUB_USAGE_LIMITS_V2 shared clock cs past"
  shows "count_where (\<lambda>ch. ch_local_user_id ch = Some u \<and> on_day d ch) past \<le> 100 \<and>
    sum_where (\<lambda>ch. ch_local_user_id ch = Some u \<and> on_day d ch) ch_accepted_bytes past \<le> 500 * 1024 * 1024 \<and>
    count_where (\<lambda>ch. ch_owner_id ch = Some owner \<and> on_day d ch) past \<le> 500 \<and>
    sum_where (\<lambda>ch. ch_owner_id ch = Some owner \<and> on_day d ch) ch_accepted_bytes past
      \<le> 2 * 1024 * 1024 * 1024"
proof -
  note within = charges_within [OF assms, of u owner, THEN conjunct2]
  have "within_budget (\<lambda>ch. ch_local_user_id ch = Some u) 100 (500 * 1024 * 1024) past \<and>
      within_budget (\<lambda>ch. ch_owner_id ch = Some owner) 500 (2 * 1024 * 1024 * 1024) past"
    using within by (simp add: USAGE_LIMITS_def GITHUB_USAGE_LIMITS_V2_def)
  then show ?thesis by (auto simp: within_budget_def dest: spec [of _ d])
qed

section \<open>Quota and claim tables agree\<close>

lemma life_no_work_iff: "life_no_work same now row \<longleftrightarrow> life_decision same now row \<noteq> None"
  by (cases "cl_state row")
    (auto simp: life_no_work_def life_decision_def Let_def split: option.splits)

text \<open>
  The reservation lets an upload pass without a charge exactly if the claim table will
  answer it from the existing row, for local and for GitHub uploads: nothing is processed
  without being charged, and no repetition of a finished upload is charged again.
\<close>

theorem no_work_iff_answered:
  "(local_no_work row command now \<longleftrightarrow>
     local_existing_decision row \<lparr>cc_user_id = u, cc_token_id = t, cc_client_request_id = q,
       cc_project_id = qc_project_id command, cc_payload_hash = qc_payload_hash command,
       cc_accepted_bytes = b\<rparr> now \<noteq> None) \<and>
   (github_no_work grow gcommand now \<longleftrightarrow>
     github_existing_decision grow \<lparr>gc_repository_id = gr, gc_owner_id = gq_owner_id gcommand,
       gc_run_id = gi, gc_run_attempt = ga, gc_project_id = gq_project_id gcommand,
       gc_payload_hash = gq_payload_hash gcommand, gc_accepted_bytes = b\<rparr> now \<noteq> None)"
  by (simp add: local_no_work_def local_existing_decision_def github_no_work_def
      github_existing_decision_def life_no_work_iff)

lemma acquire_in_flight:
  assumes ok: "local_table_ok rows"
    and acq: "local_acquire parents tx cmd now e lease rows = Inr (res, rows')" "acquired res"
  shows "count_where q rows' \<le> count_where q rows + 1 \<and>
    (case find (\<lambda>row. local_key row = (cc_user_id cmd, cc_client_request_id cmd)) rows of
       None \<Rightarrow> True | Some row \<Rightarrow> local_existing_decision row cmd now = None)"
proof (cases "find (\<lambda>row. local_key row = (cc_user_id cmd, cc_client_request_id cmd)) rows")
  case None
  then obtain new where "rows' = rows @ [new]"
    using acq by (auto simp: local_acquire_def split: if_splits)
  then show ?thesis using None by (simp add: row_simps)
next
  case (Some row)
  have none: "local_existing_decision row cmd now = None"
    using acq Some life_decision_refuses
    by (cases "local_existing_decision row cmd now")
      (auto simp: local_acquire_def local_existing_decision_def split: if_splits)
  obtain f where rows': "rows' = update_where (\<lambda>r. local_key r = local_key row) f rows"
    using acq Some none by (auto simp: local_acquire_def split: if_splits)
  have "count_where (\<lambda>r. local_key r = local_key row) rows \<le> 1"
    using count_where_key_le_1 [OF ok [unfolded local_table_ok_def], of "local_key row" "\<lambda>_. True"] by simp
  with count_where_update_le [of q "\<lambda>r. local_key r = local_key row" f rows] none Some
  show ?thesis unfolding rows' by simp
qed

text \<open>
  C35.  An upload that starts work has been charged, and at its admission the claims in flight
  stay within every concurrency limit: per token, per user, per instance, and together with the
  GitHub claims per shared instance.
\<close>

theorem admission_within_limits:
  assumes "local_table_ok (qd_local db)"
    and res: "local_reserve session limits shared c now db = Inr (res, db1)" "qr_decision res = Quota_Allowed"
    and acq: "local_acquire parents tx \<lparr>cc_user_id = qc_user_id c, cc_token_id = qc_token_id c,
        cc_client_request_id = qc_client_request_id c, cc_project_id = qc_project_id c,
        cc_payload_hash = qc_payload_hash c, cc_accepted_bytes = qc_accepted_bytes c\<rparr>
        now e lease (qd_local db1) = Inr (cres, rows)" "acquired cres"
  shows "qd_charges db1 = qd_charges db @ [local_charge c now] \<and>
    int (count_where (\<lambda>r. lr_token_id r = qc_token_id c \<and> in_flight now r) rows) \<le> inflight_per_token limits \<and>
    int (count_where (\<lambda>r. lr_user_id r = qc_user_id c \<and> in_flight now r) rows) \<le> inflight_per_user limits \<and>
    int (count_where (in_flight now) rows) \<le> inflight_per_instance limits \<and>
    int (count_where (in_flight now) rows) + int (count_where (in_flight now) (qd_github db1))
      \<le> shared_inflight_per_instance shared"
proof -
  note cases = local_reserve_cases [OF res(1)]
  have ok: "local_table_ok (qd_local db1)" using cases assms(1) by simp
  note grow = acquire_in_flight [OF ok acq]
  have "\<not> local_no_work row c now"
    if "find (\<lambda>row. local_key row = (qc_user_id c, qc_client_request_id c)) (qd_local db) = Some row" for row
    using grow [of "\<lambda>_. True"] that cases
    by (simp add: local_no_work_def local_existing_decision_def life_no_work_iff)
  then have charged: "qd_charges db1 = qd_charges db @ [local_charge c now]"
    and decided: "decide_usage_quota limits shared c (local_snapshot db c now) = Inr Quota_Allowed"
    using cases res(2) by auto
  have same: "qd_local db1 = qd_local db" "qd_github db1 = qd_github db" using cases by auto
  have room: "int (count_where (\<lambda>r. lr_token_id r = qc_token_id c \<and> in_flight now r) (qd_local db)) < inflight_per_token limits"
    "int (count_where (\<lambda>r. lr_user_id r = qc_user_id c \<and> in_flight now r) (qd_local db)) < inflight_per_user limits"
    "int (count_where (in_flight now) (qd_local db)) < inflight_per_instance limits"
    "int (count_where (in_flight now) (qd_local db)) + int (count_where (in_flight now) (qd_github db))
      < shared_inflight_per_instance shared"
    using decided by (simp_all add: quota_allowed_iff quota_checks_def local_snapshot_def Let_def)
  have step: "count_where q rows \<le> count_where q (qd_local db) + 1" for q
    using grow [of q] same by simp
  show ?thesis
    unfolding charged same
    using room step [of "\<lambda>r. lr_token_id r = qc_token_id c \<and> in_flight now r"]
      step [of "\<lambda>r. lr_user_id r = qc_user_id c \<and> in_flight now r"] step [of "in_flight now"]
    by (intro conjI refl) linarith+
qed

section \<open>Concrete reservations\<close>

definition sample_quota_command :: quota_command where
  "sample_quota_command = \<lparr>qc_user_id = 1, qc_token_id = ''t'', qc_client_request_id = ''q'',
     qc_accepted_bytes = 3, qc_enabled = True, qc_project_id = 2,
     qc_payload_hash = replicate 64 (CHR ''0''),
     qc_correlation_id = uuid_text (replicate 16 0)\<rparr>"

definition empty_quota_db :: quota_db where
  "empty_quota_db = \<lparr>qd_locks = [], qd_charges = [], qd_local = [], qd_github = [], qd_retained = []\<rparr>"

definition clean_session :: db_session where
  "clean_session = \<lparr>ds_in_transaction = False, ds_sqlite = True\<rparr>"

lemma sample_reserve:
  "\<exists>res db. local_reserve clean_session USAGE_LIMITS SHARED_USAGE_LIMITS_V2 sample_quota_command (utc 0)
     empty_quota_db = Inr (res, db) \<and> qr_decision res = Quota_Allowed \<and> qd_local db = [] \<and> qd_github db = []"
proof -
  have bind: "validate_binding 2 (replicate 64 (CHR ''0'')) (uuid_text (replicate 16 0)) = Inr ()"
    by (simp add: validate_binding_def sha256_hex_def canonical_uuid_text is_lower_hex_def is_digit_09_def
        list_all_length)
  have "decide_usage_quota USAGE_LIMITS SHARED_USAGE_LIMITS_V2 sample_quota_command
      (local_snapshot empty_quota_db sample_quota_command (utc 0)) = Inr Quota_Allowed"
    by (simp add: quota_allowed_iff quota_checks_def local_snapshot_def empty_quota_db_def
        sample_quota_command_def validate_quota_def snapshot_values_def count_where_def sum_where_def
        retained_bytes_def USAGE_LIMITS_def SHARED_USAGE_LIMITS_V2_def)
  with bind show ?thesis
    by (simp add: local_reserve_def sample_quota_command_def acquire_global_ingest_quota_lock_def
        clean_session_def empty_quota_db_def add_charge_def local_allowed_def)
qed

theorem daily_budget_never_exceeded_witness:
  "\<exists>past. past \<noteq> [] \<and>
     charge_history USAGE_LIMITS GITHUB_USAGE_LIMITS_V2 SHARED_USAGE_LIMITS_V2 (days 3) [] past \<and>
     count_where (\<lambda>ch. ch_local_user_id ch = Some 1 \<and> on_day 0 ch) past \<le> 100"
proof -
  obtain res db where r: "local_reserve clean_session USAGE_LIMITS SHARED_USAGE_LIMITS_V2
      sample_quota_command (utc 0) empty_quota_db = Inr (res, db)" "qr_decision res = Quota_Allowed"
    using sample_reserve by blast
  let ?hist = "charge_history USAGE_LIMITS GITHUB_USAGE_LIMITS_V2 SHARED_USAGE_LIMITS_V2"
  have charged: "qd_charges db = [local_charge sample_quota_command (utc 0)]"
    using local_reserve_cases [OF r(1)] r(2) by (auto simp: empty_quota_db_def)
  have "?hist 0 (qd_charges empty_quota_db) []" by (simp add: empty_quota_db_def charge_history.start)
  from charge_history.local [OF this _ r(1)]
  have "?hist 0 (qd_charges db) [local_charge sample_quota_command (utc 0)]"
    by (simp add: empty_quota_db_def charged dt_simps timedelta_defs)
  from charge_history.retention [OF this, of "\<lambda>ch. True" "utc (days 3)"]
  have reach: "?hist (days 3) [] [local_charge sample_quota_command (utc 0)]"
    by (simp add: charged local_charge_def delete_where_def dt_le_def dt_simps timedelta_defs)
  with daily_budget_never_exceeded [OF reach, of 1 0] show ?thesis by blast
qed

theorem admission_within_limits_witness:
  "\<exists>res db cres rows. local_reserve clean_session USAGE_LIMITS SHARED_USAGE_LIMITS_V2 sample_quota_command
       (utc 0) empty_quota_db = Inr (res, db) \<and>
     local_acquire (\<lambda>c. True) \<lparr>tx_open = True, tx_quota_lock = True\<rparr>
       \<lparr>cc_user_id = 1, cc_token_id = ''t'', cc_client_request_id = ''q'', cc_project_id = 2,
        cc_payload_hash = replicate 64 (CHR ''0''), cc_accepted_bytes = 3\<rparr> (utc 0) (utc 300) ''l''
       (qd_local db) = Inr (cres, rows) \<and>
     int (count_where (in_flight (utc 0)) rows) \<le> 4"
proof -
  obtain res db where r: "local_reserve clean_session USAGE_LIMITS SHARED_USAGE_LIMITS_V2
      sample_quota_command (utc 0) empty_quota_db = Inr (res, db)" "qr_decision res = Quota_Allowed"
      "qd_local db = []"
    using sample_reserve by blast
  have ok: "local_table_ok (qd_local empty_quota_db)" by (simp add: empty_quota_db_def local_table_ok_def)
  obtain rows where acq: "local_acquire (\<lambda>c. True) \<lparr>tx_open = True, tx_quota_lock = True\<rparr>
      \<lparr>cc_user_id = qc_user_id sample_quota_command, cc_token_id = qc_token_id sample_quota_command,
        cc_client_request_id = qc_client_request_id sample_quota_command,
        cc_project_id = qc_project_id sample_quota_command,
        cc_payload_hash = qc_payload_hash sample_quota_command,
        cc_accepted_bytes = qc_accepted_bytes sample_quota_command\<rparr> (utc 0) (utc 300) ''l''
      (qd_local db) = Inr (lease_result Claim_Acquired (Some ''l'') (Some (utc 300)), rows)"
    by (simp add: r(3) local_acquire_def tx_refused_def)
  from admission_within_limits [OF ok r(1,2) acq lease_result_acquired(2)]
  have "int (count_where (in_flight (utc 0)) rows) \<le> 4" by (simp add: USAGE_LIMITS_def)
  with r acq show ?thesis by (auto simp: sample_quota_command_def)
qed

end
