(* ===== verification/Project_Access.thy ===== *)
theory Project_Access
  imports Access_Policy
begin

text \<open>
  Authorization at the SQL boundary (\<^verbatim>\<open>infrastructure/project_access.py\<close>): which
  projects and runs a principal can reach.  A principal without a user is the internal system
  principal; a human role never widens what the memberships grant.
\<close>

record project_row =
  pj_id :: int
  pj_repo :: "string option"
  pj_repo_key :: "string option"
  pj_repository_id :: "int option"
  pj_hidden :: bool
  pj_local_run_counter :: int

record user_row =
  us_id :: int
  us_role :: string
  us_disabled_at :: "datetime option"

record membership_row =
  mr_user_id :: int
  mr_project_id :: int
  mr_permission :: permission
  mr_source :: string
  mr_expires_at :: "datetime option"

record access_principal =
  ap_user_id :: "int option"
  ap_role :: string

definition sees_all_projects :: "access_principal \<Rightarrow> bool" where
  "sees_all_projects p \<longleftrightarrow> ap_user_id p = None"

definition membership_grants ::
    "int \<Rightarrow> permission \<Rightarrow> datetime \<Rightarrow> int \<Rightarrow> membership_row \<Rightarrow> bool" where
  "membership_grants user required now project m \<longleftrightarrow>
     mr_project_id m = project \<and> mr_user_id m = user \<and>
     mr_permission m \<in> allowed_permissions required \<and> mr_source m = ''github_app'' \<and>
     (case mr_expires_at m of None \<Rightarrow> False | Some e \<Rightarrow> dt_less now e)"

definition project_access_clause ::
    "membership_row list \<Rightarrow> datetime \<Rightarrow> access_principal \<Rightarrow> permission \<Rightarrow> project_row \<Rightarrow> bool" where
  "project_access_clause memberships now who required project \<longleftrightarrow>
     \<not> pj_hidden project \<and>
     (case ap_user_id who of
        None \<Rightarrow> True
      | Some user \<Rightarrow> list_ex (membership_grants user required now (pj_id project)) memberships)"

definition run_visibility_clause :: "access_principal \<Rightarrow> string \<Rightarrow> int option \<Rightarrow> bool" where
  "run_visibility_clause who origin submitter \<longleftrightarrow>
     (case ap_user_id who of
        None \<Rightarrow> True
      | Some user \<Rightarrow> origin \<noteq> ''local'' \<or> submitter = Some user)"

definition require_project ::
    "membership_row list \<Rightarrow> project_row list \<Rightarrow> datetime \<Rightarrow> access_principal \<Rightarrow> int \<Rightarrow> permission
     \<Rightarrow> project_row option" where
  "require_project memberships projects now who project_id required =
     find (\<lambda>p. pj_id p = project_id \<and> project_access_clause memberships now who required p) projects"

definition visible_project_ids ::
    "membership_row list \<Rightarrow> project_row list \<Rightarrow> datetime \<Rightarrow> access_principal \<Rightarrow> permission \<Rightarrow> int set option" where
  "visible_project_ids memberships projects now who required =
     (if sees_all_projects who then None
      else Some (pj_id ` {p \<in> set projects. project_access_clause memberships now who required p}))"

definition require_run ::
    "membership_row list \<Rightarrow> project_row list \<Rightarrow> (int \<times> string \<times> int option \<times> 'r) list \<Rightarrow> datetime
     \<Rightarrow> access_principal \<Rightarrow> ('r \<Rightarrow> bool) \<Rightarrow> permission \<Rightarrow> 'r option" where
  "require_run memberships projects runs now who wanted required =
     map_option (\<lambda>(_, _, _, r). r)
       (find (\<lambda>(project, origin, submitter, r). wanted r \<and>
          list_ex (\<lambda>p. pj_id p = project \<and> project_access_clause memberships now who required p) projects \<and>
          run_visibility_clause who origin submitter) runs)"

text \<open>The SQL clause decides as the framework-free policy does.\<close>

lemma run_visibility_policy:
  "run_visibility_clause who origin submitter =
     can_view_run \<lparr>principal_user_id = ap_user_id who, run_origin = origin, submitted_by = submitter\<rparr>"
  by (auto simp: run_visibility_clause_def can_view_run_def split: option.splits)

text \<open>A role never matters, and a stronger requirement is granted to fewer.\<close>

lemma project_access_antimono:
  assumes "required \<le> stronger" "project_access_clause ms now p stronger project"
  shows "project_access_clause ms now p required project"
proof -
  have "allowed_permissions stronger \<subseteq> allowed_permissions required"
    using assms(1) permission_allows_iff by (auto simp: permission_allows_def)
  with assms(2) show ?thesis
    by (fastforce simp: project_access_clause_def list_ex_iff membership_grants_def split: option.splits)
qed

lemma required_project_granted:
  assumes "require_project ms projects now p project_id required = Some project"
  shows "project \<in> set projects \<and> pj_id project = project_id \<and> \<not> pj_hidden project \<and>
    (\<forall>user. ap_user_id p = Some user \<longrightarrow>
      (\<exists>m \<in> set ms. membership_grants user required now project_id m))"
  using find_SomeD [OF assms [unfolded require_project_def]]
  by (auto simp: project_access_clause_def list_ex_iff)

end
