(* ===== verification/Result_Persist.thy ===== *)
theory Result_Persist
  imports Db_Session Result_Bundle Ingest_Attempt Usage_Store Project_Access
begin

text \<open>
  Persisting one result graph (\<^verbatim>\<open>ingestion/result_persister\<close>): the service stages
  the run, its job, its scanner runs, artifacts, findings and source contexts through a port,
  then the claim, and commits once; any exception rolls everything back.  The SQL adapters are
  modelled over the tables of one database.  Check constraints that a statement may violate are
  among the exceptions every statement may raise; unique keys are modelled.
\<close>

section \<open>The database\<close>

record run_row = run_record +
  rw_local_run_number :: "int option"

record scan_job =
  sj_run_id :: string
  sj_state :: string
  sj_queued_at :: "datetime option"
  sj_started_at :: "datetime option"
  sj_completed_at :: "datetime option"
  sj_error_message :: "string option"

record scanner_run =
  sc_id :: int
  sc_run_id :: string
  sc_scanner_kind :: codes
  sc_status :: string
  sc_completed_at :: "datetime option"
  sc_error_message :: "codes option"
  sc_image_reference :: "codes option"
  sc_image_digest :: "codes option"
  sc_tool_version :: "codes option"
  sc_database_version_json :: "codes option"

record scanner_artifact =
  sa_scanner_run_id :: int
  sa_kind :: string
  sa_content_blob :: bytes
  sa_content_hash :: string
  sa_size_bytes :: int

record finding_row =
  fr_id :: int
  fr_finding :: normalized_finding

record context_row =
  xr_run_id :: string
  xr_context_key :: json
  xr_payload :: members
  xr_findings :: "int list"

record ingest_db =
  db_locks :: "string list"
  db_charges :: "usage_charge list"
  db_local :: "local_claim_row list"
  db_github :: "github_claim_row list"
  db_attempts :: "attempt_record list"
  db_users :: "user_row list"
  db_memberships :: "membership_row list"
  db_projects :: "project_row list"
  db_runs :: "run_row list"
  db_jobs :: "scan_job list"
  db_scanner_runs :: "scanner_run list"
  db_artifacts :: "scanner_artifact list"
  db_findings :: "finding_row list"
  db_contexts :: "context_row list"

text \<open>What a rejected request carries to the HTTP adapter.\<close>

record ingest_problem =
  pb_status :: int
  pb_code :: string
  pb_title :: string
  pb_detail :: string
  pb_retryable :: bool
  pb_retry_after :: "int option"

datatype ingest_exn =
    Exn_problem ingest_problem
  | Exn_bundle bundle_error
  | Exn_attempt attempt_error
  | Exn_claim claim_error
  | Exn_quota quota_error
  | Exn_runtime string
  | Exn_integrity
  | Exn_no_row

section \<open>The port and the service\<close>

record 's persistence_port =
  pp_get :: "string \<Rightarrow> ('s, ingest_exn, run_row option) op"
  pp_add_run :: "run_record \<Rightarrow> ('s, ingest_exn, unit) op"
  pp_add_scan_job :: "run_record \<Rightarrow> ('s, ingest_exn, unit) op"
  pp_create_scanner_run :: "string \<Rightarrow> scanner_result \<Rightarrow> ('s, ingest_exn, int) op"
  pp_mark_completed :: "int \<Rightarrow> ('s, ingest_exn, unit) op"
  pp_mark_failed :: "int \<Rightarrow> codes \<Rightarrow> ('s, ingest_exn, unit) op"
  pp_mark_skipped :: "int \<Rightarrow> codes option \<Rightarrow> ('s, ingest_exn, unit) op"
  pp_store_artifact :: "int \<Rightarrow> string \<Rightarrow> bytes \<Rightarrow> ('s, ingest_exn, unit) op"
  pp_insert_findings :: "normalized_finding list \<Rightarrow> ('s, ingest_exn, unit) op"
  pp_insert_contexts :: "string \<Rightarrow> members list \<Rightarrow> ('s, ingest_exn, unit) op"
  pp_before_commit :: "string \<Rightarrow> ('s, ingest_exn, unit) op"
  pp_commit :: "('s, ingest_exn, unit) op"
  pp_rollback :: "('s, ingest_exn, unit) op"

definition error_or :: "codes option \<Rightarrow> codes \<Rightarrow> codes" where
  "error_or t fallback = (case t of None \<Rightarrow> fallback | Some s \<Rightarrow> if s = [] then fallback else s)"

definition stage_scanner ::
    "'s persistence_port \<Rightarrow> string \<Rightarrow> scanner_result \<Rightarrow> ('s, ingest_exn, unit) op" where
  "stage_scanner port run_id r =
     and_then (pp_create_scanner_run port run_id r) (\<lambda>i.
       if sr_status r = codes_of ''completed'' then pp_mark_completed port i
       else if sr_status r = codes_of ''failed''
       then pp_mark_failed port i (error_or (sr_error_code r) (codes_of ''scanner failed''))
       else pp_mark_skipped port i (sr_error_code r))"

definition plain_scanner :: "string \<Rightarrow> scanner_result" where
  "plain_scanner kind =
     \<lparr>sr_kind = codes_of kind, sr_status = codes_of ''completed'', sr_duration_ms = None,
      sr_image_reference = None, sr_image_digest = None, sr_tool_version = None,
      sr_database_version = None, sr_error_code = None\<rparr>"

definition stage_artifact ::
    "'s persistence_port \<Rightarrow> string \<Rightarrow> (string \<times> bytes) list \<Rightarrow> artifact_spec \<Rightarrow> ('s, ingest_exn, unit) op" where
  "stage_artifact port run_id artifacts spec =
     (case map_of artifacts (as_part_name spec) of
        None \<Rightarrow> return_op ()
      | Some content \<Rightarrow>
          and_then (pp_create_scanner_run port run_id (plain_scanner (as_scanner_kind spec))) (\<lambda>i.
          and_then (pp_mark_completed port i) (\<lambda>_.
          pp_store_artifact port i (as_artifact_kind spec) content)))"

definition stage_result ::
    "'s persistence_port \<Rightarrow> run_record \<Rightarrow> result_bundle \<Rightarrow> normalized_finding list \<Rightarrow> members list
     \<Rightarrow> ('s, ingest_exn, unit) op" where
  "stage_result port record bundle findings contexts =
     and_then (pp_add_run port record) (\<lambda>_.
     and_then (pp_add_scan_job port record) (\<lambda>_.
     and_then (each (stage_scanner port (rr_run_id record)) (sort_key sr_kind (rb_scanners bundle))) (\<lambda>_.
     and_then (each (stage_artifact port (rr_run_id record) (rb_artifacts bundle)) ARTIFACT_SPECS) (\<lambda>_.
     and_then (if findings = [] then return_op () else pp_insert_findings port findings) (\<lambda>_.
     and_then (if contexts = [] then return_op ()
               else pp_insert_contexts port (rr_run_id record) contexts) (\<lambda>_.
     and_then (pp_before_commit port (rr_run_id record)) (\<lambda>_.
     pp_commit port)))))))"

definition persist_result_bundle ::
    "'s persistence_port \<Rightarrow> run_record \<Rightarrow> result_bundle \<Rightarrow> normalized_finding list \<Rightarrow> members list
     \<Rightarrow> ('s, ingest_exn, unit) op" where
  "persist_result_bundle port record bundle findings contexts =
     on_error (stage_result port record bundle findings contexts) (pp_rollback port)"

datatype ingest_status = Ingested | Exists

definition or_raise :: "('f \<Rightarrow> 'e) \<Rightarrow> 'f + 'a \<Rightarrow> ('s, 'e, 'a) op" where
  "or_raise wrap x = (case x of Inl e \<Rightarrow> raise_op (wrap e) | Inr a \<Rightarrow> return_op a)"

lemma triple_or_raise:
  "(\<And>a. x = Inr a \<Longrightarrow> triple P (k a) Q E) \<Longrightarrow> (\<And>s. P s \<Longrightarrow> E s)
     \<Longrightarrow> triple P (and_then (or_raise wrap x) k) Q E"
  by (cases x) (auto simp: triple_def and_then_def or_raise_def raise_op_def return_op_def)

definition ingest_result_bundle ::
    "redaction_port \<Rightarrow> 's persistence_port \<Rightarrow> bool \<Rightarrow> ingest_envelope \<Rightarrow> result_bundle
     \<Rightarrow> ('s, ingest_exn, ingest_status) op" where
  "ingest_result_bundle redaction port require_new envelope bundle =
     and_then (or_raise Exn_bundle (validate_result_bundle envelope bundle)) (\<lambda>_.
     and_then (or_raise Exn_bundle (redact_result_bundle redaction bundle)) (\<lambda>clean.
     and_then (or_raise Exn_bundle (make_run_record redaction envelope clean)) (\<lambda>record.
     and_then (pp_get port (rr_run_id record)) (\<lambda>found.
     if found \<noteq> None then
       (if require_new then raise_op (Exn_bundle (Bundle_ValueError ''claimed result run already exists''))
        else return_op Exists)
     else
       and_then (or_raise Exn_bundle (normalize_findings (rr_run_id record) (rb_findings clean))) (\<lambda>findings.
       and_then (persist_result_bundle port record clean findings (rb_source_contexts clean)) (\<lambda>_.
       return_op Ingested))))))"

section \<open>What the service needs of a store\<close>

text \<open>
  A store keeps a log of what was published.  Between \<open>add_run\<close> and the claim the run is
  staged, after the claim it is fenced, and only the commit of a fenced run adds to the log;
  after a rollback nothing is pending.
\<close>

locale result_store =
  fixes port :: "'s persistence_port"
    and log :: "'s \<Rightarrow> 'entry list"
    and pending :: "'s \<Rightarrow> bool"
    and staged :: "run_record \<Rightarrow> 's \<Rightarrow> bool"
    and fenced :: "run_record \<Rightarrow> 's \<Rightarrow> bool"
    and publishes :: "run_record \<Rightarrow> 'entry \<Rightarrow> bool"
    and present :: "string \<Rightarrow> 's \<Rightarrow> bool"
  assumes add_run: "\<And>r l. triple (\<lambda>s. \<not> pending s \<and> log s = l) (pp_add_run port r)
      (\<lambda>_ s. staged r s \<and> log s = l) (\<lambda>s. log s = l)"
    and add_scan_job: "\<And>r r' l. triple (\<lambda>s. staged r s \<and> log s = l) (pp_add_scan_job port r')
      (\<lambda>_ s. staged r s \<and> log s = l) (\<lambda>s. log s = l)"
    and create_scanner_run: "\<And>r run result l. triple (\<lambda>s. staged r s \<and> log s = l) (pp_create_scanner_run port run result)
      (\<lambda>_ s. staged r s \<and> log s = l) (\<lambda>s. log s = l)"
    and mark_completed: "\<And>r i l. triple (\<lambda>s. staged r s \<and> log s = l) (pp_mark_completed port i)
      (\<lambda>_ s. staged r s \<and> log s = l) (\<lambda>s. log s = l)"
    and mark_failed: "\<And>r i err l. triple (\<lambda>s. staged r s \<and> log s = l) (pp_mark_failed port i err)
      (\<lambda>_ s. staged r s \<and> log s = l) (\<lambda>s. log s = l)"
    and mark_skipped: "\<And>r i reason l. triple (\<lambda>s. staged r s \<and> log s = l) (pp_mark_skipped port i reason)
      (\<lambda>_ s. staged r s \<and> log s = l) (\<lambda>s. log s = l)"
    and store_artifact: "\<And>r i kind content l. triple (\<lambda>s. staged r s \<and> log s = l) (pp_store_artifact port i kind content)
      (\<lambda>_ s. staged r s \<and> log s = l) (\<lambda>s. log s = l)"
    and insert_findings: "\<And>r findings l. triple (\<lambda>s. staged r s \<and> log s = l) (pp_insert_findings port findings)
      (\<lambda>_ s. staged r s \<and> log s = l) (\<lambda>s. log s = l)"
    and insert_contexts: "\<And>r run contexts l. triple (\<lambda>s. staged r s \<and> log s = l) (pp_insert_contexts port run contexts)
      (\<lambda>_ s. staged r s \<and> log s = l) (\<lambda>s. log s = l)"
    and before_commit: "\<And>r l. triple (\<lambda>s. staged r s \<and> log s = l) (pp_before_commit port (rr_run_id r))
      (\<lambda>_ s. fenced r s \<and> log s = l) (\<lambda>s. log s = l)"
    and commits: "\<And>r l. triple (\<lambda>s. fenced r s \<and> log s = l) (pp_commit port)
      (\<lambda>_ s. \<not> pending s \<and> (\<exists>e. log s = l @ [e] \<and> publishes r e)) (\<lambda>s. log s = l)"
    and rolls_back: "\<And>l. triple (\<lambda>s. log s = l) (pp_rollback port)
      (\<lambda>_ s. \<not> pending s \<and> log s = l) (\<lambda>s. \<not> pending s \<and> log s = l)"
    and reads: "\<And>run l. triple (\<lambda>s. \<not> pending s \<and> log s = l) (pp_get port run)
      (\<lambda>found s. \<not> pending s \<and> log s = l \<and> (found \<noteq> None \<longrightarrow> present run s))
      (\<lambda>s. \<not> pending s \<and> log s = l)"
begin

lemma stages_scanner:
  "triple (\<lambda>s. staged r s \<and> log s = l) (stage_scanner port run result)
     (\<lambda>_ s. staged r s \<and> log s = l) (\<lambda>s. log s = l)"
  unfolding stage_scanner_def
  by (rule triple_and_then [OF create_scanner_run])
    (intro triple_if mark_completed mark_failed mark_skipped)

lemma stages_artifact:
  "triple (\<lambda>s. staged r s \<and> log s = l) (stage_artifact port run artifacts spec)
     (\<lambda>_ s. staged r s \<and> log s = l) (\<lambda>s. log s = l)"
  unfolding stage_artifact_def
  by (intro triple_case_option triple_return)
    (auto intro: triple_and_then [OF create_scanner_run triple_and_then [OF mark_completed store_artifact]])

text \<open>All or nothing: the graph is published by one commit, or nothing is and nothing is pending.\<close>

lemma persists:
  "triple (\<lambda>s. \<not> pending s \<and> log s = l) (persist_result_bundle port r bundle findings contexts)
     (\<lambda>_ s. \<not> pending s \<and> (\<exists>e. log s = l @ [e] \<and> publishes r e)) (\<lambda>s. \<not> pending s \<and> log s = l)"
  unfolding persist_result_bundle_def stage_result_def
  by (rule triple_on_error [OF _ rolls_back], rule triple_and_then [OF add_run],
      rule triple_and_then [OF add_scan_job],
      rule triple_and_then [OF triple_each [OF stages_scanner]],
      rule triple_and_then [OF triple_each [OF stages_artifact]],
      rule triple_and_then [OF triple_if [OF triple_return insert_findings]], assumption,
      rule triple_and_then [OF triple_if [OF triple_return insert_contexts]], assumption,
      rule triple_and_then [OF before_commit commits])

end

text \<open>The whole of the ingestion keeps the same promise, whatever the bundle.\<close>

context result_store begin

lemma ingests:
  "triple (\<lambda>s. \<not> pending s \<and> log s = l) (ingest_result_bundle redaction port new envelope bundle)
     (\<lambda>status s. \<not> pending s \<and>
       (status = Exists \<and> \<not> new \<and> log s = l \<and>
          (\<exists>clean r. redact_result_bundle redaction bundle = Inr clean \<and>
            make_run_record redaction envelope clean = Inr r \<and> present (rr_run_id r) s) \<or>
        status = Ingested \<and> (\<exists>e clean r. log s = l @ [e] \<and> publishes r e \<and>
          redact_result_bundle redaction bundle = Inr clean \<and>
          make_run_record redaction envelope clean = Inr r)))
     (\<lambda>s. \<not> pending s \<and> log s = l)"
proof -
  define Q where "Q = (\<lambda>status s. \<not> pending s \<and>
       (status = Exists \<and> \<not> new \<and> log s = l \<and>
          (\<exists>clean r. redact_result_bundle redaction bundle = Inr clean \<and>
            make_run_record redaction envelope clean = Inr r \<and> present (rr_run_id r) s) \<or>
        status = Ingested \<and> (\<exists>e clean r. log s = l @ [e] \<and> publishes r e \<and>
          redact_result_bundle redaction bundle = Inr clean \<and>
          make_run_record redaction envelope clean = Inr r)))"
  have found: "triple (\<lambda>s. \<not> pending s \<and> log s = l \<and> (found \<noteq> None \<longrightarrow> present (rr_run_id r) s))
      (if found \<noteq> None then
         (if new then raise_op (Exn_bundle (Bundle_ValueError ''claimed result run already exists''))
          else return_op Exists)
       else
         and_then (or_raise Exn_bundle (normalize_findings (rr_run_id r) (rb_findings c))) (\<lambda>findings.
         and_then (persist_result_bundle port r c findings (rb_source_contexts c)) (\<lambda>_.
         return_op Ingested))) Q (\<lambda>s. \<not> pending s \<and> log s = l)"
    if "redact_result_bundle redaction bundle = Inr c" "make_run_record redaction envelope c = Inr r"
    for found :: "run_row option" and c r
  proof (cases "found \<noteq> None")
    case True
    with that show ?thesis by (auto simp: Q_def intro!: triple_raise triple_return)
  next
    case False
    have "triple (\<lambda>s. \<not> pending s \<and> log s = l)
        (and_then (persist_result_bundle port r c fs (rb_source_contexts c)) (\<lambda>_. return_op Ingested))
        Q (\<lambda>s. \<not> pending s \<and> log s = l)" for fs
      by (rule triple_and_then [OF persists], rule triple_return) (use that in \<open>auto simp: Q_def\<close>)
    with False show ?thesis by (auto intro!: triple_or_raise)
  qed
  show ?thesis
    unfolding ingest_result_bundle_def Q_def [symmetric]
    by (rule triple_or_raise, rule triple_or_raise, rule triple_or_raise, rule triple_and_then [OF reads])
      (rule found, assumption, assumption, simp_all)
qed

end

section \<open>The SQL adapter\<close>

record sql_env =
  sq_now :: datetime
  sq_gzip :: "bytes \<Rightarrow> bytes"
  sq_sha :: "bytes \<Rightarrow> bytes"
  sq_new_id :: string

definition next_id :: "int list \<Rightarrow> int" where
  "next_id ids = (if ids = [] then 1 else Max (set ids) + 1)"

text \<open>The counter of the project numbers its local runs.\<close>

definition next_local_number ::
    "run_record \<Rightarrow> project_row list \<Rightarrow> ingest_exn + int option \<times> project_row list" where
  "next_local_number r projects =
     (if rr_origin r \<noteq> ''local'' then Inr (None, projects)
      else (case filter (\<lambda>p. pj_id p = rr_project_id r) projects of
              [p] \<Rightarrow> Inr (Some (pj_local_run_counter p + 1),
                update_where (\<lambda>p. pj_id p = rr_project_id r)
                  (\<lambda>p. p\<lparr>pj_local_run_counter := pj_local_run_counter p + 1\<rparr>) projects)
            | _ \<Rightarrow> Inl Exn_no_row))"

definition sql_add_run :: "run_record \<Rightarrow> ingest_db \<Rightarrow> ingest_exn + unit \<times> ingest_db" where
  "sql_add_run r d =
     (case next_local_number r (db_projects d) of
        Inl e \<Rightarrow> Inl e
      | Inr (number, projects) \<Rightarrow>
          if rr_run_id r \<in> rr_run_id ` set (db_runs d) then Inl Exn_integrity
          else Inr ((), d\<lparr>db_projects := projects,
                          db_runs := db_runs d @ [run_record.extend r \<lparr>rw_local_run_number = number\<rparr>]\<rparr>))"

definition sql_add_scan_job :: "run_record \<Rightarrow> ingest_db \<Rightarrow> ingest_exn + unit \<times> ingest_db" where
  "sql_add_scan_job r d =
     (if rr_run_id r \<in> sj_run_id ` set (db_jobs d) then Inl Exn_integrity
      else Inr ((), d\<lparr>db_jobs := db_jobs d @
        [\<lparr>sj_run_id = rr_run_id r, sj_state = rr_status r, sj_queued_at = rr_started_at r,
          sj_started_at = rr_started_at r, sj_completed_at = rr_completed_at r,
          sj_error_message = rr_error_message r\<rparr>]\<rparr>))"

definition sql_create_scanner_run ::
    "string \<Rightarrow> scanner_result \<Rightarrow> ingest_db \<Rightarrow> ingest_exn + int \<times> ingest_db" where
  "sql_create_scanner_run run_id r d =
     (let i = next_id (map sc_id (db_scanner_runs d)) in
      if (run_id, sr_kind r) \<in> (\<lambda>x. (sc_run_id x, sc_scanner_kind x)) ` set (db_scanner_runs d)
      then Inl Exn_integrity
      else Inr (i, d\<lparr>db_scanner_runs := db_scanner_runs d @
        [\<lparr>sc_id = i, sc_run_id = run_id, sc_scanner_kind = sr_kind r, sc_status = ''pending'',
          sc_completed_at = None, sc_error_message = None,
          sc_image_reference = sr_image_reference r, sc_image_digest = sr_image_digest r,
          sc_tool_version = sr_tool_version r,
          sc_database_version_json = map_option
            (\<lambda>v. codes_of ''{\"version\": '' @ ascii_quote v @ codes_of ''}'') (sr_database_version r)\<rparr>]\<rparr>))"

definition mark_scanner ::
    "int \<Rightarrow> string \<Rightarrow> datetime option \<Rightarrow> codes option \<Rightarrow> ingest_db \<Rightarrow> ingest_exn + unit \<times> ingest_db" where
  "mark_scanner i status completed_at err d =
     Inr ((), d\<lparr>db_scanner_runs := update_where (\<lambda>x. sc_id x = i)
       (\<lambda>x. x\<lparr>sc_status := status,
               sc_completed_at := (case completed_at of None \<Rightarrow> sc_completed_at x | t \<Rightarrow> t),
               sc_error_message := (if status = ''completed'' then sc_error_message x else err)\<rparr>)
       (db_scanner_runs d)\<rparr>)"

definition sql_store_artifact ::
    "sql_env \<Rightarrow> int \<Rightarrow> string \<Rightarrow> bytes \<Rightarrow> ingest_db \<Rightarrow> ingest_exn + unit \<times> ingest_db" where
  "sql_store_artifact env i kind content d =
     Inr ((), d\<lparr>db_artifacts := db_artifacts d @
       [\<lparr>sa_scanner_run_id = i, sa_kind = kind, sa_content_blob = sq_gzip env content,
         sa_content_hash = ''sha256:'' @ hex_encode (sq_sha env content),
         sa_size_bytes = int (length content)\<rparr>]\<rparr>)"

definition finding_key_pair :: "normalized_finding \<Rightarrow> string \<times> json" where
  "finding_key_pair f = (nf_run_id f, nf_finding_key f)"

text \<open>Rows without a key do not collide; a missing severity violates its column.\<close>

fun insert_finding_rows ::
    "normalized_finding list \<Rightarrow> finding_row list \<Rightarrow> ingest_exn + finding_row list" where
  "insert_finding_rows [] rows = Inr rows"
| "insert_finding_rows (f # fs) rows =
     (if nf_severity f = JNull \<or>
         nf_finding_key f \<noteq> JNull \<and> finding_key_pair f \<in> (finding_key_pair \<circ> fr_finding) ` set rows
      then Inl Exn_integrity
      else insert_finding_rows fs (rows @ [\<lparr>fr_id = next_id (map fr_id rows), fr_finding = f\<rparr>]))"

definition sql_insert_findings ::
    "normalized_finding list \<Rightarrow> ingest_db \<Rightarrow> ingest_exn + unit \<times> ingest_db" where
  "sql_insert_findings fs d =
     (case insert_finding_rows fs (db_findings d) of
        Inl e \<Rightarrow> Inl e
      | Inr rows \<Rightarrow> Inr ((), d\<lparr>db_findings := rows\<rparr>))"

definition finding_id_of :: "string \<Rightarrow> finding_row list \<Rightarrow> json \<Rightarrow> int option" where
  "finding_id_of run_id rows key =
     (if key = JNull then None
      else map_option fr_id (find (\<lambda>r. finding_key_pair (fr_finding r) = (run_id, key)) rows))"

fun insert_context_rows ::
    "string \<Rightarrow> finding_row list \<Rightarrow> members list \<Rightarrow> context_row list \<Rightarrow> ingest_exn + context_row list" where
  "insert_context_rows run_id findings [] rows = Inr rows"
| "insert_context_rows run_id findings (c # cs) rows =
     (case (required c ''context_key'', finding_keys_of c) of
        (Inr key, Some keys) \<Rightarrow>
          if (run_id, key) \<in> (\<lambda>x. (xr_run_id x, xr_context_key x)) ` set rows then Inl Exn_integrity
          else (case those (map (finding_id_of run_id findings) keys) of
                  None \<Rightarrow> Inl (Exn_bundle (Bundle_ValueError ''source context finding keys were not persisted''))
                | Some ids \<Rightarrow>
                    if \<not> distinct ids then Inl Exn_integrity
                    else insert_context_rows run_id findings cs
                      (rows @ [\<lparr>xr_run_id = run_id, xr_context_key = key, xr_payload = c, xr_findings = ids\<rparr>]))
      | (Inl e, _) \<Rightarrow> Inl (Exn_bundle e)
      | (_, None) \<Rightarrow> Inl (Exn_bundle Bundle_TypeError))"

definition sql_insert_contexts ::
    "string \<Rightarrow> members list \<Rightarrow> ingest_db \<Rightarrow> ingest_exn + unit \<times> ingest_db" where
  "sql_insert_contexts run_id cs d =
     (case insert_context_rows run_id (db_findings d) cs (db_contexts d) of
        Inl e \<Rightarrow> Inl e
      | Inr rows \<Rightarrow> Inr ((), d\<lparr>db_contexts := rows\<rparr>))"

definition sql_get_run :: "string \<Rightarrow> ingest_db \<Rightarrow> ingest_exn + run_row option \<times> ingest_db" where
  "sql_get_run run_id d = Inr (find (\<lambda>r. rr_run_id r = run_id) (db_runs d), d)"

definition sql_persistence ::
    "sql_env \<Rightarrow> (string \<Rightarrow> (ingest_db session, ingest_exn, unit) op) \<Rightarrow> ingest_db session persistence_port" where
  "sql_persistence env before_commit =
     \<lparr>pp_get = \<lambda>run_id. statement (sql_get_run run_id),
      pp_add_run = \<lambda>r. statement (sql_add_run r),
      pp_add_scan_job = \<lambda>r. statement (sql_add_scan_job r),
      pp_create_scanner_run = \<lambda>run_id r. statement (sql_create_scanner_run run_id r),
      pp_mark_completed = \<lambda>i. statement (mark_scanner i ''completed'' (Some (sq_now env)) None),
      pp_mark_failed = \<lambda>i err. statement (mark_scanner i ''failed'' (Some (sq_now env)) (Some err)),
      pp_mark_skipped = \<lambda>i reason. statement (mark_scanner i ''skipped'' None reason),
      pp_store_artifact = \<lambda>i kind content. statement (sql_store_artifact env i kind content),
      pp_insert_findings = \<lambda>fs. statement (sql_insert_findings fs),
      pp_insert_contexts = \<lambda>run_id cs. statement (sql_insert_contexts run_id cs),
      pp_before_commit = before_commit,
      pp_commit = commit,
      pp_rollback = rollback\<rparr>"

end
