(* ===== verification/Claim_Persist.thy ===== *)
theory Claim_Persist
  imports Result_Persist
begin

text \<open>
  The persistence of the two upload workflows (\<^verbatim>\<open>infrastructure/local_scan_ingest.py\<close> and
  \<^verbatim>\<open>infrastructure/github_oidc_ingest.py\<close>): before the commit of a result graph the claim
  that was bound to the request is completed in the same transaction, fenced by its lease, and
  the audit attempt is staged.  Both adapters are stores in the sense of \<open>result_store\<close>.
\<close>

section \<open>Binding\<close>

record 'claim bound =
  bd_claim :: "'claim option"
  bd_attempt :: "attempt_record option"

definition unbound :: "'claim bound" where
  "unbound = \<lparr>bd_claim = None, bd_attempt = None\<rparr>"

definition bind_claim :: "'claim \<Rightarrow> 'claim bound \<Rightarrow> ingest_exn + 'claim bound" where
  "bind_claim claim b =
     (if bd_claim b \<noteq> None then Inl (Exn_runtime ''ingest persistence is already bound to a claim'')
      else Inr (b\<lparr>bd_claim := Some claim\<rparr>))"

definition bind_attempt :: "attempt_record \<Rightarrow> 'claim bound \<Rightarrow> ingest_exn + 'claim bound" where
  "bind_attempt attempt b =
     (if bd_attempt b \<noteq> None then Inl (Exn_runtime ''ingest persistence is already bound to an attempt'')
      else Inr (b\<lparr>bd_attempt := Some attempt\<rparr>))"

section \<open>Statements on the claim and attempt tables\<close>

definition local_complete_row ::
    "idempotency_claim \<Rightarrow> string \<Rightarrow> datetime \<Rightarrow> ingest_db \<Rightarrow> ingest_exn + bool \<times> ingest_db" where
  "local_complete_row claim run_id now d =
     (case local_complete claim run_id now (db_local d) of
        Inl e \<Rightarrow> Inl (Exn_claim e)
      | Inr (done_, rows) \<Rightarrow> Inr (done_, d\<lparr>db_local := rows\<rparr>))"

definition github_complete_row ::
    "github_idempotency_claim \<Rightarrow> string \<Rightarrow> datetime \<Rightarrow> ingest_db \<Rightarrow> ingest_exn + bool \<times> ingest_db" where
  "github_complete_row claim run_id now d =
     (case github_complete claim run_id now (db_github d) of
        Inl e \<Rightarrow> Inl (Exn_claim e)
      | Inr (done_, rows) \<Rightarrow> Inr (done_, d\<lparr>db_github := rows\<rparr>))"

definition stage_attempt_row :: "attempt_record \<Rightarrow> ingest_db \<Rightarrow> ingest_exn + unit \<times> ingest_db" where
  "stage_attempt_row r d =
     (case attempt_stage r (db_attempts d) of
        Inl e \<Rightarrow> Inl (Exn_attempt e)
      | Inr rows \<Rightarrow> Inr ((), d\<lparr>db_attempts := rows\<rparr>))"

definition completing_before_commit ::
    "('claim \<Rightarrow> string \<Rightarrow> datetime \<Rightarrow> ingest_db \<Rightarrow> ingest_exn + bool \<times> ingest_db) \<Rightarrow> datetime
     \<Rightarrow> 'claim bound \<Rightarrow> string \<Rightarrow> (ingest_db session, ingest_exn, unit) op" where
  "completing_before_commit complete_row now b run_id =
     (case bd_claim b of
        None \<Rightarrow> raise_op (Exn_runtime ''ingest persistence has no idempotency claim'')
      | Some claim \<Rightarrow>
          and_then (statement (complete_row claim run_id now)) (\<lambda>completed.
          if \<not> completed
          then raise_op (Exn_runtime ''ingest idempotency lease was lost before commit'')
          else (case bd_attempt b of
                  None \<Rightarrow> raise_op (Exn_runtime ''ingest persistence has no audit attempt'')
                | Some attempt \<Rightarrow> statement (stage_attempt_row attempt))))"

definition local_persistence ::
    "sql_env \<Rightarrow> idempotency_claim bound \<Rightarrow> ingest_db session persistence_port" where
  "local_persistence env b =
     sql_persistence env (completing_before_commit local_complete_row (sq_now env) b)"

definition github_persistence ::
    "sql_env \<Rightarrow> github_idempotency_claim bound \<Rightarrow> ingest_db session persistence_port" where
  "github_persistence env b =
     sql_persistence env (completing_before_commit github_complete_row (sq_now env) b)"

section \<open>Both adapters are result stores\<close>

text \<open>The run of a record is the only new one, the claims are as they were.\<close>

definition adds_run :: "run_record \<Rightarrow> ingest_db \<Rightarrow> ingest_db \<Rightarrow> bool" where
  "adds_run r before after \<longleftrightarrow>
     (\<exists>n. db_runs after = db_runs before @ [run_record.extend r \<lparr>rw_local_run_number = n\<rparr>])"

lemma adds_run_insert:
  "adds_run r d (d\<lparr>db_projects := ps, db_runs := db_runs d @ [run_record.extend r \<lparr>rw_local_run_number = n\<rparr>]\<rparr>)"
  unfolding adds_run_def by (rule exI [of _ n]) simp

definition run_staged :: "run_record \<Rightarrow> ingest_db session \<Rightarrow> bool" where
  "run_staged r s \<longleftrightarrow>
     adds_run r (se_saved s) (se_work s) \<and> db_local (se_work s) = db_local (se_saved s) \<and>
     db_github (se_work s) = db_github (se_saved s)"

text \<open>One row of the claim's table was owned by the claim and is completed with the run.\<close>

definition claim_completed ::
    "('claim \<Rightarrow> string \<Rightarrow> datetime \<Rightarrow> ingest_db \<Rightarrow> ingest_exn + bool \<times> ingest_db)
     \<Rightarrow> 'claim bound \<Rightarrow> string \<Rightarrow> ingest_db \<Rightarrow> ingest_db \<Rightarrow> bool" where
  "claim_completed complete_row b run_id before after \<longleftrightarrow>
     (\<exists>claim now mid. bd_claim b = Some claim \<and> db_local mid = db_local before \<and>
        db_github mid = db_github before \<and>
        (\<exists>done. complete_row claim run_id now mid = Inr (True, done) \<and>
          db_local after = db_local done \<and> db_github after = db_github done))"

definition publishes_claimed ::
    "('claim \<Rightarrow> string \<Rightarrow> datetime \<Rightarrow> ingest_db \<Rightarrow> ingest_exn + bool \<times> ingest_db)
     \<Rightarrow> 'claim bound \<Rightarrow> run_record \<Rightarrow> ingest_db \<times> ingest_db \<Rightarrow> bool" where
  "publishes_claimed complete_row b r e \<longleftrightarrow>
     adds_run r (fst e) (snd e) \<and> claim_completed complete_row b (rr_run_id r) (fst e) (snd e)"

definition run_fenced ::
    "('claim \<Rightarrow> string \<Rightarrow> datetime \<Rightarrow> ingest_db \<Rightarrow> ingest_exn + bool \<times> ingest_db)
     \<Rightarrow> 'claim bound \<Rightarrow> run_record \<Rightarrow> ingest_db session \<Rightarrow> bool" where
  "run_fenced complete_row b r s \<longleftrightarrow> publishes_claimed complete_row b r (se_saved s, se_work s)"

text \<open>A statement that leaves the runs and the claims alone keeps a run staged.\<close>

definition frames :: "(ingest_db \<Rightarrow> ingest_exn + 'a \<times> ingest_db) \<Rightarrow> bool" where
  "frames f \<longleftrightarrow>
     (\<forall>d a d'. f d = Inr (a, d') \<longrightarrow> db_runs d' = db_runs d \<and> db_local d' = db_local d \<and>
       db_github d' = db_github d)"

lemma framesI:
  "(\<And>d a d'. f d = Inr (a, d') \<Longrightarrow> db_runs d' = db_runs d \<and> db_local d' = db_local d \<and>
     db_github d' = db_github d) \<Longrightarrow> frames f"
  by (auto simp: frames_def)

lemma adapter_frames:
  "frames (sql_add_scan_job r)" "frames (sql_create_scanner_run run_id result)"
  "frames (mark_scanner i status t err)" "frames (sql_store_artifact env i kind content)"
  "frames (sql_insert_findings fs)" "frames (sql_insert_contexts run_id cs)"
  "frames (sql_get_run run_id)" "frames (stage_attempt_row attempt)"
  by (rule framesI, auto simp: sql_add_scan_job_def sql_create_scanner_run_def mark_scanner_def
      sql_store_artifact_def sql_insert_findings_def sql_insert_contexts_def sql_get_run_def
      stage_attempt_row_def Let_def split: if_splits sum.splits)+

lemma frames_keep_staged:
  "frames f \<Longrightarrow> triple (\<lambda>s. run_staged r s \<and> se_log s = l) (statement f)
     (\<lambda>_ s. run_staged r s \<and> se_log s = l) (\<lambda>s. se_log s = l)"
  by (rule triple_statement) (auto simp: fault_free_def run_staged_def adds_run_def frames_def)

lemma add_run_stages:
  "triple (\<lambda>s. \<not> \<not> idle s \<and> se_log s = l) (statement (sql_add_run r))
     (\<lambda>_ s. run_staged r s \<and> se_log s = l) (\<lambda>s. se_log s = l)"
  by (rule triple_statement)
    (auto simp: fault_free_def run_staged_def idle_def sql_add_run_def
      split: if_splits sum.splits intro: adds_run_insert)

definition run_present :: "string \<Rightarrow> ingest_db session \<Rightarrow> bool" where
  "run_present run_id s \<longleftrightarrow> run_id \<in> rr_run_id ` set (db_runs (se_work s))"

lemma reads_run:
  "triple (\<lambda>s. \<not> \<not> idle s \<and> se_log s = l) (statement (sql_get_run run_id))
     (\<lambda>found s. \<not> \<not> idle s \<and> se_log s = l \<and> (found \<noteq> None \<longrightarrow> run_present run_id s))
     (\<lambda>s. \<not> \<not> idle s \<and> se_log s = l)"
  by (rule triple_statement)
    (auto simp: fault_free_def idle_def sql_get_run_def run_present_def dest!: find_SomeD)

lemma completes_before_commit:
  assumes "\<And>claim run now d a d'. complete_row claim run now d = Inr (a, d') \<Longrightarrow> db_runs d' = db_runs d"
  shows "triple (\<lambda>s. run_staged r s \<and> se_log s = l)
    (completing_before_commit complete_row now b (rr_run_id r))
    (\<lambda>_ s. run_fenced complete_row b r s \<and> se_log s = l) (\<lambda>s. se_log s = l)"
proof (cases "bd_claim b")
  case None
  then show ?thesis unfolding completing_before_commit_def option.case by (simp only: option.case) (rule triple_raise, simp)
next
  case (Some claim)
  have first: "triple (\<lambda>s. run_staged r s \<and> se_log s = l) (statement (complete_row claim (rr_run_id r) now))
      (\<lambda>completed s. se_log s = l \<and> (completed \<longrightarrow> run_fenced complete_row b r s)) (\<lambda>s. se_log s = l)"
  proof (rule triple_statement)
    fix s a d
    assume s: "run_staged r s \<and> se_log s = l"
      and d: "complete_row claim (rr_run_id r) now (se_work s) = Inr (a, d)"
    from s assms [OF d] have "adds_run r (se_saved s) d" by (auto simp: run_staged_def adds_run_def)
    moreover have "claim_completed complete_row b (rr_run_id r) (se_saved s) d" if a
      using s d Some that unfolding claim_completed_def run_staged_def
      by (intro exI [of _ claim] exI [of _ now] exI [of _ "se_work s"]) auto
    ultimately show "se_log (s\<lparr>se_work := d\<rparr>) = l \<and>
        (a \<longrightarrow> run_fenced complete_row b r (s\<lparr>se_work := d\<rparr>))"
      using s by (simp add: run_fenced_def publishes_claimed_def)
  qed (auto simp: fault_free_def run_staged_def)
  have last: "triple (\<lambda>s. run_fenced complete_row b r s \<and> se_log s = l) (statement (stage_attempt_row attempt))
      (\<lambda>_ s. run_fenced complete_row b r s \<and> se_log s = l) (\<lambda>s. se_log s = l)" for attempt
    using adapter_frames(8) [of attempt]
    by (intro triple_statement)
      (auto simp: fault_free_def run_fenced_def publishes_claimed_def adds_run_def claim_completed_def frames_def)
  have "triple (\<lambda>s. se_log s = l \<and> (completed \<longrightarrow> run_fenced complete_row b r s))
      (if \<not> completed then raise_op (Exn_runtime ''ingest idempotency lease was lost before commit'')
       else (case bd_attempt b of
               None \<Rightarrow> raise_op (Exn_runtime ''ingest persistence has no audit attempt'')
             | Some attempt \<Rightarrow> statement (stage_attempt_row attempt)))
      (\<lambda>_ s. run_fenced complete_row b r s \<and> se_log s = l) (\<lambda>s. se_log s = l)" for completed
    by (intro triple_if triple_case_option triple_raise triple_weaken [OF last]) auto
  with first show ?thesis
    unfolding completing_before_commit_def Some option.case by (rule triple_and_then)
qed

lemma sql_result_store:
  assumes hook: "\<And>r l. triple (\<lambda>s. run_staged r s \<and> se_log s = l) (before_commit (rr_run_id r))
      (\<lambda>_ s. run_fenced complete_row b r s \<and> se_log s = l) (\<lambda>s. se_log s = l)"
  shows "result_store (sql_persistence env before_commit) se_log (\<lambda>s. \<not> idle s) run_staged
    (run_fenced complete_row b) (publishes_claimed complete_row b) run_present"
proof
  fix r l
  show "triple (\<lambda>s. run_fenced complete_row b r s \<and> se_log s = l) (pp_commit (sql_persistence env before_commit))
      (\<lambda>_ s. \<not> \<not> idle s \<and> (\<exists>e. se_log s = l @ [e] \<and> publishes_claimed complete_row b r e))
      (\<lambda>s. se_log s = l)"
    unfolding sql_persistence_def persistence_port.simps
    by (rule triple_commit) (auto simp: fault_free_def run_fenced_def)
next
  fix l
  show "triple (\<lambda>s. se_log s = l) (pp_rollback (sql_persistence env before_commit))
      (\<lambda>_ s. \<not> \<not> idle s \<and> se_log s = l) (\<lambda>s. \<not> \<not> idle s \<and> se_log s = l)"
    unfolding sql_persistence_def persistence_port.simps
    by (rule triple_rollback) (auto simp: fault_free_def)
qed (use add_run_stages frames_keep_staged [OF adapter_frames(1)] frames_keep_staged [OF adapter_frames(2)]
      frames_keep_staged [OF adapter_frames(3)] frames_keep_staged [OF adapter_frames(4)]
      frames_keep_staged [OF adapter_frames(5)] frames_keep_staged [OF adapter_frames(6)] hook
      reads_run in \<open>simp_all add: sql_persistence_def\<close>)

lemma complete_rows_keep_runs:
  "local_complete_row claim run now d = Inr (a, d') \<Longrightarrow> db_runs d' = db_runs d"
  "github_complete_row claim' run now d = Inr (a, d') \<Longrightarrow> db_runs d' = db_runs d"
  by (auto simp: local_complete_row_def github_complete_row_def split: sum.splits)

interpretation local_results: result_store "local_persistence env b" se_log "\<lambda>s. \<not> idle s" run_staged
  "run_fenced local_complete_row b" "publishes_claimed local_complete_row b" run_present
  unfolding local_persistence_def
  by (rule sql_result_store) (rule completes_before_commit, rule complete_rows_keep_runs)

interpretation github_results: result_store "github_persistence env b" se_log "\<lambda>s. \<not> idle s" run_staged
  "run_fenced github_complete_row b" "publishes_claimed github_complete_row b" run_present
  unfolding github_persistence_def
  by (rule sql_result_store) (rule completes_before_commit, rule complete_rows_keep_runs)

section \<open>Transactions that publish no run\<close>

definition publishes_run :: "ingest_db \<times> ingest_db \<Rightarrow> bool" where
  "publishes_run e \<longleftrightarrow> db_runs (snd e) \<noteq> db_runs (fst e)"

definition published :: "ingest_db session \<Rightarrow> (ingest_db \<times> ingest_db) list" where
  "published s = filter publishes_run (se_log s)"

definition quiet :: "ingest_db session \<Rightarrow> bool" where
  "quiet s \<longleftrightarrow> db_runs (se_work s) = db_runs (se_saved s) \<and> published s = []"

definition settled :: "ingest_db session \<Rightarrow> bool" where
  "settled s \<longleftrightarrow> idle s \<and> published s = []"

definition keeps_runs :: "(ingest_db \<Rightarrow> ingest_exn + 'a \<times> ingest_db) \<Rightarrow> bool" where
  "keeps_runs f \<longleftrightarrow> (\<forall>d a d'. f d = Inr (a, d') \<longrightarrow> db_runs d' = db_runs d)"

lemma published_faults [simp]: "published (s\<lparr>se_faults := fs\<rparr>) = published s"
  "published (s\<lparr>se_work := d\<rparr>) = published s" "published (next_transaction d s) = published s"
  by (simp_all add: published_def)

lemma settled_quiet: "settled s \<Longrightarrow> quiet s"
  by (simp add: settled_def quiet_def idle_def)

lemma quiet_published: "quiet s \<Longrightarrow> published s = []"
  by (simp add: quiet_def)

lemma settled_published: "settled s \<Longrightarrow> published s = []"
  by (simp add: settled_def)

lemma quiet_statement: "keeps_runs f \<Longrightarrow> triple quiet (statement f) (\<lambda>_. quiet) quiet"
  by (rule triple_statement) (auto simp: fault_free_def quiet_def keeps_runs_def)

lemma quiet_commit: "triple quiet commit (\<lambda>_. settled) quiet"
  by (rule triple_commit) (auto simp: fault_free_def quiet_def settled_def published_def publishes_run_def)

lemma quiet_rollback: "triple quiet rollback (\<lambda>_. settled) settled"
  by (rule triple_rollback) (auto simp: fault_free_def quiet_def settled_def)

lemma settled_weaken:
  "triple quiet m (\<lambda>_. settled) settled \<Longrightarrow> triple quiet m (\<lambda>_. quiet) quiet"
  by (erule triple_weaken) (auto intro: settled_quiet)

lemma quiet_attempt: "keeps_runs (stage_attempt_row r)"
  by (auto simp: keeps_runs_def stage_attempt_row_def split: sum.splits)

text \<open>Whatever happens before the ingestion, at most its own commit publishes a run.\<close>

lemma from_settled:
  assumes "\<And>l. triple (\<lambda>s. \<not> \<not> idle s \<and> se_log s = l) m (\<lambda>a s. Q a l s) (\<lambda>s. \<not> \<not> idle s \<and> se_log s = l)"
    and "\<And>a l s. filter publishes_run l = [] \<Longrightarrow> Q a l s \<Longrightarrow> R a s"
  shows "triple settled m R settled"
proof (rule tripleI)
  fix s
  assume "settled s"
  then have s: "idle s" "filter publishes_run (se_log s) = []" by (simp_all add: settled_def published_def)
  show "case m s of (Inl e, s') \<Rightarrow> settled s' | (Inr a, s') \<Rightarrow> R a s'"
  proof (cases "m s")
    case (Pair r s')
    show ?thesis
    proof (cases r)
      case (Inl e)
      have "\<not> \<not> idle s' \<and> se_log s' = se_log s"
        using triple_error [OF assms(1), of s "se_log s"] s(1) Pair Inl by simp
      with Pair Inl s(2) show ?thesis by (simp add: settled_def published_def)
    next
      case (Inr a)
      have "Q a (se_log s) s'" using triple_result [OF assms(1), of s "se_log s"] s(1) Pair Inr by simp
      from assms(2) [OF s(2) this] Pair Inr show ?thesis by simp
    qed
  qed
qed

end
