(* ===== verification/Envelope.thy ===== *)
theory Envelope
  imports Py_Json Contracts "HOL-Library.List_Lexorder"
begin

text \<open>
  The envelope contract (\<^verbatim>\<open>ingestion/envelope_contract\<close>): strict JSON, its canonical
  form with members in UTF-16 order, and the domain-separated hash over the five parts of an
  upload.  SHA-256 is the parameter \<open>sha\<close> and the interpreter's recursion limit the parameter
  \<open>limit\<close>.
\<close>

section \<open>Errors and validation\<close>

text \<open>
  \<open>Plain_ValueError\<close> and \<open>Plain_RecursionError\<close> are what the decoder raises and the
  contract does not translate.
\<close>

datatype canonical_error =
    CanonicalJSONError string
  | EnvelopeHashError string
  | Plain_ValueError
  | Plain_RecursionError
  | Plain_UnicodeError

definition MAX_SAFE_INTEGER :: int where "MAX_SAFE_INTEGER = 9007199254740991"

definition duplicate_key :: canonical_error where
  "duplicate_key = CanonicalJSONError ''duplicate JSON key''"

definition outside_profile :: canonical_error where
  "outside_profile = CanonicalJSONError ''value is outside the frozen JSON profile''"

definition reject_number :: "codes \<Rightarrow> canonical_error + json" where
  "reject_number s = Inl (CanonicalJSONError ''non-integer JSON numbers are forbidden'')"

definition strict_hooks :: "canonical_error json_hooks" where
  "strict_hooks =
     \<lparr>jh_object = unique_hook duplicate_key, jh_float = reject_number, jh_constant = reject_number\<rparr>"

definition validate_text :: "codes \<Rightarrow> canonical_error + unit" where
  "validate_text s =
     (if list_all scalar_value s then Inr ()
      else Inl (CanonicalJSONError ''JSON strings must contain Unicode scalar values''))"

lemma member_size [termination_simp]:
  "m \<in> set ms \<Longrightarrow> size (snd m) < size_list (\<lambda>x. Suc (size (snd x))) ms"
  by (induction ms) auto

fun validate_value :: "int \<Rightarrow> int \<Rightarrow> json \<Rightarrow> canonical_error + unit" where
  "validate_value maximum_depth depth v =
     (if maximum_depth < depth
      then Inl (CanonicalJSONError ''JSON nesting exceeds the protocol limit'')
      else case v of
        JNull \<Rightarrow> Inr ()
      | JBool b \<Rightarrow> Inr ()
      | JString s \<Rightarrow> validate_text s
      | JInt n \<Rightarrow>
          if MAX_SAFE_INTEGER < \<bar>n\<bar>
          then Inl (CanonicalJSONError ''integer exceeds the JCS interoperable range'')
          else Inr ()
      | JObject ms \<Rightarrow>
          all_checks (map (\<lambda>m. case (if maximum_depth < depth
                then Inl (CanonicalJSONError ''JSON nesting exceeds the protocol limit'')
                else validate_text (fst m)) of
              Inl e \<Rightarrow> Inl e | Inr _ \<Rightarrow> validate_value maximum_depth (depth + 1) (snd m)) ms)
      | JArray vs \<Rightarrow> all_checks (map (validate_value maximum_depth (depth + 1)) vs)
      | JFloat s \<Rightarrow> Inl outside_profile
      | JConstant s \<Rightarrow> Inl outside_profile)"

declare validate_value.simps [simp del]

definition parse_strict_json :: "nat \<Rightarrow> int \<Rightarrow> bytes \<Rightarrow> canonical_error + json" where
  "parse_strict_json limit maximum_depth payload =
     (case utf8_decode payload of
        None \<Rightarrow> Inl (CanonicalJSONError ''payload is not strict UTF-8 JSON'')
      | Some text \<Rightarrow>
          (case json_loads strict_hooks limit text of
             Inl Json_Decode \<Rightarrow> Inl (CanonicalJSONError ''payload is not strict UTF-8 JSON'')
           | Inl Json_Digits \<Rightarrow> Inl Plain_ValueError
           | Inl Json_Recursion \<Rightarrow> Inl Plain_RecursionError
           | Inl (Json_Hook e) \<Rightarrow> Inl e
           | Inr v \<Rightarrow>
               (case validate_value maximum_depth 1 v of Inl e \<Rightarrow> Inl e | Inr _ \<Rightarrow> Inr v)))"

section \<open>Canonical text\<close>

definition utf16_char :: "nat \<Rightarrow> nat list" where
  "utf16_char c =
     (if c < 65536 then [c div 256, c mod 256]
      else let x = c - 65536; h = 55296 + x div 1024; l = 56320 + x mod 1024
           in [h div 256, h mod 256, l div 256, l mod 256])"

definition utf16_be :: "codes \<Rightarrow> nat list" where
  "utf16_be s = concat (map utf16_char s)"

text \<open>Comma-separated texts between two brackets, and one member of an object.\<close>

fun join_codes :: "codes list \<Rightarrow> codes" where
  "join_codes [] = []"
| "join_codes [t] = t"
| "join_codes (t # u # ts) = t @ 44 # join_codes (u # ts)"

definition member_text :: "codes \<times> codes \<Rightarrow> codes" where
  "member_text m = json_quote (fst m) @ 58 # snd m"

fun encode_value :: "json \<Rightarrow> codes option" where
  "encode_value JNull = Some word_null"
| "encode_value (JBool b) = Some (if b then word_true else word_false)"
| "encode_value (JString s) = Some (json_quote s)"
| "encode_value (JInt n) = Some (codes_of (decimal_int n))"
| "encode_value (JArray vs) =
     map_option (\<lambda>ts. 91 # join_codes ts @ [93]) (those (map encode_value vs))"
| "encode_value (JObject ms) =
     map_option (\<lambda>ts. 123 # join_codes (map member_text (sort_key (utf16_be \<circ> fst) ts)) @ [125])
       (those (map (\<lambda>m. map_option (Pair (fst m)) (encode_value (snd m))) ms))"
| "encode_value (JFloat s) = None"
| "encode_value (JConstant s) = None"

definition canonical_json_bytes :: "json \<Rightarrow> canonical_error + bytes" where
  "canonical_json_bytes v =
     (case validate_value 20 1 v of
        Inl e \<Rightarrow> Inl e
      | Inr _ \<Rightarrow>
          (case encode_value v of
             None \<Rightarrow> Inl outside_profile
           | Some t \<Rightarrow> (case utf8_encode t of None \<Rightarrow> Inl Plain_UnicodeError | Some b \<Rightarrow> Inr b)))"

section \<open>The envelope hash\<close>

text \<open>
  The parts are a dictionary from names to documents; an absent part is a missing name or the
  document \<^verbatim>\<open>None\<close>, which is also what JSON \<^verbatim>\<open>null\<close> parses to.
\<close>

type_synonym envelope_parts = "(string \<times> json) list"

definition part_document :: "envelope_parts \<Rightarrow> string \<Rightarrow> json option" where
  "part_document parts name =
     (case map_of parts name of Some v \<Rightarrow> if v = JNull then None else Some v | None \<Rightarrow> None)"

definition parts_valid :: "string list \<Rightarrow> bool" where
  "parts_valid names \<longleftrightarrow>
     list_all (\<lambda>r. r \<in> set names) REQUIRED_PARTS \<and> list_all (\<lambda>n. n \<in> set ENVELOPE_PARTS) names"

definition terminated :: "string \<Rightarrow> bytes" where
  "terminated s = ascii_bytes s @ [0]"

definition hash_part ::
    "(bytes \<Rightarrow> bytes) \<Rightarrow> string \<Rightarrow> json option \<Rightarrow> canonical_error + bytes" where
  "hash_part sha name document =
     (case document of
        None \<Rightarrow>
          (if name \<notin> set OPTIONAL_PARTS
           then Inl (EnvelopeHashError (''required part '' @ name @ '' is absent''))
           else Inr (terminated name @ terminated ''absent''))
      | Some v \<Rightarrow>
          (case canonical_json_bytes v of
             Inl e \<Rightarrow> Inl e
           | Inr payload \<Rightarrow>
               Inr (terminated name @ terminated (decimal (length payload)) @
                    terminated (hex_encode (sha payload)))))"

fun hash_parts ::
    "(bytes \<Rightarrow> bytes) \<Rightarrow> envelope_parts \<Rightarrow> string list \<Rightarrow> canonical_error + bytes" where
  "hash_parts sha parts [] = Inr []"
| "hash_parts sha parts (name # names) =
     (case hash_part sha name (part_document parts name) of
        Inl e \<Rightarrow> Inl e
      | Inr b \<Rightarrow> (case hash_parts sha parts names of Inl e \<Rightarrow> Inl e | Inr bs \<Rightarrow> Inr (b @ bs)))"

text \<open>What is fed to the hash, and the hash.\<close>

definition envelope_preimage ::
    "(bytes \<Rightarrow> bytes) \<Rightarrow> envelope_parts \<Rightarrow> canonical_error + bytes" where
  "envelope_preimage sha parts =
     (if \<not> parts_valid (map fst parts) then Inl (EnvelopeHashError ''envelope part set is invalid'')
      else case hash_parts sha parts ENVELOPE_PARTS of
        Inl e \<Rightarrow> Inl e
      | Inr bs \<Rightarrow> Inr (terminated ENVELOPE_DOMAIN @ bs))"

definition envelope_payload_hash ::
    "(bytes \<Rightarrow> bytes) \<Rightarrow> envelope_parts \<Rightarrow> canonical_error + string" where
  "envelope_payload_hash sha parts =
     (case envelope_preimage sha parts of Inl e \<Rightarrow> Inl e | Inr b \<Rightarrow> Inr (hex_encode (sha b)))"

section \<open>Reading canonical text back\<close>

text \<open>The value with the members of every object in canonical order.\<close>

fun canon_value :: "json \<Rightarrow> json" where
  "canon_value (JArray vs) = JArray (map canon_value vs)"
| "canon_value (JObject ms) =
     JObject (sort_key (utf16_be \<circ> fst) (map (\<lambda>m. (fst m, canon_value (snd m))) ms))"
| "canon_value v = v"

text \<open>A dictionary has one member of a name, at every level.\<close>

fun dict_value :: "json \<Rightarrow> bool" where
  "dict_value (JArray vs) \<longleftrightarrow> list_all dict_value vs"
| "dict_value (JObject ms) \<longleftrightarrow> distinct (map fst ms) \<and> list_all (\<lambda>m. dict_value (snd m)) ms"
| "dict_value v \<longleftrightarrow> True"

text \<open>What the strict decoder can read within a nesting of \<open>d\<close> containers.\<close>

fun readable :: "nat \<Rightarrow> json \<Rightarrow> bool" where
  "readable d (JArray vs) \<longleftrightarrow> 0 < d \<and> list_all (readable (d - 1)) vs"
| "readable d (JObject ms) \<longleftrightarrow>
     0 < d \<and> distinct (map fst ms) \<and> list_all (\<lambda>m. readable (d - 1) (snd m)) ms"
| "readable d (JInt n) \<longleftrightarrow> \<bar>n\<bar> \<le> MAX_SAFE_INTEGER"
| "readable d (JFloat s) \<longleftrightarrow> False"
| "readable d (JConstant s) \<longleftrightarrow> False"
| "readable d v \<longleftrightarrow> True"

lemma validate_text_ok: "validate_text s = Inr () \<longleftrightarrow> list_all scalar_value s"
  by (simp add: validate_text_def)

lemma sum_guard: "(case x of Inl e \<Rightarrow> Inl e | Inr u \<Rightarrow> y) = Inr () \<longleftrightarrow> x = Inr () \<and> y = Inr ()"
  by (cases x) auto

lemma validate_value_ok:
  "validate_value m k JNull = Inr () \<longleftrightarrow> k \<le> m"
  "validate_value m k (JBool b) = Inr () \<longleftrightarrow> k \<le> m"
  "validate_value m k (JString s) = Inr () \<longleftrightarrow> k \<le> m \<and> list_all scalar_value s"
  "validate_value m k (JInt n) = Inr () \<longleftrightarrow> k \<le> m \<and> \<bar>n\<bar> \<le> MAX_SAFE_INTEGER"
  "validate_value m k (JFloat s) \<noteq> Inr ()" "validate_value m k (JConstant s) \<noteq> Inr ()"
  "validate_value m k (JArray vs) = Inr () \<longleftrightarrow> k \<le> m \<and> (\<forall>v \<in> set vs. validate_value m (k + 1) v = Inr ())"
  "validate_value m k (JObject ms) = Inr () \<longleftrightarrow> k \<le> m \<and>
     (\<forall>x \<in> set ms. list_all scalar_value (fst x) \<and> validate_value m (k + 1) (snd x) = Inr ())"
  by (simp_all add: validate_value.simps [of m k JNull] validate_value.simps [of m k "JBool b"]
      validate_value.simps [of m k "JString s"] validate_value.simps [of m k "JInt n"]
      validate_value.simps [of m k "JFloat s"] validate_value.simps [of m k "JConstant s"]
      validate_value.simps [of m k "JArray vs"] validate_value.simps [of m k "JObject ms"]
      validate_text_ok outside_profile_def guard_simps sum_guard)

lemma validate_readable:
  "validate_value m k v = Inr () \<Longrightarrow> dict_value v \<Longrightarrow> readable (nat (m - k + 1)) v"
proof (induction v arbitrary: k)
  case (JArray vs)
  then have "nat (m - k + 1) - 1 = nat (m - (k + 1) + 1)" "0 < nat (m - k + 1)"
    by (simp_all add: validate_value_ok)
  with JArray show ?case
    by (simp only: readable.simps dict_value.simps list_all_iff validate_value_ok) blast
next
  case (JObject ms)
  then have d: "nat (m - k + 1) - 1 = nat (m - (k + 1) + 1)" "0 < nat (m - k + 1)"
    by (simp_all add: validate_value_ok)
  have "readable (nat (m - (k + 1) + 1)) (snd x)" if "x \<in> set ms" for x
    by (rule JObject.IH [OF that]) (use JObject.prems that in \<open>simp_all add: snds.simps validate_value_ok list_all_iff\<close>)
  with d JObject.prems(2) show ?case by (simp only: readable.simps dict_value.simps list_all_iff) blast
qed (simp_all add: validate_value_ok)

subsection \<open>Integers\<close>

lemma decimal_head: "0 < n \<Longrightarrow> \<exists>c cs. decimal n = c # cs \<and> of_char c \<noteq> (48 :: nat)"
proof (induction n rule: decimal.induct)
  case (1 n)
  show ?case
  proof (cases "n < 10")
    case True
    with "1.prems" show ?thesis by (subst decimal.simps) simp
  next
    case False
    then have "0 < n div 10" by (simp add: div_greater_zero_iff)
    with "1.IH" False obtain c cs where "decimal (n div 10) = c # cs" "of_char c \<noteq> (48 :: nat)" by auto
    with False show ?thesis by (subst decimal.simps) simp
  qed
qed

lemma codes_decimal_digits: "list_all code_digit (codes_of (decimal n))"
  using decimal_digits [of n] by (auto simp: list_all_iff codes_of_def code_digit_def is_digit_09_def)

lemma digits_value_decimal: "digits_value (codes_of (decimal n)) = n"
proof -
  have "foldl (\<lambda>acc d. 10 * acc + (d - 48)) a (codes_of s) = decimal_val a s" for a s
    by (induction s arbitrary: a) (simp_all add: codes_of_def digit_val_def)
  then show ?thesis by (simp add: digits_value_def decimal_val_decimal)
qed

definition json_stop :: "codes \<Rightarrow> bool" where
  "json_stop s \<longleftrightarrow> (case s of [] \<Rightarrow> True | c # _ \<Rightarrow> c = 44 \<or> c = 93 \<or> c = 125)"

lemma digits_stop: "list_all code_digit ds \<Longrightarrow> json_stop rest \<Longrightarrow> digits_of (ds @ rest) = ds"
  by (induction ds) (auto simp: digits_of_def json_stop_def code_digit_def split: list.splits)

lemma stop_number: "json_stop rest \<Longrightarrow> fraction_of rest = [] \<and> exponent_of rest = []"
  by (auto simp: fraction_of_def exponent_of_def json_stop_def split: list.splits)

lemma read_number_decimal:
  assumes "n \<le> 9007199254740991" "json_stop rest"
  shows "read_number hooks b (codes_of (decimal n) @ rest) = Inr (JInt (if b then - int n else int n), rest)"
proof -
  have len: "length (decimal n) \<le> 16" by (rule length_decimal) (use assms(1) in simp_all)
  obtain c cs where d: "decimal n = c # cs" using decimal_digits [of n] by (cases "decimal n") auto
  have whole: "(case codes_of (decimal n) @ rest of [] \<Rightarrow> [] | x # _ \<Rightarrow>
      if x = 48 then [x] else digits_of (codes_of (decimal n) @ rest)) = codes_of (decimal n)"
  proof (cases "n = 0")
    case True
    then show ?thesis by (subst (1 2 3) decimal.simps) (simp add: codes_of_def)
  next
    case False
    with decimal_head [of n] d have "of_char c \<noteq> (48 :: nat)" by simp
    then show ?thesis
      using digits_stop [OF codes_decimal_digits [of n] assms(2)] d by (simp add: codes_of_def)
  qed
  have "\<not> MAX_INT_DIGITS < length (codes_of (decimal n))"
    using len by (simp add: MAX_INT_DIGITS_def codes_of_def)
  moreover have "codes_of (decimal n) \<noteq> []" using d by (simp add: codes_of_def)
  ultimately show ?thesis
    unfolding read_number_def Let_def whole
    by (simp add: stop_number [OF assms(2)] digits_value_decimal)
qed

lemma read_scalar_int:
  assumes "\<bar>n\<bar> \<le> MAX_SAFE_INTEGER" "json_stop rest"
  shows "read_scalar hooks (codes_of (decimal_int n) @ rest) = Inr (JInt n, rest)"
proof -
  obtain c cs where d: "decimal (nat \<bar>n\<bar>) = c # cs" "is_digit_09 c"
    using decimal_digits [of "nat \<bar>n\<bar>"] by (cases "decimal (nat \<bar>n\<bar>)") auto
  have c: "48 \<le> (of_char c :: nat)" "(of_char c :: nat) \<le> 57" using d(2) by (simp_all add: is_digit_09_def)
  have le: "nat \<bar>n\<bar> \<le> 9007199254740991" using assms(1) by (simp add: MAX_SAFE_INTEGER_def)
  note num = read_number_decimal [OF le assms(2), of hooks]
  show ?thesis
  proof (cases "n < 0")
    case True
    have "strip_word word_infinity (codes_of (decimal (nat \<bar>n\<bar>)) @ rest) = None"
      using c by (simp add: d(1) codes_of_def word_infinity_def)
    with True num [of True] show ?thesis
      by (simp add: read_scalar_def decimal_int_def codes_of_def)
  next
    case False
    then have t: "codes_of (decimal_int n) @ rest = of_char c # codes_of cs @ rest"
      "codes_of (decimal (nat \<bar>n\<bar>)) @ rest = of_char c # codes_of cs @ rest"
      using d(1) by (simp_all add: decimal_int_def codes_of_def)
    have ne: "of_char c \<noteq> (34 :: nat)" "of_char c \<noteq> (110 :: nat)" "of_char c \<noteq> (116 :: nat)"
      "of_char c \<noteq> (102 :: nat)" "of_char c \<noteq> (78 :: nat)" "of_char c \<noteq> (73 :: nat)" "of_char c \<noteq> (45 :: nat)"
      using c by linarith+
    show ?thesis
      using num [of False] False unfolding t by (simp add: read_scalar_def ne)
  qed
qed

subsection \<open>Arrays and objects\<close>

lemma those_all2: "those (map f xs) = Some ys \<longleftrightarrow> list_all2 (\<lambda>x y. f x = Some y) xs ys"
proof (induction xs arbitrary: ys)
  case (Cons x xs)
  then show ?case by (cases ys) (auto split: option.splits)
qed auto

lemma int_text_head: "\<exists>c r. codes_of (decimal_int n) = c # r \<and> (c = 45 \<or> 48 \<le> c \<and> c \<le> 57)"
proof -
  obtain c cs where d: "decimal (nat \<bar>n\<bar>) = c # cs" "is_digit_09 c"
    using decimal_digits [of "nat \<bar>n\<bar>"] by (cases "decimal (nat \<bar>n\<bar>)") auto
  then show ?thesis
    by (cases "n < 0") (simp_all add: decimal_int_def codes_of_def is_digit_09_def)
qed

lemma encode_head:
  assumes "encode_value v = Some t"
  shows "\<exists>c r. t = c # r \<and> \<not> json_space c \<and> c \<noteq> 93 \<and> c \<noteq> 125 \<and> c < 128"
proof (cases v)
  case (JInt n)
  with int_text_head [of n] assms show ?thesis by (auto simp: json_space_def)
qed (use assms in \<open>auto simp: word_null_def word_true_def word_false_def json_quote_def json_space_def\<close>)

lemma skip_nonspace: "\<not> json_space c \<Longrightarrow> skip_space (c # s) = c # s"
  by (simp add: skip_space_def)

lemma join_codes_head: "ts \<noteq> [] \<Longrightarrow> \<exists>u. join_codes ts = hd ts @ u"
  by (cases ts rule: join_codes.cases) auto

lemma stop_facts: "json_stop (44 # s)" "json_stop (93 # s)" "json_stop (125 # s)" "json_stop []"
  "skip_space (44 # s) = 44 # s" "skip_space (93 # s) = 93 # s" "skip_space (125 # s) = 125 # s"
  "skip_space (58 # s) = 58 # s" "skip_space (34 # s) = 34 # s"
  by (simp_all add: json_stop_def skip_space_def json_space_def)

definition reads :: "json \<Rightarrow> bool" where
  "reads v \<longleftrightarrow> (\<forall>t d f rest. encode_value v = Some t \<longrightarrow> readable d v \<longrightarrow> json_stop rest \<longrightarrow>
     2 * length t + 1 \<le> f \<longrightarrow> read_value strict_hooks f d (t @ rest) = Inr (canon_value v, rest))"

lemma readsD:
  "reads v \<Longrightarrow> encode_value v = Some t \<Longrightarrow> readable d v \<Longrightarrow> json_stop rest \<Longrightarrow> 2 * length t + 1 \<le> f \<Longrightarrow>
    read_value strict_hooks f d (t @ rest) = Inr (canon_value v, rest)"
  by (simp add: reads_def)

lemma read_items_join:
  assumes "list_all2 (\<lambda>v t. encode_value v = Some t) vs ts" "vs \<noteq> []"
    "list_all reads vs" "list_all (readable d) vs" "2 * length (join_codes ts) + 2 \<le> f"
  shows "read_items strict_hooks f d (join_codes ts @ 93 # rest) = Inr (map canon_value vs, rest)"
  using assms
proof (induction vs ts arbitrary: f rule: list_all2_induct)
  case (Cons v vs t ts)
  obtain g where f: "f = Suc g" using Cons.prems(4) by (cases f) auto
  show ?case
  proof (cases "vs = []")
    case True
    with Cons.hyps(2) have "ts = []" by simp
    with True Cons.prems readsD [of v t d "93 # rest" g] Cons.hyps(1) show ?thesis
      by (simp add: f stop_facts)
  next
    case False
    with Cons.hyps(2) obtain u us where ts: "ts = u # us" by (cases ts) auto
    have u: "encode_value (hd vs) = Some u" using Cons.hyps(2) False ts by (cases vs) auto
    obtain c r where c: "u = c # r" "\<not> json_space c" using encode_head [OF u] by blast
    obtain w where w: "join_codes ts = c # w" using join_codes_head [of ts] ts c(1) by auto
    have sk: "skip_space (join_codes ts @ 93 # rest) = join_codes ts @ 93 # rest"
      using c(2) by (simp add: w skip_nonspace)
    have l: "2 * length t + 1 \<le> g" "2 * length (join_codes ts) + 2 \<le> g" using Cons.prems(4) by (simp_all add: f ts)
    have "read_items strict_hooks g d (join_codes ts @ 93 # rest) = Inr (map canon_value vs, rest)"
      by (rule Cons.IH) (use False Cons.prems l in simp_all)
    moreover have "read_value strict_hooks g d (t @ 44 # join_codes ts @ 93 # rest) =
        Inr (canon_value v, 44 # join_codes ts @ 93 # rest)"
      using readsD [of v t d "44 # join_codes ts @ 93 # rest" g] Cons.prems Cons.hyps(1) l(1)
      by (simp add: stop_facts)
    moreover have "join_codes (t # ts) @ 93 # rest = t @ 44 # join_codes ts @ 93 # rest" by (simp add: ts)
    ultimately show ?thesis by (simp add: f stop_facts sk)
  qed
qed simp

definition encodes :: "codes \<times> json \<Rightarrow> codes \<times> codes \<Rightarrow> bool" where
  "encodes m e \<longleftrightarrow> fst e = fst m \<and> encode_value (snd m) = Some (snd e)"

lemma read_members_join:
  assumes "list_all2 encodes ms es" "ms \<noteq> []"
    "list_all (\<lambda>m. reads (snd m)) ms" "list_all (\<lambda>m. readable d (snd m)) ms"
    "2 * length (join_codes (map member_text es)) + 2 \<le> f"
  shows "read_members strict_hooks f d (join_codes (map member_text es) @ 125 # rest) =
    Inr (map (\<lambda>m. (fst m, canon_value (snd m))) ms, rest)"
  using assms
proof (induction ms es arbitrary: f rule: list_all2_induct)
  case (Cons m ms e es)
  obtain g where f: "f = Suc g" using Cons.prems(4) by (cases f) auto
  obtain k v t where m: "m = (k, v)" "e = (k, t)" "encode_value v = Some t"
    using Cons.hyps(1) by (cases m; cases e) (auto simp: encodes_def)
  obtain c r where c: "t = c # r" "\<not> json_space c" using encode_head [OF m(3)] by blast
  have key: "read_string (concat (map json_escape k) @ 34 # 58 # t @ s) = Some (k, 58 # t @ s)" for s
    by (rule read_string_escaped)
  have sk: "skip_space (t @ s) = t @ s" for s using c by (simp add: skip_nonspace)
  have start: "member_text e @ s = 34 # concat (map json_escape k) @ 34 # 58 # t @ s" for s
    by (simp add: m member_text_def json_quote_def)
  show ?case
  proof (cases "ms = []")
    case True
    with Cons.hyps(2) have es: "es = []" by simp
    then have "2 * length t + 1 \<le> g"
      using Cons.prems(4) by (simp add: f m member_text_def json_quote_def)
    with True es Cons.prems readsD [of v t d "125 # rest" g] show ?thesis
      by (simp del: read_string.simps add: f m start [unfolded m] key sk stop_facts)
  next
    case False
    with Cons.hyps(2) obtain e' es' where es: "es = e' # es'" by (cases es) auto
    define w where "w = join_codes (map member_text es)"
    have "\<exists>w'. w = 34 # w'" using join_codes_head [of "map member_text es"]
      by (auto simp: w_def es member_text_def json_quote_def)
    then have skw: "skip_space (w @ 125 # rest) = w @ 125 # rest" by (auto simp: stop_facts)
    have len: "length (join_codes (map member_text (e # es))) = length (member_text e) + 1 + length w"
      by (simp add: es w_def)
    have "length t \<le> length (member_text e)" by (simp add: m member_text_def)
    then have l: "2 * length t + 1 \<le> g" "2 * length w + 2 \<le> g"
      using Cons.prems(4) len by (simp_all add: f)
    have rest: "read_members strict_hooks g d (w @ 125 # rest) = Inr (map (\<lambda>m. (fst m, canon_value (snd m))) ms, rest)"
      unfolding w_def by (rule Cons.IH) (use False Cons.prems l w_def in simp_all)
    have val: "read_value strict_hooks g d (t @ 44 # w @ 125 # rest) = Inr (canon_value v, 44 # w @ 125 # rest)"
      using readsD [OF _ m(3), of d "44 # w @ 125 # rest" g] Cons.prems l(1) by (simp add: m stop_facts)
    have shape: "join_codes (map member_text (e # es)) @ 125 # rest = member_text e @ 44 # w @ 125 # rest"
      by (simp add: es w_def)
    show ?thesis
      unfolding shape start f
      by (simp del: read_string.simps add: key sk val rest skw stop_facts m)
  qed
qed simp


lemma sort_key_all2:
  assumes "list_all2 R xs ys" "\<And>x y. R x y \<Longrightarrow> f x = g y"
  shows "list_all2 R (sort_key f xs) (sort_key g ys)"
proof -
  have ins: "list_all2 R (insort_key f x xs) (insort_key g y ys)" if "list_all2 R xs ys" "R x y" for x y xs ys
    using that(1) by (induction rule: list_all2_induct) (use that(2) assms(2) in auto)
  from assms(1) show ?thesis
    by (induction rule: list_all2_induct) (simp_all add: ins)
qed

lemma sort_key_map_same:
  assumes "\<And>x. g (h x) = f x"
  shows "sort_key g (map h xs) = map h (sort_key f xs)"
proof -
  have "insort_key g (h x) (map h ys) = map h (insort_key f x ys)" for x ys
    by (induction ys) (simp_all add: assms)
  then show ?thesis by (induction xs) simp_all
qed

lemma sort_key_sorted_id: "sorted (map f xs) \<Longrightarrow> sort_key f xs = xs"
  by (induction xs) (simp_all add: insort_is_Cons)

lemma canon_object:
  "canon_value (JObject ms) = JObject (map (\<lambda>m. (fst m, canon_value (snd m))) (sort_key (utf16_be \<circ> fst) ms))"
  by (simp add: sort_key_map_same [where f = "utf16_be \<circ> fst"])

lemma encode_members:
  "those (map (\<lambda>m. map_option (Pair (fst m)) (encode_value (snd m))) ms) = Some es \<longleftrightarrow> list_all2 encodes ms es"
proof -
  have "(\<lambda>m e. map_option (Pair (fst m)) (encode_value (snd m)) = Some e) = encodes"
    by (auto simp: encodes_def fun_eq_iff)
  then show ?thesis by (simp only: those_all2)
qed

lemma read_scalar_text:
  assumes "c \<noteq> 91" "c \<noteq> 123" "0 < f"
  shows "read_value hooks f d (c # r) = read_scalar hooks (c # r)"
  using assms by (cases f) simp_all

lemma encode_reads: "reads v"
  unfolding reads_def
proof (induction v)
  case (JInt n)
  show ?case
  proof (intro allI impI)
    fix t d f rest
    assume t: "encode_value (JInt n) = Some t" and r: "readable d (JInt n)" "json_stop rest"
      and f: "2 * length t + 1 \<le> (f :: nat)"
    obtain c s where c: "t = c # s" "c \<noteq> 91 \<and> c \<noteq> 123" using int_text_head [of n] t by auto
    with c f have "read_value strict_hooks f d (t @ rest) = read_scalar strict_hooks (t @ rest)"
      by (simp add: read_scalar_text)
    with read_scalar_int [of n rest strict_hooks] r t show "read_value strict_hooks f d (t @ rest) = Inr (canon_value (JInt n), rest)"
      by simp
  qed
next
  case (JString s)
  then show ?case
    by (auto simp: json_quote_def read_scalar_text read_scalar_def read_string_escaped simp del: read_string.simps)
next
  case (JArray vs)
  have IH: "list_all reads vs" using JArray by (simp add: list_all_iff reads_def)
  show ?case
  proof (intro allI impI)
    fix t d f rest
    assume t: "encode_value (JArray vs) = Some t" and r: "readable d (JArray vs)" "json_stop rest"
      and f: "2 * length t + 1 \<le> (f :: nat)"
    obtain ts where ts: "list_all2 (\<lambda>v t. encode_value v = Some t) vs ts" "t = 91 # join_codes ts @ [93]"
      using t by (auto simp: those_all2)
    obtain g where g: "f = Suc g" "2 * length (join_codes ts) + 2 \<le> g" using f ts(2) by (cases f) auto
    obtain e where e: "d = Suc e" using r(1) by (cases d) auto
    show "read_value strict_hooks f d (t @ rest) = Inr (canon_value (JArray vs), rest)"
    proof (cases "vs = []")
      case True
      with ts show ?thesis by (simp add: g e stop_facts)
    next
      case False
      then obtain w ws u us where wu: "vs = w # ws" "ts = u # us" "encode_value w = Some u"
        using ts(1) by (cases vs; cases ts) auto
      obtain c s where c: "join_codes ts = c # s" "\<not> json_space c" "c \<noteq> 93"
        using encode_head [OF wu(3)] join_codes_head [of ts] wu(2) by auto
      have "read_items strict_hooks g e (join_codes ts @ 93 # rest) = Inr (map canon_value vs, rest)"
        by (rule read_items_join [OF ts(1) False IH _ g(2)]) (use r e in simp)
      with c show ?thesis by (simp add: ts(2) g(1) e skip_nonspace)
    qed
  qed
next
  case (JObject ms)
  have IH: "list_all (\<lambda>m. reads (snd m)) ms"
    using JObject by (simp add: list_all_iff reads_def snds.simps)
  show ?case
  proof (intro allI impI)
    fix t d f rest
    assume t: "encode_value (JObject ms) = Some t" and r: "readable d (JObject ms)" "json_stop rest"
      and f: "2 * length t + 1 \<le> (f :: nat)"
    obtain es0 where es0: "list_all2 encodes ms es0"
      and t: "t = 123 # join_codes (map member_text (sort_key (utf16_be \<circ> fst) es0)) @ [125]"
      using t by (auto simp: encode_members)
    define ns where "ns = sort_key (utf16_be \<circ> fst) ms"
    define es where "es = sort_key (utf16_be \<circ> fst) es0"
    have es: "list_all2 encodes ns es"
      unfolding ns_def es_def by (rule sort_key_all2 [OF es0]) (simp add: encodes_def)
    have set_ns: "set ns = set ms" "ms = [] \<longleftrightarrow> ns = []" by (simp_all add: ns_def) (metis set_sort set_empty)
    obtain g where g: "f = Suc g" "2 * length (join_codes (map member_text es)) + 2 \<le> g"
      using f t by (cases f) (auto simp: es_def)
    obtain e where e: "d = Suc e" using r(1) by (cases d) auto
    have canon: "canon_value (JObject ms) = JObject (map (\<lambda>m. (fst m, canon_value (snd m))) ns)"
      unfolding canon_object ns_def ..
    have "distinct (map fst ns)"
      using r(1) by (simp add: distinct_map set_ns(1)) (simp add: ns_def distinct_sort)
    then have hook: "jh_object strict_hooks (map (\<lambda>m. (fst m, canon_value (snd m))) ns) =
        Inr (canon_value (JObject ms))"
      unfolding canon by (simp add: strict_hooks_def unique_hook_def comp_def)
    show "read_value strict_hooks f d (t @ rest) = Inr (canon_value (JObject ms), rest)"
    proof (cases "ns = []")
      case True
      with es have "es = []" by simp
      with True hook show ?thesis by (simp add: t es_def [symmetric] g(1) e stop_facts hook_error_def del: canon_value.simps)
    next
      case False
      then obtain e1 es1 where "es = e1 # es1" using es by (cases es) auto
      then obtain s where c: "join_codes (map member_text es) = 34 # s"
        using join_codes_head [of "map member_text es"] by (auto simp: member_text_def json_quote_def)
      have "read_members strict_hooks g e (join_codes (map member_text es) @ 125 # rest) =
          Inr (map (\<lambda>m. (fst m, canon_value (snd m))) ns, rest)"
        by (rule read_members_join [OF es False _ _ g(2)]) (use r e IH set_ns in \<open>simp_all add: list_all_iff\<close>)
      with c hook show ?thesis
        by (simp add: t es_def [symmetric] g(1) e stop_facts hook_error_def del: canon_value.simps)
    qed
  qed
qed (auto simp: word_null_def word_true_def word_false_def read_scalar_text read_scalar_def read_word_def)

subsection \<open>Validated values have canonical bytes\<close>

lemma all2_encode_map:
  "list_all2 (\<lambda>v t. encode_value v = Some t) vs ts \<Longrightarrow>
   (\<And>v t. v \<in> set vs \<Longrightarrow> encode_value v = Some t \<Longrightarrow> encode_value (canon_value v) = Some t) \<Longrightarrow>
   list_all2 (\<lambda>v t. encode_value v = Some t) (map canon_value vs) ts"
  by (induction rule: list_all2_induct) auto

lemma encode_canon: "encode_value v = Some t \<Longrightarrow> encode_value (canon_value v) = Some t"
proof (induction v arbitrary: t)
  case (JArray vs)
  then obtain ts where "list_all2 (\<lambda>v t. encode_value v = Some t) vs ts" "t = 91 # join_codes ts @ [93]"
    by (auto simp: those_all2)
  with all2_encode_map [OF this(1)] JArray.IH
  have "list_all2 (\<lambda>v t. encode_value v = Some t) (map canon_value vs) ts" by blast
  with \<open>t = _\<close> show ?case by (simp add: those_all2 [symmetric])
next
  case (JObject ms)
  then obtain es where es: "list_all2 encodes ms es"
    and t: "t = 123 # join_codes (map member_text (sort_key (utf16_be \<circ> fst) es)) @ [125]"
    by (auto simp: encode_members)
  define ns where "ns = map (\<lambda>m. (fst m, canon_value (snd m))) ms"
  have "list_all2 encodes ns es"
    unfolding ns_def list_all2_map1
    by (rule list.rel_mono_strong [OF es]) (use JObject.IH in \<open>auto simp: encodes_def snds.simps\<close>)
  then have "list_all2 encodes (sort_key (utf16_be \<circ> fst) ns) (sort_key (utf16_be \<circ> fst) es)"
    by (rule sort_key_all2) (simp add: encodes_def)
  moreover have "sort_key (utf16_be \<circ> fst) (sort_key (utf16_be \<circ> fst) es) = sort_key (utf16_be \<circ> fst) es"
    by (rule sort_key_sorted_id) (rule sorted_sort_key)
  ultimately show ?case
    by (simp only: canon_value.simps encode_value.simps ns_def [symmetric] encode_members [symmetric] t option.map)
qed simp_all

lemma validate_canon: "validate_value m k v = Inr () \<Longrightarrow> validate_value m k (canon_value v) = Inr ()"
proof (induction v arbitrary: k)
  case (JArray vs)
  then show ?case by (simp add: validate_value_ok)
next
  case (JObject ms)
  then show ?case by (force simp: validate_value_ok snds.simps)
qed (simp_all add: validate_value_ok)

lemma scalar_small: "c < 55296 \<Longrightarrow> scalar_value c"
  by (simp add: scalar_value_def)

lemma json_quote_scalar: "list_all scalar_value s \<Longrightarrow> list_all scalar_value (json_quote s)"
  by (induction s) (auto simp: json_quote_def json_escape_def scalar_small hex_code_def)

lemma join_codes_scalar: "list_all (list_all scalar_value) ts \<Longrightarrow> list_all scalar_value (join_codes ts)"
  by (induction ts rule: join_codes.induct) (simp_all add: scalar_small)

lemma validated_encodes:
  "validate_value m k v = Inr () \<Longrightarrow> \<exists>t. encode_value v = Some t \<and> list_all scalar_value t"
proof (induction v arbitrary: k)
  case (JInt n)
  have "scalar_value (of_char c)" for c :: char
    using of_char_lt [of c] unfolding scalar_value_def by linarith
  then show ?case by (simp add: codes_of_def list_all_iff)
next
  case (JArray vs)
  then have "\<forall>v \<in> set vs. \<exists>t. encode_value v = Some t \<and> list_all scalar_value t"
    by (auto simp: validate_value_ok)
  then obtain f where f: "\<forall>v \<in> set vs. encode_value v = Some (f v) \<and> list_all scalar_value (f v)" by metis
  then have "list_all2 (\<lambda>v t. encode_value v = Some t) vs (map f vs)"
    by (simp add: list_all2_map2 list_all2_same)
  then have "those (map encode_value vs) = Some (map f vs)" by (simp add: those_all2)
  moreover have "list_all scalar_value (join_codes (map f vs))"
    by (rule join_codes_scalar) (use f in \<open>simp add: list_all_iff\<close>)
  ultimately show ?case by (simp add: scalar_small)
next
  case (JObject ms)
  have "\<forall>x \<in> set ms. \<exists>t. encode_value (snd x) = Some t \<and> list_all scalar_value t"
    using JObject by (fastforce simp: validate_value_ok snds.simps)
  then obtain f where f: "\<forall>x \<in> set ms. encode_value (snd x) = Some (f x) \<and> list_all scalar_value (f x)" by metis
  define es where "es = map (\<lambda>x. (fst x, f x)) ms"
  have "list_all2 encodes ms es" using f by (simp add: es_def list_all2_map2 list_all2_same encodes_def)
  then have "those (map (\<lambda>m. map_option (Pair (fst m)) (encode_value (snd m))) ms) = Some es"
    by (simp only: encode_members)
  moreover have "list_all (list_all scalar_value) (map member_text (sort_key (utf16_be \<circ> fst) es))"
    using f JObject.prems json_quote_scalar
    by (auto simp: es_def list_all_iff member_text_def validate_value_ok scalar_small)
  ultimately show ?case by (simp add: join_codes_scalar scalar_small)
qed (simp_all add: validate_value_ok word_null_def word_true_def word_false_def scalar_small json_quote_scalar)

lemma validated_bytes:
  assumes "validate_value 20 1 v = Inr ()"
  shows "\<exists>t b. encode_value v = Some t \<and> utf8_encode t = Some b \<and> canonical_json_bytes v = Inr b"
  using validated_encodes [OF assms] assms by (auto simp: canonical_json_bytes_def utf8_encode_def)

lemma canonical_bytes_cases:
  assumes "canonical_json_bytes v = Inr b"
  obtains t where "validate_value 20 1 v = Inr ()" "encode_value v = Some t" "utf8_encode t = Some b"
  using assms by (auto simp: canonical_json_bytes_def split: sum.splits option.splits)

lemma readable_mono: "readable d v \<Longrightarrow> d \<le> e \<Longrightarrow> readable e v"
proof (induction v arbitrary: d e)
  case (JArray vs)
  have "readable (e - 1) v" if "v \<in> set vs" for v
    using JArray.IH [OF that, of "d - 1" "e - 1"] JArray.prems that by (simp add: list_all_iff)
  with JArray.prems show ?case by (simp add: list_all_iff)
next
  case (JObject ms)
  have "readable (e - 1) (snd m)" if "m \<in> set ms" for m
    using JObject.IH [OF that, of "snd m" "d - 1" "e - 1"] JObject.prems that by (simp add: list_all_iff snds.simps)
  with JObject.prems show ?case by (simp add: list_all_iff)
qed simp_all

lemma json_loads_encoded:
  assumes "encode_value v = Some t" "readable d v" "d \<le> limit"
  shows "json_loads strict_hooks limit t = Inr (canon_value v)"
proof -
  have r: "readable limit v" using assms(2,3)
    by (rule readable_mono)
  obtain c r where c: "t = c # r" "\<not> json_space c" "c < 128" using encode_head [OF assms(1)] by blast
  have "read_value strict_hooks (2 * length t + 2) limit (t @ []) = Inr (canon_value v, [])"
    by (rule readsD [OF encode_reads assms(1) r]) (simp_all add: stop_facts)
  with c show ?thesis by (simp add: json_loads_def skip_nonspace skip_space_def del: read_value.simps)
qed


subsection \<open>What the strict decoder returns\<close>

lemma strict_scalar_dict: "read_scalar strict_hooks s = Inr (v, rest) \<Longrightarrow> dict_value v"
  by (auto simp: read_scalar_def read_word_def read_constant_def read_number_def strict_hooks_def
      reject_number_def hook_error_def Let_def
      split: list.splits if_splits option.splits)

lemma strict_object_dict:
  "jh_object strict_hooks ms = Inr v \<Longrightarrow> list_all (\<lambda>m. dict_value (snd m)) ms \<Longrightarrow> dict_value v"
  by (auto simp: strict_hooks_def unique_hook_def split: if_splits)

lemma read_dict:
  "(\<forall>d s v rest. read_value strict_hooks f d s = Inr (v, rest) \<longrightarrow> dict_value v) \<and>
   (\<forall>d s vs rest. read_items strict_hooks f d s = Inr (vs, rest) \<longrightarrow> list_all dict_value vs) \<and>
   (\<forall>d s ms rest. read_members strict_hooks f d s = Inr (ms, rest) \<longrightarrow> list_all (\<lambda>m. dict_value (snd m)) ms)"
proof (induction f)
  case (Suc f)
  then have IH: "\<And>d s v rest. read_value strict_hooks f d s = Inr (v, rest) \<Longrightarrow> dict_value v"
    "\<And>d s vs rest. read_items strict_hooks f d s = Inr (vs, rest) \<Longrightarrow> list_all dict_value vs"
    "\<And>d s ms rest. read_members strict_hooks f d s = Inr (ms, rest) \<Longrightarrow> list_all (\<lambda>m. dict_value (snd m)) ms"
    by blast+
  have "dict_value v" if r: "read_value strict_hooks (Suc f) d s = Inr (v, rest)" for d s v rest
  proof -
    obtain c s' where s: "s = c # s'" using r by (cases s) auto
    consider "c = 91" | "c = 123" | "c \<noteq> 91" "c \<noteq> 123" by blast
    then show ?thesis
    proof cases
      case 1
      with r IH(2) show ?thesis
        by (auto simp: s simp del: read_items.simps split: nat.splits if_splits list.splits sum.splits)
    next
      case 2
      with r IH(3) show ?thesis
        by (auto simp: s hook_error_def simp del: read_members.simps intro: strict_object_dict
            split: nat.splits if_splits list.splits sum.splits)
    next
      case 3
      with r show ?thesis using strict_scalar_dict [of s v rest] by (simp add: s)
    qed
  qed
  moreover have "list_all dict_value vs" if "read_items strict_hooks (Suc f) d s = Inr (vs, rest)" for d s vs rest
    using that by (cases rule: read_items_Inr) (use IH(1,2) in fastforce)
  moreover have "list_all (\<lambda>m. dict_value (snd m)) ms" if "read_members strict_hooks (Suc f) d s = Inr (ms, rest)" for d s ms rest
    using that by (cases rule: read_members_Inr) (use IH(1,3) in fastforce)
  ultimately show ?case by blast
qed simp

lemma parse_strict_cases:
  assumes "parse_strict_json limit m b = Inr v"
  shows "validate_value m 1 v = Inr () \<and> dict_value v"
proof -
  obtain t where t: "json_loads strict_hooks limit t = Inr v" "validate_value m 1 v = Inr ()"
    using assms by (auto simp: parse_strict_json_def split: option.splits sum.splits json_error.splits)
  define f where "f = 2 * length t + 2"
  then have f: "2 * length t + 2 \<le> f" by simp
  obtain rest where "read_value strict_hooks f limit (skip_space t) = Inr (v, rest)"
    using t(1) [unfolded json_loads_fuel [OF f]] by (auto split: if_splits list.splits sum.splits)
  then have "dict_value v" by (rule read_dict [THEN conjunct1, rule_format])
  with t show ?thesis by blast
qed

lemma validate_deeper: "validate_value m k v = Inr () \<Longrightarrow> m \<le> n \<Longrightarrow> validate_value n k v = Inr ()"
  by (induction v arbitrary: k) (force simp: validate_value_ok snds.simps)+

lemma canonical_reparse:
  assumes "canonical_json_bytes v = Inr b" "dict_value v" "20 \<le> limit"
  shows "parse_strict_json limit 20 b = Inr (canon_value v)"
proof -
  obtain t where t: "validate_value 20 1 v = Inr ()" "encode_value v = Some t" "utf8_encode t = Some b"
    using assms(1) by (rule canonical_bytes_cases)
  have "readable 20 v" using validate_readable [OF t(1) assms(2)] by simp
  then have "json_loads strict_hooks limit t = Inr (canon_value v)"
    using json_loads_encoded [OF t(2)] assms(3) by blast
  then show ?thesis
    using utf8_roundtrip [OF t(3)] validate_canon [OF t(1)] by (simp add: parse_strict_json_def)
qed

section \<open>Properties of canonical JSON\<close>

text \<open>
  C12.  Canonical bytes parse back, under the strict decoder, to the value they were made from
  with its members in canonical order; and that value has the same canonical bytes.
\<close>

theorem canonical_round_trip:
  assumes "canonical_json_bytes v = Inr b" "dict_value v" "20 \<le> limit"
  shows "parse_strict_json limit 20 b = Inr (canon_value v) \<and> canonical_json_bytes (canon_value v) = Inr b"
proof -
  obtain t where t: "validate_value 20 1 v = Inr ()" "encode_value v = Some t" "utf8_encode t = Some b"
    using assms(1) by (rule canonical_bytes_cases)
  then have "canonical_json_bytes (canon_value v) = Inr b"
    using validate_canon encode_canon by (simp add: canonical_json_bytes_def)
  with canonical_reparse [OF assms] show ?thesis by blast
qed

definition sample_document :: json where
  "sample_document =
     JObject [(codes_of ''b'', JArray [JInt (- 7), JNull]), (codes_of ''a'', JString (codes_of ''x''))]"

lemma sample_document_valid: "validate_value 20 1 sample_document = Inr ()" "dict_value sample_document"
  by (simp_all add: sample_document_def validate_value_ok codes_of_def scalar_small MAX_SAFE_INTEGER_def)

theorem canonical_round_trip_witness:
  "\<exists>b. canonical_json_bytes sample_document = Inr b \<and>
     parse_strict_json 1000 20 b = Inr (canon_value sample_document) \<and>
     canonical_json_bytes (canon_value sample_document) = Inr b"
proof -
  obtain b where b: "canonical_json_bytes sample_document = Inr b"
    using validated_bytes [OF sample_document_valid(1)] by blast
  with canonical_round_trip [OF b sample_document_valid(2), of 1000] show ?thesis by simp
qed

text \<open>
  C38.  Whatever the strict decoder accepts is a dictionary value of the profile, within the depth
  asked for, and has canonical bytes that parse back to it up to the order of members.
\<close>

theorem strict_json_type:
  assumes "parse_strict_json limit m b = Inr v" "m \<le> 20" "20 \<le> limit"
  shows "dict_value v \<and> validate_value m 1 v = Inr () \<and>
    (\<exists>c. canonical_json_bytes v = Inr c \<and> parse_strict_json limit 20 c = Inr (canon_value v))"
proof -
  have v: "validate_value m 1 v = Inr ()" "dict_value v" using parse_strict_cases [OF assms(1)] by blast+
  obtain c where c: "canonical_json_bytes v = Inr c"
    using validated_bytes [OF validate_deeper [OF v(1) assms(2)]] by blast
  with v canonical_reparse [OF c v(2) assms(3)] show ?thesis by blast
qed

theorem strict_json_type_witness:
  "\<exists>b v. parse_strict_json 1000 20 b = Inr v \<and>
     (\<exists>c. canonical_json_bytes v = Inr c \<and> parse_strict_json 1000 20 c = Inr (canon_value v))"
proof -
  obtain b where b: "canonical_json_bytes sample_document = Inr b"
    using validated_bytes [OF sample_document_valid(1)] by blast
  have p: "parse_strict_json 1000 20 b = Inr (canon_value sample_document)"
    by (rule canonical_reparse [OF b sample_document_valid(2)]) simp
  with strict_json_type [OF p] show ?thesis by auto
qed

text \<open>
  Two kinds of payload leave the strict decoder with an error that is not its own: an integer
  of more than 4300 digits, and nesting beyond the recursion limit of the interpreter.
\<close>

theorem strict_json_leaks:
  "parse_strict_json limit m (replicate (4301 + k) 49) = Inl Plain_ValueError \<and>
   parse_strict_json limit m (replicate (Suc limit) 91) = Inl Plain_RecursionError"
proof
  have ascii: "utf8_decode (replicate n (word_of_nat c)) = Some (replicate n c)" if "c < 128" for n c
    using that by (induction n) (simp_all add: utf8_decode_def unat_of_nat)
  have digits: "digits_of (49 # replicate n 49) = 49 # replicate n 49" for n
    by (simp add: digits_of_def code_digit_def)
  obtain n where n: "4301 + k = Suc n" "MAX_INT_DIGITS < Suc n" by (simp add: MAX_INT_DIGITS_def)
  have num: "read_scalar strict_hooks (49 # replicate n 49) = Inl Json_Digits"
    using n(2) by (simp add: read_scalar_def read_number_def fraction_of_def exponent_of_def Let_def digits)
  then have "json_loads strict_hooks limit (replicate (Suc n) 49) = Inl Json_Digits"
    by (simp add: json_loads_def skip_space_def json_space_def read_scalar_text)
  then show "parse_strict_json limit m (replicate (4301 + k) 49) = Inl Plain_ValueError"
    using ascii [of 49 "Suc n"] unfolding n(1) by (simp add: parse_strict_json_def)
next
  have ascii: "utf8_decode (replicate n (word_of_nat c)) = Some (replicate n c)" if "c < 128" for n c
    using that by (induction n) (simp_all add: utf8_decode_def unat_of_nat)
  have deep: "read_value strict_hooks f d (replicate (Suc d) 91) = Inl Json_Recursion" if "2 * d < f" for f d
    using that
  proof (induction d arbitrary: f)
    case 0
    then show ?case by (cases f) simp_all
  next
    case (Suc d)
    then obtain h where f: "f = Suc (Suc h)" "2 * d < h" by (cases f; cases "f - 1") auto
    have "skip_space (replicate (Suc d) 91) = replicate (Suc d) 91" by (simp add: skip_space_def json_space_def)
    with Suc.IH [OF f(2)] show ?case by (simp add: f(1))
  qed
  have "json_loads strict_hooks limit (replicate (Suc limit) 91) = Inl Json_Recursion"
    using deep [of limit "2 * Suc limit + 2"]
    by (simp add: json_loads_def skip_space_def json_space_def del: read_value.simps)
  then show "parse_strict_json limit m (replicate (Suc limit) 91) = Inl Plain_RecursionError"
    using ascii [of 91 "Suc limit"] by (simp add: parse_strict_json_def)
qed

section \<open>The hash binds the parts\<close>

definition no_nul :: "string \<Rightarrow> bool" where
  "no_nul s \<longleftrightarrow> list_all (\<lambda>c. of_char c \<noteq> (0 :: nat)) s"

lemma split_at_zero:
  "z \<notin> set a \<Longrightarrow> z \<notin> set b \<Longrightarrow> a @ z # r = b @ z # r' \<longleftrightarrow> a = b \<and> r = r'"
proof (induction a arbitrary: b)
  case (Cons x a)
  then show ?case by (cases b) auto
next
  case Nil
  then show ?case by (cases b) auto
qed

lemma terminated_parts:
  assumes "concat (map terminated xs) = concat (map terminated ys)"
    "list_all no_nul (xs @ ys)"
  shows "xs = ys"
  using assms
proof (induction xs arbitrary: ys)
  case Nil
  then show ?case by (cases ys) (simp_all add: terminated_def)
next
  case (Cons x xs)
  then obtain y ys' where ys: "ys = y # ys'" by (cases ys) (simp_all add: terminated_def)
  have no: "0 \<notin> set (ascii_bytes s)" if s: "no_nul s" for s
  proof
    assume "0 \<in> set (ascii_bytes s)"
    then obtain c where c: "c \<in> set s" "(word_of_nat (of_char c) :: byte) = 0" by (auto simp: ascii_bytes_def)
    from c(2) have "256 dvd (of_char c :: nat)" by (simp add: word_of_nat_eq_0_iff)
    with of_char_lt [of c] have "of_char c = (0 :: nat)" using dvd_imp_le by (metis neq0_conv not_le)
    with s c(1) show False by (auto simp: no_nul_def list_all_iff)
  qed
  have "ascii_bytes x @ 0 # concat (map terminated xs) = ascii_bytes y @ 0 # concat (map terminated ys')"
    using Cons.prems(1) by (simp add: ys terminated_def [of x] terminated_def [of y])
  then have "ascii_bytes x = ascii_bytes y \<and> concat (map terminated xs) = concat (map terminated ys')"
    using no [of x] no [of y] Cons.prems(2) ys by (subst (asm) split_at_zero) simp_all
  then show ?case using Cons.IH [of ys'] Cons.prems(2) by (simp add: ys ascii_bytes_inj)
qed

definition part_fields :: "(bytes \<Rightarrow> bytes) \<Rightarrow> string \<Rightarrow> json option \<Rightarrow> string list" where
  "part_fields sha name document =
     (case document of None \<Rightarrow> [name, ''absent'']
      | Some v \<Rightarrow> (case canonical_json_bytes v of Inl e \<Rightarrow> []
          | Inr payload \<Rightarrow> [name, decimal (length payload), hex_encode (sha payload)]))"

lemma part_fields_no_nul: "no_nul name \<Longrightarrow> list_all no_nul (part_fields sha name document)"
proof -
  assume name: "no_nul name"
  have "no_nul (decimal n)" for n
    using decimal_digits [of n] by (auto simp: no_nul_def list_all_iff is_digit_09_def)
  moreover have "no_nul (hex_encode b)" for b
    using hex_encode_letters [of b] by (auto simp: no_nul_def list_all_iff is_lower_hex_def is_digit_09_def)
  moreover have "no_nul ''absent''" by (simp add: no_nul_def)
  ultimately show ?thesis using name by (auto simp: part_fields_def split: option.splits sum.splits)
qed

lemma hash_part_fields:
  "hash_part sha name document = Inr b \<Longrightarrow> b = concat (map terminated (part_fields sha name document))"
  by (auto simp: hash_part_def part_fields_def split: option.splits sum.splits if_splits)

lemma hash_parts_fields:
  "hash_parts sha parts names = Inr b \<Longrightarrow>
   b = concat (map terminated (concat (map (\<lambda>n. part_fields sha n (part_document parts n)) names))) \<and>
   list_all (\<lambda>n. \<exists>c. hash_part sha n (part_document parts n) = Inr c) names"
  by (induction names arbitrary: b) (fastforce split: sum.splits dest: hash_part_fields)+


lemma decimal_not_absent: "decimal n \<noteq> ''absent''"
  using decimal_digits [of n] by (auto simp: is_digit_09_def)

lemma part_fields_inject:
  assumes "hash_part sha name dp = Inr b" "hash_part sha name dq = Inr c"
    "part_fields sha name dp @ r = part_fields sha name dq @ s"
  shows "r = s \<and> (dp = None \<and> dq = None \<or>
    (\<exists>v w x y. dp = Some v \<and> dq = Some w \<and> canonical_json_bytes v = Inr x \<and>
       canonical_json_bytes w = Inr y \<and> sha x = sha y))"
  using assms decimal_not_absent
  by (auto simp: hash_part_def part_fields_def hexa.enc_inject dest: sym
      split: option.splits sum.splits)

text \<open>The texts a hash of parts is computed from.\<close>

definition hashed_inputs :: "(bytes \<Rightarrow> bytes) \<Rightarrow> envelope_parts \<Rightarrow> bytes set" where
  "hashed_inputs sha parts =
     {b. envelope_preimage sha parts = Inr b} \<union>
     {b. \<exists>name v. part_document parts name = Some v \<and> canonical_json_bytes v = Inr b}"

text \<open>
  C10.  Two sets of parts with one envelope hash have the same documents, part by part and up to
  the order of members, unless SHA-256 collides on the texts that were hashed.
\<close>

theorem hash_binds_parts:
  assumes "envelope_payload_hash sha p = Inr h" "envelope_payload_hash sha q = Inr h"
    and inj: "inj_on sha (hashed_inputs sha p \<union> hashed_inputs sha q)"
    and dict: "list_all (dict_value \<circ> snd) (p @ q)"
  shows "list_all (\<lambda>name. map_option canon_value (part_document p name) =
    map_option canon_value (part_document q name)) ENVELOPE_PARTS"
proof -
  obtain bp bq where b: "envelope_preimage sha p = Inr bp" "envelope_preimage sha q = Inr bq"
    "hex_encode (sha bp) = h" "hex_encode (sha bq) = h"
    using assms(1,2) by (auto simp: envelope_payload_hash_def split: sum.splits)
  then have "sha bp = sha bq" by (metis hexa.enc_inject)
  then have "bp = bq" by (rule inj_onD [OF inj]) (use b(1,2) in \<open>simp_all add: hashed_inputs_def\<close>)
  then obtain x where x: "hash_parts sha p ENVELOPE_PARTS = Inr x" "hash_parts sha q ENVELOPE_PARTS = Inr x"
    using b(1,2) by (auto simp: envelope_preimage_def split: if_splits sum.splits)
  define fp where "fp = (\<lambda>n. part_fields sha n (part_document p n))"
  define fq where "fq = (\<lambda>n. part_fields sha n (part_document q n))"
  have name: "no_nul n" if "n \<in> set ENVELOPE_PARTS" for n
    using that by (auto simp: ENVELOPE_PARTS_def no_nul_def)
  have ne: "list_all no_nul (concat (map fp ENVELOPE_PARTS @ map fq ENVELOPE_PARTS))"
    using part_fields_no_nul [OF name] by (fastforce simp: list_all_iff fp_def fq_def)
  have fields: "concat (map fp ENVELOPE_PARTS) = concat (map fq ENVELOPE_PARTS)"
    by (rule terminated_parts) (use hash_parts_fields [OF x(1)] hash_parts_fields [OF x(2)] ne in \<open>simp_all add: fp_def [symmetric] fq_def [symmetric]\<close>)
  have ok: "\<exists>c. hash_part sha n (part_document p n) = Inr c" "\<exists>c. hash_part sha n (part_document q n) = Inr c"
    if "n \<in> set ENVELOPE_PARTS" for n
    using that hash_parts_fields [OF x(1)] hash_parts_fields [OF x(2)] by (auto simp: list_all_iff)
  have dict_part: "dict_value v" if v: "part_document r n = Some v" "r = p \<or> r = q" for r n v
  proof -
    have "(n, v) \<in> set r"
      using v(1) by (auto simp: part_document_def split: option.splits if_splits dest: map_of_SomeD)
    then have "(n, v) \<in> set (p @ q)" using v(2) by auto
    with dict show ?thesis unfolding list_all_iff by fastforce
  qed
  have same: "map_option canon_value (part_document p n) = map_option canon_value (part_document q n)"
    if n: "n \<in> set ENVELOPE_PARTS" and e: "fp n @ r = fq n @ s" for n r s
  proof -
    obtain c1 c2 where c: "hash_part sha n (part_document p n) = Inr c1" "hash_part sha n (part_document q n) = Inr c2"
      using ok [OF n] by blast
    from part_fields_inject [OF c e [unfolded fp_def fq_def]]
    consider "part_document p n = None" "part_document q n = None"
      | v w y z where "part_document p n = Some v" "part_document q n = Some w"
          "canonical_json_bytes v = Inr y" "canonical_json_bytes w = Inr z" "sha y = sha z" by auto
    then show ?thesis
    proof cases
      case 2
      then have "y \<in> hashed_inputs sha p" "z \<in> hashed_inputs sha q" by (auto simp: hashed_inputs_def)
      then have "y = z" using inj 2(5) by (auto dest: inj_onD)
      with canonical_reparse [OF 2(3), of 20] canonical_reparse [OF 2(4), of 20] dict_part 2
      show ?thesis by auto
    qed simp
  qed
  have "list_all (\<lambda>n. map_option canon_value (part_document p n) = map_option canon_value (part_document q n)) ns"
    if "set ns \<subseteq> set ENVELOPE_PARTS" "concat (map fp ns) = concat (map fq ns)" for ns
    using that
  proof (induction ns)
    case (Cons n ns)
    then have e: "fp n @ concat (map fp ns) = fq n @ concat (map fq ns)" by simp
    have n: "n \<in> set ENVELOPE_PARTS" using Cons.prems(1) by simp
    have "concat (map fp ns) = concat (map fq ns)"
      using ok [OF n] part_fields_inject [OF _ _ e [unfolded fp_def fq_def]] by (auto simp: fp_def fq_def)
    with Cons.IH Cons.prems(1) same [OF n e] show ?case by simp
  qed simp
  with fields show ?thesis by simp
qed


definition sample_parts :: "json \<Rightarrow> envelope_parts" where
  "sample_parts v = [(''metadata'', v), (''findings'', v), (''source_contexts'', v), (''sarif'', JNull)]"

lemma sample_parts_hash:
  assumes "canonical_json_bytes v = Inr b" "v \<noteq> JNull"
  shows "envelope_payload_hash (\<lambda>b. b) (sample_parts v) =
    Inr (hex_encode (terminated ENVELOPE_DOMAIN @
      concat (map (\<lambda>name. terminated name @ terminated (decimal (length b)) @ terminated (hex_encode b)) REQUIRED_PARTS) @
      concat (map (\<lambda>name. terminated name @ terminated ''absent'') OPTIONAL_PARTS)))"
  using assms
  by (simp add: envelope_payload_hash_def envelope_preimage_def parts_valid_def sample_parts_def
      ENVELOPE_PARTS_def REQUIRED_PARTS_def OPTIONAL_PARTS_def hash_part_def part_document_def)

theorem hash_binds_parts_witness:
  "\<exists>h. envelope_payload_hash (\<lambda>b. b) (sample_parts sample_document) = Inr h \<and>
     envelope_payload_hash (\<lambda>b. b) (sample_parts (canon_value sample_document)) = Inr h \<and>
     list_all (\<lambda>name. map_option canon_value (part_document (sample_parts sample_document) name) =
       map_option canon_value (part_document (sample_parts (canon_value sample_document)) name)) ENVELOPE_PARTS"
proof -
  obtain b where b: "canonical_json_bytes sample_document = Inr b"
    using validated_bytes [OF sample_document_valid(1)] by blast
  have c: "canonical_json_bytes (canon_value sample_document) = Inr b"
    using b validate_canon encode_canon by (auto simp: canonical_json_bytes_def split: sum.splits option.splits)
  have n: "sample_document \<noteq> JNull" "canon_value sample_document \<noteq> JNull" by (simp_all add: sample_document_def)
  have d: "dict_value (canon_value sample_document)" by (simp add: sample_document_def codes_of_def)
  note h = sample_parts_hash [OF b n(1)] sample_parts_hash [OF c n(2)]
  have "list_all (dict_value \<circ> snd) (sample_parts sample_document @ sample_parts (canon_value sample_document))"
    using d sample_document_valid(2) by (simp add: sample_parts_def)
  from hash_binds_parts [OF h _ this] h show ?thesis by (simp add: inj_on_def)
qed

end
