(* ===== verification/Envelope_V2.thy ===== *)
theory Envelope_V2
  imports Envelope Source_Context
begin

text \<open>
  Cross-part validation of one v2 upload (\<^verbatim>\<open>workflows/result_ingest_v2_contract\<close>): the
  parts are read strictly, checked against their schemas, checked against one another, brought
  into canonical form and hashed.  The schema validator, SHA-256, the recursion limit and the
  word characters of the redactor are parameters.
\<close>

section \<open>Limits, results and errors\<close>

record envelope_limits =
  wire_bytes :: int
  parsed_bytes :: int
  part_bytes :: "(string \<times> int) list"
  json_depth :: int

definition ENVELOPE_LIMITS_V2 :: envelope_limits where
  "ENVELOPE_LIMITS_V2 =
     \<lparr>wire_bytes = 32 * 1024 * 1024, parsed_bytes = 64 * 1024 * 1024,
      part_bytes = [(''metadata'', 64 * 1024), (''findings'', 10 * 1024 * 1024),
        (''source_contexts'', 10 * 1024 * 1024), (''sarif'', 16 * 1024 * 1024),
        (''sbom'', 16 * 1024 * 1024)],
      json_depth = 20\<rparr>"

definition SCHEMA_VERSION :: int where "SCHEMA_VERSION = 2"

record validated_envelope =
  ve_metadata :: members
  ve_findings :: members
  ve_source_contexts :: members
  ve_sarif :: "members option"
  ve_sbom :: "members option"
  ve_payload_hash :: string
  ve_canonical_parts :: "(string \<times> bytes) list"

text \<open>
  A rejection carries its code and message.  The other constructors are exceptions of Python that
  the workflow does not translate.
\<close>

datatype v2_error =
    Envelope_invalid string string
  | V2_AttributeError
  | V2_TypeError
  | V2_KeyError
  | V2_Canonical canonical_error

definition mismatch :: "string \<Rightarrow> v2_error" where
  "mismatch message = Envelope_invalid ''artifact_mismatch'' message"

definition require :: "bool \<Rightarrow> v2_error \<Rightarrow> v2_error + unit" where
  "require b e = (if b then Inr () else Inl e)"

section \<open>Equality of JSON values in Python\<close>

text \<open>Booleans equal the integers 0 and 1, and the order of the members of an object is ignored.\<close>

fun py_norm :: "json \<Rightarrow> json" where
  "py_norm (JBool b) = JInt (if b then 1 else 0)"
| "py_norm (JArray vs) = JArray (map py_norm vs)"
| "py_norm (JObject ms) = JObject (sort_key fst (map (\<lambda>m. (fst m, py_norm (snd m))) ms))"
| "py_norm v = v"

definition py_equal :: "json \<Rightarrow> json \<Rightarrow> bool" where
  "py_equal v w \<longleftrightarrow> py_norm v = py_norm w"

text \<open>\<^verbatim>\<open>ms.get(key)\<close> for a key that is itself a value.\<close>

definition member_at :: "members \<Rightarrow> json \<Rightarrow> json" where
  "member_at ms key =
     (case key of JString s \<Rightarrow> (case map_of ms s of None \<Rightarrow> JNull | Some v \<Rightarrow> v) | _ \<Rightarrow> JNull)"

definition is_object :: "json \<Rightarrow> bool" where
  "is_object v \<longleftrightarrow> (case v of JObject _ \<Rightarrow> True | _ \<Rightarrow> False)"

definition is_array :: "json \<Rightarrow> bool" where
  "is_array v \<longleftrightarrow> (case v of JArray _ \<Rightarrow> True | _ \<Rightarrow> False)"

definition items :: "json \<Rightarrow> json list" where
  "items v = (case v of JArray vs \<Rightarrow> vs | _ \<Rightarrow> [])"

definition attributes :: "json \<Rightarrow> members" where
  "attributes v = (case v of JObject ms \<Rightarrow> ms | _ \<Rightarrow> [])"

section \<open>The checks across the parts\<close>

definition branch_consistent :: "members \<Rightarrow> bool" where
  "branch_consistent md \<longleftrightarrow>
     (let branch = member_of md ''branch''; ref = member_of md ''ref'' in
      \<not> (branch = JNull \<and> ref \<noteq> JNull \<or>
         (case branch of JString b \<Rightarrow> ref \<noteq> JString (codes_of ''refs/heads/'' @ b) | _ \<Rightarrow> False)))"

text \<open>The flag of a part equals \<^verbatim>\<open>True\<close> or \<^verbatim>\<open>False\<close>.\<close>

definition artifact_flag_ok :: "envelope_parts \<Rightarrow> members \<Rightarrow> string \<Rightarrow> bool" where
  "artifact_flag_ok parts artifacts name \<longleftrightarrow>
     int_of (member_of artifacts name) = Some (if part_document parts name = None then 0 else 1)"

definition sarif_ok :: "json option \<Rightarrow> bool" where
  "sarif_ok part \<longleftrightarrow>
     (case part of
        None \<Rightarrow> True
      | Some v \<Rightarrow> is_object v \<and> member_of (attributes v) ''version'' = JString (codes_of ''2.1.0'') \<and>
          is_array (member_of (attributes v) ''runs''))"

definition sbom_ok :: "json option \<Rightarrow> bool" where
  "sbom_ok part \<longleftrightarrow>
     (case part of
        None \<Rightarrow> True
      | Some v \<Rightarrow> is_object v \<and> member_of (attributes v) ''bomFormat'' = JString (codes_of ''CycloneDX'') \<and>
          (case member_of (attributes v) ''specVersion'' of JString _ \<Rightarrow> True | _ \<Rightarrow> False) \<and>
          (case map_of (attributes v) (codes_of ''components'') of None \<Rightarrow> True | Some c \<Rightarrow> is_array c))"

definition validate_optional_artifacts :: "envelope_parts \<Rightarrow> v2_error + unit" where
  "validate_optional_artifacts parts =
     all_checks
       [require (sarif_ok (part_document parts ''sarif''))
          (Envelope_invalid ''schema_validation_failed''
             ''SARIF artifact does not satisfy the supported profile''),
        require (sbom_ok (part_document parts ''sbom''))
          (Envelope_invalid ''schema_validation_failed''
             ''SBOM artifact does not satisfy the supported CycloneDX profile'')]"

definition unique_kinds :: "json list \<Rightarrow> v2_error + unit" where
  "unique_kinds scanners =
     (let kinds = map (\<lambda>s. member_of (attributes s) ''kind'') scanners;
          refused = mismatch ''scanner records must have unique kinds'' in
      if \<not> list_all is_object scanners then Inl refused
      else if \<not> list_all hashable kinds then Inl V2_TypeError
      else require (distinct (map py_norm kinds)) refused)"

definition scanner_released :: "members \<Rightarrow> json \<Rightarrow> v2_error + unit" where
  "scanner_released images scanner =
     (case map_of (attributes scanner) (codes_of ''kind'') of
        None \<Rightarrow> Inl V2_KeyError
      | Some kind \<Rightarrow>
          require (member_of (attributes scanner) ''status'' = JString (codes_of ''skipped'') \<or>
                   py_equal (member_of (attributes scanner) ''image'') (member_at images kind))
            (mismatch ''scanner image does not match the release manifest''))"

definition known_scanner :: "json list \<Rightarrow> json \<Rightarrow> bool" where
  "known_scanner scanners finding \<longleftrightarrow>
     is_object finding \<and>
     py_norm (member_of (attributes finding) ''scanner'') \<in>
       set (map (\<lambda>s. py_norm (member_of (attributes s) ''kind'')) scanners)"

definition line_range_ok :: "json \<Rightarrow> bool" where
  "line_range_ok finding \<longleftrightarrow>
     (case (int_of (member_of (attributes finding) ''line_start''), int_of (member_of (attributes finding) ''line_end'')) of
        (Some first_line, Some last_line) \<Rightarrow> first_line \<le> last_line
      | _ \<Rightarrow> True)"

text \<open>
  A context that is no object has no members to read; the findings are looked at before.  What a
  refusal of the source context module says is the message of the rejection.
\<close>

definition context_refusal :: "context_error \<Rightarrow> v2_error" where
  "context_refusal e =
     (case e of
        Context_ValueError message \<Rightarrow> mismatch message
      | Context_UnicodeError \<Rightarrow> mismatch ''text cannot be encoded''
      | Context_AttributeError \<Rightarrow> V2_AttributeError
      | Context_TypeError \<Rightarrow> V2_TypeError)"

definition linked_contexts :: "(nat \<Rightarrow> bool) \<Rightarrow> json list \<Rightarrow> json list \<Rightarrow> v2_error + unit" where
  "linked_contexts word findings contexts =
     (case validate_source_context_links (map attributes findings) (map attributes contexts) of
        Inl e \<Rightarrow>
          Inl (if list_all is_object contexts \<or>
                  \<not> list_all is_uuid5 (map (finding_key_of \<circ> attributes) findings) \<or>
                  \<not> distinct (map (finding_key_of \<circ> attributes) findings)
               then context_refusal e else V2_AttributeError)
      | Inr _ \<Rightarrow>
          (case sanitize_source_contexts word SOURCE_CONTEXT_LIMITS (map attributes contexts) of
             Inl e \<Rightarrow> Inl (context_refusal e)
           | Inr _ \<Rightarrow> Inr ()))"

definition window_of_finding :: "members \<Rightarrow> members \<Rightarrow> bool" where
  "window_of_finding context finding \<longleftrightarrow>
     py_equal (member_of context ''path'') (member_of finding ''file_path'') \<and>
     py_equal (member_of context ''highlight_start'') (member_of finding ''line_start'') \<and>
     py_equal (member_of context ''highlight_end'') (member_of finding ''line_end'')"

definition context_keys :: "members \<Rightarrow> json list" where
  "context_keys context = (case finding_keys_of context of None \<Rightarrow> [] | Some ks \<Rightarrow> ks)"

definition key_matches :: "members list \<Rightarrow> members \<Rightarrow> json \<Rightarrow> v2_error + unit" where
  "key_matches findings context key =
     (case find (\<lambda>f. JString (finding_key_of f) = key) findings of
        None \<Rightarrow> Inl V2_KeyError
      | Some finding \<Rightarrow>
          require (window_of_finding context finding)
            (mismatch ''source context does not match its finding''))"

definition context_matches :: "members list \<Rightarrow> members \<Rightarrow> v2_error + unit" where
  "context_matches findings context =
     (if \<not> truthy (member_of context ''available'') then Inr ()
      else all_checks (map (key_matches findings context) (context_keys context)))"

definition required_object :: "envelope_parts \<Rightarrow> string \<Rightarrow> v2_error + members" where
  "required_object parts name =
     (case part_document parts name of
        Some (JObject ms) \<Rightarrow> Inr ms
      | _ \<Rightarrow> Inl (mismatch (''required part '' @ name @ '' must be a JSON object'')))"

definition relationship_checks ::
    "(nat \<Rightarrow> bool) \<Rightarrow> envelope_parts \<Rightarrow> members \<Rightarrow> members \<Rightarrow> members \<Rightarrow> v2_error + unit" where
  "relationship_checks word parts md findings_document contexts_document =
     (let artifacts = member_of md ''artifacts'';
          scanners = member_of findings_document ''scanners'';
          findings = member_of findings_document ''findings'';
          contexts = member_of contexts_document ''contexts'';
          images = member_of (attributes (member_of md ''scanner_release'')) ''images'' in
      all_checks
        [require (list_all (\<lambda>d. int_of (member_of d ''schema_version'') = Some SCHEMA_VERSION)
                    [md, findings_document, contexts_document])
           (mismatch ''all JSON parts must use schema version 2''),
         require (branch_consistent md) (mismatch ''metadata branch and ref are inconsistent''),
         require (is_object artifacts) (mismatch ''metadata artifacts are invalid''),
         all_checks (map (\<lambda>name. require (artifact_flag_ok parts (attributes artifacts) name)
             (mismatch (''metadata artifact flag for '' @ name @ '' is inconsistent''))) OPTIONAL_PARTS),
         validate_optional_artifacts parts,
         require (is_array scanners \<and> is_array findings \<and> is_array contexts)
           (mismatch ''findings or source contexts are invalid''),
         unique_kinds (items scanners),
         require (is_object images) (mismatch ''scanner release images are invalid''),
         all_checks (map (scanner_released (attributes images)) (items scanners)),
         require (list_all (known_scanner (items scanners)) (items findings))
           (mismatch ''every finding must reference a scanner record''),
         require (list_all line_range_ok (items findings)) (mismatch ''finding line range is invalid''),
         linked_contexts word (items findings) (items contexts),
         all_checks (map (context_matches (map attributes (items findings)) \<circ> attributes) (items contexts))])"

definition validate_envelope_relationships ::
    "(nat \<Rightarrow> bool) \<Rightarrow> envelope_parts \<Rightarrow> v2_error + unit" where
  "validate_envelope_relationships word parts =
     (if \<not> parts_valid (map fst parts) then Inl (mismatch ''envelope part set is invalid'')
      else case required_object parts ''metadata'' of
        Inl e \<Rightarrow> Inl e
      | Inr md \<Rightarrow>
     (case required_object parts ''findings'' of
        Inl e \<Rightarrow> Inl e
      | Inr findings_document \<Rightarrow>
     (case required_object parts ''source_contexts'' of
        Inl e \<Rightarrow> Inl e
      | Inr contexts_document \<Rightarrow>
          relationship_checks word parts md findings_document contexts_document)))"

section \<open>Building the envelope\<close>

definition part_limit :: "string \<Rightarrow> int" where
  "part_limit name = (case map_of (part_bytes ENVELOPE_LIMITS_V2) name of None \<Rightarrow> 0 | Some n \<Rightarrow> n)"

definition read_part :: "nat \<Rightarrow> string \<Rightarrow> bytes \<Rightarrow> v2_error + members \<times> bytes" where
  "read_part limit name raw =
     (if part_limit name < int (length raw)
      then Inl (Envelope_invalid ''wire_limit_exceeded'' (''part '' @ name @ '' is too large''))
      else case parse_strict_json limit (json_depth ENVELOPE_LIMITS_V2) raw of
        Inl (CanonicalJSONError message) \<Rightarrow>
          Inl (Envelope_invalid
            (if sublist ''duplicate JSON key'' message then ''duplicate_json_key'' else ''invalid_json'')
            (''part '' @ name @ '' is invalid JSON''))
      | Inl e \<Rightarrow> Inl (V2_Canonical e)
      | Inr (JObject ms) \<Rightarrow>
          (case canonical_json_bytes (JObject ms) of
             Inl e \<Rightarrow> Inl (V2_Canonical e) | Inr c \<Rightarrow> Inr (ms, c))
      | Inr _ \<Rightarrow>
          Inl (Envelope_invalid ''schema_validation_failed'' (''part '' @ name @ '' must be a JSON object'')))"

fun read_parts ::
    "nat \<Rightarrow> (string \<times> bytes) list \<Rightarrow> string list \<Rightarrow> v2_error + (string \<times> members \<times> bytes) list" where
  "read_parts limit raw_parts [] = Inr []"
| "read_parts limit raw_parts (name # names) =
     (case map_of raw_parts name of
        None \<Rightarrow> read_parts limit raw_parts names
      | Some raw \<Rightarrow>
          (case read_part limit name raw of
             Inl e \<Rightarrow> Inl e
           | Inr part \<Rightarrow>
               (case read_parts limit raw_parts names of
                  Inl e \<Rightarrow> Inl e | Inr parts \<Rightarrow> Inr ((name, part) # parts))))"

definition documents_of :: "(string \<times> members \<times> bytes) list \<Rightarrow> envelope_parts" where
  "documents_of parts =
     map (\<lambda>name. (name, case map_of parts name of None \<Rightarrow> JNull | Some (ms, _) \<Rightarrow> JObject ms)) ENVELOPE_PARTS"

definition schema_check ::
    "(string \<Rightarrow> members \<Rightarrow> bool) \<Rightarrow> (string \<times> members \<times> bytes) list \<Rightarrow> string \<Rightarrow> v2_error + unit" where
  "schema_check schema parts name =
     require (case map_of parts name of None \<Rightarrow> False | Some (ms, _) \<Rightarrow> schema name ms)
       (Envelope_invalid ''schema_validation_failed'' (''part '' @ name @ '' does not satisfy its schema''))"

definition envelope_of ::
    "(string \<times> members \<times> bytes) list \<Rightarrow> string \<Rightarrow> v2_error + validated_envelope" where
  "envelope_of parts payload_hash =
     (case map (\<lambda>name. map_option fst (map_of parts name)) ENVELOPE_PARTS of
        [Some md, Some findings, Some contexts, sarif, sbom] \<Rightarrow>
          Inr \<lparr>ve_metadata = md, ve_findings = findings, ve_source_contexts = contexts,
               ve_sarif = sarif, ve_sbom = sbom, ve_payload_hash = payload_hash,
               ve_canonical_parts = map (\<lambda>(name, _, c). (name, c)) parts\<rparr>
      | _ \<Rightarrow> Inl (mismatch ''required part must be a JSON object''))"

definition build_validated_envelope_v2 ::
    "(nat \<Rightarrow> bool) \<Rightarrow> (bytes \<Rightarrow> bytes) \<Rightarrow> nat \<Rightarrow> (string \<Rightarrow> members \<Rightarrow> bool) \<Rightarrow> (string \<times> bytes) list
     \<Rightarrow> v2_error + validated_envelope" where
  "build_validated_envelope_v2 word sha limit schema raw_parts =
     (if \<not> parts_valid (map fst raw_parts)
      then Inl (Envelope_invalid ''unexpected_part'' ''envelope part set is invalid'')
      else if parsed_bytes ENVELOPE_LIMITS_V2 < sum_list (map (int \<circ> length \<circ> snd) raw_parts)
      then Inl (Envelope_invalid ''wire_limit_exceeded'' ''parsed envelope is too large'')
      else case read_parts limit raw_parts ENVELOPE_PARTS of
        Inl e \<Rightarrow> Inl e
      | Inr parts \<Rightarrow>
     (case all_checks (map (schema_check schema parts) REQUIRED_PARTS) of
        Inl e \<Rightarrow> Inl e
      | Inr _ \<Rightarrow>
     (case validate_envelope_relationships word (documents_of parts) of
        Inl e \<Rightarrow> Inl e
      | Inr _ \<Rightarrow>
     (case envelope_payload_hash sha (documents_of parts) of
        Inl e \<Rightarrow> Inl (V2_Canonical e)
      | Inr payload_hash \<Rightarrow> envelope_of parts payload_hash))))"

section \<open>What an accepted envelope guarantees\<close>

text \<open>The findings, scanner records and source contexts of an envelope.\<close>

definition findings_of :: "validated_envelope \<Rightarrow> members list" where
  "findings_of v = map attributes (items (member_of (ve_findings v) ''findings''))"

definition scanners_of :: "validated_envelope \<Rightarrow> members list" where
  "scanners_of v = map attributes (items (member_of (ve_findings v) ''scanners''))"

definition contexts_of :: "validated_envelope \<Rightarrow> members list" where
  "contexts_of v = map attributes (items (member_of (ve_source_contexts v) ''contexts''))"

lemma require_ok [simp]: "require b e = Inr u \<longleftrightarrow> b"
  by (simp add: require_def)

lemma one_block:
  "distinct (concat xss) \<Longrightarrow> k \<in> set (concat xss) \<Longrightarrow> length (filter (\<lambda>xs. k \<in> set xs) xss) = 1"
proof (induction xss)
  case (Cons xs xss)
  show ?case
  proof (cases "k \<in> set xs")
    case True
    with Cons.prems(1) have "k \<notin> set (concat xss)" by auto
    then have "filter (\<lambda>xs. k \<in> set xs) xss = []" by (auto simp: filter_empty_conv)
    with True show ?thesis by simp
  next
    case False
    with Cons show ?thesis by auto
  qed
qed simp

lemma check_links_keys:
  "check_links valid cs referenced = Inr keys \<Longrightarrow> keys = referenced @ concat (map context_keys cs)"
  by (induction valid cs referenced rule: check_links.induct)
    (auto simp: context_keys_def split: option.splits if_splits)

lemma linked_once:
  assumes "validate_source_context_links fs cs = Inr ()"
  shows "distinct (map finding_key_of fs) \<and>
    list_all (\<lambda>f. length (filter (\<lambda>c. JString (finding_key_of f) \<in> set (context_keys c)) cs) = 1) fs"
proof -
  from assms obtain keys where d: "distinct (map finding_key_of fs)"
    and c: "check_links (map finding_key_of fs) cs [] = Inr keys"
    and s: "set keys = JString ` set (map finding_key_of fs)" "length keys = length (map finding_key_of fs)"
    by (auto simp: validate_source_context_links_def Let_def split: if_splits sum.splits)
  have keys: "keys = concat (map context_keys cs)" using check_links_keys [OF c] by simp
  have "card (set keys) = length keys"
    using d s distinct_card [OF d] by (simp add: card_image inj_on_def del: set_map)
  then have dk: "distinct (concat (map context_keys cs))" using keys card_distinct by blast
  have "length (filter (\<lambda>c. JString (finding_key_of f) \<in> set (context_keys c)) cs) = 1" if "f \<in> set fs" for f
  proof -
    have "JString (finding_key_of f) \<in> set (concat (map context_keys cs))" using that s(1) keys by auto
    from one_block [OF dk this] show ?thesis by (simp add: filter_map comp_def)
  qed
  with d show ?thesis by (simp add: list_all_iff)
qed

lemma part_document_documents:
  assumes "name \<in> set ENVELOPE_PARTS"
  shows "part_document (documents_of parts) name = map_option (\<lambda>(ms, _). JObject ms) (map_of parts name)"
  using assms
  by (auto simp: part_document_def documents_of_def map_of_map_restrict restrict_map_def split: option.splits)

lemma required_document:
  "map_option fst (map_of parts name) = Some ms \<Longrightarrow> name \<in> set ENVELOPE_PARTS \<Longrightarrow>
     required_object (documents_of parts) name = Inr ms"
  by (auto simp: required_object_def part_document_documents)

lemma envelope_of_parts:
  assumes "envelope_of parts h = Inr v"
  shows "map_option fst (map_of parts ''metadata'') = Some (ve_metadata v) \<and>
    map_option fst (map_of parts ''findings'') = Some (ve_findings v) \<and>
    map_option fst (map_of parts ''source_contexts'') = Some (ve_source_contexts v) \<and>
    ve_payload_hash v = h \<and> ve_canonical_parts v = map (\<lambda>(name, _, c). (name, c)) parts"
  using assms unfolding envelope_of_def ENVELOPE_PARTS_def
  by (cases "map_of parts ''metadata''"; cases "map_of parts ''findings''";
      cases "map_of parts ''source_contexts''") auto

lemma built_envelope_cases:
  assumes "build_validated_envelope_v2 word sha limit schema raw_parts = Inr v"
  obtains parts where "read_parts limit raw_parts ENVELOPE_PARTS = Inr parts"
    "envelope_payload_hash sha (documents_of parts) = Inr (ve_payload_hash v)"
    "ve_canonical_parts v = map (\<lambda>(name, _, c). (name, c)) parts"
    "relationship_checks word (documents_of parts) (ve_metadata v) (ve_findings v) (ve_source_contexts v) = Inr ()"
proof -
  from assms obtain parts h where p: "read_parts limit raw_parts ENVELOPE_PARTS = Inr parts"
      "validate_envelope_relationships word (documents_of parts) = Inr ()"
      "envelope_payload_hash sha (documents_of parts) = Inr h"
    and e: "envelope_of parts h = Inr v"
    unfolding build_validated_envelope_v2_def by (simp split: if_splits sum.splits)
  note o = envelope_of_parts [OF e]
  have "required_object (documents_of parts) ''metadata'' = Inr (ve_metadata v)"
    "required_object (documents_of parts) ''findings'' = Inr (ve_findings v)"
    "required_object (documents_of parts) ''source_contexts'' = Inr (ve_source_contexts v)"
    using o by (simp_all add: required_document ENVELOPE_PARTS_def)
  with p(2) have "relationship_checks word (documents_of parts) (ve_metadata v) (ve_findings v) (ve_source_contexts v) = Inr ()"
    by (auto simp: validate_envelope_relationships_def split: if_splits)
  with that p(1,3) o show ?thesis by blast
qed

lemma related_parts:
  assumes "relationship_checks word parts md fd cd = Inr ()"
  shows "unique_kinds (items (member_of fd ''scanners'')) = Inr ()"
    "list_all (known_scanner (items (member_of fd ''scanners''))) (items (member_of fd ''findings''))"
    "linked_contexts word (items (member_of fd ''findings'')) (items (member_of cd ''contexts'')) = Inr ()"
    "list_all (\<lambda>c. context_matches (map attributes (items (member_of fd ''findings''))) (attributes c) = Inr ())
       (items (member_of cd ''contexts''))"
proof -
  note checks = all_checks_okD [OF assms [unfolded relationship_checks_def Let_def]]
  show "unique_kinds (items (member_of fd ''scanners'')) = Inr ()"
    "linked_contexts word (items (member_of fd ''findings'')) (items (member_of cd ''contexts'')) = Inr ()"
    by (rule checks, simp only: list.set insert_iff simp_thms)+
  have "require (list_all (known_scanner (items (member_of fd ''scanners''))) (items (member_of fd ''findings'')))
      (mismatch ''every finding must reference a scanner record'') = Inr ()"
    by (rule checks, simp only: list.set insert_iff simp_thms)
  then show "list_all (known_scanner (items (member_of fd ''scanners''))) (items (member_of fd ''findings''))"
    by simp
  have "all_checks (map (context_matches (map attributes (items (member_of fd ''findings''))) \<circ> attributes)
      (items (member_of cd ''contexts''))) = Inr ()"
    by (rule checks, simp only: list.set insert_iff simp_thms)
  then show "list_all (\<lambda>c. context_matches (map attributes (items (member_of fd ''findings''))) (attributes c) = Inr ())
      (items (member_of cd ''contexts''))"
    by (simp add: all_checks_ok list_all_iff)
qed

lemma matched_window:
  assumes "context_matches fs c = Inr ()" "truthy (member_of c ''available'')"
    and "distinct (map finding_key_of fs)" "f \<in> set fs" "JString (finding_key_of f) \<in> set (context_keys c)"
  shows "window_of_finding c f"
proof -
  have "key_matches fs c (JString (finding_key_of f)) = Inr ()"
    using assms(1,2,5) by (simp add: context_matches_def all_checks_ok)
  moreover have "find (\<lambda>g. JString (finding_key_of g) = JString (finding_key_of f)) fs = Some f"
    using find_unique [of finding_key_of fs f] assms(3,4) by simp
  ultimately show ?thesis by (simp add: key_matches_def)
qed

text \<open>
  C13. In an accepted envelope the keys of the findings are distinct, every finding names one of
  its scanner records, no two of which have the same kind, exactly one source context refers to
  the finding, and if that context is available it shows the file and the lines of the finding.
\<close>

theorem accepted_envelope_coherent:
  assumes "build_validated_envelope_v2 word sha limit schema raw_parts = Inr v"
  shows "distinct (map finding_key_of (findings_of v)) \<and>
    distinct (map (\<lambda>s. py_norm (member_of s ''kind'')) (scanners_of v)) \<and>
    list_all (\<lambda>f. list_ex (\<lambda>s. py_equal (member_of f ''scanner'') (member_of s ''kind'')) (scanners_of v) \<and>
      (\<exists>c. filter (\<lambda>c. JString (finding_key_of f) \<in> set (context_keys c)) (contexts_of v) = [c] \<and>
        (truthy (member_of c ''available'') \<longrightarrow> window_of_finding c f))) (findings_of v)"
proof -
  obtain parts where "relationship_checks word (documents_of parts) (ve_metadata v) (ve_findings v) (ve_source_contexts v) = Inr ()"
    using assms by (rule built_envelope_cases)
  note related = related_parts [OF this]
  have links: "validate_source_context_links (findings_of v) (contexts_of v) = Inr ()"
    using related(3) by (auto simp: linked_contexts_def findings_of_def contexts_of_def split: sum.splits)
  note once = linked_once [OF links]
  have "distinct (map (\<lambda>s. py_norm (member_of s ''kind'')) (scanners_of v))"
    using related(1) by (auto simp: unique_kinds_def Let_def scanners_of_def comp_def split: if_splits)
  moreover have "list_ex (\<lambda>s. py_equal (member_of f ''scanner'') (member_of s ''kind'')) (scanners_of v)"
    if "f \<in> set (findings_of v)" for f
    using that related(2)
    by (fastforce simp: known_scanner_def findings_of_def scanners_of_def list_ex_iff list_all_iff py_equal_def)
  moreover have "\<exists>c. filter (\<lambda>c. JString (finding_key_of f) \<in> set (context_keys c)) (contexts_of v) = [c] \<and>
      (truthy (member_of c ''available'') \<longrightarrow> window_of_finding c f)" if f: "f \<in> set (findings_of v)" for f
  proof -
    obtain c where c: "filter (\<lambda>c. JString (finding_key_of f) \<in> set (context_keys c)) (contexts_of v) = [c]"
      using once f by (auto simp: list_all_iff length_Suc_conv)
    then have m: "c \<in> set (contexts_of v)" "JString (finding_key_of f) \<in> set (context_keys c)"
      using filter_set [of "\<lambda>c. JString (finding_key_of f) \<in> set (context_keys c)" "contexts_of v"] by auto
    then have "context_matches (findings_of v) c = Inr ()"
      using related(4) by (auto simp: list_all_iff findings_of_def contexts_of_def)
    from matched_window [OF this _ conjunct1 [OF once] f m(2)] c show ?thesis by blast
  qed
  ultimately show ?thesis using once by (simp add: list_all_iff)
qed

section \<open>Witness\<close>

text \<open>An envelope with one scanner record, one finding and an unavailable context of the finding.\<close>

definition sample_key :: "string" where
  "sample_key = ''00000000-0000-5000-8000-000000000000''"

definition sample_metadata :: members where
  "sample_metadata =
     [(codes_of ''artifacts'', JObject [(codes_of ''sarif'', JBool False), (codes_of ''sbom'', JBool False)]),
      (codes_of ''scanner_release'', JObject [(codes_of ''images'', JObject [])]),
      (codes_of ''schema_version'', JInt 2)]"

definition sample_findings :: members where
  "sample_findings =
     [(codes_of ''findings'', JArray [JObject
         [(codes_of ''finding_key'', JString (codes_of sample_key)), (codes_of ''scanner'', JString (codes_of ''s''))]]),
      (codes_of ''scanners'', JArray [JObject
         [(codes_of ''kind'', JString (codes_of ''s'')), (codes_of ''status'', JString (codes_of ''skipped''))]]),
      (codes_of ''schema_version'', JInt 2)]"

definition sample_contexts :: members where
  "sample_contexts =
     [(codes_of ''contexts'', JArray [JObject
         [(codes_of ''available'', JBool False), (codes_of ''context_key'', JString (codes_of sample_key)),
          (codes_of ''finding_keys'', JArray [JString (codes_of sample_key)]),
          (codes_of ''provider'', JString (codes_of ''snapshot'')), (codes_of ''redaction_version'', JInt 1)]]),
      (codes_of ''schema_version'', JInt 2)]"

lemma utf8_length: "utf8_encode t = Some b \<Longrightarrow> length b \<le> 4 * length t"
proof -
  have "length (concat (map utf8_char t)) \<le> 4 * length t"
    by (induction t) (auto simp: utf8_char_def)
  then show "utf8_encode t = Some b \<Longrightarrow> length b \<le> 4 * length t"
    by (auto simp: utf8_encode_def split: if_splits)
qed

lemma small_part:
  assumes "validate_value 20 1 (JObject ms) = Inr ()" "dict_value (JObject ms)" "canon_value (JObject ms) = JObject ms"
    and "encode_value (JObject ms) = Some t" "length t < 500" "20 \<le> limit" "2000 \<le> part_limit name"
  shows "\<exists>b. read_part limit name b = Inr (ms, b) \<and> length b < 2000 \<and> canonical_json_bytes (JObject ms) = Inr b"
proof -
  obtain b where b: "canonical_json_bytes (JObject ms) = Inr b" "utf8_encode t = Some b"
    using validated_bytes [OF assms(1)] assms(4) by auto
  have l: "length b < 2000" using utf8_length [OF b(2)] assms(5) by simp
  have "parse_strict_json limit 20 b = Inr (JObject ms)" using canonical_reparse [OF b(1) assms(2,6)] assms(3) by simp
  then have "read_part limit name b = Inr (ms, b)"
    using b(1) l assms(7) by (simp add: read_part_def ENVELOPE_LIMITS_V2_def)
  with b(1) l show ?thesis by blast
qed

lemma sample_valid: "validate_value 20 1 (JObject sample_metadata) = Inr ()" "dict_value (JObject sample_metadata)"
  "validate_value 20 1 (JObject sample_findings) = Inr ()" "dict_value (JObject sample_findings)"
  "validate_value 20 1 (JObject sample_contexts) = Inr ()" "dict_value (JObject sample_contexts)"
  by (simp_all add: sample_metadata_def sample_findings_def sample_contexts_def sample_key_def validate_value_ok codes_of_def scalar_small MAX_SAFE_INTEGER_def)

lemma sample_canon: "canon_value (JObject sample_metadata) = JObject sample_metadata"
  "canon_value (JObject sample_findings) = JObject sample_findings"
  "canon_value (JObject sample_contexts) = JObject sample_contexts"
  by (simp_all add: sample_metadata_def sample_findings_def sample_contexts_def codes_of_def utf16_be_def utf16_char_def)

lemma decimal_small: "length (decimal_int 1) = 1" "length (decimal_int 2) = 1"
  by (simp_all add: decimal_int_def decimal.simps [of "Suc 0"] decimal.simps [of 2])

lemma sample_encoded: 
  "\<exists>t. encode_value (JObject sample_metadata) = Some t \<and> length t < 500"
  "\<exists>t. encode_value (JObject sample_findings) = Some t \<and> length t < 500"
  "\<exists>t. encode_value (JObject sample_contexts) = Some t \<and> length t < 500"
  by (simp_all add: sample_metadata_def sample_findings_def sample_contexts_def sample_key_def
      codes_of_def utf16_be_def utf16_char_def member_text_def json_quote_def json_escape_def
      word_false_def decimal_small)

lemma code_char_codes [simp]: "code_char (codes_of s) = s"
  by (simp add: code_char_def codes_of_def comp_def)

lemma sample_key_ok: "is_uuid5 (codes_of sample_key)"
  unfolding is_uuid5_def code_char_codes
  by (simp add: sample_key_def canonical_uuid5_def canonical_uuid_def codes_of_def uuid_version_is_def is_lower_hex_def is_digit_09_def)

definition sample_finding :: members where
  "sample_finding = [(codes_of ''finding_key'', JString (codes_of sample_key)), (codes_of ''scanner'', JString (codes_of ''s''))]"

definition sample_unavailable :: members where
  "sample_unavailable = [(codes_of ''available'', JBool False), (codes_of ''context_key'', JString (codes_of sample_key)),
          (codes_of ''finding_keys'', JArray [JString (codes_of sample_key)]),
          (codes_of ''provider'', JString (codes_of ''snapshot'')), (codes_of ''redaction_version'', JInt 1)]"

lemma sample_members:
  "member_of sample_metadata ''schema_version'' = JInt 2"
  "member_of sample_metadata ''artifacts'' = JObject [(codes_of ''sarif'', JBool False), (codes_of ''sbom'', JBool False)]"
  "member_of sample_metadata ''branch'' = JNull" "member_of sample_metadata ''ref'' = JNull"
  "member_of sample_metadata ''scanner_release'' = JObject [(codes_of ''images'', JObject [])]"
  "member_of sample_findings ''schema_version'' = JInt 2" 
  "member_of sample_findings ''findings'' = JArray [JObject sample_finding]"
  "member_of sample_findings ''scanners'' = JArray [JObject
         [(codes_of ''kind'', JString (codes_of ''s'')), (codes_of ''status'', JString (codes_of ''skipped''))]]"
  "member_of sample_contexts ''schema_version'' = JInt 2" 
  "member_of sample_contexts ''contexts'' = JArray [JObject sample_unavailable]"
  "finding_key_of sample_finding = codes_of sample_key"
  "finding_keys_of sample_unavailable = Some [JString (codes_of sample_key)]"
  "member_of sample_unavailable ''context_key'' = JString (codes_of sample_key)"
  "member_of sample_unavailable ''available'' = JBool False"
  by (simp_all add: sample_metadata_def sample_findings_def sample_contexts_def sample_finding_def sample_unavailable_def member_of_def codes_of_def
    finding_key_of_def finding_keys_of_def hashable_def)

lemma sample_linked: "linked_contexts word [JObject sample_finding] [JObject sample_unavailable] = Inr ()"
  by (simp add: linked_contexts_def attributes_def validate_source_context_links_def sample_members sample_key_ok)
    (simp add: sanitize_source_contexts_def sample_unavailable_def member_of_def codes_of_def REDACTION_VERSION_def)

lemma sample_related:
  assumes "part_document parts ''sarif'' = None" "part_document parts ''sbom'' = None"
  shows "relationship_checks word parts sample_metadata sample_findings sample_contexts = Inr ()"
  using assms
  by (simp add: require_def relationship_checks_def Let_def sample_members sample_linked branch_consistent_def is_object_def is_array_def items_def
     all_checks_ok SCHEMA_VERSION_def attributes_def artifact_flag_ok_def validate_optional_artifacts_def sarif_ok_def sbom_ok_def OPTIONAL_PARTS_def
     unique_kinds_def hashable_def scanner_released_def known_scanner_def line_range_ok_def context_matches_def)
    (simp add: member_of_def codes_of_def sample_finding_def hashable_def)

lemma sample_built:
  "\<exists>raw v. build_validated_envelope_v2 word (\<lambda>b. b) 100 (\<lambda>_ _. True) raw = Inr v \<and>
     findings_of v = [sample_finding]"
proof -
  obtain b1 where b1: "read_part 100 ''metadata'' b1 = Inr (sample_metadata, b1)" "length b1 < 2000"
      "canonical_json_bytes (JObject sample_metadata) = Inr b1"
    using small_part [OF sample_valid(1,2) sample_canon(1), of _ 100 "''metadata''"] sample_encoded(1)
    by (auto simp: part_limit_def ENVELOPE_LIMITS_V2_def)
  obtain b2 where b2: "read_part 100 ''findings'' b2 = Inr (sample_findings, b2)" "length b2 < 2000"
      "canonical_json_bytes (JObject sample_findings) = Inr b2"
    using small_part [OF sample_valid(3,4) sample_canon(2), of _ 100 "''findings''"] sample_encoded(2)
    by (auto simp: part_limit_def ENVELOPE_LIMITS_V2_def)
  obtain b3 where b3: "read_part 100 ''source_contexts'' b3 = Inr (sample_contexts, b3)" "length b3 < 2000"
      "canonical_json_bytes (JObject sample_contexts) = Inr b3"
    using small_part [OF sample_valid(5,6) sample_canon(3), of _ 100 "''source_contexts''"] sample_encoded(3)
    by (auto simp: part_limit_def ENVELOPE_LIMITS_V2_def)
  define raw where "raw = [(''metadata'', b1), (''findings'', b2), (''source_contexts'', b3)]"
  define parts where "parts = [(''metadata'', sample_metadata, b1), (''findings'', sample_findings, b2),
    (''source_contexts'', sample_contexts, b3)]"
  have valid: "parts_valid (map fst raw)" "parts_valid (map fst (documents_of parts))"
    by (simp_all add: raw_def documents_of_def parts_valid_def REQUIRED_PARTS_def ENVELOPE_PARTS_def)
  have size: "\<not> parsed_bytes ENVELOPE_LIMITS_V2 < sum_list (map (int \<circ> length \<circ> snd) raw)"
    using b1(2) b2(2) b3(2) by (simp add: raw_def ENVELOPE_LIMITS_V2_def)
  have read: "read_parts 100 raw ENVELOPE_PARTS = Inr parts"
    by (simp add: ENVELOPE_PARTS_def raw_def parts_def b1(1) b2(1) b3(1))
  have schema: "all_checks (map (schema_check (\<lambda>_ _. True) parts) REQUIRED_PARTS) = Inr ()"
    by (simp add: schema_check_def REQUIRED_PARTS_def parts_def require_def)
  have documents: "part_document (documents_of parts) ''metadata'' = Some (JObject sample_metadata)"
    "part_document (documents_of parts) ''findings'' = Some (JObject sample_findings)"
    "part_document (documents_of parts) ''source_contexts'' = Some (JObject sample_contexts)"
    "part_document (documents_of parts) ''sarif'' = None" "part_document (documents_of parts) ''sbom'' = None"
    by (simp_all add: part_document_documents ENVELOPE_PARTS_def parts_def)
  have related: "validate_envelope_relationships word (documents_of parts) = Inr ()"
    by (simp add: validate_envelope_relationships_def valid(2) required_object_def documents
        sample_related [OF documents(4,5)])
  obtain h where hash: "envelope_payload_hash (\<lambda>b. b) (documents_of parts) = Inr h"
    using valid(2) by (simp add: envelope_payload_hash_def envelope_preimage_def ENVELOPE_PARTS_def
        hash_part_def documents b1(3) b2(3) b3(3) OPTIONAL_PARTS_def)
  obtain v where v: "envelope_of parts h = Inr v" "findings_of v = [sample_finding]"
    by (simp add: envelope_of_def ENVELOPE_PARTS_def parts_def findings_of_def sample_members items_def attributes_def)
  have "build_validated_envelope_v2 word (\<lambda>b. b) 100 (\<lambda>_ _. True) raw = Inr v"
    unfolding build_validated_envelope_v2_def
    by (simp add: valid(1) size read schema related hash v(1))
  with v(2) show ?thesis by blast
qed

theorem accepted_envelope_coherent_witness:
  "\<exists>raw v. build_validated_envelope_v2 (\<lambda>_. False) (\<lambda>b. b) 100 (\<lambda>_ _. True) raw = Inr v \<and>
     findings_of v = [sample_finding] \<and>
     list_ex (\<lambda>s. py_equal (member_of sample_finding ''scanner'') (member_of s ''kind'')) (scanners_of v) \<and>
     (\<exists>c. filter (\<lambda>c. JString (finding_key_of sample_finding) \<in> set (context_keys c)) (contexts_of v) = [c])"
proof -
  obtain raw v where v: "build_validated_envelope_v2 (\<lambda>_. False) (\<lambda>b. b) 100 (\<lambda>_ _. True) raw = Inr v"
      "findings_of v = [sample_finding]"
    using sample_built by blast
  with accepted_envelope_coherent [OF v(1)] show ?thesis by auto
qed

end
