(* ===== verification/Failure_Limiter.thy ===== *)
theory Failure_Limiter
  imports Prelude "HOL-Library.AList"
begin

text \<open>
  The in-process limiter of failed scan-token authentications
  (\<^verbatim>\<open>auth_failure_limiter\<close>): sliding windows of failure times per socket origin
  and per token selector, in two dictionaries whose number of keys is bounded.  Clock readings are
  reals; the rounding of floating-point subtraction is not modelled.  The abstract limiter keeps
  every failure for ever and counts those inside the window; the bounded one refines it as long as
  no live bucket has to be evicted.
\<close>

section \<open>State and operations\<close>

record limit_decision =
  ld_allowed :: bool
  ld_retry_after :: "int option"

text \<open>A dictionary of deques, in insertion order.\<close>

type_synonym buckets = "(string \<times> real list) list"

record limiter =
  origin_limit :: int
  selector_limit :: int
  window_s :: int
  max_buckets :: int
  origin_bk :: buckets
  selector_bk :: buckets

definition limiter_init :: "int \<Rightarrow> int \<Rightarrow> int \<Rightarrow> int \<Rightarrow> string + limiter" where
  "limiter_init ol sl w mb =
     (if min (min ol sl) (min w mb) \<le> 0 then Inl ''failure limits and window must be positive''
      else Inr \<lparr>origin_limit = ol, selector_limit = sl, window_s = w, max_buckets = mb,
                origin_bk = [], selector_bk = []\<rparr>)"

definition limited :: "limiter \<Rightarrow> real \<Rightarrow> real \<Rightarrow> limit_decision" where
  "limited l now oldest =
     \<lparr>ld_allowed = False,
      ld_retry_after = Some (max 1 (py_round (of_int (window_s l) - (now - oldest))))\<rparr>"

text \<open>The loop that pops expired times off the front of a deque.\<close>

definition prune :: "real \<Rightarrow> real list \<Rightarrow> real list" where
  "prune cutoff events = dropWhile (\<lambda>t. t \<le> cutoff) events"

text \<open>The loop that deletes the oldest key while the dictionary is full.\<close>

fun evict :: "int \<Rightarrow> buckets \<Rightarrow> buckets" where
  "evict m [] = []"
| "evict m (b # bs) = (if m \<le> int (length (b # bs)) then evict m bs else b # bs)"

definition live_buckets :: "limiter \<Rightarrow> buckets \<Rightarrow> real \<Rightarrow> buckets" where
  "live_buckets l bk now =
     filter (\<lambda>(k, ev). ev \<noteq> [])
       (map (\<lambda>(k, ev). (k, prune (now - of_int (window_s l)) ev)) bk)"

definition make_room :: "limiter \<Rightarrow> buckets \<Rightarrow> real \<Rightarrow> buckets" where
  "make_room l bk now =
     (if int (length bk) < max_buckets l then bk
      else evict (max_buckets l) (live_buckets l bk now))"

text \<open>
  \<^verbatim>\<open>_events\<close> returns the deque that stays inside the dictionary: the new dictionary
  and the pruned deque stored in it.
\<close>

definition events_of :: "limiter \<Rightarrow> buckets \<Rightarrow> string \<Rightarrow> real \<Rightarrow> buckets \<times> real list" where
  "events_of l bk key now =
     (let bk' = (if map_of bk key = None then make_room l bk now else bk);
          ev = (case map_of bk' key of None \<Rightarrow> [] | Some e \<Rightarrow> e);
          ev' = prune (now - of_int (window_s l)) ev
      in (AList.update key ev' bk', ev'))"

text \<open>Appending the failure to the deque that \<open>events_of\<close> returned.\<close>

definition note_failure :: "limiter \<Rightarrow> buckets \<Rightarrow> string \<Rightarrow> real \<Rightarrow> buckets \<times> real list" where
  "note_failure l bk key now =
     (case events_of l bk key now of (bk', ev) \<Rightarrow>
        (AList.update key (ev @ [now]) bk', ev @ [now]))"

definition record_failure ::
    "limiter \<Rightarrow> real \<Rightarrow> string \<Rightarrow> string \<Rightarrow> limiter \<times> limit_decision" where
  "record_failure l now origin selector =
     (let okey = (if origin = [] then ''unknown'' else origin);
          skey = (if selector = [] then ''malformed'' else selector)
      in case note_failure l (origin_bk l) okey now of (obk, oev) \<Rightarrow>
           let l1 = l\<lparr>origin_bk := obk\<rparr> in
           if origin_limit l < int (length oev) then (l1, limited l1 now (hd oev))
           else case note_failure l1 (selector_bk l1) skey now of (sbk, sev) \<Rightarrow>
                  let l2 = l1\<lparr>selector_bk := sbk\<rparr> in
                  if int (length sev) \<le> selector_limit l
                  then (l2, \<lparr>ld_allowed = True, ld_retry_after = None\<rparr>)
                  else (l2, limited l2 now (hd sev)))"

section \<open>The number of buckets is bounded\<close>

definition bounded_buckets :: "limiter \<Rightarrow> buckets \<Rightarrow> bool" where
  "bounded_buckets l bk \<longleftrightarrow> distinct (map fst bk) \<and> int (length bk) \<le> max_buckets l"

definition limiter_ok :: "limiter \<Rightarrow> bool" where
  "limiter_ok l \<longleftrightarrow>
     0 < origin_limit l \<and> 0 < selector_limit l \<and> 0 < window_s l \<and> 0 < max_buckets l \<and>
     bounded_buckets l (origin_bk l) \<and> bounded_buckets l (selector_bk l)"

lemma evict_suffix: "\<exists>pre. bs = pre @ evict m bs"
  by (induction m bs rule: evict.induct) (auto intro: exI [of _ "[]"] Cons_eq_appendI)

lemma length_evict: "0 < m \<Longrightarrow> int (length (evict m bs)) < m"
  by (induction m bs rule: evict.induct) auto

lemma distinct_live: "distinct (map fst bk) \<Longrightarrow> distinct (map fst (live_buckets l bk now))"
proof -
  assume d: "distinct (map fst bk)"
  have keys: "map fst (map (\<lambda>(k, ev). (k, prune c ev)) bk) = map fst bk" for c
    by (induction bk) auto
  show ?thesis unfolding live_buckets_def
    by (rule distinct_map_filter) (simp only: keys d)
qed

lemma distinct_make_room: "distinct (map fst bk) \<Longrightarrow> distinct (map fst (make_room l bk now))"
proof -
  assume d: "distinct (map fst bk)"
  obtain pre where "live_buckets l bk now = pre @ evict (max_buckets l) (live_buckets l bk now)"
    using evict_suffix by blast
  with distinct_live [OF d] have "distinct (map fst (evict (max_buckets l) (live_buckets l bk now)))"
    by (metis distinct_append map_append)
  with d show ?thesis by (simp add: make_room_def)
qed

lemma length_make_room:
  "0 < max_buckets l \<Longrightarrow> int (length (make_room l bk now)) < max_buckets l"
  by (simp add: make_room_def length_evict)

lemma length_update_le: "length (AList.update k v al) \<le> Suc (length al)"
  by (induction al) auto

lemma length_update_dom: "map_of al k \<noteq> None \<Longrightarrow> length (AList.update k v al) = length al"
  by (induction al) auto

lemma bounded_note_failure:
  assumes "bounded_buckets l bk" "0 < max_buckets l" "note_failure l bk key now = (bk', ev)"
  shows "bounded_buckets l bk'"
proof -
  define room where "room = (if map_of bk key = None then make_room l bk now else bk)"
  obtain e where e: "bk' = AList.update key (e @ [now]) (AList.update key e room)"
    using assms(3) by (auto simp: note_failure_def events_of_def Let_def room_def split: prod.splits)
  have "distinct (map fst room)"
    using assms(1) by (simp add: room_def bounded_buckets_def distinct_make_room)
  then have "distinct (map fst bk')" by (simp add: e distinct_update)
  moreover have "length bk' = length (AList.update key e room)"
    unfolding e by (rule length_update_dom) (simp add: update_conv')
  moreover have "int (length (AList.update key e room)) \<le> max_buckets l"
  proof (cases "map_of bk key = None")
    case True
    then show ?thesis
      using length_make_room [OF assms(2), of bk now] length_update_le [of key e room]
      by (simp add: room_def)
  next
    case False
    then have "room = bk" unfolding room_def by (rule if_not_P)
    with False show ?thesis
      using assms(1) length_update_dom [of bk key e] by (simp add: bounded_buckets_def)
  qed
  ultimately show ?thesis by (simp add: bounded_buckets_def)
qed

lemma note_failure_frame [simp]:
  "note_failure (l\<lparr>origin_bk := x\<rparr>) = note_failure l"
  by (simp add: fun_eq_iff note_failure_def events_of_def make_room_def live_buckets_def)

lemma bounded_buckets_frame [simp]:
  "bounded_buckets (l\<lparr>origin_bk := x\<rparr>) = bounded_buckets l"
  "bounded_buckets (l\<lparr>selector_bk := x\<rparr>) = bounded_buckets l"
  by (simp_all add: fun_eq_iff bounded_buckets_def)

lemma record_failure_ok: "limiter_ok l \<Longrightarrow> limiter_ok (fst (record_failure l now origin selector))"
  by (auto simp: record_failure_def limiter_ok_def Let_def dest: bounded_note_failure
      split: prod.splits)

lemma limiter_init_ok: "limiter_init ol sl w mb = Inr l \<Longrightarrow> limiter_ok l"
  by (auto simp: limiter_init_def limiter_ok_def bounded_buckets_def split: if_splits)

section \<open>The unbounded limiter\<close>

text \<open>
  The specification keeps, per key, every failure time ever noted and counts the ones inside
  the window that ends now.
\<close>

type_synonym failure_log = "string \<Rightarrow> real list"

definition in_window :: "real \<Rightarrow> real \<Rightarrow> real list \<Rightarrow> real list" where
  "in_window w now ts = filter (\<lambda>t. now - w < t) ts"

definition spec_record ::
    "int \<Rightarrow> int \<Rightarrow> real \<Rightarrow> failure_log \<times> failure_log \<Rightarrow> real \<Rightarrow> string \<Rightarrow> string
     \<Rightarrow> (failure_log \<times> failure_log) \<times> bool" where
  "spec_record ol sl w logs now origin selector =
     (let okey = (if origin = [] then ''unknown'' else origin);
          skey = (if selector = [] then ''malformed'' else selector);
          olog = (fst logs)(okey := fst logs okey @ [now])
      in if ol < int (length (in_window w now (olog okey))) then ((olog, snd logs), False)
         else
           let slog = (snd logs)(skey := snd logs skey @ [now])
           in ((olog, slog), int (length (in_window w now (slog skey))) \<le> sl))"

definition bucket :: "buckets \<Rightarrow> string \<Rightarrow> real list" where
  "bucket bk k = (case map_of bk k of None \<Rightarrow> [] | Some ev \<Rightarrow> ev)"

definition agrees :: "real \<Rightarrow> real \<Rightarrow> buckets \<Rightarrow> failure_log \<Rightarrow> bool" where
  "agrees w now bk hist \<longleftrightarrow>
     distinct (map fst bk) \<and>
     (\<forall>k. sorted (bucket bk k) \<and> (\<forall>t \<in> set (bucket bk k). t \<le> now) \<and>
          (\<forall>c \<ge> now - w. filter (\<lambda>t. c < t) (bucket bk k) = filter (\<lambda>t. c < t) (hist k)))"

text \<open>A new key does not push a live one out.\<close>

definition has_room :: "limiter \<Rightarrow> buckets \<Rightarrow> string \<Rightarrow> real \<Rightarrow> bool" where
  "has_room l bk key now \<longleftrightarrow>
     map_of bk key \<noteq> None \<or> int (length bk) < max_buckets l \<or>
     int (length (live_buckets l bk now)) < max_buckets l"

lemma prune_sorted: "sorted ev \<Longrightarrow> prune c ev = filter (\<lambda>t. c < t) ev"
  by (induction ev) (auto simp: prune_def intro!: filter_True [symmetric])

lemma prune_Nil [simp]: "prune c [] = []"
  by (simp add: prune_def)

lemma filter_prune: "c \<le> d \<Longrightarrow> sorted ev \<Longrightarrow> filter (\<lambda>t. d < t) (prune c ev) = filter (\<lambda>t. d < t) ev"
  by (auto simp: prune_sorted intro: filter_cong)

lemma evict_id: "int (length bs) < m \<Longrightarrow> evict m bs = bs"
  by (cases bs) auto

lemma map_of_filter_nonempty:
  "distinct (map fst bk) \<Longrightarrow>
   map_of (filter (\<lambda>(k, ev). ev \<noteq> []) (map (\<lambda>(k, ev). (k, f ev)) bk)) k =
     (case map_of bk k of None \<Rightarrow> None | Some ev \<Rightarrow> if f ev = [] then None else Some (f ev))"
proof (induction bk)
  case (Cons p bk)
  obtain a b where p: "p = (a, b)" by fastforce
  show ?case
  proof (cases "k = a")
    case True
    with Cons.prems p have "map_of bk k = None" by (simp add: map_of_eq_None_iff)
    with Cons p True show ?thesis by simp
  next
    case False
    with Cons p show ?thesis by simp
  qed
qed simp

lemma bucket_live:
  "distinct (map fst bk) \<Longrightarrow>
   bucket (live_buckets l bk now) k = prune (now - of_int (window_s l)) (bucket bk k)"
  by (cases "map_of bk k") (auto simp: bucket_def live_buckets_def map_of_filter_nonempty)

lemma bucket_update [simp]: "bucket (AList.update k v bk) k' = (if k' = k then v else bucket bk k')"
  by (simp add: bucket_def update_conv')

lemma agrees_make_room:
  assumes "agrees (of_int (window_s l)) now0 bk hist" "now0 \<le> now"
    "has_room l bk key now" "map_of bk key = None"
  shows "agrees (of_int (window_s l)) now (make_room l bk now) hist"
proof (cases "int (length bk) < max_buckets l")
  case True
  with assms(1,2) show ?thesis by (fastforce simp: agrees_def make_room_def)
next
  case False
  with assms(3,4) have room: "make_room l bk now = live_buckets l bk now"
    by (simp add: make_room_def has_room_def evict_id)
  show ?thesis unfolding agrees_def room
  proof (intro conjI allI)
    show "distinct (map fst (live_buckets l bk now))"
      using assms(1) by (simp add: agrees_def distinct_live)
    fix k
    have d: "distinct (map fst bk)" and s: "sorted (bucket bk k)"
      and up: "\<forall>t \<in> set (bucket bk k). t \<le> now0"
      and eq: "\<forall>c \<ge> now0 - of_int (window_s l).
        filter (\<lambda>t. c < t) (bucket bk k) = filter (\<lambda>t. c < t) (hist k)"
      using assms(1) by (auto simp: agrees_def)
    show "sorted (bucket (live_buckets l bk now) k)"
      by (simp add: bucket_live d prune_sorted s sorted_wrt_filter)
    show "\<forall>t \<in> set (bucket (live_buckets l bk now) k). t \<le> now"
      using up assms(2) by (auto simp: bucket_live d prune_sorted s)
    show "now - of_int (window_s l) \<le> c \<longrightarrow>
        filter (\<lambda>t. c < t) (bucket (live_buckets l bk now) k) = filter (\<lambda>t. c < t) (hist k)" for c
      using eq assms(2) by (auto simp: bucket_live d filter_prune s)
  qed
qed

lemma note_failure_refines:
  assumes agree: "agrees (of_int (window_s l)) now0 bk hist" and "now0 \<le> now"
    and room: "has_room l bk key now" and w: "0 < window_s l"
    and step: "note_failure l bk key now = (bk', ev)"
  shows "agrees (of_int (window_s l)) now bk' (hist(key := hist key @ [now])) \<and>
    ev = in_window (of_int (window_s l)) now (hist key @ [now])"
proof -
  define w where "w = (of_int (window_s l) :: real)"
  define bk1 where "bk1 = (if map_of bk key = None then make_room l bk now else bk)"
  have agree1: "agrees w now bk1 hist"
  proof (cases "map_of bk key = None")
    case True
    then show ?thesis
      using agrees_make_room [OF agree \<open>now0 \<le> now\<close> room] by (simp add: bk1_def w_def)
  next
    case False
    then have "bk1 = bk" unfolding bk1_def by (rule if_not_P)
    with agree \<open>now0 \<le> now\<close> show ?thesis by (fastforce simp: agrees_def w_def)
  qed
  define e where "e = prune (now - w) (bucket bk1 key)"
  have wpos: "0 < w" using \<open>0 < window_s l\<close> by (simp add: w_def)
  have sorted1: "sorted (bucket bk1 k)" and up1: "\<forall>t \<in> set (bucket bk1 k). t \<le> now"
    and eq1: "\<And>c. now - w \<le> c \<Longrightarrow>
      filter (\<lambda>t. c < t) (bucket bk1 k) = filter (\<lambda>t. c < t) (hist k)" for k
    using agree1 by (auto simp: agrees_def)
  have e_filter: "e = filter (\<lambda>t. now - w < t) (hist key)"
    using eq1 [of "now - w" key] by (simp add: e_def prune_sorted sorted1)
  have e_sub: "set e \<subseteq> set (bucket bk1 key)"
    by (auto simp: e_def prune_sorted sorted1)
  have e_sorted: "sorted (e @ [now])"
    using up1 [of key] e_sub by (auto simp: sorted_append e_def prune_sorted sorted1 sorted_wrt_filter)
  have res: "bk' = AList.update key (e @ [now]) (AList.update key e bk1)" "ev = e @ [now]"
    using step
    by (auto simp: note_failure_def events_of_def Let_def bk1_def e_def w_def bucket_def
        split: option.splits)
  have "ev = in_window w now (hist key @ [now])"
    using wpos by (simp add: res(2) e_filter in_window_def)
  moreover have "agrees w now bk' (hist(key := hist key @ [now]))"
    unfolding agrees_def
  proof (intro conjI allI)
    show "distinct (map fst bk')"
      using agree1 by (simp add: res(1) agrees_def distinct_update)
    fix k
    show "sorted (bucket bk' k)" using e_sorted sorted1 by (simp add: res(1))
    show "\<forall>t \<in> set (bucket bk' k). t \<le> now" using e_sub up1 by (auto simp: res(1))
    show "now - w \<le> c \<longrightarrow> filter (\<lambda>t. c < t) (bucket bk' k) =
        filter (\<lambda>t. c < t) ((hist(key := hist key @ [now])) k)" for c
      using eq1 by (auto simp: res(1) e_def filter_prune sorted1)
  qed
  ultimately show ?thesis by (simp add: w_def)
qed

text \<open>The two dictionaries of a limiter against the two logs of the specification.\<close>

definition limiter_agrees :: "real \<Rightarrow> limiter \<Rightarrow> failure_log \<times> failure_log \<Rightarrow> bool" where
  "limiter_agrees now l logs \<longleftrightarrow>
     agrees (of_int (window_s l)) now (origin_bk l) (fst logs) \<and>
     agrees (of_int (window_s l)) now (selector_bk l) (snd logs)"

lemma agrees_later:
  "agrees w now0 bk hist \<Longrightarrow> now0 \<le> now \<Longrightarrow> agrees w now bk hist"
  by (fastforce simp: agrees_def)

text \<open>
  C26.  Refinement of the sliding-window specification.  While the clock does not run backwards
  and neither dictionary has to evict a live bucket for the new key, the bounded limiter gives
  exactly the answer of the limiter that remembers every failure (first the origin's window,
  then, only if the origin passed, the selector's), and stays in agreement with it.
\<close>

theorem record_failure_refines_spec:
  assumes "limiter_ok l" "limiter_agrees now0 l logs" "now0 \<le> now"
    and "has_room l (origin_bk l) (if origin = [] then ''unknown'' else origin) now"
    and "has_room l (selector_bk l) (if selector = [] then ''malformed'' else selector) now"
    and "record_failure l now origin selector = (l', d)"
    and "spec_record (origin_limit l) (selector_limit l) (of_int (window_s l)) logs now origin selector
         = (logs', allowed)"
  shows "ld_allowed d = allowed \<and> limiter_agrees now l' logs'"
proof -
  define okey where "okey = (if origin = [] then ''unknown'' else origin)"
  define skey where "skey = (if selector = [] then ''malformed'' else selector)"
  have w: "0 < window_s l" using assms(1) by (simp add: limiter_ok_def)
  obtain obk oev where o: "note_failure l (origin_bk l) okey now = (obk, oev)" by fastforce
  obtain sbk sev where s: "note_failure l (selector_bk l) skey now = (sbk, sev)" by fastforce
  note O = note_failure_refines [OF _ assms(3) _ w o, of "fst logs"]
  note S = note_failure_refines [OF _ assms(3) _ w s, of "snd logs"]
  from O S assms(2,4,5) have
    "agrees (of_int (window_s l)) now obk ((fst logs)(okey := fst logs okey @ [now]))"
    "oev = in_window (of_int (window_s l)) now (fst logs okey @ [now])"
    "agrees (of_int (window_s l)) now sbk ((snd logs)(skey := snd logs skey @ [now]))"
    "sev = in_window (of_int (window_s l)) now (snd logs skey @ [now])"
    by (simp_all add: limiter_agrees_def okey_def skey_def)
  moreover have "agrees (of_int (window_s l)) now (selector_bk l) (snd logs)"
    using assms(2,3) by (auto simp: limiter_agrees_def intro: agrees_later)
  ultimately show ?thesis
    using assms(6,7) o s
    by (auto simp: record_failure_def spec_record_def Let_def okey_def [symmetric]
        skey_def [symmetric] limiter_agrees_def limited_def split: if_splits)
qed

theorem record_failure_refines_spec_witness:
  "\<exists>l' d logs'. record_failure
      \<lparr>origin_limit = 1, selector_limit = 1, window_s = 600, max_buckets = 2,
       origin_bk = [(''ip'', [100])], selector_bk = []\<rparr> 200 ''ip'' [] = (l', d) \<and>
     \<not> ld_allowed d \<and> limiter_agrees 200 l' logs'"
proof -
  let ?l = "\<lparr>origin_limit = 1, selector_limit = 1, window_s = 600, max_buckets = 2,
       origin_bk = [(''ip'', [100])], selector_bk = []\<rparr> :: limiter"
  let ?logs = "(\<lambda>k. if k = ''ip'' then [-600, 100] else [], \<lambda>_. []) :: failure_log \<times> failure_log"
  have ok: "limiter_ok ?l" by (simp add: limiter_ok_def bounded_buckets_def)
  have ag: "limiter_agrees 100 ?l ?logs"
    by (auto simp: limiter_agrees_def agrees_def bucket_def)
  have room: "has_room ?l (origin_bk ?l) (if ''ip'' = [] then ''unknown'' else ''ip'') 200"
    "has_room ?l (selector_bk ?l) (if [] = [] then ''malformed'' else []) 200"
    by (simp_all add: has_room_def)
  obtain l' d where r: "record_failure ?l 200 ''ip'' [] = (l', d)" by fastforce
  obtain logs' where s: "spec_record (origin_limit ?l) (selector_limit ?l)
      (of_int (window_s ?l)) ?logs 200 ''ip'' [] = (logs', False)"
    by (simp add: spec_record_def in_window_def Let_def)
  show ?thesis
    using record_failure_refines_spec [OF ok ag _ room r s] r by (cases logs') auto
qed

section \<open>How long a limited client is told to wait\<close>

lemma keys_make_room: "set (map fst (make_room l bk now)) \<subseteq> set (map fst bk)"
proof -
  have live: "set (map fst (live_buckets l bk now)) \<subseteq> set (map fst bk)"
    by (force simp: live_buckets_def)
  obtain pre where "live_buckets l bk now = pre @ evict (max_buckets l) (live_buckets l bk now)"
    using evict_suffix by blast
  then have "set (evict (max_buckets l) (live_buckets l bk now)) \<subseteq> set (live_buckets l bk now)"
    by (metis set_append sup_ge2)
  with live show ?thesis by (auto simp: make_room_def)
qed

lemma note_failure_events:
  "snd (note_failure l bk key now) = prune (now - of_int (window_s l)) (bucket bk key) @ [now]"
proof (cases "map_of bk key")
  case None
  then have "key \<notin> set (map fst bk)" by (simp add: map_of_eq_None_iff)
  then have "key \<notin> set (map fst (make_room l bk now))" using keys_make_room by blast
  then have "map_of (make_room l bk now) key = None" by (simp add: map_of_eq_None_iff)
  with None show ?thesis by (simp add: note_failure_def events_of_def bucket_def Let_def)
qed (simp add: note_failure_def events_of_def bucket_def Let_def)

lemma hd_prune_snoc:
  assumes "0 < w" "\<forall>t \<in> set ev. t \<le> now"
  shows "now - w < hd (prune (now - w) ev @ [now]) \<and> hd (prune (now - w) ev @ [now]) \<le> now"
  using assms by (induction ev) (auto simp: prune_def)

lemma limited_bounds:
  assumes "0 < window_s l" "now - of_int (window_s l) < oldest" "oldest \<le> now"
  shows "\<exists>r. ld_retry_after (limited l now oldest) = Some r \<and> 1 \<le> r \<and> r \<le> window_s l"
proof -
  have "py_round (of_int (window_s l) - (now - oldest)) \<le> window_s l"
    using assms by (intro py_round_le) simp
  with assms(1) show ?thesis by (simp add: limited_def)
qed

text \<open>
  A refused client is always told to wait, for at least one second and never longer than
  the window: the oldest failure still counted lies inside it.
\<close>

theorem record_failure_retry_after:
  assumes "limiter_ok l"
    and "\<forall>t \<in> set (bucket (origin_bk l) (if origin = [] then ''unknown'' else origin)). t \<le> now"
    and "\<forall>t \<in> set (bucket (selector_bk l) (if selector = [] then ''malformed'' else selector)). t \<le> now"
    and "record_failure l now origin selector = (l', d)" "\<not> ld_allowed d"
  shows "\<exists>r. ld_retry_after d = Some r \<and> 1 \<le> r \<and> r \<le> window_s l"
proof -
  have w: "0 < window_s l" using assms(1) by (simp add: limiter_ok_def)
  then have rw: "0 < real_of_int (window_s l)" by simp
  define ev where "ev bk k = prune (now - of_int (window_s l)) (bucket bk k) @ [now]" for bk k
  have "d \<in> {limited l now (hd (ev (origin_bk l) (if origin = [] then ''unknown'' else origin))),
             limited l now (hd (ev (selector_bk l) (if selector = [] then ''malformed'' else selector)))}"
    using assms(4,5) note_failure_events [of l]
    by (auto simp: record_failure_def Let_def ev_def limited_def split: prod.splits if_splits)
      (metis snd_conv)+
  with assms(2,3) show ?thesis
    using limited_bounds [OF w] hd_prune_snoc [OF rw] by (auto simp: ev_def)
qed

theorem record_failure_retry_after_witness:
  "\<exists>r. ld_retry_after (snd (record_failure
      \<lparr>origin_limit = 1, selector_limit = 1, window_s = 600, max_buckets = 2,
       origin_bk = [(''ip'', [100])], selector_bk = []\<rparr> 200 ''ip'' [])) = Some r
     \<and> 1 \<le> r \<and> r \<le> 600"
proof -
  let ?l = "\<lparr>origin_limit = 1, selector_limit = 1, window_s = 600, max_buckets = 2,
       origin_bk = [(''ip'', [100])], selector_bk = []\<rparr> :: limiter"
  have ok: "limiter_ok ?l" by (simp add: limiter_ok_def bounded_buckets_def)
  have times: "\<forall>t \<in> set (bucket (origin_bk ?l) (if ''ip'' = [] then ''unknown'' else ''ip'')). t \<le> 200"
    "\<forall>t \<in> set (bucket (selector_bk ?l) (if [] = [] then ''malformed'' else [])). t \<le> 200"
    by (simp_all add: bucket_def)
  obtain l' d where r: "record_failure ?l 200 ''ip'' [] = (l', d)" by fastforce
  moreover from r have "\<not> ld_allowed d"
    by (auto simp add: record_failure_def note_failure_def events_of_def prune_def limited_def Let_def)
  ultimately show ?thesis
    using record_failure_retry_after [OF ok times r] by simp
qed

section \<open>Any sequence of failures\<close>

fun record_all :: "limiter \<Rightarrow> (real \<times> string \<times> string) list \<Rightarrow> limiter" where
  "record_all l [] = l"
| "record_all l ((now, origin, selector) # rest) =
     record_all (fst (record_failure l now origin selector)) rest"

lemma record_failure_config:
  "max_buckets (fst (record_failure l now origin selector)) = max_buckets l"
  by (simp add: record_failure_def Let_def split: prod.split)

lemma record_all_ok:
  "limiter_ok l \<Longrightarrow> limiter_ok (record_all l es) \<and> max_buckets (record_all l es) = max_buckets l"
  by (induction l es rule: record_all.induct) (simp_all add: record_failure_ok record_failure_config)

text \<open>
  C40.  Bounded memory.  However many distinct origins and selectors fail, each dictionary of a
  limiter that was constructed successfully never holds more than \<open>max_buckets\<close> keys.
\<close>

theorem limiter_memory_bounded:
  assumes "limiter_init ol sl w mb = Inr l"
  shows "int (length (origin_bk (record_all l es))) \<le> mb \<and>
    int (length (selector_bk (record_all l es))) \<le> mb"
proof -
  have "max_buckets l = mb" using assms by (auto simp: limiter_init_def split: if_splits)
  then show ?thesis
    using record_all_ok [OF limiter_init_ok [OF assms], of es]
    by (simp add: limiter_ok_def bounded_buckets_def)
qed

theorem limiter_memory_bounded_witness:
  "int (length (origin_bk (record_all
     \<lparr>origin_limit = 20, selector_limit = 10, window_s = 600, max_buckets = 4096,
      origin_bk = [], selector_bk = []\<rparr> [(1, ''a'', ''s''), (2, ''b'', ''s'')]))) \<le> 4096"
proof -
  have "limiter_init 20 10 600 4096 = Inr
     \<lparr>origin_limit = 20, selector_limit = 10, window_s = 600, max_buckets = 4096,
      origin_bk = [], selector_bk = []\<rparr>"
    by (simp add: limiter_init_def)
  then show ?thesis using limiter_memory_bounded by blast
qed

end
