(* ===== verification/Finding_Parser.thy ===== *)
theory Finding_Parser
  imports Source_Context
begin

text \<open>
  The parsers of scanner output (\<^verbatim>\<open>scanning/finding_parser\<close>): the JSON of Semgrep,
  Gitleaks, Grype, OSV-Scanner, Trivy and Syft becomes a list of normalized findings.  A missing
  member, a null and a value of another type behave as in Python, where the code does not test
  for them the parser raises.  The text of a float or a container in a message, the upper case of
  text beyond ASCII and the digits beyond ASCII are parameters.
\<close>

section \<open>Values of Python\<close>

datatype parse_error = Parser_error | Parse_raised

type_synonym 'a parsed = "parse_error + 'a"

record parse_env =
  pe_limit :: nat
  pe_text :: "json \<Rightarrow> codes"
  pe_upper :: "codes \<Rightarrow> codes"
  pe_word :: "nat \<Rightarrow> bool"
  pe_decimal :: "nat \<Rightarrow> nat option"

definition parser_hooks :: "unit json_hooks" where
  "parser_hooks = \<lparr>jh_object = dict_hook, jh_float = keep_float, jh_constant = keep_constant\<rparr>"

text \<open>\<^verbatim>\<open>json.loads(raw.decode("utf-8"))\<close> with the two errors that are translated.\<close>

definition load_document :: "parse_env \<Rightarrow> bytes \<Rightarrow> json parsed" where
  "load_document env raw =
     (case utf8_decode raw of
        None \<Rightarrow> Inl Parser_error
      | Some t \<Rightarrow>
          (case json_loads parser_hooks (pe_limit env) t of
             Inl Json_Decode \<Rightarrow> Inl Parser_error
           | Inl _ \<Rightarrow> Inl Parse_raised
           | Inr v \<Rightarrow> Inr v))"

text \<open>\<^verbatim>\<open>v.get(name, default)\<close>; only objects have the method.\<close>

definition py_get_or :: "json \<Rightarrow> string \<Rightarrow> json \<Rightarrow> json parsed" where
  "py_get_or v name missing =
     (case v of
        JObject ms \<Rightarrow> Inr (case map_of ms (codes_of name) of None \<Rightarrow> missing | Some w \<Rightarrow> w)
      | _ \<Rightarrow> Inl Parse_raised)"

definition py_get :: "json \<Rightarrow> string \<Rightarrow> json parsed" where
  "py_get v name = py_get_or v name JNull"

text \<open>\<^verbatim>\<open>a or b\<close>, where \<^verbatim>\<open>b\<close> is evaluated only if needed.\<close>

definition py_or :: "json parsed \<Rightarrow> json parsed \<Rightarrow> json parsed" where
  "py_or a b = result_then a (\<lambda>v. if truthy v then Inr v else b)"

definition empty_object :: json where "empty_object = JObject []"

text \<open>\<^verbatim>\<open>v.get(name, {}) or {}\<close> and \<^verbatim>\<open>v.get(name) or []\<close>\<close>

definition get_object :: "json \<Rightarrow> string \<Rightarrow> json parsed" where
  "get_object v name = py_or (py_get_or v name empty_object) (Inr empty_object)"

definition get_list :: "json \<Rightarrow> string \<Rightarrow> json parsed" where
  "get_list v name = py_or (py_get v name) (Inr (JArray []))"

text \<open>\<^verbatim>\<open>v.get(a, {}).get(b)\<close>\<close>

definition get_within :: "json \<Rightarrow> string \<Rightarrow> string \<Rightarrow> json parsed" where
  "get_within v a b = result_then (py_get_or v a empty_object) (\<lambda>w. py_get w b)"

definition py_iter :: "json \<Rightarrow> json list parsed" where
  "py_iter v =
     (case v of
        JArray vs \<Rightarrow> Inr vs
      | JObject ms \<Rightarrow> Inr (map (JString \<circ> fst) ms)
      | JString s \<Rightarrow> Inr (map (\<lambda>c. JString [c]) s)
      | _ \<Rightarrow> Inl Parse_raised)"

text \<open>\<^verbatim>\<open>v[0]\<close>, \<^verbatim>\<open>v[:n]\<close>\<close>

definition py_first :: "json \<Rightarrow> json parsed" where
  "py_first v =
     (case v of
        JArray (w # _) \<Rightarrow> Inr w | JString (c # _) \<Rightarrow> Inr (JString [c]) | _ \<Rightarrow> Inl Parse_raised)"

definition py_slice :: "nat \<Rightarrow> json \<Rightarrow> json parsed" where
  "py_slice n v =
     (case v of JArray vs \<Rightarrow> Inr (JArray (take n vs)) | JString s \<Rightarrow> Inr (JString (take n s))
      | _ \<Rightarrow> Inl Parse_raised)"

definition py_text :: "parse_env \<Rightarrow> json \<Rightarrow> codes" where
  "py_text env v =
     (case v of
        JString s \<Rightarrow> s
      | JNull \<Rightarrow> codes_of ''None''
      | JBool b \<Rightarrow> codes_of (if b then ''True'' else ''False'')
      | JInt n \<Rightarrow> codes_of (decimal_int n)
      | _ \<Rightarrow> pe_text env v)"

fun join_texts :: "codes \<Rightarrow> codes list \<Rightarrow> codes" where
  "join_texts sep [] = []"
| "join_texts sep [t] = t"
| "join_texts sep (t # ts) = t @ sep @ join_texts sep ts"

text \<open>\<^verbatim>\<open>s.upper()\<close>\<close>

definition upper_text :: "parse_env \<Rightarrow> codes \<Rightarrow> codes" where
  "upper_text env s =
     (if list_all (\<lambda>c. c < 128) s then map (\<lambda>c. if 97 \<le> c \<and> c \<le> 122 then c - 32 else c) s else pe_upper env s)"

definition comma :: codes where "comma = codes_of '', ''"

text \<open>\<^verbatim>\<open>", ".join(values)\<close> of texts only.\<close>

definition string_of :: "json \<Rightarrow> codes" where
  "string_of v = (case v of JString s \<Rightarrow> s | _ \<Rightarrow> [])"

definition is_string :: "json \<Rightarrow> bool" where
  "is_string v \<longleftrightarrow> (case v of JString _ \<Rightarrow> True | _ \<Rightarrow> False)"

definition py_join :: "json list \<Rightarrow> codes parsed" where
  "py_join vs =
     (if list_all is_string vs then Inr (join_texts comma (map string_of vs)) else Inl Parse_raised)"

text \<open>A lookup in a table of texts; a list or an object is not hashable.\<close>

definition table_text :: "(string \<times> string) list \<Rightarrow> json \<Rightarrow> string parsed" where
  "table_text table key =
     (case key of
        JArray _ \<Rightarrow> Inl Parse_raised
      | JObject _ \<Rightarrow> Inl Parse_raised
      | JString s \<Rightarrow> Inr (case find (\<lambda>(k, v). codes_of k = s) table of None \<Rightarrow> ''UNKNOWN'' | Some (k, v) \<Rightarrow> v)
      | _ \<Rightarrow> Inr ''UNKNOWN'')"

fun collect_parsed :: "('a \<Rightarrow> 'b list parsed) \<Rightarrow> 'a list \<Rightarrow> 'b list parsed" where
  "collect_parsed f [] = Inr []"
| "collect_parsed f (x # xs) =
     result_then (f x) (\<lambda>ys. result_then (collect_parsed f xs) (\<lambda>zs. Inr (ys @ zs)))"

section \<open>Normalized findings\<close>

record parsed_finding =
  pf_scanner_kind :: string
  pf_rule_id :: json
  pf_severity :: string
  pf_file_path :: json
  pf_line_start :: "int option"
  pf_line_end :: "int option"
  pf_message :: json
  pf_theme :: json
  pf_fix_strategy :: "string option"
  pf_compliance_tags :: "json list"
  pf_package_name :: "codes option"
  pf_package_version :: "codes option"
  pf_package_ecosystem :: "codes option"
  pf_package_purl :: "codes option"

definition MOUNT_PREFIX :: codes where "MOUNT_PREFIX = codes_of ''/src''"

definition strip_mount_prefix :: "json \<Rightarrow> json" where
  "strip_mount_prefix path =
     (case path of
        JString s \<Rightarrow>
          if s = [] then JNull
          else if take 5 s = MOUNT_PREFIX @ [47] then JString (drop 5 s)
          else (let t = dropWhile (\<lambda>c. c = 47) s in if t = [] then JNull else JString t)
      | _ \<Rightarrow> JNull)"

definition positive_line :: "json \<Rightarrow> int option" where
  "positive_line v = (case v of JInt n \<Rightarrow> if 0 < n then Some n else None | _ \<Rightarrow> None)"

definition normalize_line_range :: "json \<Rightarrow> json \<Rightarrow> int option \<times> int option" where
  "normalize_line_range start end_line =
     (case positive_line start of
        None \<Rightarrow> (None, None)
      | Some a \<Rightarrow>
          (case positive_line end_line of
             None \<Rightarrow> (Some a, Some a) | Some b \<Rightarrow> (Some a, Some (if b < a then a else b))))"

definition strip_codes :: "codes \<Rightarrow> codes" where
  "strip_codes s = rev (dropWhile code_space (rev (dropWhile code_space s)))"

definition bounded_value :: "json \<Rightarrow> nat \<Rightarrow> codes option" where
  "bounded_value v limit =
     (case v of
        JString s \<Rightarrow> (let t = strip_codes s in if t = [] then None else Some (take limit t))
      | _ \<Rightarrow> None)"

text \<open>The package columns, each with its limit.\<close>

definition with_package :: "json \<Rightarrow> json \<Rightarrow> json \<Rightarrow> json \<Rightarrow> parsed_finding \<Rightarrow> parsed_finding" where
  "with_package name version ecosystem purl f =
     f\<lparr>pf_package_name := bounded_value name 512, pf_package_version := bounded_value version 256,
       pf_package_ecosystem := bounded_value ecosystem 64, pf_package_purl := bounded_value purl 1024\<rparr>"

section \<open>Gitleaks\<close>

definition boundary_words :: "parse_env \<Rightarrow> re \<Rightarrow> re" where
  "boundary_words env r = Re_seq (Re_boundary (code_word (pe_word env))) (Re_seq r (Re_boundary (code_word (pe_word env))))"

definition dash :: re where "dash = Re_optional (Re_class (\<lambda>c. c = 95 \<or> c = 45))"

definition any_of :: "re list \<Rightarrow> re" where
  "any_of rs = foldr Re_or (butlast rs) (last rs)"

definition provider_words :: re where
  "provider_words = any_of (map re_text_any_case
       [''aws'', ''gcp'', ''azure'', ''stripe'', ''github'', ''gitlab'', ''slack'', ''jwt''] @
     [Re_seq (re_text_any_case ''private'') (Re_seq dash (re_text_any_case ''key''))])"

definition secret_words :: re where
  "secret_words = any_of (map re_text_any_case [''password'', ''passwd'', ''pwd'', ''token'', ''secret''] @
     [Re_seq (re_text_any_case ''api'') (Re_seq dash (re_text_any_case ''key''))])"

definition re_found :: "re \<Rightarrow> codes \<Rightarrow> bool" where
  "re_found r s = list_ex (\<lambda>i. successes r (rev (take i s), drop i s) \<noteq> []) [0 ..< Suc (length s)]"

definition severity_for_rule :: "parse_env \<Rightarrow> json \<Rightarrow> string parsed" where
  "severity_for_rule env rule_id =
     (case rule_id of
        JString s \<Rightarrow>
          Inr (if re_found (boundary_words env provider_words) s then ''HIGH''
               else if re_found (boundary_words env secret_words) s then ''MEDIUM'' else ''MEDIUM'')
      | _ \<Rightarrow> Inl Parse_raised)"

definition gitleaks_item :: "parse_env \<Rightarrow> json \<Rightarrow> parsed_finding list parsed" where
  "gitleaks_item env item =
     result_then (py_or (py_get item ''RuleID'') (get_within item ''rule'' ''id'')) (\<lambda>rule_id.
     if \<not> truthy rule_id then Inr []
     else
       result_then (py_or (py_get item ''File'') (py_get item ''file'')) (\<lambda>file.
       result_then (py_or (py_get item ''StartLine'') (py_get item ''startLine'')) (\<lambda>start.
       result_then (py_or (py_get item ''EndLine'') (py_get item ''endLine'')) (\<lambda>end_line.
       result_then (py_or (py_get item ''Description'')
         (Inr (JString (codes_of ''leak detected by rule '' @ py_text env rule_id)))) (\<lambda>message.
       result_then (severity_for_rule env rule_id) (\<lambda>severity.
       Inr [\<lparr>pf_scanner_kind = ''gitleaks'', pf_rule_id = rule_id, pf_severity = severity,
             pf_file_path = strip_mount_prefix file,
             pf_line_start = fst (normalize_line_range start end_line),
             pf_line_end = snd (normalize_line_range start end_line), pf_message = message,
             pf_theme = JString (codes_of ''secrets''), pf_fix_strategy = Some ''single-file'',
             pf_compliance_tags = [], pf_package_name = None, pf_package_version = None,
             pf_package_ecosystem = None, pf_package_purl = None\<rparr>]))))))"

definition parse_gitleaks :: "parse_env \<Rightarrow> bytes \<Rightarrow> parsed_finding list parsed" where
  "parse_gitleaks env raw =
     result_then (load_document env raw) (\<lambda>doc.
       case doc of JArray items \<Rightarrow> collect_parsed (gitleaks_item env) items | _ \<Rightarrow> Inr [])"

section \<open>Dependency findings\<close>

definition dependency_finding ::
    "string \<Rightarrow> json \<Rightarrow> string \<Rightarrow> json \<Rightarrow> codes \<Rightarrow> bool \<Rightarrow> json list \<Rightarrow> parsed_finding" where
  "dependency_finding kind rule_id severity file message fixed tags =
     \<lparr>pf_scanner_kind = kind, pf_rule_id = rule_id, pf_severity = severity, pf_file_path = file,
      pf_line_start = None, pf_line_end = None, pf_message = JString message,
      pf_theme = JString (codes_of ''dependency''),
      pf_fix_strategy = Some (if fixed then ''dependency-update'' else ''config-only''),
      pf_compliance_tags = tags, pf_package_name = None, pf_package_version = None,
      pf_package_ecosystem = None, pf_package_purl = None\<rparr>"

text \<open>\<^verbatim>\<open>f"{pkg} {version} vulnerable to {id}"\<close>, the fix, and the description.\<close>

definition dependency_message :: "parse_env \<Rightarrow> json \<Rightarrow> json \<Rightarrow> json \<Rightarrow> codes option \<Rightarrow> json \<Rightarrow> codes" where
  "dependency_message env pkg version vid fix description =
     py_text env pkg @ [32] @ py_text env version @ codes_of '' vulnerable to '' @ py_text env vid @
     (case fix of None \<Rightarrow> [] | Some t \<Rightarrow> codes_of '' (fixed in '' @ t @ codes_of '')'') @
     codes_of '': '' @ py_text env description"

definition PKG :: json where "PKG = JString (codes_of ''<pkg>'')"

subsection \<open>Grype\<close>

definition GRYPE_SEVERITY :: "(string \<times> string) list" where
  "GRYPE_SEVERITY =
     [(''Critical'', ''CRITICAL''), (''High'', ''HIGH''), (''Medium'', ''MEDIUM''), (''Low'', ''LOW''),
      (''Negligible'', ''LOW''), (''Unknown'', ''UNKNOWN'')]"

definition grype_path :: "json \<Rightarrow> json parsed" where
  "grype_path artifact =
     result_then (py_get artifact ''locations'') (\<lambda>locations.
       if truthy locations
       then result_then (py_first locations) (\<lambda>l. result_then (py_get l ''path'') (\<lambda>p. Inr (strip_mount_prefix p)))
       else Inr JNull)"

definition grype_match :: "parse_env \<Rightarrow> json \<Rightarrow> parsed_finding list parsed" where
  "grype_match env m =
     result_then (get_object m ''vulnerability'') (\<lambda>vuln.
     result_then (get_object m ''artifact'') (\<lambda>artifact.
     result_then (py_get vuln ''id'') (\<lambda>vid.
     if \<not> truthy vid then Inr []
     else
       result_then (py_get_or vuln ''severity'' (JString (codes_of ''Unknown''))) (\<lambda>raw_severity.
       result_then (table_text GRYPE_SEVERITY raw_severity) (\<lambda>severity.
       result_then (py_or (py_get artifact ''name'') (Inr PKG)) (\<lambda>pkg.
       result_then (py_get artifact ''version'') (\<lambda>version.
       result_then (py_or (get_within vuln ''fix'' ''versions'') (Inr (JArray []))) (\<lambda>fixed.
       result_then (py_or (py_get vuln ''description'') (Inr vid)) (\<lambda>description.
       result_then (if truthy fixed
           then result_then (py_iter fixed) (\<lambda>vs. Inr (Some (join_texts comma (map (py_text env) vs))))
           else Inr None) (\<lambda>fix.
       result_then (py_slice 300 description) (\<lambda>short.
       result_then (grype_path artifact) (\<lambda>file.
       result_then (py_get artifact ''name'') (\<lambda>name.
       result_then (py_get artifact ''type'') (\<lambda>ecosystem.
       result_then (py_get artifact ''purl'') (\<lambda>purl.
       Inr [with_package name version ecosystem purl
         (dependency_finding ''grype'' vid severity file (dependency_message env pkg version vid fix short)
            (truthy fixed) [])])))))))))))))))"

definition parse_grype :: "parse_env \<Rightarrow> bytes \<Rightarrow> parsed_finding list parsed" where
  "parse_grype env raw =
     result_then (load_document env raw) (\<lambda>doc.
     result_then (get_list doc ''matches'') (\<lambda>matches.
     result_then (py_iter matches) (\<lambda>ms. collect_parsed (grype_match env) ms)))"

subsection \<open>OSV-Scanner\<close>

definition OSV_SEVERITY :: "(string \<times> string) list" where
  "OSV_SEVERITY =
     [(''CRITICAL'', ''CRITICAL''), (''HIGH'', ''HIGH''), (''MODERATE'', ''MEDIUM''),
      (''MEDIUM'', ''MEDIUM''), (''LOW'', ''LOW'')]"

text \<open>Decimal digits, also those beyond ASCII.\<close>

definition digit_of :: "parse_env \<Rightarrow> nat \<Rightarrow> nat option" where
  "digit_of env c = (if code_dec c then Some (c - 48) else if c < 128 then None else pe_decimal env c)"

definition is_decimal :: "parse_env \<Rightarrow> nat \<Rightarrow> bool" where
  "is_decimal env c \<longleftrightarrow> digit_of env c \<noteq> None"

lemma run_shorter:
  assumes "dropWhile (\<lambda>c. \<not> P c) s \<noteq> []"
  shows "length (dropWhile P (dropWhile (\<lambda>c. \<not> P c) s)) < length s"
proof -
  obtain c u where t: "dropWhile (\<lambda>c. \<not> P c) s = c # u" using assms by (cases "dropWhile (\<lambda>c. \<not> P c) s") simp_all
  then have "P c" using hd_dropWhile [OF assms] by simp
  then have "length (dropWhile P (c # u)) \<le> length u" by (simp add: length_dropWhile_le)
  moreover have "length (c # u) \<le> length s" unfolding t [symmetric] by (rule length_dropWhile_le)
  ultimately show ?thesis unfolding t by simp
qed

text \<open>The first match of \<^verbatim>\<open>\d+\.\d+\<close>: a run of digits, a point and a run of digits.\<close>

function decimal_search :: "parse_env \<Rightarrow> codes \<Rightarrow> (codes \<times> codes) option" where
  "decimal_search env s =
     (let t = dropWhile (\<lambda>c. \<not> is_decimal env c) s;
          whole = takeWhile (is_decimal env) t; rest = dropWhile (is_decimal env) t in
      if t = [] then None
      else if prefix [46] rest \<and> takeWhile (is_decimal env) (tl rest) \<noteq> []
      then Some (whole, takeWhile (is_decimal env) (tl rest))
      else decimal_search env rest)"
  by pat_completeness auto
termination by (relation "measure (\<lambda>(env, s). length s)") (simp_all add: run_shorter)

declare decimal_search.simps [simp del]

definition digits_number :: "parse_env \<Rightarrow> codes \<Rightarrow> int" where
  "digits_number env s = foldl (\<lambda>n c. 10 * n + int (case digit_of env c of None \<Rightarrow> 0 | Some d \<Rightarrow> d)) 0 s"

text \<open>
  Whether the float nearest to \<open>m / k\<close> is at least 4, 7 or 9: the numbers that round up to the
  bound are those from half a unit in the last place below it on.
\<close>

definition rounds_to_least :: "int \<Rightarrow> int \<Rightarrow> int \<Rightarrow> nat \<Rightarrow> bool" where
  "rounds_to_least m k bound bits \<longleftrightarrow> (bound * 2 ^ bits - 1) * k \<le> m * 2 ^ bits"

definition score_severity :: "int \<Rightarrow> int \<Rightarrow> string" where
  "score_severity m k =
     (if rounds_to_least m k 9 50 then ''CRITICAL''
      else if rounds_to_least m k 7 51 then ''HIGH''
      else if rounds_to_least m k 4 52 then ''MEDIUM'' else ''LOW'')"

definition cvss_severity :: "parse_env \<Rightarrow> codes \<Rightarrow> string option" where
  "cvss_severity env vector =
     (if \<not> sublist (codes_of ''CVSS'') vector then None
      else map_option (\<lambda>(whole, fraction).
        score_severity (digits_number env (whole @ fraction)) (10 ^ length fraction)) (decimal_search env vector))"

definition cvss_of :: "parse_env \<Rightarrow> json \<Rightarrow> string \<Rightarrow> string option" where
  "cvss_of env severity key =
     (case severity of
        JObject ms \<Rightarrow> (case member_of ms key of JString s \<Rightarrow> cvss_severity env s | _ \<Rightarrow> None)
      | _ \<Rightarrow> None)"

definition osv_severity :: "parse_env \<Rightarrow> json \<Rightarrow> string parsed" where
  "osv_severity env vuln =
     result_then (py_get vuln ''severity'') (\<lambda>severity.
       case cvss_of env severity ''CVSS_V3'' of
         Some s \<Rightarrow> Inr s
       | None \<Rightarrow>
           (case cvss_of env severity ''CVSS_V4'' of
              Some s \<Rightarrow> Inr s
            | None \<Rightarrow>
                result_then (get_within vuln ''database_specific'' ''severity'') (\<lambda>sev.
                  case sev of JString s \<Rightarrow> table_text OSV_SEVERITY (JString (upper_text env s))
                  | _ \<Rightarrow> Inr ''UNKNOWN'')))"

definition osv_fixed :: "json \<Rightarrow> codes list parsed" where
  "osv_fixed vuln =
     result_then (py_get_or vuln ''affected'' (JArray [empty_object])) (\<lambda>affected.
     result_then (py_first affected) (\<lambda>a.
     result_then (py_get_or a ''ranges'' (JArray [empty_object])) (\<lambda>ranges.
     result_then (py_first ranges) (\<lambda>r.
     result_then (py_get_or r ''events'' (JArray [])) (\<lambda>events.
     result_then (py_iter events) (\<lambda>es.
       Inr (concat (map (\<lambda>e. case e of
              JObject ms \<Rightarrow> (case member_of ms ''fixed'' of JString s \<Rightarrow> [s] | _ \<Rightarrow> [])
            | _ \<Rightarrow> []) es))))))))"

definition osv_rule_id :: "parse_env \<Rightarrow> json \<Rightarrow> json \<Rightarrow> json parsed" where
  "osv_rule_id env vid aliases =
     (if \<not> truthy aliases then Inr vid
      else
        result_then (py_slice 2 aliases) (\<lambda>two.
        result_then (py_iter two) (\<lambda>vs.
        result_then (py_join vs) (\<lambda>t.
          Inr (JString (py_text env vid @ codes_of '' ('' @ t @ codes_of '')''))))))"

definition osv_vulnerability :: "parse_env \<Rightarrow> json \<Rightarrow> json \<Rightarrow> json \<Rightarrow> parsed_finding list parsed" where
  "osv_vulnerability env source pkg vuln =
     result_then (py_get vuln ''id'') (\<lambda>vid.
     if \<not> truthy vid then Inr []
     else
       result_then (py_or (py_get pkg ''name'') (Inr PKG)) (\<lambda>pkg_name.
       result_then (py_get pkg ''version'') (\<lambda>version.
       result_then (get_list vuln ''aliases'') (\<lambda>aliases.
       result_then (osv_rule_id env vid aliases) (\<lambda>rule_id.
       result_then (osv_severity env vuln) (\<lambda>severity.
       result_then (osv_fixed vuln) (\<lambda>fixed.
       result_then (py_or (py_get vuln ''summary'') (Inr vid)) (\<lambda>summary.
       result_then (py_slice 300 summary) (\<lambda>short.
       result_then (py_get pkg ''name'') (\<lambda>name.
       result_then (py_get pkg ''ecosystem'') (\<lambda>ecosystem.
       result_then (py_get pkg ''purl'') (\<lambda>purl.
       Inr [with_package name version ecosystem purl
         (dependency_finding ''osv-scanner'' rule_id severity (strip_mount_prefix source)
            (dependency_message env pkg_name version vid
               (if fixed = [] then None else Some (join_texts comma fixed)) short)
            (fixed \<noteq> []) [])]))))))))))))"

definition osv_package :: "parse_env \<Rightarrow> json \<Rightarrow> json \<Rightarrow> parsed_finding list parsed" where
  "osv_package env source pkg_info =
     result_then (get_object pkg_info ''package'') (\<lambda>pkg.
     result_then (py_get pkg ''name'') (\<lambda>_.
     result_then (get_list pkg_info ''vulnerabilities'') (\<lambda>vulns.
     result_then (py_iter vulns) (\<lambda>vs. collect_parsed (osv_vulnerability env source pkg) vs))))"

definition osv_result :: "parse_env \<Rightarrow> json \<Rightarrow> parsed_finding list parsed" where
  "osv_result env result =
     result_then (py_or (get_within result ''source'' ''path'') (get_within result ''source'' ''location'')) (\<lambda>source.
     result_then (get_list result ''packages'') (\<lambda>packages.
     result_then (py_iter packages) (\<lambda>ps. collect_parsed (osv_package env source) ps)))"

definition parse_osv_scanner :: "parse_env \<Rightarrow> bytes \<Rightarrow> parsed_finding list parsed" where
  "parse_osv_scanner env raw =
     result_then (load_document env raw) (\<lambda>doc.
     result_then (get_list doc ''results'') (\<lambda>results.
     result_then (py_iter results) (\<lambda>rs. collect_parsed (osv_result env) rs)))"

section \<open>Trivy\<close>

datatype trivy_mode = Vuln_mode | Config_mode

definition TRIVY_SEVERITY :: "(string \<times> string) list" where
  "TRIVY_SEVERITY =
     [(''CRITICAL'', ''CRITICAL''), (''HIGH'', ''HIGH''), (''MEDIUM'', ''MEDIUM''), (''LOW'', ''LOW''),
      (''UNKNOWN'', ''UNKNOWN'')]"

definition trivy_severity :: "parse_env \<Rightarrow> json \<Rightarrow> string parsed" where
  "trivy_severity env v =
     result_then (py_or (py_get v ''Severity'') (Inr (JString (codes_of ''UNKNOWN'')))) (\<lambda>raw.
       case raw of JString s \<Rightarrow> table_text TRIVY_SEVERITY (JString (upper_text env s)) | _ \<Rightarrow> Inl Parse_raised)"

definition object_or_empty :: "json \<Rightarrow> json" where
  "object_or_empty v = (case v of JObject ms \<Rightarrow> v | _ \<Rightarrow> empty_object)"

definition trivy_vuln :: "parse_env \<Rightarrow> string \<Rightarrow> json \<Rightarrow> json \<Rightarrow> parsed_finding list parsed" where
  "trivy_vuln env kind target v =
     result_then (py_get v ''VulnerabilityID'') (\<lambda>vid.
     if \<not> truthy vid then Inr []
     else
       result_then (trivy_severity env v) (\<lambda>severity.
       result_then (py_get v ''InstalledVersion'') (\<lambda>installed.
       result_then (py_get v ''FixedVersion'') (\<lambda>fixed.
       result_then (py_or (py_get v ''PkgName'') (Inr PKG)) (\<lambda>pkg.
       result_then (py_or (py_or (py_get v ''Title'') (py_get v ''Description'')) (Inr vid)) (\<lambda>title.
       result_then (py_or (py_get v ''Description'') (Inr title)) (\<lambda>description.
       result_then (py_slice 300 description) (\<lambda>short.
       result_then (py_get v ''PkgIdentifier'') (\<lambda>identifier.
       result_then (get_list v ''CweIDs'') (\<lambda>cwes.
       result_then (py_iter cwes) (\<lambda>tags.
       result_then (py_get v ''PkgName'') (\<lambda>name.
       result_then (py_get v ''PkgType'') (\<lambda>ecosystem.
       result_then (py_get (object_or_empty identifier) ''PURL'') (\<lambda>purl.
       Inr [with_package name installed ecosystem purl
         (dependency_finding kind vid severity (strip_mount_prefix target)
            (dependency_message env pkg installed vid
               (if truthy fixed then Some (py_text env fixed) else None) short)
            (truthy fixed) tags)]))))))))))))))"

definition trivy_misconf :: "parse_env \<Rightarrow> string \<Rightarrow> json \<Rightarrow> json \<Rightarrow> parsed_finding list parsed" where
  "trivy_misconf env kind target m =
     result_then (py_get m ''ID'') (\<lambda>mid.
     if \<not> truthy mid then Inr []
     else
       result_then (trivy_severity env m) (\<lambda>severity.
       result_then (py_or (py_get m ''Title'') (Inr mid)) (\<lambda>title.
       result_then (py_or (py_get m ''Description'') (Inr title)) (\<lambda>message.
       result_then (py_get m ''Resolution'') (\<lambda>resolution.
       result_then (py_get m ''CauseMetadata'') (\<lambda>raw_cause.
       result_then (py_get (object_or_empty raw_cause) ''StartLine'') (\<lambda>start.
       result_then (py_get (object_or_empty raw_cause) ''EndLine'') (\<lambda>end_line.
       Inr [\<lparr>pf_scanner_kind = kind, pf_rule_id = mid, pf_severity = severity,
             pf_file_path = strip_mount_prefix target,
             pf_line_start = fst (normalize_line_range start end_line),
             pf_line_end = snd (normalize_line_range start end_line),
             pf_message = (if truthy resolution
               then JString (py_text env message @ codes_of '' Resolution: '' @ py_text env resolution) else message),
             pf_theme = JString (codes_of ''misconfiguration''), pf_fix_strategy = Some ''config-only'',
             pf_compliance_tags = [], pf_package_name = None, pf_package_version = None,
             pf_package_ecosystem = None, pf_package_purl = None\<rparr>]))))))))"

definition trivy_result :: "parse_env \<Rightarrow> string \<Rightarrow> trivy_mode \<Rightarrow> json \<Rightarrow> parsed_finding list parsed" where
  "trivy_result env kind mode result =
     result_then (py_get result ''Target'') (\<lambda>target.
       case mode of
         Vuln_mode \<Rightarrow>
           result_then (get_list result ''Vulnerabilities'') (\<lambda>vulns.
           result_then (py_iter vulns) (\<lambda>vs. collect_parsed (trivy_vuln env kind target) vs))
       | Config_mode \<Rightarrow>
           result_then (get_list result ''Misconfigurations'') (\<lambda>misconfs.
           result_then (py_iter misconfs) (\<lambda>ms. collect_parsed (trivy_misconf env kind target) ms)))"

definition parse_trivy :: "parse_env \<Rightarrow> string \<Rightarrow> trivy_mode \<Rightarrow> bytes \<Rightarrow> parsed_finding list parsed" where
  "parse_trivy env kind mode raw =
     result_then (load_document env raw) (\<lambda>doc.
     result_then (get_list doc ''Results'') (\<lambda>results.
     result_then (py_iter results) (\<lambda>rs. collect_parsed (trivy_result env kind mode) rs)))"

section \<open>Semgrep\<close>

definition SARIF_LEVEL_TO_SEVERITY :: "(string \<times> string) list" where
  "SARIF_LEVEL_TO_SEVERITY =
     [(''error'', ''HIGH''), (''warning'', ''MEDIUM''), (''note'', ''LOW''), (''none'', ''INFO'')]"

text \<open>The exact value of the text of a float, as a fraction.\<close>

definition ascii_number :: "codes \<Rightarrow> int" where
  "ascii_number s = foldl (\<lambda>n c. 10 * n + (int c - 48)) 0 s"

definition signed_number :: "codes \<Rightarrow> int" where
  "signed_number s =
     (if prefix [45] s then - ascii_number (tl s)
      else if prefix [43] s then ascii_number (tl s) else ascii_number s)"

definition float_fraction :: "codes \<Rightarrow> int \<times> int" where
  "float_fraction s =
     (let t = (if prefix [45] s then tl s else s);
          whole = takeWhile code_dec t; after = dropWhile code_dec t;
          fraction = (if prefix [46] after then takeWhile code_dec (tl after) else []);
          tail = (if prefix [46] after then dropWhile code_dec (tl after) else after);
          scale = signed_number (drop 1 tail) - int (length fraction);
          m = (if prefix [45] s then -1 else 1) * ascii_number (whole @ fraction) in
      if 0 \<le> scale then (m * 10 ^ nat scale, 1) else (m, 10 ^ nat (- scale)))"

definition number_severity :: "json \<Rightarrow> string option" where
  "number_severity v =
     (case v of
        JInt n \<Rightarrow> Some (if 9 \<le> n then ''CRITICAL'' else if 7 \<le> n then ''HIGH''
                         else if 4 \<le> n then ''MEDIUM'' else ''LOW'')
      | JBool _ \<Rightarrow> Some ''LOW''
      | JFloat s \<Rightarrow> Some (case float_fraction s of (m, k) \<Rightarrow> score_severity m k)
      | JConstant s \<Rightarrow> Some (if s = codes_of ''Infinity'' then ''CRITICAL'' else ''LOW'')
      | _ \<Rightarrow> None)"

definition semgrep_severity :: "json \<Rightarrow> json \<Rightarrow> string parsed" where
  "semgrep_severity level properties =
     result_then (py_get properties ''security-severity'') (\<lambda>sev.
       case number_severity sev of
         Some s \<Rightarrow> Inr s
       | None \<Rightarrow> if truthy level then table_text SARIF_LEVEL_TO_SEVERITY level else Inr ''UNKNOWN'')"

definition PROJECT_ROOT :: codes where "PROJECT_ROOT = codes_of ''/src''"

definition strip_prefix :: "codes \<Rightarrow> codes" where
  "strip_prefix path =
     (if take (length PROJECT_ROOT) path = PROJECT_ROOT
      then dropWhile (\<lambda>c. c = 47) (drop (length PROJECT_ROOT) path) else path)"

definition semgrep_path :: "json \<Rightarrow> json parsed" where
  "semgrep_path uri =
     (if \<not> truthy uri then Inr uri
      else case uri of JString s \<Rightarrow> Inr (JString (strip_prefix s)) | _ \<Rightarrow> Inl Parse_raised)"

text \<open>The rules with an id; a list or an object as an id is not hashable.\<close>

definition rule_entry :: "json \<Rightarrow> (json \<times> json) list parsed" where
  "rule_entry rule =
     result_then (py_get rule ''id'') (\<lambda>rule_id.
       if \<not> truthy rule_id then Inr []
       else (case rule_id of JArray _ \<Rightarrow> Inl Parse_raised | JObject _ \<Rightarrow> Inl Parse_raised
             | _ \<Rightarrow> Inr [(rule_id, rule)]))"

definition index_rules :: "json \<Rightarrow> (json \<times> json) list parsed" where
  "index_rules run =
     result_then (py_get_or run ''tool'' empty_object) (\<lambda>tool.
     result_then (get_object tool ''driver'') (\<lambda>driver.
     result_then (get_list driver ''rules'') (\<lambda>rules.
     result_then (py_iter rules) (\<lambda>rs. collect_parsed rule_entry rs))))"

text \<open>A later rule of the same id replaces an earlier one.\<close>

definition rule_of :: "(json \<times> json) list \<Rightarrow> json \<Rightarrow> json" where
  "rule_of rules rule_id =
     (case rule_id of
        JString _ \<Rightarrow> (case map_of (rev rules) rule_id of None \<Rightarrow> empty_object | Some r \<Rightarrow> r)
      | _ \<Rightarrow> empty_object)"

definition semgrep_message :: "json \<Rightarrow> json \<Rightarrow> json \<Rightarrow> json \<Rightarrow> json parsed" where
  "semgrep_message result properties rule rule_id =
     py_or (get_within result ''message'' ''text'')
       (py_or (py_get properties ''message'')
         (py_or (get_within rule ''shortDescription'' ''text'')
           (py_or (Inr rule_id) (Inr (JString (codes_of ''(no message)''))))))"

definition semgrep_tags :: "json \<Rightarrow> (json \<times> json list) parsed" where
  "semgrep_tags properties =
     result_then (py_get properties ''tags'') (\<lambda>tags.
     result_then (if truthy tags then py_first tags else Inr JNull) (\<lambda>theme.
     result_then (py_get_or properties ''tags'' (JArray [])) (\<lambda>all_tags.
     result_then (py_iter all_tags) (\<lambda>ts. Inr (theme, ts)))))"

definition semgrep_location :: "json \<Rightarrow> json \<Rightarrow> (json \<times> int option \<times> int option) parsed" where
  "semgrep_location locations properties =
     result_then (py_first locations) (\<lambda>l.
     result_then (get_object l ''physicalLocation'') (\<lambda>phys.
     result_then (get_object phys ''artifactLocation'') (\<lambda>artifact.
     result_then (get_object phys ''region'') (\<lambda>region.
     result_then (py_get artifact ''uri'') (\<lambda>uri.
     result_then (semgrep_path uri) (\<lambda>path.
     result_then (py_get region ''startLine'') (\<lambda>start.
     result_then (py_get region ''endLine'') (\<lambda>end_line.
       Inr (path, normalize_line_range start end_line)))))))))"

definition semgrep_result :: "(json \<times> json) list \<Rightarrow> json \<Rightarrow> parsed_finding list parsed" where
  "semgrep_result rules result =
     result_then (py_get result ''ruleId'') (\<lambda>raw_rule_id.
     (let rule_id = (if is_string raw_rule_id then raw_rule_id else JNull); rule = rule_of rules rule_id in
     result_then (get_object rule ''properties'') (\<lambda>properties.
     result_then (py_or (py_get result ''level'') (get_within rule ''defaultConfiguration'' ''level'')) (\<lambda>level.
     result_then (semgrep_severity level properties) (\<lambda>severity.
     result_then (get_list result ''locations'') (\<lambda>locations.
     if \<not> truthy locations then Inr []
     else
       result_then (semgrep_location locations properties) (\<lambda>(path, start, end_line).
       result_then (semgrep_message result properties rule rule_id) (\<lambda>message.
       result_then (semgrep_tags properties) (\<lambda>(theme, tags).
       Inr [\<lparr>pf_scanner_kind = ''semgrep'', pf_rule_id = rule_id, pf_severity = severity,
             pf_file_path = path, pf_line_start = start, pf_line_end = end_line, pf_message = message,
             pf_theme = theme, pf_fix_strategy = None, pf_compliance_tags = tags,
             pf_package_name = None, pf_package_version = None, pf_package_ecosystem = None,
             pf_package_purl = None\<rparr>])))))))))"

definition semgrep_run :: "json \<Rightarrow> parsed_finding list parsed" where
  "semgrep_run run =
     result_then (index_rules run) (\<lambda>rules.
     result_then (get_list run ''results'') (\<lambda>results.
     result_then (py_iter results) (\<lambda>rs.
       collect_parsed (\<lambda>result.
         result_then (py_get result ''suppressions'') (\<lambda>suppressions.
           if truthy suppressions then Inr [] else semgrep_result rules result)) rs)))"

definition parse_semgrep :: "parse_env \<Rightarrow> bytes \<Rightarrow> parsed_finding list parsed" where
  "parse_semgrep env raw =
     result_then (load_document env raw) (\<lambda>doc.
     result_then (py_get_or doc ''runs'' (JArray [])) (\<lambda>runs.
       if \<not> truthy runs then Inr [] else result_then (py_iter runs) (\<lambda>rs. collect_parsed semgrep_run rs)))"

section \<open>Choosing a parser\<close>

text \<open>\<open>None\<close> is the \<^verbatim>\<open>ValueError\<close> of a scanner without a parser.\<close>

definition parser_for :: "parse_env \<Rightarrow> string \<Rightarrow> (bytes \<Rightarrow> parsed_finding list parsed) option" where
  "parser_for env kind =
     (if kind \<in> {''trivy-fs'', ''trivy-image''} then Some (parse_trivy env kind Vuln_mode)
      else if kind = ''trivy-config'' then Some (parse_trivy env ''trivy-config'' Config_mode)
      else map_of
        [(''semgrep'', parse_semgrep env), (''gitleaks'', parse_gitleaks env), (''syft'', \<lambda>_. Inr []),
         (''grype'', parse_grype env), (''osv-scanner'', parse_osv_scanner env)] kind)"

section \<open>What every finding satisfies\<close>

definition SEVERITIES :: "string list" where
  "SEVERITIES = [''CRITICAL'', ''HIGH'', ''MEDIUM'', ''LOW'', ''INFO'', ''UNKNOWN'']"

definition lines_ok :: "int option \<Rightarrow> int option \<Rightarrow> bool" where
  "lines_ok start end_line \<longleftrightarrow>
     (case (start, end_line) of (None, None) \<Rightarrow> True | (Some a, Some b) \<Rightarrow> 1 \<le> a \<and> a \<le> b | _ \<Rightarrow> False)"

definition text_within :: "nat \<Rightarrow> codes option \<Rightarrow> bool" where
  "text_within n t \<longleftrightarrow> (case t of None \<Rightarrow> True | Some s \<Rightarrow> s \<noteq> [] \<and> length s \<le> n)"

definition finding_ok :: "string \<Rightarrow> parsed_finding \<Rightarrow> bool" where
  "finding_ok kind f \<longleftrightarrow>
     pf_scanner_kind f = kind \<and> pf_severity f \<in> set SEVERITIES \<and>
     lines_ok (pf_line_start f) (pf_line_end f) \<and>
     text_within 512 (pf_package_name f) \<and> text_within 256 (pf_package_version f) \<and>
     text_within 64 (pf_package_ecosystem f) \<and> text_within 1024 (pf_package_purl f)"

definition findings_ok :: "string \<Rightarrow> parsed_finding list parsed \<Rightarrow> bool" where
  "findings_ok kind result \<longleftrightarrow> (case result of Inl _ \<Rightarrow> True | Inr fs \<Rightarrow> list_all (finding_ok kind) fs)"

lemma findings_ok_then [intro]:
  "(\<And>a. x = Inr a \<Longrightarrow> findings_ok kind (f a)) \<Longrightarrow> findings_ok kind (result_then x f)"
  by (cases x) (simp_all add: findings_ok_def)

lemma findings_ok_none [simp, intro]: "findings_ok kind (Inr [])" "findings_ok kind (Inl e)"
  by (simp_all add: findings_ok_def)

lemma collect_findings_ok: "(\<And>x. findings_ok kind (f x)) \<Longrightarrow> findings_ok kind (collect_parsed f xs)"
proof (induction xs)
  case (Cons x xs)
  from Cons.prems [of x] Cons.IH [OF Cons.prems] show ?case
    by (cases "f x"; cases "collect_parsed f xs") (simp_all add: findings_ok_def)
qed simp

lemma lines_normalized: "lines_ok (fst (normalize_line_range a b)) (snd (normalize_line_range a b))"
  by (auto simp: normalize_line_range_def lines_ok_def positive_line_def split: option.splits json.splits if_splits)

lemma value_bounded: "0 < n \<Longrightarrow> text_within n (bounded_value v n)"
  by (simp add: bounded_value_def text_within_def Let_def split: json.split)

lemma score_listed: "score_severity m k \<in> set SEVERITIES"
  by (simp add: score_severity_def SEVERITIES_def)

lemma table_listed:
  "table_text table v = Inr s \<Longrightarrow> list_all (\<lambda>e. snd e \<in> set SEVERITIES) table \<Longrightarrow> s \<in> set SEVERITIES"
  by (auto simp: table_text_def list_all_iff SEVERITIES_def find_Some_iff in_set_conv_nth
      split: json.splits option.splits) (metis nth_mem snd_conv)+

lemma tables_listed:
  "list_all (\<lambda>e. snd e \<in> set SEVERITIES) GRYPE_SEVERITY" "list_all (\<lambda>e. snd e \<in> set SEVERITIES) OSV_SEVERITY"
  "list_all (\<lambda>e. snd e \<in> set SEVERITIES) TRIVY_SEVERITY"
  "list_all (\<lambda>e. snd e \<in> set SEVERITIES) SARIF_LEVEL_TO_SEVERITY"
  by (simp_all add: GRYPE_SEVERITY_def OSV_SEVERITY_def TRIVY_SEVERITY_def SARIF_LEVEL_TO_SEVERITY_def SEVERITIES_def)

definition listed :: "string parsed \<Rightarrow> bool" where
  "listed result \<longleftrightarrow> (case result of Inl _ \<Rightarrow> True | Inr s \<Rightarrow> s \<in> set SEVERITIES)"

lemma listed_then: "(\<And>a. listed (f a)) \<Longrightarrow> listed (result_then x f)"
  by (cases x) (simp_all add: listed_def)

lemma listed_table: "list_all (\<lambda>e. snd e \<in> set SEVERITIES) table \<Longrightarrow> listed (table_text table v)"
  by (cases "table_text table v") (auto simp: listed_def dest: table_listed)

lemma listed_ok: "listed result \<Longrightarrow> result = Inr s \<Longrightarrow> s \<in> set SEVERITIES"
  by (simp add: listed_def)

lemma gitleaks_severity_listed: "severity_for_rule env v = Inr s \<Longrightarrow> s \<in> set SEVERITIES"
  by (auto simp: severity_for_rule_def SEVERITIES_def split: json.splits if_splits)

lemma cvss_listed: "cvss_of env v key = Some s \<Longrightarrow> listed (Inr s)"
  by (auto simp: cvss_of_def cvss_severity_def score_listed listed_def split: json.splits if_splits)

lemma unknown_listed: "listed (Inr ''UNKNOWN'')" "listed (Inl e)"
  by (simp_all add: listed_def SEVERITIES_def)

lemma osv_severity_listed: "osv_severity env v = Inr s \<Longrightarrow> s \<in> set SEVERITIES"
proof (rule listed_ok [of "osv_severity env v"])
  have cvss: "listed (case cvss_of env x key of Some s \<Rightarrow> Inr s | None \<Rightarrow> rest)" if "listed rest" for x key rest
    using that by (cases "cvss_of env x key") (simp_all add: cvss_listed)
  have named: "listed (case j of JString s \<Rightarrow> table_text OSV_SEVERITY (JString (upper_text env s)) | _ \<Rightarrow> Inr ''UNKNOWN'')"
    for j
    by (cases j) (simp_all add: unknown_listed listed_table tables_listed)
  show "listed (osv_severity env v)"
    unfolding osv_severity_def by (intro listed_then cvss named)
qed

lemma trivy_severity_listed: "trivy_severity env v = Inr s \<Longrightarrow> s \<in> set SEVERITIES"
proof (rule listed_ok [of "trivy_severity env v"])
  have named: "listed (case j of JString s \<Rightarrow> table_text TRIVY_SEVERITY (JString (upper_text env s)) | _ \<Rightarrow> Inl Parse_raised)"
    for j
    by (cases j) (simp_all add: unknown_listed listed_table tables_listed)
  show "listed (trivy_severity env v)"
    unfolding trivy_severity_def by (intro listed_then named)
qed

lemma semgrep_severity_listed:
  assumes "semgrep_severity level properties = Inr s"
  shows "s \<in> set SEVERITIES"
proof -
  have "t \<in> set SEVERITIES" if "number_severity v = Some t" for v t
    using that score_listed by (auto simp: number_severity_def SEVERITIES_def split: json.splits if_splits prod.splits)
  moreover have "''UNKNOWN'' \<in> set SEVERITIES" by (simp add: SEVERITIES_def)
  ultimately show ?thesis
    using assms by (auto simp: semgrep_severity_def result_then_ok split: option.splits if_splits
        dest: table_listed [OF _ tables_listed(4)])
qed

lemma finding_ok_dependency:
  "s \<in> set SEVERITIES \<Longrightarrow>
     finding_ok kind (with_package name version ecosystem purl (dependency_finding kind rule_id s file message fixed tags))"
  by (simp add: finding_ok_def with_package_def dependency_finding_def value_bounded lines_ok_def)

lemma findings_ok_one: "finding_ok kind f \<Longrightarrow> findings_ok kind (Inr [f])"
  by (simp add: findings_ok_def)

lemma gitleaks_ok: "findings_ok ''gitleaks'' (gitleaks_item env item)"
  unfolding gitleaks_item_def
  by (intro findings_ok_then) (auto intro!: findings_ok_then findings_ok_one
      simp: finding_ok_def lines_normalized text_within_def gitleaks_severity_listed)

lemma grype_ok: "findings_ok ''grype'' (grype_match env m)"
  unfolding grype_match_def
  by (intro findings_ok_then) (auto intro!: findings_ok_then findings_ok_one finding_ok_dependency
      dest: table_listed [OF _ tables_listed(1)])

lemma osv_ok: "findings_ok ''osv-scanner'' (osv_vulnerability env source pkg v)"
  unfolding osv_vulnerability_def
  by (intro findings_ok_then) (auto intro!: findings_ok_then findings_ok_one finding_ok_dependency osv_severity_listed)

lemma trivy_vuln_ok: "findings_ok kind (trivy_vuln env kind target v)"
  unfolding trivy_vuln_def
  by (intro findings_ok_then) (auto intro!: findings_ok_then findings_ok_one finding_ok_dependency trivy_severity_listed)

lemma trivy_misconf_ok: "findings_ok kind (trivy_misconf env kind target m)"
  unfolding trivy_misconf_def
  by (intro findings_ok_then) (auto intro!: findings_ok_then findings_ok_one
      simp: finding_ok_def lines_normalized text_within_def trivy_severity_listed)

lemma semgrep_location_lines:
  "semgrep_location locations properties = Inr (path, start, end_line) \<Longrightarrow> lines_ok start end_line"
  by (auto simp: semgrep_location_def result_then_ok) (metis fst_conv lines_normalized snd_conv)

lemma semgrep_ok: "findings_ok ''semgrep'' (semgrep_result rules result)"
  unfolding semgrep_result_def Let_def
  by (intro findings_ok_then) (auto intro!: findings_ok_then findings_ok_one
      simp: finding_ok_def text_within_def semgrep_severity_listed semgrep_location_lines)

text \<open>
  C24. Whatever bytes a scanner prints, every finding that its parser makes of them carries the
  scanner's kind, a listed severity, either no lines or a positive range in order, and package
  texts that are not blank and within their limits.
\<close>

theorem parsed_findings_ok:
  "case parser_for env kind of None \<Rightarrow> True | Some parse \<Rightarrow> findings_ok kind (parse raw)"
proof -
  have g: "findings_ok ''gitleaks'' (parse_gitleaks env raw)"
    unfolding parse_gitleaks_def by (rule findings_ok_then) (simp add: collect_findings_ok gitleaks_ok split: json.split)
  have y: "findings_ok ''grype'' (parse_grype env raw)"
    unfolding parse_grype_def by (intro findings_ok_then collect_findings_ok grype_ok)
  have o': "findings_ok ''osv-scanner'' (parse_osv_scanner env raw)"
    unfolding parse_osv_scanner_def osv_result_def osv_package_def by (intro findings_ok_then collect_findings_ok osv_ok)
  have t: "findings_ok k (parse_trivy env k mode raw)" for k mode
    unfolding parse_trivy_def trivy_result_def
    by (intro findings_ok_then collect_findings_ok) (cases mode, auto intro!: findings_ok_then collect_findings_ok trivy_vuln_ok trivy_misconf_ok)
  have s: "findings_ok ''semgrep'' (parse_semgrep env raw)"
    unfolding parse_semgrep_def semgrep_run_def
    by (intro findings_ok_then) (auto intro!: findings_ok_then collect_findings_ok semgrep_ok)
  from g y o' t s show ?thesis by (simp add: parser_for_def)
qed

section \<open>Secrets stay behind\<close>

text \<open>A leak record without the secret and the text that matched.\<close>

definition SECRET_MEMBERS :: "codes list" where
  "SECRET_MEMBERS = map codes_of [''Secret'', ''Match'']"

definition forget_secret :: "json \<Rightarrow> json" where
  "forget_secret item =
     (case item of JObject ms \<Rightarrow> JObject (filter (\<lambda>(k, v). k \<notin> set SECRET_MEMBERS) ms) | _ \<Rightarrow> item)"

lemma map_of_without: "k \<notin> K \<Longrightarrow> map_of (filter (\<lambda>(k, v). k \<notin> K) ms) k = map_of ms k"
  by (induction ms) auto

lemma forget_secret_get:
  "codes_of name \<notin> set SECRET_MEMBERS \<Longrightarrow> py_get_or (forget_secret item) name missing = py_get_or item name missing"
  by (simp add: forget_secret_def py_get_or_def map_of_without split: json.split)

lemma gitleaks_item_forgets: "gitleaks_item env (forget_secret item) = gitleaks_item env item"
proof -
  have "py_get (forget_secret item) name = py_get item name"
    if "name \<in> {''RuleID'', ''File'', ''file'', ''StartLine'', ''startLine'', ''EndLine'', ''endLine'', ''Description''}" for name
    unfolding py_get_def using that by (intro forget_secret_get) (auto simp: SECRET_MEMBERS_def codes_of_def)
  moreover have "get_within (forget_secret item) ''rule'' ''id'' = get_within item ''rule'' ''id''"
    by (simp add: get_within_def forget_secret_get SECRET_MEMBERS_def codes_of_def)
  ultimately show ?thesis by (simp add: gitleaks_item_def cong: if_cong)
qed

text \<open>
  C31. Secret material is never copied: leak records without their secret and their matched text
  give the same findings, or the same error.
\<close>

theorem gitleaks_secret_not_copied:
  "collect_parsed (gitleaks_item env) (map forget_secret items) = collect_parsed (gitleaks_item env) items"
  by (induction items) (simp_all add: gitleaks_item_forgets)

end
