(* ===== verification/Fr_Tests.thy ===== *)
theory Fr_Tests
  imports Result_Bundle "HOL-Library.AList"
begin

text \<open>
  Evaluation of one test of a functional requirement (\<^verbatim>\<open>state/matcher.py\<close>): test-suite
  specs against the run's test cases by glob, scanner specs against its findings, manual
  attestations.  A spec has passed the schema \<^verbatim>\<open>fr-catalog.v3\<close>, so its members are
  optional texts.
\<close>

section \<open>Globs\<close>

text \<open>\<^verbatim>\<open>fnmatch.fnmatchcase\<close>: a set keeps the chunks between the hyphens that make ranges.\<close>

datatype glob_item =
    Glob_star
  | Glob_any
  | Glob_none
  | Glob_char nat
  | Glob_set bool "codes list"

text \<open>
  The body of a set and what follows its closing bracket; an exclamation mark and a bracket that
  come first belong to the body.
\<close>

definition set_body :: "codes \<Rightarrow> (codes \<times> codes) option" where
  "set_body s =
     (let bang = (if prefix [33] s then [33] else []); s1 = drop (length bang) s;
          bracket = (if prefix [93] s1 then [93] else []); s2 = drop (length bracket) s1 in
      case dropWhile (\<lambda>c. c \<noteq> 93) s2 of
        [] \<Rightarrow> None
      | _ # rest \<Rightarrow> Some (bang @ bracket @ takeWhile (\<lambda>c. c \<noteq> 93) s2, rest))"

text \<open>The first hyphen at the given index or later splits; the next search skips two characters.\<close>

definition hyphen_from :: "nat \<Rightarrow> codes \<Rightarrow> nat option" where
  "hyphen_from k s = find (\<lambda>i. s ! i = 45) [k..<length s]"

lemma find_range: "find P [k..<n] = Some i \<Longrightarrow> k \<le> i \<and> i < n \<and> P i"
  by (auto simp: find_Some_iff)

function set_chunks :: "nat \<Rightarrow> codes \<Rightarrow> codes list" where
  "set_chunks k s =
     (case hyphen_from k s of
        None \<Rightarrow> [s]
      | Some i \<Rightarrow> take i s # set_chunks 2 (drop (Suc i) s))"
  by pat_completeness auto
termination
  by (relation "measure (\<lambda>(k, s). length s)") (auto simp: hyphen_from_def dest: find_range)

declare set_chunks.simps [simp del]

text \<open>A hyphen at the end is a character of the chunk before it.\<close>

definition closed_chunks :: "codes list \<Rightarrow> codes list" where
  "closed_chunks chunks =
     (if 2 \<le> length chunks \<and> last chunks = []
      then butlast (butlast chunks) @ [last (butlast chunks) @ [45]] else chunks)"

text \<open>From the end, chunks whose range would be empty are joined without their end points.\<close>

fun join_empty :: "codes list \<Rightarrow> codes list" where
  "join_empty (a # chunks) =
     (case join_empty chunks of
        [] \<Rightarrow> [a]
      | b # rest \<Rightarrow> if a \<noteq> [] \<and> b \<noteq> [] \<and> hd b < last a then (butlast a @ tl b) # rest else a # b # rest)"
| "join_empty [] = []"

definition set_item :: "codes \<Rightarrow> glob_item" where
  "set_item stuff =
     (let chunks = (if 45 \<notin> set stuff then [stuff]
        else join_empty (closed_chunks (set_chunks (if prefix [33] stuff then 2 else 1) stuff))) in
      if chunks = [[]] then Glob_none
      else if chunks = [[33]] then Glob_any
      else if prefix [33] (hd chunks) then Glob_set True (tl (hd chunks) # tl chunks)
      else Glob_set False chunks)"

lemma set_body_shorter: "set_body s = Some (stuff, rest) \<Longrightarrow> length rest < length s"
proof -
  assume "set_body s = Some (stuff, rest)"
  then obtain s2 x where "dropWhile (\<lambda>c. c \<noteq> 93) s2 = x # rest" "length s2 \<le> length s"
    by (fastforce simp: set_body_def Let_def split: list.splits)
  moreover have "length (dropWhile (\<lambda>c. c \<noteq> 93) s2) \<le> length s2" by (rule length_dropWhile_le)
  ultimately show ?thesis by simp
qed

function glob_items :: "codes \<Rightarrow> glob_item list" where
  "glob_items [] = []"
| "glob_items (c # s) =
     (if c = 42 then Glob_star # glob_items s
      else if c = 63 then Glob_any # glob_items s
      else if c = 91 then
        (case set_body s of
           None \<Rightarrow> Glob_char 91 # glob_items s
         | Some (stuff, rest) \<Rightarrow> set_item stuff # glob_items rest)
      else Glob_char c # glob_items s)"
  by pat_completeness auto
termination
  by (relation "measure length") (auto dest: set_body_shorter)

definition in_chunks :: "codes list \<Rightarrow> nat \<Rightarrow> bool" where
  "in_chunks chunks c \<longleftrightarrow>
     list_ex (\<lambda>chunk. c \<in> set chunk) chunks \<or>
     list_ex (\<lambda>(a, b). a \<noteq> [] \<and> b \<noteq> [] \<and> last a \<le> c \<and> c \<le> hd b) (zip chunks (tl chunks))"

fun glob_match :: "glob_item list \<Rightarrow> codes \<Rightarrow> bool" where
  "glob_match [] s = (s = [])"
| "glob_match (Glob_star # items) [] = glob_match items []"
| "glob_match (Glob_star # items) (c # s) = (glob_match items (c # s) \<or> glob_match (Glob_star # items) s)"
| "glob_match (Glob_any # items) (c # s) = glob_match items s"
| "glob_match (Glob_char x # items) (c # s) = (c = x \<and> glob_match items s)"
| "glob_match (Glob_set negated chunks # items) (c # s) =
     (in_chunks chunks c \<noteq> negated \<and> glob_match items s)"
| "glob_match (item # items) s = False"

definition fnmatchcase :: "codes \<Rightarrow> codes \<Rightarrow> bool" where
  "fnmatchcase name pat = glob_match (glob_items pat) name"

section \<open>The representation of a text\<close>

definition hex_codes :: "nat \<Rightarrow> nat \<Rightarrow> codes" where
  "hex_codes digits c = map (\<lambda>i. hex_code (c div 16 ^ i mod 16)) (rev [0..<digits])"

definition repr_char :: "(nat \<Rightarrow> bool) \<Rightarrow> nat \<Rightarrow> nat \<Rightarrow> codes" where
  "repr_char printable quote c =
     (if c = quote \<or> c = 92 then [92, c]
      else if c = 9 then [92, 116] else if c = 10 then [92, 110] else if c = 13 then [92, 114]
      else if c < 32 \<or> c = 127 then 92 # 120 # hex_codes 2 c
      else if c < 127 \<or> printable c then [c]
      else if c < 256 then 92 # 120 # hex_codes 2 c
      else if c < 65536 then 92 # 117 # hex_codes 4 c
      else 92 # 85 # hex_codes 8 c)"

text \<open>\<^verbatim>\<open>repr\<close>; which characters outside ASCII are printable is a parameter.\<close>

definition py_repr :: "(nat \<Rightarrow> bool) \<Rightarrow> codes \<Rightarrow> codes" where
  "py_repr printable s =
     (let quote = (if 39 \<in> set s \<and> 34 \<notin> set s then 34 else 39) in
      quote # concat (map (repr_char printable quote) s) @ [quote])"

section \<open>Evaluations\<close>

record test_spec =
  ts_id :: codes
  ts_type :: string
  ts_name_pattern :: "codes option"
  ts_scanner :: "codes option"
  ts_rule_pattern :: "codes option"
  ts_severity_floor :: "string option"

record finding_record =
  fn_scanner_kind :: codes
  fn_rule_id :: "codes option"
  fn_severity :: string
  fn_file_path :: "codes option"

record test_case_record =
  tc_qualified_name :: codes
  tc_result :: string

record evaluation =
  ev_result :: string
  ev_detail :: members

text \<open>
  The environment: printable characters, the order in which a set lists its elements, and the
  regular expressions of the standard library, which answer the message of the error or the search.
\<close>

record match_env =
  mv_printable :: "nat \<Rightarrow> bool"
  mv_set_order :: "codes list \<Rightarrow> codes list"
  mv_compile :: "codes \<Rightarrow> codes + (codes \<Rightarrow> bool)"

definition SEVERITY_RANK :: "(string \<times> int) list" where
  "SEVERITY_RANK =
     [(''CRITICAL'', 4), (''HIGH'', 3), (''MEDIUM'', 2), (''LOW'', 1), (''UNKNOWN'', 0), (''INFO'', 0)]"

definition severity_rank :: "string \<Rightarrow> int" where
  "severity_rank s = (case map_of SEVERITY_RANK s of None \<Rightarrow> 0 | Some r \<Rightarrow> r)"

definition or_default :: "'a \<Rightarrow> 'a option \<Rightarrow> 'a" where
  "or_default d v = (case v of None \<Rightarrow> d | Some x \<Rightarrow> x)"

definition note_only :: "codes \<Rightarrow> evaluation" where
  "note_only note = \<lparr>ev_result = ''pending'', ev_detail = [(codes_of ''note'', JString note)]\<rparr>"

definition count_member :: "string \<Rightarrow> 'a list \<Rightarrow> codes \<times> json" where
  "count_member name xs = (codes_of name, JInt (int (length xs)))"

section \<open>The evaluators\<close>

definition eval_test_suite :: "match_env \<Rightarrow> test_spec \<Rightarrow> test_case_record list \<Rightarrow> evaluation" where
  "eval_test_suite env spec cases =
     (let pattern = or_default [] (ts_name_pattern spec) in
      if pattern = [] then note_only (codes_of ''no name_pattern supplied'')
      else
     (let matching = filter (\<lambda>c. fnmatchcase (tc_qualified_name c) pattern) cases in
      if matching = [] then
        note_only (codes_of ''no test cases matched pattern '' @ py_repr (mv_printable env) pattern)
      else
     (let failures = filter (\<lambda>c. tc_result c \<notin> {''pass'', ''skip''}) matching in
      if failures \<noteq> [] then
        \<lparr>ev_result = ''fail'',
         ev_detail = [count_member ''matched_count'' matching, count_member ''failed_count'' failures,
           (codes_of ''failed_names'', JArray (map (JString \<circ> tc_qualified_name) (take 5 failures)))]\<rparr>
      else \<lparr>ev_result = ''pass'', ev_detail = [count_member ''matched_count'' matching]\<rparr>)))"

text \<open>The distinct nonempty texts of the first five failures.\<close>

definition samples :: "match_env \<Rightarrow> (finding_record \<Rightarrow> codes option) \<Rightarrow> finding_record list \<Rightarrow> json" where
  "samples env get failures =
     JArray (map JString (mv_set_order env
       (remdups (filter (\<lambda>s. s \<noteq> []) (map (\<lambda>f. or_default [] (get f)) (take 5 failures))))))"

text \<open>The variants of a clean scanner select the findings that count.\<close>

definition clean_failures ::
    "match_env \<Rightarrow> test_spec \<Rightarrow> finding_record list \<Rightarrow> evaluation + finding_record list" where
  "clean_failures env spec matching =
     (if ts_type spec = ''scanner-clean'' then Inr matching
      else if ts_type spec = ''scanner-clean-by-rule'' then
        (case mv_compile env (or_default [] (ts_rule_pattern spec)) of
           Inl message \<Rightarrow> Inl (note_only (codes_of ''invalid rule_pattern: '' @ message))
         | Inr search \<Rightarrow>
             Inr (filter (\<lambda>f. case fn_rule_id f of None \<Rightarrow> False | Some r \<Rightarrow> r \<noteq> [] \<and> search r) matching))
      else if ts_type spec = ''scanner-clean-by-severity'' then
        (let floor_rank = severity_rank (or_default ''LOW'' (ts_severity_floor spec)) in
         Inr (filter (\<lambda>f. floor_rank \<le> severity_rank (fn_severity f)) matching))
      else Inl (note_only (codes_of (''unknown scanner-clean variant: '' @ ts_type spec))))"

definition eval_scanner_clean :: "match_env \<Rightarrow> test_spec \<Rightarrow> finding_record list \<Rightarrow> evaluation" where
  "eval_scanner_clean env spec findings =
     (let scanner = or_default [] (ts_scanner spec) in
      if scanner = [] then note_only (codes_of ''no scanner supplied'')
      else
     (let matching = filter (\<lambda>f. fn_scanner_kind f = scanner) findings in
      if matching = [] then
        note_only (codes_of ''scanner '' @ py_repr (mv_printable env) scanner @
          codes_of '' produced no findings (did it run?)'')
      else (case clean_failures env spec matching of
        Inl evaluation \<Rightarrow> evaluation
      | Inr failures \<Rightarrow>
          if failures \<noteq> [] then
            \<lparr>ev_result = ''fail'',
             ev_detail = [(codes_of ''scanner'', JString scanner), count_member ''finding_count'' failures,
               (codes_of ''sample_rule_ids'', samples env fn_rule_id failures),
               (codes_of ''sample_files'', samples env fn_file_path failures)]\<rparr>
          else
            \<lparr>ev_result = ''pass'',
             ev_detail = [(codes_of ''scanner'', JString scanner), count_member ''total_findings'' matching,
               (codes_of ''note'', JString (codes_of ''scanner ran with zero matching findings''))]\<rparr>)))"

definition eval_scanner_finds :: "match_env \<Rightarrow> test_spec \<Rightarrow> finding_record list \<Rightarrow> evaluation" where
  "eval_scanner_finds env spec findings =
     (let scanner = or_default [] (ts_scanner spec) in
      if scanner = [] then note_only (codes_of ''no scanner supplied'')
      else
     (let matching = filter (\<lambda>f. fn_scanner_kind f = scanner) findings in
      if matching = [] then
        note_only (codes_of ''scanner '' @ py_repr (mv_printable env) scanner @ codes_of '' produced no findings'')
      else \<lparr>ev_result = ''pass'',
             ev_detail = [(codes_of ''scanner'', JString scanner), count_member ''finding_count'' matching]\<rparr>))"

text \<open>An attestation is the test it refers to.\<close>

definition eval_manual :: "test_spec \<Rightarrow> codes list \<Rightarrow> evaluation" where
  "eval_manual spec attestations =
     (let matching = filter (\<lambda>a. a = ts_id spec) attestations in
      if matching = [] then note_only (codes_of ''no attestation on file'')
      else \<lparr>ev_result = ''pass'', ev_detail = [count_member ''attestation_count'' matching]\<rparr>)"

definition evaluate_test ::
    "match_env \<Rightarrow> test_spec \<Rightarrow> finding_record list \<Rightarrow> test_case_record list \<Rightarrow> codes list \<Rightarrow> evaluation" where
  "evaluate_test env spec findings cases attestations =
     (if ts_type spec \<in> {''unit-test'', ''integration-test'', ''e2e-test''} then eval_test_suite env spec cases
      else if ts_type spec \<in> {''scanner-clean'', ''scanner-clean-by-rule'', ''scanner-clean-by-severity''}
      then eval_scanner_clean env spec findings
      else if ts_type spec = ''scanner-finds'' then eval_scanner_finds env spec findings
      else if ts_type spec = ''manual-attestation'' then eval_manual spec attestations
      else if ts_type spec = ''imported''
      then note_only (codes_of ''imported artifacts not yet supported in v3'')
      else note_only (codes_of (''unknown test type: '' @ ts_type spec)))"

section \<open>What a verdict says\<close>

lemma eval_clean_pass:
  assumes "ev_result (eval_scanner_clean env spec findings) = ''pass''" "ts_type spec = ''scanner-clean''"
  shows False
  using assms by (auto simp: eval_scanner_clean_def note_only_def clean_failures_def Let_def split: if_splits)

end
