(* ===== verification/Fr_State.thy ===== *)
theory Fr_State
  imports Fr_Tests
begin

text \<open>
  The states of the functional requirements after a scan (\<^verbatim>\<open>state/resolver.py\<close> and
  \<^verbatim>\<open>evidence/state_compute.py\<close>): every test of every requirement is evaluated on the findings
  that no acceptance covers, the evaluations are corrected by what is known about the scanners,
  and the precedence ladder turns them, the waivers and the dependencies into one state.
\<close>

section \<open>The precedence ladder\<close>

type_synonym evaluations = "(codes \<times> evaluation) list"

record state_result =
  st_state :: string
  st_reason :: members

definition text_member :: "string \<Rightarrow> string \<Rightarrow> codes \<times> json" where
  "text_member name value_text = (codes_of name, JString (codes_of value_text))"

definition with_result :: "string \<Rightarrow> evaluations \<Rightarrow> json list" where
  "with_result result evaluations =
     map (\<lambda>(test, ev). JObject [(codes_of ''test_id'', JString test), (codes_of ''detail'', JObject (ev_detail ev))])
       (filter (\<lambda>(test, ev). ev_result ev = result) evaluations)"

definition evaluate_fr ::
    "test_spec list \<Rightarrow> evaluations \<Rightarrow> bool \<Rightarrow> (codes \<times> string) list \<Rightarrow> state_result" where
  "evaluate_fr tests evaluations waivers_present dep_states =
     (if waivers_present then
        \<lparr>st_state = ''waived'', st_reason = [text_member ''source'' ''standing_waiver'']\<rparr>
      else
     (let blocking = filter (\<lambda>(dep, state). state \<notin> {''passed'', ''waived'', ''accepted''}) dep_states in
      if blocking \<noteq> [] then
        \<lparr>st_state = ''blocked'', st_reason = [(codes_of ''blocking_deps'',
           JObject (map (\<lambda>(dep, state). (dep, JString (codes_of state))) blocking))]\<rparr>
      else if tests = [] then
        \<lparr>st_state = ''untested'', st_reason = [text_member ''note'' ''no tests defined'']\<rparr>
      else if evaluations = [] then
        \<lparr>st_state = ''pending'', st_reason = [text_member ''note'' ''tests defined, none evaluated yet'']\<rparr>
      else if with_result ''fail'' evaluations \<noteq> [] then
        \<lparr>st_state = ''failed'', st_reason = [(codes_of ''failures'', JArray (with_result ''fail'' evaluations))]\<rparr>
      else if with_result ''pending'' evaluations \<noteq> [] then
        \<lparr>st_state = ''pending'',
         st_reason = [text_member ''note'' ''some tests have not produced results yet'',
           (codes_of ''pending'', JArray (with_result ''pending'' evaluations))]\<rparr>
      else if with_result ''accepted'' evaluations \<noteq> [] then
        \<lparr>st_state = ''accepted'',
         st_reason = [count_member ''test_count'' evaluations,
           (codes_of ''accepted_tests'', JArray (with_result ''accepted'' evaluations)),
           text_member ''note'' ''all tests pass but some findings accepted as non-exploitable'']\<rparr>
      else
        \<lparr>st_state = ''passed'',
         st_reason = [count_member ''test_count'' evaluations,
           (codes_of ''tests'', JArray (map (JString \<circ> fst) evaluations))]\<rparr>))"

section \<open>Tables\<close>

record fr_row =
  fr_snapshot_id :: string
  fr_fr_id :: codes
  fr_depends_on :: "codes list"

record run_finding =
  rf_run_id :: string
  rf_finding :: finding_record

record waiver_row =
  wv_project_id :: int
  wv_fr_id :: codes
  wv_expires_at :: "datetime option"

record acceptance_row =
  ap_project_id :: int
  ap_scanner_kind :: codes
  ap_rule_id :: codes
  ap_expires_at :: "datetime option"

record scanner_status =
  ss_run_id :: string
  ss_scanner_kind :: codes
  ss_status :: string

record fr_state_row =
  fs_fr_id :: codes
  fs_run_id :: string
  fs_state :: string
  fs_reason :: members
  fs_computed_at :: datetime

record test_result_row =
  te_run_id :: string
  te_fr_id :: codes
  te_test_id :: codes
  te_test_type :: string
  te_result :: string
  te_detail :: members

record fr_db =
  fd_frs :: "fr_row list"
  fd_findings :: "run_finding list"
  fd_waivers :: "waiver_row list"
  fd_acceptances :: "acceptance_row list"
  fd_scanner_runs :: "scanner_status list"
  fd_states :: "fr_state_row list"
  fd_results :: "test_result_row list"

definition delete_states_for_run :: "string \<Rightarrow> fr_db \<Rightarrow> fr_db" where
  "delete_states_for_run run_id d = d\<lparr>fd_states := delete_where (\<lambda>r. fs_run_id r = run_id) (fd_states d)\<rparr>"

text \<open>Despite its name the state upsert always inserts.\<close>

definition upsert_state :: "datetime \<Rightarrow> codes \<Rightarrow> string \<Rightarrow> state_result \<Rightarrow> fr_db \<Rightarrow> fr_db" where
  "upsert_state now fr_id run_id result d =
     d\<lparr>fd_states := fd_states d @ [\<lparr>fs_fr_id = fr_id, fs_run_id = run_id, fs_state = st_state result,
         fs_reason = st_reason result, fs_computed_at = now\<rparr>]\<rparr>"

definition upsert_result ::
    "string \<Rightarrow> codes \<Rightarrow> codes \<Rightarrow> string \<Rightarrow> evaluation \<Rightarrow> fr_db \<Rightarrow> fr_db" where
  "upsert_result run_id fr_id test_id test_type ev d =
     d\<lparr>fd_results :=
         delete_where (\<lambda>r. te_run_id r = run_id \<and> te_fr_id r = fr_id \<and> te_test_id r = test_id) (fd_results d) @
         [\<lparr>te_run_id = run_id, te_fr_id = fr_id, te_test_id = test_id, te_test_type = test_type,
           te_result = ev_result ev, te_detail = ev_detail ev\<rparr>]\<rparr>"

definition list_for_snapshot :: "string \<Rightarrow> fr_db \<Rightarrow> fr_row list" where
  "list_for_snapshot snapshot_id d =
     sort_key fr_fr_id (filter (\<lambda>r. fr_snapshot_id r = snapshot_id) (fd_frs d))"

definition waived_frs :: "datetime \<Rightarrow> int \<Rightarrow> fr_db \<Rightarrow> codes set" where
  "waived_frs now project_id d =
     wv_fr_id ` set (filter (\<lambda>w. wv_project_id w = project_id \<and>
       (case wv_expires_at w of None \<Rightarrow> True | Some e \<Rightarrow> dt_less now e)) (fd_waivers d))"

section \<open>Accepted findings\<close>

text \<open>
  The expiry of an acceptance is compared in Python: against the aware clock a naive time, as
  SQLite returns it, is a \<^verbatim>\<open>TypeError\<close>.
\<close>

datatype state_error = State_TypeError

fun accepted_keys ::
    "datetime \<Rightarrow> acceptance_row list \<Rightarrow> state_error + (codes \<times> codes) list" where
  "accepted_keys now [] = Inr []"
| "accepted_keys now (a # rows) =
     (case ap_expires_at a of
        None \<Rightarrow> result_then (accepted_keys now rows) (\<lambda>ks. Inr ((ap_scanner_kind a, ap_rule_id a) # ks))
      | Some e \<Rightarrow>
          if \<not> aware e then Inl State_TypeError
          else result_then (accepted_keys now rows) (\<lambda>ks.
            Inr (if dt_less now e then (ap_scanner_kind a, ap_rule_id a) # ks else ks)))"

definition is_accepted :: "(codes \<times> codes) list \<Rightarrow> finding_record \<Rightarrow> bool" where
  "is_accepted keys f =
     (let rule = or_default [] (fn_rule_id f) in
      (fn_scanner_kind f, rule) \<in> set keys \<or>
      rule \<noteq> [] \<and> list_ex (\<lambda>(scanner, accepted_rule). scanner = fn_scanner_kind f \<and> prefix accepted_rule rule) keys)"

section \<open>Evaluating the tests of one requirement\<close>

text \<open>What is fixed for a run.\<close>

record run_context =
  rc_env :: match_env
  rc_now :: datetime
  rc_run_id :: string
  rc_findings :: "finding_record list"
  rc_cases :: "test_case_record list"
  rc_accepted :: "codes \<Rightarrow> nat"
  rc_ran :: "codes set"
  rc_waived :: "codes set"
  rc_tests :: "codes \<Rightarrow> test_spec list"

text \<open>A dictionary of evaluations keeps the place of a key that is assigned again.\<close>

definition eval_tests :: "run_context \<Rightarrow> test_spec list \<Rightarrow> evaluations" where
  "eval_tests c tests =
     fold (\<lambda>t evs. if ts_id t = [] then evs
       else AList.update (ts_id t) (evaluate_test (rc_env c) t (rc_findings c) (rc_cases c) []) evs) tests []"

definition silent_note :: codes where "silent_note = codes_of ''produced no findings''"

definition silent_pass :: "codes \<Rightarrow> evaluation" where
  "silent_pass scanner =
     \<lparr>ev_result = ''pass'',
      ev_detail = [(codes_of ''scanner'', JString scanner), (codes_of ''total_findings'', JInt 0),
        text_member ''note'' ''scanner ran with zero matching findings'']\<rparr>"

definition note_of :: "evaluation \<Rightarrow> codes" where
  "note_of ev = or_default [] (text_of (member_of (ev_detail ev) ''note''))"

text \<open>A pending test whose scanner completed without findings passes.\<close>

definition pass_silent :: "codes set \<Rightarrow> test_spec \<Rightarrow> evaluations \<Rightarrow> evaluations" where
  "pass_silent completed t evs =
     (case map_of evs (ts_id t) of
        None \<Rightarrow> evs
      | Some ev \<Rightarrow>
          (let scanner = or_default [] (ts_scanner t) in
           if ev_result ev = ''pending'' \<and> scanner \<in> completed \<and> sublist silent_note (note_of ev)
           then AList.update (ts_id t) (silent_pass scanner) evs else evs))"

text \<open>A clean test of a scanner with accepted findings is accepted, not passed.\<close>

definition mark_accepted :: "(codes \<Rightarrow> nat) \<Rightarrow> test_spec \<Rightarrow> evaluations \<Rightarrow> evaluations" where
  "mark_accepted accepted t evs =
     (case map_of evs (ts_id t) of
        None \<Rightarrow> evs
      | Some ev \<Rightarrow>
          (let n = accepted (or_default [] (ts_scanner t)) in
           if ev_result ev = ''pass'' \<and> prefix ''scanner-clean'' (ts_type t) \<and> 0 < n
           then AList.update (ts_id t)
             \<lparr>ev_result = ''accepted'',
              ev_detail = AList.update (codes_of ''accepted_count'') (JInt (int n)) (ev_detail ev)\<rparr> evs
           else evs))"

definition final_evaluations :: "run_context \<Rightarrow> test_spec list \<Rightarrow> evaluations" where
  "final_evaluations c tests =
     fold (mark_accepted (rc_accepted c)) tests
       (fold (pass_silent (rc_ran c)) tests (eval_tests c tests))"

definition store_results :: "run_context \<Rightarrow> codes \<Rightarrow> test_spec list \<Rightarrow> evaluations \<Rightarrow> fr_db \<Rightarrow> fr_db" where
  "store_results c fr_id tests evs =
     fold (\<lambda>t d. case map_of evs (ts_id t) of
       None \<Rightarrow> d | Some ev \<Rightarrow> upsert_result (rc_run_id c) fr_id (ts_id t) (ts_type t) ev d) tests"

section \<open>The passes over the requirements\<close>

text \<open>The states found so far, and the tables.\<close>

type_synonym state_map = "codes \<rightharpoonup> string"

definition dep_states_of :: "state_map \<Rightarrow> codes list \<Rightarrow> (codes \<times> string) list" where
  "dep_states_of states deps =
     fold (\<lambda>d ds. AList.update d (or_default ''passed'' (states d)) ds) deps []"

definition fr_result :: "run_context \<Rightarrow> fr_row \<Rightarrow> state_map \<Rightarrow> state_result" where
  "fr_result c fr states =
     (let tests = rc_tests c (fr_fr_id fr) in
      evaluate_fr tests (final_evaluations c tests) (fr_fr_id fr \<in> rc_waived c)
        (dep_states_of states (fr_depends_on fr)))"

definition compute_fr :: "run_context \<Rightarrow> fr_row \<Rightarrow> state_map \<times> fr_db \<Rightarrow> state_map \<times> fr_db" where
  "compute_fr c fr s =
     (case s of (states, d) \<Rightarrow>
        (let tests = rc_tests c (fr_fr_id fr); result = fr_result c fr states in
         (states(fr_fr_id fr \<mapsto> st_state result),
          upsert_state (rc_now c) (fr_fr_id fr) (rc_run_id c) result
            (store_results c (fr_fr_id fr) tests (final_evaluations c tests) d))))"

definition ready :: "codes set \<Rightarrow> state_map \<Rightarrow> fr_row \<Rightarrow> bool" where
  "ready known states fr \<longleftrightarrow> list_all (\<lambda>d. d \<in> dom states \<or> d \<notin> known) (fr_depends_on fr)"

text \<open>One pass: the requirements left over and whether any was evaluated.\<close>

fun one_pass ::
    "run_context \<Rightarrow> codes set \<Rightarrow> fr_row list \<Rightarrow> state_map \<times> fr_db
     \<Rightarrow> (fr_row list \<times> bool) \<times> state_map \<times> fr_db" where
  "one_pass c known [] s = (([], False), s)"
| "one_pass c known (fr # pending) s =
     (if ready known (fst s) fr
      then (case one_pass c known pending (compute_fr c fr s) of ((rest, _), s') \<Rightarrow> ((rest, True), s'))
      else (case one_pass c known pending s of ((rest, progress), s') \<Rightarrow> ((fr # rest, progress), s')))"

lemma one_pass_shrinks:
  "one_pass c known pending s = ((rest, progress), s') \<Longrightarrow>
     length rest \<le> length pending \<and> (progress \<longrightarrow> length rest < length pending)"
  by (induction c known pending s arbitrary: rest progress s' rule: one_pass.induct)
    (fastforce split: if_splits prod.splits)+

function passes ::
    "run_context \<Rightarrow> codes set \<Rightarrow> fr_row list \<Rightarrow> state_map \<times> fr_db \<Rightarrow> fr_row list \<times> state_map \<times> fr_db" where
  "passes c known pending s =
     (if pending = [] then ([], s)
      else (case one_pass c known pending s of
              ((rest, progress), s') \<Rightarrow> if progress then passes c known rest s' else (rest, s')))"
  by pat_completeness auto
termination
  by (relation "measure (\<lambda>(c, known, pending, s). length pending)") (auto dest: one_pass_shrinks [OF sym])

declare passes.simps [simp del]

definition cycle_result :: state_result where
  "cycle_result = \<lparr>st_state = ''blocked'', st_reason = [text_member ''error'' ''dep_cycle_or_unresolved'']\<rparr>"

definition block_rest :: "run_context \<Rightarrow> fr_row list \<Rightarrow> state_map \<times> fr_db \<Rightarrow> state_map \<times> fr_db" where
  "block_rest c =
     fold (\<lambda>fr (states, d). (states(fr_fr_id fr \<mapsto> ''blocked''),
       upsert_state (rc_now c) (fr_fr_id fr) (rc_run_id c) cycle_result d))"

section \<open>The whole computation\<close>

record loaded_catalogue =
  ct_frs :: "(codes \<times> test_spec list) list"
  ct_content_hash :: string

text \<open>The tests of the first requirement of that id in the catalogue.\<close>

definition load_tests :: "loaded_catalogue \<Rightarrow> codes \<Rightarrow> test_spec list" where
  "load_tests catalogue fr_id = or_default [] (map_of (ct_frs catalogue) fr_id)"

text \<open>SHA-1 is a parameter; the text is ASCII.\<close>

definition snapshot_id_for :: "(bytes \<Rightarrow> bytes) \<Rightarrow> loaded_catalogue \<Rightarrow> int \<Rightarrow> string" where
  "snapshot_id_for sha1 catalogue project_id =
     ''snap_'' @ take 16 (hex_encode (sha1 (or_default [] (utf8_encode (codes_of
       (decimal_int project_id @ ''|'' @ ct_content_hash catalogue))))))"

definition context_of ::
    "match_env \<Rightarrow> datetime \<Rightarrow> string \<Rightarrow> int \<Rightarrow> loaded_catalogue \<Rightarrow> test_case_record list
     \<Rightarrow> (codes \<times> codes) list \<Rightarrow> fr_db \<Rightarrow> run_context" where
  "context_of env now run_id project_id catalogue cases keys d =
     (let findings = map rf_finding (filter (\<lambda>f. rf_run_id f = run_id) (fd_findings d)) in
      \<lparr>rc_env = env, rc_now = now, rc_run_id = run_id,
       rc_findings = filter (\<lambda>f. \<not> is_accepted keys f) findings, rc_cases = cases,
       rc_accepted = (\<lambda>scanner. count_where (\<lambda>f. is_accepted keys f \<and> fn_scanner_kind f = scanner) findings),
       rc_ran = ss_scanner_kind ` set (filter (\<lambda>r. ss_run_id r = run_id \<and> ss_status r = ''completed'')
         (fd_scanner_runs d)),
       rc_waived = waived_frs now project_id d, rc_tests = load_tests catalogue\<rparr>)"

definition all_untested :: "fr_row list \<Rightarrow> state_map" where
  "all_untested frs = map_of (map (\<lambda>fr. (fr_fr_id fr, ''untested'')) frs)"

definition compute_rows :: "run_context \<Rightarrow> fr_row list \<Rightarrow> fr_db \<Rightarrow> state_map \<times> fr_db" where
  "compute_rows c frs d =
     (case passes c (fr_fr_id ` set frs) frs (all_untested frs, d) of (rest, s) \<Rightarrow> block_rest c rest s)"

definition evaluate_tests_and_compute_states ::
    "match_env \<Rightarrow> (bytes \<Rightarrow> bytes) \<Rightarrow> datetime \<Rightarrow> string \<Rightarrow> int \<Rightarrow> loaded_catalogue
     \<Rightarrow> test_case_record list \<Rightarrow> fr_db \<Rightarrow> state_error + state_map \<times> fr_db" where
  "evaluate_tests_and_compute_states env sha1 now run_id project_id catalogue cases d =
     (let d1 = delete_states_for_run run_id d;
          frs = list_for_snapshot (snapshot_id_for sha1 catalogue project_id) d1 in
      if frs = [] then Inr (Map.empty, d1)
      else result_then (accepted_keys now (filter (\<lambda>a. ap_project_id a = project_id) (fd_acceptances d1))) (\<lambda>keys.
        Inr (compute_rows (context_of env now run_id project_id catalogue cases keys d1) frs d1)))"

section \<open>One pass is enough\<close>

lemma ready_known: "known \<subseteq> dom states \<Longrightarrow> ready known states fr"
  by (auto simp: ready_def list_all_iff)

lemma compute_fr_known: "known \<subseteq> dom (fst s) \<Longrightarrow> known \<subseteq> dom (fst (compute_fr c fr s))"
  by (auto simp: compute_fr_def Let_def split: prod.splits)

lemma one_pass_complete:
  "known \<subseteq> dom (fst s) \<Longrightarrow>
     one_pass c known pending s = (([], pending \<noteq> []), fold (compute_fr c) pending s)"
  by (induction c known pending s rule: one_pass.induct) (simp_all add: ready_known compute_fr_known)

lemma all_untested_dom: "dom (all_untested frs) = fr_fr_id ` set frs"
  by (simp add: all_untested_def dom_map_of_conv_image_fst image_image)

lemma compute_rows_fold: "compute_rows c frs d = fold (compute_fr c) frs (all_untested frs, d)"
proof -
  have "one_pass c (fr_fr_id ` set frs) frs (all_untested frs, d) =
      (([], frs \<noteq> []), fold (compute_fr c) frs (all_untested frs, d))"
    by (rule one_pass_complete) (simp add: all_untested_dom)
  then have "passes c (fr_fr_id ` set frs) frs (all_untested frs, d) =
      ([], fold (compute_fr c) frs (all_untested frs, d))"
    by (simp add: passes.simps [of c _ frs] passes.simps [of c _ "[]"])
  then show ?thesis by (simp add: compute_rows_def block_rest_def)
qed

text \<open>
  Every requirement is evaluated in the first pass, in the order of the rows: the states of
  all requirements are preset, so none ever waits for its dependencies, the repeated passes and
  the report of cycles are never reached, and the computation is one fold over the rows.
\<close>

theorem states_computed_in_row_order:
  "evaluate_tests_and_compute_states env sha1 now run_id project_id catalogue cases d =
     (let d1 = delete_states_for_run run_id d;
          frs = list_for_snapshot (snapshot_id_for sha1 catalogue project_id) d1 in
      if frs = [] then Inr (Map.empty, d1)
      else result_then (accepted_keys now (filter (\<lambda>a. ap_project_id a = project_id) (fd_acceptances d1)))
        (\<lambda>keys. Inr (fold (compute_fr (context_of env now run_id project_id catalogue cases keys d1)) frs
          (all_untested frs, d1))))"
  unfolding evaluate_tests_and_compute_states_def compute_rows_fold by (rule refl)

lemma fold_compute_fr_other:
  "fr_id \<notin> fr_fr_id ` set frs \<Longrightarrow> fst (fold (compute_fr c) frs s) fr_id = fst s fr_id"
  by (induction frs arbitrary: s) (auto simp: compute_fr_def Let_def split: prod.splits)

lemma fold_compute_fr_at:
  assumes "distinct (map fr_fr_id (xs @ fr # ys))"
  shows "fst (fold (compute_fr c) (xs @ fr # ys) s) (fr_fr_id fr) =
    Some (st_state (fr_result c fr (fst (fold (compute_fr c) xs s))))"
proof -
  have "fr_fr_id fr \<notin> fr_fr_id ` set ys" using assms by auto
  then show ?thesis
    by (simp add: fold_compute_fr_other) (simp add: compute_fr_def Let_def split: prod.split)
qed

text \<open>The state of every requirement of the snapshot is what its own evaluation gave.\<close>

lemma compute_rows_at:
  assumes "distinct (map fr_fr_id frs)" "fr \<in> set frs"
  obtains before where "fst (compute_rows c frs d) (fr_fr_id fr) = Some (st_state (fr_result c fr before))"
proof -
  from assms(2) obtain xs ys where "frs = xs @ fr # ys" by (auto dest: split_list)
  with assms(1) fold_compute_fr_at [of xs fr ys c "(all_untested frs, d)"] that show ?thesis
    by (simp add: compute_rows_fold)
qed

section \<open>Dependencies\<close>

lemma dep_states_at:
  "map_of (dep_states_of states deps) d = (if d \<in> set deps then Some (or_default ''passed'' (states d)) else None)"
proof -
  have "map_of (fold (\<lambda>d. AList.update d (f d)) deps ds) k =
      (if k \<in> set deps then Some (f k) else map_of ds k)" for f :: "codes \<Rightarrow> string" and ds k
    by (induction deps arbitrary: ds) (auto simp: AList.update_conv')
  then show ?thesis by (simp add: dep_states_of_def)
qed

lemma blocked_by:
  assumes "dep \<in> set (fr_depends_on fr)" "states dep = Some state"
    and "state \<notin> {''passed'', ''waived'', ''accepted''}" "fr_fr_id fr \<notin> rc_waived c"
  shows "st_state (fr_result c fr states) = ''blocked''"
proof -
  have "map_of (dep_states_of states (fr_depends_on fr)) dep = Some state"
    using assms(1,2) by (simp add: dep_states_at or_default_def)
  then have "(dep, state) \<in> set (dep_states_of states (fr_depends_on fr))" by (rule map_of_SomeD)
  then have "filter (\<lambda>(dep, state). state \<notin> {''passed'', ''waived'', ''accepted''})
      (dep_states_of states (fr_depends_on fr)) \<noteq> []"
    using assms(3) by (auto simp: filter_empty_conv)
  with assms(4) show ?thesis by (simp add: fr_result_def evaluate_fr_def Let_def)
qed

lemma all_untested_at: "k \<in> fr_fr_id ` set frs \<Longrightarrow> all_untested frs k = Some ''untested''"
  unfolding all_untested_def by (induction frs) auto

text \<open>
  The order of the rows decides: whatever its tests say, a requirement without a waiver is
  blocked when it depends on one whose row comes later (or on itself), even if that one passes.
\<close>

theorem later_dependency_blocks:
  assumes "distinct (map fr_fr_id (xs @ fr # ys))"
    and "dep \<in> set (fr_depends_on fr)" "dep \<in> fr_fr_id ` set (fr # ys)" "fr_fr_id fr \<notin> rc_waived c"
  shows "fst (compute_rows c (xs @ fr # ys) d) (fr_fr_id fr) = Some ''blocked''"
proof -
  let ?frs = "xs @ fr # ys"
  have "fr_fr_id ` set xs \<inter> fr_fr_id ` set (fr # ys) = {}"
    using assms(1) by (simp only: map_append distinct_append set_map)
  with assms(3) have "dep \<notin> fr_fr_id ` set xs" by blast
  moreover have "all_untested ?frs dep = Some ''untested''"
    by (rule all_untested_at) (use assms(3) in auto)
  ultimately have "fst (fold (compute_fr c) xs (all_untested ?frs, d)) dep = Some ''untested''"
    by (simp add: fold_compute_fr_other)
  then have "st_state (fr_result c fr (fst (fold (compute_fr c) xs (all_untested ?frs, d)))) = ''blocked''"
    by (rule blocked_by [OF assms(2)]) (use assms(4) in simp_all)
  with fold_compute_fr_at [OF assms(1)] show ?thesis by (simp add: compute_rows_fold)
qed

lemma fold_compute_fr_dom: "fr_fr_id ` set frs \<subseteq> dom (fst s) \<Longrightarrow> dom (fst (fold (compute_fr c) frs s)) = dom (fst s)"
proof (induction frs arbitrary: s)
  case (Cons fr frs)
  have "dom (fst (compute_fr c fr s)) = dom (fst s)"
    using Cons.prems by (auto simp: compute_fr_def Let_def split: prod.splits)
  then show ?case using Cons.IH [of "compute_fr c fr s"] Cons.prems by simp
qed simp

lemma dep_states_cong:
  "(\<And>dep. dep \<in> set deps \<Longrightarrow> states dep = states' dep) \<Longrightarrow> dep_states_of states deps = dep_states_of states' deps"
  unfolding dep_states_of_def by (rule fold_cong) simp_all

lemma fr_result_waived: "fr_fr_id fr \<in> rc_waived c \<Longrightarrow> st_state (fr_result c fr states) = ''waived''"
  by (simp add: fr_result_def evaluate_fr_def Let_def)

text \<open>What the rows before a requirement fixed is what the whole computation answers for them.\<close>

lemma settled_before:
  assumes "distinct (map fr_fr_id (xs @ fr # ys))" "dep \<notin> fr_fr_id ` set (fr # ys)"
  shows "fst (fold (compute_fr c) xs s) dep = fst (fold (compute_fr c) (xs @ fr # ys) s) dep"
  using fold_compute_fr_other [OF assms(2), of c "fold (compute_fr c) xs s"] by simp

lemma rows_follow_dependencies:
  fixes xs ys fr c d
  defines "states \<equiv> fst (compute_rows c (xs @ fr # ys) d)"
  assumes ids: "distinct (map fr_fr_id (xs @ fr # ys))"
  shows "states (fr_fr_id fr) \<notin> {Some ''blocked'', Some ''waived''} \<Longrightarrow>
      dep \<in> set (fr_depends_on fr) \<Longrightarrow> dep \<in> fr_fr_id ` set (xs @ fr # ys) \<Longrightarrow>
      states dep \<in> {Some ''passed'', Some ''waived'', Some ''accepted''}"
    and "set (fr_depends_on fr) \<inter> fr_fr_id ` set (fr # ys) = {} \<Longrightarrow>
      states (fr_fr_id fr) = Some (st_state (fr_result c fr states))"
proof -
  let ?s = "(all_untested (xs @ fr # ys), d)" and ?ids = "fr_fr_id ` set (xs @ fr # ys)"
  define before where "before = fst (fold (compute_fr c) xs ?s)"
  have final: "states = fst (fold (compute_fr c) (xs @ fr # ys) ?s)"
    unfolding states_def compute_rows_fold by (rule refl)
  have at: "states (fr_fr_id fr) = Some (st_state (fr_result c fr before))"
    unfolding final before_def by (rule fold_compute_fr_at [OF ids])
  have same: "before dep = states dep" if "dep \<notin> fr_fr_id ` set (fr # ys)" for dep
    unfolding final before_def by (rule settled_before [OF ids that])
  show "states dep \<in> {Some ''passed'', Some ''waived'', Some ''accepted''}"
    if open_state: "states (fr_fr_id fr) \<notin> {Some ''blocked'', Some ''waived''}"
      and dep: "dep \<in> set (fr_depends_on fr)" "dep \<in> ?ids"
  proof -
    have unwaived: "fr_fr_id fr \<notin> rc_waived c" using open_state at fr_result_waived by fastforce
    have "dep \<notin> fr_fr_id ` set (fr # ys)"
      using later_dependency_blocks [OF ids dep(1) _ unwaived, of d] open_state by (auto simp: states_def)
    moreover have "dom before = ?ids"
      unfolding before_def by (subst fold_compute_fr_dom) (auto simp: all_untested_dom)
    then obtain state where "before dep = Some state" using dep(2) by blast
    ultimately show ?thesis
      using blocked_by [OF dep(1) _ _ unwaived, of before state] open_state at same [of dep] by auto
  qed
  show "states (fr_fr_id fr) = Some (st_state (fr_result c fr states))"
    if "set (fr_depends_on fr) \<inter> fr_fr_id ` set (fr # ys) = {}"
  proof -
    have "dep_states_of before (fr_depends_on fr) = dep_states_of states (fr_depends_on fr)"
      by (rule dep_states_cong, rule same) (use that in blast)
    then show ?thesis using at by (simp add: fr_result_def)
  qed
qed

text \<open>
  C25. Dependencies count.  A requirement of the snapshot ends neither blocked nor waived only if each of
  its dependencies that is a requirement of the snapshot ends passed, waived or accepted.
  When the dependencies come before it in the snapshot, its state is the evaluation of its
  tests against the final states of its dependencies.  The ids of the rows are
  distinct, which the table of requirements enforces.
\<close>

theorem states_follow_dependencies:
  assumes "evaluate_tests_and_compute_states env sha1 now run_id project_id catalogue cases d = Inr (states, d')"
    and "list_for_snapshot (snapshot_id_for sha1 catalogue project_id) (delete_states_for_run run_id d) = xs @ fr # ys"
    and "distinct (map fr_fr_id (xs @ fr # ys))"
  shows "(states (fr_fr_id fr) \<in> {Some ''blocked'', Some ''waived''} \<or>
      (\<forall>dep \<in> set (fr_depends_on fr) \<inter> fr_fr_id ` set (xs @ fr # ys).
         states dep \<in> {Some ''passed'', Some ''waived'', Some ''accepted''})) \<and>
    (set (fr_depends_on fr) \<inter> fr_fr_id ` set (fr # ys) = {} \<longrightarrow>
      (\<exists>keys. accepted_keys now (filter (\<lambda>a. ap_project_id a = project_id)
           (fd_acceptances (delete_states_for_run run_id d))) = Inr keys \<and>
         states (fr_fr_id fr) = Some (st_state (fr_result (context_of env now run_id project_id catalogue cases keys
           (delete_states_for_run run_id d)) fr states))))"
proof -
  let ?d = "delete_states_for_run run_id d"
  obtain keys where keys: "accepted_keys now (filter (\<lambda>a. ap_project_id a = project_id) (fd_acceptances ?d)) = Inr keys"
    and run: "compute_rows (context_of env now run_id project_id catalogue cases keys ?d) (xs @ fr # ys) ?d = (states, d')"
    using assms(1,2) by (auto simp: evaluate_tests_and_compute_states_def Let_def result_then_def split: sum.splits)
  note rows = rows_follow_dependencies [OF assms(3), where d = ?d
    and c = "context_of env now run_id project_id catalogue cases keys ?d", unfolded run fst_conv]
  show ?thesis
    using rows keys by blast
qed

section \<open>A passed requirement is clean\<close>

lemma fold_own_key:
  assumes own: "\<And>t evs. t \<in> set tests \<Longrightarrow> map_of (step t evs) (ts_id t) = g t (map_of evs (ts_id t))"
    and other: "\<And>t evs k. k \<noteq> ts_id t \<Longrightarrow> map_of (step t evs) k = map_of evs k"
    and "distinct (map ts_id tests)" "t \<in> set tests"
  shows "map_of (fold step tests evs) (ts_id t) = g t (map_of evs (ts_id t))"
  using assms
proof (induction tests arbitrary: evs)
  case (Cons u tests)
  have later: "map_of (fold step us evs) (ts_id u) = map_of evs (ts_id u)" if "ts_id u \<notin> ts_id ` set us" for us evs
    using that by (induction us arbitrary: evs) (auto simp: other)
  show ?case
  proof (cases "t = u")
    case True
    with Cons.prems(1,3) show ?thesis by (simp add: later)
  next
    case False
    with Cons.prems(4) have t: "t \<in> set tests" by simp
    then have "ts_id t \<in> ts_id ` set tests" by (rule imageI)
    with Cons.prems(3) have "ts_id t \<noteq> ts_id u" by (metis distinct.simps(2) list.map(2) list.set_map)
    note t = t this
    with Cons.IH [OF Cons.prems(1) other] Cons.prems(3) show ?thesis by (simp add: other)
  qed
qed simp

definition silenced :: "codes set \<Rightarrow> test_spec \<Rightarrow> evaluation \<Rightarrow> evaluation" where
  "silenced completed t ev =
     (let scanner = or_default [] (ts_scanner t) in
      if ev_result ev = ''pending'' \<and> scanner \<in> completed \<and> sublist silent_note (note_of ev)
      then silent_pass scanner else ev)"

definition accepted_as :: "(codes \<Rightarrow> nat) \<Rightarrow> test_spec \<Rightarrow> evaluation \<Rightarrow> evaluation" where
  "accepted_as accepted t ev =
     (let n = accepted (or_default [] (ts_scanner t)) in
      if ev_result ev = ''pass'' \<and> prefix ''scanner-clean'' (ts_type t) \<and> 0 < n
      then \<lparr>ev_result = ''accepted'',
            ev_detail = AList.update (codes_of ''accepted_count'') (JInt (int n)) (ev_detail ev)\<rparr>
      else ev)"

text \<open>The evaluation that counts for a test of its own id.\<close>

lemma final_evaluation:
  assumes "distinct (map ts_id tests)" "t \<in> set tests" "ts_id t \<noteq> []"
  shows "map_of (final_evaluations c tests) (ts_id t) =
    Some (accepted_as (rc_accepted c) t (silenced (rc_ran c) t
      (evaluate_test (rc_env c) t (rc_findings c) (rc_cases c) [])))"
proof -
  have "map_of (eval_tests c tests) (ts_id t) = Some (evaluate_test (rc_env c) t (rc_findings c) (rc_cases c) [])"
    unfolding eval_tests_def
    by (subst fold_own_key [where g = "\<lambda>t v. if ts_id t = [] then v
          else Some (evaluate_test (rc_env c) t (rc_findings c) (rc_cases c) [])", OF _ _ assms(1,2)])
      (use assms(3) in \<open>auto simp: AList.update_conv'\<close>)
  moreover have "map_of (fold (pass_silent (rc_ran c)) tests evs) (ts_id t) =
      map_option (silenced (rc_ran c) t) (map_of evs (ts_id t))" for evs
    by (rule fold_own_key [OF _ _ assms(1,2)])
      (auto simp: pass_silent_def silenced_def Let_def AList.update_conv' split: option.split)
  moreover have "map_of (fold (mark_accepted (rc_accepted c)) tests evs) (ts_id t) =
      map_option (accepted_as (rc_accepted c) t) (map_of evs (ts_id t))" for evs
    by (rule fold_own_key [OF _ _ assms(1,2)])
      (auto simp: mark_accepted_def accepted_as_def Let_def AList.update_conv' split: option.split)
  ultimately show ?thesis by (simp add: final_evaluations_def)
qed

lemma passed_evaluations:
  assumes "st_state (evaluate_fr tests evs waived deps) = ''passed''" "map_of evs k = Some ev"
  shows "ev_result ev \<noteq> ''fail''" "ev_result ev \<noteq> ''pending''" "ev_result ev \<noteq> ''accepted''"
proof -
  have "with_result ''fail'' evs = []" "with_result ''pending'' evs = []" "with_result ''accepted'' evs = []"
    using assms(1) by (simp_all add: evaluate_fr_def Let_def split: if_splits)
  then show "ev_result ev \<noteq> ''fail''" "ev_result ev \<noteq> ''pending''" "ev_result ev \<noteq> ''accepted''"
    using map_of_SomeD [OF assms(2)] by (auto simp: with_result_def filter_empty_conv)
qed

lemma silent_notes:
  "sublist silent_note (codes_of ''scanner '' @ r @ codes_of '' produced no findings (did it run?)'')"
  "sublist silent_note (codes_of ''scanner '' @ r @ codes_of '' produced no findings'')"
proof -
  have split: "codes_of '' produced no findings (did it run?)'' = [32] @ silent_note @ codes_of '' (did it run?)''"
    "codes_of '' produced no findings'' = [32] @ silent_note"
    by (simp_all add: silent_note_def codes_of_def)
  have "sublist silent_note (a @ silent_note @ b)" for a b by blast
  then show "sublist silent_note (codes_of ''scanner '' @ r @ codes_of '' produced no findings (did it run?)'')"
    "sublist silent_note (codes_of ''scanner '' @ r @ codes_of '' produced no findings'')"
    unfolding split by (metis append.assoc append_Nil2)+
qed

lemma note_of_note_only [simp]: "note_of (note_only note) = note"
  by (simp add: note_of_def note_only_def member_of_def or_default_def)

lemma eval_silent:
  assumes "or_default [] (ts_scanner t) = scanner" "scanner \<noteq> []" "filter (\<lambda>f. fn_scanner_kind f = scanner) findings = []"
  shows "eval_scanner_clean env t findings = note_only (codes_of ''scanner '' @ py_repr (mv_printable env) scanner @
      codes_of '' produced no findings (did it run?)'')"
    "eval_scanner_finds env t findings = note_only (codes_of ''scanner '' @ py_repr (mv_printable env) scanner @
      codes_of '' produced no findings'')"
  using assms by (simp_all add: eval_scanner_clean_def eval_scanner_finds_def Let_def)

text \<open>
  The correction looks at the note alone, so that a test which demands findings passes as well when
  its scanner completed without any.
\<close>

lemma finds_passes_without_findings:
  assumes "ts_type t = ''scanner-finds''" "or_default [] (ts_scanner t) = scanner" "scanner \<noteq> []"
    and "scanner \<in> completed" "filter (\<lambda>f. fn_scanner_kind f = scanner) findings = []"
  shows "ev_result (silenced completed t (evaluate_test env t findings cases [])) = ''pass''"
proof -
  have "evaluate_test env t findings cases [] = eval_scanner_finds env t findings"
    using assms(1) by (simp add: evaluate_test_def)
  moreover have "ev_result (note_only msg) = ''pending''" for msg by (simp add: note_only_def)
  ultimately show ?thesis
    using assms(2-4) eval_silent(2) [OF assms(2,3,5)] silent_notes(2) by (simp add: silenced_def silent_pass_def)
qed

lemma clean_test_passes:
  assumes "ts_type t = ''scanner-clean''" "or_default [] (ts_scanner t) = scanner" "scanner \<noteq> []"
    and ev: "ev = accepted_as accepted t (silenced completed t (evaluate_test env t findings cases []))"
    and passes: "ev_result ev \<noteq> ''fail''" "ev_result ev \<noteq> ''pending''" "ev_result ev \<noteq> ''accepted''"
  shows "scanner \<in> completed \<and> filter (\<lambda>f. fn_scanner_kind f = scanner) findings = [] \<and> accepted scanner = 0"
proof -
  have raw: "evaluate_test env t findings cases [] = eval_scanner_clean env t findings"
    using assms(1) by (simp add: evaluate_test_def)
  have silent: "silenced completed t (eval_scanner_clean env t findings) = silent_pass scanner \<and>
      scanner \<in> completed \<and> filter (\<lambda>f. fn_scanner_kind f = scanner) findings = []"
    using passes assms(1-3) unfolding ev raw accepted_as_def
    by (auto simp: silenced_def eval_scanner_clean_def clean_failures_def note_only_def Let_def split: if_splits)
  have "accepted scanner = 0"
    using passes(3) assms(1,2) silent unfolding ev raw
    by (auto simp: accepted_as_def silent_pass_def Let_def split: if_splits)
  with silent show ?thesis by simp
qed

text \<open>The scanner ran to its end and the run holds none of its findings, accepted or not.\<close>

definition scanner_silent :: "string \<Rightarrow> codes \<Rightarrow> fr_db \<Rightarrow> bool" where
  "scanner_silent run_id scanner d \<longleftrightarrow>
     (\<exists>r \<in> set (fd_scanner_runs d). ss_run_id r = run_id \<and> ss_scanner_kind r = scanner \<and>
        ss_status r = ''completed'') \<and>
     (\<forall>f \<in> set (fd_findings d). rf_run_id f = run_id \<longrightarrow> fn_scanner_kind (rf_finding f) \<noteq> scanner)"

lemma context_silent:
  assumes "scanner \<in> rc_ran (context_of env now run_id project_id catalogue cases keys d)"
    and "filter (\<lambda>f. fn_scanner_kind f = scanner)
        (rc_findings (context_of env now run_id project_id catalogue cases keys d)) = []"
    and "rc_accepted (context_of env now run_id project_id catalogue cases keys d) scanner = 0"
  shows "scanner_silent run_id scanner d"
  using assms
  by (auto simp: scanner_silent_def context_of_def Let_def count_where_def filter_empty_conv)

text \<open>
  C11. A requirement is reported ''passed'' only if every scanner that one of its clean-scanner tests
  names completed in this run without any finding: neither an open nor an accepted one.
\<close>

theorem passed_requirement_is_clean:
  assumes "evaluate_tests_and_compute_states env sha1 now run_id project_id catalogue cases d = Inr (states, d')"
    and "fr \<in> set (list_for_snapshot (snapshot_id_for sha1 catalogue project_id) d)"
    and "distinct (map fr_fr_id (list_for_snapshot (snapshot_id_for sha1 catalogue project_id) d))"
    and "states (fr_fr_id fr) = Some ''passed''"
    and "t \<in> set (load_tests catalogue (fr_fr_id fr))" "distinct (map ts_id (load_tests catalogue (fr_fr_id fr)))"
    and "ts_id t \<noteq> []" "ts_type t = ''scanner-clean''" "ts_scanner t = Some scanner" "scanner \<noteq> []"
  shows "scanner_silent run_id scanner d"
proof -
  let ?d = "delete_states_for_run run_id d"
  have rows: "list_for_snapshot snap ?d = list_for_snapshot snap d" for snap
    by (simp add: list_for_snapshot_def delete_states_for_run_def)
  from assms(1,2) obtain keys where computed: "compute_rows
      (context_of env now run_id project_id catalogue cases keys ?d)
      (list_for_snapshot (snapshot_id_for sha1 catalogue project_id) d) ?d = (states, d')" (is "compute_rows ?c _ _ = _")
    by (auto simp: evaluate_tests_and_compute_states_def rows result_then_ok Let_def split: if_splits)
  from compute_rows_at [OF assms(3,2), of ?c ?d] obtain before
    where "fst (compute_rows ?c (list_for_snapshot (snapshot_id_for sha1 catalogue project_id) d) ?d) (fr_fr_id fr) =
      Some (st_state (fr_result ?c fr before))" by blast
  with computed assms(4) have passed: "st_state (fr_result ?c fr before) = ''passed''" by (metis fst_conv option.inject)
  have tests: "rc_tests ?c = load_tests catalogue" by (simp add: context_of_def Let_def)
  from passed have "st_state (evaluate_fr (load_tests catalogue (fr_fr_id fr))
      (final_evaluations ?c (load_tests catalogue (fr_fr_id fr))) (fr_fr_id fr \<in> rc_waived ?c)
      (dep_states_of before (fr_depends_on fr))) = ''passed''"
    by (simp add: fr_result_def tests Let_def)
  note outcome = passed_evaluations [OF this final_evaluation [OF assms(6,5,7)]]
  have "or_default [] (ts_scanner t) = scanner" using assms(9) by (simp add: or_default_def)
  from clean_test_passes [OF assms(8) this assms(10) refl outcome]
  have "scanner_silent run_id scanner ?d" by (elim conjE) (rule context_silent)
  then show ?thesis by (simp add: scanner_silent_def delete_states_for_run_def)
qed

text \<open>One requirement with one clean test of a scanner that completed without findings.\<close>

definition sample_test :: test_spec where
  "sample_test = \<lparr>ts_id = [116], ts_type = ''scanner-clean'', ts_name_pattern = None,
     ts_scanner = Some (codes_of ''semgrep''), ts_rule_pattern = None, ts_severity_floor = None\<rparr>"

definition sample_fr :: "codes list \<Rightarrow> codes \<Rightarrow> fr_row" where
  "sample_fr deps fr_id = \<lparr>fr_snapshot_id = ''snap_'', fr_fr_id = fr_id, fr_depends_on = deps\<rparr>"

definition sample_catalogue :: loaded_catalogue where
  "sample_catalogue = \<lparr>ct_frs = [([49], [sample_test])], ct_content_hash = []\<rparr>"

definition sample_fr_db :: fr_db where
  "sample_fr_db = \<lparr>fd_frs = [sample_fr [] [49]], fd_findings = [], fd_waivers = [], fd_acceptances = [],
     fd_scanner_runs = [\<lparr>ss_run_id = ''r'', ss_scanner_kind = codes_of ''semgrep'', ss_status = ''completed''\<rparr>],
     fd_states = [], fd_results = []\<rparr>"

definition sample_match_env :: match_env where
  "sample_match_env = \<lparr>mv_printable = (\<lambda>_. True), mv_set_order = (\<lambda>xs. xs), mv_compile = (\<lambda>_. Inr (\<lambda>_. False))\<rparr>"

text \<open>The first of two requirements depends on the second one.\<close>

theorem later_dependency_blocks_witness:
  "fst (compute_rows (context_of sample_match_env (utc 0) ''r'' 1 sample_catalogue [] [] sample_fr_db)
      ([] @ sample_fr [[50]] [49] # [sample_fr [] [50]]) sample_fr_db) [49] = Some ''blocked''"
proof -
  have "rc_waived (context_of sample_match_env (utc 0) ''r'' 1 sample_catalogue [] [] sample_fr_db) = {}"
    by (simp add: context_of_def Let_def waived_frs_def sample_fr_db_def)
  then show ?thesis
    using later_dependency_blocks [of "[]" "sample_fr [[50]] [49]" "[sample_fr [] [50]]" "[50]"]
    by (simp add: sample_fr_def)
qed

text \<open>The second of two requirements depends on the first one.\<close>

theorem states_follow_dependencies_witness:
  "\<exists>states d'. evaluate_tests_and_compute_states sample_match_env (\<lambda>_. []) (utc 0) ''r'' 1 sample_catalogue []
      (sample_fr_db\<lparr>fd_frs := [sample_fr [] [49], sample_fr [[49]] [50]]\<rparr>) = Inr (states, d') \<and>
    (states [50] \<in> {Some ''blocked'', Some ''waived''} \<or>
     states [49] \<in> {Some ''passed'', Some ''waived'', Some ''accepted''}) \<and>
    (\<exists>c. states [50] = Some (st_state (fr_result c (sample_fr [[49]] [50]) states)))"
proof -
  let ?db = "sample_fr_db\<lparr>fd_frs := [sample_fr [] [49], sample_fr [[49]] [50]]\<rparr>"
  let ?d = "delete_states_for_run ''r'' ?db"
  have snap: "snapshot_id_for (\<lambda>_. []) sample_catalogue 1 = ''snap_''"
    by (simp add: snapshot_id_for_def)
  have rows: "list_for_snapshot (snapshot_id_for (\<lambda>_. []) sample_catalogue 1) ?d =
      [sample_fr [] [49]] @ sample_fr [[49]] [50] # []"
    unfolding snap by (simp add: list_for_snapshot_def delete_states_for_run_def sample_fr_db_def sample_fr_def)
  obtain states d' where "compute_rows (context_of sample_match_env (utc 0) ''r'' 1 sample_catalogue [] [] ?d)
      [sample_fr [] [49], sample_fr [[49]] [50]] ?d = (states, d')"
    by fastforce
  then have run: "evaluate_tests_and_compute_states sample_match_env (\<lambda>_. []) (utc 0) ''r'' 1 sample_catalogue []
      ?db = Inr (states, d')"
    using rows by (simp add: evaluate_tests_and_compute_states_def Let_def delete_states_for_run_def
        sample_fr_db_def)
  from states_follow_dependencies [OF run rows] run
  show ?thesis by (auto simp: sample_fr_def)
qed

theorem passed_requirement_is_clean_witness:
  "\<exists>states d'. evaluate_tests_and_compute_states sample_match_env (\<lambda>_. []) (utc 0) ''r'' 1 sample_catalogue []
      sample_fr_db = Inr (states, d') \<and> states [49] = Some ''passed'' \<and>
    scanner_silent ''r'' (codes_of ''semgrep'') sample_fr_db"
proof -
  let ?d = "delete_states_for_run ''r'' sample_fr_db"
  let ?c = "context_of sample_match_env (utc 0) ''r'' 1 sample_catalogue [] [] ?d"
  have snap: "snapshot_id_for (\<lambda>_. []) sample_catalogue 1 = ''snap_''"
    by (simp add: snapshot_id_for_def)
  have rows: "list_for_snapshot ''snap_'' ?d = [sample_fr [] [49]]"
      "list_for_snapshot ''snap_'' sample_fr_db = [sample_fr [] [49]]"
    by (simp_all add: list_for_snapshot_def delete_states_for_run_def sample_fr_db_def sample_fr_def)
  obtain states d' where computed: "compute_rows ?c [sample_fr [] [49]] ?d = (states, d')"
    by (cases "compute_rows ?c [sample_fr [] [49]] ?d")
  have tests: "rc_tests ?c [49] = [sample_test]"
    by (simp add: context_of_def Let_def load_tests_def sample_catalogue_def or_default_def)
  have ran: "codes_of ''semgrep'' \<in> rc_ran ?c" "rc_findings ?c = []" "rc_accepted ?c (codes_of ''semgrep'') = 0"
    by (simp_all add: context_of_def Let_def delete_states_for_run_def sample_fr_db_def count_where_def)
  have sample: "ts_id sample_test = [116]" "ts_type sample_test = ''scanner-clean''"
      "or_default [] (ts_scanner sample_test) = codes_of ''semgrep''"
    by (simp_all add: sample_test_def or_default_def)
  obtain msg where msg: "evaluate_test (rc_env ?c) sample_test [] (rc_cases ?c) [] = note_only msg"
      "sublist silent_note msg"
    using eval_silent(1) [OF sample(3), of "[]" "rc_env ?c"] silent_notes(1)
    by (simp add: evaluate_test_def sample(2) codes_of_def)
  have pending: "ev_result (note_only msg) = ''pending''" by (simp add: note_only_def)
  have evals: "eval_tests ?c [sample_test] = [([116], note_only msg)]"
    by (simp add: eval_tests_def ran(2) msg(1) sample(1))
  have final: "final_evaluations ?c [sample_test] = [([116], silent_pass (codes_of ''semgrep''))]"
    by (simp add: final_evaluations_def evals pass_silent_def mark_accepted_def sample ran(1,3) msg(2) pending Let_def)
  have unwaived: "rc_waived ?c = {}"
    by (simp add: context_of_def Let_def waived_frs_def delete_states_for_run_def sample_fr_db_def)
  have "fst (compute_rows ?c [sample_fr [] [49]] ?d) [49] = Some ''passed''"
    by (simp add: compute_rows_fold compute_fr_def fr_result_def Let_def sample_fr_def tests final unwaived
        evaluate_fr_def dep_states_of_def with_result_def silent_pass_def)
  with computed have passed: "states [49] = Some ''passed''" by simp
  have result: "evaluate_tests_and_compute_states sample_match_env (\<lambda>_. []) (utc 0) ''r'' 1 sample_catalogue []
      sample_fr_db = Inr (states, d')"
    using computed
    by (simp add: evaluate_tests_and_compute_states_def snap rows Let_def result_then_ok)
      (simp add: delete_states_for_run_def sample_fr_db_def)
  have "scanner_silent ''r'' (codes_of ''semgrep'') sample_fr_db"
  proof (rule passed_requirement_is_clean [OF result, of "sample_fr [] [49]" sample_test])
    show "sample_fr [] [49] \<in> set (list_for_snapshot (snapshot_id_for (\<lambda>_. []) sample_catalogue 1) sample_fr_db)"
      "distinct (map fr_fr_id (list_for_snapshot (snapshot_id_for (\<lambda>_. []) sample_catalogue 1) sample_fr_db))"
      by (simp_all add: snap rows)
    show "codes_of ''semgrep'' \<noteq> []" by (simp add: codes_of_def)
  qed (simp_all add: passed load_tests_def sample_catalogue_def or_default_def sample_test_def sample_fr_def)
  with result passed show ?thesis by blast
qed

end
