(* ===== verification/Repo_Identity.thy ===== *)
theory Repo_Identity
  imports Py_Url Access_Policy
begin

text \<open>
  Repository references (\<^verbatim>\<open>provenance/repository_identity\<close>): the supported ways of
  writing a GitHub repository and the case-insensitive key under which a project is registered.
  The checks of the standard library on an unusual network location are a parameter.
\<close>

definition invalid_repository :: "string \<Rightarrow> string \<Rightarrow> string + 'a" where
  "invalid_repository message original = Inl (message @ original)"

definition strip_char :: "char \<Rightarrow> string \<Rightarrow> string" where
  "strip_char x s = rev (dropWhile (\<lambda>c. c = x) (rev (dropWhile (\<lambda>c. c = x) s)))"

definition remove_suffix :: "string \<Rightarrow> string \<Rightarrow> string" where
  "remove_suffix suffix_text s =
     (if suffix_text \<noteq> [] \<and> drop (length s - length suffix_text) s = suffix_text
      then take (length s - length suffix_text) s else s)"

fun split_char :: "char \<Rightarrow> string \<Rightarrow> string list" where
  "split_char x [] = [[]]"
| "split_char x (c # s) =
     (if c = x then [] # split_char x s
      else (case split_char x s of [] \<Rightarrow> [[c]] | p # ps \<Rightarrow> (c # p) # ps))"

definition canonical_pair :: "string \<Rightarrow> string \<Rightarrow> string + string" where
  "canonical_pair path original =
     (let cleaned = remove_suffix ''.git'' (strip_char (CHR ''/'') path) in
      case split_char (CHR ''/'') cleaned of
        [owner, name] \<Rightarrow>
          if owner_name owner \<and> repository_name name \<and> name \<notin> {''.'', ''..''}
          then Inr (owner @ ''/'' @ name)
          else invalid_repository ''expected a GitHub owner/repository reference: '' original
      | _ \<Rightarrow> invalid_repository ''expected a GitHub owner/repository reference: '' original)"

text \<open>User name and password of a network location.\<close>

definition userinfo :: "string \<Rightarrow> string option \<times> string option" where
  "userinfo netloc =
     (if CHR ''@'' \<notin> set netloc then (None, None)
      else (case partition_on (CHR '':'')
              (take (length netloc - length (after_last (CHR ''@'') netloc) - 1) netloc) of
              (name, found, secret) \<Rightarrow> (Some name, if found then Some secret else None)))"

fun contains_text :: "string \<Rightarrow> string \<Rightarrow> bool" where
  "contains_text w [] = (w = [])"
| "contains_text w (c # s) = (take (length w) (c # s) = w \<or> contains_text w s)"

definition github_url_path :: "(string \<Rightarrow> bool) \<Rightarrow> string \<Rightarrow> string \<Rightarrow> string + string" where
  "github_url_path netloc_ok candidate original =
     (case urlsplit netloc_ok candidate of
        None \<Rightarrow> invalid_repository ''ValueError: '' original
      | Some u \<Rightarrow>
          if url_scheme u \<notin> {''http'', ''https'', ''ssh''}
          then invalid_repository ''unsupported repository URL: '' original
          else if url_hostname u \<noteq> Some ''github.com''
          then invalid_repository ''not a GitHub repository URL: '' original
          else if url_port u = None then invalid_repository ''ValueError: '' original
          else if url_port u \<noteq> Some None
          then invalid_repository ''not a GitHub repository URL: '' original
          else if url_query u \<noteq> [] \<or> url_fragment u \<noteq> []
          then invalid_repository ''repository URL must not contain a query or fragment: '' original
          else if url_scheme u = ''ssh'' \<and> userinfo (url_netloc u) \<noteq> (Some ''git'', None)
          then invalid_repository ''invalid GitHub SSH URL: '' original
          else if url_scheme u \<noteq> ''ssh'' \<and> userinfo (url_netloc u) \<noteq> (None, None)
          then invalid_repository ''invalid GitHub HTTPS URL: '' original
          else canonical_pair (url_path u) original)"

definition parse_github_repository :: "(string \<Rightarrow> bool) \<Rightarrow> string \<Rightarrow> string + string option" where
  "parse_github_repository netloc_ok value =
     (let candidate = py_strip value;
          wrap = (\<lambda>x. case x of Inl e \<Rightarrow> Inl e | Inr p \<Rightarrow> Inr (Some p)) in
      if candidate = [] then Inr None
      else if take 15 candidate = ''git@github.com:'' then wrap (canonical_pair (drop 15 candidate) value)
      else if \<not> contains_text ''://'' candidate then wrap (canonical_pair candidate value)
      else wrap (github_url_path netloc_ok candidate value))"

text \<open>The accepted pair is ASCII, on which \<^verbatim>\<open>casefold\<close> is \<^verbatim>\<open>lower\<close>.\<close>

definition normalize_github_repository_key :: "(string \<Rightarrow> bool) \<Rightarrow> string \<Rightarrow> string + string" where
  "normalize_github_repository_key netloc_ok repository =
     (case parse_github_repository netloc_ok repository of
        Inl e \<Rightarrow> Inl e
      | Inr None \<Rightarrow> Inl ''GitHub repository is required''
      | Inr (Some parsed) \<Rightarrow> Inr (py_lower parsed))"

text \<open>A key is an owner and a name without capitals, whatever form the reference had.\<close>

definition repository_pair :: "string \<Rightarrow> bool" where
  "repository_pair p \<longleftrightarrow>
     (\<exists>owner name. p = owner @ ''/'' @ name \<and> owner_name owner \<and> repository_name name)"

lemma canonical_pair_shape: "canonical_pair path original = Inr p \<Longrightarrow> repository_pair p"
  by (auto simp: canonical_pair_def invalid_repository_def repository_pair_def Let_def
      split: list.splits if_splits)

lemma github_url_path_shape: "github_url_path netloc_ok candidate original = Inr p \<Longrightarrow> repository_pair p"
  by (auto simp: github_url_path_def invalid_repository_def split: option.splits if_splits
      intro: canonical_pair_shape)

lemma parsed_repository_shape: "parse_github_repository netloc_ok s = Inr (Some p) \<Longrightarrow> repository_pair p"
  by (auto simp: parse_github_repository_def Let_def split: if_splits sum.splits
      intro: canonical_pair_shape github_url_path_shape)

end
