(* ===== verification/Github_Oidc.thy ===== *)
theory Github_Oidc
  imports Envelope_V2 Repo_Identity
begin

text \<open>
  Workload identity of GitHub Actions (\<^verbatim>\<open>access/github_oidc\<close>): strict reading of a
  compact JWT, its signature, its times and claims, the policy for a push to the default branch,
  the binding of the uploaded metadata to the claims, and the table that fences replays.  The RSA
  verifier, SHA-256, the recursion limit of the interpreter and the checks of the standard library
  on an unusual network location are parameters.
\<close>

section \<open>Policy, claims and errors\<close>

record oidc_policy =
  issuer :: string
  discovery_url :: string
  jwks_url :: string
  audience_path :: string
  algorithm :: string
  token_type :: string
  maximum_jwt_bytes :: nat
  maximum_kid_bytes :: nat
  jwks_cache_seconds :: int
  clock_skew_seconds :: int
  maximum_lifetime_seconds :: int
  consumed_jti_extra_retention_seconds :: int

definition OIDC_POLICY_V2 :: oidc_policy where
  "OIDC_POLICY_V2 =
     \<lparr>issuer = ''https://token.actions.githubusercontent.com'',
      discovery_url = ''https://token.actions.githubusercontent.com/.well-known/openid-configuration'',
      jwks_url = ''https://token.actions.githubusercontent.com/.well-known/jwks'',
      audience_path = ''/api/v2/ingest/github-actions'', algorithm = ''RS256'', token_type = ''JWT'',
      maximum_jwt_bytes = 16 * 1024, maximum_kid_bytes = 128, jwks_cache_seconds = 60 * 60,
      clock_skew_seconds = 60, maximum_lifetime_seconds = 10 * 60, consumed_jti_extra_retention_seconds = 5 * 60\<rparr>"

record oidc_claims =
  oc_subject :: codes
  oc_repository_id :: int
  oc_owner_id :: int
  oc_repository :: codes
  oc_run_id :: int
  oc_run_number :: int
  oc_run_attempt :: int
  oc_sha :: codes
  oc_ref :: codes
  oc_event_name :: codes
  oc_actor :: codes
  oc_actor_id :: int
  oc_workflow_ref :: codes
  oc_workflow_sha :: codes
  oc_issued_at :: datetime
  oc_not_before :: datetime
  oc_expires_at :: datetime
  oc_jti :: codes

record repository_trust =
  tr_repository_id :: int
  tr_owner_id :: int
  tr_full_name :: codes
  tr_default_branch :: codes

text \<open>A failed validation carries its code; the other errors are not translated by the code.\<close>

datatype oidc_error =
    Oidc_Validation string
  | Oidc_ValueError
  | Oidc_RecursionError
  | Oidc_UnicodeError
  | Oidc_RuntimeError

definition oidc_invalid :: oidc_error where
  "oidc_invalid = Oidc_Validation ''oidc_invalid''"

definition MAX_DATABASE_INTEGER :: int where
  "MAX_DATABASE_INTEGER = 2 ^ 63 - 1"

section \<open>The audience\<close>

definition github_oidc_audience :: "(string \<Rightarrow> bool) \<Rightarrow> string \<Rightarrow> oidc_error + string" where
  "github_oidc_audience netloc_ok public_base_url =
     (case urlsplit netloc_ok public_base_url of
        None \<Rightarrow> Inl oidc_invalid
      | Some u \<Rightarrow>
     (case url_port u of
        None \<Rightarrow> Inl oidc_invalid
      | Some port \<Rightarrow>
     (case url_hostname u of
        None \<Rightarrow> Inl oidc_invalid
      | Some host \<Rightarrow>
          if url_scheme u \<noteq> ''https'' \<or> host = [] \<or> userinfo (url_netloc u) \<noteq> (None, None) \<or>
             url_path u \<notin> {'''', ''/''} \<or> url_query u \<noteq> [] \<or> url_fragment u \<noteq> [] \<or>
             port = Some 0
          then Inl oidc_invalid
          else Inr (''https://'' @ host @
            (case port of None \<Rightarrow> [] | Some n \<Rightarrow> CHR '':'' # decimal n) @ audience_path OIDC_POLICY_V2))))"

section \<open>Segments and header\<close>

definition decode_segment :: "string \<Rightarrow> oidc_error + bytes" where
  "decode_segment s =
     (if s = [] \<or> \<not> list_all is_b64url s then Inl oidc_invalid
      else case urlsafe_b64decode (s @ replicate ((4 - length s mod 4) mod 4) (CHR ''='')) of
        None \<Rightarrow> Inl oidc_invalid | Some b \<Rightarrow> Inr b)"

definition oidc_hooks :: "oidc_error json_hooks" where
  "oidc_hooks = \<lparr>jh_object = unique_hook oidc_invalid, jh_float = keep_float, jh_constant = keep_constant\<rparr>"

definition json_object :: "nat \<Rightarrow> bytes \<Rightarrow> oidc_error + members" where
  "json_object limit raw =
     (case json_decode_bytes raw of
        None \<Rightarrow> Inl oidc_invalid
      | Some t \<Rightarrow>
          (case json_loads oidc_hooks limit t of
             Inl Json_Decode \<Rightarrow> Inl oidc_invalid
           | Inl Json_Digits \<Rightarrow> Inl Oidc_ValueError
           | Inl Json_Recursion \<Rightarrow> Inl Oidc_RecursionError
           | Inl (Json_Hook e) \<Rightarrow> Inl e
           | Inr (JObject ms) \<Rightarrow> Inr ms
           | Inr _ \<Rightarrow> Inl oidc_invalid))"

text \<open>\<^verbatim>\<open>[A-Za-z0-9_-]\<close> and \<^verbatim>\<open>[0-9a-f]\<close> on code points.\<close>

definition code_b64url :: "nat \<Rightarrow> bool" where
  "code_b64url c \<longleftrightarrow> code_alnum c \<or> c = 95 \<or> c = 45"

definition code_hex :: "nat \<Rightarrow> bool" where
  "code_hex c \<longleftrightarrow> code_digit c \<or> 97 \<le> c \<and> c \<le> 102"

definition ascii_kid :: "codes \<Rightarrow> bool" where
  "ascii_kid s \<longleftrightarrow> 1 \<le> length s \<and> length s \<le> 128 \<and> list_all (\<lambda>c. 33 \<le> c \<and> c \<le> 126) s"

definition thumbprint_ok :: "json \<Rightarrow> bool" where
  "thumbprint_ok v \<longleftrightarrow>
     (case v of
        JNull \<Rightarrow> True
      | JString s \<Rightarrow> 20 \<le> length s \<and> length s \<le> 128 \<and> list_all code_b64url s
      | _ \<Rightarrow> False)"

definition header_names_ok :: "members \<Rightarrow> bool" where
  "header_names_ok header \<longleftrightarrow>
     (let names = fst ` set header; needed = codes_of ` {''alg'', ''kid'', ''typ''} in
      names = needed \<or> names = insert (codes_of ''x5t'') needed)"

definition validated_header_kid :: "members \<Rightarrow> oidc_error + codes" where
  "validated_header_kid header =
     (if \<not> header_names_ok header then Inl oidc_invalid
      else case member_of header ''kid'' of
        JString kid \<Rightarrow>
          if member_of header ''alg'' \<noteq> JString (codes_of (algorithm OIDC_POLICY_V2)) \<or>
             member_of header ''typ'' \<noteq> JString (codes_of (token_type OIDC_POLICY_V2)) \<or>
             \<not> ascii_kid kid \<or> maximum_kid_bytes OIDC_POLICY_V2 < length kid \<or>
             \<not> thumbprint_ok (member_of header ''x5t'')
          then Inl oidc_invalid else Inr kid
      | _ \<Rightarrow> Inl oidc_invalid)"

text \<open>The three segments of a token that is ASCII and not too long.\<close>

definition token_segments :: "string \<Rightarrow> oidc_error + string \<times> string \<times> string" where
  "token_segments token =
     (if \<not> list_all is_ascii_char token \<or> token = [] \<or> maximum_jwt_bytes OIDC_POLICY_V2 < length token
      then Inl oidc_invalid
      else case split_on (CHR ''.'') token of
        [a, b, c] \<Rightarrow> if a = [] \<or> b = [] \<or> c = [] then Inl oidc_invalid else Inr (a, b, c)
      | _ \<Rightarrow> Inl oidc_invalid)"

definition decoded_object :: "nat \<Rightarrow> string \<Rightarrow> oidc_error + members" where
  "decoded_object limit segment =
     result_then (decode_segment segment) (json_object limit)"

definition github_oidc_key_id :: "nat \<Rightarrow> string \<Rightarrow> oidc_error + codes" where
  "github_oidc_key_id limit token =
     (case token_segments token of
        Inl e \<Rightarrow> Inl e
      | Inr (a, _, _) \<Rightarrow>
          result_then (decoded_object limit a) validated_header_kid)"

definition is_text :: "json \<Rightarrow> bool" where
  "is_text v \<longleftrightarrow> text_of v \<noteq> None"

definition select_jwk :: "members \<Rightarrow> codes \<Rightarrow> oidc_error + members" where
  "select_jwk jwks kid =
     (case member_of jwks ''keys'' of
        JArray keys \<Rightarrow>
          if 32 < length keys then Inl oidc_invalid
          else (case filter (\<lambda>k. is_object k \<and> member_of (attributes k) ''kid'' = JString kid) keys of
                  [k] \<Rightarrow>
                    (let key = attributes k in
                     if member_of key ''kty'' \<noteq> JString (codes_of ''RSA'') \<or>
                        member_of key ''use'' \<noteq> JString (codes_of ''sig'') \<or>
                        member_of key ''alg'' \<noteq> JString (codes_of (algorithm OIDC_POLICY_V2)) \<or>
                        \<not> is_text (member_of key ''n'') \<or> \<not> is_text (member_of key ''e'')
                     then Inl oidc_invalid else Inr key)
                | _ \<Rightarrow> Inl oidc_invalid)
      | _ \<Rightarrow> Inl oidc_invalid)"

section \<open>Claims\<close>

text \<open>Seconds since the epoch up to the last second of the year 9999.\<close>

definition time_claim :: "members \<Rightarrow> string \<Rightarrow> oidc_error + datetime" where
  "time_claim claims name =
     (case member_of claims name of
        JInt n \<Rightarrow> if n < 0 \<or> 253402300799 < n then Inl oidc_invalid else Inr (utc (seconds n))
      | _ \<Rightarrow> Inl oidc_invalid)"

definition positive_integer :: "members \<Rightarrow> string \<Rightarrow> oidc_error + int" where
  "positive_integer claims name =
     (case member_of claims name of
        JString s \<Rightarrow>
          if s = [] \<or> \<not> list_all code_digit s \<or> hd s = 48 then Inl oidc_invalid
          else if MAX_INT_DIGITS < length s then Inl Oidc_ValueError
          else if MAX_DATABASE_INTEGER < int (digits_value s) then Inl oidc_invalid
          else Inr (int (digits_value s))
      | _ \<Rightarrow> Inl oidc_invalid)"

definition string_claim :: "members \<Rightarrow> string \<Rightarrow> nat \<Rightarrow> oidc_error + codes" where
  "string_claim claims name maximum =
     (case member_of claims name of
        JString s \<Rightarrow> if s = [] \<or> maximum < length s \<or> 0 \<in> set s then Inl oidc_invalid else Inr s
      | _ \<Rightarrow> Inl oidc_invalid)"

definition matched_string :: "members \<Rightarrow> string \<Rightarrow> (codes \<Rightarrow> bool) \<Rightarrow> oidc_error + codes" where
  "matched_string claims name pattern =
     (case string_claim claims name 1024 of
        Inl e \<Rightarrow> Inl e | Inr s \<Rightarrow> if pattern s then Inr s else Inl oidc_invalid)"

definition repository_char :: "nat \<Rightarrow> bool" where
  "repository_char c \<longleftrightarrow> code_alnum c \<or> c \<in> {95, 46, 45}"

definition repository_pattern :: "codes \<Rightarrow> bool" where
  "repository_pattern s \<longleftrightarrow>
     (let owner = takeWhile (\<lambda>c. c \<noteq> 47) s; name = drop (length owner + 1) s in
      owner \<noteq> [] \<and> length owner \<le> 100 \<and> list_all repository_char owner \<and>
      name \<noteq> [] \<and> length name \<le> 100 \<and> list_all repository_char name)"

text \<open>The characters a branch name may not contain: NUL, and the first one also no control or space.\<close>

definition branch_char :: "nat \<Rightarrow> bool" where
  "branch_char c \<longleftrightarrow> c \<notin> {0, 126, 94, 58, 63, 42, 92, 91}"

definition BRANCH_PREFIX :: codes where "BRANCH_PREFIX = codes_of ''refs/heads/''"

definition ref_pattern :: "codes \<Rightarrow> bool" where
  "ref_pattern s \<longleftrightarrow>
     take (length BRANCH_PREFIX) s = BRANCH_PREFIX \<and>
     (case drop (length BRANCH_PREFIX) s of
        c # r \<Rightarrow> branch_char c \<and> 32 < c \<and> list_all branch_char r
      | [] \<Rightarrow> False)"

definition sha_pattern :: "codes \<Rightarrow> bool" where
  "sha_pattern s \<longleftrightarrow> length s = 40 \<and> list_all code_hex s"

text \<open>
  The claims in the order in which the code reads them.
\<close>

definition claims_of :: "members \<Rightarrow> datetime \<Rightarrow> datetime \<Rightarrow> datetime \<Rightarrow> oidc_error + oidc_claims" where
  "claims_of claims iat nbf expiry =
     result_then (string_claim claims ''sub'' 512) (\<lambda>subject.
      result_then (positive_integer claims ''repository_id'') (\<lambda>repository_id.
      result_then (positive_integer claims ''repository_owner_id'') (\<lambda>owner_id.
      result_then (matched_string claims ''repository'' repository_pattern) (\<lambda>repository.
      result_then (positive_integer claims ''run_id'') (\<lambda>run_id.
      result_then (positive_integer claims ''run_number'') (\<lambda>run_number.
      result_then (positive_integer claims ''run_attempt'') (\<lambda>run_attempt.
      result_then (matched_string claims ''sha'' sha_pattern) (\<lambda>sha.
      result_then (matched_string claims ''ref'' ref_pattern) (\<lambda>ref.
      result_then (string_claim claims ''event_name'' 64) (\<lambda>event_name.
      result_then (string_claim claims ''actor'' 128) (\<lambda>actor.
      result_then (positive_integer claims ''actor_id'') (\<lambda>actor_id.
      result_then (string_claim claims ''workflow_ref'' 1024) (\<lambda>workflow_ref.
      result_then (matched_string claims ''workflow_sha'' sha_pattern) (\<lambda>workflow_sha.
      result_then (string_claim claims ''jti'' 255) (\<lambda>jti.
        Inr \<lparr>oc_subject = subject, oc_repository_id = repository_id, oc_owner_id = owner_id,
             oc_repository = repository, oc_run_id = run_id, oc_run_number = run_number,
             oc_run_attempt = run_attempt, oc_sha = sha, oc_ref = ref, oc_event_name = event_name,
             oc_actor = actor, oc_actor_id = actor_id, oc_workflow_ref = workflow_ref,
             oc_workflow_sha = workflow_sha, oc_issued_at = iat, oc_not_before = nbf,
             oc_expires_at = expiry, oc_jti = jti\<rparr>)))))))))))))))"

definition times_ok :: "datetime \<Rightarrow> datetime \<Rightarrow> datetime \<Rightarrow> datetime \<Rightarrow> bool" where
  "times_ok now iat nbf expiry \<longleftrightarrow>
     (let skew = seconds (clock_skew_seconds OIDC_POLICY_V2) in
      \<not> (dt_le expiry iat \<or> dt_less iat nbf \<or>
         seconds (maximum_lifetime_seconds OIDC_POLICY_V2) < dt_instant expiry - dt_instant iat \<or>
         dt_less (dt_add now skew) iat \<or> dt_less (dt_add now skew) nbf \<or>
         dt_less expiry (dt_add now (- skew))))"

text \<open>The claims of a token whose signature has been verified.\<close>

definition validated_claims :: "string \<Rightarrow> datetime \<Rightarrow> members \<Rightarrow> oidc_error + oidc_claims" where
  "validated_claims audience now claims =
     (if \<not> list_all (\<lambda>name. map_of claims (codes_of name) \<noteq> None) OIDC_REQUIRED_CLAIMS then Inl oidc_invalid
      else if member_of claims ''iss'' \<noteq> JString (codes_of (issuer OIDC_POLICY_V2)) \<or>
              member_of claims ''aud'' \<noteq> JString (codes_of audience)
      then Inl oidc_invalid
      else if \<not> aware now then Inl oidc_invalid
      else result_then (time_claim claims ''iat'') (\<lambda>iat.
        result_then (time_claim claims ''nbf'') (\<lambda>nbf.
        result_then (time_claim claims ''exp'') (\<lambda>expiry.
          if times_ok now iat nbf expiry then claims_of claims iat nbf expiry else Inl oidc_invalid))))"

type_synonym signature_verifier = "bytes \<Rightarrow> bytes \<Rightarrow> members \<Rightarrow> bool"

definition signing_input :: "string \<Rightarrow> string \<Rightarrow> bytes" where
  "signing_input header claims = ascii_bytes (header @ ''.'' @ claims)"

definition authenticate_github_oidc ::
    "nat \<Rightarrow> signature_verifier \<Rightarrow> string \<Rightarrow> members \<Rightarrow> datetime \<Rightarrow> string \<Rightarrow> oidc_error + oidc_claims" where
  "authenticate_github_oidc limit verify audience jwks now token =
     result_then (github_oidc_key_id limit token) (\<lambda>expected_kid.
      result_then (token_segments token) (\<lambda>(a, b, c).
      result_then (decoded_object limit a) (\<lambda>header.
      result_then (decoded_object limit b) (\<lambda>claims.
      result_then (decode_segment c) (\<lambda>signature.
      result_then (validated_header_kid header) (\<lambda>kid.
        if kid \<noteq> expected_kid then Inl oidc_invalid
        else result_then (select_jwk jwks kid) (\<lambda>jwk.
          if \<not> verify (signing_input a b) signature jwk then Inl oidc_invalid
          else validated_claims audience now claims)))))))"

section \<open>The policy for a push\<close>

definition encode_subject_value :: "codes \<Rightarrow> codes" where
  "encode_subject_value s = concat (map (\<lambda>c. if c = 58 then codes_of ''%3A'' else [c]) s)"

definition expected_subjects :: "repository_trust \<Rightarrow> codes \<Rightarrow> codes \<Rightarrow> codes \<Rightarrow> codes list" where
  "expected_subjects trust owner name expected_ref =
     [codes_of ''repo:'' @ encode_subject_value (tr_full_name trust) @ codes_of '':ref:'' @
        encode_subject_value expected_ref,
      codes_of ''repo:'' @ encode_subject_value owner @ codes_of (''@'' @ decimal_int (tr_owner_id trust)) @
        codes_of ''/'' @ encode_subject_value name @
        codes_of (''@'' @ decimal_int (tr_repository_id trust) @ '':'') @ codes_of ''ref:'' @
        encode_subject_value expected_ref]"

definition authorize_default_branch_push :: "oidc_claims \<Rightarrow> repository_trust \<Rightarrow> oidc_error + unit" where
  "authorize_default_branch_push claims trust =
     (let expected_ref = BRANCH_PREFIX @ tr_default_branch trust;
          expected_workflow = tr_full_name trust @
            codes_of ''/.github/workflows/assurance-scan.yml@'' @ expected_ref;
          owner = takeWhile (\<lambda>c. c \<noteq> 47) (tr_full_name trust);
          name = drop (length owner + 1) (tr_full_name trust) in
      if oc_event_name claims \<noteq> codes_of ''push'' then Inl (Oidc_Validation ''unsupported_event'')
      else if oc_ref claims \<noteq> expected_ref then Inl (Oidc_Validation ''non_default_branch'')
      else if oc_repository_id claims \<noteq> tr_repository_id trust \<or>
              oc_owner_id claims \<noteq> tr_owner_id trust \<or> oc_repository claims \<noteq> tr_full_name trust
      then Inl (Oidc_Validation ''repository_not_authorized'')
      else if 47 \<notin> set (tr_full_name trust) then Inl Oidc_ValueError
      else if oc_workflow_ref claims \<noteq> expected_workflow \<or> oc_workflow_sha claims \<noteq> oc_sha claims \<or>
              oc_subject claims \<notin> set (expected_subjects trust owner name expected_ref)
      then Inl oidc_invalid else Inr ())"

section \<open>Binding the uploaded metadata\<close>

definition expected_producer :: "oidc_claims \<Rightarrow> members" where
  "expected_producer claims =
     [(codes_of ''kind'', JString (codes_of ''github-actions'')),
      (codes_of ''repository_id'', JInt (oc_repository_id claims)),
      (codes_of ''repository_owner_id'', JInt (oc_owner_id claims)),
      (codes_of ''run_id'', JInt (oc_run_id claims)),
      (codes_of ''run_number'', JInt (oc_run_number claims)),
      (codes_of ''run_attempt'', JInt (oc_run_attempt claims)),
      (codes_of ''event_name'', JString (oc_event_name claims)),
      (codes_of ''workflow_ref'', JString (oc_workflow_ref claims)),
      (codes_of ''workflow_sha'', JString (oc_workflow_sha claims)),
      (codes_of ''actor'', JString (oc_actor claims)),
      (codes_of ''actor_id'', JInt (oc_actor_id claims))]"

definition without_prefix :: "codes \<Rightarrow> codes \<Rightarrow> codes" where
  "without_prefix p s = (if take (length p) s = p then drop (length p) s else s)"

definition validate_github_payload_metadata :: "oidc_claims \<Rightarrow> members \<Rightarrow> oidc_error + unit" where
  "validate_github_payload_metadata claims md =
     (case (member_of md ''repository'', member_of md ''producer'') of
        (JObject repository, JObject producer) \<Rightarrow>
          if member_of repository ''provider'' \<noteq> JString (codes_of ''github'') \<or>
             member_of repository ''full_name'' \<noteq> JString (oc_repository claims) \<or>
             member_of md ''commit'' \<noteq> JString (oc_sha claims) \<or>
             member_of md ''ref'' \<noteq> JString (oc_ref claims) \<or>
             member_of md ''branch'' \<noteq> JString (without_prefix BRANCH_PREFIX (oc_ref claims)) \<or>
             member_of md ''working_tree_dirty'' \<noteq> JBool False \<or>
             \<not> py_equal (JObject producer) (JObject (expected_producer claims))
          then Inl (Oidc_Validation ''artifact_mismatch'') else Inr ()
      | _ \<Rightarrow> Inl (Oidc_Validation ''artifact_mismatch''))"

section \<open>The replay fence\<close>

record replay_row =
  rp_jti_digest :: bytes
  rp_repository_id :: int
  rp_consumed_at :: datetime
  rp_expires_at :: datetime

text \<open>
  The table refuses a second row of a digest and a row that breaks a constraint: a digest has 32
  bytes, a repository id is positive, and a row expires after it was consumed.  The refusal is
  the answer \<^verbatim>\<open>False\<close>.
\<close>

definition replay_consume ::
    "bool \<Rightarrow> bytes \<Rightarrow> int \<Rightarrow> datetime \<Rightarrow> datetime \<Rightarrow> replay_row list \<Rightarrow> oidc_error + bool \<times> replay_row list" where
  "replay_consume in_transaction digest repository_id consumed_at expires_at rows =
     (if in_transaction then Inl Oidc_RuntimeError
      else if digest \<in> rp_jti_digest ` set rows \<or> length digest \<noteq> 32 \<or> repository_id \<le> 0 \<or>
              dt_le expires_at consumed_at
      then Inr (False, rows)
      else Inr (True, rows @ [\<lparr>rp_jti_digest = digest, rp_repository_id = repository_id,
                              rp_consumed_at = consumed_at, rp_expires_at = expires_at\<rparr>]))"

definition replay_purge_expired :: "datetime \<Rightarrow> replay_row list \<Rightarrow> nat \<times> replay_row list" where
  "replay_purge_expired now rows =
     (count_where (\<lambda>r. dt_le (rp_expires_at r) now) rows, delete_where (\<lambda>r. dt_le (rp_expires_at r) now) rows)"

definition consume_github_oidc_jti ::
    "(bytes \<Rightarrow> bytes) \<Rightarrow> oidc_claims \<Rightarrow> datetime \<Rightarrow> replay_row list \<Rightarrow> oidc_error + replay_row list" where
  "consume_github_oidc_jti sha claims now rows =
     (if \<not> aware now then Inl oidc_invalid
      else case utf8_encode (oc_jti claims) of
        None \<Rightarrow> Inl Oidc_UnicodeError
      | Some jti \<Rightarrow>
          (case replay_consume False (sha jti) (oc_repository_id claims) now
                  (dt_add (oc_expires_at claims)
                    (seconds (consumed_jti_extra_retention_seconds OIDC_POLICY_V2))) rows of
             Inl e \<Rightarrow> Inl e
           | Inr (consumed, rows') \<Rightarrow>
               if consumed then Inr rows' else Inl (Oidc_Validation ''oidc_replayed'')))"

section \<open>A token is accepted once\<close>

text \<open>
  A run of the server: uploads present a token under the keys of the moment, and the retention
  job purges; every event happens some microseconds after the one before.  The run lists the
  claims whose replay evidence was consumed.
\<close>

datatype replay_event = Upload_token members string | Purge_replays

record oidc_env =
  ov_limit :: nat
  ov_verify :: signature_verifier
  ov_sha :: "bytes \<Rightarrow> bytes"
  ov_audience :: string

definition accept_token ::
    "oidc_env \<Rightarrow> members \<Rightarrow> string \<Rightarrow> datetime \<Rightarrow> replay_row list \<Rightarrow> oidc_error + oidc_claims \<times> replay_row list" where
  "accept_token env jwks token now rows =
     result_then (authenticate_github_oidc (ov_limit env) (ov_verify env) (ov_audience env) jwks now token) (\<lambda>claims.
     result_then (consume_github_oidc_jti (ov_sha env) claims now rows) (\<lambda>rows'. Inr (claims, rows')))"

fun replay_run ::
    "oidc_env \<Rightarrow> int \<Rightarrow> replay_row list \<Rightarrow> (nat \<times> replay_event) list \<Rightarrow> oidc_claims list" where
  "replay_run env t rows [] = []"
| "replay_run env t rows ((delay, Purge_replays) # events) =
     replay_run env (t + int delay) (snd (replay_purge_expired (utc (t + int delay)) rows)) events"
| "replay_run env t rows ((delay, Upload_token jwks token) # events) =
     (case accept_token env jwks token (utc (t + int delay)) rows of
        Inl e \<Rightarrow> replay_run env (t + int delay) rows events
      | Inr (claims, rows') \<Rightarrow> claims # replay_run env (t + int delay) rows' events)"

definition replay_key :: "oidc_claims \<Rightarrow> codes \<times> datetime" where
  "replay_key claims = (oc_jti claims, oc_expires_at claims)"

text \<open>As long as the claims could still be accepted, a row refuses their digest.\<close>

definition fenced :: "oidc_env \<Rightarrow> int \<Rightarrow> codes \<times> datetime \<Rightarrow> replay_row list \<Rightarrow> bool" where
  "fenced env t key rows \<longleftrightarrow>
     (t \<le> dt_instant (snd key) + seconds 60 \<longrightarrow>
       (\<exists>r \<in> set rows. map_option (ov_sha env) (utf8_encode (fst key)) = Some (rp_jti_digest r) \<and>
          dt_instant (snd key) + seconds 300 \<le> dt_instant (rp_expires_at r)))"

lemma authenticated_times:
  assumes "authenticate_github_oidc limit verify audience jwks now token = Inr claims"
  shows "dt_instant now \<le> dt_instant (oc_expires_at claims) + seconds 60"
proof -
  from assms obtain a b c header raw signature kid jwk where
    "validated_claims audience now raw = Inr claims"
    by (auto simp: authenticate_github_oidc_def result_then_ok split: if_splits)
  then obtain iat nbf expiry where "times_ok now iat nbf expiry" "claims_of raw iat nbf expiry = Inr claims"
    by (auto simp: validated_claims_def result_then_ok split: if_splits)
  moreover from this(2) have "oc_expires_at claims = expiry" by (auto simp: claims_of_def result_then_ok)
  ultimately show ?thesis
    by (simp add: times_ok_def OIDC_POLICY_V2_def Let_def dt_less_def dt_add_def)
qed

lemma consumed_row:
  assumes "consume_github_oidc_jti sha claims now rows = Inr rows'"
  shows "\<exists>jti r. utf8_encode (oc_jti claims) = Some jti \<and> sha jti \<notin> rp_jti_digest ` set rows \<and>
    rows' = rows @ [r] \<and> rp_jti_digest r = sha jti \<and>
    dt_instant (rp_expires_at r) = dt_instant (oc_expires_at claims) + seconds 300"
  using assms
  by (auto simp: consume_github_oidc_jti_def replay_consume_def OIDC_POLICY_V2_def dt_add_def
      split: if_splits option.splits)

lemma accepted_fenced:
  assumes "accept_token env jwks token now rows = Inr (claims, rows')"
  shows "fenced env t (replay_key claims) rows'"
  using assms consumed_row [of "ov_sha env" claims now rows rows']
  by (auto simp: accept_token_def result_then_ok fenced_def replay_key_def)

lemma fenced_accepted:
  assumes "fenced env t key rows" "t \<le> dt_instant now"
    and "accept_token env jwks token now rows = Inr (claims, rows')"
  shows "replay_key claims \<noteq> key \<and> fenced env (dt_instant now) key rows'"
proof -
  from assms(3) have c: "consume_github_oidc_jti (ov_sha env) claims now rows = Inr rows'"
    and live: "dt_instant now \<le> dt_instant (oc_expires_at claims) + seconds 60"
    by (auto simp: accept_token_def result_then_ok dest: authenticated_times)
  have "replay_key claims \<noteq> key"
    using consumed_row [OF c] live assms(1,2) by (auto simp: fenced_def replay_key_def)
  moreover have "fenced env (dt_instant now) key rows'"
    using consumed_row [OF c] assms(1,2) by (auto simp: fenced_def)
  ultimately show ?thesis by blast
qed

lemma fenced_purge:
  assumes "fenced env t key rows" "t \<le> dt_instant now"
  shows "fenced env (dt_instant now) key (snd (replay_purge_expired now rows))"
  using assms by (fastforce simp: fenced_def replay_purge_expired_def delete_where_def dt_le_def seconds_def)

lemma fenced_later: "fenced env t key rows \<Longrightarrow> t \<le> t' \<Longrightarrow> fenced env t' key rows"
  by (auto simp: fenced_def)

lemma fenced_never_accepted:
  "fenced env t key rows \<Longrightarrow> key \<notin> replay_key ` set (replay_run env t rows events)"
proof (induction env t rows events rule: replay_run.induct)
  case (2 env t rows delay events)
  then show ?case using fenced_purge [of env t key rows "utc (t + int delay)"] by (simp add: dt_instant_utc)
next
  case (3 env t rows delay jwks token events)
  show ?case
  proof (cases "accept_token env jwks token (utc (t + int delay)) rows")
    case (Inl e)
    with 3 fenced_later [OF 3(3)] show ?thesis by simp
  next
    case (Inr p)
    obtain claims rows' where p: "p = (claims, rows')" by fastforce
    from fenced_accepted [OF 3(3) _ Inr [unfolded p]]
    have "replay_key claims \<noteq> key" "fenced env (t + int delay) key rows'" by (simp_all add: dt_instant_utc)
    with 3(2) Inr p show ?thesis by auto
  qed
qed simp

text \<open>
  C6. However uploads and purges of expired evidence follow one another, no claims are accepted
  twice: the evidence of a token outlives every moment at which the token can still be validated.
\<close>

theorem token_accepted_once:
  "distinct (map replay_key (replay_run env t rows events))"
proof (induction env t rows events rule: replay_run.induct)
  case (3 env t rows delay jwks token events)
  show ?case
  proof (cases "accept_token env jwks token (utc (t + int delay)) rows")
    case (Inr p)
    obtain claims rows' where p: "p = (claims, rows')" by fastforce
    note fenced_never_accepted [OF accepted_fenced [OF Inr [unfolded p]]]
    with 3(2) Inr p show ?thesis by (simp add: dt_instant_utc)
  qed (use 3 in simp)
qed simp_all

end
