(* ===== verification/Github_Actions_Auth.thy ===== *)
theory Github_Actions_Auth
  imports Github_Oidc Project_Access Result_Persist
begin

text \<open>
  Authorization of one upload of GitHub Actions (\<^verbatim>\<open>workflows/github_actions_authentication\<close>
  over \<^verbatim>\<open>repositories/github_upload_authorization.py\<close> and
  \<^verbatim>\<open>repositories/github_oidc_replays.py\<close>): the active installation scope of the signed
  repository is read, the repository is fetched from GitHub, the push policy is checked, the scope
  is read again and refreshed under a lock, and the token's replay evidence is consumed.  What
  GitHub answers is a parameter; other workers may change the database between the transactions.
\<close>

section \<open>Tables\<close>

record scope_row =
  sp_installation_id :: int
  sp_repository_id :: int
  sp_project_id :: "int option"
  sp_full_name :: string
  sp_owner_id :: int
  sp_default_branch :: string
  sp_visibility :: repo_visibility
  sp_archived :: bool
  sp_disabled :: bool
  sp_verified_at :: datetime
  sp_removed_at :: "datetime option"
  sp_updated_at :: datetime

record app_installation_row =
  il_installation_id :: int
  il_owner_id :: int
  il_suspended_at :: "datetime option"
  il_deleted_at :: "datetime option"

record upload_project = project_row +
  up_lifecycle_state :: string
  up_default_scan_ref :: "string option"

record auth_db =
  ad_scopes :: "scope_row list"
  ad_installations :: "app_installation_row list"
  ad_projects :: "upload_project list"
  ad_replays :: "replay_row list"

record upload_candidate =
  cn_installation_id :: int
  cn_repository_id :: int
  cn_owner_id :: int
  cn_project_id :: int

record upload_principal =
  pr_project_id :: int
  pr_repository_id :: int
  pr_owner_id :: int
  pr_run_id :: int
  pr_run_attempt :: int

text \<open>Exceptions; what GitHub or its client raises is not looked into.\<close>

datatype auth_exn =
    Auth_oidc oidc_error
  | Auth_multiple_rows
  | Auth_repository_identity string
  | Auth_github string

type_synonym 'a auth_op = "(auth_db session, auth_exn, 'a) op"

section \<open>The active scope of a repository\<close>

definition active_scope :: "int \<Rightarrow> scope_row \<Rightarrow> app_installation_row \<Rightarrow> upload_project \<Rightarrow> bool" where
  "active_scope repository_id s i p \<longleftrightarrow>
     il_installation_id i = sp_installation_id s \<and> sp_project_id s = Some (pj_id p) \<and>
     sp_repository_id s = repository_id \<and> sp_removed_at s = None \<and> \<not> sp_disabled s \<and>
     \<not> sp_archived s \<and> il_suspended_at i = None \<and> il_deleted_at i = None \<and> \<not> pj_hidden p \<and>
     up_lifecycle_state p = ''active''"

definition active_rows :: "int \<Rightarrow> auth_db \<Rightarrow> (scope_row \<times> app_installation_row \<times> upload_project) list" where
  "active_rows repository_id d =
     filter (\<lambda>(s, i, p). active_scope repository_id s i p)
       (List.product (ad_scopes d) (List.product (ad_installations d) (ad_projects d)))"

definition one_or_none :: "'a list \<Rightarrow> auth_exn + 'a option" where
  "one_or_none rows = (case rows of [] \<Rightarrow> Inr None | [r] \<Rightarrow> Inr (Some r) | _ \<Rightarrow> Inl Auth_multiple_rows)"

definition candidate_of :: "scope_row \<times> app_installation_row \<times> upload_project \<Rightarrow> upload_candidate" where
  "candidate_of row =
     (case row of (s, i, p) \<Rightarrow>
        \<lparr>cn_installation_id = sp_installation_id s, cn_repository_id = sp_repository_id s,
         cn_owner_id = il_owner_id i, cn_project_id = pj_id p\<rparr>)"

definition load_active :: "int \<Rightarrow> upload_candidate option auth_op" where
  "load_active repository_id =
     and_then (statement (\<lambda>d. result_then (one_or_none (active_rows repository_id d))
                                (\<lambda>row. Inr (map_option candidate_of row, d))))
       (\<lambda>candidate. and_then rollback (\<lambda>_. return_op candidate))"

text \<open>The recheck against the candidate and the fetched metadata.\<close>

definition still_valid ::
    "upload_candidate \<Rightarrow> repository_snapshot \<Rightarrow> scope_row \<times> app_installation_row \<times> upload_project \<Rightarrow> bool" where
  "still_valid candidate snapshot row \<longleftrightarrow>
     (case row of (s, i, p) \<Rightarrow>
        sp_installation_id s = cn_installation_id candidate \<and> pj_id p = cn_project_id candidate \<and>
        il_owner_id i = cn_owner_id candidate \<and>
        rs_repository_id snapshot = cn_repository_id candidate \<and>
        rs_owner_id snapshot = cn_owner_id candidate \<and> \<not> rs_archived snapshot \<and> \<not> rs_disabled snapshot)"

definition refresh_scope :: "repository_snapshot \<Rightarrow> datetime \<Rightarrow> scope_row \<Rightarrow> scope_row" where
  "refresh_scope snapshot verified_at s =
     s\<lparr>sp_full_name := rs_full_name snapshot, sp_owner_id := rs_owner_id snapshot,
       sp_default_branch := rs_default_branch snapshot, sp_visibility := rs_visibility snapshot,
       sp_archived := rs_archived snapshot, sp_disabled := rs_disabled snapshot,
       sp_verified_at := verified_at, sp_updated_at := verified_at\<rparr>"

definition refresh_project :: "repository_snapshot \<Rightarrow> string \<Rightarrow> upload_project \<Rightarrow> upload_project" where
  "refresh_project snapshot key p =
     p\<lparr>pj_repo := Some (rs_full_name snapshot), pj_repo_key := Some key,
       pj_repository_id := Some (rs_repository_id snapshot),
       up_default_scan_ref := Some (''refs/heads/'' @ rs_default_branch snapshot)\<rparr>"

text \<open>The unique indexes of the projects.\<close>

definition projects_unique :: "upload_project list \<Rightarrow> bool" where
  "projects_unique ps \<longleftrightarrow>
     distinct (filter (\<lambda>k. k \<noteq> None) (map pj_repo_key ps)) \<and>
     distinct (filter (\<lambda>k. k \<noteq> None) (map pj_repository_id ps))"

definition refreshed ::
    "repository_snapshot \<Rightarrow> datetime \<Rightarrow> string \<Rightarrow> scope_row \<times> app_installation_row \<times> upload_project \<Rightarrow> auth_db \<Rightarrow> auth_db" where
  "refreshed snapshot verified_at key row d =
     (case row of (s, i, p) \<Rightarrow>
        d\<lparr>ad_scopes := update_where (\<lambda>r. sp_repository_id r = sp_repository_id s) (refresh_scope snapshot verified_at)
            (ad_scopes d),
          ad_projects := update_where (\<lambda>r. pj_id r = pj_id p) (refresh_project snapshot key) (ad_projects d)\<rparr>)"

text \<open>
  The answer is the project and whether the constraints of the tables accept the refreshed rows,
  which the commit finds out.
\<close>

definition confirm_rows ::
    "(string \<Rightarrow> bool) \<Rightarrow> upload_candidate \<Rightarrow> repository_snapshot \<Rightarrow> datetime \<Rightarrow> auth_db
     \<Rightarrow> auth_exn + (int \<times> bool) option \<times> auth_db" where
  "confirm_rows netloc_ok candidate snapshot verified_at d =
     result_then (one_or_none (active_rows (cn_repository_id candidate) d)) (\<lambda>found.
       case found of
         None \<Rightarrow> Inr (None, d)
       | Some row \<Rightarrow>
           if \<not> still_valid candidate snapshot row then Inr (None, d)
           else (case normalize_github_repository_key netloc_ok (rs_full_name snapshot) of
                   Inl message \<Rightarrow> Inl (Auth_repository_identity message)
                 | Inr key \<Rightarrow>
                     (let d' = refreshed snapshot verified_at key row d in
                      if projects_unique (ad_projects d')
                      then Inr (Some (pj_id (snd (snd row)), True), d')
                      else Inr (Some (pj_id (snd (snd row)), False), d))))"

definition confirm ::
    "(string \<Rightarrow> bool) \<Rightarrow> upload_candidate \<Rightarrow> repository_snapshot \<Rightarrow> datetime \<Rightarrow> int option auth_op" where
  "confirm netloc_ok candidate snapshot verified_at =
     and_then (statement (confirm_rows netloc_ok candidate snapshot verified_at)) (\<lambda>found.
       case found of
         None \<Rightarrow> and_then rollback (\<lambda>_. return_op None)
       | Some (project_id, accepted) \<Rightarrow>
           if accepted then and_then commit (\<lambda>_. return_op (Some project_id))
           else and_then rollback (\<lambda>_. return_op None))"

section \<open>The workflow\<close>

record auth_env =
  av_netloc_ok :: "string \<Rightarrow> bool"
  av_sha :: "bytes \<Rightarrow> bytes"
  av_repository :: "int \<Rightarrow> codes \<Rightarrow> datetime \<Rightarrow> auth_exn + repository_snapshot"

definition refuse :: "string \<Rightarrow> 'a auth_op" where
  "refuse code = raise_op (Auth_oidc (Oidc_Validation code))"

definition trust_of :: "repository_snapshot \<Rightarrow> repository_trust" where
  "trust_of snapshot =
     \<lparr>tr_repository_id = rs_repository_id snapshot, tr_owner_id = rs_owner_id snapshot,
      tr_full_name = codes_of (rs_full_name snapshot),
      tr_default_branch = codes_of (rs_default_branch snapshot)\<rparr>"

definition snapshot_of_claims :: "oidc_claims \<Rightarrow> repository_snapshot \<Rightarrow> bool" where
  "snapshot_of_claims claims snapshot \<longleftrightarrow>
     rs_repository_id snapshot = oc_repository_id claims \<and> rs_owner_id snapshot = oc_owner_id claims \<and>
     codes_of (rs_full_name snapshot) = oc_repository claims \<and> \<not> rs_archived snapshot \<and>
     \<not> rs_disabled snapshot"

definition consume_op :: "auth_env \<Rightarrow> oidc_claims \<Rightarrow> datetime \<Rightarrow> unit auth_op" where
  "consume_op env claims now =
     and_then (statement (\<lambda>d. case consume_github_oidc_jti (av_sha env) claims now (ad_replays d) of
                                Inl e \<Rightarrow> Inl (Auth_oidc e)
                              | Inr rows \<Rightarrow> Inr ((), d\<lparr>ad_replays := rows\<rparr>)))
       (\<lambda>_. commit)"

definition principal_of :: "oidc_claims \<Rightarrow> int \<Rightarrow> upload_principal" where
  "principal_of claims project_id =
     \<lparr>pr_project_id = project_id, pr_repository_id = oc_repository_id claims,
      pr_owner_id = oc_owner_id claims, pr_run_id = oc_run_id claims,
      pr_run_attempt = oc_run_attempt claims\<rparr>"

definition confirm_and_consume ::
    "auth_env \<Rightarrow> oidc_claims \<Rightarrow> datetime \<Rightarrow> upload_candidate \<Rightarrow> repository_snapshot \<Rightarrow> upload_principal auth_op" where
  "confirm_and_consume env claims now candidate snapshot =
     and_then (or_raise Auth_oidc (authorize_default_branch_push claims (trust_of snapshot))) (\<lambda>_.
     and_then (confirm (av_netloc_ok env) candidate snapshot now) (\<lambda>project_id.
       case project_id of
         None \<Rightarrow> refuse ''stale_entitlement''
       | Some project \<Rightarrow> and_then (consume_op env claims now) (\<lambda>_. return_op (principal_of claims project))))"

definition authorize_github_actions_upload ::
    "auth_env \<Rightarrow> oidc_claims \<Rightarrow> datetime \<Rightarrow> upload_principal auth_op" where
  "authorize_github_actions_upload env claims now =
     and_then (load_active (oc_repository_id claims)) (\<lambda>found.
       case found of
         None \<Rightarrow> refuse ''repository_not_authorized''
       | Some candidate \<Rightarrow>
           if cn_owner_id candidate \<noteq> oc_owner_id claims then refuse ''repository_not_authorized''
           else and_then (or_raise id (av_repository env (cn_installation_id candidate) (oc_repository claims) now))
             (\<lambda>snapshot.
               if \<not> snapshot_of_claims claims snapshot then refuse ''repository_not_authorized''
               else confirm_and_consume env claims now candidate snapshot))"

section \<open>What an authorized upload has shown\<close>

text \<open>
  In the transaction that confirmed the upload, the database before it had an active scope of the
  claimed repository and owner for the project; the replay evidence was not touched.
\<close>

definition granted :: "oidc_claims \<Rightarrow> int \<Rightarrow> auth_db \<times> auth_db \<Rightarrow> bool" where
  "granted claims project_id e \<longleftrightarrow>
     ad_replays (snd e) = ad_replays (fst e) \<and>
     (\<exists>(s, i, p) \<in> set (active_rows (oc_repository_id claims) (fst e)).
        il_owner_id i = oc_owner_id claims \<and> pj_id p = project_id)"

text \<open>The transaction that consumed the token added one row, of a digest that was not there.\<close>

definition spent :: "(bytes \<Rightarrow> bytes) \<Rightarrow> oidc_claims \<Rightarrow> auth_db \<times> auth_db \<Rightarrow> bool" where
  "spent sha claims e \<longleftrightarrow>
     (\<exists>r. ad_replays (snd e) = ad_replays (fst e) @ [r] \<and>
        map_option sha (utf8_encode (oc_jti claims)) = Some (rp_jti_digest r) \<and>
        rp_jti_digest r \<notin> rp_jti_digest ` set (ad_replays (fst e)))"

definition unspent :: "auth_db session \<Rightarrow> bool" where
  "unspent s \<longleftrightarrow> list_all (\<lambda>e. ad_replays (snd e) = ad_replays (fst e)) (se_log s)"

lemma load_active_idle:
  "triple (\<lambda>s. idle s \<and> se_log s = []) (load_active repository_id)
     (\<lambda>found s. idle s \<and> se_log s = [] \<and>
        (\<forall>c. found = Some c \<longrightarrow> cn_repository_id c = repository_id)) unspent"
proof -
  have "triple (\<lambda>s. idle s \<and> se_log s = [])
      (statement (\<lambda>d. result_then (one_or_none (active_rows repository_id d))
                        (\<lambda>row. Inr (map_option candidate_of row, d))))
      (\<lambda>found s. idle s \<and> se_log s = [] \<and> (\<forall>c. found = Some c \<longrightarrow> cn_repository_id c = repository_id)) unspent"
    by (rule triple_statement)
      (auto simp: fault_free_def unspent_def idle_def result_then_ok one_or_none_def candidate_of_def active_rows_def
        active_scope_def filter_eq_Cons_iff split: list.splits)
  then show ?thesis
    unfolding load_active_def
  proof (rule triple_and_then)
    fix found
    let ?P = "\<lambda>s. idle s \<and> se_log s = [] \<and> (\<forall>c. found = Some c \<longrightarrow> cn_repository_id c = repository_id)"
    have "triple ?P rollback (\<lambda>_. ?P) ?P"
      by (rule triple_rollback) (auto simp: fault_free_def)
    then have "triple ?P rollback (\<lambda>_. ?P) unspent"
      by (rule triple_weaken) (auto simp: unspent_def)
    then show "triple ?P (and_then rollback (\<lambda>_. return_op found)) (\<lambda>found s. idle s \<and> se_log s = [] \<and>
        (\<forall>c. found = Some c \<longrightarrow> cn_repository_id c = repository_id)) unspent"
      by (rule triple_and_then) (rule triple_return)
  qed
qed

lemma one_or_none_member: "one_or_none rows = Inr (Some r) \<Longrightarrow> r \<in> set rows"
  by (auto simp: one_or_none_def split: list.splits)

lemma confirm_rows_granted:
  assumes "confirm_rows netloc_ok candidate snapshot now d = Inr (Some (project, True), d')"
    and "cn_repository_id candidate = oc_repository_id claims" "cn_owner_id candidate = oc_owner_id claims"
  shows "granted claims project (d, d')"
proof -
  from assms(1) obtain found where found: "one_or_none (active_rows (oc_repository_id claims) d) = Inr found"
    and body: "(case found of None \<Rightarrow> Inr (None, d)
       | Some row \<Rightarrow>
           if \<not> still_valid candidate snapshot row then Inr (None, d)
           else (case normalize_github_repository_key netloc_ok (rs_full_name snapshot) of
                   Inl message \<Rightarrow> Inl (Auth_repository_identity message)
                 | Inr key \<Rightarrow>
                     (let d' = refreshed snapshot now key row d in
                      if projects_unique (ad_projects d')
                      then Inr (Some (pj_id (snd (snd row)), True), d')
                      else Inr (Some (pj_id (snd (snd row)), False), d)))) = Inr (Some (project, True), d')"
    unfolding confirm_rows_def result_then_ok assms(2) by blast
  obtain row where some: "found = Some row" using body by (cases found) simp_all
  obtain key where row: "one_or_none (active_rows (oc_repository_id claims) d) = Inr (Some row)"
      "still_valid candidate snapshot row" "project = pj_id (snd (snd row))" "d' = refreshed snapshot now key row d"
    using found body unfolding some option.case by (auto simp: Let_def split: if_splits sum.splits)
  obtain s i p where p: "row = (s, i, p)" by (cases row)
  have "(s, i, p) \<in> set (active_rows (oc_repository_id claims) d)" using one_or_none_member [OF row(1)] p by simp
  moreover have "il_owner_id i = oc_owner_id claims" "pj_id p = project" "ad_replays d' = ad_replays d"
    using row(2-4) p assms(3) by (simp_all add: still_valid_def refreshed_def)
  ultimately show ?thesis by (auto simp: granted_def)
qed

lemma confirm_grants:
  assumes "cn_repository_id candidate = oc_repository_id claims" "cn_owner_id candidate = oc_owner_id claims"
  shows "triple (\<lambda>s. idle s \<and> se_log s = []) (confirm netloc_ok candidate snapshot now)
     (\<lambda>found s. idle s \<and> (case found of None \<Rightarrow> se_log s = []
        | Some project \<Rightarrow> \<exists>e. se_log s = [e] \<and> granted claims project e)) unspent"
proof -
  let ?found = "\<lambda>found s. se_log s = [] \<and>
    (\<forall>project. found = Some (project, True) \<longrightarrow> granted claims project (se_saved s, se_work s))"
  have read: "triple (\<lambda>s. idle s \<and> se_log s = []) (statement (confirm_rows netloc_ok candidate snapshot now))
      ?found unspent"
  proof (rule triple_statement)
    fix s :: "auth_db session" and found d
    assume "idle s \<and> se_log s = []" "confirm_rows netloc_ok candidate snapshot now (se_work s) = Inr (found, d)"
    then show "?found found (s\<lparr>se_work := d\<rparr>)"
      using confirm_rows_granted [OF _ assms, of netloc_ok snapshot now "se_saved s" _ d] by (auto simp: idle_def)
  qed (auto simp: fault_free_def unspent_def)
  have undone: "triple (?found found) rollback (\<lambda>_ s. idle s \<and> se_log s = []) unspent" for found
  proof -
    have "triple (?found found) rollback (\<lambda>_ s. idle s \<and> se_log s = []) (\<lambda>s. idle s \<and> se_log s = [])"
      by (rule triple_rollback) (auto simp: fault_free_def)
    then show ?thesis by (rule triple_weaken) (auto simp: unspent_def)
  qed
  have granted: "triple (?found (Some (project, True))) commit
      (\<lambda>_ s. idle s \<and> (\<exists>e. se_log s = [e] \<and> granted claims project e)) unspent" for project
    by (rule triple_commit) (auto simp: fault_free_def unspent_def)
  let ?Q = "\<lambda>found s. idle s \<and> (case found of None \<Rightarrow> se_log s = []
     | Some project \<Rightarrow> \<exists>e. se_log s = [e] \<and> granted claims project e)"
  have refused: "triple (?found found) (and_then rollback (\<lambda>_. return_op None)) ?Q unspent" for found
    by (rule triple_and_then [OF undone], rule triple_return) simp
  have accepted: "triple (?found (Some (project, True))) (and_then commit (\<lambda>_. return_op (Some project))) ?Q unspent"
    for project
    by (rule triple_and_then [OF granted], rule triple_return) simp
  show ?thesis
    unfolding confirm_def
  proof (rule triple_and_then [OF read])
    fix found :: "(int \<times> bool) option"
    show "triple (?found found)
        (case found of None \<Rightarrow> and_then rollback (\<lambda>_. return_op None)
         | Some (project, accepted) \<Rightarrow>
             if accepted then and_then commit (\<lambda>_. return_op (Some project))
             else and_then rollback (\<lambda>_. return_op None))
        (\<lambda>found s. idle s \<and> (case found of None \<Rightarrow> se_log s = []
           | Some project \<Rightarrow> \<exists>e. se_log s = [e] \<and> granted claims project e)) unspent"
    proof (cases found)
      case None
      with refused [of None] show ?thesis by simp
    next
      case (Some p)
      obtain project ok where "p = (project, ok)" by (cases p)
      with Some refused [of found] accepted [of project] show ?thesis by (cases ok) simp_all
    qed
  qed
qed

lemma consume_spends:
  assumes "granted claims project e"
  shows "triple (\<lambda>s. idle s \<and> se_log s = [e]) (consume_op env claims now)
    (\<lambda>_ s. \<exists>e'. se_log s = [e, e'] \<and> spent (av_sha env) claims e') unspent"
  unfolding consume_op_def
proof (rule triple_and_then)
  show "triple (\<lambda>s. idle s \<and> se_log s = [e])
      (statement (\<lambda>d. case consume_github_oidc_jti (av_sha env) claims now (ad_replays d) of
         Inl e \<Rightarrow> Inl (Auth_oidc e) | Inr rows \<Rightarrow> Inr ((), d\<lparr>ad_replays := rows\<rparr>)))
      (\<lambda>_ s. se_log s = [e] \<and> spent (av_sha env) claims (se_saved s, se_work s)) unspent"
  proof (rule triple_statement)
    fix s :: "auth_db session" and u d
    assume s: "idle s \<and> se_log s = [e]"
      and f: "(case consume_github_oidc_jti (av_sha env) claims now (ad_replays (se_work s)) of
         Inl e \<Rightarrow> Inl (Auth_oidc e) | Inr rows \<Rightarrow> Inr ((), se_work s\<lparr>ad_replays := rows\<rparr>)) = Inr (u, d)"
    then obtain rows where rows: "consume_github_oidc_jti (av_sha env) claims now (ad_replays (se_work s)) = Inr rows"
        "d = se_work s\<lparr>ad_replays := rows\<rparr>"
      by (auto split: sum.splits)
    from consumed_row [OF rows(1)] s rows(2)
    show "se_log (s\<lparr>se_work := d\<rparr>) = [e] \<and>
        spent (av_sha env) claims (se_saved (s\<lparr>se_work := d\<rparr>), se_work (s\<lparr>se_work := d\<rparr>))"
      by (auto simp: spent_def idle_def)
  qed (use assms in \<open>auto simp: fault_free_def unspent_def granted_def\<close>)
next
  show "triple (\<lambda>s. se_log s = [e] \<and> spent (av_sha env) claims (se_saved s, se_work s)) commit
      (\<lambda>_ s. \<exists>e'. se_log s = [e, e'] \<and> spent (av_sha env) claims e') unspent"
    by (rule triple_commit) (use assms in \<open>auto simp: fault_free_def unspent_def granted_def\<close>)
qed

text \<open>What a principal stands for, in a session that ran nothing else.\<close>

definition authorized_by :: "auth_env \<Rightarrow> oidc_claims \<Rightarrow> datetime \<Rightarrow> upload_principal \<Rightarrow> auth_db session \<Rightarrow> bool" where
  "authorized_by env claims now p s \<longleftrightarrow>
     (\<exists>installation snapshot confirmation consumption.
        se_log s = [confirmation, consumption] \<and>
        av_repository env installation (oc_repository claims) now = Inr snapshot \<and>
        snapshot_of_claims claims snapshot \<and>
        authorize_default_branch_push claims (trust_of snapshot) = Inr () \<and>
        granted claims (pr_project_id p) confirmation \<and> spent (av_sha env) claims consumption)"

lemma authorize_spends:
  "triple (\<lambda>s. idle s \<and> se_log s = []) (authorize_github_actions_upload env claims now)
     (authorized_by env claims now) unspent"
proof -
  define Q where "Q = authorized_by env claims now"
  have last: "triple (\<lambda>s. idle s \<and> (\<exists>e. se_log s = [e] \<and> granted claims project e))
      (and_then (consume_op env claims now) (\<lambda>_. return_op (principal_of claims project))) Q unspent"
    if known: "av_repository env i (oc_repository claims) now = Inr snapshot" "snapshot_of_claims claims snapshot"
      "authorize_default_branch_push claims (trust_of snapshot) = Inr ()" for i snapshot project
  proof (rule tripleI)
    fix s :: "auth_db session"
    assume "idle s \<and> (\<exists>e. se_log s = [e] \<and> granted claims project e)"
    then obtain e where e: "idle s" "se_log s = [e]" "granted claims project e" by blast
    have answered: "Q (principal_of claims project) s'"
      if "\<exists>e'. se_log s' = [e, e'] \<and> spent (av_sha env) claims e'" for s'
    proof -
      from that obtain e' where "se_log s' = [e, e']" "spent (av_sha env) claims e'" by blast
      with known e(3) have "se_log s' = [e, e'] \<and>
          av_repository env i (oc_repository claims) now = Inr snapshot \<and>
          snapshot_of_claims claims snapshot \<and>
          authorize_default_branch_push claims (trust_of snapshot) = Inr () \<and>
          granted claims (pr_project_id (principal_of claims project)) e \<and> spent (av_sha env) claims e'"
        by (simp add: principal_of_def)
      then show ?thesis unfolding Q_def authorized_by_def by (intro exI)
    qed
    have "triple (\<lambda>s. idle s \<and> se_log s = [e])
        (and_then (consume_op env claims now) (\<lambda>_. return_op (principal_of claims project))) Q unspent"
      by (rule triple_and_then [OF consume_spends [OF e(3)]], rule triple_return) (rule answered)
    from this [unfolded triple_def, THEN spec, of s] e(1,2)
    show "case and_then (consume_op env claims now) (\<lambda>_. return_op (principal_of claims project)) s of
        (Inl _, s') \<Rightarrow> unspent s' | (Inr p, s') \<Rightarrow> Q p s'"
      by simp
  qed
  have refused: "triple (\<lambda>s. idle s \<and> se_log s = []) (refuse code :: upload_principal auth_op) Q unspent" for code
    unfolding refuse_def by (rule triple_raise) (simp add: unspent_def)
  have confirmed: "triple (\<lambda>s. idle s \<and> se_log s = []) (confirm_and_consume env claims now candidate snapshot) Q unspent"
    if "av_repository env i (oc_repository claims) now = Inr snapshot" "snapshot_of_claims claims snapshot"
      "cn_repository_id candidate = oc_repository_id claims" "cn_owner_id candidate = oc_owner_id claims"
    for i snapshot candidate
    unfolding confirm_and_consume_def
  proof (rule triple_or_raise)
    fix u
    assume push: "authorize_default_branch_push claims (trust_of snapshot) = Inr u"
    show "triple (\<lambda>s. idle s \<and> se_log s = []) (and_then (confirm (av_netloc_ok env) candidate snapshot now)
        (\<lambda>project_id. case project_id of None \<Rightarrow> refuse ''stale_entitlement''
           | Some project \<Rightarrow> and_then (consume_op env claims now) (\<lambda>_. return_op (principal_of claims project))))
        Q unspent"
      by (rule triple_and_then [OF confirm_grants [OF that(3,4)]])
        (use last [OF that(1,2)] push refused in \<open>auto split: option.split\<close>)
  qed (simp add: unspent_def)
  have "triple (\<lambda>s. idle s \<and> se_log s = []) (authorize_github_actions_upload env claims now) Q unspent"
    unfolding authorize_github_actions_upload_def
  proof (rule triple_and_then [OF load_active_idle])
    fix found :: "upload_candidate option"
    let ?P = "\<lambda>s :: auth_db session. idle s \<and> se_log s = [] \<and>
      (\<forall>c. found = Some c \<longrightarrow> cn_repository_id c = oc_repository_id claims)"
    show "triple ?P (case found of None \<Rightarrow> refuse ''repository_not_authorized''
       | Some candidate \<Rightarrow>
           if cn_owner_id candidate \<noteq> oc_owner_id claims then refuse ''repository_not_authorized''
           else and_then (or_raise id (av_repository env (cn_installation_id candidate) (oc_repository claims) now))
             (\<lambda>snapshot.
               if \<not> snapshot_of_claims claims snapshot then refuse ''repository_not_authorized''
               else confirm_and_consume env claims now candidate snapshot)) Q unspent"
    proof (cases "\<forall>c. found = Some c \<longrightarrow> cn_repository_id c = oc_repository_id claims")
      case True
      then show ?thesis
        by (auto intro!: triple_case_option triple_if refused triple_or_raise confirmed simp: unspent_def)
    qed (auto simp: triple_def)
  qed
  then show ?thesis unfolding Q_def .
qed

text \<open>
  C4. An upload is authorized only if GitHub, asked during the request, described a repository
  with the signed ids and name that is neither archived nor disabled, the claims are those of a
  push to its default branch by its workflow, one transaction found an active scope of the claimed
  repository and owner for the project, and a last one consumed the token, whose digest was not
  recorded before.  A refused or failed authorization consumes no token.
\<close>

theorem upload_authorized_live:
  "case authorize_github_actions_upload env claims now (new_session faults others d) of
     (Inr p, s) \<Rightarrow> authorized_by env claims now p s
   | (Inl _, s) \<Rightarrow> unspent s"
  using authorize_spends [of env claims now, unfolded triple_def, THEN spec, of "new_session faults others d"]
  by (simp add: idle_def new_session_def split: prod.splits sum.splits)

end
