(* ===== verification/Multipart.thy ===== *)
theory Multipart
  imports Envelope_V2 "HOL-Library.AList"
begin

text \<open>
  The bounded multipart reader of the push route (\<^verbatim>\<open>api/multipart_ingest.py\<close>): headers are
  checked, the body is streamed through the parser of the \<^verbatim>\<open>python_multipart\<close> package, and
  a collector driven by the parser's callbacks keeps one bounded copy of each part.  The parser and
  its reader of option headers are parameters; nothing is assumed of the events the parser reports.
\<close>

section \<open>Errors\<close>

record upload_problem =
  wp_status :: int
  wp_code :: string
  wp_title :: string
  wp_detail :: string
  wp_limits :: "(string \<times> int) list"

definition upload_error :: "int \<Rightarrow> string \<Rightarrow> string \<Rightarrow> upload_problem" where
  "upload_error status code detail =
     \<lparr>wp_status = status, wp_code = code, wp_title = ''GitHub upload rejected'', wp_detail = detail,
      wp_limits = []\<rparr>"

definition shape_problem :: "string \<Rightarrow> upload_problem" where
  "shape_problem code = upload_error 400 code ''The multipart part set is invalid.''"

definition size_problem :: "string \<Rightarrow> int \<Rightarrow> upload_problem" where
  "size_problem name maximum =
     \<lparr>wp_status = 413, wp_code = ''wire_limit_exceeded'', wp_title = ''Upload limit exceeded'',
      wp_detail = ''The request exceeds an application size limit.'', wp_limits = [(name, maximum)]\<rparr>"

text \<open>A callback raises a problem of its own, or an exception that the reader translates.\<close>

datatype collect_error = Upload_problem upload_problem | Callback_raised

definition shape_error :: "string \<Rightarrow> collect_error + 'a" where
  "shape_error code = Inl (Upload_problem (shape_problem code))"

section \<open>Header text\<close>

definition ascii_bytes_of :: "string \<Rightarrow> bytes" where
  "ascii_bytes_of s = map of_char s"

definition byte_space :: "byte \<Rightarrow> bool" where
  "byte_space b \<longleftrightarrow> unat b \<in> {9, 10, 11, 12, 13, 32}"

definition bytes_strip :: "bytes \<Rightarrow> bytes" where
  "bytes_strip s = rev (dropWhile byte_space (rev (dropWhile byte_space s)))"

definition byte_lower :: "byte \<Rightarrow> byte" where
  "byte_lower b = (if 65 \<le> unat b \<and> unat b \<le> 90 then b + 32 else b)"

text \<open>\<^verbatim>\<open>decode("ascii")\<close>, and the variant that ignores other bytes and folds the case.\<close>

definition decode_ascii :: "bytes \<Rightarrow> string option" where
  "decode_ascii s = (if list_all (\<lambda>b. unat b < 128) s then Some (map (char_of \<circ> unat) s) else None)"

definition folded_ascii :: "bytes \<Rightarrow> string" where
  "folded_ascii s = map (char_of \<circ> unat \<circ> byte_lower) (filter (\<lambda>b. unat b < 128) s)"

text \<open>
  \<^verbatim>\<open>int(text)\<close> of a header: white space around, a sign, decimal digits with single underscores
  between them, at most 4300 of them.
\<close>

definition digit_groups :: "string \<Rightarrow> bool" where
  "digit_groups s \<longleftrightarrow> list_all (\<lambda>part. part \<noteq> [] \<and> list_all is_digit_09 part) (split_on CHR ''_'' s)"

definition int_text_value :: "string \<Rightarrow> int" where
  "int_text_value s = foldl (\<lambda>n c. 10 * n + (int (of_char c) - 48)) 0 (filter is_digit_09 s)"

definition py_int :: "string \<Rightarrow> int option" where
  "py_int text =
     (let s = py_strip text;
          digits = (if prefix ''-'' s \<or> prefix ''+'' s then tl s else s) in
      if digit_groups digits \<and> length (filter is_digit_09 digits) \<le> 4300
      then Some (if prefix ''-'' s then - int_text_value digits else int_text_value digits) else None)"

section \<open>The collector\<close>

text \<open>The reader of option headers answers the value and the options by name.\<close>

type_synonym option_reader = "bytes \<Rightarrow> bytes \<times> (bytes \<times> bytes) list"

record part_policy =
  pt_limits :: "(string \<times> int) list"
  pt_required :: "string list"
  pt_media :: "(string \<times> string list) list"
  pt_parsed :: int
  pt_options :: option_reader

record collector =
  mc_parts :: "(string \<times> bytes) list"
  mc_headers :: "(bytes \<times> bytes) list"
  mc_field :: bytes
  mc_value :: bytes
  mc_name :: "string option"
  mc_data :: bytes
  mc_ended :: bool

definition empty_collector :: collector where
  "empty_collector =
     \<lparr>mc_parts = [], mc_headers = [], mc_field = [], mc_value = [], mc_name = None, mc_data = [],
      mc_ended = False\<rparr>"

text \<open>The callbacks; the data of a callback is the slice of its buffer.\<close>

datatype upload_event =
    Part_begin
  | Header_field bytes
  | Header_value bytes
  | Header_end
  | Headers_finished
  | Part_data bytes
  | Part_end
  | Message_end

definition ARCHIVE_SIGNATURES :: "bytes list" where
  "ARCHIVE_SIGNATURES =
     [[0x50, 0x4B, 0x03, 0x04], [0x1F, 0x8B], [0x42, 0x5A, 0x68], [0xFD, 0x37, 0x7A, 0x58, 0x5A, 0x00]]"

definition is_archive :: "bytes \<Rightarrow> bool" where
  "is_archive v \<longleftrightarrow> list_ex (\<lambda>s. prefix s v) ARCHIVE_SIGNATURES"

definition header_of :: "collector \<Rightarrow> string \<Rightarrow> bytes" where
  "header_of c name = (case map_of (mc_headers c) (ascii_bytes_of name) of None \<Rightarrow> [] | Some v \<Rightarrow> v)"

text \<open>A candidate such as \<^verbatim>\<open>application/json; charset=utf-8\<close>: the type and its charset.\<close>

fun split_charset :: "string \<Rightarrow> string \<times> string option" where
  "split_charset [] = ([], None)"
| "split_charset (c # s) =
     (if prefix ''; charset='' (c # s) then ([], Some (drop 10 (c # s)))
      else (case split_charset s of (a, b) \<Rightarrow> (c # a, b)))"

definition media_type_allowed :: "option_reader \<Rightarrow> bytes \<Rightarrow> string list \<Rightarrow> bool" where
  "media_type_allowed reader raw allowed =
     (case reader raw of (media_type, options) \<Rightarrow>
        (let charset = map_option folded_ascii (map_of options (ascii_bytes_of ''charset'')) in
         list_all (\<lambda>(k, v). k = ascii_bytes_of ''charset'') options \<and>
         list_ex (\<lambda>candidate. split_charset candidate = (folded_ascii media_type, charset)) allowed))"

definition on_header_end :: "collector \<Rightarrow> collect_error + collector" where
  "on_header_end c =
     (let key = map byte_lower (bytes_strip (mc_field c)) in
      if key = [] \<or> key \<in> fst ` set (mc_headers c) then shape_error ''duplicate_part''
      else Inr (c\<lparr>mc_headers := mc_headers c @ [(key, bytes_strip (mc_value c))],
                  mc_field := [], mc_value := []\<rparr>))"

definition on_headers_finished :: "part_policy \<Rightarrow> collector \<Rightarrow> collect_error + collector" where
  "on_headers_finished policy c =
     (if ascii_bytes_of ''content-encoding'' \<in> fst ` set (mc_headers c) \<or>
         ascii_bytes_of ''content-transfer-encoding'' \<in> fst ` set (mc_headers c)
      then Inl (Upload_problem (upload_error 415 ''unsupported_content_encoding''
        ''Encoded multipart parts are not supported.''))
      else (case pt_options policy (header_of c ''content-disposition'') of (disposition, options) \<Rightarrow>
        (case decode_ascii (case map_of options (ascii_bytes_of ''name'') of None \<Rightarrow> [] | Some n \<Rightarrow> n) of
           None \<Rightarrow> shape_error ''unexpected_part''
         | Some name \<Rightarrow>
             if disposition \<noteq> ascii_bytes_of ''form-data'' \<or> name \<notin> fst ` set (pt_limits policy)
             then shape_error ''unexpected_part''
             else if name \<in> fst ` set (mc_parts c) then shape_error ''duplicate_part''
             else (case map_of (pt_media policy) name of
                     None \<Rightarrow> Inl Callback_raised
                   | Some allowed \<Rightarrow>
                       if \<not> media_type_allowed (pt_options policy) (header_of c ''content-type'') allowed
                       then Inl (Upload_problem (upload_error 415 ''invalid_part_media_type''
                         ''A multipart part has an unsupported media type.''))
                       else Inr (c\<lparr>mc_name := Some name\<rparr>)))))"

definition on_part_data :: "part_policy \<Rightarrow> bytes \<Rightarrow> collector \<Rightarrow> collect_error + collector" where
  "on_part_data policy chunk c =
     (case mc_name c of
        None \<Rightarrow> shape_error ''unexpected_part''
      | Some name \<Rightarrow>
          (case map_of (pt_limits policy) name of
             None \<Rightarrow> Inl Callback_raised
           | Some maximum \<Rightarrow>
               if maximum < int (length (mc_data c) + length chunk)
               then Inl (Upload_problem (size_problem (name @ ''_bytes'') maximum))
               else Inr (c\<lparr>mc_data := mc_data c @ chunk\<rparr>)))"

text \<open>Ending a part stores it under its name, replacing one of that name.\<close>

definition on_part_end :: "collector \<Rightarrow> collect_error + collector" where
  "on_part_end c =
     (case mc_name c of
        None \<Rightarrow> shape_error ''unexpected_part''
      | Some name \<Rightarrow>
          if is_archive (mc_data c)
          then Inl (Upload_problem (upload_error 415 ''unsupported_content_encoding''
            ''Archive parts are not supported.''))
          else Inr (c\<lparr>mc_parts := AList.update name (mc_data c) (mc_parts c)\<rparr>))"

fun collect :: "part_policy \<Rightarrow> upload_event \<Rightarrow> collector \<Rightarrow> collect_error + collector" where
  "collect policy Part_begin c = Inr (c\<lparr>mc_headers := [], mc_name := None, mc_data := []\<rparr>)"
| "collect policy (Header_field data) c = Inr (c\<lparr>mc_field := mc_field c @ data\<rparr>)"
| "collect policy (Header_value data) c = Inr (c\<lparr>mc_value := mc_value c @ data\<rparr>)"
| "collect policy Header_end c = on_header_end c"
| "collect policy Headers_finished c = on_headers_finished policy c"
| "collect policy (Part_data chunk) c = on_part_data policy chunk c"
| "collect policy Part_end c = on_part_end c"
| "collect policy Message_end c = Inr (c\<lparr>mc_ended := True\<rparr>)"

fun collect_all :: "part_policy \<Rightarrow> upload_event list \<Rightarrow> collector \<Rightarrow> collect_error + collector" where
  "collect_all policy [] c = Inr c"
| "collect_all policy (e # events) c =
     (case collect policy e c of Inl err \<Rightarrow> Inl err | Inr c' \<Rightarrow> collect_all policy events c')"

definition finish_parts :: "part_policy \<Rightarrow> collector \<Rightarrow> upload_problem + (string \<times> bytes) list" where
  "finish_parts policy c =
     (if \<not> mc_ended c \<or> \<not> list_all (\<lambda>r. r \<in> fst ` set (mc_parts c)) (pt_required policy)
      then Inl (shape_problem ''unexpected_part'')
      else if pt_parsed policy < sum_list (map (int \<circ> length \<circ> snd) (mc_parts c))
      then Inl (size_problem ''parsed_bytes'' (pt_parsed policy))
      else Inr (mc_parts c))"

section \<open>The reader\<close>

text \<open>
  The parser: what it reports for a chunk, whether it then raised, and its next state.  The body
  arrives in chunks, and the client may disconnect after the last one.
\<close>

record 'p body_parser =
  bp_start :: "bytes \<Rightarrow> int \<Rightarrow> 'p option"
  bp_write :: "'p \<Rightarrow> bytes \<Rightarrow> upload_event list \<times> bool \<times> 'p"
  bp_finalize :: "'p \<Rightarrow> upload_event list \<times> bool"

record upload_request =
  ur_content_encoding :: "string option"
  ur_transfer_encoding :: "string option"
  ur_content_length :: "string option"
  ur_content_type :: "string option"
  ur_chunks :: "bytes list"
  ur_disconnected :: bool

definition malformed :: "string \<Rightarrow> upload_problem" where
  "malformed detail = upload_error 400 ''malformed_multipart'' detail"

definition translated :: "collect_error \<Rightarrow> upload_problem" where
  "translated e = (case e of Upload_problem p \<Rightarrow> p | Callback_raised \<Rightarrow> malformed ''The multipart request is invalid.'')"

definition absorb ::
    "part_policy \<Rightarrow> upload_event list \<times> bool \<Rightarrow> collector \<Rightarrow> upload_problem + collector" where
  "absorb policy reported c =
     (case collect_all policy (fst reported) c of
        Inl e \<Rightarrow> Inl (translated e)
      | Inr c' \<Rightarrow> if snd reported then Inl (malformed ''The multipart request is invalid.'') else Inr c')"

fun read_chunks ::
    "'p body_parser \<Rightarrow> part_policy \<Rightarrow> int \<Rightarrow> bool \<Rightarrow> bytes list \<Rightarrow> int \<Rightarrow> 'p \<Rightarrow> collector
     \<Rightarrow> upload_problem + int \<times> collector" where
  "read_chunks parser policy limit disconnected [] received p c =
     (if disconnected then Inl (malformed ''The multipart request is incomplete.'')
      else (case absorb policy (bp_finalize parser p) c of Inl e \<Rightarrow> Inl e | Inr c' \<Rightarrow> Inr (received, c')))"
| "read_chunks parser policy limit disconnected (chunk # chunks) received p c =
     (let received' = received + int (length chunk) in
      if limit < received' then Inl (size_problem ''wire_bytes'' limit)
      else (case bp_write parser p chunk of (events, raised, p') \<Rightarrow>
        (case absorb policy (events, raised) c of
           Inl e \<Rightarrow> Inl e
         | Inr c' \<Rightarrow> read_chunks parser policy limit disconnected chunks received' p' c')))"

definition present :: "string option \<Rightarrow> bool" where
  "present header \<longleftrightarrow> (case header of None \<Rightarrow> False | Some v \<Rightarrow> v \<noteq> [])"

definition check_length :: "int \<Rightarrow> string option \<Rightarrow> upload_problem + unit" where
  "check_length limit header =
     (case header of
        None \<Rightarrow> Inr ()
      | Some declared \<Rightarrow>
          (case py_int declared of
             None \<Rightarrow> Inl (malformed ''Content-Length is invalid.'')
           | Some n \<Rightarrow>
               if n < 0 then Inl (malformed ''Content-Length is invalid.'')
               else if limit < n then Inl (size_problem ''wire_bytes'' limit)
               else Inr ()))"

definition boundary_of :: "option_reader \<Rightarrow> string option \<Rightarrow> upload_problem + bytes" where
  "boundary_of reader header =
     (let (outer, options) = reader (ascii_bytes_of (case header of None \<Rightarrow> [] | Some v \<Rightarrow> v));
          boundary = (case map_of options (ascii_bytes_of ''boundary'') of None \<Rightarrow> [] | Some b \<Rightarrow> b) in
      if outer \<noteq> ascii_bytes_of ''multipart/form-data'' \<or> boundary = []
      then Inl (upload_error 415 ''invalid_content_type'' ''Content-Type must be multipart/form-data.'')
      else Inr boundary)"

text \<open>A parser that refuses the boundary raises outside the guarded part.\<close>

datatype read_error = Read_problem upload_problem | Read_raised

definition read_bounded_multipart ::
    "'p body_parser \<Rightarrow> part_policy \<Rightarrow> int \<Rightarrow> upload_request \<Rightarrow> read_error + (string \<times> bytes) list \<times> int" where
  "read_bounded_multipart parser policy limit request =
     (if present (ur_content_encoding request) \<or> present (ur_transfer_encoding request)
      then Inl (Read_problem (upload_error 415 ''unsupported_content_encoding''
        ''Encoded request bodies are not supported.''))
      else (case check_length limit (ur_content_length request) of
        Inl e \<Rightarrow> Inl (Read_problem e)
      | Inr _ \<Rightarrow>
     (case boundary_of (pt_options policy) (ur_content_type request) of
        Inl e \<Rightarrow> Inl (Read_problem e)
      | Inr boundary \<Rightarrow>
     (case bp_start parser boundary limit of
        None \<Rightarrow> Inl Read_raised
      | Some p \<Rightarrow>
     (case read_chunks parser policy limit (ur_disconnected request) (ur_chunks request) 0 p empty_collector of
        Inl e \<Rightarrow> Inl (Read_problem e)
      | Inr (received, c) \<Rightarrow>
     (case finish_parts policy c of
        Inl e \<Rightarrow> Inl (Read_problem e)
      | Inr parts \<Rightarrow> Inr (parts, received)))))))"

section \<open>What the reader lets through\<close>

text \<open>
  The order in which the parser reports a message: a part begins, its headers end once, its data
  follows, it ends.  A parser keeps to it if a phase of its states accounts for all it reports.
\<close>

datatype upload_phase = Between_parts | In_headers | In_data

fun next_phase :: "upload_phase \<Rightarrow> upload_event \<Rightarrow> upload_phase option" where
  "next_phase Between_parts Part_begin = Some In_headers"
| "next_phase Between_parts Message_end = Some Between_parts"
| "next_phase In_headers (Header_field _) = Some In_headers"
| "next_phase In_headers (Header_value _) = Some In_headers"
| "next_phase In_headers Header_end = Some In_headers"
| "next_phase In_headers Headers_finished = Some In_data"
| "next_phase In_data (Part_data _) = Some In_data"
| "next_phase In_data Part_end = Some Between_parts"
| "next_phase _ _ = None"

fun run_phases :: "upload_phase \<Rightarrow> upload_event list \<Rightarrow> upload_phase option" where
  "run_phases phase [] = Some phase"
| "run_phases phase (e # events) =
     (case next_phase phase e of None \<Rightarrow> None | Some phase' \<Rightarrow> run_phases phase' events)"

definition keeps_order :: "'p body_parser \<Rightarrow> ('p \<Rightarrow> upload_phase) \<Rightarrow> bool" where
  "keeps_order parser phase \<longleftrightarrow>
     (\<forall>boundary limit p. bp_start parser boundary limit = Some p \<longrightarrow> phase p = Between_parts) \<and>
     (\<forall>p chunk events p'. bp_write parser p chunk = (events, False, p') \<longrightarrow>
        run_phases (phase p) events = Some (phase p')) \<and>
     (\<forall>p events. bp_finalize parser p = (events, False) \<longrightarrow> run_phases (phase p) events \<noteq> None)"

definition within_limit :: "part_policy \<Rightarrow> string \<Rightarrow> bytes \<Rightarrow> bool" where
  "within_limit policy name data \<longleftrightarrow>
     (case map_of (pt_limits policy) name of
        None \<Rightarrow> False | Some maximum \<Rightarrow> int (length data) \<le> max 0 maximum)"

text \<open>Every part is named by the policy, named once, within its limit and no archive.\<close>

definition parts_ok :: "part_policy \<Rightarrow> (string \<times> bytes) list \<Rightarrow> bool" where
  "parts_ok policy parts \<longleftrightarrow>
     distinct (map fst parts) \<and>
     list_all (\<lambda>(name, data). within_limit policy name data \<and> \<not> is_archive data) parts"

definition collector_ok :: "part_policy \<Rightarrow> upload_phase \<Rightarrow> collector \<Rightarrow> bool" where
  "collector_ok policy phase c \<longleftrightarrow>
     parts_ok policy (mc_parts c) \<and>
     (phase = In_headers \<longrightarrow> mc_data c = []) \<and>
     (phase = In_data \<longrightarrow> (case mc_name c of None \<Rightarrow> False | Some name \<Rightarrow>
        map_of (mc_parts c) name = None \<and> within_limit policy name (mc_data c)))"

lemma update_new: "map_of ps k = None \<Longrightarrow> AList.update k v ps = ps @ [(k, v)]"
  by (induction ps) (auto split: if_splits)

lemma headers_finished_name:
  assumes "on_headers_finished policy c = Inr c'"
  obtains name maximum where "c' = c\<lparr>mc_name := Some name\<rparr>" "map_of (mc_parts c) name = None"
    "map_of (pt_limits policy) name = Some maximum"
proof -
  from assms obtain name where name: "c' = c\<lparr>mc_name := Some name\<rparr>" "name \<notin> fst ` set (mc_parts c)"
      "name \<in> fst ` set (pt_limits policy)"
    by (auto simp: on_headers_finished_def shape_error_def split: if_splits prod.splits option.splits)
  then obtain maximum where "map_of (pt_limits policy) name = Some maximum"
    by (metis map_of_eq_None_iff not_None_eq)
  moreover have "map_of (mc_parts c) name = None" using name(2) by (simp add: map_of_eq_None_iff)
  ultimately show ?thesis using name(1) that by blast
qed

lemma collect_ok:
  assumes "collector_ok policy phase c" "next_phase phase e = Some phase'" "collect policy e c = Inr c'"
  shows "collector_ok policy phase' c'"
proof (cases e)
  case Headers_finished
  then have "phase = In_headers" "phase' = In_data" using assms(2) by (cases phase; simp)+
  moreover obtain name maximum where "c' = c\<lparr>mc_name := Some name\<rparr>" "map_of (mc_parts c) name = None"
      "map_of (pt_limits policy) name = Some maximum"
    using headers_finished_name [of policy c c'] assms(3) Headers_finished by auto
  ultimately show ?thesis using assms(1) by (simp add: collector_ok_def within_limit_def)
next
  case (Part_data chunk)
  then have "phase = In_data" "phase' = In_data" using assms(2) by (cases phase; simp)+
  with Part_data assms(1,3) show ?thesis
    by (auto simp: collector_ok_def on_part_data_def shape_error_def within_limit_def
        split: if_splits option.splits)
next
  case Part_end
  then have "phase = In_data" "phase' = Between_parts" using assms(2) by (cases phase; simp)+
  with Part_end assms(1,3) show ?thesis
    by (auto simp: collector_ok_def on_part_end_def shape_error_def parts_ok_def update_new
        split: if_splits option.splits)
qed (use assms in \<open>cases phase; auto simp: collector_ok_def on_header_end_def shape_error_def Let_def split: if_splits\<close>)+

lemma collect_all_ok:
  "collector_ok policy phase c \<Longrightarrow> run_phases phase events = Some phase' \<Longrightarrow>
     collect_all policy events c = Inr c' \<Longrightarrow> collector_ok policy phase' c'"
  by (induction events arbitrary: phase c) (auto split: option.splits sum.splits dest: collect_ok)

lemma absorb_ok:
  assumes "collector_ok policy phase c" "absorb policy (events, raised) c = Inr c'"
    and "\<not> raised \<Longrightarrow> run_phases phase events = Some phase'"
  shows "collector_ok policy phase' c'"
  using assms by (auto simp: absorb_def split: sum.splits if_splits intro: collect_all_ok)

lemma read_chunks_ok:
  assumes order: "keeps_order parser phase"
  shows "collector_ok policy (phase p) c \<Longrightarrow> received \<le> limit \<Longrightarrow>
     read_chunks parser policy limit disconnected chunks received p c = Inr (got, c') \<Longrightarrow>
     parts_ok policy (mc_parts c') \<and> got \<le> limit"
proof (induction chunks arbitrary: received p c)
  case Nil
  obtain events raised where finished: "bp_finalize parser p = (events, raised)" by (cases "bp_finalize parser p")
  from Nil(3) finished have c': "absorb policy (events, raised) c = Inr c'" "got = received"
    by (auto split: if_splits sum.splits)
  then have "\<not> raised" by (auto simp: absorb_def split: sum.splits if_splits)
  with order finished obtain phase' where "run_phases (phase p) events = Some phase'"
    by (fastforce simp: keeps_order_def)
  from absorb_ok [OF Nil(1) c'(1) this] Nil(2) c'(2) show ?case by (simp add: collector_ok_def)
next
  case (Cons chunk chunks)
  obtain events raised p' where wrote: "bp_write parser p chunk = (events, raised, p')"
    by (cases "bp_write parser p chunk")
  from Cons.prems(3) wrote obtain c1 where c1: "absorb policy (events, raised) c = Inr c1"
      "received + int (length chunk) \<le> limit"
      "read_chunks parser policy limit disconnected chunks (received + int (length chunk)) p' c1 = Inr (got, c')"
    by (auto simp: Let_def split: if_splits sum.splits)
  have "run_phases (phase p) events = Some (phase p')" if "\<not> raised"
    using order wrote that by (auto simp: keeps_order_def)
  from Cons.IH [OF absorb_ok [OF Cons.prems(1) c1(1) this] c1(2,3)] show ?case .
qed

text \<open>
  C20. Whatever a client sends, what the reader hands on is bounded: at most the wire limit was
  received, no part is unknown, repeated, an archive or above its own limit, none of the required
  ones is missing, and together they are within the limit of parsed bytes.  All that is assumed of
  the parser is the order of its callbacks.
\<close>

theorem accepted_upload_bounded:
  assumes "keeps_order parser phase" "0 \<le> limit"
    and "read_bounded_multipart parser policy limit request = Inr (parts, received)"
  shows "received \<le> limit \<and> parts_ok policy parts \<and>
    set (pt_required policy) \<subseteq> fst ` set parts \<and>
    sum_list (map (int \<circ> length \<circ> snd) parts) \<le> pt_parsed policy"
proof -
  from assms(3) obtain boundary p c where start: "bp_start parser boundary limit = Some p"
    and chunks: "read_chunks parser policy limit (ur_disconnected request) (ur_chunks request) 0 p empty_collector =
      Inr (received, c)" and finish: "finish_parts policy c = Inr parts"
    by (auto simp: read_bounded_multipart_def split: if_splits sum.splits option.splits)
  have "collector_ok policy (phase p) empty_collector"
    using assms(1) start by (auto simp: keeps_order_def collector_ok_def empty_collector_def parts_ok_def)
  from read_chunks_ok [OF assms(1) this assms(2) chunks] finish show ?thesis
    by (auto simp: finish_parts_def list_all_iff split: if_splits)
qed

text \<open>A parser that reports every chunk as one complete part.\<close>

definition chunk_parser :: "unit body_parser" where
  "chunk_parser = \<lparr>bp_start = (\<lambda>_ _. Some ()),
     bp_write = (\<lambda>_ chunk. ([Part_begin, Header_field (ascii_bytes_of ''content-disposition''),
        Header_value [1], Header_end, Headers_finished, Part_data chunk, Part_end], False, ())),
     bp_finalize = (\<lambda>_. ([Message_end], False))\<rparr>"

definition sample_options :: option_reader where
  "sample_options raw =
     (if raw = [1] then (ascii_bytes_of ''form-data'', [(ascii_bytes_of ''name'', ascii_bytes_of ''metadata'')])
      else if raw = [] then (ascii_bytes_of ''application/json'', [])
      else (ascii_bytes_of ''multipart/form-data'', [(ascii_bytes_of ''boundary'', [2])]))"

definition sample_policy :: part_policy where
  "sample_policy = \<lparr>pt_limits = [(''metadata'', 5)], pt_required = [''metadata''],
     pt_media = [(''metadata'', [''application/json''])], pt_parsed = 5, pt_options = sample_options\<rparr>"

definition sample_request :: upload_request where
  "sample_request = \<lparr>ur_content_encoding = None, ur_transfer_encoding = None, ur_content_length = None,
     ur_content_type = Some ''m'', ur_chunks = [[123, 125]], ur_disconnected = False\<rparr>"

lemma unat_of_char: "unat (of_char c :: byte) = of_char c"
proof -
  have "(of_char c :: nat) < 2 ^ LENGTH(8)" by (cases c) (simp add: of_char_def)
  then have "unat (of_nat (of_char c) :: byte) = of_char c" by (simp add: unat_of_nat take_bit_nat_eq_self)
  then show ?thesis by (metis of_nat_of_char)
qed

lemma decode_ascii_bytes:
  assumes "list_all (\<lambda>c. (of_char c :: nat) < 128) s"
  shows "decode_ascii (ascii_bytes_of s) = Some s"
  using assms by (induction s) (auto simp: decode_ascii_def ascii_bytes_of_def unat_of_char split: if_splits)

lemma folded_ascii_bytes:
  assumes "list_all (\<lambda>c. (of_char c :: nat) < 128 \<and> \<not> (65 \<le> (of_char c :: nat) \<and> (of_char c :: nat) \<le> 90)) s"
  shows "folded_ascii (ascii_bytes_of s) = s"
  using assms by (induction s) (auto simp: folded_ascii_def ascii_bytes_of_def unat_of_char byte_lower_def)

theorem accepted_upload_bounded_witness:
  "read_bounded_multipart chunk_parser sample_policy 9 sample_request = Inr ([(''metadata'', [123, 125])], 2) \<and>
   (2 :: int) \<le> 9 \<and> parts_ok sample_policy [(''metadata'', [123, 125])]"
proof -
  have order: "keeps_order chunk_parser (\<lambda>_. Between_parts)"
    by (simp add: keeps_order_def chunk_parser_def)
  let ?cd = "ascii_bytes_of ''content-disposition''"
  have keys: "map byte_lower (bytes_strip ?cd) = ?cd" "?cd \<noteq> []"
      "?cd \<noteq> ascii_bytes_of ''content-encoding''" "?cd \<noteq> ascii_bytes_of ''content-transfer-encoding''"
      "?cd \<noteq> ascii_bytes_of ''content-type''"
    by (simp_all add: ascii_bytes_of_def bytes_strip_def byte_space_def byte_lower_def)
  have names: "decode_ascii (ascii_bytes_of ''metadata'') = Some ''metadata''"
    by (rule decode_ascii_bytes) simp
  have media: "media_type_allowed sample_options [] [''application/json'']"
    using folded_ascii_bytes [of "''application/json''"]
    by (simp add: media_type_allowed_def sample_options_def Let_def)
  have options: "sample_options [1] = (ascii_bytes_of ''form-data'', [(ascii_bytes_of ''name'', ascii_bytes_of ''metadata'')])"
    by (simp add: sample_options_def)
  have finished: "on_headers_finished sample_policy (empty_collector\<lparr>mc_headers := [(?cd, [1])]\<rparr>) =
      Inr (empty_collector\<lparr>mc_headers := [(?cd, [1])], mc_name := Some ''metadata''\<rparr>)"
    using keys(3-5) names media options
    by (simp add: on_headers_finished_def header_of_def sample_policy_def empty_collector_def)
  have boundary: "boundary_of sample_options (Some ''m'') = Inr [2]"
    by (simp add: boundary_of_def sample_options_def ascii_bytes_of_def)
  have result: "read_bounded_multipart chunk_parser sample_policy 9 sample_request =
      Inr ([(''metadata'', [123, 125])], 2)"
    using boundary keys(1,2) finished
    by (simp add: read_bounded_multipart_def sample_request_def present_def check_length_def chunk_parser_def
      absorb_def on_header_end_def on_part_data_def on_part_end_def is_archive_def ARCHIVE_SIGNATURES_def
      bytes_strip_def byte_space_def empty_collector_def finish_parts_def sample_policy_def)
  from accepted_upload_bounded [OF order _ result] result show ?thesis by simp
qed

end
