(* ===== verification/Github_Api.thy ===== *)
theory Github_Api
  imports Db_Session Result_Bundle Repo_Identity Multipart Finding_Parser "HOL-Library.Extended_Nat"
begin

text \<open>
  The client of GitHub's API (\<^verbatim>\<open>infrastructure/github_app_api.py\<close>): requests to one fixed
  origin, the application's short-lived JWT, and the paged listings from which the repositories of a
  user, the snapshot of an installation and the set of installations are built.  The network, the
  RSA signature, \<^verbatim>\<open>datetime.fromisoformat\<close> and the comparison of a float with an integer are
  parameters, and times are exact microseconds where the program has floats.  A name with a character beyond the alphabet of \<^typ>\<open>string\<close> is answered by an error of
  its own, \<open>Api_alphabet\<close>, which stands for what the program does with such a name.
\<close>

section \<open>Requests\<close>

datatype api_error =
    Api_error string
  | Rate_limited datetime
  | Api_raised
  | Api_alphabet

record http_request =
  hr_method :: string
  hr_url :: string
  hr_headers :: "(string \<times> codes) list"
  hr_body :: "bytes option"

record api_response =
  ar_payload :: json
  ar_headers :: "(string \<times> string) list"
  ar_status :: int

text \<open>The port answers a request and keeps a state of its own; the session logs the requests and answers.\<close>

type_synonym 't transport = "http_request \<Rightarrow> 't \<Rightarrow> (api_error + api_response) \<times> 't"

record 't api_session =
  ap_log :: "(http_request \<times> (api_error + api_response)) list"
  ap_cursors :: "string list"
  ap_transport :: 't

type_synonym ('t, 'a) api_op = "('t api_session, api_error, 'a) op"

definition send :: "'t transport \<Rightarrow> http_request \<Rightarrow> ('t, api_response) api_op" where
  "send http r s =
     (case http r (ap_transport s) of (answer, t) \<Rightarrow>
        (case answer of Inl e \<Rightarrow> Inl (Raised e) | Inr a \<Rightarrow> Inr a,
         s\<lparr>ap_log := ap_log s @ [(r, answer)], ap_transport := t\<rparr>))"

definition or_api :: "api_error + 'a \<Rightarrow> ('t, 'a) api_op" where
  "or_api x = (case x of Inl e \<Rightarrow> raise_op e | Inr a \<Rightarrow> return_op a)"

definition GITHUB_API_ROOT :: string where "GITHUB_API_ROOT = ''https://api.github.com''"

definition MAX_PAGES :: nat where "MAX_PAGES = 100"

definition MAX_RESPONSE_BYTES :: nat where "MAX_RESPONSE_BYTES = 4 * 1024 * 1024"

definition api_headers :: "codes \<Rightarrow> (string \<times> codes) list" where
  "api_headers token =
     [(''Accept'', codes_of ''application/vnd.github+json''), (''Authorization'', codes_of ''Bearer '' @ token),
      (''Content-Type'', codes_of ''application/json''), (''X-GitHub-Api-Version'', codes_of ''2022-11-28'')]"

definition api_get :: "string \<Rightarrow> (string \<times> codes) list \<Rightarrow> http_request" where
  "api_get path headers = \<lparr>hr_method = ''GET'', hr_url = GITHUB_API_ROOT @ path, hr_headers = headers, hr_body = None\<rparr>"

section \<open>Reading values\<close>

definition api_positive :: "json \<Rightarrow> string \<Rightarrow> api_error + int" where
  "api_positive v label =
     (case v of JInt n \<Rightarrow> if 0 < n then Inr n else Inl (Api_error (''GitHub '' @ label @ '' is invalid''))
      | _ \<Rightarrow> Inl (Api_error (''GitHub '' @ label @ '' is invalid'')))"

definition api_object :: "json \<Rightarrow> string \<Rightarrow> api_error + members" where
  "api_object v label =
     (case v of JObject ms \<Rightarrow> Inr ms | _ \<Rightarrow> Inl (Api_error (''GitHub returned invalid '' @ label)))"

definition api_aware :: "datetime \<Rightarrow> api_error + datetime" where
  "api_aware t = (if aware t then Inr t else Inl (Api_error ''GitHub API timestamp must be timezone-aware''))"

text \<open>\<^verbatim>\<open>value.replace("Z", "+00:00")\<close>\<close>

definition zulu_offset :: "codes \<Rightarrow> codes" where
  "zulu_offset s = concat (map (\<lambda>c. if c = 90 then codes_of ''+00:00'' else [c]) s)"

definition api_timestamp :: "(codes \<Rightarrow> datetime option) \<Rightarrow> json \<Rightarrow> api_error + datetime option" where
  "api_timestamp from_iso v =
     (case v of
        JNull \<Rightarrow> Inr None
      | JString s \<Rightarrow>
          (case from_iso (zulu_offset s) of
             None \<Rightarrow> Inl (Api_error ''GitHub timestamp is invalid'')
           | Some t \<Rightarrow> result_then (api_aware t) (\<lambda>t. Inr (Some t)))
      | _ \<Rightarrow> Inl (Api_error ''GitHub timestamp is invalid''))"

definition api_text :: "codes \<Rightarrow> api_error + string" where
  "api_text s = (if list_all (\<lambda>c. c < 256) s then Inr (code_char s) else Inl Api_alphabet)"

text \<open>
  \<^verbatim>\<open>casefold\<close> as far as a comparison with a word of ASCII can tell: the long s and the Kelvin sign fold to
  letters.
\<close>

definition folds_to :: "string \<Rightarrow> codes \<Rightarrow> bool" where
  "folds_to word s \<longleftrightarrow>
     map (\<lambda>c. if 65 \<le> c \<and> c \<le> 90 then c + 32 else if c = 383 then 115 else if c = 8490 then 107 else c) s = codes_of word"

definition enum_value :: "(string \<times> 'a) list \<Rightarrow> codes \<Rightarrow> 'a option" where
  "enum_value table s = map_option snd (find (\<lambda>(word, v). folds_to word s) table)"

text \<open>\<^verbatim>\<open>value == n\<close> of a JSON value and an integer.\<close>

definition json_is_int :: "(codes \<Rightarrow> int \<Rightarrow> bool) \<Rightarrow> json \<Rightarrow> int \<Rightarrow> bool" where
  "json_is_int float_is v n \<longleftrightarrow>
     (case v of JInt m \<Rightarrow> m = n | JBool b \<Rightarrow> n = (if b then 1 else 0) | JFloat s \<Rightarrow> float_is s n | _ \<Rightarrow> False)"

section \<open>The network adapter\<close>

text \<open>What opening a URL without redirects gives: the body and the final URL, or an error.\<close>

datatype open_reply =
    Opened bytes string "(string \<times> string) list"
  | Http_failed int string "(string \<times> string) list"
  | Os_failed
  | Open_raised

text \<open>\<^verbatim>\<open>{key.casefold(): value ...}\<close>, in which the last of equal names wins.\<close>

definition folded_headers :: "(string \<times> string) list \<Rightarrow> (string \<times> string) list" where
  "folded_headers hs = rev (map (\<lambda>(k, v). (py_lower k, v)) hs)"

text \<open>\<^verbatim>\<open>int(x)\<close> of a quotient of microseconds, towards zero.\<close>

definition whole_seconds :: "int \<Rightarrow> int" where
  "whole_seconds us = (if 0 \<le> us then us div 1000000 else - (- us div 1000000))"

text \<open>A reset time beyond the range of floats makes the subtraction raise.\<close>

definition rate_limit_seconds :: "(string \<times> string) list \<Rightarrow> datetime \<Rightarrow> api_error + int option" where
  "rate_limit_seconds headers now =
     (case Option.bind (map_of headers ''retry-after'') py_int of
        Some n \<Rightarrow> Inr (Some n)
      | None \<Rightarrow>
          if map_of headers ''x-ratelimit-remaining'' \<noteq> Some ''0'' then Inr None
          else
            (let reset_at = (case py_int (case map_of headers ''x-ratelimit-reset'' of None \<Rightarrow> [] | Some v \<Rightarrow> v) of
                None \<Rightarrow> 0 | Some n \<Rightarrow> n) in
             if reset_at \<le> 0 then Inr None
             else if 2 ^ 1024 - 2 ^ 970 \<le> reset_at then Inl Api_raised
             else Inr (Some (whole_seconds (reset_at * 1000000 - dt_instant now) + 1))))"

definition rate_limit_retry_at :: "int \<Rightarrow> (string \<times> string) list \<Rightarrow> datetime \<Rightarrow> api_error + datetime option" where
  "rate_limit_retry_at status headers now =
     (if status \<notin> {403, 429} then Inr None
      else result_then (rate_limit_seconds headers now) (\<lambda>found.
        Inr (map_option (\<lambda>n. dt_add now (seconds (min (60 * 60) (max 1 n)))) found)))"

definition failed_response :: "int \<Rightarrow> string \<Rightarrow> (string \<times> string) list \<Rightarrow> datetime \<Rightarrow> api_error + api_response" where
  "failed_response code url headers now =
     (if code = 304 then
        (if \<not> prefix (GITHUB_API_ROOT @ ''/'') url
         then Inl (Api_error ''GitHub API redirected outside its fixed origin'')
         else Inr \<lparr>ar_payload = JObject [], ar_headers = headers, ar_status = 304\<rparr>)
      else result_then (rate_limit_retry_at code headers now) (\<lambda>retry_at.
        case retry_at of
          Some t \<Rightarrow> result_then (api_aware t) (\<lambda>t. Inl (Rate_limited t))
        | None \<Rightarrow> Inl (Api_error ''GitHub API request failed'')))"

definition decoded_payload :: "nat \<Rightarrow> bytes \<Rightarrow> api_error + json" where
  "decoded_payload recursion raw =
     (case json_decode_bytes raw of
        None \<Rightarrow> Inl (Api_error ''GitHub API returned invalid JSON'')
      | Some t \<Rightarrow>
          (case json_loads parser_hooks recursion t of
             Inl Json_Decode \<Rightarrow> Inl (Api_error ''GitHub API returned invalid JSON'')
           | Inl _ \<Rightarrow> Inl Api_raised
           | Inr (JObject ms) \<Rightarrow> Inr (JObject ms)
           | Inr (JArray vs) \<Rightarrow> Inr (JArray vs)
           | Inr _ \<Rightarrow> Inl (Api_error ''GitHub API returned invalid structured JSON'')))"

definition opened_response ::
    "nat \<Rightarrow> bytes \<Rightarrow> string \<Rightarrow> (string \<times> string) list \<Rightarrow> api_error + api_response" where
  "opened_response recursion raw url headers =
     (if \<not> prefix (GITHUB_API_ROOT @ ''/'') url
      then Inl (Api_error ''GitHub API redirected outside its fixed origin'')
      else if MAX_RESPONSE_BYTES < length raw
      then Inl (Api_error ''GitHub API response exceeded the safety limit'')
      else result_then (decoded_payload recursion raw) (\<lambda>v.
        Inr \<lparr>ar_payload = v, ar_headers = headers, ar_status = 200\<rparr>))"

definition urllib_request :: "nat \<Rightarrow> (http_request \<Rightarrow> 't \<Rightarrow> open_reply \<times> 't) \<Rightarrow> datetime \<Rightarrow> 't transport" where
  "urllib_request recursion opener now r t =
     (if \<not> prefix (GITHUB_API_ROOT @ ''/'') (hr_url r) then (Inl (Api_error ''unexpected GitHub API endpoint''), t)
      else (case opener r t of (reply, t') \<Rightarrow>
        (case reply of
           Opened body url headers \<Rightarrow>
             opened_response recursion (take (MAX_RESPONSE_BYTES + 1) body) url (folded_headers headers)
         | Http_failed code url headers \<Rightarrow> failed_response code url (folded_headers headers) now
         | Os_failed \<Rightarrow> Inl (Api_error ''GitHub API request failed'')
         | Open_raised \<Rightarrow> Inl Api_raised, t')))"

section \<open>The application's token\<close>

text \<open>Loading the private key and signing with it.\<close>

datatype key_reply = Key_invalid | Key_unsupported | Signing_key "bytes \<Rightarrow> bytes"

text \<open>
  The private key is read from a small regular file that is not a symbolic link.
\<close>

record key_file =
  kf_symlink :: bool
  kf_stat :: "(bool \<times> int) option"
  kf_bytes :: "bytes option"

definition load_github_app_private_key :: "(string \<Rightarrow> key_file) \<Rightarrow> string \<Rightarrow> api_error + bytes" where
  "load_github_app_private_key files path =
     (if path = [] \<or> kf_symlink (files path) then Inl (Api_error ''GitHub App private key file is invalid'')
      else (case kf_stat (files path) of
        None \<Rightarrow> Inl (Api_error ''GitHub App private key file is unavailable'')
      | Some (regular, bytes_held) \<Rightarrow>
          if \<not> regular \<or> bytes_held \<le> 0 \<or> 64 * 1024 < bytes_held
          then Inl (Api_error ''GitHub App private key file is invalid'')
          else (case kf_bytes (files path) of
            None \<Rightarrow> Inl (Api_error ''GitHub App private key file is unavailable'')
          | Some pem \<Rightarrow> Inr pem)))"

definition digit_char :: "char \<Rightarrow> bool" where
  "digit_char c \<longleftrightarrow> is_digit_09 c \<or> (of_char c :: nat) \<in> {178, 179, 185}"

text \<open>\<^verbatim>\<open>isdigit()\<close> accepts superscripts, at which \<^verbatim>\<open>int\<close> raises.\<close>

definition app_id_of :: "string \<Rightarrow> api_error + string" where
  "app_id_of text =
     (if text = [] \<or> \<not> list_all digit_char text then Inl (Api_error ''GitHub App id is invalid'')
      else (case py_int text of
        None \<Rightarrow> Inl Api_raised
      | Some n \<Rightarrow> if n \<le> 0 then Inl (Api_error ''GitHub App id is invalid'') else Inr text))"

definition encoded_json :: "string \<Rightarrow> bytes" where
  "encoded_json text = ascii_bytes_of (b64_encode (ascii_bytes_of text))"

definition quoted_name :: "string \<Rightarrow> string" where
  "quoted_name s = CHR 0x22 # s @ [CHR 0x22]"

definition jwt_header :: string where
  "jwt_header = ''{'' @ quoted_name ''alg'' @ '':'' @ quoted_name ''RS256'' @ '','' @ quoted_name ''typ'' @ '':'' @
     quoted_name ''JWT'' @ ''}''"

definition jwt_claims :: "int \<Rightarrow> string \<Rightarrow> string" where
  "jwt_claims issued_at app_id =
     ''{'' @ quoted_name ''exp'' @ '':'' @ decimal_int (issued_at + 600) @ '','' @ quoted_name ''iat'' @ '':'' @
     decimal_int issued_at @ '','' @ quoted_name ''iss'' @ '':'' @ quoted_name app_id @ ''}''"

definition create_github_app_jwt ::
    "(bytes \<Rightarrow> key_reply) \<Rightarrow> string \<Rightarrow> bytes \<Rightarrow> datetime \<Rightarrow> api_error + string" where
  "create_github_app_jwt load_key github_app_id pem now =
     result_then (api_aware now) (\<lambda>current.
     result_then (app_id_of github_app_id) (\<lambda>app_id.
     (let signing_input = encoded_json jwt_header @ ascii_bytes_of ''.'' @
            encoded_json (jwt_claims (whole_seconds (dt_instant current) - 60) app_id) in
      case load_key pem of
        Key_invalid \<Rightarrow> Inl (Api_error ''GitHub App private key is invalid'')
      | Key_unsupported \<Rightarrow> Inl (Api_error ''GitHub App private key must be RSA with at least 2048 bits'')
      | Signing_key sign \<Rightarrow>
          Inr (map (char_of \<circ> unat) signing_input @ ''.'' @ b64_encode (sign signing_input)))))"

section \<open>What a user can reach\<close>

definition page_query :: "nat \<Rightarrow> string" where
  "page_query page = ''?per_page=100&page='' @ decimal page"

definition listed_items :: "api_response \<Rightarrow> string \<Rightarrow> string \<Rightarrow> string \<Rightarrow> api_error + json list" where
  "listed_items response label key complaint =
     result_then (api_object (ar_payload response) label) (\<lambda>ms.
       case member_of ms key of JArray vs \<Rightarrow> Inr vs | _ \<Rightarrow> Inl (Api_error complaint))"

text \<open>The loop over \<^verbatim>\<open>range(1, 101)\<close>: the pages that are left.\<close>

definition all_pages :: "nat list" where "all_pages = [1 ..< MAX_PAGES + 1]"

fun add_ids :: "string \<Rightarrow> json list \<Rightarrow> int list \<Rightarrow> api_error + int list" where
  "add_ids complaint [] ids = Inr ids"
| "add_ids complaint (v # vs) ids =
     result_then (api_object v ''user installation'') (\<lambda>ms.
     result_then (api_positive (member_of ms ''id'') ''installation id'') (\<lambda>n.
       if n \<in> set ids then Inl (Api_error complaint) else add_ids complaint vs (ids @ [n])))"

fun user_installation_pages ::
    "'t transport \<Rightarrow> (string \<times> codes) list \<Rightarrow> nat list \<Rightarrow> int list \<Rightarrow> ('t, int list) api_op" where
  "user_installation_pages http headers [] ids =
     raise_op (Api_error ''GitHub user installation pagination exceeded the safety limit'')"
| "user_installation_pages http headers (page # pages) ids =
     and_then (send http (api_get (''/user/installations'' @ page_query page) headers)) (\<lambda>response.
     and_then (or_api (listed_items response ''user installations'' ''installations''
       ''GitHub returned invalid user installations'')) (\<lambda>vs.
     and_then (or_api (add_ids ''GitHub returned duplicate user installations'' vs ids)) (\<lambda>ids'.
       if length vs < 100 then return_op ids' else user_installation_pages http headers pages ids')))"

definition user_installation_ids :: "'t transport \<Rightarrow> (string \<times> codes) list \<Rightarrow> ('t, int list) api_op" where
  "user_installation_ids http headers = user_installation_pages http headers all_pages []"

fun prove_pages ::
    "(codes \<Rightarrow> int \<Rightarrow> bool) \<Rightarrow> 't transport \<Rightarrow> (string \<times> codes) list \<Rightarrow> int \<Rightarrow> nat list \<Rightarrow> ('t, unit) api_op" where
  "prove_pages float_is http headers installation_id [] =
     raise_op (Api_error ''GitHub user cannot access the returned installation'')"
| "prove_pages float_is http headers installation_id (page # pages) =
     and_then (send http (api_get (''/user/installations'' @ page_query page) headers)) (\<lambda>response.
     and_then (or_api (listed_items response ''user installations'' ''installations''
       ''GitHub returned invalid user installations'')) (\<lambda>vs.
       if list_ex (\<lambda>v. case v of
            JObject ms \<Rightarrow> json_is_int float_is (member_of ms ''id'') installation_id | _ \<Rightarrow> False) vs
       then return_op ()
       else if length vs < 100
       then raise_op (Api_error ''GitHub user cannot access the returned installation'')
       else prove_pages float_is http headers installation_id pages))"

definition prove_user_installation ::
    "(codes \<Rightarrow> int \<Rightarrow> bool) \<Rightarrow> 't transport \<Rightarrow> (string \<times> codes) list \<Rightarrow> int \<Rightarrow> ('t, unit) api_op" where
  "prove_user_installation float_is http headers installation_id =
     prove_pages float_is http headers installation_id all_pages"

fun user_repository_pages ::
    "'t transport \<Rightarrow> (string \<times> codes) list \<Rightarrow> int \<Rightarrow> nat list \<Rightarrow> members list \<Rightarrow> ('t, members list) api_op" where
  "user_repository_pages http headers installation_id [] found =
     raise_op (Api_error ''GitHub user repository pagination exceeded the safety limit'')"
| "user_repository_pages http headers installation_id (page # pages) found =
     and_then (send http (api_get (''/user/installations/'' @ decimal_int installation_id @ ''/repositories'' @
       page_query page) headers)) (\<lambda>response.
     and_then (or_api (listed_items response ''user installation repositories'' ''repositories''
       ''GitHub returned invalid user installation repositories'')) (\<lambda>vs.
     and_then (or_api (map_results (\<lambda>v. api_object v ''user repository'') vs)) (\<lambda>more.
       if length vs < 100 then return_op (found @ more)
       else user_repository_pages http headers installation_id pages (found @ more))))"

definition user_installation_repositories ::
    "'t transport \<Rightarrow> (string \<times> codes) list \<Rightarrow> int \<Rightarrow> ('t, members list) api_op" where
  "user_installation_repositories http headers installation_id =
     user_repository_pages http headers installation_id all_pages []"

definition is_true :: "json \<Rightarrow> bool" where
  "is_true v \<longleftrightarrow> v = JBool True"

definition repository_permission :: "json \<Rightarrow> api_error + permission option" where
  "repository_permission v =
     (case v of
        JObject ms \<Rightarrow>
          Inr (if is_true (member_of ms ''admin'') \<or> is_true (member_of ms ''maintain'') then Some MANAGE
               else if is_true (member_of ms ''push'') then Some UPLOAD
               else if is_true (member_of ms ''pull'') \<or> is_true (member_of ms ''triage'') then Some VIEW
               else None)
      | _ \<Rightarrow> Inl (Api_error ''GitHub returned invalid repository permissions''))"

text \<open>The inner loop: the repositories met so far, and the grants.\<close>

fun add_entitlements ::
    "int \<Rightarrow> members list \<Rightarrow> int list \<Rightarrow> entitlement list \<Rightarrow> api_error + int list \<times> entitlement list" where
  "add_entitlements installation_id [] seen es = Inr (seen, es)"
| "add_entitlements installation_id (ms # rest) seen es =
     result_then (api_positive (member_of ms ''id'') ''repository id'') (\<lambda>n.
       if n \<in> set seen then Inl (Api_error ''GitHub returned duplicate user repositories'')
       else result_then (repository_permission (member_of ms ''permissions'')) (\<lambda>granted.
         add_entitlements installation_id rest (n # seen)
           (case granted of None \<Rightarrow> es
            | Some p \<Rightarrow> es @ [\<lparr>ent_installation = installation_id, ent_repository = n, ent_permission = p\<rparr>])))"

fun entitlement_pages ::
    "'t transport \<Rightarrow> (string \<times> codes) list \<Rightarrow> int list \<Rightarrow> int list \<Rightarrow> entitlement list \<Rightarrow> ('t, entitlement list) api_op" where
  "entitlement_pages http headers [] seen es = return_op es"
| "entitlement_pages http headers (installation_id # ids) seen es =
     and_then (user_installation_repositories http headers installation_id) (\<lambda>repositories.
     and_then (or_api (add_entitlements installation_id repositories seen es)) (\<lambda>(seen', es').
       entitlement_pages http headers ids seen' es'))"

definition fetch_entitlements :: "'t transport \<Rightarrow> codes \<Rightarrow> ('t, entitlement list) api_op" where
  "fetch_entitlements http user_token =
     (if user_token = [] then raise_op (Api_error ''GitHub user authorization is unavailable'')
      else and_then (user_installation_ids http (api_headers user_token)) (\<lambda>ids.
        entitlement_pages http (api_headers user_token) ids [] []))"

section \<open>Repositories and installations\<close>

definition VISIBILITIES :: "(string \<times> repo_visibility) list" where
  "VISIBILITIES = [(''public'', Public), (''private'', Private), (''internal'', Internal)]"

definition ACCOUNT_TYPES :: "(string \<times> account_type) list" where
  "ACCOUNT_TYPES =
     [(''user'', Account_user), (''organization'', Account_organization), (''enterprise'', Account_enterprise)]"

definition SELECTIONS :: "(string \<times> repo_selection) list" where
  "SELECTIONS = [(''all'', Selection_all), (''selected'', Selection_selected)]"

definition api_repository :: "json \<Rightarrow> api_error + repository_snapshot" where
  "api_repository v =
     (case v of
        JObject ms \<Rightarrow>
          (case member_of ms ''owner'' of
             JObject owner \<Rightarrow>
               (case (member_of ms ''full_name'', member_of ms ''default_branch'', member_of ms ''visibility'') of
                  (JString full_name, JString default_branch, JString visibility) \<Rightarrow>
                    (case enum_value VISIBILITIES visibility of
                       None \<Rightarrow> Inl (Api_error ''GitHub returned unsupported repository visibility'')
                     | Some seen \<Rightarrow>
                         (case (member_of ms ''archived'', member_of ms ''disabled'') of
                            (JBool archived, JBool disabled) \<Rightarrow>
                              result_then (api_positive (member_of ms ''id'') ''repository id'') (\<lambda>repository_id.
                              result_then (api_positive (member_of owner ''id'') ''repository owner id'') (\<lambda>owner_id.
                              result_then (api_text full_name) (\<lambda>name.
                              result_then (api_text default_branch) (\<lambda>branch.
                              Inr \<lparr>rs_repository_id = repository_id, rs_owner_id = owner_id, rs_full_name = name,
                                   rs_default_branch = branch, rs_visibility = seen, rs_archived = archived,
                                   rs_disabled = disabled\<rparr>))))
                          | _ \<Rightarrow> Inl (Api_error ''GitHub returned invalid repository state'')))
                | _ \<Rightarrow> Inl (Api_error ''GitHub returned incomplete repository metadata''))
           | _ \<Rightarrow> Inl (Api_error ''GitHub returned an invalid repository owner''))
      | _ \<Rightarrow> Inl (Api_error ''GitHub returned an invalid repository''))"

definition safe_etag :: "string \<Rightarrow> bool" where
  "safe_etag v \<longleftrightarrow> v \<noteq> [] \<and> length v \<le> 256 \<and>
     list_all (\<lambda>c. (of_char c :: nat) \<in> {9, 32} \<or> 33 \<le> (of_char c :: nat) \<and> (of_char c :: nat) \<le> 126) v"

text \<open>A checkpoint writes a cursor through the caller, which may raise.\<close>

type_synonym 't checkpoint = "(string \<Rightarrow> 't \<Rightarrow> bool \<times> 't) option"

definition note_page :: "'t checkpoint \<Rightarrow> string \<Rightarrow> ('t, unit) api_op" where
  "note_page checkpoint cursor s =
     (case checkpoint of
        None \<Rightarrow> (Inr (), s)
      | Some f \<Rightarrow>
          (case f cursor (ap_transport s) of
             (saved, t) \<Rightarrow>
               (let s' = s\<lparr>ap_cursors := ap_cursors s @ [cursor], ap_transport := t\<rparr> in
                if saved then (Inr (), s') else (Inl (Raised Api_raised), s'))))"

definition conditional_headers :: "(string \<times> codes) list \<Rightarrow> nat \<Rightarrow> string option \<Rightarrow> api_error + (string \<times> codes) list" where
  "conditional_headers headers page etag =
     (case etag of
        None \<Rightarrow> Inr headers
      | Some v \<Rightarrow>
          if page \<noteq> 1 then Inr headers
          else if \<not> safe_etag v then Inl (Api_error ''stored GitHub repository ETag is invalid'')
          else Inr (headers @ [(''If-None-Match'', codes_of v)]))"

fun repository_pages ::
    "'t transport \<Rightarrow> (string \<times> codes) list \<Rightarrow> string option \<Rightarrow> 't checkpoint \<Rightarrow> nat list \<Rightarrow> string option
     \<Rightarrow> repository_snapshot list \<Rightarrow> ('t, repository_snapshot list option \<times> string option) api_op" where
  "repository_pages http headers stored checkpoint [] etag found =
     raise_op (Api_error ''GitHub repository pagination exceeded the safety limit'')"
| "repository_pages http headers stored checkpoint (page # pages) etag found =
     and_then (or_api (conditional_headers headers page stored)) (\<lambda>request_headers.
     and_then (send http (api_get (''/installation/repositories'' @ page_query page) request_headers)) (\<lambda>response.
     if ar_status response = 304 then
       (if page \<noteq> 1 \<or> stored = None
        then raise_op (Api_error ''GitHub returned an invalid conditional response'')
        else and_then (note_page checkpoint ''complete'') (\<lambda>_. return_op (None, stored)))
     else if ar_status response \<noteq> 200
     then raise_op (Api_error ''GitHub returned an unexpected response status'')
     else
       (let etag' = (if page = 1 then map_of (ar_headers response) ''etag'' else etag) in
        and_then (or_api (listed_items response ''installation repositories'' ''repositories''
          ''GitHub returned invalid installation repositories'')) (\<lambda>vs.
        and_then (or_api (map_results api_repository vs)) (\<lambda>more.
        if length vs < 100 then
          and_then (note_page checkpoint ''complete'') (\<lambda>_.
            return_op (Some (found @ more), if page = 1 then etag' else None))
        else
          and_then (note_page checkpoint (''page:'' @ decimal (page + 1))) (\<lambda>_.
            repository_pages http headers stored checkpoint pages etag' (found @ more)))))))"

definition installation_repositories ::
    "'t transport \<Rightarrow> (string \<times> codes) list \<Rightarrow> string option \<Rightarrow> 't checkpoint
     \<Rightarrow> ('t, repository_snapshot list option \<times> string option) api_op" where
  "installation_repositories http headers stored checkpoint =
     repository_pages http headers stored checkpoint all_pages None []"

record api_env =
  aq_load_key :: "bytes \<Rightarrow> key_reply"
  aq_from_iso :: "codes \<Rightarrow> datetime option"
  aq_float_is :: "codes \<Rightarrow> int \<Rightarrow> bool"
  aq_netloc_ok :: "string \<Rightarrow> bool"
  aq_app_id :: string
  aq_pem :: bytes
  aq_now :: datetime

definition snapshot_of ::
    "api_env \<Rightarrow> members \<Rightarrow> int \<Rightarrow> repository_snapshot list \<Rightarrow> string option \<Rightarrow> api_error + installation_snapshot" where
  "snapshot_of env payload installation_id repositories etag =
     (if \<not> json_is_int (aq_float_is env) (member_of payload ''id'') installation_id
      then Inl (Api_error ''GitHub installation identity did not match'')
      else (case member_of payload ''account'' of
        JObject account \<Rightarrow>
          result_then (api_positive (member_of account ''id'') ''owner id'') (\<lambda>owner_id.
          case (member_of account ''login'', member_of account ''type'', member_of payload ''repository_selection'') of
            (JString login, JString account_type, JString selection) \<Rightarrow>
              (case (enum_value ACCOUNT_TYPES account_type, enum_value SELECTIONS selection) of
                 (Some kind, Some chosen) \<Rightarrow>
                   result_then (api_timestamp (aq_from_iso env) (member_of payload ''suspended_at'')) (\<lambda>suspended_at.
                   result_then (api_text login) (\<lambda>owner_login.
                   Inr \<lparr>is_installation_id = installation_id, is_owner_id = owner_id, is_owner_login = owner_login,
                        is_account_type = kind, is_selection = chosen, is_suspended_at = suspended_at,
                        is_deleted_at = None, is_etag = etag, is_cursor = None, is_repositories = repositories\<rparr>))
               | _ \<Rightarrow> Inl (Api_error ''GitHub installation metadata is unsupported''))
          | _ \<Rightarrow> Inl (Api_error ''GitHub installation metadata is incomplete''))
      | _ \<Rightarrow> Inl (Api_error ''GitHub installation owner is invalid'')))"

definition installation_path :: "int \<Rightarrow> string" where
  "installation_path installation_id = ''/app/installations/'' @ decimal_int installation_id"

definition token_of :: "api_response \<Rightarrow> api_error + codes" where
  "token_of response =
     result_then (api_object (ar_payload response) ''installation token'') (\<lambda>ms.
       case member_of ms ''token'' of
         JString t \<Rightarrow> if t = [] then Inl (Api_error ''GitHub did not return an installation token'') else Inr t
       | _ \<Rightarrow> Inl (Api_error ''GitHub did not return an installation token''))"

definition installation_token :: "'t transport \<Rightarrow> int \<Rightarrow> string \<Rightarrow> ('t, codes) api_op" where
  "installation_token http installation_id jwt =
     and_then (send http \<lparr>hr_method = ''POST'',
         hr_url = GITHUB_API_ROOT @ installation_path installation_id @ ''/access_tokens'',
         hr_headers = api_headers (codes_of jwt), hr_body = Some (ascii_bytes_of ''{}'')\<rparr>) (\<lambda>response.
       or_api (token_of response))"

definition validated_snapshot :: "installation_snapshot \<Rightarrow> api_error + installation_snapshot" where
  "validated_snapshot snapshot =
     (case validate_installation_snapshot snapshot of
        Inl _ \<Rightarrow> Inl (Api_error ''GitHub returned inconsistent installation metadata'') | Inr s \<Rightarrow> Inr s)"

definition fetch_authoritative_installation ::
    "api_env \<Rightarrow> 't transport \<Rightarrow> int \<Rightarrow> string option \<Rightarrow> repository_snapshot list option \<Rightarrow> 't checkpoint
     \<Rightarrow> ('t, installation_snapshot) api_op" where
  "fetch_authoritative_installation env http installation_id stored cached checkpoint =
     and_then (or_api (api_positive (JInt installation_id) ''installation id'')) (\<lambda>_.
     and_then (or_api (api_aware (aq_now env))) (\<lambda>_.
     and_then (or_api (create_github_app_jwt (aq_load_key env) (aq_app_id env) (aq_pem env) (aq_now env))) (\<lambda>jwt.
     and_then (send http (api_get (installation_path installation_id) (api_headers (codes_of jwt)))) (\<lambda>installation.
     and_then (installation_token http installation_id jwt) (\<lambda>token.
     and_then (installation_repositories http (api_headers token) stored checkpoint) (\<lambda>(repositories, etag).
     and_then (or_api (case (repositories, stored, cached) of
         (Some rs, _, _) \<Rightarrow> Inr (rs, etag)
       | (None, Some e, Some rs) \<Rightarrow> Inr (rs, Some e)
       | _ \<Rightarrow> Inl (Api_error ''GitHub returned an unusable conditional response''))) (\<lambda>(rs, e).
     and_then (or_api (api_object (ar_payload installation) ''installation'')) (\<lambda>payload.
     or_api (result_then (snapshot_of env payload installation_id rs e) validated_snapshot)))))))))"

text \<open>The same off the event loop, with a checkpoint that waits for the loop to have saved the cursor.\<close>

definition fetch_authoritative_installation_tracked ::
    "api_env \<Rightarrow> 't transport \<Rightarrow> int \<Rightarrow> string option \<Rightarrow> repository_snapshot list option
     \<Rightarrow> (string \<Rightarrow> 't \<Rightarrow> bool \<times> 't) \<Rightarrow> ('t, installation_snapshot) api_op" where
  "fetch_authoritative_installation_tracked env http installation_id stored cached persist =
     fetch_authoritative_installation env http installation_id stored cached (Some persist)"

definition fetch_authoritative_installation_for_user ::
    "api_env \<Rightarrow> 't transport \<Rightarrow> codes \<Rightarrow> int \<Rightarrow> string option \<Rightarrow> repository_snapshot list option
     \<Rightarrow> ('t, installation_snapshot) api_op" where
  "fetch_authoritative_installation_for_user env http user_token installation_id stored cached =
     (if user_token = [] then raise_op (Api_error ''GitHub user authorization is unavailable'')
      else
        and_then (or_api (api_positive (JInt installation_id) ''installation id'')) (\<lambda>_.
        and_then (or_api (api_aware (aq_now env))) (\<lambda>_.
        and_then (prove_user_installation (aq_float_is env) http (api_headers user_token) installation_id) (\<lambda>_.
        fetch_authoritative_installation env http installation_id stored cached None))))"

definition fetch_authoritative_repository ::
    "api_env \<Rightarrow> 't transport \<Rightarrow> int \<Rightarrow> string \<Rightarrow> ('t, repository_snapshot) api_op" where
  "fetch_authoritative_repository env http installation_id full_name =
     and_then (or_api (api_positive (JInt installation_id) ''installation id'')) (\<lambda>_.
     case parse_github_repository (aq_netloc_ok env) full_name of
       Inl _ \<Rightarrow> raise_op (Api_error ''GitHub repository name is invalid'')
     | Inr parsed \<Rightarrow>
         if parsed \<noteq> Some full_name then raise_op (Api_error ''GitHub repository name is not canonical'')
         else
           and_then (or_api (result_then (api_aware (aq_now env))
             (create_github_app_jwt (aq_load_key env) (aq_app_id env) (aq_pem env)))) (\<lambda>jwt.
           and_then (installation_token http installation_id jwt) (\<lambda>token.
           and_then (send http (api_get (''/repos/'' @ full_name) (api_headers token))) (\<lambda>response.
             if ar_status response \<noteq> 200
             then raise_op (Api_error ''GitHub returned an unexpected response status'')
             else or_api (api_repository (ar_payload response))))))"

text \<open>The complete set of installations, for the repair of missed events.\<close>

fun add_states ::
    "(codes \<Rightarrow> datetime option) \<Rightarrow> json list \<Rightarrow> (int \<times> datetime option) list
     \<Rightarrow> api_error + (int \<times> datetime option) list" where
  "add_states from_iso [] states = Inr states"
| "add_states from_iso (v # vs) states =
     result_then (api_object v ''App installation'') (\<lambda>ms.
     result_then (api_positive (member_of ms ''id'') ''installation id'') (\<lambda>n.
       if n \<in> fst ` set states then Inl (Api_error ''GitHub returned duplicate App installations'')
       else result_then (api_timestamp from_iso (member_of ms ''suspended_at'')) (\<lambda>t.
         add_states from_iso vs (states @ [(n, t)]))))"

fun state_pages ::
    "api_env \<Rightarrow> 't transport \<Rightarrow> (string \<times> codes) list \<Rightarrow> nat list \<Rightarrow> (int \<times> datetime option) list
     \<Rightarrow> ('t, (int \<times> datetime option) list) api_op" where
  "state_pages env http headers [] states =
     raise_op (Api_error ''GitHub App installation pagination exceeded the safety limit'')"
| "state_pages env http headers (page # pages) states =
     and_then (send http (api_get (''/app/installations'' @ page_query page) headers)) (\<lambda>response.
     case ar_payload response of
       JArray vs \<Rightarrow>
         and_then (or_api (add_states (aq_from_iso env) vs states)) (\<lambda>states'.
           if length vs < 100 then return_op states' else state_pages env http headers pages states')
     | _ \<Rightarrow> raise_op (Api_error ''GitHub returned invalid App installations''))"

definition fetch_github_app_installation_states ::
    "api_env \<Rightarrow> 't transport \<Rightarrow> ('t, (int \<times> datetime option) list) api_op" where
  "fetch_github_app_installation_states env http =
     and_then (or_api (result_then (api_aware (aq_now env))
       (create_github_app_jwt (aq_load_key env) (aq_app_id env) (aq_pem env)))) (\<lambda>jwt.
     state_pages env http (api_headers (codes_of jwt)) all_pages [])"

section \<open>What is sent, and what the results rest on\<close>

text \<open>
  From every session, \<open>m\<close> logs at most \<open>n\<close> further exchanges, all of whose requests satisfy \<open>P\<close>, and
  its result is related by \<open>Q\<close> to them.
\<close>

type_synonym exchange = "http_request \<times> (api_error + api_response)"

definition api_spec ::
    "enat \<Rightarrow> (http_request \<Rightarrow> bool) \<Rightarrow> ('t, 'a) api_op \<Rightarrow> ('a \<Rightarrow> exchange list \<Rightarrow> bool) \<Rightarrow> bool" where
  "api_spec n P m Q \<longleftrightarrow>
     (\<forall>s. \<exists>new. ap_log (snd (m s)) = ap_log s @ new \<and> enat (length new) \<le> n \<and> list_all (P \<circ> fst) new \<and>
        (case fst (m s) of Inl _ \<Rightarrow> True | Inr a \<Rightarrow> Q a new))"

lemma api_spec_at:
  assumes "api_spec n P m Q"
  obtains new where "ap_log (snd (m s)) = ap_log s @ new" "enat (length new) \<le> n" "list_all (P \<circ> fst) new"
    "case fst (m s) of Inl _ \<Rightarrow> True | Inr a \<Rightarrow> Q a new"
  using assms unfolding api_spec_def by blast

lemma api_spec_weaken:
  assumes "api_spec n P m Q" "n \<le> n'" "\<And>r. P r \<Longrightarrow> P' r" "\<And>a new. Q a new \<Longrightarrow> Q' a new"
  shows "api_spec n' P' m Q'"
  unfolding api_spec_def
proof
  fix s
  from assms(1) obtain new where new: "ap_log (snd (m s)) = ap_log s @ new" "enat (length new) \<le> n"
    "list_all (P \<circ> fst) new" "case fst (m s) of Inl _ \<Rightarrow> True | Inr a \<Rightarrow> Q a new"
    by (rule api_spec_at)
  from new(3) have "list_all (P' \<circ> fst) new"
    by (rule list.pred_mono_strong) (use assms(3) in auto)
  moreover from new(4) have "case fst (m s) of Inl _ \<Rightarrow> True | Inr a \<Rightarrow> Q' a new"
    using assms(4) by (auto split: sum.splits)
  ultimately show "\<exists>new. ap_log (snd (m s)) = ap_log s @ new \<and> enat (length new) \<le> n' \<and> list_all (P' \<circ> fst) new \<and>
      (case fst (m s) of Inl _ \<Rightarrow> True | Inr a \<Rightarrow> Q' a new)"
    using new(1) order_trans [OF new(2) assms(2)] by (intro exI [of _ new]) simp
qed

lemma api_spec_and_then:
  assumes m: "api_spec n P m Q"
    and f: "\<And>a old. Q a old \<Longrightarrow> api_spec k P (f a) (\<lambda>b new. R b (old @ new))"
  shows "api_spec (n + k) P (and_then m f) R"
  unfolding api_spec_def
proof
  fix s
  from m obtain old where old: "ap_log (snd (m s)) = ap_log s @ old" "enat (length old) \<le> n"
    "list_all (P \<circ> fst) old" "case fst (m s) of Inl _ \<Rightarrow> True | Inr a \<Rightarrow> Q a old"
    by (rule api_spec_at)
  show "\<exists>new. ap_log (snd (and_then m f s)) = ap_log s @ new \<and> enat (length new) \<le> n + k \<and> list_all (P \<circ> fst) new \<and>
      (case fst (and_then m f s) of Inl _ \<Rightarrow> True | Inr a \<Rightarrow> R a new)"
  proof (cases "m s")
    case (Pair r s')
    show ?thesis
    proof (cases r)
      case (Inl e)
      moreover from old(2) have "enat (length old) \<le> n + k" by (rule order_trans) simp
      ultimately show ?thesis
        using Pair old by (intro exI [of _ old]) (simp add: and_then_def)
    next
      case (Inr a)
      with Pair old(4) have "Q a old" by simp
      from f [OF this] obtain new where "ap_log (snd (f a s')) = ap_log s' @ new" "enat (length new) \<le> k"
        "list_all (P \<circ> fst) new" "case fst (f a s') of Inl _ \<Rightarrow> True | Inr b \<Rightarrow> R b (old @ new)"
        by (rule api_spec_at)
      moreover from old(2) this(2) have "enat (length old) + enat (length new) \<le> n + k" by (rule add_mono)
      ultimately show ?thesis
        using Pair Inr old by (intro exI [of _ "old @ new"]) (simp add: and_then_def)
    qed
  qed
qed

lemma enat_none [simp]: "enat 0 = 0"
  by (simp add: zero_enat_def)

lemma api_spec_raise: "api_spec n P (raise_op e) Q"
  by (simp add: api_spec_def raise_op_def)

lemma api_spec_return: "Q a [] \<Longrightarrow> api_spec n P (return_op a) Q"
  by (simp add: api_spec_def return_op_def)

lemma api_spec_or: "(\<And>a. x = Inr a \<Longrightarrow> Q a []) \<Longrightarrow> api_spec n P (or_api x) Q"
  by (cases x) (auto simp: or_api_def api_spec_raise api_spec_return)

lemma api_spec_or_then:
  assumes "\<And>a. x = Inr a \<Longrightarrow> api_spec n P (f a) R"
  shows "api_spec n P (and_then (or_api x) f) R"
  using assms by (cases x) (auto simp: or_api_def and_then_def return_op_def raise_op_def api_spec_def)

lemma api_spec_send:
  "P r \<Longrightarrow> (\<And>a. Q a [(r, Inr a)]) \<Longrightarrow> api_spec 1 P (send http r) Q"
  by (auto simp: api_spec_def send_def one_enat_def split: prod.splits sum.splits)

lemma api_spec_note: "api_spec 0 P (note_page checkpoint cursor) (\<lambda>_ new. new = [])"
  by (auto simp: api_spec_def note_page_def Let_def split: option.splits prod.splits)

lemmas api_spec_rules = api_spec_raise api_spec_return api_spec_or

text \<open>A request goes to the fixed origin; a user's request carries the user's token and changes nothing.\<close>

definition at_github :: "http_request \<Rightarrow> bool" where
  "at_github r \<longleftrightarrow> prefix (GITHUB_API_ROOT @ ''/'') (hr_url r)"

definition reads_with :: "codes \<Rightarrow> http_request \<Rightarrow> bool" where
  "reads_with token r \<longleftrightarrow>
     at_github r \<and> hr_method r = ''GET'' \<and> hr_headers r = api_headers token \<and> hr_body r = None"

lemma at_github_get [simp]: "at_github (api_get (CHR 0x2F # path) headers)"
  by (simp add: at_github_def api_get_def)

lemma reads_with_get [simp]: "reads_with token (api_get (CHR 0x2F # path) (api_headers token))"
  by (simp add: reads_with_def) (simp add: api_get_def)

lemma reads_at_github: "reads_with token r \<Longrightarrow> at_github r"
  by (simp add: reads_with_def)

text \<open>The exchange in which the user's own listing named the installation.\<close>

definition names_installation :: "(codes \<Rightarrow> int \<Rightarrow> bool) \<Rightarrow> codes \<Rightarrow> int \<Rightarrow> exchange \<Rightarrow> bool" where
  "names_installation float_is token installation_id x \<longleftrightarrow>
     reads_with token (fst x) \<and>
     (case snd x of
        Inl _ \<Rightarrow> False
      | Inr a \<Rightarrow>
          (case listed_items a ''user installations'' ''installations'' ''GitHub returned invalid user installations'' of
             Inl _ \<Rightarrow> False
           | Inr vs \<Rightarrow> list_ex (\<lambda>v. case v of
               JObject ms \<Rightarrow> json_is_int float_is (member_of ms ''id'') installation_id | _ \<Rightarrow> False) vs))"

lemma prove_pages_spec:
  "api_spec (enat (length pages)) (reads_with token) (prove_pages float_is http (api_headers token) installation_id pages)
     (\<lambda>_ new. list_ex (names_installation float_is token installation_id) new)"
proof (induction pages)
  case Nil
  show ?case by (simp add: api_spec_raise)
next
  case (Cons page pages)
  let ?named = "names_installation float_is token installation_id"
  let ?r = "api_get (''/user/installations'' @ page_query page) (api_headers token)"
  have "api_spec (enat (length pages)) (reads_with token)
      (and_then (or_api (listed_items response ''user installations'' ''installations''
          ''GitHub returned invalid user installations'')) (\<lambda>vs.
        if list_ex (\<lambda>v. case v of
             JObject ms \<Rightarrow> json_is_int float_is (member_of ms ''id'') installation_id | _ \<Rightarrow> False) vs
        then return_op ()
        else if length vs < 100
        then raise_op (Api_error ''GitHub user cannot access the returned installation'')
        else prove_pages float_is http (api_headers token) installation_id pages))
      (\<lambda>b new. list_ex ?named ([(?r, Inr response)] @ new))" for response
    by (rule api_spec_or_then)
      (auto simp: names_installation_def intro!: api_spec_return api_spec_raise
        intro: api_spec_weaken [OF Cons])
  then have "api_spec (1 + enat (length pages)) (reads_with token)
      (prove_pages float_is http (api_headers token) installation_id (page # pages)) (\<lambda>_. list_ex ?named)"
    unfolding prove_pages.simps
    by (intro api_spec_and_then [where Q = "\<lambda>a new. new = [(?r, Inr a)]"] api_spec_send) auto
  then show ?case by (simp add: one_enat_def)
qed

lemma repository_pages_spec:
  "api_spec (enat (length pages)) at_github (repository_pages http headers stored checkpoint pages etag acc) (\<lambda>_ _. True)"
proof (induction pages arbitrary: stored etag acc)
  case Nil
  show ?case by (simp add: api_spec_raise)
next
  case (Cons page pages)
  have noted: "api_spec n at_github (and_then (note_page checkpoint cursor) f) (\<lambda>_ _. True)"
    if "\<And>u. api_spec n at_github (f u) (\<lambda>_ _. True)" for n cursor and f :: "unit \<Rightarrow> ('a, 'b) api_op"
    using api_spec_and_then [OF api_spec_note, where f = f and k = n and R = "\<lambda>_ _. True"] that by simp
  have "api_spec (1 + enat (length pages)) at_github
      (repository_pages http headers stored checkpoint (page # pages) etag acc) (\<lambda>_ _. True)"
    unfolding repository_pages.simps
    by (intro api_spec_or_then api_spec_and_then [where Q = "\<lambda>_ _. True"] api_spec_send)
      (auto simp: Let_def intro!: noted api_spec_or_then api_spec_return api_spec_raise Cons)
  then show ?case by (simp add: one_enat_def)
qed

lemma installation_token_spec:
  "api_spec 1 at_github (installation_token http installation_id jwt) (\<lambda>_ _. True)"
proof -
  have "api_spec (1 + 0) at_github (installation_token http installation_id jwt) (\<lambda>_ _. True)"
    unfolding installation_token_def
    by (intro api_spec_and_then [where Q = "\<lambda>_ _. True"] api_spec_send api_spec_or)
      (simp_all add: at_github_def installation_path_def)
  then show ?thesis by simp
qed

lemma validated_snapshot_Inr: "validated_snapshot s = Inr t \<longleftrightarrow> snapshot_ok s \<and> t = s"
  using validate_installation_snapshot_iff [of s]
  by (auto simp: validated_snapshot_def split: sum.splits)

lemma json_case_Inr:
  "(case v of JString x \<Rightarrow> f x | _ \<Rightarrow> Inl e) = Inr s \<longleftrightarrow> (\<exists>x. v = JString x \<and> f x = Inr s)"
  "(case v of JObject ms \<Rightarrow> g ms | _ \<Rightarrow> Inl e) = Inr s \<longleftrightarrow> (\<exists>ms. v = JObject ms \<and> g ms = Inr s)"
  by (cases v; simp)+

lemma option_case_Inr:
  "(case v of None \<Rightarrow> Inl e | Some a \<Rightarrow> f a) = Inr s \<longleftrightarrow> (\<exists>a. v = Some a \<and> f a = Inr s)"
  by (cases v; simp)

lemma snapshot_of_Inr:
  "snapshot_of env payload installation_id rs e = Inr s \<Longrightarrow>
     is_installation_id s = installation_id \<and> is_repositories s = rs"
  by (auto simp: snapshot_of_def result_then_ok json_case_Inr option_case_Inr split: if_split_asm)

lemma installation_spec:
  "api_spec 102 at_github (fetch_authoritative_installation env http installation_id stored cached checkpoint)
     (\<lambda>s _. snapshot_ok s \<and> is_installation_id s = installation_id)"
proof -
  let ?Q = "\<lambda>s _. snapshot_ok s \<and> is_installation_id s = installation_id"
  have pages: "api_spec 100 at_github (installation_repositories http headers stored checkpoint) (\<lambda>_ _. True)"
    for headers
    using repository_pages_spec [where pages = all_pages]
    by (simp add: installation_repositories_def all_pages_def MAX_PAGES_def numeral_eq_enat)
  have answer: "api_spec n at_github (or_api (result_then (snapshot_of env payload installation_id rs e) validated_snapshot)) ?Q"
    for n payload rs e
    by (rule api_spec_or) (auto simp: result_then_ok validated_snapshot_Inr dest: snapshot_of_Inr)
  have "api_spec (1 + (1 + (100 + 0))) at_github
      (fetch_authoritative_installation env http installation_id stored cached checkpoint) ?Q"
    unfolding fetch_authoritative_installation_def
    by (intro api_spec_or_then api_spec_and_then [where Q = "\<lambda>_ _. True"] api_spec_send
        api_spec_and_then [OF installation_token_spec] api_spec_and_then [OF pages])
      (auto simp: installation_path_def intro!: api_spec_or_then answer)
  then show ?thesis by simp
qed

text \<open>
  C7. The application's credentials follow the user's own proof.  Fetching an installation for a user
  first reads with the user's token, at most a hundred pages of GitHub's fixed origin; only when one of
  them named the installation does it send anything else, at most 102 further requests to the same
  origin, and only then can it answer, with a valid snapshot of that installation.
\<close>

theorem app_credentials_follow_user_proof:
  "case fetch_authoritative_installation_for_user env http token installation_id stored cached s of (r, s') \<Rightarrow>
     (\<exists>user app. ap_log s' = ap_log s @ user @ app \<and> length user \<le> 100 \<and> length app \<le> 102 \<and>
        list_all (reads_with token \<circ> fst) user \<and> list_all (at_github \<circ> fst) app \<and>
        (if list_ex (names_installation (aq_float_is env) token installation_id) user
         then case r of Inl _ \<Rightarrow> True | Inr snap \<Rightarrow> snapshot_ok snap \<and> is_installation_id snap = installation_id
         else app = [] \<and> isl r))"
proof -
  let ?named = "names_installation (aq_float_is env) token installation_id"
  let ?prove = "prove_user_installation (aq_float_is env) http (api_headers token) installation_id"
  let ?fetch = "fetch_authoritative_installation env http installation_id stored cached None"
  let ?all = "fetch_authoritative_installation_for_user env http token installation_id stored cached"
  show ?thesis
  proof (cases "token \<noteq> [] \<and> 0 < installation_id \<and> aware (aq_now env)")
    case False
    then have "ap_log (snd (?all s)) = ap_log s \<and> isl (fst (?all s))"
      by (auto simp: fetch_authoritative_installation_for_user_def raise_op_def or_api_def and_then_def
          return_op_def api_positive_def api_aware_def)
    then show ?thesis
      by (cases "?all s") (auto intro!: exI [of _ "[]"])
  next
    case True
    then have steps: "?all s = and_then ?prove (\<lambda>_. ?fetch) s"
      by (simp add: fetch_authoritative_installation_for_user_def or_api_def and_then_def
          return_op_def api_positive_def api_aware_def)
    have "api_spec 100 (reads_with token) ?prove (\<lambda>_ new. list_ex ?named new)"
      using prove_pages_spec [where pages = all_pages]
      by (simp add: prove_user_installation_def all_pages_def MAX_PAGES_def numeral_eq_enat)
    then obtain user where user: "ap_log (snd (?prove s)) = ap_log s @ user" "enat (length user) \<le> 100"
      "list_all (reads_with token \<circ> fst) user"
      "case fst (?prove s) of Inl _ \<Rightarrow> True | Inr a \<Rightarrow> list_ex ?named user"
      by (rule api_spec_at)
    obtain app where app: "ap_log (snd (?fetch (snd (?prove s)))) = ap_log (snd (?prove s)) @ app"
      "enat (length app) \<le> 102" "list_all (at_github \<circ> fst) app"
      "case fst (?fetch (snd (?prove s))) of Inl _ \<Rightarrow> True
        | Inr snap \<Rightarrow> snapshot_ok snap \<and> is_installation_id snap = installation_id"
      by (rule api_spec_at [OF installation_spec])
    show ?thesis
    proof (cases "?prove s")
      case (Pair r s')
      show ?thesis
      proof (cases r)
        case (Inl e)
        with Pair user show ?thesis
          by (simp add: steps and_then_def numeral_eq_enat) (intro exI [of _ user] exI [of _ "[]"], simp)
      next
        case (Inr u)
        with Pair user app show ?thesis
          by (cases "?fetch s'") (simp add: steps and_then_def numeral_eq_enat,
              intro exI [of _ user] exI [of _ app], simp)
      qed
    qed
  qed
qed

section \<open>What a user is granted\<close>

definition lists_repository :: "codes \<Rightarrow> int \<Rightarrow> members \<Rightarrow> exchange \<Rightarrow> bool" where
  "lists_repository token installation_id ms x \<longleftrightarrow>
     reads_with token (fst x) \<and>
     prefix (GITHUB_API_ROOT @ ''/user/installations/'' @ decimal_int installation_id @ ''/repositories?'')
       (hr_url (fst x)) \<and>
     (case snd x of
        Inl _ \<Rightarrow> False
      | Inr a \<Rightarrow>
          (case listed_items a ''user installation repositories'' ''repositories''
             ''GitHub returned invalid user installation repositories'' of
             Inl _ \<Rightarrow> False | Inr vs \<Rightarrow> JObject ms \<in> set vs))"

definition granted_by :: "codes \<Rightarrow> entitlement \<Rightarrow> exchange \<Rightarrow> bool" where
  "granted_by token e x \<longleftrightarrow>
     (\<exists>ms. lists_repository token (ent_installation e) ms x \<and> member_of ms ''id'' = JInt (ent_repository e) \<and>
        repository_permission (member_of ms ''permissions'') = Inr (Some (ent_permission e)))"

definition entitlements_ok :: "entitlement list \<Rightarrow> bool" where
  "entitlements_ok es \<longleftrightarrow>
     distinct (map ent_repository es) \<and>
     list_all (\<lambda>e. 0 < ent_installation e \<and> 0 < ent_repository e) es"

lemma map_objects:
  "map_results (\<lambda>v. api_object v label) vs = Inr ws \<Longrightarrow> vs = map JObject ws"
  by (induction vs arbitrary: ws) (auto simp: api_object_def split: sum.split_asm json.split_asm)

lemma api_positive_Inr: "api_positive v label = Inr n \<longleftrightarrow> v = JInt n \<and> 0 < n"
  by (auto simp: api_positive_def split: json.splits)

lemma user_repository_pages_spec:
  "api_spec (enat (length pages)) (reads_with token)
     (user_repository_pages http (api_headers token) installation_id pages acc)
     (\<lambda>found new. \<forall>ms \<in> set found. ms \<in> set acc \<or> list_ex (lists_repository token installation_id ms) new)"
proof (induction pages arbitrary: acc)
  case Nil
  show ?case by (simp add: api_spec_raise)
next
  case (Cons page pages)
  let ?listed = "lists_repository token installation_id"
  let ?r = "api_get (''/user/installations/'' @ decimal_int installation_id @ ''/repositories'' @ page_query page)
    (api_headers token)"
  have url: "prefix (GITHUB_API_ROOT @ ''/user/installations/'' @ decimal_int installation_id @ ''/repositories?'')
      (hr_url ?r)"
    by (simp add: api_get_def page_query_def)
  have "api_spec (enat (length pages)) (reads_with token)
      (and_then (or_api (listed_items response ''user installation repositories'' ''repositories''
          ''GitHub returned invalid user installation repositories'')) (\<lambda>vs.
        and_then (or_api (map_results (\<lambda>v. api_object v ''user repository'') vs)) (\<lambda>more.
          if length vs < 100 then return_op (acc @ more)
          else user_repository_pages http (api_headers token) installation_id pages (acc @ more))))
      (\<lambda>found new. \<forall>ms \<in> set found. ms \<in> set acc \<or> list_ex (?listed ms) ([(?r, Inr response)] @ new))" for response
  proof (intro api_spec_or_then)
    fix vs more
    assume "listed_items response ''user installation repositories'' ''repositories''
        ''GitHub returned invalid user installation repositories'' = Inr vs"
      and "map_results (\<lambda>v. api_object v ''user repository'') vs = Inr more"
    with url have here: "?listed ms (?r, Inr response)" if "ms \<in> set more" for ms
      using that by (auto simp: lists_repository_def dest: map_objects)
    show "api_spec (enat (length pages)) (reads_with token)
        (if length vs < 100 then return_op (acc @ more)
         else user_repository_pages http (api_headers token) installation_id pages (acc @ more))
        (\<lambda>found new. \<forall>ms \<in> set found. ms \<in> set acc \<or> list_ex (?listed ms) ([(?r, Inr response)] @ new))"
    proof (cases "length vs < 100")
      case True
      with here show ?thesis by (auto intro!: api_spec_return)
    next
      case False
      have "api_spec (enat (length pages)) (reads_with token)
          (user_repository_pages http (api_headers token) installation_id pages (acc @ more))
          (\<lambda>found new. \<forall>ms \<in> set found. ms \<in> set acc \<or> list_ex (?listed ms) ([(?r, Inr response)] @ new))"
        by (rule api_spec_weaken [OF Cons [of "acc @ more"]]) (use here in auto)
      with False show ?thesis by simp
    qed
  qed
  then have "api_spec (1 + enat (length pages)) (reads_with token)
      (user_repository_pages http (api_headers token) installation_id (page # pages) acc)
      (\<lambda>found new. \<forall>ms \<in> set found. ms \<in> set acc \<or> list_ex (?listed ms) new)"
    unfolding user_repository_pages.simps
    by (intro api_spec_and_then [where Q = "\<lambda>a new. new = [(?r, Inr a)]"] api_spec_send) auto
  then show ?case by (simp add: one_enat_def)
qed

lemma user_installation_pages_spec:
  assumes "list_all (\<lambda>n. 0 < n) ids"
  shows "api_spec (enat (length pages)) (reads_with token)
     (user_installation_pages http (api_headers token) pages ids) (\<lambda>found _. list_all (\<lambda>n. 0 < n) found)"
  using assms
proof (induction pages arbitrary: ids)
  case Nil
  show ?case by (simp add: api_spec_raise)
next
  case (Cons page pages)
  have more: "list_all (\<lambda>n. 0 < n) ids'" if "add_ids complaint vs old = Inr ids'" "list_all (\<lambda>n. 0 < n) old"
    for complaint vs old ids'
    using that by (induction complaint vs old rule: add_ids.induct)
      (auto simp: result_then_ok api_positive_Inr split: if_split_asm)
  have "api_spec (1 + enat (length pages)) (reads_with token)
      (user_installation_pages http (api_headers token) (page # pages) ids) (\<lambda>found _. list_all (\<lambda>n. 0 < n) found)"
    unfolding user_installation_pages.simps
    by (intro api_spec_or_then api_spec_and_then [where Q = "\<lambda>_ _. True"] api_spec_send)
      (use Cons.prems in \<open>auto dest: more intro!: api_spec_return Cons.IH\<close>)
  then show ?case by (simp add: one_enat_def)
qed

text \<open>What one installation's listing adds.\<close>

lemma add_entitlements_Inr:
  assumes "add_entitlements installation_id found seen es = Inr (seen', es')"
    and "entitlements_ok es" "ent_repository ` set es \<subseteq> set seen" "0 < installation_id"
  shows "entitlements_ok es' \<and> ent_repository ` set es' \<subseteq> set seen' \<and>
     (\<forall>e \<in> set es'. e \<in> set es \<or> ent_installation e = installation_id \<and>
        (\<exists>ms \<in> set found. member_of ms ''id'' = JInt (ent_repository e) \<and>
           repository_permission (member_of ms ''permissions'') = Inr (Some (ent_permission e))))"
  using assms
proof (induction installation_id found seen es rule: add_entitlements.induct)
  case (2 installation_id ms rest seen es)
  from 2(2) obtain n granted where n: "member_of ms ''id'' = JInt n" "0 < n" "n \<notin> set seen"
    and granted: "repository_permission (member_of ms ''permissions'') = Inr granted"
    and rest: "add_entitlements installation_id rest (n # seen)
      (case granted of None \<Rightarrow> es
       | Some p \<Rightarrow> es @ [\<lparr>ent_installation = installation_id, ent_repository = n, ent_permission = p\<rparr>]) = Inr (seen', es')"
    by (auto simp: result_then_ok api_positive_Inr split: if_split_asm)
  from 2(1) [OF n(3) rest] n 2(3-5)
  show ?case
    using granted by (cases granted) (force simp: entitlements_ok_def)+
qed simp

lemma entitlement_pages_spec:
  assumes "entitlements_ok es" "ent_repository ` set es \<subseteq> set seen" "list_all (\<lambda>n. 0 < n) ids"
  shows "api_spec \<infinity> (reads_with token) (entitlement_pages http (api_headers token) ids seen es)
     (\<lambda>es' new. entitlements_ok es' \<and> (\<forall>e \<in> set es'. e \<in> set es \<or> list_ex (granted_by token e) new))"
  using assms
proof (induction ids arbitrary: seen es)
  case Nil
  then show ?case by (simp add: api_spec_return)
next
  case (Cons installation_id ids)
  let ?listed = "lists_repository token installation_id"
  have "api_spec \<infinity> (reads_with token)
      (and_then (or_api (add_entitlements installation_id found seen es)) (\<lambda>(seen', es').
        entitlement_pages http (api_headers token) ids seen' es'))
      (\<lambda>es' new. entitlements_ok es' \<and> (\<forall>e \<in> set es'. e \<in> set es \<or> list_ex (granted_by token e) (old @ new)))"
    if old: "\<forall>ms \<in> set found. list_ex (?listed ms) old" for found old
  proof (rule api_spec_or_then)
    fix a
    assume a: "add_entitlements installation_id found seen es = Inr a"
    obtain seen' es' where pair [simp]: "a = (seen', es')" by (cases a)
    from a Cons.prems add_entitlements_Inr [of installation_id found seen es seen' es']
    have added: "entitlements_ok es'" "ent_repository ` set es' \<subseteq> set seen'"
      and grants: "\<forall>e \<in> set es'. e \<in> set es \<or> ent_installation e = installation_id \<and>
        (\<exists>ms \<in> set found. member_of ms ''id'' = JInt (ent_repository e) \<and>
           repository_permission (member_of ms ''permissions'') = Inr (Some (ent_permission e)))"
      by simp_all
    have "e \<in> set es \<or> list_ex (granted_by token e) old" if "e \<in> set es'" for e
      using bspec [OF grants that] old by (fastforce simp: list_ex_iff granted_by_def)
    then show "api_spec \<infinity> (reads_with token)
        (case a of (seen', es') \<Rightarrow> entitlement_pages http (api_headers token) ids seen' es')
        (\<lambda>es' new. entitlements_ok es' \<and> (\<forall>e \<in> set es'. e \<in> set es \<or> list_ex (granted_by token e) (old @ new)))"
      using Cons.prems Cons.IH [OF added] by (auto intro: api_spec_weaken)
  qed
  moreover have "api_spec (enat (length all_pages)) (reads_with token)
      (user_installation_repositories http (api_headers token) installation_id)
      (\<lambda>found new. \<forall>ms \<in> set found. list_ex (?listed ms) new)"
    using user_repository_pages_spec [where acc = "[]"] by (simp add: user_installation_repositories_def)
  ultimately have "api_spec (enat (length all_pages) + \<infinity>) (reads_with token)
      (entitlement_pages http (api_headers token) (installation_id # ids) seen es)
      (\<lambda>es' new. entitlements_ok es' \<and> (\<forall>e \<in> set es'. e \<in> set es \<or> list_ex (granted_by token e) new))"
    unfolding entitlement_pages.simps by (intro api_spec_and_then) blast+
  then show ?case by simp
qed

lemma project_grants_total:
  "distinct (map ent_repository es) \<Longrightarrow> list_all (\<lambda>e. 0 < ent_installation e \<and> 0 < ent_repository e) es
     \<Longrightarrow> seen \<inter> ent_repository ` set es = {} \<Longrightarrow> \<not> isl (project_grants ids es seen by_project)"
  by (induction ids es seen by_project rule: project_grants.induct) (auto split: option.split)

lemma entitlements_project: "entitlements_ok es \<Longrightarrow> \<not> isl (project_grants ids es {} [])"
  by (simp add: entitlements_ok_def project_grants_total)

lemma fetch_entitlements_spec:
  "api_spec \<infinity> (reads_with token) (fetch_entitlements http token)
     (\<lambda>es new. entitlements_ok es \<and> list_all (\<lambda>e. list_ex (granted_by token e) new) es)"
proof (cases "token = []")
  case True
  then show ?thesis by (simp add: fetch_entitlements_def api_spec_raise)
next
  case False
  have first: "api_spec (enat (length all_pages)) (reads_with token) (user_installation_ids http (api_headers token))
      (\<lambda>found _. list_all (\<lambda>n. 0 < n) found)"
    unfolding user_installation_ids_def by (rule user_installation_pages_spec) simp
  have rest: "api_spec \<infinity> (reads_with token) (entitlement_pages http (api_headers token) ids [] [])
      (\<lambda>es new. entitlements_ok es \<and> list_all (\<lambda>e. list_ex (granted_by token e) (old @ new)) es)"
    if "list_all (\<lambda>n. 0 < n) ids" for ids old
    by (rule api_spec_weaken [OF entitlement_pages_spec [where es = "[]"]])
      (use that in \<open>auto simp: entitlements_ok_def list_all_iff\<close>)
  from api_spec_and_then [OF first rest] False show ?thesis
    by (simp add: fetch_entitlements_def)
qed

text \<open>
  C17. The entitlements of a user are GitHub's answers to that user.  Whatever the network does, the
  client only reads with the user's token; every entitlement it returns is the permission of a
  repository that GitHub listed, in answer to one of those reads, for that installation; and the
  entitlements name positive installations and distinct positive repositories, so that their
  projection onto projects never fails.
\<close>

theorem entitlements_are_answers:
  "case fetch_entitlements http token s of (r, s') \<Rightarrow>
     (\<exists>new. ap_log s' = ap_log s @ new \<and> list_all (reads_with token \<circ> fst) new \<and>
        (case r of
           Inl _ \<Rightarrow> True
         | Inr es \<Rightarrow>
             entitlements_ok es \<and> list_all (\<lambda>e. list_ex (granted_by token e) new) es \<and>
             \<not> isl (project_grants ids es {} [])))"
proof -
  obtain new where "ap_log (snd (fetch_entitlements http token s)) = ap_log s @ new"
    "list_all (reads_with token \<circ> fst) new"
    "case fst (fetch_entitlements http token s) of Inl _ \<Rightarrow> True
      | Inr es \<Rightarrow> entitlements_ok es \<and> list_all (\<lambda>e. list_ex (granted_by token e) new) es"
    by (rule api_spec_at [OF fetch_entitlements_spec])
  then show ?thesis
    by (cases "fetch_entitlements http token s")
      (auto simp: entitlements_project split: sum.splits)
qed

section \<open>The other listings\<close>

lemma api_spec_bind: "api_spec n P m (\<lambda>_ _. True) \<Longrightarrow> (\<And>a. api_spec k P (f a) (\<lambda>b _. R b)) \<Longrightarrow>
    api_spec (n + k) P (and_then m f) (\<lambda>b _. R b)"
  by (rule api_spec_and_then)

text \<open>One repository costs two requests to the fixed origin, and its identifiers are positive.\<close>

lemma api_repository_Inr:
  "api_repository v = Inr r \<Longrightarrow> 0 < rs_repository_id r \<and> 0 < rs_owner_id r"
  by (auto simp: api_repository_def result_then_ok api_positive_Inr split: json.split_asm option.split_asm)

lemma repository_spec:
  "api_spec 2 at_github (fetch_authoritative_repository env http installation_id full_name)
     (\<lambda>r _. 0 < rs_repository_id r \<and> 0 < rs_owner_id r)"
proof -
  let ?Q = "\<lambda>r _. 0 < rs_repository_id r \<and> 0 < rs_owner_id r"
  have read: "api_spec (1 + 0) at_github
      (and_then (send http (api_get (''/repos/'' @ full_name) (api_headers token))) (\<lambda>response.
         if ar_status response \<noteq> 200
         then raise_op (Api_error ''GitHub returned an unexpected response status'')
         else or_api (api_repository (ar_payload response)))) ?Q" for token
    by (rule api_spec_and_then [where Q = "\<lambda>_ _. True"])
      (auto intro!: api_spec_send api_spec_raise api_spec_or dest: api_repository_Inr)
  have two: "1 + (1 + 0) = (2 :: enat)" by simp
  have answer: "api_spec 2 at_github
      (and_then (installation_token http installation_id jwt) (\<lambda>token.
         and_then (send http (api_get (''/repos/'' @ full_name) (api_headers token))) (\<lambda>response.
           if ar_status response \<noteq> 200
           then raise_op (Api_error ''GitHub returned an unexpected response status'')
           else or_api (api_repository (ar_payload response))))) ?Q" for jwt
    using api_spec_and_then [OF installation_token_spec read] unfolding two .
  show ?thesis
    unfolding fetch_authoritative_repository_def
    by (rule api_spec_or_then) (auto split: sum.split intro!: api_spec_raise api_spec_or_then intro: answer [simplified])
qed

text \<open>The set of installations costs at most a hundred, and names each installation once.\<close>

lemma add_states_distinct:
  "add_states from_iso vs states = Inr states' \<Longrightarrow> distinct (map fst states) \<Longrightarrow> distinct (map fst states')"
  by (induction from_iso vs states rule: add_states.induct) (auto simp: result_then_ok split: if_split_asm)

end
