(* ===== verification/Local_Ingest.thy ===== *)
theory Local_Ingest
  imports Claim_Persist Repo_Identity
begin

text \<open>
  The upload of one local scan (\<^verbatim>\<open>workflows/local_scan_ingest\<close> composed with the SQL
  adapters of \<^verbatim>\<open>infrastructure/local_scan_ingest.py\<close>): resolve the project, authorize,
  reserve quota, claim the request, persist the result graph together with the completion of the
  claim, and record the attempt.  A command carries the validated metadata as a JSON object.
\<close>

section \<open>Commands and results\<close>

record local_command =
  lc_user_id :: int
  lc_correlation_id :: string
  lc_token_id :: string
  lc_token_label :: string
  lc_token_scopes :: "string set"
  lc_request_id :: string
  lc_metadata :: members
  lc_findings :: members
  lc_accepted_bytes :: int
  lc_payload_hash :: string
  lc_findings_bytes :: bytes
  lc_sarif_bytes :: "bytes option"
  lc_sbom_bytes :: "bytes option"
  lc_public_base_url :: string

datatype scan_outcome = Scan_Created | Scan_Replayed | Scan_In_Progress

record scan_result =
  sn_outcome :: scan_outcome
  sn_run_id :: "string option"
  sn_project_id :: int
  sn_repository :: string
  sn_run_url :: "string option"
  sn_status :: string
  sn_status_url :: "string option"
  sn_retry_after :: "int option"

record project_resolution =
  rs_project :: "resolved_project option"
  rs_hidden :: bool
  rs_can_upload :: bool

text \<open>The adapters' environment: clock, fresh identifiers, foreign keys and limits.\<close>

record local_env =
  lv_sql :: sql_env
  lv_redaction :: redaction_port
  lv_netloc_ok :: "string \<Rightarrow> bool"
  lv_parents :: "claim_command \<Rightarrow> bool"
  lv_lease_id :: string
  lv_run_uuid :: string
  lv_started :: datetime
  lv_limits :: usage_limits
  lv_shared :: shared_usage_limits

type_synonym 'a db_op = "(ingest_db session, ingest_exn, 'a) op"

definition scan_error :: "int \<Rightarrow> string \<Rightarrow> string \<Rightarrow> string \<Rightarrow> ingest_exn" where
  "scan_error status code title detail =
     Exn_problem \<lparr>pb_status = status, pb_code = code, pb_title = title, pb_detail = detail,
       pb_retryable = False, pb_retry_after = None\<rparr>"

section \<open>Resolving the project\<close>

definition hidden_resolution :: project_resolution where
  "hidden_resolution = \<lparr>rs_project = None, rs_hidden = True, rs_can_upload = False\<rparr>"

definition resolve_rows ::
    "(string \<Rightarrow> bool) \<Rightarrow> datetime \<Rightarrow> string \<Rightarrow> int \<Rightarrow> ingest_db \<Rightarrow> ingest_exn + project_resolution" where
  "resolve_rows netloc_ok now repository user_id d =
     (case normalize_github_repository_key netloc_ok repository of
        Inl message \<Rightarrow> Inl (Exn_runtime message)
      | Inr key \<Rightarrow>
          Inr (case find (\<lambda>p. pj_repo_key p = Some key) (db_projects d) of
             None \<Rightarrow> \<lparr>rs_project = None, rs_hidden = False, rs_can_upload = False\<rparr>
           | Some project \<Rightarrow>
               (case (if pj_hidden project then None else pj_repo project) of
                  None \<Rightarrow> hidden_resolution
                | Some repo \<Rightarrow>
                    (case find (\<lambda>u. us_id u = user_id) (db_users d) of
                       None \<Rightarrow> hidden_resolution
                     | Some user \<Rightarrow>
                         if us_disabled_at user \<noteq> None then hidden_resolution
                         else if require_project (db_memberships d) (db_projects d) now
                             \<lparr>ap_user_id = Some (us_id user), ap_role = us_role user\<rparr> (pj_id project) UPLOAD = None
                         then hidden_resolution
                         else \<lparr>rs_project = Some \<lparr>rj_project_id = pj_id project, rj_repository = repo,
                                 rj_github_repository_id = pj_repository_id project\<rparr>,
                               rs_hidden = False, rs_can_upload = True\<rparr>))))"

definition resolve_project :: "local_env \<Rightarrow> string \<Rightarrow> int \<Rightarrow> project_resolution db_op" where
  "resolve_project env repository user_id =
     and_then (statement (\<lambda>d. case resolve_rows (lv_netloc_ok env) (sq_now (lv_sql env)) repository user_id d of
                                Inl e \<Rightarrow> Inl e | Inr r \<Rightarrow> Inr (r, d)))
       (\<lambda>r. and_then rollback (\<lambda>_. return_op r))"

section \<open>Reservation, claim and attempt\<close>

text \<open>The tables the quota adapter reads; retained bytes are the artifacts of local runs.\<close>

definition retained_rows :: "ingest_db \<Rightarrow> (int option \<times> int) list" where
  "retained_rows d =
     concat (map (\<lambda>a. concat (map (\<lambda>sr. map (\<lambda>r. (rr_submitted_by_user_id r, sa_size_bytes a))
         (filter (\<lambda>r. rr_run_id r = sc_run_id sr \<and> rr_origin r = ''local'') (db_runs d)))
       (filter (\<lambda>sr. sc_id sr = sa_scanner_run_id a) (db_scanner_runs d)))) (db_artifacts d))"

definition quota_view :: "ingest_db \<Rightarrow> quota_db" where
  "quota_view d =
     \<lparr>qd_locks = db_locks d, qd_charges = db_charges d, qd_local = db_local d,
      qd_github = db_github d, qd_retained = retained_rows d\<rparr>"

definition put_quota :: "quota_db \<Rightarrow> ingest_db \<Rightarrow> ingest_db" where
  "put_quota q d = d\<lparr>db_locks := qd_locks q, db_charges := qd_charges q\<rparr>"

text \<open>
  The resolver has ended its read transaction, so the reservation opens one; an allowed one
  stays open with the lock for the claim, a refused one is rolled back.
\<close>

definition reserved_session :: tx_state where
  "reserved_session = \<lparr>tx_open = True, tx_quota_lock = True\<rparr>"

definition quota_command_of :: "local_command \<Rightarrow> int \<Rightarrow> quota_command" where
  "quota_command_of c project_id =
     \<lparr>qc_user_id = lc_user_id c, qc_token_id = lc_token_id c,
      qc_client_request_id = lc_request_id c, qc_accepted_bytes = lc_accepted_bytes c,
      qc_enabled = True, qc_project_id = project_id, qc_payload_hash = lc_payload_hash c,
      qc_correlation_id = lc_correlation_id c\<rparr>"

definition reserve_rows ::
    "local_env \<Rightarrow> quota_command \<Rightarrow> ingest_db \<Rightarrow> ingest_exn + quota_result \<times> ingest_db" where
  "reserve_rows env command d =
     (case reserve_usage (local_reserve clean_session) (lv_limits env) (lv_shared env) command
             (lv_started env) (quota_view d) of
        Inl e \<Rightarrow> Inl (Exn_quota e)
      | Inr (result, q) \<Rightarrow> Inr (result, put_quota q d))"

definition reserve_local :: "local_env \<Rightarrow> quota_command \<Rightarrow> quota_result db_op" where
  "reserve_local env command =
     and_then (statement (reserve_rows env command)) (\<lambda>result.
       if qr_decision result \<in> {Quota_Allowed, Quota_Disabled} then return_op result
       else and_then rollback (\<lambda>_. return_op result))"

definition claim_command_of :: "local_command \<Rightarrow> int \<Rightarrow> claim_command" where
  "claim_command_of c project_id =
     \<lparr>cc_user_id = lc_user_id c, cc_token_id = lc_token_id c,
      cc_client_request_id = lc_request_id c, cc_project_id = project_id,
      cc_payload_hash = lc_payload_hash c, cc_accepted_bytes = lc_accepted_bytes c\<rparr>"

definition acquire_rows ::
    "local_env \<Rightarrow> claim_command \<Rightarrow> ingest_db \<Rightarrow> ingest_exn + claim_result \<times> ingest_db" where
  "acquire_rows env command d =
     (case acquire_claim (\<lambda>c now expires rows.
             local_acquire (lv_parents env) reserved_session c now expires (lv_lease_id env) rows)
             command (lv_started env) DEFAULT_LEASE (db_local d) of
        Inl e \<Rightarrow> Inl (Exn_claim e)
      | Inr (result, rows) \<Rightarrow> Inr (result, d\<lparr>db_local := rows\<rparr>))"

definition acquire_local :: "local_env \<Rightarrow> claim_command \<Rightarrow> claim_result db_op" where
  "acquire_local env command =
     and_then (statement (acquire_rows env command)) (\<lambda>result.
     and_then (if acquired result then commit else rollback) (\<lambda>_. return_op result))"

definition fail_rows :: "idempotency_claim \<Rightarrow> datetime \<Rightarrow> ingest_db \<Rightarrow> ingest_exn + unit \<times> ingest_db" where
  "fail_rows claim now d = Inr ((), d\<lparr>db_local := snd (local_fail claim now (db_local d))\<rparr>)"

definition fail_local :: "local_env \<Rightarrow> idempotency_claim \<Rightarrow> unit db_op" where
  "fail_local env claim =
     and_then (statement (fail_rows claim (sq_now (lv_sql env)))) (\<lambda>_. commit)"

definition request_key :: "local_command \<Rightarrow> string" where
  "request_key c = decimal_int (lc_user_id c) @ '':'' @ lc_request_id c"

definition local_attempt ::
    "local_env \<Rightarrow> local_command \<Rightarrow> int \<Rightarrow> string \<Rightarrow> string \<Rightarrow> bool \<Rightarrow> string option
     \<Rightarrow> attempt_error + attempt_record" where
  "local_attempt env c project_id outcome reason_code retryable run_id =
     build_ingest_attempt (sq_sha (lv_sql env)) (sq_new_id (lv_sql env))
       \<lparr>ac_correlation_id = lc_correlation_id c, ac_origin = ''local'', ac_project_id = project_id,
        ac_principal_kind = ''local_token'', ac_principal_reference = lc_token_id c,
        ac_request_key = request_key c, ac_outcome = outcome, ac_reason_code = reason_code,
        ac_retryable = retryable, ac_wire_bytes = lc_accepted_bytes c,
        ac_received_at = lv_started env,
        ac_completed_at = (if dt_less (sq_now (lv_sql env)) (lv_started env) then lv_started env
                           else sq_now (lv_sql env)),
        ac_run_id = run_id, ac_submitted_by_user_id = Some (lc_user_id c)\<rparr>"

definition record_attempt :: "attempt_error + attempt_record \<Rightarrow> unit db_op" where
  "record_attempt attempt =
     and_then (or_raise Exn_attempt attempt) (\<lambda>r.
     and_then (statement (stage_attempt_row r)) (\<lambda>_. commit))"

definition quota_reason :: "quota_decision \<Rightarrow> string" where
  "quota_reason d =
     (if d \<in> {User_Retained_Storage, Instance_Retained_Storage} then ''storage_quota_exceeded''
      else if d \<in> {Token_Inflight, User_Inflight, Instance_Inflight, Shared_Instance_Inflight}
      then ''capacity_exceeded''
      else if d = Quota_Disabled then ''project_not_enabled''
      else ''quota_exceeded'')"

definition quota_problem :: "quota_decision \<Rightarrow> int option \<Rightarrow> ingest_exn" where
  "quota_problem d retry_after =
     (if d \<in> {User_Retained_Storage, Instance_Retained_Storage}
      then scan_error 507 ''storage_quota_exceeded'' ''Retained storage quota exceeded''
        ''Delete retained scan data or wait for retention cleanup before retrying.''
      else if d = Quota_Disabled
      then scan_error 503 ''local_ingest_disabled'' ''Local ingest is disabled'' ''Local ingest is disabled.''
      else Exn_problem \<lparr>pb_status = 429, pb_code = ''upload_quota_exceeded'',
        pb_title = ''Upload quota exceeded'',
        pb_detail = ''The local upload rate or concurrency limit has been reached.'',
        pb_retryable = True, pb_retry_after = retry_after\<rparr>)"

section \<open>Answers\<close>

definition base_url :: "string \<Rightarrow> string" where
  "base_url url = rev (dropWhile (\<lambda>c. c = CHR ''/'') (rev url))"

definition scan_answer ::
    "scan_outcome \<Rightarrow> string option \<Rightarrow> int \<Rightarrow> string \<Rightarrow> string \<Rightarrow> scan_result" where
  "scan_answer outcome run_id project_id repository url =
     \<lparr>sn_outcome = outcome, sn_run_id = run_id, sn_project_id = project_id,
      sn_repository = repository,
      sn_run_url = map_option (\<lambda>r. base_url url @ ''/scans/'' @ r) run_id,
      sn_status = ''completed'', sn_status_url = None, sn_retry_after = None\<rparr>"

definition ingest_retry_after :: "datetime option \<Rightarrow> datetime \<Rightarrow> int" where
  "ingest_retry_after lease_expires_at now =
     (case lease_expires_at of
        None \<Rightarrow> 30
      | Some e \<Rightarrow> max 1 (min 300 (py_round (real_of_int (dt_instant e - dt_instant now) / 1000000))))"

definition progress_answer ::
    "local_env \<Rightarrow> local_command \<Rightarrow> resolved_project \<Rightarrow> datetime option \<Rightarrow> scan_result" where
  "progress_answer env c project lease_expires_at =
     \<lparr>sn_outcome = Scan_In_Progress, sn_run_id = None, sn_project_id = rj_project_id project,
      sn_repository = rj_repository project, sn_run_url = None, sn_status = ''processing'',
      sn_status_url = Some (base_url (lc_public_base_url c) @ ''/api/v1/ingest/local-scans/requests/'' @
        lc_request_id c),
      sn_retry_after = Some (ingest_retry_after lease_expires_at (lv_started env))\<rparr>"

section \<open>The envelope\<close>

definition PROVENANCE_KEYS :: "string list" where
  "PROVENANCE_KEYS =
     [''installation_id'', ''cli_version'', ''cli_build_revision'', ''cli_image_id'',
      ''cli_image_digest'', ''project_override'', ''scanner_manifest_version'',
      ''scanner_manifest_digest'', ''scanner_image_digests'', ''lfs_state'', ''submodules'']"

definition client_provenance :: "members \<Rightarrow> codes \<Rightarrow> members" where
  "client_provenance metadata detected =
     [(codes_of ''schema_version'', JInt 1), (codes_of ''detected_repository'', JString detected)] @
     concat (map (\<lambda>k. case map_of metadata (codes_of k) of None \<Rightarrow> [] | Some v \<Rightarrow> [(codes_of k, v)])
       PROVENANCE_KEYS)"

definition local_envelope_of ::
    "local_env \<Rightarrow> local_command \<Rightarrow> resolved_project \<Rightarrow> string \<Rightarrow> codes \<Rightarrow> bundle_error + local_envelope" where
  "local_envelope_of env c project run_id detected =
     (let md = lc_metadata c in
      case map_results (required_text md)
             [''commit'', ''git_object_format'', ''source_content_hash'', ''source_manifest_version''] of
        Inr [commit_sha, object_format, content_hash, manifest_version] \<Rightarrow>
          (case required md ''working_tree_dirty'' of
             Inl e \<Rightarrow> Inl e
           | Inr dirty \<Rightarrow>
               Inr \<lparr>le_run_id = run_id, le_project = project, le_submitted_by_user_id = lc_user_id c,
                    le_submitting_token_id = lc_token_id c,
                    le_submitting_token_label = lc_token_label c,
                    le_payload_hash = lc_payload_hash c, le_commit_sha = commit_sha,
                    le_git_object_format = object_format,
                    le_branch = text_of (member_of md ''branch''),
                    le_working_tree_dirty = truthy dirty, le_source_content_hash = content_hash,
                    le_source_manifest_version = manifest_version,
                    le_client_provenance_version = 1,
                    le_client_provenance = client_provenance md detected,
                    le_started_at = Some (lv_started env), le_completed_at = Some (lv_started env)\<rparr>)
      | Inl e \<Rightarrow> Inl e
      | Inr _ \<Rightarrow> Inl Bundle_TypeError)"

definition command_artifacts :: "local_command \<Rightarrow> (string \<times> bytes) list" where
  "command_artifacts c =
     [(''findings'', lc_findings_bytes c)] @
     (case lc_sarif_bytes c of None \<Rightarrow> [] | Some b \<Rightarrow> [(''sarif'', b)]) @
     (case lc_sbom_bytes c of None \<Rightarrow> [] | Some b \<Rightarrow> [(''sbom'', b)])"

section \<open>The workflow\<close>

text \<open>The part after an acquired claim.  Only the ingestion itself is guarded by the clean-up.\<close>

definition persist_local ::
    "local_env \<Rightarrow> local_command \<Rightarrow> resolved_project \<Rightarrow> codes \<Rightarrow> claim_result \<Rightarrow> scan_result db_op" where
  "persist_local env c project detected claimed =
     (let project_id = rj_project_id project; run_id = ''local-'' @ lv_run_uuid env in
      and_then (or_raise Exn_claim (claim_handle (claim_command_of c project_id) claimed)) (\<lambda>claim.
      and_then (or_raise id (bind_claim claim unbound)) (\<lambda>b1.
      and_then (or_raise Exn_attempt (local_attempt env c project_id ''accepted'' ''accepted'' False (Some run_id))) (\<lambda>attempt.
      and_then (or_raise id (bind_attempt attempt b1)) (\<lambda>b.
      and_then (or_raise Exn_bundle (local_envelope_of env c project run_id detected)) (\<lambda>envelope.
      and_then (or_raise Exn_bundle (build_local_result_bundle (lc_findings c) (command_artifacts c))) (\<lambda>bundle.
      and_then (on_error
          (ingest_result_bundle (lv_redaction env) (local_persistence (lv_sql env) b) False
             (Local_origin envelope) bundle)
          (and_then (ignoring_errors (fail_local env claim)) (\<lambda>_.
           ignoring_errors (record_attempt (local_attempt env c project_id ''failed_internal''
             ''internal_persistence_failed'' True None))))) (\<lambda>_.
      return_op (scan_answer Scan_Created (Some run_id) project_id (rj_repository project)
        (lc_public_base_url c))))))))))"

definition answer_claim ::
    "local_env \<Rightarrow> local_command \<Rightarrow> resolved_project \<Rightarrow> codes \<Rightarrow> claim_result \<Rightarrow> scan_result db_op" where
  "answer_claim env c project detected claimed =
     (let project_id = rj_project_id project;
          note_attempt = (\<lambda>outcome reason retryable run_id.
            record_attempt (local_attempt env c project_id outcome reason retryable run_id)) in
      if cr_decision claimed = Replay then
        and_then (note_attempt ''replayed'' ''idempotent_replay'' False (cr_run_id claimed)) (\<lambda>_.
        return_op (scan_answer Scan_Replayed (cr_run_id claimed) project_id (rj_repository project)
          (lc_public_base_url c)))
      else if cr_decision claimed = In_Progress then
        and_then (note_attempt ''replayed'' ''idempotent_replay'' True None) (\<lambda>_.
        return_op (progress_answer env c project (cr_lease_expires_at claimed)))
      else if cr_decision claimed = Claim_Conflict then
        and_then (note_attempt ''rejected'' ''idempotency_conflict'' False None) (\<lambda>_.
        raise_op (scan_error 409 ''idempotency_conflict'' ''Idempotency key conflict''
          ''The request ID is already bound to different scan content or a different project.''))
      else if cr_decision claimed = Claim_Tombstoned then
        and_then (note_attempt ''rejected'' ''idempotency_conflict'' False None) (\<lambda>_.
        raise_op (scan_error 410 ''idempotency_tombstoned'' ''Scan request is no longer available''
          ''This request ID belongs to a deleted scan and cannot yet be reused.''))
      else persist_local env c project detected claimed)"

definition upload_context_of :: "local_command \<Rightarrow> project_resolution \<Rightarrow> upload_context" where
  "upload_context_of c resolution =
     \<lparr>user_active = True, token_scopes = lc_token_scopes c, project_registered = True,
      project_hidden = False, user_can_upload = rs_can_upload resolution\<rparr>"

definition claim_and_persist :: "local_env \<Rightarrow> local_command \<Rightarrow> resolved_project \<Rightarrow> codes \<Rightarrow> scan_result db_op" where
  "claim_and_persist env c project detected =
     and_then (reserve_local env (quota_command_of c (rj_project_id project))) (\<lambda>quota.
     if qr_decision quota \<noteq> Quota_Allowed then
       and_then (record_attempt (local_attempt env c (rj_project_id project) ''rejected''
         (quota_reason (qr_decision quota))
         (qr_decision quota \<notin> {User_Retained_Storage, Instance_Retained_Storage}) None)) (\<lambda>_.
       raise_op (quota_problem (qr_decision quota) (qr_retry_after_seconds quota)))
     else
       and_then (acquire_local env (claim_command_of c (rj_project_id project))) (\<lambda>claimed.
       answer_claim env c project detected claimed))"

text \<open>The selector is text of the metadata; a reference outside Latin-1 names no repository.\<close>

definition selector_text :: "codes \<Rightarrow> ingest_exn + string" where
  "selector_text s =
     (if list_all (\<lambda>c. c < 256) s then Inr (code_char s)
      else Inl (Exn_runtime ''expected a GitHub owner/repository reference''))"

definition ingest_local_scan :: "local_env \<Rightarrow> local_command \<Rightarrow> scan_result db_op" where
  "ingest_local_scan env c =
     and_then (or_raise Exn_bundle (required_text (lc_metadata c) ''repository'')) (\<lambda>detected.
     and_then (or_raise id (selector_text
       (case text_of (member_of (lc_metadata c) ''project_override'') of
          None \<Rightarrow> detected | Some s \<Rightarrow> if s = [] then detected else s))) (\<lambda>selector.
     and_then (resolve_project env selector (lc_user_id c)) (\<lambda>resolution.
     if rs_hidden resolution then
       raise_op (scan_error 404 ''project_not_found'' ''Project not found'' ''The project is not available.'')
     else (case rs_project resolution of
        None \<Rightarrow> raise_op (scan_error 409 ''project_not_registered'' ''Project is not registered''
          ''Register the repository in Assurance Scan before uploading local results.'')
      | Some project \<Rightarrow>
          (let authorization = authorize_local_scan_upload (upload_context_of c resolution) in
           if \<not> az_allowed authorization then
             and_then (record_attempt (local_attempt env c (rj_project_id project) ''rejected''
               ''repository_not_authorized'' False None)) (\<lambda>_.
             raise_op (scan_error 403 ''project_forbidden'' ''Project upload is forbidden''
               (az_reason authorization)))
           else claim_and_persist env c project detected)))))"

section \<open>A run is published only with its claim\<close>

lemma record_attempt_quiet: "triple quiet (record_attempt attempt) (\<lambda>_. quiet) quiet"
  unfolding record_attempt_def
  by (rule triple_or_raise, rule triple_and_then [OF quiet_statement [OF quiet_attempt]],
      rule triple_weaken [OF quiet_commit]) (auto intro: settled_quiet)

lemma resolve_project_quiet: "triple quiet (resolve_project env selector user) (\<lambda>_. quiet) quiet"
  unfolding resolve_project_def
  by (rule triple_and_then [OF quiet_statement])
    (auto simp: keeps_runs_def split: sum.splits
      intro!: triple_and_then [OF settled_weaken [OF quiet_rollback]] triple_return)

lemma reserve_local_quiet: "triple quiet (reserve_local env command) (\<lambda>_. quiet) quiet"
  unfolding reserve_local_def
  by (rule triple_and_then [OF quiet_statement])
    (auto simp: keeps_runs_def reserve_rows_def put_quota_def split: sum.splits
      intro!: triple_and_then [OF settled_weaken [OF quiet_rollback]] triple_return triple_if)

lemma acquire_local_settled: "triple quiet (acquire_local env command) (\<lambda>_. settled) quiet"
  unfolding acquire_local_def
  by (rule triple_and_then [OF quiet_statement])
    (auto simp: keeps_runs_def acquire_rows_def split: sum.splits
      intro!: triple_and_then [where Q = "\<lambda>_. settled"] triple_return triple_if quiet_commit
        triple_weaken [OF quiet_rollback] settled_quiet)

lemma fail_local_quiet: "triple quiet (fail_local env claim) (\<lambda>_. quiet) quiet"
  unfolding fail_local_def
  by (rule triple_and_then [OF quiet_statement], simp add: keeps_runs_def fail_rows_def,
      rule triple_weaken [OF quiet_commit]) (auto intro: settled_quiet)

text \<open>
  The one transaction that adds a run: the row carries the submitting user and the hash of the
  payload, the claim of the request was processed before and is completed with the run after.
\<close>

definition publishes_request :: "local_command \<Rightarrow> string \<Rightarrow> ingest_db \<times> ingest_db \<Rightarrow> bool" where
  "publishes_request c run_id e \<longleftrightarrow>
     (\<exists>row. db_runs (snd e) = db_runs (fst e) @ [row] \<and> rr_run_id row = run_id \<and>
        rr_submitted_by_user_id row = Some (lc_user_id c) \<and> rr_payload_hash row = Some (lc_payload_hash c)) \<and>
     (\<exists>claim \<in> set (db_local (fst e)). local_key claim = (lc_user_id c, lc_request_id c) \<and>
        cl_state claim = Processing \<and> cl_payload_hash claim = lc_payload_hash c) \<and>
     (\<exists>claim \<in> set (db_local (snd e)). local_key claim = (lc_user_id c, lc_request_id c) \<and>
        cl_state claim = Completed \<and> cl_run_id claim = Some run_id)"

text \<open>What a call leaves behind: a created run is published, or its fresh id was taken.\<close>

definition leaves :: "local_command \<Rightarrow> scan_result \<Rightarrow> ingest_db session \<Rightarrow> bool" where
  "leaves c result s \<longleftrightarrow>
     (case (sn_outcome result, sn_run_id result) of
        (Scan_Created, Some run_id) \<Rightarrow>
          (\<exists>e. published s = [e] \<and> publishes_request c run_id e) \<or>
          published s = [] \<and> run_present run_id s
      | (Scan_Created, None) \<Rightarrow> False
      | _ \<Rightarrow> published s = [])"

lemma completed_claim:
  assumes "local_complete_row claim run_id now d = Inr (True, d')"
  shows "(\<exists>row \<in> set (db_local d). local_owned claim row) \<and>
    (\<exists>row \<in> set (db_local d'). local_key row = (ic_user_id claim, ic_client_request_id claim) \<and>
      cl_state row = Completed \<and> cl_run_id row = Some run_id)"
proof -
  from assms have pos: "0 < count_where (local_owned claim) (db_local d)"
    and rows: "db_local d' = update_where (local_owned claim)
      (\<lambda>row. row\<lparr>cl_state := Completed, cl_run_id := Some run_id, cl_lease_id := None,
         cl_lease_expires_at := None, cl_updated_at := now\<rparr>) (db_local d)"
    by (auto simp: local_complete_row_def local_complete_def life_complete_def split: sum.splits if_splits)
  let ?done = "\<lambda>row. row\<lparr>cl_state := Completed, cl_run_id := Some run_id, cl_lease_id := None,
         cl_lease_expires_at := None, cl_updated_at := now\<rparr>"
  from pos obtain row where row: "row \<in> set (db_local d)" "local_owned claim row" by (auto simp: count_where_pos)
  then have "?done row \<in> set (db_local d')" by (auto simp: rows set_update_where)
  moreover from row(2) have "local_key (?done row) = (ic_user_id claim, ic_client_request_id claim)"
    by (simp add: local_owned_def local_key_def)
  ultimately show ?thesis using row by (intro conjI bexI [of _ row] bexI [of _ "?done row"]) simp_all
qed

lemma persist_local_leaves:
  "triple settled (persist_local env c project detected claimed) (leaves c) (\<lambda>s. published s = [])"
proof -
  let ?pid = "rj_project_id project" and ?run = "''local-'' @ lv_run_uuid env"
  define created where "created = scan_answer Scan_Created (Some ?run) ?pid (rj_repository project)
    (lc_public_base_url c)"
  have guarded: "triple settled
      (and_then (on_error
          (ingest_result_bundle (lv_redaction env) (local_persistence (lv_sql env) b) False
             (Local_origin envelope) results)
          (and_then (ignoring_errors (fail_local env claim)) (\<lambda>_.
           ignoring_errors (record_attempt failed)))) (\<lambda>_. return_op created))
      (leaves c) (\<lambda>s. published s = [])"
    if handle: "claim_handle (claim_command_of c ?pid) claimed = Inr claim" and b: "bd_claim b = Some claim"
      and envelope: "local_envelope_of env c project ?run detected = Inr envelope"
    for b claim envelope results failed
  proof (rule triple_and_then [where Q = "\<lambda>_. leaves c created"])
    from handle have claim: "ic_user_id claim = lc_user_id c" "ic_client_request_id claim = lc_request_id c"
      "ic_payload_hash claim = lc_payload_hash c"
      by (auto simp: claim_handle_def claim_command_of_def split: bool.splits option.splits)
    from envelope have env: "le_run_id envelope = ?run" "le_submitted_by_user_id envelope = lc_user_id c"
      "le_payload_hash envelope = lc_payload_hash c"
      by (auto simp: local_envelope_of_def Let_def split: sum.splits list.splits)
    have fields: "make_run_record (lv_redaction env) (Local_origin envelope) clean = Inr r \<Longrightarrow>
        rr_run_id r = ?run \<and> rr_submitted_by_user_id r = Some (lc_user_id c) \<and>
        rr_payload_hash r = Some (lc_payload_hash c)" for clean r
      by (auto simp: make_run_record_def local_run_record_def env)
    have entry: "publishes_run e \<and> publishes_request c ?run e"
      if "publishes_claimed local_complete_row b r e"
        "make_run_record (lv_redaction env) (Local_origin envelope) clean = Inr r" for r e clean
    proof -
      from that(1) b obtain n now mid after where added: "db_runs (snd e) = db_runs (fst e) @ [run_record.extend r \<lparr>rw_local_run_number = n\<rparr>]"
        and same: "db_local mid = db_local (fst e)" "db_local (snd e) = db_local after"
        and complete: "local_complete_row claim (rr_run_id r) now mid = Inr (True, after)"
        by (auto simp: publishes_claimed_def adds_run_def claim_completed_def)
      from completed_claim [OF complete] fields [OF that(2)] show ?thesis
        unfolding publishes_run_def publishes_request_def added same [symmetric]
        by (auto simp: local_owned_def local_key_def run_record.defs claim)
    qed
    show "triple settled
        (on_error
          (ingest_result_bundle (lv_redaction env) (local_persistence (lv_sql env) b) False
             (Local_origin envelope) results)
          (and_then (ignoring_errors (fail_local env claim)) (\<lambda>_. ignoring_errors (record_attempt failed))))
        (\<lambda>_. leaves c created) (\<lambda>s. published s = [])"
    proof (rule triple_on_error)
      show "triple settled (ingest_result_bundle (lv_redaction env) (local_persistence (lv_sql env) b) False
          (Local_origin envelope) results) (\<lambda>_. leaves c created) settled"
        by (rule from_settled [OF local_results.ingests])
          (use fields entry in \<open>fastforce simp: leaves_def created_def scan_answer_def published_def\<close>)
      show "triple settled (and_then (ignoring_errors (fail_local env claim)) (\<lambda>_.
          ignoring_errors (record_attempt failed))) (\<lambda>_ s. published s = []) (\<lambda>s. published s = [])"
        by (rule triple_weaken, rule triple_and_then [OF triple_ignoring [OF fail_local_quiet]
              triple_ignoring [OF record_attempt_quiet]])
          (auto intro: settled_quiet quiet_published)
    qed
  qed (rule triple_return, simp)
  show ?thesis
    unfolding persist_local_def Let_def created_def [symmetric]
    by (rule triple_or_raise [OF _ settled_published])+
      (rule guarded, auto simp: bind_claim_def bind_attempt_def unbound_def split: if_splits)
qed

lemma after_quiet:
  assumes "triple quiet m (\<lambda>_. quiet) quiet" "\<And>a. triple quiet (k a) R (\<lambda>s. published s = [])"
  shows "triple quiet (and_then m k) R (\<lambda>s. published s = [])"
  by (rule triple_and_then [OF triple_weaken [OF assms(1)] assms(2)]) (auto simp: quiet_published)

lemma quiet_refusal: "triple quiet (raise_op e) R (\<lambda>s. published s = [])"
  by (rule triple_raise) (rule quiet_published)

lemma noted_refusal: "triple quiet (and_then (record_attempt a) (\<lambda>_. raise_op e)) R (\<lambda>s. published s = [])"
  by (rule after_quiet [OF record_attempt_quiet quiet_refusal])

lemma answer_claim_leaves:
  "triple settled (answer_claim env c project detected claimed) (leaves c) (\<lambda>s. published s = [])"
proof -
  have noted: "triple settled (and_then (record_attempt a) (\<lambda>_. return_op r)) (leaves c) (\<lambda>s. published s = [])"
    if "sn_outcome r \<noteq> Scan_Created" for a and r :: scan_result
    by (rule triple_weaken [OF after_quiet [OF record_attempt_quiet triple_return] settled_quiet])
      (use that in \<open>auto simp: leaves_def quiet_published split: scan_outcome.splits\<close>)
  have refused: "triple settled (and_then (record_attempt a) (\<lambda>_. raise_op e)) (leaves c) (\<lambda>s. published s = [])" for a e
    by (rule triple_weaken [OF noted_refusal settled_quiet])
  show ?thesis
    unfolding answer_claim_def Let_def
    by (intro triple_if triple_weaken [OF noted] triple_weaken [OF refused] triple_weaken [OF persist_local_leaves])
      (auto simp: scan_answer_def progress_answer_def)
qed

lemma claim_and_persist_leaves:
  "triple quiet (claim_and_persist env c project detected) (leaves c) (\<lambda>s. published s = [])"
  unfolding claim_and_persist_def
  by (intro after_quiet [OF reserve_local_quiet] triple_if noted_refusal
      triple_and_then [OF triple_weaken [OF acquire_local_settled] answer_claim_leaves])
    (auto simp: quiet_published)

lemma ingest_local_scan_leaves:
  "triple quiet (ingest_local_scan env c) (leaves c) (\<lambda>s. published s = [])"
  unfolding ingest_local_scan_def Let_def
  by (rule triple_or_raise [OF _ quiet_published])+
    (intro after_quiet [OF resolve_project_quiet] triple_if triple_case_option noted_refusal quiet_refusal
      claim_and_persist_leaves)

text \<open>A created answer names the run under the id drawn for this upload.\<close>

definition names_drawn_run :: "local_env \<Rightarrow> scan_result \<Rightarrow> bool" where
  "names_drawn_run env result \<longleftrightarrow>
     (if sn_outcome result = Scan_Created then sn_run_id result = Some (''local-'' @ lv_run_uuid env) else True)"

abbreviation drawn :: "local_env \<Rightarrow> scan_result db_op \<Rightarrow> bool" where
  "drawn env m \<equiv> triple (\<lambda>_. True) m (\<lambda>result _. names_drawn_run env result) (\<lambda>_. True)"

lemma triple_any: "triple (\<lambda>_. True) m (\<lambda>_ _. True) (\<lambda>_. True)"
  by (rule tripleI) (simp split: prod.split sum.split)

lemma drawn_after: "(\<And>a. drawn env (k a)) \<Longrightarrow> drawn env (and_then m k)"
  by (rule triple_and_then [OF triple_any])

lemma drawn_return: "names_drawn_run env result \<Longrightarrow> drawn env (return_op result)"
  by (rule triple_return) simp

lemma drawn_raise: "drawn env (raise_op e)"
  by (rule triple_raise) simp

lemma answer_claim_drawn: "drawn env (answer_claim env c project detected claimed)"
  unfolding answer_claim_def persist_local_def Let_def
  by (intro triple_if drawn_after drawn_raise drawn_return)
    (simp_all add: names_drawn_run_def scan_answer_def progress_answer_def)

lemma ingest_local_scan_drawn: "drawn env (ingest_local_scan env c)"
  unfolding ingest_local_scan_def claim_and_persist_def Let_def
  by (intro drawn_after triple_if triple_case_option drawn_raise answer_claim_drawn)

text \<open>
  C3. Whatever faults the database has and whatever other sessions commit between the statements
  of an upload, the workflow publishes at most one run.  It answers ''created'' only with a run
  that its own commit added together with the completion of the claim of the request (the row
  carries the submitting user and the hash of the payload), or when the fresh run id was already
  present; every other answer, and every error, has published no run.
\<close>

theorem local_upload_publishes_its_claim:
  "case ingest_local_scan env c (new_session faults others d) of
     (Inr answer, s) \<Rightarrow> leaves c answer s
   | (Inl _, s) \<Rightarrow> published s = []"
proof -
  have "quiet (new_session faults others d)" by (simp add: quiet_def new_session_def published_def)
  then show ?thesis using ingest_local_scan_leaves [of env c] by (auto simp: triple_def split: sum.splits prod.splits)
qed

end
