(* ===== verification/Github_Ingest.thy ===== *)
theory Github_Ingest
  imports Local_Ingest Envelope_V2
begin

text \<open>
  The upload of one authenticated GitHub Actions run (\<^verbatim>\<open>workflows/github_oidc_ingest\<close> composed
  with the SQL adapters of \<^verbatim>\<open>infrastructure/github_oidc_ingest.py\<close>): check that the metadata names
  the authenticated run, reserve quota, claim the run attempt, persist the result graph together
  with the completion of the claim, and record the attempt.
\<close>

section \<open>Commands and results\<close>

record github_command =
  gm_project_id :: int
  gm_repository :: string
  gm_repository_id :: int
  gm_owner_id :: int
  gm_run_id :: int
  gm_run_attempt :: int
  gm_accepted_bytes :: int
  gm_correlation_id :: string
  gm_envelope :: validated_envelope
  gm_public_base_url :: string

datatype github_outcome = Github_Created | Github_Replayed | Github_In_Progress

record github_result =
  gu_outcome :: github_outcome
  gu_run_id :: "string option"
  gu_project_id :: int
  gu_repository :: string
  gu_run_url :: "string option"
  gu_status :: string
  gu_status_url :: "string option"
  gu_retry_after :: "int option"

text \<open>The environment of the adapters; case folding of Unicode text is a parameter.\<close>

record github_env =
  gv_sql :: sql_env
  gv_redaction :: redaction_port
  gv_casefold :: "codes \<Rightarrow> codes"
  gv_parents :: "github_claim_command \<Rightarrow> bool"
  gv_lease_id :: string
  gv_started :: datetime
  gv_limits :: github_usage_limits
  gv_shared :: shared_usage_limits

section \<open>The authenticated identity\<close>

definition metadata_mapping :: "members \<Rightarrow> string \<Rightarrow> ingest_exn + members" where
  "metadata_mapping metadata name =
     (case member_of metadata name of
        JObject ms \<Rightarrow> Inr ms
      | _ \<Rightarrow> Inl (scan_error 422 ''schema_validation_failed'' ''Invalid result metadata''
          (''The validated '' @ name @ '' metadata is unavailable.'')))"

text \<open>\<^verbatim>\<open>str(repository.get("full_name", ""))\<close> of a text; the schema allows nothing else.\<close>

definition full_name_text :: "members \<Rightarrow> codes" where
  "full_name_text repository = (case text_of (member_of repository ''full_name'') of None \<Rightarrow> [] | Some s \<Rightarrow> s)"

definition identity_matches :: "(codes \<Rightarrow> codes) \<Rightarrow> github_command \<Rightarrow> members \<Rightarrow> members \<Rightarrow> bool" where
  "identity_matches casefold c producer repository \<longleftrightarrow>
     member_of producer ''kind'' = JString (codes_of ''github-actions'') \<and>
     py_equal (member_of producer ''repository_id'') (JInt (gm_repository_id c)) \<and>
     py_equal (member_of producer ''repository_owner_id'') (JInt (gm_owner_id c)) \<and>
     py_equal (member_of producer ''run_id'') (JInt (gm_run_id c)) \<and>
     py_equal (member_of producer ''run_attempt'') (JInt (gm_run_attempt c)) \<and>
     member_of repository ''provider'' = JString (codes_of ''github'') \<and>
     casefold (full_name_text repository) = casefold (codes_of (gm_repository c))"

definition identity_error :: ingest_exn where
  "identity_error =
     scan_error 409 ''artifact_mismatch'' ''Authenticated identity does not match artifacts''
       ''The uploaded metadata does not match the authenticated GitHub run.''"

section \<open>Reservation, claim and attempt\<close>

definition github_quota_command_of :: "github_command \<Rightarrow> github_quota_command" where
  "github_quota_command_of c =
     \<lparr>gq_project_id = gm_project_id c, gq_repository_id = gm_repository_id c,
      gq_owner_id = gm_owner_id c, gq_run_id = gm_run_id c, gq_run_attempt = gm_run_attempt c,
      gq_accepted_bytes = gm_accepted_bytes c, gq_payload_hash = ve_payload_hash (gm_envelope c),
      gq_correlation_id = gm_correlation_id c\<rparr>"

definition github_reserve_rows ::
    "github_env \<Rightarrow> github_quota_command \<Rightarrow> ingest_db \<Rightarrow> ingest_exn + github_quota_result \<times> ingest_db" where
  "github_reserve_rows env command d =
     (case reserve_github_usage (github_reserve clean_session) (gv_limits env) (gv_shared env) command
             (gv_started env) (quota_view d) of
        Inl e \<Rightarrow> Inl (Exn_quota e)
      | Inr (result, q) \<Rightarrow> Inr (result, put_quota q d))"

definition reserve_github :: "github_env \<Rightarrow> github_quota_command \<Rightarrow> github_quota_result db_op" where
  "reserve_github env command =
     and_then (statement (github_reserve_rows env command)) (\<lambda>result.
       if gqr_decision result = Github_Allowed then return_op result
       else and_then rollback (\<lambda>_. return_op result))"

definition github_claim_command_of :: "github_command \<Rightarrow> github_claim_command" where
  "github_claim_command_of c =
     \<lparr>gc_repository_id = gm_repository_id c, gc_owner_id = gm_owner_id c, gc_run_id = gm_run_id c,
      gc_run_attempt = gm_run_attempt c, gc_project_id = gm_project_id c,
      gc_payload_hash = ve_payload_hash (gm_envelope c), gc_accepted_bytes = gm_accepted_bytes c\<rparr>"

definition github_acquire_rows ::
    "github_env \<Rightarrow> github_claim_command \<Rightarrow> ingest_db \<Rightarrow> ingest_exn + claim_result \<times> ingest_db" where
  "github_acquire_rows env command d =
     (case acquire_github_claim (\<lambda>c now expires rows.
             github_acquire (gv_parents env) reserved_session c now expires (gv_lease_id env) rows)
             command (gv_started env) DEFAULT_LEASE (db_github d) of
        Inl e \<Rightarrow> Inl (Exn_claim e)
      | Inr (result, rows) \<Rightarrow> Inr (result, d\<lparr>db_github := rows\<rparr>))"

definition acquire_github :: "github_env \<Rightarrow> github_claim_command \<Rightarrow> claim_result db_op" where
  "acquire_github env command =
     and_then (statement (github_acquire_rows env command)) (\<lambda>result.
     and_then (if acquired result then commit else rollback) (\<lambda>_. return_op result))"

definition github_fail_rows ::
    "github_idempotency_claim \<Rightarrow> datetime \<Rightarrow> ingest_db \<Rightarrow> ingest_exn + unit \<times> ingest_db" where
  "github_fail_rows claim now d = Inr ((), d\<lparr>db_github := snd (github_fail claim now (db_github d))\<rparr>)"

definition fail_github :: "github_env \<Rightarrow> github_idempotency_claim \<Rightarrow> unit db_op" where
  "fail_github env claim =
     and_then (statement (github_fail_rows claim (sq_now (gv_sql env)))) (\<lambda>_. commit)"

definition github_request_key :: "github_command \<Rightarrow> string" where
  "github_request_key c =
     decimal_int (gm_repository_id c) @ '':'' @ decimal_int (gm_run_id c) @ '':'' @
     decimal_int (gm_run_attempt c)"

definition github_attempt ::
    "github_env \<Rightarrow> github_command \<Rightarrow> string \<Rightarrow> string \<Rightarrow> bool \<Rightarrow> string option
     \<Rightarrow> attempt_error + attempt_record" where
  "github_attempt env c outcome reason_code retryable run_id =
     build_ingest_attempt (sq_sha (gv_sql env)) (sq_new_id (gv_sql env))
       \<lparr>ac_correlation_id = gm_correlation_id c, ac_origin = ''github'',
        ac_project_id = gm_project_id c, ac_principal_kind = ''github_oidc'',
        ac_principal_reference = decimal_int (gm_owner_id c), ac_request_key = github_request_key c,
        ac_outcome = outcome, ac_reason_code = reason_code, ac_retryable = retryable,
        ac_wire_bytes = gm_accepted_bytes c, ac_received_at = gv_started env,
        ac_completed_at = (if dt_less (sq_now (gv_sql env)) (gv_started env) then gv_started env
                           else sq_now (gv_sql env)),
        ac_run_id = run_id, ac_submitted_by_user_id = None\<rparr>"

definition github_quota_reason :: "github_quota_decision \<Rightarrow> string" where
  "github_quota_reason d =
     (if d \<in> {Repository_Inflight, Github_Instance_Inflight} then ''capacity_exceeded'' else ''quota_exceeded'')"

definition github_quota_problem :: "github_quota_result \<Rightarrow> ingest_exn" where
  "github_quota_problem result =
     Exn_problem \<lparr>pb_status = 429, pb_code = github_quota_reason (gqr_decision result),
       pb_title = ''GitHub Actions upload capacity exceeded'',
       pb_detail = ''The upload cannot be accepted until capacity becomes available.'',
       pb_retryable = True, pb_retry_after = gqr_retry_after_seconds result\<rparr>"

section \<open>Answers\<close>

definition github_answer :: "github_command \<Rightarrow> github_outcome \<Rightarrow> string option \<Rightarrow> github_result" where
  "github_answer c outcome run_id =
     \<lparr>gu_outcome = outcome, gu_run_id = run_id, gu_project_id = gm_project_id c,
      gu_repository = gm_repository c,
      gu_run_url = map_option (\<lambda>r. base_url (gm_public_base_url c) @ ''/scans/'' @ r) run_id,
      gu_status = ''completed'', gu_status_url = None, gu_retry_after = None\<rparr>"

definition github_status_url :: "github_command \<Rightarrow> string" where
  "github_status_url c =
     base_url (gm_public_base_url c) @ ''/api/v2/ingest/github-actions/requests/'' @
     decimal_int (gm_repository_id c) @ ''/'' @ decimal_int (gm_run_id c) @ ''/'' @
     decimal_int (gm_run_attempt c)"

definition github_progress_answer :: "github_env \<Rightarrow> github_command \<Rightarrow> datetime option \<Rightarrow> github_result" where
  "github_progress_answer env c lease_expires_at =
     \<lparr>gu_outcome = Github_In_Progress, gu_run_id = None, gu_project_id = gm_project_id c,
      gu_repository = gm_repository c, gu_run_url = None, gu_status = ''processing'',
      gu_status_url = Some (github_status_url c),
      gu_retry_after = Some (ingest_retry_after lease_expires_at (gv_started env))\<rparr>"

section \<open>The envelope\<close>

definition github_artifacts :: "(string \<times> bytes) list \<Rightarrow> bundle_error + (string \<times> bytes) list" where
  "github_artifacts parts =
     (case map_of parts ''findings'' of
        None \<Rightarrow> Inl Bundle_KeyError
      | Some content \<Rightarrow>
          Inr ((''findings'', content) #
            concat (map (\<lambda>name. case map_of parts name of None \<Rightarrow> [] | Some b \<Rightarrow> [(name, b)])
              [''sarif'', ''sbom''])))"

text \<open>The title holds the middle dot, code 183.\<close>

definition github_title :: "int \<Rightarrow> int \<Rightarrow> codes" where
  "github_title run_number run_attempt =
     codes_of (''#'' @ decimal_int run_number) @ [32, 183, 32] @ codes_of ''assurance-scan'' @
     (if 1 < run_attempt then [32, 183, 32] @ codes_of (''attempt '' @ decimal_int run_attempt) else [])"

definition github_actions_url :: "github_command \<Rightarrow> string" where
  "github_actions_url c =
     ''https://github.com/'' @ gm_repository c @ ''/actions/runs/'' @ decimal_int (gm_run_id c) @
     ''/attempts/'' @ decimal_int (gm_run_attempt c)"

definition github_envelope_of ::
    "github_env \<Rightarrow> github_command \<Rightarrow> members \<Rightarrow> members \<Rightarrow> bundle_error + github_envelope" where
  "github_envelope_of env c producer source =
     (let md = ve_metadata (gm_envelope c) in
      result_then (required_int producer ''run_number'') (\<lambda>run_number.
      result_then (required_text md ''commit'') (\<lambda>commit_sha.
      result_then (required_text md ''git_object_format'') (\<lambda>object_format.
      result_then (required_text producer ''event_name'') (\<lambda>event.
      result_then (required_text producer ''actor'') (\<lambda>actor.
      result_then (required_text source ''content_hash'') (\<lambda>content_hash.
      result_then (required_text source ''manifest_version'') (\<lambda>manifest_version.
        Inr \<lparr>ge_project = \<lparr>rj_project_id = gm_project_id c, rj_repository = gm_repository c,
               rj_github_repository_id = Some (gm_repository_id c)\<rparr>,
             ge_github_run_id = gm_run_id c, ge_checkout_sha = commit_sha, ge_head_sha = commit_sha,
             ge_git_object_format = object_format, ge_branch = text_of (member_of md ''branch''),
             ge_conclusion = Some ''success'', ge_started_at = Some (gv_started env),
             ge_completed_at = Some (gv_started env), ge_run_number = Some run_number,
             ge_run_attempt = Some (gm_run_attempt c), ge_run_url = Some (github_actions_url c),
             ge_event = Some event, ge_actor = Some actor,
             ge_display_title = Some (github_title run_number (gm_run_attempt c)),
             ge_payload_hash = Some (ve_payload_hash (gm_envelope c)),
             ge_source_content_hash = Some content_hash,
             ge_source_manifest_version = Some manifest_version\<rparr>))))))))"

section \<open>The workflow\<close>

text \<open>The part after an acquired claim; as for local scans, only the ingestion is guarded.\<close>

definition persist_github ::
    "github_env \<Rightarrow> github_command \<Rightarrow> members \<Rightarrow> members \<Rightarrow> claim_result \<Rightarrow> github_result db_op" where
  "persist_github env c producer source claimed =
     and_then (or_raise Exn_claim (github_claim_handle (github_claim_command_of c) claimed)) (\<lambda>claim.
     and_then (or_raise id (bind_claim claim unbound)) (\<lambda>b1.
     and_then (or_raise Exn_bundle (github_run_id (gm_repository_id c) (gm_run_id c) (gm_run_attempt c))) (\<lambda>run_id.
     and_then (or_raise Exn_attempt (github_attempt env c ''accepted'' ''accepted'' False (Some run_id))) (\<lambda>attempt.
     and_then (or_raise id (bind_attempt attempt b1)) (\<lambda>b.
     and_then (or_raise Exn_bundle (github_artifacts (ve_canonical_parts (gm_envelope c)))) (\<lambda>artifacts.
     and_then (or_raise Exn_bundle (build_v2_result_bundle (ve_findings (gm_envelope c))
         (ve_source_contexts (gm_envelope c)) artifacts)) (\<lambda>bundle.
     and_then (or_raise Exn_bundle (github_envelope_of env c producer source)) (\<lambda>envelope.
     and_then (on_error
         (ingest_result_bundle (gv_redaction env) (github_persistence (gv_sql env) b) True
            (Github_origin envelope) bundle)
         (and_then (ignoring_errors (fail_github env claim)) (\<lambda>_.
          ignoring_errors (record_attempt (github_attempt env c ''failed_internal''
            ''internal_persistence_failed'' True None))))) (\<lambda>_.
     return_op (github_answer c Github_Created (Some run_id)))))))))))"

definition answer_github_claim ::
    "github_env \<Rightarrow> github_command \<Rightarrow> members \<Rightarrow> members \<Rightarrow> claim_result \<Rightarrow> github_result db_op" where
  "answer_github_claim env c producer source claimed =
     (if cr_decision claimed = Replay then
        and_then (record_attempt (github_attempt env c ''replayed'' ''idempotent_replay'' False (cr_run_id claimed))) (\<lambda>_.
        return_op (github_answer c Github_Replayed (cr_run_id claimed)))
      else if cr_decision claimed = In_Progress then
        and_then (record_attempt (github_attempt env c ''replayed'' ''idempotent_replay'' True None)) (\<lambda>_.
        return_op (github_progress_answer env c (cr_lease_expires_at claimed)))
      else if cr_decision claimed \<in> {Claim_Conflict, Claim_Tombstoned} then
        and_then (record_attempt (github_attempt env c ''rejected'' ''idempotency_conflict'' False None)) (\<lambda>_.
        raise_op (scan_error 409 ''idempotency_conflict'' ''GitHub run-attempt conflict''
          ''This GitHub run attempt is already bound to different scan content.''))
      else persist_github env c producer source claimed)"

definition reserve_and_claim ::
    "github_env \<Rightarrow> github_command \<Rightarrow> members \<Rightarrow> members \<Rightarrow> github_result db_op" where
  "reserve_and_claim env c producer source =
     and_then (reserve_github env (github_quota_command_of c)) (\<lambda>quota.
     if gqr_decision quota \<noteq> Github_Allowed then
       and_then (record_attempt (github_attempt env c ''rejected''
         (github_quota_reason (gqr_decision quota)) True None)) (\<lambda>_.
       raise_op (github_quota_problem quota))
     else
       and_then (acquire_github env (github_claim_command_of c)) (\<lambda>claimed.
       answer_github_claim env c producer source claimed))"

definition ingest_github_result :: "github_env \<Rightarrow> github_command \<Rightarrow> github_result db_op" where
  "ingest_github_result env c =
     (let md = ve_metadata (gm_envelope c) in
      and_then (or_raise id (metadata_mapping md ''producer'')) (\<lambda>producer.
      and_then (or_raise id (metadata_mapping md ''repository'')) (\<lambda>repository.
      and_then (or_raise id (metadata_mapping md ''source'')) (\<lambda>source.
      if \<not> identity_matches (gv_casefold env) c producer repository then
        and_then (record_attempt (github_attempt env c ''rejected'' ''artifact_mismatch'' False None)) (\<lambda>_.
        raise_op identity_error)
      else reserve_and_claim env c producer source))))"

section \<open>A run is published only with its claim\<close>

lemma reserve_github_quiet: "triple quiet (reserve_github env command) (\<lambda>_. quiet) quiet"
  unfolding reserve_github_def
  by (rule triple_and_then [OF quiet_statement])
    (auto simp: keeps_runs_def github_reserve_rows_def put_quota_def split: sum.splits
      intro!: triple_and_then [OF settled_weaken [OF quiet_rollback]] triple_return triple_if)

lemma acquire_github_settled: "triple quiet (acquire_github env command) (\<lambda>_. settled) quiet"
  unfolding acquire_github_def
  by (rule triple_and_then [OF quiet_statement])
    (auto simp: keeps_runs_def github_acquire_rows_def split: sum.splits
      intro!: triple_and_then [where Q = "\<lambda>_. settled"] triple_return triple_if quiet_commit
        triple_weaken [OF quiet_rollback] settled_quiet)

lemma fail_github_quiet: "triple quiet (fail_github env claim) (\<lambda>_. quiet) quiet"
  unfolding fail_github_def
  by (rule triple_and_then [OF quiet_statement], simp add: keeps_runs_def github_fail_rows_def,
      rule triple_weaken [OF quiet_commit]) (auto intro: settled_quiet)

text \<open>
  The one transaction that adds a run: the row carries the project, the run attempt and the hash of
  the payload, the claim of the run attempt was processed before and is completed with the run after.
\<close>

definition attempt_key :: "github_command \<Rightarrow> int \<times> int \<times> int" where
  "attempt_key c = (gm_repository_id c, gm_run_id c, gm_run_attempt c)"

definition publishes_attempt :: "github_command \<Rightarrow> string \<Rightarrow> ingest_db \<times> ingest_db \<Rightarrow> bool" where
  "publishes_attempt c run_id e \<longleftrightarrow>
     (\<exists>row. db_runs (snd e) = db_runs (fst e) @ [row] \<and> rr_run_id row = run_id \<and>
        rr_project_id row = gm_project_id c \<and> rr_github_run_id row = Some (gm_run_id c) \<and>
        rr_github_run_attempt row = Some (gm_run_attempt c) \<and>
        rr_payload_hash row = Some (ve_payload_hash (gm_envelope c))) \<and>
     (\<exists>claim \<in> set (db_github (fst e)). github_key claim = attempt_key c \<and>
        cl_state claim = Processing \<and> cl_payload_hash claim = ve_payload_hash (gm_envelope c)) \<and>
     (\<exists>claim \<in> set (db_github (snd e)). github_key claim = attempt_key c \<and>
        cl_state claim = Completed \<and> cl_run_id claim = Some run_id)"

definition names_attempt :: "github_env \<Rightarrow> github_command \<Rightarrow> bool" where
  "names_attempt env c \<longleftrightarrow>
     (\<exists>producer repository.
        member_of (ve_metadata (gm_envelope c)) ''producer'' = JObject producer \<and>
        member_of (ve_metadata (gm_envelope c)) ''repository'' = JObject repository \<and>
        identity_matches (gv_casefold env) c producer repository)"

definition github_leaves :: "github_env \<Rightarrow> github_command \<Rightarrow> github_result \<Rightarrow> ingest_db session \<Rightarrow> bool" where
  "github_leaves env c result s \<longleftrightarrow>
     (case gu_outcome result of
        Github_Created \<Rightarrow> names_attempt env c \<and>
          (\<exists>run_id e. gu_run_id result = Some run_id \<and>
             run_id = github_run_key (gm_repository_id c) (gm_run_id c) (gm_run_attempt c) \<and>
             published s = [e] \<and> publishes_attempt c run_id e)
      | _ \<Rightarrow> published s = [])"

lemma github_completed_claim:
  assumes "github_complete_row claim run_id now d = Inr (True, d')"
  shows "(\<exists>row \<in> set (db_github d). github_owned claim row) \<and>
    (\<exists>row \<in> set (db_github d'). github_key row = (gi_repository_id claim, gi_run_id claim, gi_run_attempt claim) \<and>
      cl_state row = Completed \<and> cl_run_id row = Some run_id)"
proof -
  let ?done = "\<lambda>row. row\<lparr>cl_state := Completed, cl_run_id := Some run_id, cl_lease_id := None,
         cl_lease_expires_at := None, cl_updated_at := now\<rparr>"
  from assms have pos: "0 < count_where (github_owned claim) (db_github d)"
    and rows: "db_github d' = update_where (github_owned claim) ?done (db_github d)"
    by (auto simp: github_complete_row_def github_complete_def life_complete_def split: sum.splits if_splits)
  from pos obtain row where row: "row \<in> set (db_github d)" "github_owned claim row" by (auto simp: count_where_pos)
  then have "?done row \<in> set (db_github d')" by (auto simp: rows set_update_where)
  moreover from row(2) have "github_key (?done row) = (gi_repository_id claim, gi_run_id claim, gi_run_attempt claim)"
    by (simp add: github_owned_def github_key_def)
  ultimately show ?thesis using row by (intro conjI bexI [of _ row] bexI [of _ "?done row"]) simp_all
qed

text \<open>What the envelope of a command puts into its run record.\<close>

lemma github_record_fields:
  assumes "github_envelope_of env c producer source = Inr envelope"
    and "make_run_record port (Github_origin envelope) clean = Inr r"
  shows "rr_run_id r = github_run_key (gm_repository_id c) (gm_run_id c) (gm_run_attempt c)"
    "rr_project_id r = gm_project_id c" "rr_github_run_id r = Some (gm_run_id c)"
    "rr_github_run_attempt r = Some (gm_run_attempt c)"
    "rr_payload_hash r = Some (ve_payload_hash (gm_envelope c))"
  using assms
  by (auto simp: github_envelope_of_def Let_def result_then_ok make_run_record_def github_run_record_def
      github_run_id_def or_zero_def split: if_splits)

lemma github_entry:
  assumes "publishes_claimed github_complete_row b r e" "bd_claim b = Some claim"
    and claim: "github_claim_handle (github_claim_command_of c) claimed = Inr claim"
    and r: "rr_run_id r = run_id" "rr_project_id r = gm_project_id c" "rr_github_run_id r = Some (gm_run_id c)"
      "rr_github_run_attempt r = Some (gm_run_attempt c)"
      "rr_payload_hash r = Some (ve_payload_hash (gm_envelope c))"
  shows "publishes_run e \<and> publishes_attempt c run_id e"
proof -
  from claim have key: "gi_repository_id claim = gm_repository_id c" "gi_run_id claim = gm_run_id c"
    "gi_run_attempt claim = gm_run_attempt c" "gi_payload_hash claim = ve_payload_hash (gm_envelope c)"
    by (auto simp: github_claim_handle_def github_claim_command_of_def split: bool.splits option.splits)
  from assms(1,2) obtain n now mid after
    where added: "db_runs (snd e) = db_runs (fst e) @ [run_record.extend r \<lparr>rw_local_run_number = n\<rparr>]"
      and same: "db_github mid = db_github (fst e)" "db_github (snd e) = db_github after"
      and complete: "github_complete_row claim (rr_run_id r) now mid = Inr (True, after)"
    by (auto simp: publishes_claimed_def adds_run_def claim_completed_def)
  from github_completed_claim [OF complete] show ?thesis
    unfolding publishes_run_def publishes_attempt_def added same [symmetric]
    by (auto simp: github_owned_def github_key_def attempt_key_def run_record.defs key r)
qed

lemma persist_github_leaves:
  assumes "names_attempt env c"
  shows "triple settled (persist_github env c producer source claimed) (github_leaves env c) (\<lambda>s. published s = [])"
proof -
  have guarded: "triple settled
      (and_then (on_error
         (ingest_result_bundle (gv_redaction env) (github_persistence (gv_sql env) b) True
            (Github_origin envelope) results)
         (and_then (ignoring_errors (fail_github env claim)) (\<lambda>_. ignoring_errors (record_attempt failed)))) (\<lambda>_.
       return_op (github_answer c Github_Created (Some run_id))))
      (github_leaves env c) (\<lambda>s. published s = [])"
    if handle: "github_claim_handle (github_claim_command_of c) claimed = Inr claim" and b: "bd_claim b = Some claim"
      and run: "github_run_id (gm_repository_id c) (gm_run_id c) (gm_run_attempt c) = Inr run_id"
      and envelope: "github_envelope_of env c producer source = Inr envelope"
    for b claim envelope results failed run_id
  proof (rule triple_and_then [where Q = "\<lambda>_. github_leaves env c (github_answer c Github_Created (Some run_id))"])
    from run have key: "run_id = github_run_key (gm_repository_id c) (gm_run_id c) (gm_run_attempt c)"
      by (simp add: github_run_id_def split: if_splits)
    have entry: "publishes_run e \<and> publishes_attempt c run_id e"
      if "publishes_claimed github_complete_row b r e"
        "make_run_record (gv_redaction env) (Github_origin envelope) clean = Inr r" for r e clean
      using github_entry [OF that(1) b handle] github_record_fields [OF envelope that(2)] key by simp
    show "triple settled
        (on_error
          (ingest_result_bundle (gv_redaction env) (github_persistence (gv_sql env) b) True
             (Github_origin envelope) results)
          (and_then (ignoring_errors (fail_github env claim)) (\<lambda>_. ignoring_errors (record_attempt failed))))
        (\<lambda>_. github_leaves env c (github_answer c Github_Created (Some run_id))) (\<lambda>s. published s = [])"
    proof (rule triple_on_error)
      show "triple settled (ingest_result_bundle (gv_redaction env) (github_persistence (gv_sql env) b) True
          (Github_origin envelope) results)
          (\<lambda>_. github_leaves env c (github_answer c Github_Created (Some run_id))) settled"
        by (rule from_settled [OF github_results.ingests])
          (use entry assms key in \<open>fastforce simp: github_leaves_def github_answer_def published_def\<close>)
      show "triple settled (and_then (ignoring_errors (fail_github env claim)) (\<lambda>_.
          ignoring_errors (record_attempt failed))) (\<lambda>_ s. published s = []) (\<lambda>s. published s = [])"
        by (rule triple_weaken, rule triple_and_then [OF triple_ignoring [OF fail_github_quiet]
              triple_ignoring [OF record_attempt_quiet]])
          (auto intro: settled_quiet quiet_published)
    qed
  qed (rule triple_return, simp)
  show ?thesis
    unfolding persist_github_def
    by (rule triple_or_raise [OF _ settled_published])+
      (rule guarded, auto simp: bind_claim_def bind_attempt_def unbound_def split: if_splits)
qed

lemma answer_github_claim_leaves:
  assumes "names_attempt env c"
  shows "triple settled (answer_github_claim env c producer source claimed) (github_leaves env c) (\<lambda>s. published s = [])"
proof -
  have noted: "triple settled (and_then (record_attempt a) (\<lambda>_. return_op r)) (github_leaves env c) (\<lambda>s. published s = [])"
    if "gu_outcome r \<noteq> Github_Created" for a and r :: github_result
    by (rule triple_weaken [OF after_quiet [OF record_attempt_quiet triple_return] settled_quiet])
      (use that in \<open>auto simp: github_leaves_def quiet_published split: github_outcome.splits\<close>)
  have refused: "triple settled (and_then (record_attempt a) (\<lambda>_. raise_op e)) (github_leaves env c) (\<lambda>s. published s = [])" for a e
    by (rule triple_weaken [OF noted_refusal settled_quiet])
  show ?thesis
    unfolding answer_github_claim_def
    by (intro triple_if triple_weaken [OF noted] triple_weaken [OF refused]
        triple_weaken [OF persist_github_leaves [OF assms]])
      (auto simp: github_answer_def github_progress_answer_def)
qed

lemma reserve_and_claim_leaves:
  assumes "names_attempt env c"
  shows "triple quiet (reserve_and_claim env c producer source) (github_leaves env c) (\<lambda>s. published s = [])"
  unfolding reserve_and_claim_def
  by (intro after_quiet [OF reserve_github_quiet] triple_if noted_refusal
      triple_and_then [OF triple_weaken [OF acquire_github_settled] answer_github_claim_leaves [OF assms]])
    (auto simp: quiet_published)

lemma ingest_github_leaves:
  "triple quiet (ingest_github_result env c) (github_leaves env c) (\<lambda>s. published s = [])"
  unfolding ingest_github_result_def Let_def
  by (rule triple_or_raise [OF _ quiet_published])+
    (auto simp: metadata_mapping_def names_attempt_def split: json.splits
      intro!: noted_refusal reserve_and_claim_leaves)

text \<open>
  C5. Whatever faults the database has and whatever other sessions commit between the statements
  of an upload, GitHub results are published at most once per call: ''created'' is answered only
  when the metadata names the authenticated run attempt and one commit added its run, under the
  key of the attempt and with its project and payload hash, together with the completion of the
  claim.  Every other answer, and every error, has published no run.
\<close>

theorem github_upload_publishes_its_claim:
  "case ingest_github_result env c (new_session faults others d) of
     (Inr answer, s) \<Rightarrow> github_leaves env c answer s
   | (Inl _, s) \<Rightarrow> published s = []"
proof -
  have "quiet (new_session faults others d)" by (simp add: quiet_def new_session_def published_def)
  with ingest_github_leaves [of env c] show ?thesis by (auto simp: triple_def split: sum.splits prod.splits)
qed

end
