(* ===== verification/Jwks_Client.thy ===== *)
theory Jwks_Client
  imports Github_Oidc
begin

text \<open>
  The client of GitHub's signing keys (\<^verbatim>\<open>infrastructure/github_oidc.py\<close>): one document is
  fetched from a fixed address and kept for an hour; a key it does not hold makes the client fetch
  again, but not within a minute of the last fetch that did not find its key.  What the transport
  answers is a parameter; a lock makes each call one step.
\<close>

section \<open>Fetching\<close>

definition MAX_JWKS_BYTES :: nat where "MAX_JWKS_BYTES = 64 * 1024"

definition UNKNOWN_KID_REFRESH_COOLDOWN :: timedelta where
  "UNKNOWN_KID_REFRESH_COOLDOWN = minutes 1"

datatype jwks_error = Jwks_infrastructure | Jwks_other

text \<open>
  The transport raises an \<^verbatim>\<open>OSError\<close> (an answer that is no success, and a redirect,
  among them), raises something else, or answers a final address and a body.
\<close>

datatype jwks_reply = Transport_failed | Transport_raised | Transport_answer string bytes

definition plain_hooks :: "unit json_hooks" where
  "plain_hooks = \<lparr>jh_object = dict_hook, jh_float = keep_float, jh_constant = keep_constant\<rparr>"

definition fetch_jwks :: "nat \<Rightarrow> jwks_reply \<Rightarrow> jwks_error + members" where
  "fetch_jwks limit reply =
     (case reply of
        Transport_failed \<Rightarrow> Inl Jwks_infrastructure
      | Transport_raised \<Rightarrow> Inl Jwks_other
      | Transport_answer url body \<Rightarrow>
          if url \<noteq> jwks_url OIDC_POLICY_V2 then Inl Jwks_infrastructure
          else (let raw = take (MAX_JWKS_BYTES + 1) body in
            if MAX_JWKS_BYTES < length raw then Inl Jwks_infrastructure
            else (case json_decode_bytes raw of
                    None \<Rightarrow> Inl Jwks_infrastructure
                  | Some t \<Rightarrow>
                      (case json_loads plain_hooks limit t of
                         Inl Json_Decode \<Rightarrow> Inl Jwks_infrastructure
                       | Inl _ \<Rightarrow> Inl Jwks_other
                       | Inr (JObject document) \<Rightarrow> Inr document
                       | Inr _ \<Rightarrow> Inl Jwks_infrastructure))))"

definition contains_kid :: "members \<Rightarrow> codes \<Rightarrow> bool" where
  "contains_kid document kid =
     (case member_of document ''keys'' of
        JArray keys \<Rightarrow> list_ex (\<lambda>k. is_object k \<and> member_of (attributes k) ''kid'' = JString kid) keys
      | _ \<Rightarrow> False)"

section \<open>The cache\<close>

record cached_jwks =
  cj_document :: members
  cj_expires_at :: datetime

record jwks_client =
  jc_cache :: "cached_jwks option"
  jc_refresh_after :: "datetime option"

definition empty_client :: jwks_client where
  "empty_client = \<lparr>jc_cache = None, jc_refresh_after = None\<rparr>"

text \<open>Whether the cached document is answered: it is live, and it has the key or the cooldown runs.\<close>

definition held_document :: "jwks_client \<Rightarrow> datetime \<Rightarrow> codes option \<Rightarrow> members option" where
  "held_document client now required_kid =
     (case jc_cache client of
        None \<Rightarrow> None
      | Some cached \<Rightarrow>
          if \<not> dt_less now (cj_expires_at cached) then None
          else if (case required_kid of None \<Rightarrow> True | Some kid \<Rightarrow> contains_kid (cj_document cached) kid)
          then Some (cj_document cached)
          else if (case jc_refresh_after client of None \<Rightarrow> False | Some t \<Rightarrow> dt_less now t)
          then Some (cj_document cached)
          else None)"

definition missing_kid :: "members \<Rightarrow> codes option \<Rightarrow> bool" where
  "missing_kid document required_kid =
     (case required_kid of None \<Rightarrow> False | Some kid \<Rightarrow> \<not> contains_kid document kid)"

definition refreshed_client :: "members \<Rightarrow> datetime \<Rightarrow> codes option \<Rightarrow> jwks_client" where
  "refreshed_client document now required_kid =
     \<lparr>jc_cache = Some \<lparr>cj_document = document,
         cj_expires_at = dt_add now (seconds (jwks_cache_seconds OIDC_POLICY_V2))\<rparr>,
      jc_refresh_after =
        (if missing_kid document required_kid then Some (dt_add now UNKNOWN_KID_REFRESH_COOLDOWN) else None)\<rparr>"

definition jwks_get ::
    "nat \<Rightarrow> jwks_reply \<Rightarrow> datetime \<Rightarrow> codes option \<Rightarrow> jwks_client \<Rightarrow> (jwks_error + members) \<times> jwks_client" where
  "jwks_get limit reply now required_kid client =
     (if \<not> aware now then (Inl Jwks_other, client)
      else (case held_document client now required_kid of
        Some document \<Rightarrow> (Inr document, client)
      | None \<Rightarrow>
          (case fetch_jwks limit reply of
             Inl e \<Rightarrow> (Inl e, client)
           | Inr document \<Rightarrow> (Inr document, refreshed_client document now required_kid))))"

section \<open>Freshness, and the spacing of fetches\<close>

text \<open>
  A run of the server asks for keys, each time some microseconds after the time before.  The
  entries of the run keep when, for which key, whether the transport was used, and the answer.
\<close>

record jwks_entry =
  je_time :: int
  je_kid :: "codes option"
  je_fetched :: bool
  je_answer :: "jwks_error + members"

fun jwks_run ::
    "nat \<Rightarrow> int \<Rightarrow> jwks_client \<Rightarrow> (nat \<times> codes option \<times> jwks_reply) list \<Rightarrow> jwks_entry list" where
  "jwks_run limit t client [] = []"
| "jwks_run limit t client ((delay, kid, reply) # events) =
     (let t' = t + int delay; (answer, client') = jwks_get limit reply (utc t') kid client in
      \<lparr>je_time = t', je_kid = kid, je_fetched = (held_document client (utc t') kid = None),
       je_answer = answer\<rparr> # jwks_run limit t' client' events)"

text \<open>A fetch that answered a document without the key that was asked for.\<close>

definition fruitless :: "jwks_entry \<Rightarrow> bool" where
  "fruitless e \<longleftrightarrow> je_fetched e \<and> (case je_answer e of Inl _ \<Rightarrow> False | Inr doc \<Rightarrow> missing_kid doc (je_kid e))"

definition spaced :: "jwks_entry \<Rightarrow> jwks_entry \<Rightarrow> bool" where
  "spaced e later \<longleftrightarrow> (fruitless e \<and> je_fetched later \<longrightarrow> je_time e + minutes 1 \<le> je_time later)"

text \<open>
  Every document was answered by the transport at this entry or less than an hour before it.
\<close>

fun documents_fresh :: "(int \<times> members) list \<Rightarrow> jwks_entry list \<Rightarrow> bool" where
  "documents_fresh fetches [] = True"
| "documents_fresh fetches (e # entries) =
     (case je_answer e of
        Inl _ \<Rightarrow> documents_fresh fetches entries
      | Inr doc \<Rightarrow>
          (let known = (if je_fetched e then (je_time e, doc) # fetches else fetches) in
           list_ex (\<lambda>(t, d). d = doc \<and> je_time e < t + hours 1) known \<and> documents_fresh known entries))"

definition cooling :: "int \<Rightarrow> int \<Rightarrow> jwks_client \<Rightarrow> bool" where
  "cooling since t client \<longleftrightarrow>
     (t < since + minutes 1 \<longrightarrow>
        (case (jc_cache client, jc_refresh_after client) of
           (Some cached, Some until) \<Rightarrow>
             since + minutes 1 \<le> dt_instant until \<and> since + minutes 1 \<le> dt_instant (cj_expires_at cached)
         | _ \<Rightarrow> False))"

definition cache_known :: "(int \<times> members) list \<Rightarrow> jwks_client \<Rightarrow> bool" where
  "cache_known fetches client \<longleftrightarrow>
     (case jc_cache client of
        None \<Rightarrow> True
      | Some cached \<Rightarrow> (dt_instant (cj_expires_at cached) - hours 1, cj_document cached) \<in> set fetches)"

lemma hour: "hours 1 = 3600000000" "minutes 1 = 60000000"
  by (simp_all add: timedelta_defs)

lemma cooling_holds:
  assumes "cooling since t client" "t \<le> t'" "t' < since + minutes 1"
  shows "held_document client (utc t') kid \<noteq> None"
  using assms by (auto simp: cooling_def held_document_def dt_less_def dt_instant_utc split: option.splits)

lemma cooling_get:
  assumes "cooling since t client" "t \<le> t'"
    and "jwks_get limit reply (utc t') kid client = (answer, client')"
  shows "cooling since t' client'"
proof (cases "t' < since + minutes 1")
  case True
  then have "held_document client (utc t') kid \<noteq> None" by (rule cooling_holds [OF assms(1,2)])
  with assms(3) have "client' = client" by (auto simp: jwks_get_def split: if_splits)
  with assms(1,2) True show ?thesis by (auto simp: cooling_def)
qed (simp add: cooling_def)

lemma run_step:
  assumes "jwks_get limit reply (utc (t + int delay)) kid client = (answer, client')"
  shows "jwks_run limit t client ((delay, kid, reply) # events) =
    \<lparr>je_time = t + int delay, je_kid = kid, je_fetched = (held_document client (utc (t + int delay)) kid = None),
     je_answer = answer\<rparr> # jwks_run limit (t + int delay) client' events"
  using assms by (simp add: Let_def)

lemma cooling_run:
  "cooling since t client \<Longrightarrow>
     list_all (\<lambda>e. je_fetched e \<longrightarrow> since + minutes 1 \<le> je_time e) (jwks_run limit t client events)"
proof (induction limit t client events rule: jwks_run.induct)
  case (2 limit t client delay kid reply events)
  obtain answer client' where get: "jwks_get limit reply (utc (t + int delay)) kid client = (answer, client')"
    by fastforce
  have "cooling since (t + int delay) client'" by (rule cooling_get [OF 2(2) _ get]) simp
  then have "list_all (\<lambda>e. je_fetched e \<longrightarrow> since + minutes 1 \<le> je_time e) (jwks_run limit (t + int delay) client' events)"
    by (rule 2(1) [OF refl get [symmetric] refl])
  moreover have "since + minutes 1 \<le> t + int delay" if "held_document client (utc (t + int delay)) kid = None"
    using cooling_holds [OF 2(2), of "t + int delay" kid] that by fastforce
  ultimately show ?case unfolding run_step [OF get] by simp
qed simp

lemma fruitless_cooling:
  assumes "jwks_get limit reply (utc t) kid client = (Inr doc, client')"
    and "held_document client (utc t) kid = None" "missing_kid doc kid"
  shows "cooling t t client'"
  using assms
  by (auto simp: jwks_get_def cooling_def refreshed_client_def OIDC_POLICY_V2_def UNKNOWN_KID_REFRESH_COOLDOWN_def
      dt_add_def dt_instant_utc timedelta_defs split: if_splits sum.splits)

lemma run_spaced: "sorted_wrt spaced (jwks_run limit t client events)"
proof (induction limit t client events rule: jwks_run.induct)
  case (2 limit t client delay kid reply events)
  let ?t = "t + int delay"
  obtain answer client' where get: "jwks_get limit reply (utc ?t) kid client = (answer, client')" by fastforce
  let ?e = "\<lparr>je_time = ?t, je_kid = kid, je_fetched = (held_document client (utc ?t) kid = None), je_answer = answer\<rparr>"
  have "list_all (spaced ?e) (jwks_run limit ?t client' events)"
  proof (cases "fruitless ?e")
    case True
    then obtain doc where "answer = Inr doc" "missing_kid doc kid" "held_document client (utc ?t) kid = None"
      by (auto simp: fruitless_def split: sum.splits)
    with get fruitless_cooling have "cooling ?t ?t client'" by blast
    from cooling_run [OF this] show ?thesis by (simp add: spaced_def list_all_iff)
  qed (simp add: spaced_def list_all_iff)
  with 2 [OF refl get [symmetric] refl] show ?case unfolding run_step [OF get] by (simp add: list_all_iff)
qed simp

lemma get_fresh:
  assumes "jwks_get limit reply (utc t) kid client = (answer, client')" "cache_known fetches client"
  shows "(case answer of
      Inl _ \<Rightarrow> client' = client
    | Inr doc \<Rightarrow>
        (let known = (if held_document client (utc t) kid = None then (t, doc) # fetches else fetches) in
         list_ex (\<lambda>(u, d). d = doc \<and> t < u + hours 1) known \<and> cache_known known client'))"
proof (cases "held_document client (utc t) kid")
  case None
  with assms show ?thesis
    by (auto simp: jwks_get_def cache_known_def refreshed_client_def OIDC_POLICY_V2_def dt_add_def dt_instant_utc timedelta_defs
        split: sum.splits if_splits)
next
  case (Some doc)
  then obtain cached where cached: "jc_cache client = Some cached" "doc = cj_document cached"
      "t < dt_instant (cj_expires_at cached)"
    by (auto simp: held_document_def dt_less_def dt_instant_utc split: option.splits if_splits)
  with assms(2) have "(dt_instant (cj_expires_at cached) - hours 1, doc) \<in> set fetches" by (simp add: cache_known_def)
  moreover from Some assms(1) have "answer = Inr doc" "client' = client" by (simp_all add: jwks_get_def aware_def utc_def)
  ultimately show ?thesis using Some cached(3) assms(2) by (force simp: list_ex_iff)
qed

lemma run_fresh: "cache_known fetches client \<Longrightarrow> documents_fresh fetches (jwks_run limit t client events)"
proof (induction limit t client events arbitrary: fetches rule: jwks_run.induct)
  case (2 limit t client delay kid reply events)
  let ?t = "t + int delay"
  obtain answer client' where get: "jwks_get limit reply (utc ?t) kid client = (answer, client')" by fastforce
  note IH = 2(1) [OF refl get [symmetric] refl]
  from get_fresh [OF get 2(2)] IH 2(2) show ?case
    unfolding run_step [OF get] by (cases answer) (auto simp: Let_def)
qed simp

text \<open>
  C29. Over any sequence of requests with a clock that does not run backwards, every key document
  the client answers came from the transport less than an hour before, and after a fetch that did
  not find its key the transport is left alone for a minute, whatever keys are asked for.
\<close>

theorem jwks_fresh_and_spaced:
  "documents_fresh [] (jwks_run limit t empty_client events) \<and>
   sorted_wrt spaced (jwks_run limit t empty_client events)"
  by (simp add: run_spaced run_fresh cache_known_def empty_client_def)

end
