(* ===== verification/Operational_Signals.thy ===== *)
theory Operational_Signals
  imports Py_Text Py_Codec "HOL-Library.Char_ord" "HOL-Library.List_Lexorder"
begin

text \<open>
  The operational signals of ingestion (\<^verbatim>\<open>ingestion/operational_signals\<close>): one line of
  JSON for each request and each clean-up pass, made of bounded machine codes, a canonical
  identifier and counters.
\<close>

record request_signal =
  sg_origin :: string
  sg_outcome :: string
  sg_status_code :: int
  sg_duration_ms :: int
  sg_code :: string
  sg_correlation_id :: string
  sg_wire_bytes :: "int option"
  sg_finding_count :: "int option"
  sg_scanner_count :: "int option"
  sg_redaction_count :: "int option"
  sg_project_id :: "int option"
  sg_replayed :: "bool option"

record retention_signal =
  rg_outcome :: string
  rg_duration_ms :: int
  rg_raw_artifacts :: int
  rg_normalized_runs :: int
  rg_token_audits :: int
  rg_tombstones :: int
  rg_webhook_deliveries :: int
  rg_ingest_attempts :: int
  rg_usage_charges :: int

definition MAX_COUNTER :: int where "MAX_COUNTER = 2 ^ 63"

text \<open>The characters of a machine code after the first.\<close>

definition code_follow :: "char \<Rightarrow> bool" where
  "code_follow c \<longleftrightarrow> is_lower_az c \<or> is_digit_09 c \<or> c = CHR ''_''"

datatype signal_value = Signal_text string | Signal_int int | Signal_bool bool

definition kept :: "('a \<Rightarrow> signal_value) \<Rightarrow> string \<Rightarrow> 'a option \<Rightarrow> (string \<times> signal_value) list" where
  "kept wrap name x = (case x of None \<Rightarrow> [] | Some a \<Rightarrow> [(name, wrap a)])"

definition request_fields :: "request_signal \<Rightarrow> (string \<times> signal_value) list" where
  "request_fields s =
     [(''origin'', Signal_text (sg_origin s)), (''outcome'', Signal_text (sg_outcome s)),
      (''status_code'', Signal_int (sg_status_code s)), (''duration_ms'', Signal_int (sg_duration_ms s)),
      (''code'', Signal_text (sg_code s)), (''correlation_id'', Signal_text (sg_correlation_id s))] @
     kept Signal_int ''wire_bytes'' (sg_wire_bytes s) @
     kept Signal_int ''finding_count'' (sg_finding_count s) @
     kept Signal_int ''scanner_count'' (sg_scanner_count s) @
     kept Signal_int ''redaction_count'' (sg_redaction_count s) @
     kept Signal_int ''project_id'' (sg_project_id s) @ kept Signal_bool ''replayed'' (sg_replayed s)"

definition retention_fields :: "retention_signal \<Rightarrow> (string \<times> signal_value) list" where
  "retention_fields s =
     [(''outcome'', Signal_text (rg_outcome s)), (''duration_ms'', Signal_int (rg_duration_ms s)),
      (''raw_artifacts'', Signal_int (rg_raw_artifacts s)),
      (''normalized_runs'', Signal_int (rg_normalized_runs s)),
      (''token_audits'', Signal_int (rg_token_audits s)), (''tombstones'', Signal_int (rg_tombstones s)),
      (''webhook_deliveries'', Signal_int (rg_webhook_deliveries s)),
      (''ingest_attempts'', Signal_int (rg_ingest_attempts s)),
      (''usage_charges'', Signal_int (rg_usage_charges s))]"

definition counters_ok :: "string list \<Rightarrow> (string \<times> signal_value) list \<Rightarrow> bool" where
  "counters_ok ignored members \<longleftrightarrow>
     list_all (\<lambda>(name, v). name \<in> set ignored \<or>
       (case v of Signal_int n \<Rightarrow> 0 \<le> n \<and> n \<le> MAX_COUNTER | _ \<Rightarrow> True)) members"

text \<open>
  The text that \<^verbatim>\<open>json.dumps\<close> gives to the values; the texts that are rendered need no
  escapes, because they are checked before.
\<close>

fun value_text :: "signal_value \<Rightarrow> string" where
  "value_text (Signal_text s) = [CHR 0x22] @ s @ [CHR 0x22]"
| "value_text (Signal_int n) = decimal_int n"
| "value_text (Signal_bool b) = (if b then ''true'' else ''false'')"

fun members_text :: "(string \<times> signal_value) list \<Rightarrow> string" where
  "members_text [] = []"
| "members_text ((name, v) # members) =
     [CHR 0x22] @ name @ [CHR 0x22, CHR '':''] @ value_text v @
     (if members = [] then [] else CHR '','' # members_text members)"

definition rendered :: "string \<Rightarrow> (string \<times> signal_value) list \<Rightarrow> string" where
  "rendered event members =
     [CHR 0x7B] @ members_text (sort_key fst ((''event'', Signal_text event) # members)) @ [CHR 0x7D]"

text \<open>\<open>None\<close> stands for the \<^verbatim>\<open>ValueError\<close> of a value that is not allowed.\<close>

definition render_request_signal :: "request_signal \<Rightarrow> string option" where
  "render_request_signal s =
     (if sg_origin s \<in> {''github'', ''local''} \<and> machine_code (sg_outcome s) \<and>
         machine_code (sg_code s) \<and> canonical_uuid (sg_correlation_id s) \<and>
         100 \<le> sg_status_code s \<and> sg_status_code s \<le> 599 \<and>
         counters_ok [''status_code''] (request_fields s)
      then Some (rendered ''ingest_request'' (request_fields s)) else None)"

definition render_retention_signal :: "retention_signal \<Rightarrow> string option" where
  "render_retention_signal s =
     (if machine_code (rg_outcome s) \<and> counters_ok [] (retention_fields s)
      then Some (rendered ''local_ingest_retention'' (retention_fields s)) else None)"

section \<open>A line holds nothing but codes and numbers\<close>

text \<open>The characters of a line: codes, the punctuation of JSON and the hyphen of an identifier.\<close>

definition plain_char :: "char \<Rightarrow> bool" where
  "plain_char c \<longleftrightarrow> code_follow c \<or> c \<in> {CHR 0x22, CHR 0x7B, CHR 0x7D, CHR '':'', CHR '','', CHR ''-''}"

definition plain_value :: "signal_value \<Rightarrow> bool" where
  "plain_value v \<longleftrightarrow> (case v of Signal_text s \<Rightarrow> list_all plain_char s | _ \<Rightarrow> True)"

lemma plain_follow: "list_all code_follow s \<Longrightarrow> list_all plain_char s"
  by (auto simp: list_all_iff plain_char_def)

lemma plain_code: "machine_code s \<Longrightarrow> list_all plain_char s"
  by (auto simp: machine_code_def code_follow_def plain_char_def list_all_iff split: list.splits)

lemma plain_decimal: "list_all plain_char (decimal_int n)"
  using decimal_digits [of "nat n"] decimal_digits [of "nat (- n)"]
  by (auto simp: decimal_int_def list_all_iff plain_char_def code_follow_def)

lemma plain_hex: "list_all is_lower_hex s \<Longrightarrow> list_all plain_char s"
  by (auto simp: list_all_iff is_lower_hex_def is_lower_az_def plain_char_def code_follow_def)

lemma plain_uuid:
  assumes "canonical_uuid s"
  shows "list_all plain_char s"
proof -
  have cut: "list_all plain_char (drop n s)"
    if "list_all is_lower_hex (take 4 (drop n s))" "s ! (n + 4) = CHR ''-''" "n + 4 < length s"
      "list_all plain_char (drop (n + 5) s)" for n
  proof -
    have "drop n s = take 4 (drop n s) @ s ! (n + 4) # drop (n + 5) s"
      using that(3) Cons_nth_drop_Suc [of "n + 4" s] append_take_drop_id [of 4 "drop n s"]
      by (simp add: add.commute)
    moreover have "list_all plain_char (take 4 (drop n s) @ s ! (n + 4) # drop (n + 5) s)"
      using that(2,4) plain_hex [OF that(1)] by (simp add: plain_char_def)
    ultimately show ?thesis by (simp only:)
  qed
  have l: "length s = 36" using assms by (simp add: canonical_uuid_def)
  have "list_all plain_char (drop 24 s)" using assms by (simp add: canonical_uuid_def plain_hex)
  then have "list_all plain_char (drop 19 s)" using assms l by (intro cut [of 19]) (simp_all add: canonical_uuid_def)
  then have "list_all plain_char (drop 14 s)" using assms l by (intro cut [of 14]) (simp_all add: canonical_uuid_def)
  then have "list_all plain_char (drop 9 s)" using assms l by (intro cut [of 9]) (simp_all add: canonical_uuid_def)
  moreover have "list_all plain_char (take 8 s)" "plain_char (s ! 8)"
    using assms by (simp_all add: canonical_uuid_def plain_hex plain_char_def)
  ultimately have "list_all plain_char (take 8 s @ s ! 8 # drop 9 s)" by simp
  moreover have "s = take 8 s @ s ! 8 # drop 9 s" using l id_take_nth_drop [of 8 s] by simp
  ultimately show ?thesis by (simp only:)
qed

definition plain_member :: "string \<times> signal_value \<Rightarrow> bool" where
  "plain_member m \<longleftrightarrow> list_all plain_char (fst m) \<and> plain_value (snd m)"

lemma plain_value_text: "plain_value v \<Longrightarrow> list_all plain_char (value_text v)"
  using plain_decimal
  by (cases v) (auto simp: plain_value_def plain_char_def code_follow_def is_lower_az_def)

lemma plain_members: "list_all plain_member ms \<Longrightarrow> list_all plain_char (members_text ms)"
  by (induction ms rule: members_text.induct)
    (auto simp: plain_member_def plain_value_text, auto simp: plain_char_def)

lemma plain_rendered:
  assumes "plain_member (''event'', Signal_text event)" "list_all plain_member ms"
  shows "list_all plain_char (rendered event ms)"
proof -
  have "list_all plain_member (sort_key fst ((''event'', Signal_text event) # ms))"
    unfolding list_all_iff set_sort using assms
    by (auto simp: list_all_iff)
  then show ?thesis unfolding rendered_def using plain_members by (simp add: plain_char_def)
qed

lemma plain_lower [simp]: "is_lower_az c \<Longrightarrow> plain_char c" "plain_char CHR ''_''"
  by (simp_all add: plain_char_def code_follow_def)

lemma plain_texts [simp]:
  "plain_member (''event'', Signal_text ''ingest_request'')"
  "plain_member (''event'', Signal_text ''local_ingest_retention'')"
  "list_all plain_char ''github''" "list_all plain_char ''local''"
  by (simp_all add: plain_member_def plain_value_def is_lower_az_def)

lemma request_plain:
  assumes "list_all plain_char (sg_origin s)" "list_all plain_char (sg_outcome s)"
    "list_all plain_char (sg_code s)" "list_all plain_char (sg_correlation_id s)"
  shows "list_all plain_member (request_fields s)"
  unfolding request_fields_def kept_def
  by (simp add: plain_member_def plain_value_def is_lower_az_def assms split: option.split)

lemma retention_plain:
  assumes "list_all plain_char (rg_outcome s)"
  shows "list_all plain_member (retention_fields s)"
  unfolding retention_fields_def
  by (simp add: plain_member_def plain_value_def is_lower_az_def assms)

text \<open>
  A rendered line consists of lower-case letters, digits, underscores, hyphens and the
  punctuation of JSON, so no request can break it into two or forge another one.
\<close>

definition plain_line :: "string option \<Rightarrow> bool" where
  "plain_line result \<longleftrightarrow> (case result of None \<Rightarrow> True | Some line \<Rightarrow> list_all plain_char line)"

theorem signal_lines_plain:
  "plain_line (render_request_signal s) \<and> plain_line (render_retention_signal r)"
proof
  show "plain_line (render_request_signal s)"
    by (auto simp: plain_line_def render_request_signal_def plain_code plain_uuid is_lower_az_def
        intro!: plain_rendered request_plain)
  show "plain_line (render_retention_signal r)"
    by (auto simp: plain_line_def render_retention_signal_def plain_code
        intro!: plain_rendered retention_plain)
qed

end
