(* ===== verification/Github_Route.thy ===== *)
theory Github_Route
  imports Jwks_Client Github_Actions_Auth Github_Ingest Multipart Operational_Signals
begin

text \<open>
  The push route of GitHub Actions (\<^verbatim>\<open>api/routes/github_actions_ingest.py\<close> over
  \<^verbatim>\<open>infrastructure/github_actions_ingest_auth.py\<close>): authenticate the token, authorize and
  spend it, read the parts, validate the envelope, bind it to the claims, ingest it, log, and
  render every failure as a problem document.  The request's database session is represented by
  two sessions, one over the tables of the authorization and one over those of the ingestion: the
  first has ended its last transaction when the second begins its first.
\<close>

section \<open>Problems\<close>

record route_problem =
  pm_status :: int
  pm_code :: string
  pm_title :: string
  pm_detail :: string
  pm_retryable :: bool
  pm_limits :: "(string \<times> int) list"
  pm_headers :: "(string \<times> string) list"

definition policy_of :: "string \<Rightarrow> problem_policy option" where
  "policy_of code = find (\<lambda>p. problem_code p = code) PROBLEM_POLICIES_V2"

definition internal_policy :: problem_policy where
  "internal_policy = problem ''internal_persistence_failed'' 500 True True"

definition policy_problem :: "string \<Rightarrow> route_problem" where
  "policy_problem code =
     (let policy = (case policy_of code of None \<Rightarrow> internal_policy | Some p \<Rightarrow> p) in
      \<lparr>pm_status = problem_status policy, pm_code = problem_code policy,
       pm_title = ''GitHub Actions upload rejected'',
       pm_detail = ''The GitHub Actions result upload could not be accepted.'',
       pm_retryable = problem_retryable policy, pm_limits = [],
       pm_headers = (if problem_retry_after policy then [(''Retry-After'', ''30'')] else []) @
         (if problem_status policy = 401 then [(''WWW-Authenticate'', ''Bearer'')] else [])\<rparr>)"

definition oidc_problem :: "string \<Rightarrow> route_problem" where
  "oidc_problem code = policy_problem (if policy_of code = None then ''oidc_invalid'' else code)"

definition multipart_problem :: "upload_problem \<Rightarrow> route_problem" where
  "multipart_problem p =
     \<lparr>pm_status = wp_status p, pm_code = wp_code p, pm_title = wp_title p, pm_detail = wp_detail p,
      pm_retryable = False, pm_limits = wp_limits p, pm_headers = []\<rparr>"

definition ingest_error_problem :: "ingest_problem \<Rightarrow> route_problem" where
  "ingest_error_problem p =
     \<lparr>pm_status = pb_status p, pm_code = pb_code p, pm_title = pb_title p, pm_detail = pb_detail p,
      pm_retryable = pb_retryable p, pm_limits = [],
      pm_headers = (case pb_retry_after p of None \<Rightarrow> [] | Some n \<Rightarrow> [(''Retry-After'', decimal_int n)])\<rparr>"

text \<open>The classes of exceptions that the handler tells apart.\<close>

datatype route_exn =
    Route_problem route_problem
  | Route_oidc string
  | Route_envelope string
  | Route_ingest ingest_problem
  | Route_upstream
  | Route_other

definition problem_of :: "route_exn \<Rightarrow> route_problem" where
  "problem_of e =
     (case e of
        Route_problem p \<Rightarrow> p
      | Route_oidc code \<Rightarrow> oidc_problem code
      | Route_envelope code \<Rightarrow> policy_problem code
      | Route_ingest p \<Rightarrow> ingest_error_problem p
      | Route_upstream \<Rightarrow> policy_problem ''github_verification_failed''
      | Route_other \<Rightarrow> policy_problem ''internal_persistence_failed'')"

section \<open>Requests, answers and the environment\<close>

record http_answer =
  an_status :: int
  an_media :: string
  an_headers :: "(string \<times> string) list"
  an_body :: members

record route_settings =
  hs_enabled :: bool
  hs_public_base_url :: string
  hs_github_app_id :: string
  hs_private_key_path :: string

record route_request =
  rq_path :: string
  rq_authorization :: "string list"
  rq_idempotency_key :: "string option"
  rq_upload :: upload_request

text \<open>
  The clock, the identifier of the request, the libraries, the answers of GitHub and the
  environment of the ingestion.
\<close>

record 'p route_env =
  re_settings :: route_settings
  re_now :: datetime
  re_elapsed_ms :: int
  re_correlation_id :: string
  re_limit :: nat
  re_netloc_ok :: "string \<Rightarrow> bool"
  re_sha :: "bytes \<Rightarrow> bytes"
  re_verify :: signature_verifier
  re_jwks_reply :: jwks_reply
  re_private_key :: "string \<Rightarrow> bytes option"
  re_repository :: "string \<Rightarrow> bytes \<Rightarrow> int \<Rightarrow> codes \<Rightarrow> datetime \<Rightarrow> auth_exn + repository_snapshot"
  re_app_error :: "string \<Rightarrow> bool"
  re_parser :: "'p body_parser"
  re_options :: option_reader
  re_word :: "nat \<Rightarrow> bool"
  re_schema :: "string \<Rightarrow> members \<Rightarrow> bool"
  re_github :: github_env

record route_state =
  st_keys :: jwks_client
  st_auth :: "auth_db session"
  st_ingest :: "ingest_db session"

type_synonym 'a route_op = "(route_state, route_exn, 'a) op"

definition text_json :: "string \<Rightarrow> json" where
  "text_json s = JString (codes_of s)"

definition json_object_of :: "(string \<times> json) list \<Rightarrow> members" where
  "json_object_of ms = map (\<lambda>(name, v). (codes_of name, v)) ms"

definition problem_response :: "string \<Rightarrow> string \<Rightarrow> route_problem \<Rightarrow> http_answer" where
  "problem_response path request_id p =
     \<lparr>an_status = pm_status p, an_media = ''application/problem+json'', an_headers = pm_headers p,
      an_body = json_object_of
        [(''type'', text_json (''https://assurance-scan.dev/problems/'' @
            map (\<lambda>c. if c = CHR ''_'' then CHR ''-'' else c) (pm_code p))),
         (''title'', text_json (pm_title p)), (''status'', JInt (pm_status p)),
         (''detail'', text_json (pm_detail p)), (''instance'', text_json path),
         (''code'', text_json (pm_code p)), (''retryable'', JBool (pm_retryable p)),
         (''request_id'', text_json request_id),
         (''limits'', JObject (json_object_of (map (\<lambda>(name, n). (name, JInt n)) (pm_limits p))))]\<rparr>"

definition success_status :: "github_result \<Rightarrow> int" where
  "success_status r =
     (case gu_outcome r of Github_Replayed \<Rightarrow> 200 | Github_In_Progress \<Rightarrow> 202 | Github_Created \<Rightarrow> 201)"

definition optional_text :: "string option \<Rightarrow> json" where
  "optional_text x = (case x of None \<Rightarrow> JNull | Some s \<Rightarrow> text_json s)"

definition success_response :: "github_result \<Rightarrow> string \<Rightarrow> http_answer" where
  "success_response r correlation_id =
     \<lparr>an_status = success_status r, an_media = ''application/json'',
      an_headers = (case gu_retry_after r of None \<Rightarrow> [] | Some n \<Rightarrow> [(''Retry-After'', decimal_int n)]),
      an_body = json_object_of
        [(''run_id'', optional_text (gu_run_id r)), (''project_id'', JInt (gu_project_id r)),
         (''repository'', JObject (json_object_of
            [(''provider'', text_json ''github''), (''full_name'', text_json (gu_repository r))])),
         (''run_url'', optional_text (gu_run_url r)), (''status'', text_json (gu_status r)),
         (''replayed'', JBool (gu_outcome r = Github_Replayed)),
         (''request_id'', text_json correlation_id)]\<rparr>"

definition not_found :: http_answer where
  "not_found = \<lparr>an_status = 404, an_media = ''application/json'', an_headers = [],
     an_body = json_object_of [(''detail'', text_json ''not found'')]\<rparr>"

section \<open>Authentication and authorization\<close>

definition oidc_failure :: "oidc_error \<Rightarrow> route_exn" where
  "oidc_failure e = (case e of Oidc_Validation code \<Rightarrow> Route_oidc code | _ \<Rightarrow> Route_other)"

definition jwks_failure :: "jwks_error \<Rightarrow> route_exn" where
  "jwks_failure e = (case e of Jwks_infrastructure \<Rightarrow> Route_upstream | Jwks_other \<Rightarrow> Route_other)"

definition auth_failure :: "(string \<Rightarrow> bool) \<Rightarrow> auth_exn raised \<Rightarrow> route_exn" where
  "auth_failure app_error e =
     (case e of
        Raised (Auth_oidc o') \<Rightarrow> oidc_failure o'
      | Raised (Auth_github m) \<Rightarrow> if app_error m then Route_upstream else Route_other
      | _ \<Rightarrow> Route_other)"

definition utf8_size :: "string \<Rightarrow> nat" where
  "utf8_size s = sum_list (map (\<lambda>c. if (of_char c :: nat) < 128 then 1 else 2) s)"

definition bearer_token :: "string list \<Rightarrow> route_exn + string" where
  "bearer_token values =
     (case values of
        [v] \<Rightarrow>
          (let token = drop 7 v in
           if \<not> prefix ''Bearer '' v \<or> token = [] \<or> 16 * 1024 < utf8_size token
           then Inl (Route_problem (policy_problem ''invalid_credential'')) else Inr token)
      | _ \<Rightarrow> Inl (Route_problem (policy_problem ''invalid_credential'')))"

definition in_keys :: "'p route_env \<Rightarrow> codes \<Rightarrow> members route_op" where
  "in_keys env kid s =
     (case jwks_get (re_limit env) (re_jwks_reply env) (re_now env) (Some kid) (st_keys s) of
        (Inl e, client) \<Rightarrow> (Inl (Raised (jwks_failure e)), s\<lparr>st_keys := client\<rparr>)
      | (Inr keys, client) \<Rightarrow> (Inr keys, s\<lparr>st_keys := client\<rparr>))"

definition authenticate :: "'p route_env \<Rightarrow> string \<Rightarrow> oidc_claims route_op" where
  "authenticate env token =
     and_then (or_raise oidc_failure
        (github_oidc_audience (re_netloc_ok env) (hs_public_base_url (re_settings env)))) (\<lambda>audience.
     and_then (or_raise oidc_failure (github_oidc_key_id (re_limit env) token)) (\<lambda>kid.
     and_then (in_keys env kid) (\<lambda>keys.
     or_raise oidc_failure
       (authenticate_github_oidc (re_limit env) (re_verify env) audience keys (re_now env) token))))"

definition auth_env_of :: "'p route_env \<Rightarrow> bytes \<Rightarrow> auth_env" where
  "auth_env_of env key =
     \<lparr>av_netloc_ok = re_netloc_ok env, av_sha = re_sha env,
      av_repository = re_repository env (hs_github_app_id (re_settings env)) key\<rparr>"

definition in_auth :: "(string \<Rightarrow> bool) \<Rightarrow> 'a auth_op \<Rightarrow> 'a route_op" where
  "in_auth app_error m s =
     (case m (st_auth s) of
        (Inl e, a) \<Rightarrow> (Inl (Raised (auth_failure app_error e)), s\<lparr>st_auth := a\<rparr>)
      | (Inr x, a) \<Rightarrow> (Inr x, s\<lparr>st_auth := a\<rparr>))"

definition private_key :: "'p route_env \<Rightarrow> route_exn + bytes" where
  "private_key env =
     (case re_private_key env (hs_private_key_path (re_settings env)) of
        None \<Rightarrow> Inl Route_upstream | Some key \<Rightarrow> Inr key)"

definition authorize :: "'p route_env \<Rightarrow> oidc_claims \<Rightarrow> upload_principal route_op" where
  "authorize env claims =
     and_then (or_raise id (private_key env)) (\<lambda>key.
       in_auth (re_app_error env)
         (authorize_github_actions_upload (auth_env_of env key) claims (re_now env)))"

section \<open>The upload\<close>

definition PART_MEDIA_TYPES :: "(string \<times> string list) list" where
  "PART_MEDIA_TYPES =
     [(''metadata'', [''application/json; charset=utf-8'']),
      (''findings'', [''application/json; charset=utf-8'']),
      (''source_contexts'', [''application/json; charset=utf-8'']),
      (''sarif'', [''application/sarif+json'', ''application/json'']),
      (''sbom'', [''application/vnd.cyclonedx+json'', ''application/json''])]"

definition route_policy :: "option_reader \<Rightarrow> part_policy" where
  "route_policy options =
     \<lparr>pt_limits = part_bytes ENVELOPE_LIMITS_V2, pt_required = REQUIRED_PARTS, pt_media = PART_MEDIA_TYPES,
      pt_parsed = parsed_bytes ENVELOPE_LIMITS_V2, pt_options = options\<rparr>"

definition read_failure :: "read_error \<Rightarrow> route_exn" where
  "read_failure e = (case e of Read_problem p \<Rightarrow> Route_problem (multipart_problem p) | Read_raised \<Rightarrow> Route_other)"

definition envelope_failure :: "v2_error \<Rightarrow> route_exn" where
  "envelope_failure e = (case e of Envelope_invalid code _ \<Rightarrow> Route_envelope code | _ \<Rightarrow> Route_other)"

definition ingest_failure :: "ingest_exn raised \<Rightarrow> route_exn" where
  "ingest_failure e = (case e of Raised (Exn_problem p) \<Rightarrow> Route_ingest p | _ \<Rightarrow> Route_other)"

definition in_ingest :: "'a db_op \<Rightarrow> 'a route_op" where
  "in_ingest m s =
     (case m (st_ingest s) of
        (Inl e, d) \<Rightarrow> (Inl (Raised (ingest_failure e)), s\<lparr>st_ingest := d\<rparr>)
      | (Inr x, d) \<Rightarrow> (Inr x, s\<lparr>st_ingest := d\<rparr>))"

definition attempt_text :: "oidc_claims \<Rightarrow> string" where
  "attempt_text claims =
     decimal_int (oc_repository_id claims) @ '':'' @ decimal_int (oc_run_id claims) @ '':'' @
     decimal_int (oc_run_attempt claims)"

definition read_upload :: "'p route_env \<Rightarrow> route_request \<Rightarrow> route_exn + (string \<times> bytes) list \<times> int" where
  "read_upload env request =
     (case read_bounded_multipart (re_parser env) (route_policy (re_options env))
             (wire_bytes ENVELOPE_LIMITS_V2) (rq_upload request) of
        Inl e \<Rightarrow> Inl (read_failure e) | Inr upload \<Rightarrow> Inr upload)"

definition build_envelope :: "'p route_env \<Rightarrow> (string \<times> bytes) list \<Rightarrow> route_exn + validated_envelope" where
  "build_envelope env parts =
     (case build_validated_envelope_v2 (re_word env) (re_sha env) (re_limit env) (re_schema env) parts of
        Inl e \<Rightarrow> Inl (envelope_failure e) | Inr envelope \<Rightarrow> Inr envelope)"

definition ingest_command ::
    "'p route_env \<Rightarrow> oidc_claims \<Rightarrow> upload_principal \<Rightarrow> validated_envelope \<Rightarrow> int \<Rightarrow> github_command" where
  "ingest_command env claims grantee envelope received =
     \<lparr>gm_project_id = pr_project_id grantee, gm_repository = code_char (oc_repository claims),
      gm_repository_id = pr_repository_id grantee, gm_owner_id = pr_owner_id grantee,
      gm_run_id = pr_run_id grantee, gm_run_attempt = pr_run_attempt grantee,
      gm_accepted_bytes = received, gm_correlation_id = re_correlation_id env, gm_envelope = envelope,
      gm_public_base_url = hs_public_base_url (re_settings env)\<rparr>"

section \<open>Signals\<close>

definition py_len :: "json \<Rightarrow> int option" where
  "py_len v =
     (case v of JArray xs \<Rightarrow> Some (int (length xs)) | JObject ms \<Rightarrow> Some (int (length ms))
      | JString s \<Rightarrow> Some (int (length s)) | _ \<Rightarrow> None)"

definition outcome_text :: "github_outcome \<Rightarrow> string" where
  "outcome_text x =
     (case x of Github_Created \<Rightarrow> ''created'' | Github_Replayed \<Rightarrow> ''replayed'' | Github_In_Progress \<Rightarrow> ''in_progress'')"

definition rejection_signal :: "'p route_env \<Rightarrow> route_problem \<Rightarrow> request_signal" where
  "rejection_signal env p =
     \<lparr>sg_origin = ''github'', sg_outcome = ''rejected'', sg_status_code = pm_status p,
      sg_duration_ms = max 0 (re_elapsed_ms env),
      sg_code = (if policy_of (pm_code p) = None then ''internal_persistence_failed'' else pm_code p),
      sg_correlation_id = re_correlation_id env, sg_wire_bytes = None, sg_finding_count = None,
      sg_scanner_count = None, sg_redaction_count = None, sg_project_id = None, sg_replayed = None\<rparr>"

definition success_signal ::
    "'p route_env \<Rightarrow> github_result \<Rightarrow> int \<Rightarrow> int \<Rightarrow> int \<Rightarrow> request_signal" where
  "success_signal env r received findings scanners =
     \<lparr>sg_origin = ''github'', sg_outcome = outcome_text (gu_outcome r), sg_status_code = success_status r,
      sg_duration_ms = max 0 (re_elapsed_ms env), sg_code = ''scan_'' @ outcome_text (gu_outcome r),
      sg_correlation_id = re_correlation_id env, sg_wire_bytes = Some received,
      sg_finding_count = Some findings, sg_scanner_count = Some scanners, sg_redaction_count = None,
      sg_project_id = Some (gu_project_id r), sg_replayed = Some (gu_outcome r = Github_Replayed)\<rparr>"

definition log_success ::
    "'p route_env \<Rightarrow> github_result \<Rightarrow> validated_envelope \<Rightarrow> int \<Rightarrow> route_exn + string" where
  "log_success env r envelope received =
     (case (py_len (member_of (ve_findings envelope) ''findings''),
            py_len (member_of (ve_findings envelope) ''scanners'')) of
        (Some findings, Some scanners) \<Rightarrow>
          (case render_request_signal (success_signal env r received findings scanners) of
             None \<Rightarrow> Inl Route_other | Some line \<Rightarrow> Inr line)
      | _ \<Rightarrow> Inl Route_other)"

section \<open>The route\<close>

definition persist_upload ::
    "'p route_env \<Rightarrow> route_request \<Rightarrow> oidc_claims \<Rightarrow> upload_principal \<Rightarrow> http_answer route_op" where
  "persist_upload env request claims grantee =
     and_then (or_raise id (read_upload env request)) (\<lambda>(parts, received).
     and_then (or_raise id (build_envelope env parts)) (\<lambda>envelope.
     and_then (or_raise oidc_failure (validate_github_payload_metadata claims (ve_metadata envelope))) (\<lambda>_.
     and_then (in_ingest (ingest_github_result (re_github env)
        (ingest_command env claims grantee envelope received))) (\<lambda>result.
     and_then (or_raise id (log_success env result envelope received)) (\<lambda>_.
     return_op (success_response result (re_correlation_id env)))))))"

definition upload_github_actions_result :: "'p route_env \<Rightarrow> route_request \<Rightarrow> http_answer route_op" where
  "upload_github_actions_result env request =
     (let settings = re_settings env in
      if \<not> hs_enabled settings then return_op not_found
      else if hs_public_base_url settings = [] \<or> hs_github_app_id settings = [] \<or> hs_private_key_path settings = []
      then raise_op (Route_problem (policy_problem ''github_verification_failed''))
      else
        and_then (or_raise id (bearer_token (rq_authorization request))) (\<lambda>token.
        and_then (authenticate env token) (\<lambda>claims.
        if rq_idempotency_key request \<noteq> Some (attempt_text claims)
        then raise_op (Route_problem (policy_problem ''artifact_mismatch''))
        else and_then (authorize env claims) (\<lambda>grantee. persist_upload env request claims grantee))))"

definition failure_of :: "route_exn raised \<Rightarrow> route_exn" where
  "failure_of e = (case e of Raised x \<Rightarrow> x | Db_Fault \<Rightarrow> Route_other)"

text \<open>\<open>None\<close> when the handler itself raises, because the rejection could not be logged.\<close>

definition github_actions_route ::
    "'p route_env \<Rightarrow> route_request \<Rightarrow> route_state \<Rightarrow> http_answer option \<times> route_state" where
  "github_actions_route env request s =
     (case upload_github_actions_result env request s of
        (Inr answer, s') \<Rightarrow> (Some answer, s')
      | (Inl e, s') \<Rightarrow>
          (let p = problem_of (failure_of e) in
           (case render_request_signal (rejection_signal env p) of
              None \<Rightarrow> None
            | Some _ \<Rightarrow> Some (problem_response (rq_path request) (re_correlation_id env) p), s')))"

section \<open>What an answer has shown\<close>

text \<open>
  A created answer: one bearer token authenticated the claims under keys of GitHub, the request
  named the claimed run attempt, the authorization was confirmed and the token spent, the parts
  read were an accepted envelope bound to the claims, and the workflow published its run.
\<close>

definition upload_accepted :: "'p route_env \<Rightarrow> route_request \<Rightarrow> route_state \<Rightarrow> bool" where
  "upload_accepted env request s \<longleftrightarrow>
     (\<exists>token audience keys claims key grantee parts received envelope result.
        rq_authorization request = [''Bearer '' @ token] \<and>
        github_oidc_audience (re_netloc_ok env) (hs_public_base_url (re_settings env)) = Inr audience \<and>
        authenticate_github_oidc (re_limit env) (re_verify env) audience keys (re_now env) token = Inr claims \<and>
        rq_idempotency_key request = Some (attempt_text claims) \<and>
        authorized_by (auth_env_of env key) claims (re_now env) grantee (st_auth s) \<and>
        read_upload env request = Inr (parts, received) \<and> build_envelope env parts = Inr envelope \<and>
        validate_github_payload_metadata claims (ve_metadata envelope) = Inr () \<and>
        gu_outcome result = Github_Created \<and>
        github_leaves (re_github env) (ingest_command env claims grantee envelope received) result (st_ingest s))"

definition nothing_or_accepted :: "'p route_env \<Rightarrow> route_request \<Rightarrow> route_state \<Rightarrow> bool" where
  "nothing_or_accepted env request s \<longleftrightarrow> published (st_ingest s) = [] \<or> upload_accepted env request s"

definition created_answer :: "http_answer \<Rightarrow> bool" where
  "created_answer a \<longleftrightarrow> an_media a = ''application/json'' \<and> an_status a = 201"

definition answer_sound :: "'p route_env \<Rightarrow> route_request \<Rightarrow> http_answer \<Rightarrow> route_state \<Rightarrow> bool" where
  "answer_sound env request a s \<longleftrightarrow>
     (if created_answer a then upload_accepted env request s else nothing_or_accepted env request s)"

definition fresh_sessions :: "route_state \<Rightarrow> bool" where
  "fresh_sessions s \<longleftrightarrow> idle (st_auth s) \<and> se_log (st_auth s) = [] \<and> quiet (st_ingest s)"

lemma fresh_nothing: "fresh_sessions s \<Longrightarrow> nothing_or_accepted env request s"
  by (simp add: fresh_sessions_def nothing_or_accepted_def quiet_def)

lemma in_keys_fresh:
  "triple fresh_sessions (in_keys env kid) (\<lambda>_. fresh_sessions) (nothing_or_accepted env request)"
  by (rule tripleI) (auto simp: in_keys_def fresh_sessions_def nothing_or_accepted_def quiet_def
      split: sum.splits prod.splits)

lemma authenticate_claims:
  "triple fresh_sessions (authenticate env token)
     (\<lambda>claims s. fresh_sessions s \<and> (\<exists>audience keys.
        github_oidc_audience (re_netloc_ok env) (hs_public_base_url (re_settings env)) = Inr audience \<and>
        authenticate_github_oidc (re_limit env) (re_verify env) audience keys (re_now env) token = Inr claims))
     (nothing_or_accepted env request)"
proof -
  have last: "triple fresh_sessions (or_raise oidc_failure x)
      (\<lambda>claims s. fresh_sessions s \<and> x = Inr claims) (nothing_or_accepted env request)" for x
    by (rule tripleI) (auto simp: or_raise_def raise_op_def return_op_def fresh_nothing split: sum.splits)
  show ?thesis
    unfolding authenticate_def
    by (intro triple_or_raise triple_and_then [OF in_keys_fresh] triple_weaken [OF last])
      (auto intro: fresh_nothing)
qed

lemma authorize_route:
  "triple fresh_sessions (authorize env claims)
     (\<lambda>grantee s. (\<exists>key. authorized_by (auth_env_of env key) claims (re_now env) grantee (st_auth s)) \<and>
        quiet (st_ingest s)) (nothing_or_accepted env request)"
  unfolding authorize_def
proof (rule triple_or_raise [OF _ fresh_nothing])
  fix key
  note spends = authorize_spends [of "auth_env_of env key" claims "re_now env", unfolded triple_def]
  show "triple fresh_sessions
      (in_auth (re_app_error env) (authorize_github_actions_upload (auth_env_of env key) claims (re_now env)))
      (\<lambda>grantee s. (\<exists>key. authorized_by (auth_env_of env key) claims (re_now env) grantee (st_auth s)) \<and>
         quiet (st_ingest s)) (nothing_or_accepted env request)"
  proof (rule tripleI)
    fix s :: route_state
    assume "fresh_sessions s"
    with spends [THEN spec, of "st_auth s"] show "case in_auth (re_app_error env)
        (authorize_github_actions_upload (auth_env_of env key) claims (re_now env)) s of
        (Inl e, s') \<Rightarrow> nothing_or_accepted env request s'
      | (Inr grantee, s') \<Rightarrow> (\<exists>key. authorized_by (auth_env_of env key) claims (re_now env) grantee (st_auth s')) \<and>
          quiet (st_ingest s')"
      by (auto simp: in_auth_def fresh_sessions_def nothing_or_accepted_def quiet_def split: sum.splits prod.splits)
  qed
qed

lemma in_ingest_leaves:
  "triple (\<lambda>s. A (st_auth s) \<and> quiet (st_ingest s)) (in_ingest (ingest_github_result genv c))
     (\<lambda>result s. A (st_auth s) \<and> github_leaves genv c result (st_ingest s)) (nothing_or_accepted env request)"
proof (rule tripleI)
  fix s :: route_state
  assume "A (st_auth s) \<and> quiet (st_ingest s)"
  with ingest_github_leaves [of genv c, unfolded triple_def, THEN spec, of "st_ingest s"]
  show "case in_ingest (ingest_github_result genv c) s of
      (Inl e, s') \<Rightarrow> nothing_or_accepted env request s'
    | (Inr result, s') \<Rightarrow> A (st_auth s') \<and> github_leaves genv c result (st_ingest s')"
    by (auto simp: in_ingest_def nothing_or_accepted_def split: sum.splits prod.splits)
qed

lemma persist_upload_sound:
  assumes "rq_authorization request = [''Bearer '' @ token]"
    and "github_oidc_audience (re_netloc_ok env) (hs_public_base_url (re_settings env)) = Inr audience"
    and "authenticate_github_oidc (re_limit env) (re_verify env) audience keys (re_now env) token = Inr claims"
    and "rq_idempotency_key request = Some (attempt_text claims)"
  shows "triple (\<lambda>s. authorized_by (auth_env_of env key) claims (re_now env) grantee (st_auth s) \<and> quiet (st_ingest s))
    (persist_upload env request claims grantee) (answer_sound env request) (nothing_or_accepted env request)"
    (is "triple ?P _ _ _")
proof -
  have start: "nothing_or_accepted env request s" if "?P s" for s
    using that by (simp add: nothing_or_accepted_def quiet_def)
  have tail: "triple
      (\<lambda>s. authorized_by (auth_env_of env key) claims (re_now env) grantee (st_auth s) \<and>
         github_leaves (re_github env) (ingest_command env claims grantee envelope received) result (st_ingest s))
      (and_then (or_raise id (log_success env result envelope received)) (\<lambda>_.
         return_op (success_response result (re_correlation_id env))))
      (answer_sound env request) (nothing_or_accepted env request)"
    if read: "read_upload env request = Inr (parts, received)" "build_envelope env parts = Inr envelope"
      "validate_github_payload_metadata claims (ve_metadata envelope) = Inr ()"
    for parts received envelope result
  proof (cases "gu_outcome result = Github_Created")
    case True
    have accepted: "upload_accepted env request s"
      if "authorized_by (auth_env_of env key) claims (re_now env) grantee (st_auth s) \<and>
         github_leaves (re_github env) (ingest_command env claims grantee envelope received) result (st_ingest s)"
      for s
      unfolding upload_accepted_def using assms read True that by blast
    show ?thesis
      by (intro triple_or_raise triple_return) (auto simp: answer_sound_def nothing_or_accepted_def accepted)
  next
    case False
    then have "published (st_ingest s) = []"
      if "github_leaves (re_github env) c result (st_ingest s)" for s c
      using that by (auto simp: github_leaves_def split: github_outcome.splits)
    moreover have "\<not> created_answer (success_response result i)" for i
      using False by (simp add: created_answer_def success_response_def success_status_def split: github_outcome.split)
    ultimately show ?thesis
      by (intro triple_or_raise triple_return) (auto simp: answer_sound_def nothing_or_accepted_def)
  qed
  show ?thesis
    unfolding persist_upload_def
  proof (rule triple_or_raise [OF _ start])
    fix upload
    assume read: "read_upload env request = Inr upload"
    obtain parts received where u: "upload = (parts, received)" by (cases upload)
    show "triple ?P (case upload of (parts, received) \<Rightarrow>
        and_then (or_raise id (build_envelope env parts)) (\<lambda>envelope.
        and_then (or_raise oidc_failure (validate_github_payload_metadata claims (ve_metadata envelope))) (\<lambda>_.
        and_then (in_ingest (ingest_github_result (re_github env)
           (ingest_command env claims grantee envelope received))) (\<lambda>result.
        and_then (or_raise id (log_success env result envelope received)) (\<lambda>_.
        return_op (success_response result (re_correlation_id env)))))))
        (answer_sound env request) (nothing_or_accepted env request)"
      unfolding u prod.case
      by (intro triple_or_raise start triple_and_then [OF in_ingest_leaves] tail) (use read u in auto)
  qed
qed

lemma triple_known: "(\<And>s. P s \<Longrightarrow> triple (\<lambda>s'. s' = s) m Q E) \<Longrightarrow> triple P m Q E"
  by (simp add: triple_def)

lemma triple_at: "triple P m Q E \<Longrightarrow> P s \<Longrightarrow> triple (\<lambda>s'. s' = s) m Q E"
  by (simp add: triple_def)

lemma upload_sound:
  "triple fresh_sessions (upload_github_actions_result env request)
     (answer_sound env request) (nothing_or_accepted env request)"
proof -
  have refused: "triple fresh_sessions (raise_op e :: http_answer route_op) (answer_sound env request)
      (nothing_or_accepted env request)" for e
    by (rule triple_raise) (rule fresh_nothing)
  have off: "triple fresh_sessions (return_op not_found) (answer_sound env request) (nothing_or_accepted env request)"
    by (rule triple_return) (auto simp: answer_sound_def created_answer_def not_found_def intro: fresh_nothing)
  have authenticated: "triple (\<lambda>s. fresh_sessions s \<and> (\<exists>audience keys.
        github_oidc_audience (re_netloc_ok env) (hs_public_base_url (re_settings env)) = Inr audience \<and>
        authenticate_github_oidc (re_limit env) (re_verify env) audience keys (re_now env) token = Inr claims))
      (and_then (authorize env claims) (\<lambda>grantee. persist_upload env request claims grantee))
      (answer_sound env request) (nothing_or_accepted env request)"
    if "rq_authorization request = [''Bearer '' @ token]" "rq_idempotency_key request = Some (attempt_text claims)"
    for token claims
  proof (rule triple_known)
    fix s :: route_state
    assume "fresh_sessions s \<and> (\<exists>audience keys.
        github_oidc_audience (re_netloc_ok env) (hs_public_base_url (re_settings env)) = Inr audience \<and>
        authenticate_github_oidc (re_limit env) (re_verify env) audience keys (re_now env) token = Inr claims)"
    then obtain audience keys where s: "fresh_sessions s"
      and known: "github_oidc_audience (re_netloc_ok env) (hs_public_base_url (re_settings env)) = Inr audience"
        "authenticate_github_oidc (re_limit env) (re_verify env) audience keys (re_now env) token = Inr claims"
      by blast
    have persist: "triple (\<lambda>s. (\<exists>key. authorized_by (auth_env_of env key) claims (re_now env) grantee (st_auth s)) \<and>
        quiet (st_ingest s)) (persist_upload env request claims grantee)
        (answer_sound env request) (nothing_or_accepted env request)" for grantee
      by (rule triple_known)
        (use triple_at [OF persist_upload_sound [OF that(1) known that(2)]] in blast)
    show "triple (\<lambda>s'. s' = s)
        (and_then (authorize env claims) (\<lambda>grantee. persist_upload env request claims grantee))
        (answer_sound env request) (nothing_or_accepted env request)"
      by (rule triple_at [OF triple_and_then [OF authorize_route persist] s])
  qed
  show ?thesis
    unfolding upload_github_actions_result_def Let_def
  proof (intro triple_if off refused triple_or_raise fresh_nothing)
    fix token
    assume "bearer_token (rq_authorization request) = Inr token"
    then have bearer: "rq_authorization request = [''Bearer '' @ token]"
      by (auto simp: bearer_token_def Let_def prefix_def split: list.splits if_splits)
    show "triple fresh_sessions (and_then (authenticate env token) (\<lambda>claims.
        if rq_idempotency_key request \<noteq> Some (attempt_text claims)
        then raise_op (Route_problem (policy_problem ''artifact_mismatch''))
        else and_then (authorize env claims) (persist_upload env request claims)))
        (answer_sound env request) (nothing_or_accepted env request)"
    proof (rule triple_and_then [OF authenticate_claims], intro triple_if)
      fix claims
      show "triple (\<lambda>s. fresh_sessions s \<and> (\<exists>audience keys.
          github_oidc_audience (re_netloc_ok env) (hs_public_base_url (re_settings env)) = Inr audience \<and>
          authenticate_github_oidc (re_limit env) (re_verify env) audience keys (re_now env) token = Inr claims))
          (raise_op (Route_problem (policy_problem ''artifact_mismatch'')))
          (answer_sound env request) (nothing_or_accepted env request)"
        by (rule triple_raise) (auto intro: fresh_nothing)
    qed (use authenticated [OF bearer] in auto)
  qed
qed


end
