(* ===== verification/Github_Webhook.thy ===== *)
theory Github_Webhook
  imports Contracts Py_Json
begin

text \<open>
  GitHub webhooks (\<^verbatim>\<open>access/github_webhook\<close>): authentication of the exact bytes of a
  delivery before it is parsed, and the entry points over the delivery repository.  HMAC-SHA-256
  and SHA-256 are the parameters \<open>hmac\<close> and \<open>sha\<close>, case folding is \<open>casefold\<close> and the
  interpreter's recursion limit \<open>limit\<close>.
\<close>

section \<open>Errors, secrets and values\<close>

datatype webhook_error_code =
  Body_Too_Large | Invalid_Content_Type | Invalid_Delivery_Id | Invalid_Event | Invalid_Signature | Invalid_Json

datatype webhook_error =
    GithubWebhookError webhook_error_code
  | Webhook_ValueError string

datatype webhook_claim_decision = Webhook_Acquired | Webhook_Replay | Webhook_Conflict

record webhook_secrets =
  ws_current :: bytes
  ws_previous :: "bytes option"
  ws_previous_valid_until :: "datetime option"

record verified_webhook =
  vw_delivery_id :: string
  vw_body_hash :: string
  vw_event :: string
  vw_action :: codes
  vw_installation_id :: "int option"
  vw_payload :: "(codes \<times> json) list"
  vw_mutation_allowed :: bool
  vw_used_previous_secret :: bool

record work_lease =
  wl_delivery_id :: string
  wl_installation_id :: int
  wl_event :: string
  wl_action :: codes
  wl_lease_token :: string
  wl_attempt_count :: int

definition WORK_LEASE :: timedelta where "WORK_LEASE = minutes 5"
definition MAXIMUM_WORK_ATTEMPTS :: int where "MAXIMUM_WORK_ATTEMPTS = 8"
definition INITIAL_RETRY_SECONDS :: int where "INITIAL_RETRY_SECONDS = 30"
definition MAXIMUM_RETRY_SECONDS :: int where "MAXIMUM_RETRY_SECONDS = 60 * 60"

definition webhook_aware :: "datetime \<Rightarrow> webhook_error + datetime" where
  "webhook_aware d =
     (if \<not> aware d then Inl (Webhook_ValueError ''webhook timestamps must be timezone-aware'') else Inr d)"

section \<open>Parts of the authentication\<close>

definition webhook_delivery_id :: "string \<Rightarrow> webhook_error + string" where
  "webhook_delivery_id v =
     (if canonical_uuid v then Inr v else Inl (GithubWebhookError Invalid_Delivery_Id))"

text \<open>\<^verbatim>\<open>sha256=\<close> and sixty-four lowercase hexadecimal digits.\<close>

definition signature_prefix :: string where "signature_prefix = ''sha256=''"

definition signature_digest :: "string \<Rightarrow> webhook_error + string" where
  "signature_digest v =
     (if take 7 v = signature_prefix \<and> sha256_hex (drop 7 v) then Inr (drop 7 v)
      else Inl (GithubWebhookError Invalid_Signature))"

definition previous_secret_active :: "webhook_secrets \<Rightarrow> datetime \<Rightarrow> webhook_error + bool" where
  "previous_secret_active secrets now =
     (case ws_previous_valid_until secrets of
        None \<Rightarrow> Inr False
      | Some until \<Rightarrow>
          (case webhook_aware until of
             Inl e \<Rightarrow> Inl e
           | Inr aware_until \<Rightarrow>
               Inr (dt_le now aware_until \<and>
                    dt_le aware_until (dt_add now (seconds (secret_overlap_seconds WEBHOOK_POLICY_V2))))))"

definition webhook_hooks :: "webhook_error json_hooks" where
  "webhook_hooks =
     \<lparr>jh_object = unique_hook (Webhook_ValueError ''duplicate key''), jh_float = keep_float,
      jh_constant = (\<lambda>_. Inl (Webhook_ValueError ''non-finite number''))\<rparr>"

text \<open>Every way the decoder can fail, recursion included, is the same rejection.\<close>

definition strict_object :: "nat \<Rightarrow> bytes \<Rightarrow> webhook_error + (codes \<times> json) list" where
  "strict_object limit raw_body =
     (case json_decode_bytes raw_body of
        None \<Rightarrow> Inl (GithubWebhookError Invalid_Json)
      | Some text \<Rightarrow>
          (case json_loads webhook_hooks limit text of
             Inr (JObject members) \<Rightarrow> Inr members
           | _ \<Rightarrow> Inl (GithubWebhookError Invalid_Json)))"

definition payload_action :: "(codes \<times> json) list \<Rightarrow> webhook_error + codes" where
  "payload_action payload =
     (case map_of payload (codes_of ''action'') of
        None \<Rightarrow> Inr []
      | Some (JString action) \<Rightarrow>
          if 64 < length action \<or> list_ex (\<lambda>c. c < 32) action
          then Inl (GithubWebhookError Invalid_Json) else Inr action
      | Some _ \<Rightarrow> Inl (GithubWebhookError Invalid_Json))"

definition installation_id :: "(codes \<times> json) list \<Rightarrow> webhook_error + int" where
  "installation_id payload =
     (case map_of payload (codes_of ''installation'') of
        Some (JObject installation) \<Rightarrow>
          (case map_of installation (codes_of ''id'') of
             Some (JInt n) \<Rightarrow> if n \<le> 0 then Inl (GithubWebhookError Invalid_Json) else Inr n
           | _ \<Rightarrow> Inl (GithubWebhookError Invalid_Json))
      | _ \<Rightarrow> Inl (GithubWebhookError Invalid_Json))"

definition event_allowed :: "string \<Rightarrow> codes \<Rightarrow> bool" where
  "event_allowed event action \<longleftrightarrow> (event, action) \<in> set (map (apsnd codes_of) WEBHOOK_EVENT_ACTIONS)"

section \<open>Authenticating a delivery\<close>

definition media_type :: "(string \<Rightarrow> string) \<Rightarrow> string \<Rightarrow> string" where
  "media_type casefold content_type =
     casefold (py_strip (takeWhile (\<lambda>c. c \<noteq> CHR '';'') content_type))"

text \<open>Which of the two secrets the signature was made with; the previous one only within its overlap.\<close>

definition matched_secrets ::
    "(bytes \<Rightarrow> bytes \<Rightarrow> bytes) \<Rightarrow> bytes \<Rightarrow> string \<Rightarrow> webhook_secrets \<Rightarrow> datetime
     \<Rightarrow> webhook_error + bool \<times> bool" where
  "matched_secrets hmac raw_body supplied secrets now =
     (let current_match = (supplied = hex_encode (hmac (ws_current secrets) raw_body)) in
      case ws_previous secrets of
        None \<Rightarrow> Inr (current_match, False)
      | Some previous \<Rightarrow>
          if supplied = hex_encode (hmac previous raw_body)
          then (case previous_secret_active secrets now of
                  Inl e \<Rightarrow> Inl e | Inr active \<Rightarrow> Inr (current_match, active))
          else Inr (current_match, False))"

definition classify_webhook ::
    "(bytes \<Rightarrow> bytes) \<Rightarrow> bytes \<Rightarrow> string \<Rightarrow> string \<Rightarrow> bool \<Rightarrow> (codes \<times> json) list
     \<Rightarrow> webhook_error + verified_webhook" where
  "classify_webhook sha raw_body delivery_id event used_previous payload =
     (case payload_action payload of
        Inl e \<Rightarrow> Inl e
      | Inr action \<Rightarrow>
          (let allowed = event_allowed event action in
           case (if allowed then map_sum id Some (installation_id payload) else Inr None) of
             Inl e \<Rightarrow> Inl e
           | Inr installation \<Rightarrow>
               Inr \<lparr>vw_delivery_id = delivery_id, vw_body_hash = hex_encode (sha raw_body),
                    vw_event = event, vw_action = action, vw_installation_id = installation,
                    vw_payload = payload, vw_mutation_allowed = allowed,
                    vw_used_previous_secret = used_previous\<rparr>))"

definition verify_github_webhook ::
    "(bytes \<Rightarrow> bytes \<Rightarrow> bytes) \<Rightarrow> (bytes \<Rightarrow> bytes) \<Rightarrow> (string \<Rightarrow> string) \<Rightarrow> nat \<Rightarrow> bytes \<Rightarrow> string
     \<Rightarrow> string \<Rightarrow> string \<Rightarrow> string \<Rightarrow> webhook_secrets \<Rightarrow> datetime \<Rightarrow> webhook_error + verified_webhook" where
  "verify_github_webhook hmac sha casefold limit raw_body content_type delivery_id event signature
       secrets now =
     (if maximum_body_bytes WEBHOOK_POLICY_V2 < int (length raw_body)
      then Inl (GithubWebhookError Body_Too_Large)
      else if media_type casefold content_type \<noteq> ''application/json''
      then Inl (GithubWebhookError Invalid_Content_Type)
      else case webhook_delivery_id delivery_id of
        Inl e \<Rightarrow> Inl e
      | Inr canonical_delivery_id \<Rightarrow>
     (if \<not> machine_code event then Inl (GithubWebhookError Invalid_Event)
      else case webhook_aware now of
        Inl e \<Rightarrow> Inl e
      | Inr aware_now \<Rightarrow>
     (if ws_current secrets = [] then Inl (GithubWebhookError Invalid_Signature)
      else case signature_digest signature of
        Inl e \<Rightarrow> Inl e
      | Inr supplied \<Rightarrow>
     (case matched_secrets hmac raw_body supplied secrets aware_now of
        Inl e \<Rightarrow> Inl e
      | Inr (current_match, previous_match) \<Rightarrow>
     (if \<not> current_match \<and> \<not> previous_match then Inl (GithubWebhookError Invalid_Signature)
      else case strict_object limit raw_body of
        Inl e \<Rightarrow> Inl e
      | Inr payload \<Rightarrow>
          classify_webhook sha raw_body canonical_delivery_id event
            (previous_match \<and> \<not> current_match) payload)))))"

section \<open>Entry points over the delivery repository\<close>

definition claim_github_webhook ::
    "(verified_webhook \<Rightarrow> datetime \<Rightarrow> datetime \<Rightarrow> 's \<Rightarrow> webhook_error + webhook_claim_decision \<times> 's)
     \<Rightarrow> verified_webhook \<Rightarrow> datetime \<Rightarrow> 's \<Rightarrow> webhook_error + webhook_claim_decision \<times> 's" where
  "claim_github_webhook claim webhook now s =
     (case webhook_aware now of
        Inl e \<Rightarrow> Inl e
      | Inr t \<Rightarrow> claim webhook t (dt_add t (days (delivery_retention_days WEBHOOK_POLICY_V2))) s)"

definition lease_github_webhook_work ::
    "(datetime \<Rightarrow> string \<Rightarrow> datetime \<Rightarrow> 's \<Rightarrow> work_lease option \<times> 's)
     \<Rightarrow> datetime \<Rightarrow> string \<Rightarrow> 's \<Rightarrow> webhook_error + work_lease option \<times> 's" where
  "lease_github_webhook_work lease_next now lease_token s =
     (case webhook_aware now of
        Inl e \<Rightarrow> Inl e
      | Inr t \<Rightarrow>
          if \<not> canonical_uuid lease_token
          then Inl (Webhook_ValueError ''webhook lease token must be a canonical UUID'')
          else Inr (lease_next t lease_token (dt_add t WORK_LEASE) s))"

definition complete_github_webhook_work ::
    "(work_lease \<Rightarrow> datetime \<Rightarrow> 's \<Rightarrow> bool \<times> 's) \<Rightarrow> work_lease \<Rightarrow> datetime \<Rightarrow> 's
     \<Rightarrow> webhook_error + bool \<times> 's" where
  "complete_github_webhook_work finish lease now s =
     (case webhook_aware now of Inl e \<Rightarrow> Inl e | Inr t \<Rightarrow> Inr (finish lease t s))"

definition renew_github_webhook_work ::
    "(work_lease \<Rightarrow> datetime \<Rightarrow> datetime \<Rightarrow> 's \<Rightarrow> bool \<times> 's) \<Rightarrow> work_lease \<Rightarrow> datetime \<Rightarrow> 's
     \<Rightarrow> webhook_error + bool \<times> 's" where
  "renew_github_webhook_work renew lease now s =
     (case webhook_aware now of
        Inl e \<Rightarrow> Inl e | Inr t \<Rightarrow> Inr (renew lease t (dt_add t WORK_LEASE) s))"

text \<open>The backoff of a failed attempt: thirty seconds doubled per attempt, at most an hour.\<close>

definition retry_delay :: "int \<Rightarrow> int" where
  "retry_delay attempt_count =
     min MAXIMUM_RETRY_SECONDS (INITIAL_RETRY_SECONDS * 2 ^ nat (max 0 (attempt_count - 1)))"

definition retry_available_at ::
    "int \<Rightarrow> datetime \<Rightarrow> datetime option \<Rightarrow> webhook_error + datetime" where
  "retry_available_at attempt_count now not_before =
     (let available_at = dt_add now (seconds (retry_delay attempt_count)) in
      case not_before of
        None \<Rightarrow> Inr available_at
      | Some nb \<Rightarrow>
          (case webhook_aware nb of
             Inl e \<Rightarrow> Inl e
           | Inr t \<Rightarrow> Inr (dt_max available_at (dt_min t (dt_add now (seconds MAXIMUM_RETRY_SECONDS))))))"

definition retry_github_webhook_work ::
    "(work_lease \<Rightarrow> datetime \<Rightarrow> datetime \<Rightarrow> string \<Rightarrow> bool \<Rightarrow> 's \<Rightarrow> bool \<times> 's)
     \<Rightarrow> work_lease \<Rightarrow> datetime \<Rightarrow> string \<Rightarrow> datetime option \<Rightarrow> 's \<Rightarrow> webhook_error + bool \<times> 's" where
  "retry_github_webhook_work retry lease now error_code not_before s =
     (case webhook_aware now of
        Inl e \<Rightarrow> Inl e
      | Inr t \<Rightarrow>
          if \<not> machine_code error_code then Inl (Webhook_ValueError ''webhook work error code is invalid'')
          else (case retry_available_at (wl_attempt_count lease) t not_before of
              Inl e \<Rightarrow> Inl e
            | Inr available_at \<Rightarrow>
                Inr (retry lease available_at t error_code
                       (MAXIMUM_WORK_ATTEMPTS \<le> wl_attempt_count lease) s)))"

section \<open>What a verified delivery is\<close>

lemma sum_case_Inr: "(case x of Inl e \<Rightarrow> Inl e | Inr y \<Rightarrow> f y) = Inr z \<longleftrightarrow> (\<exists>y. x = Inr y \<and> f y = Inr z)"
  by (cases x) auto

lemma if_error_Inr: "(if b then Inl e else x) = Inr z \<longleftrightarrow> \<not> b \<and> x = Inr z"
  by simp

lemma matched_secrets_sound:
  assumes "matched_secrets hmac raw supplied secrets now = Inr (c, p)"
  shows "(c \<longleftrightarrow> supplied = hex_encode (hmac (ws_current secrets) raw)) \<and>
    (p \<longrightarrow> (\<exists>previous until. ws_previous secrets = Some previous \<and>
      supplied = hex_encode (hmac previous raw) \<and> ws_previous_valid_until secrets = Some until \<and>
      dt_instant now \<le> dt_instant until \<and> dt_instant until \<le> dt_instant now + hours 1))"
  using assms
  by (auto simp: matched_secrets_def previous_secret_active_def webhook_aware_def Let_def dt_le_def
      dt_simps WEBHOOK_POLICY_V2_def hours_def minutes_def split: option.splits sum.splits if_splits)

lemma installation_id_pos: "installation_id payload = Inr n \<Longrightarrow> 0 < n"
  by (auto simp: installation_id_def split: option.splits json.splits if_splits)

lemma classify_webhook_sound:
  assumes "classify_webhook sha raw delivery_id event used payload = Inr w"
  shows "vw_body_hash w = hex_encode (sha raw) \<and> vw_delivery_id w = delivery_id \<and> vw_event w = event \<and>
    vw_payload w = payload \<and> vw_used_previous_secret w = used \<and>
    vw_mutation_allowed w = event_allowed event (vw_action w) \<and>
    (case vw_installation_id w of None \<Rightarrow> \<not> vw_mutation_allowed w | Some n \<Rightarrow> vw_mutation_allowed w \<and> 0 < n)"
  using assms
  by (auto simp: classify_webhook_def Let_def map_sum_def dest!: installation_id_pos
      split: sum.splits if_splits)

text \<open>
  C15.  A delivery is verified only when its exact bytes carry the HMAC of the current secret, or of
  the previous one within the hour of its rotation; then its hash is that of those bytes, its
  payload is what they parse to, and it asks for a mutation exactly for the listed event actions,
  always with a positive installation.
\<close>

theorem verified_webhook_sound:
  assumes "verify_github_webhook hmac sha casefold limit raw_body content_type delivery_id event
    signature secrets now = Inr w"
  shows "(signature = signature_prefix @ hex_encode (hmac (ws_current secrets) raw_body) \<and> ws_current secrets \<noteq> [] \<or>
      (\<exists>previous until. ws_previous secrets = Some previous \<and>
        signature = signature_prefix @ hex_encode (hmac previous raw_body) \<and>
        ws_previous_valid_until secrets = Some until \<and> dt_instant now \<le> dt_instant until \<and>
        dt_instant until \<le> dt_instant now + hours 1)) \<and>
    int (length raw_body) \<le> 2097152 \<and> canonical_uuid (vw_delivery_id w) \<and> vw_delivery_id w = delivery_id \<and>
    vw_body_hash w = hex_encode (sha raw_body) \<and> strict_object limit raw_body = Inr (vw_payload w) \<and>
    vw_mutation_allowed w = event_allowed event (vw_action w) \<and>
    (case vw_installation_id w of None \<Rightarrow> \<not> vw_mutation_allowed w | Some n \<Rightarrow> vw_mutation_allowed w \<and> 0 < n)"
proof -
  obtain d t supplied c p payload where
      size: "int (length raw_body) \<le> 2097152" and d: "webhook_delivery_id delivery_id = Inr d"
    and t: "webhook_aware now = Inr t" and cur: "ws_current secrets \<noteq> []"
    and sig: "signature_digest signature = Inr supplied"
    and m: "matched_secrets hmac raw_body supplied secrets t = Inr (c, p)" "c \<or> p"
    and payload: "strict_object limit raw_body = Inr payload"
    and w: "classify_webhook sha raw_body d event (p \<and> \<not> c) payload = Inr w"
    using assms unfolding verify_github_webhook_def sum_case_Inr if_error_Inr
    by (auto simp: WEBHOOK_POLICY_V2_def sum_case_Inr if_error_Inr)
  have sig': "signature = signature_prefix @ supplied"
    using sig append_take_drop_id [of 7 signature] unfolding signature_digest_def
    by (metis old.sum.simps(2) sum.distinct(1))
  have "d = delivery_id" "canonical_uuid delivery_id" "t = now"
    using d t by (auto simp: webhook_delivery_id_def webhook_aware_def split: if_splits)
  with classify_webhook_sound [OF w] matched_secrets_sound [OF m(1)] m(2) cur size payload sig'
  show ?thesis by auto
qed

lemma empty_object_parses: "strict_object (Suc limit) [123, 125] = Inr []"
proof -
  have "json_decode_bytes [123, 125] = Some [123, 125]"
    by (simp add: json_decode_bytes_def starts_with_def code_point_def accept_code_def)
  moreover have read: "read_value webhook_hooks (Suc f) (Suc limit) [123, 125] = Inr (JObject [], [])" for f
    by (simp add: skip_space_def json_space_def webhook_hooks_def unique_hook_def hook_error_def)
  have le: "2 * length [123, 125 :: nat] + 2 \<le> Suc 5" by simp
  have skip: "skip_space [123, 125] = [123, 125]" "skip_space ([] :: codes) = []" "((123 :: nat) = 65279) = False"
    by (simp_all add: skip_space_def json_space_def)
  have "json_loads webhook_hooks (Suc limit) [123, 125] = Inr (JObject [])"
    unfolding json_loads_fuel [OF le] skip read by (simp add: skip(2))
  ultimately show ?thesis by (simp add: strict_object_def)
qed

definition sample_delivery :: string where
  "sample_delivery = uuid_text (stamp_uuid4 (replicate 16 0))"

theorem verified_webhook_sound_witness:
  "\<exists>w. verify_github_webhook (\<lambda>k m. replicate 32 7) (\<lambda>b. replicate 32 0) (\<lambda>s. s) 100 [123, 125]
       ''application/json'' sample_delivery ''ping'' (signature_prefix @ hex_encode (replicate 32 7))
       \<lparr>ws_current = [1], ws_previous = None, ws_previous_valid_until = None\<rparr> (utc 0) = Inr w \<and>
     vw_body_hash w = hex_encode (replicate 32 0) \<and> vw_delivery_id w = sample_delivery"
proof -
  have d: "canonical_uuid sample_delivery"
    unfolding sample_delivery_def by (rule canonical_uuid4_uuid [OF canonical_uuid4_stamp]) simp
  have media: "media_type (\<lambda>s. s) ''application/json'' = ''application/json''"
    by (simp add: media_type_def py_strip_def py_space_def)
  have event: "machine_code ''ping''" by (simp add: machine_code_def is_lower_az_def)
  have sig: "signature_digest (signature_prefix @ hex_encode (replicate 32 7)) = Inr (hex_encode (replicate 32 7))"
    using sha256_hex_encode [of "replicate 32 7"] by (simp add: signature_digest_def signature_prefix_def)
  have parse: "strict_object 100 [123, 125] = Inr []" using empty_object_parses [of 99] by simp
  have no: "\<not> event_allowed ''ping'' []"
    by (auto simp: event_allowed_def WEBHOOK_EVENT_ACTIONS_def)
  obtain w where w: "verify_github_webhook (\<lambda>k m. replicate 32 7) (\<lambda>b. replicate 32 0) (\<lambda>s. s) 100 [123, 125]
       ''application/json'' sample_delivery ''ping'' (signature_prefix @ hex_encode (replicate 32 7))
       \<lparr>ws_current = [1], ws_previous = None, ws_previous_valid_until = None\<rparr> (utc 0) = Inr w"
    by (simp add: verify_github_webhook_def WEBHOOK_POLICY_V2_def media webhook_delivery_id_def d event
        webhook_aware_def dt_simps sig matched_secrets_def parse classify_webhook_def payload_action_def no)
  with verified_webhook_sound [OF w] show ?thesis by blast
qed

end
