(* ===== verification/Local_Upload.thy ===== *)
theory Local_Upload
  imports Multipart Finding_Parser "HOL-Library.List_Lexorder"
begin

text \<open>
  The body of a local upload (\<^verbatim>\<open>api/routes/local_ingest.py\<close>): the four parts are collected
  under limits from the callbacks of the multipart parser, read as strict JSON of bounded depth, and
  checked against the version, the schema and the result limits; the payload hash binds the
  metadata and the bytes of the other parts.  The schema validator, SHA-256, Python's text of a
  float and the recursion limit of the interpreter are parameters.
\<close>

section \<open>Problems and limits\<close>

record local_issue =
  lx_status :: int
  lx_code :: string
  lx_title :: string
  lx_detail :: string
  lx_retryable :: bool
  lx_limits :: "(string \<times> int) list"
  lx_headers :: "(string \<times> string) list"
  lx_extensions :: "(string \<times> json) list"

definition local_problem :: "int \<Rightarrow> string \<Rightarrow> string \<Rightarrow> string \<Rightarrow> local_issue" where
  "local_problem status code title detail =
     \<lparr>lx_status = status, lx_code = code, lx_title = title, lx_detail = detail, lx_retryable = False,
      lx_limits = [], lx_headers = [], lx_extensions = []\<rparr>"

definition quoted :: "string \<Rightarrow> string" where
  "quoted s = CHR 0x27 # s @ [CHR 0x27]"

record upload_limits =
  ul_wire_bytes :: int
  ul_parsed_bytes :: int
  ul_metadata_bytes :: int
  ul_findings_bytes :: int
  ul_sarif_bytes :: int
  ul_sbom_bytes :: int
  ul_findings_count :: int
  ul_scanner_results :: int
  ul_json_depth :: int
  ul_path_chars :: int
  ul_message_chars :: int

definition UPLOAD_LIMITS :: upload_limits where
  "UPLOAD_LIMITS =
     \<lparr>ul_wire_bytes = 32 * 1024 * 1024, ul_parsed_bytes = 64 * 1024 * 1024,
      ul_metadata_bytes = 64 * 1024, ul_findings_bytes = 10 * 1024 * 1024,
      ul_sarif_bytes = 16 * 1024 * 1024, ul_sbom_bytes = 16 * 1024 * 1024,
      ul_findings_count = 20000, ul_scanner_results = 32, ul_json_depth = 20,
      ul_path_chars = 1024, ul_message_chars = 8192\<rparr>"

definition part_limits :: "upload_limits \<Rightarrow> (string \<times> int) list" where
  "part_limits limits =
     [(''metadata'', ul_metadata_bytes limits), (''findings'', ul_findings_bytes limits),
      (''sarif'', ul_sarif_bytes limits), (''sbom'', ul_sbom_bytes limits)]"

definition LOCAL_REQUIRED_PARTS :: "string list" where
  "LOCAL_REQUIRED_PARTS = [''metadata'', ''findings'']"

definition JSON_MEDIA_TYPES :: "(string \<times> string list) list" where
  "JSON_MEDIA_TYPES =
     [(''metadata'', [''application/json'']), (''findings'', [''application/json'']),
      (''sarif'', [''application/json'', ''application/sarif+json'']),
      (''sbom'', [''application/json'', ''application/vnd.cyclonedx+json''])]"

definition local_shape_problem :: local_issue where
  "local_shape_problem = local_problem 400 ''invalid_multipart_parts'' ''Invalid multipart parts''
     ''Provide metadata and findings exactly once, with optional sarif and sbom exactly once.''"

definition local_size_problem :: "string \<Rightarrow> int \<Rightarrow> local_issue" where
  "local_size_problem name maximum =
     (local_problem 413 ''payload_too_large'' ''Payload is too large''
        ''The upload exceeds an application size limit.'')\<lparr>lx_limits := [(name, maximum)]\<rparr>"

definition depth_problem :: "string \<Rightarrow> int \<Rightarrow> local_issue" where
  "depth_problem part maximum =
     (local_problem 422 ''json_depth_exceeded'' ''JSON nesting limit exceeded''
        (''Part '' @ quoted part @ '' exceeds the maximum JSON nesting depth.''))\<lparr>lx_limits := [(''json_depth'', maximum)]\<rparr>"

definition schema_problem :: "string \<Rightarrow> local_issue" where
  "schema_problem part = local_problem 422 ''schema_validation_failed'' ''Schema validation failed''
     (''Part '' @ quoted part @ '' does not satisfy the version-one schema.'')"

definition malformed_json :: "string \<Rightarrow> local_issue" where
  "malformed_json part = local_problem 400 ''malformed_json'' ''Malformed JSON''
     (''Part '' @ quoted part @ '' must contain valid UTF-8 JSON.'')"

definition repeated_json_key :: "string \<Rightarrow> local_issue" where
  "repeated_json_key part = local_problem 400 ''duplicate_json_key'' ''Duplicate JSON key''
     (''Part '' @ quoted part @ '' contains a duplicate object key.'')"

section \<open>Collecting the parts\<close>

record local_policy =
  lp_limits :: "(string \<times> int) list"
  lp_parsed :: int
  lp_options :: option_reader

definition local_policy_of :: "upload_limits \<Rightarrow> option_reader \<Rightarrow> local_policy" where
  "local_policy_of limits reader =
     \<lparr>lp_limits = part_limits limits, lp_parsed = ul_parsed_bytes limits, lp_options = reader\<rparr>"

definition local_header_end :: "collector \<Rightarrow> local_issue + collector" where
  "local_header_end c =
     (let key = map byte_lower (bytes_strip (mc_field c)) in
      if key = [] \<or> key \<in> fst ` set (mc_headers c) then Inl local_shape_problem
      else Inr (c\<lparr>mc_headers := mc_headers c @ [(key, bytes_strip (mc_value c))],
                  mc_field := [], mc_value := []\<rparr>))"

definition local_headers_finished :: "local_policy \<Rightarrow> collector \<Rightarrow> local_issue + collector" where
  "local_headers_finished policy c =
     (case lp_options policy (header_of c ''content-disposition'') of (disposition, options) \<Rightarrow>
        (case decode_ascii (case map_of options (ascii_bytes_of ''name'') of None \<Rightarrow> [] | Some n \<Rightarrow> n) of
           None \<Rightarrow> Inl local_shape_problem
         | Some name \<Rightarrow>
             if disposition \<noteq> ascii_bytes_of ''form-data'' \<or> name \<notin> fst ` set (lp_limits policy) \<or>
                name \<in> fst ` set (mc_parts c)
             then Inl local_shape_problem
             else if folded_ascii (fst (lp_options policy (header_of c ''content-type''))) \<notin>
                     set (case map_of JSON_MEDIA_TYPES name of None \<Rightarrow> [] | Some ts \<Rightarrow> ts)
             then Inl (local_problem 415 ''unsupported_part_media_type'' ''Unsupported part media type''
               (''Part '' @ quoted name @ '' must declare a supported JSON media type.''))
             else Inr (c\<lparr>mc_name := Some name\<rparr>)))"

definition local_part_data :: "local_policy \<Rightarrow> bytes \<Rightarrow> collector \<Rightarrow> local_issue + collector" where
  "local_part_data policy chunk c =
     (case mc_name c of
        None \<Rightarrow> Inl local_shape_problem
      | Some name \<Rightarrow>
          (let maximum = (case map_of (lp_limits policy) name of None \<Rightarrow> 0 | Some n \<Rightarrow> n) in
           if maximum < int (length (mc_data c) + length chunk)
           then Inl (local_size_problem (name @ ''_bytes'') maximum)
           else Inr (c\<lparr>mc_data := mc_data c @ chunk\<rparr>)))"

definition local_part_end :: "collector \<Rightarrow> local_issue + collector" where
  "local_part_end c =
     (case mc_name c of
        None \<Rightarrow> Inl local_shape_problem
      | Some name \<Rightarrow>
          if is_archive (mc_data c)
          then Inl (local_problem 415 ''archive_not_supported'' ''Archives are not supported''
            ''Upload JSON artifacts directly; archive payloads are rejected.'')
          else Inr (c\<lparr>mc_parts := AList.update name (mc_data c) (mc_parts c)\<rparr>))"

fun local_collect :: "local_policy \<Rightarrow> upload_event \<Rightarrow> collector \<Rightarrow> local_issue + collector" where
  "local_collect policy Part_begin c = Inr (c\<lparr>mc_headers := [], mc_name := None, mc_data := []\<rparr>)"
| "local_collect policy (Header_field data) c = Inr (c\<lparr>mc_field := mc_field c @ data\<rparr>)"
| "local_collect policy (Header_value data) c = Inr (c\<lparr>mc_value := mc_value c @ data\<rparr>)"
| "local_collect policy Header_end c = local_header_end c"
| "local_collect policy Headers_finished c = local_headers_finished policy c"
| "local_collect policy (Part_data chunk) c = local_part_data policy chunk c"
| "local_collect policy Part_end c = local_part_end c"
| "local_collect policy Message_end c = Inr (c\<lparr>mc_ended := True\<rparr>)"

fun local_collect_all :: "local_policy \<Rightarrow> upload_event list \<Rightarrow> collector \<Rightarrow> local_issue + collector" where
  "local_collect_all policy [] c = Inr c"
| "local_collect_all policy (e # events) c = result_then (local_collect policy e c) (local_collect_all policy events)"

definition local_finish :: "local_policy \<Rightarrow> collector \<Rightarrow> local_issue + (string \<times> bytes) list" where
  "local_finish policy c =
     (if \<not> mc_ended c \<or> \<not> list_all (\<lambda>r. r \<in> fst ` set (mc_parts c)) LOCAL_REQUIRED_PARTS
      then Inl local_shape_problem
      else if lp_parsed policy < sum_list (map (int \<circ> length \<circ> snd) (mc_parts c))
      then Inl (local_size_problem ''parsed_bytes'' (lp_parsed policy))
      else Inr (mc_parts c))"

section \<open>Reading the body\<close>

definition local_malformed :: local_issue where
  "local_malformed = local_problem 400 ''malformed_multipart'' ''Malformed multipart request''
     ''The multipart request could not be parsed.''"

definition local_absorb ::
    "local_policy \<Rightarrow> upload_event list \<times> bool \<Rightarrow> collector \<Rightarrow> local_issue + collector" where
  "local_absorb policy reported c =
     result_then (local_collect_all policy (fst reported) c)
       (\<lambda>c'. if snd reported then Inl local_malformed else Inr c')"

text \<open>A client that disconnects makes the stream raise, which counts as malformed.\<close>

fun local_chunks ::
    "'p body_parser \<Rightarrow> local_policy \<Rightarrow> int \<Rightarrow> bool \<Rightarrow> bytes list \<Rightarrow> int \<Rightarrow> 'p \<Rightarrow> collector
     \<Rightarrow> local_issue + int \<times> collector" where
  "local_chunks parser policy limit disconnected [] received p c =
     (if disconnected then Inl local_malformed
      else result_then (local_absorb policy (bp_finalize parser p) c) (\<lambda>c'. Inr (received, c')))"
| "local_chunks parser policy limit disconnected (chunk # chunks) received p c =
     (let received' = received + int (length chunk) in
      if limit < received' then Inl (local_size_problem ''wire_bytes'' limit)
      else (case bp_write parser p chunk of (events, raised, p') \<Rightarrow>
        result_then (local_absorb policy (events, raised) c)
          (local_chunks parser policy limit disconnected chunks received' p')))"

definition invalid_length :: local_issue where
  "invalid_length = local_problem 400 ''invalid_content_length'' ''Invalid Content-Length''
     ''Content-Length must be a non-negative integer.''"

definition local_length :: "int \<Rightarrow> string option \<Rightarrow> local_issue + unit" where
  "local_length limit header =
     (case header of
        None \<Rightarrow> Inr ()
      | Some declared \<Rightarrow>
          (case py_int declared of
             None \<Rightarrow> Inl invalid_length
           | Some n \<Rightarrow>
               if n < 0 then Inl invalid_length
               else if limit < n then Inl (local_size_problem ''wire_bytes'' limit) else Inr ()))"

definition local_boundary :: "option_reader \<Rightarrow> string option \<Rightarrow> local_issue + bytes" where
  "local_boundary reader header =
     (let (media_type, options) = reader (ascii_bytes_of (case header of None \<Rightarrow> [] | Some v \<Rightarrow> v));
          boundary = (case map_of options (ascii_bytes_of ''boundary'') of None \<Rightarrow> [] | Some b \<Rightarrow> b) in
      if media_type \<noteq> ascii_bytes_of ''multipart/form-data'' \<or> boundary = []
      then Inl (local_problem 415 ''unsupported_media_type'' ''Unsupported media type''
        ''Content-Type must be multipart/form-data with a boundary.'')
      else Inr boundary)"

text \<open>The second summand of the error is an exception of another class.\<close>

type_synonym local_error = "local_issue + unit"

definition read_multipart ::
    "'p body_parser \<Rightarrow> option_reader \<Rightarrow> upload_limits \<Rightarrow> upload_request
     \<Rightarrow> local_error + (string \<times> bytes) list \<times> int" where
  "read_multipart parser reader limits request =
     (let policy = local_policy_of limits reader; limit = ul_wire_bytes limits in
      result_then (case local_length limit (ur_content_length request) of Inl p \<Rightarrow> Inl (Inl p) | Inr u \<Rightarrow> Inr u) (\<lambda>_.
      result_then (case local_boundary reader (ur_content_type request) of Inl p \<Rightarrow> Inl (Inl p) | Inr b \<Rightarrow> Inr b) (\<lambda>boundary.
      case bp_start parser boundary limit of
        None \<Rightarrow> Inl (Inr ())
      | Some p \<Rightarrow>
          (case local_chunks parser policy limit (ur_disconnected request) (ur_chunks request) 0 p empty_collector of
             Inl e \<Rightarrow> Inl (Inl e)
           | Inr (received, c) \<Rightarrow>
               (case local_finish policy c of Inl e \<Rightarrow> Inl (Inl e) | Inr parts \<Rightarrow> Inr (parts, received))))))"

section \<open>Reading the documents\<close>

fun depth_exceeded :: "int \<Rightarrow> int \<Rightarrow> json \<Rightarrow> bool" where
  "depth_exceeded maximum parent (JObject ms) \<longleftrightarrow>
     maximum < parent + 1 \<or> list_ex (\<lambda>m. depth_exceeded maximum (parent + 1) (snd m)) ms"
| "depth_exceeded maximum parent (JArray vs) \<longleftrightarrow>
     maximum < parent + 1 \<or> list_ex (depth_exceeded maximum (parent + 1)) vs"
| "depth_exceeded maximum parent v \<longleftrightarrow> False"

text \<open>The hooks raise a problem for a repeated name, and \<^verbatim>\<open>ValueError\<close> for a constant.\<close>

datatype hook_failure = Repeated_name | Not_finite

definition local_hooks :: "hook_failure json_hooks" where
  "local_hooks = \<lparr>jh_object = unique_hook Repeated_name, jh_float = keep_float, jh_constant = \<lambda>_. Inl Not_finite\<rparr>"

definition load_json_value :: "nat \<Rightarrow> bytes \<Rightarrow> string \<Rightarrow> int \<Rightarrow> local_issue + json" where
  "load_json_value recursion payload part deepest =
     (case utf8_decode payload of
        None \<Rightarrow> Inl (malformed_json part)
      | Some t \<Rightarrow>
          (case json_loads local_hooks recursion t of
             Inl (Json_Hook Repeated_name) \<Rightarrow> Inl (repeated_json_key part)
           | Inl Json_Recursion \<Rightarrow> Inl (depth_problem part deepest)
           | Inl _ \<Rightarrow> Inl (malformed_json part)
           | Inr v \<Rightarrow> if depth_exceeded deepest 0 v then Inl (depth_problem part deepest) else Inr v))"

definition load_json_object :: "nat \<Rightarrow> bytes \<Rightarrow> string \<Rightarrow> int \<Rightarrow> local_issue + members" where
  "load_json_object recursion payload part deepest =
     result_then (load_json_value recursion payload part deepest)
       (\<lambda>v. case v of JObject ms \<Rightarrow> Inr ms | _ \<Rightarrow> Inl (schema_problem part))"

text \<open>
  \<^verbatim>\<open>value == 1\<close>: true for the integer, for \<^verbatim>\<open>True\<close> and for a float whose text
  rounds to 1, ties to even.
\<close>

definition equals_one :: "json \<Rightarrow> bool" where
  "equals_one v =
     (case v of
        JInt n \<Rightarrow> n = 1
      | JBool b \<Rightarrow> b
      | JFloat s \<Rightarrow> (case float_fraction s of (m, k) \<Rightarrow>
          (2 ^ 54 - 1) * k \<le> m * 2 ^ 54 \<and> m * 2 ^ 53 \<le> (2 ^ 53 + 1) * k)
      | _ \<Rightarrow> False)"

definition validate_supported_version :: "members \<Rightarrow> string \<Rightarrow> local_issue + unit" where
  "validate_supported_version document part =
     (if \<not> equals_one (member_of document ''schema_version'')
      then Inl ((local_problem 422 ''unsupported_schema_version'' ''Unsupported schema version''
        (''Part '' @ quoted part @ '' uses an unsupported schema version.''))
          \<lparr>lx_extensions := [(''supported_schema_versions'', JArray [JInt 1])]\<rparr>)
      else Inr ())"

definition validate_schema ::
    "(string \<Rightarrow> members \<Rightarrow> bool) \<Rightarrow> members \<Rightarrow> string \<Rightarrow> string \<Rightarrow> local_issue + unit" where
  "validate_schema schema document filename part =
     (if schema filename document then Inr () else Inl (schema_problem part))"

definition finding_within :: "upload_limits \<Rightarrow> json \<Rightarrow> bool" where
  "finding_within limits v =
     (case v of
        JObject ms \<Rightarrow>
          (case member_of ms ''file_path'' of JString s \<Rightarrow> int (length s) \<le> ul_path_chars limits | _ \<Rightarrow> True) \<and>
          (case member_of ms ''message'' of JString s \<Rightarrow> int (length s) \<le> ul_message_chars limits | _ \<Rightarrow> False)
      | _ \<Rightarrow> False)"

definition validate_result_limits :: "members \<Rightarrow> upload_limits \<Rightarrow> local_issue + unit" where
  "validate_result_limits document limits =
     (case member_of document ''scanners'' of
        JArray scanners \<Rightarrow>
          if ul_scanner_results limits < int (length scanners) then Inl (schema_problem ''findings'')
          else (case member_of document ''findings'' of
             JArray findings \<Rightarrow>
               if ul_findings_count limits < int (length findings) \<or> \<not> list_all (finding_within limits) findings
               then Inl (schema_problem ''findings'') else Inr ()
           | _ \<Rightarrow> Inl (schema_problem ''findings''))
      | _ \<Rightarrow> Inl (schema_problem ''findings''))"

section \<open>The payload hash\<close>

text \<open>\<^verbatim>\<open>json.dumps(v, sort_keys=True, separators=(",", ":"), ensure_ascii=False)\<close>\<close>

fun dump_document :: "(codes \<Rightarrow> codes) \<Rightarrow> json \<Rightarrow> codes" where
  "dump_document float_text JNull = codes_of ''null''"
| "dump_document float_text (JBool b) = codes_of (if b then ''true'' else ''false'')"
| "dump_document float_text (JInt n) = codes_of (decimal_int n)"
| "dump_document float_text (JFloat s) = float_text s"
| "dump_document float_text (JConstant s) = s"
| "dump_document float_text (JString s) = json_quote s"
| "dump_document float_text (JArray vs) = 91 # join_texts [44] (map (dump_document float_text) vs) @ [93]"
| "dump_document float_text (JObject ms) =
     123 # join_texts [44] (map snd (sort_key fst (map (\<lambda>m. (fst m, json_quote (fst m) @ 58 # dump_document float_text (snd m))) ms))) @ [125]"

definition part_line :: "(bytes \<Rightarrow> bytes) \<Rightarrow> (string \<times> bytes) list \<Rightarrow> string \<Rightarrow> bytes" where
  "part_line sha parts name =
     (case map_of parts name of
        None \<Rightarrow> []
      | Some v \<Rightarrow> ascii_bytes_of (CHR 0x0A # name @ CHR 0x00 # decimal (length v) @ CHR 0x00 # hex_encode (sha v)))"

definition hashed_text ::
    "(codes \<Rightarrow> codes) \<Rightarrow> (bytes \<Rightarrow> bytes) \<Rightarrow> members \<Rightarrow> (string \<times> bytes) list \<Rightarrow> bytes option" where
  "hashed_text float_text sha metadata parts =
     map_option (\<lambda>m. m @ concat (map (part_line sha parts) [''findings'', ''sarif'', ''sbom'']))
       (utf8_encode (dump_document float_text (JObject metadata)))"

text \<open>\<open>None\<close> when the metadata holds a lone surrogate, which UTF-8 cannot encode.\<close>

definition payload_hash ::
    "(codes \<Rightarrow> codes) \<Rightarrow> (bytes \<Rightarrow> bytes) \<Rightarrow> members \<Rightarrow> (string \<times> bytes) list \<Rightarrow> string option" where
  "payload_hash float_text sha metadata parts =
     map_option (hex_encode \<circ> sha) (hashed_text float_text sha metadata parts)"

end
