(* ===== verification/Token_Store.thy ===== *)
theory Token_Store
  imports Scan_Token
begin

text \<open>
  The table of scan tokens (\<^verbatim>\<open>db/repositories/api_tokens.py\<close>) with the limits it
  enforces, and what issuing and authenticating promise together.  A write transaction is one
  step; an integrity error leaves the table unchanged.
\<close>

record api_token_row = token_record +
  at_last_used_at :: "datetime option"

record token_user =
  tu_id :: int
  tu_github_login :: string
  tu_email :: string
  tu_disabled_at :: "datetime option"

definition token_active :: "int \<Rightarrow> datetime \<Rightarrow> api_token_row \<Rightarrow> bool" where
  "token_active user_id now row \<longleftrightarrow>
     tr_user_id row = user_id \<and> tr_revoked_at row = None \<and> dt_less now (tr_expires_at row)"

definition token_row_allowed :: "token_user list \<Rightarrow> api_token_row list \<Rightarrow> api_token_row \<Rightarrow> bool" where
  "token_row_allowed users rows row \<longleftrightarrow>
     tr_token_id row \<notin> tr_token_id ` set rows \<and> tr_selector row \<notin> tr_selector ` set rows \<and>
     tr_user_id row \<in> tu_id ` set users \<and> length (tr_token_id row) = 36 \<and>
     length (tr_secret_digest row) = 32 \<and> 0 < tr_token_version row"

definition selector_or_id_exists :: "token_record \<Rightarrow> api_token_row list \<Rightarrow> bool" where
  "selector_or_id_exists record rows \<longleftrightarrow>
     list_ex (\<lambda>row. tr_selector row = tr_selector record \<or> tr_token_id row = tr_token_id record) rows"

definition active_label_exists :: "token_record \<Rightarrow> datetime \<Rightarrow> api_token_row list \<Rightarrow> bool" where
  "active_label_exists record now rows \<longleftrightarrow>
     list_ex (\<lambda>row. token_active (tr_user_id record) now row \<and> tr_label_key row = tr_label_key record) rows"

definition new_row :: "token_record \<Rightarrow> api_token_row" where
  "new_row record =
     \<lparr>tr_token_id = tr_token_id record, tr_user_id = tr_user_id record, tr_label = tr_label record,
      tr_label_key = tr_label_key record, tr_selector = tr_selector record,
      tr_secret_digest = tr_secret_digest record, tr_scope = tr_scope record,
      tr_token_version = tr_token_version record, tr_created_at = tr_created_at record,
      tr_expires_at = tr_expires_at record, tr_revoked_at = tr_revoked_at record,
      at_last_used_at = None\<rparr>"

definition token_create ::
    "token_user list \<Rightarrow> token_record \<Rightarrow> datetime \<Rightarrow> int \<Rightarrow> int \<Rightarrow> api_token_row list
     \<Rightarrow> token_error + create_decision \<times> api_token_row list" where
  "token_create users record now active_limit creation_hourly_limit rows =
     (if active_limit \<le> int (count_where (token_active (tr_user_id record) now) rows)
      then Inr (Active_Limit_Reached, rows)
      else if creation_hourly_limit \<le> int (count_where (\<lambda>row. tr_user_id row = tr_user_id record \<and>
          dt_le (dt_add now (- hours 1)) (tr_created_at row)) rows)
      then Inr (Creation_Rate_Limited, rows)
      else if active_label_exists record now rows then Inr (Label_Conflict, rows)
      else if token_row_allowed users rows (new_row record)
      then Inr (Token_Created, rows @ [new_row record])
      else if selector_or_id_exists record rows then Inr (Selector_Collision, rows)
      else if active_label_exists record now rows then Inr (Label_Conflict, rows)
      else Inl Token_IntegrityError)"

text \<open>The row as a record, with the times read back normalised to UTC.\<close>

definition to_record :: "api_token_row \<Rightarrow> token_record" where
  "to_record row =
     \<lparr>tr_token_id = tr_token_id row, tr_user_id = tr_user_id row, tr_label = tr_label row,
      tr_label_key = tr_label_key row, tr_selector = tr_selector row,
      tr_secret_digest = tr_secret_digest row, tr_scope = tr_scope row,
      tr_token_version = tr_token_version row, tr_created_at = normalise_utc (tr_created_at row),
      tr_expires_at = normalise_utc (tr_expires_at row),
      tr_revoked_at = map_option normalise_utc (tr_revoked_at row)\<rparr>"

definition account_name :: "token_user \<Rightarrow> string" where
  "account_name user =
     (if tu_github_login user \<noteq> [] then tu_github_login user
      else if tu_email user \<noteq> [] then tu_email user
      else ''user-'' @ decimal_int (tu_id user))"

text \<open>The first row of the join of tokens with users.\<close>

definition find_for_authentication ::
    "token_user list \<Rightarrow> api_token_row list \<Rightarrow> string \<Rightarrow> token_authentication_record option" where
  "find_for_authentication users rows selector =
     (case find (\<lambda>row. tr_selector row = selector) rows of
        None \<Rightarrow> None
      | Some row \<Rightarrow>
          (case find (\<lambda>u. tu_id u = tr_user_id row) users of
             None \<Rightarrow> None
           | Some user \<Rightarrow>
               Some \<lparr>ta_token = to_record row, ta_account_name = account_name user,
                     ta_user_disabled_at = map_option normalise_utc (tu_disabled_at user)\<rparr>))"

definition revoke_owned ::
    "int \<Rightarrow> string \<Rightarrow> datetime \<Rightarrow> api_token_row list \<Rightarrow> bool \<times> api_token_row list" where
  "revoke_owned user_id token_id now rows =
     (let p = (\<lambda>row. tr_token_id row = token_id \<and> tr_user_id row = user_id \<and> tr_revoked_at row = None) in
      (0 < count_where p rows, update_where p (\<lambda>row. row\<lparr>tr_revoked_at := Some now\<rparr>) rows))"

definition touch_last_used ::
    "string \<Rightarrow> datetime \<Rightarrow> timedelta \<Rightarrow> api_token_row list \<Rightarrow> api_token_row list" where
  "touch_last_used token_id now minimum_interval rows =
     update_where (\<lambda>row. tr_token_id row = token_id \<and>
         (case map_option normalise_utc (at_last_used_at row) of
            None \<Rightarrow> True | Some used \<Rightarrow> dt_le used (dt_add now (- minimum_interval))))
       (\<lambda>row. row\<lparr>at_last_used_at := Some now\<rparr>) rows"

section \<open>Creation\<close>

lemma token_create_cases:
  assumes "token_create users record now limit hourly rows = Inr (d, rows')"
  shows "d \<noteq> Token_Created \<and> rows' = rows \<or>
    d = Token_Created \<and> rows' = rows @ [new_row record] \<and> token_row_allowed users rows (new_row record) \<and>
      int (count_where (token_active (tr_user_id record) now) rows) < limit \<and>
      int (count_where (\<lambda>row. tr_user_id row = tr_user_id record \<and>
          dt_le (dt_add now (- hours 1)) (tr_created_at row)) rows) < hourly \<and>
      \<not> active_label_exists record now rows"
  using assms by (auto simp: token_create_def split: if_splits)

lemma create_attempts_created:
  assumes keep: "\<And>record d s s'. create record now s = Inr (d, s') \<Longrightarrow> d \<noteq> Token_Created \<Longrightarrow> s' = s"
  shows "create_attempts sha port create user_id label label_key now expiry_days n r s = Inr (issued, s') \<Longrightarrow>
    \<exists>selector secret token_id. length selector = 12 \<and> length secret = 32 \<and> canonical_uuid4 token_id \<and>
      it_plaintext_token issued = token_text selector secret \<and>
      it_record issued = \<lparr>tr_token_id = token_id, tr_user_id = user_id, tr_label = label,
        tr_label_key = label_key, tr_selector = b64_encode selector,
        tr_secret_digest = digest_token_secret sha secret, tr_scope = TOKEN_SCOPE, tr_token_version = 1,
        tr_created_at = now, tr_expires_at = dt_add now (days expiry_days), tr_revoked_at = None\<rparr> \<and>
      create (it_record issued) now s = Inr (Token_Created, s')"
proof (induction n arbitrary: r)
  case (Suc n)
  obtain selector r1 where sel: "random_bytes_checked port r TOKEN_SELECTOR_BYTES = Inr (selector, r1)"
    using Suc.prems by (auto split: sum.splits)
  obtain secret r2 where sec: "random_bytes_checked port r1 TOKEN_SECRET_BYTES = Inr (secret, r2)"
    using Suc.prems sel by (auto split: sum.splits)
  obtain token_id r3 where tid: "random_uuid port r2 = Inr (token_id, r3)"
    using Suc.prems sel sec by (auto split: sum.splits)
  define tok where "tok = \<lparr>tr_token_id = token_id, tr_user_id = user_id, tr_label = label,
      tr_label_key = label_key, tr_selector = b64_encode selector,
      tr_secret_digest = digest_token_secret sha secret, tr_scope = TOKEN_SCOPE, tr_token_version = 1,
      tr_created_at = now, tr_expires_at = dt_add now (days expiry_days), tr_revoked_at = None\<rparr>"
  obtain d s1 where d: "create tok now s = Inr (d, s1)"
    using Suc.prems sel sec tid by (auto simp: tok_def Let_def split: sum.splits)
  note step = Suc.prems [unfolded create_attempts.simps sel sec tid sum.case prod.case Let_def
      tok_def [symmetric] d]
  show ?case
  proof (cases d)
    case Token_Created
    then have "issued = \<lparr>it_plaintext_token = token_text selector secret, it_record = tok\<rparr>" "s1 = s'"
      using step by simp_all
    then show ?thesis
      using d Token_Created random_bytes_checked_length [OF sel] random_bytes_checked_length [OF sec]
        random_uuid_canonical [OF tid]
      by (auto simp: tok_def token_constants)
  next
    case Selector_Collision
    then have "s1 = s" using keep [OF d] by simp
    with Selector_Collision step have
      "create_attempts sha port create user_id label label_key now expiry_days n r3 s = Inr (issued, s')"
      by simp
    then show ?thesis by (rule Suc.IH)
  qed (use step in simp_all)
qed simp

lemma create_scan_token_created:
  assumes "create_scan_token sha uc port (token_create users) command now r rows = Inr (issued, rows')"
  shows "\<exists>selector secret token_id label label_key n. length selector = 12 \<and> length secret = 32 \<and>
    canonical_uuid4 token_id \<and> aware now \<and> normalize_expiry_days (ct_expiry_days command) = Inr n \<and>
    it_plaintext_token issued = token_text selector secret \<and>
    it_record issued = \<lparr>tr_token_id = token_id, tr_user_id = ct_user_id command, tr_label = label,
      tr_label_key = label_key, tr_selector = b64_encode selector,
      tr_secret_digest = digest_token_secret sha secret, tr_scope = TOKEN_SCOPE, tr_token_version = 1,
      tr_created_at = now, tr_expires_at = dt_add now (days n), tr_revoked_at = None\<rparr> \<and>
    token_create users (it_record issued) now 5 5 rows = Inr (Token_Created, rows')"
proof -
  obtain label label_key n where n: "normalize_expiry_days (ct_expiry_days command) = Inr n" "aware now"
    and "create_attempts sha port (\<lambda>record now s. token_create users record now TOKEN_ACTIVE_LIMIT
        TOKEN_CREATION_HOURLY_LIMIT s) (ct_user_id command) label label_key now n MAX_COLLISION_ATTEMPTS
        r rows = Inr (issued, rows')"
    using assms by (auto simp: create_scan_token_def token_aware_def split: sum.splits if_splits)
  from create_attempts_created [OF _ this(3)] n show ?thesis
    using token_create_cases by (fastforce simp: token_constants)
qed

text \<open>When a token found by its selector is accepted.\<close>

lemma authenticate_found:
  assumes "length selector = 12" "length secret = 32" "aware t" "length (sha secret) = 32"
    and "lookup (b64_encode selector) = Some a"
    and "tr_secret_digest (ta_token a) = sha secret" "ta_user_disabled_at a = None"
    and "tr_revoked_at (ta_token a) = None" "aware (tr_expires_at (ta_token a))"
    and "tr_scope (ta_token a) = TOKEN_SCOPE"
  shows "(\<exists>p. authenticate_scan_token sha lookup (token_text selector secret) t TOKEN_SCOPE =
      Inr \<lparr>tx_decision = Token_Authenticated, tx_principal = Some p\<rparr> \<and>
      tp_user_id p = tr_user_id (ta_token a)) \<longleftrightarrow> dt_less t (tr_expires_at (ta_token a))"
proof -
  have "parse_scan_token (token_text selector secret) =
      Inr \<lparr>pt_selector = b64_encode selector, pt_secret = secret\<rparr>"
    using assms(1,2) parse_scan_token_canonical by blast
  then show ?thesis
    using assms(3-)
    by (auto simp: authenticate_scan_token_def digest_token_secret_def token_aware_def token_answer_def
        dt_le_def dt_less_def)
qed

text \<open>
  C19.  A freshly issued token authenticates its owner against the table at exactly the instants
  before its expiry, as long as the account is not disabled.
\<close>

theorem issued_token_authenticates:
  assumes created: "create_scan_token sha uc port (token_create users) command now r rows = Inr (issued, rows')"
    and user: "find (\<lambda>u. tu_id u = ct_user_id command) users = Some user" "tu_disabled_at user = None"
    and sha: "\<And>b. length (sha b) = 32" and t: "aware t"
    and n: "normalize_expiry_days (ct_expiry_days command) = Inr n"
  shows "(\<exists>p. authenticate_scan_token sha (find_for_authentication users rows')
      (it_plaintext_token issued) t TOKEN_SCOPE =
        Inr \<lparr>tx_decision = Token_Authenticated, tx_principal = Some p\<rparr> \<and>
      tp_user_id p = ct_user_id command) \<longleftrightarrow> dt_instant t < dt_instant now + days n"
proof -
  obtain selector secret token_id label label_key where
      len: "length selector = 12" "length secret = 32" and now: "aware now"
    and plain: "it_plaintext_token issued = token_text selector secret"
    and rec: "it_record issued = \<lparr>tr_token_id = token_id, tr_user_id = ct_user_id command, tr_label = label,
      tr_label_key = label_key, tr_selector = b64_encode selector,
      tr_secret_digest = digest_token_secret sha secret, tr_scope = TOKEN_SCOPE, tr_token_version = 1,
      tr_created_at = now, tr_expires_at = dt_add now (days n), tr_revoked_at = None\<rparr>"
    and create: "token_create users (it_record issued) now 5 5 rows = Inr (Token_Created, rows')"
    using create_scan_token_created [OF created] n by auto
  have rows': "rows' = rows @ [new_row (it_record issued)]"
    and allowed: "token_row_allowed users rows (new_row (it_record issued))"
    using token_create_cases [OF create] by auto
  have "tr_selector row \<noteq> b64_encode selector" if "row \<in> set rows" for row
    using allowed imageI [OF that, of tr_selector] by (auto simp: token_row_allowed_def new_row_def rec)
  then have "find (\<lambda>row. tr_selector row = b64_encode selector) rows = None" by (simp add: find_None_iff)
  then have "find (\<lambda>row. tr_selector row = b64_encode selector) rows' = Some (new_row (it_record issued))"
    unfolding rows' by (induction rows) (auto simp: new_row_def rec split: if_splits)
  then have found: "find_for_authentication users rows' (b64_encode selector) =
      Some \<lparr>ta_token = to_record (new_row (it_record issued)), ta_account_name = account_name user,
        ta_user_disabled_at = None\<rparr>"
    using user by (simp add: find_for_authentication_def new_row_def rec)
  have exp: "normalise_utc (dt_add now (days n)) = dt_add now (days n)"
    using now by (simp add: normalise_aware dt_simps)
  show ?thesis
    unfolding plain
    using authenticate_found [where sha = sha and lookup = "find_for_authentication users rows'" and
        selector = selector and secret = secret, OF len t sha [of secret] found] now
    by (simp add: to_record_def new_row_def rec digest_token_secret_def exp dt_simps dt_less_def)
qed

section \<open>Limits over any history\<close>

text \<open>Tables reached by issuing, revoking and using tokens while the clock only moves forward.\<close>

inductive tokens_reachable :: "(bytes \<Rightarrow> bytes) \<Rightarrow> unicode_port \<Rightarrow> datetime \<Rightarrow> api_token_row list \<Rightarrow> bool"
  for sha uc where
  start: "tokens_reachable sha uc t []"
| later: "tokens_reachable sha uc t rows \<Longrightarrow> dt_le t t' \<Longrightarrow> tokens_reachable sha uc t' rows"
| create: "tokens_reachable sha uc t rows \<Longrightarrow>
     create_scan_token sha uc port (token_create users) command t (r :: nat) rows = Inr (issued, rows') \<Longrightarrow>
     tokens_reachable sha uc t rows'"
| revoke: "tokens_reachable sha uc t rows \<Longrightarrow> revoke_owned u token_id t rows = (b, rows') \<Longrightarrow>
     tokens_reachable sha uc t rows'"
| touch: "tokens_reachable sha uc t rows \<Longrightarrow>
     tokens_reachable sha uc t (touch_last_used token_id t interval rows)"

definition created_within :: "int \<Rightarrow> int \<Rightarrow> api_token_row \<Rightarrow> bool" where
  "created_within u t0 row \<longleftrightarrow> tr_user_id row = u \<and>
     t0 \<le> dt_instant (tr_created_at row) \<and> dt_instant (tr_created_at row) \<le> t0 + hours 1"

definition token_limits_ok :: "datetime \<Rightarrow> api_token_row list \<Rightarrow> bool" where
  "token_limits_ok now rows \<longleftrightarrow>
     (\<forall>u. count_where (token_active u now) rows \<le> 5 \<and>
          distinct (map tr_label_key (filter (token_active u now) rows)) \<and>
          (\<forall>t0. count_where (created_within u t0) rows \<le> 5))"

lemma limits_filter:
  assumes ok: "token_limits_ok t rows"
    and sub: "\<And>u. \<exists>q. filter (token_active u t') rows' = filter q (filter (token_active u t) rows)"
    and same: "\<And>u t0. count_where (created_within u t0) rows' = count_where (created_within u t0) rows"
  shows "token_limits_ok t' rows'"
  unfolding token_limits_ok_def
proof (intro allI conjI)
  fix u
  obtain q where q: "filter (token_active u t') rows' = filter q (filter (token_active u t) rows)"
    using sub by blast
  have "length (filter (token_active u t) rows) \<le> 5"
    using ok by (simp add: token_limits_ok_def count_where_def)
  then show "count_where (token_active u t') rows' \<le> 5"
    unfolding count_where_def q using length_filter_le le_trans by blast
  have "distinct (map tr_label_key (filter (token_active u t) rows))"
    using ok by (simp add: token_limits_ok_def)
  then show "distinct (map tr_label_key (filter (token_active u t') rows'))"
    unfolding q by (rule distinct_map_filter)
  show "count_where (created_within u t0) rows' \<le> 5" for t0
    using ok by (simp add: same token_limits_ok_def)
qed

lemma limits_create:
  assumes ok: "token_limits_ok t rows"
    and created: "create_scan_token sha uc port (token_create users) command t r rows = Inr (issued, rows')"
  shows "token_limits_ok t rows'"
proof -
  let ?rec = "it_record issued"
  obtain n where rec: "tr_created_at ?rec = t" "tr_user_id ?rec = ct_user_id command"
    and create: "token_create users ?rec t 5 5 rows = Inr (Token_Created, rows')"
    using create_scan_token_created [OF created] by auto
  note step = token_create_cases [OF create]
  have rows': "rows' = rows @ [new_row ?rec]" using step by auto
  have active: "count_where (token_active (tr_user_id ?rec) t) rows < 5"
    and recent: "count_where (\<lambda>row. tr_user_id row = tr_user_id ?rec \<and>
        dt_le (dt_add t (- hours 1)) (tr_created_at row)) rows < 5"
    and label: "\<not> active_label_exists ?rec t rows"
    using step by auto
  show ?thesis
    unfolding token_limits_ok_def
  proof (intro allI conjI)
    fix u
    show "count_where (token_active u t) rows' \<le> 5"
      using ok active by (auto simp: rows' row_simps token_limits_ok_def token_active_def new_row_def)
    show "distinct (map tr_label_key (filter (token_active u t) rows'))"
      using ok label
      by (auto simp: rows' token_limits_ok_def active_label_exists_def list_ex_iff token_active_def new_row_def)
    fix t0
    show "count_where (created_within u t0) rows' \<le> 5"
    proof (cases "created_within u t0 (new_row ?rec)")
      case True
      then have "created_within u t0 row \<Longrightarrow> tr_user_id row = tr_user_id ?rec \<and>
          dt_le (dt_add t (- hours 1)) (tr_created_at row)" for row
        by (auto simp: created_within_def new_row_def rec dt_le_def dt_simps)
      then have "count_where (created_within u t0) rows \<le> count_where (\<lambda>row. tr_user_id row = tr_user_id ?rec \<and>
          dt_le (dt_add t (- hours 1)) (tr_created_at row)) rows"
        by (rule count_where_mono)
      with recent show ?thesis by (simp add: rows' row_simps)
    next
      case False
      with ok show ?thesis by (simp add: rows' row_simps token_limits_ok_def)
    qed
  qed
qed

lemma count_where_frame:
  "(\<And>r. p r \<Longrightarrow> q (f r) = q r) \<Longrightarrow> count_where q (update_where p f rows) = count_where q rows"
  by (induction rows) (auto simp: count_where_def update_where_def)

lemma limits_touch:
  assumes "token_limits_ok t rows"
  shows "token_limits_ok t (touch_last_used token_id t' interval rows)"
proof -
  define p where "p = (\<lambda>row :: api_token_row. tr_token_id row = token_id \<and>
    (case map_option normalise_utc (at_last_used_at row) of
       None \<Rightarrow> True | Some used \<Rightarrow> dt_le used (dt_add t' (- interval))))"
  define f where "f = (\<lambda>row :: api_token_row. row\<lparr>at_last_used_at := Some t'\<rparr>)"
  have frame: "token_active u t (f r) = token_active u t r" "created_within u t0 (f r) = created_within u t0 r"
      "tr_label_key (f r) = tr_label_key r" for u t0 r
    by (simp_all add: f_def token_active_def created_within_def)
  have "map tr_label_key (filter (token_active u t) (update_where p f rows)) =
      map tr_label_key (filter (token_active u t) rows)" for u
    by (induction rows) (auto simp: update_where_def frame)
  then show ?thesis
    using assms unfolding touch_last_used_def p_def [symmetric] f_def [symmetric] token_limits_ok_def
    by (simp add: count_where_frame frame)
qed

lemma limits_revoke:
  assumes ok: "token_limits_ok t rows"
  shows "token_limits_ok t (snd (revoke_owned u token_id now rows))"
proof (rule limits_filter [OF ok])
  define p where "p = (\<lambda>row :: api_token_row. tr_token_id row = token_id \<and> tr_user_id row = u \<and> tr_revoked_at row = None)"
  define f where "f = (\<lambda>row :: api_token_row. row\<lparr>tr_revoked_at := Some now\<rparr>)"
  have rev: "snd (revoke_owned u token_id now rows) = update_where p f rows"
    by (simp add: revoke_owned_def p_def f_def Let_def)
  have gone: "\<not> token_active v t (f r)" for v r by (simp add: f_def token_active_def)
  have "filter (token_active v t) (update_where p f rows) = filter (\<lambda>r. \<not> p r) (filter (token_active v t) rows)" for v
    by (induction rows) (auto simp: update_where_def gone)
  then show "\<exists>q. filter (token_active v t) (snd (revoke_owned u token_id now rows)) =
      filter q (filter (token_active v t) rows)" for v
    unfolding rev by blast
  show "count_where (created_within v t0) (snd (revoke_owned u token_id now rows)) =
      count_where (created_within v t0) rows" for v t0
    unfolding rev by (rule count_where_frame) (simp add: f_def created_within_def)
qed

lemma limits_later:
  assumes "token_limits_ok t rows" "dt_le t t'"
  shows "token_limits_ok t' rows"
proof (rule limits_filter [OF assms(1)])
  have "filter (token_active u t') rows = filter (token_active u t') (filter (token_active u t) rows)" for u
    using assms(2) by (auto simp: token_active_def dt_le_def dt_less_def intro!: filter_cong)
  then show "\<exists>q. filter (token_active u t') rows = filter q (filter (token_active u t) rows)" for u
    by blast
qed simp

text \<open>
  C36.  As long as the clock does not run backwards, at every moment every user owns at most
  five active tokens, whose normalised labels are pairwise different, and at most five tokens
  were created within any one hour.
\<close>

theorem token_limits_hold:
  assumes "tokens_reachable sha uc now rows"
  shows "count_where (token_active u now) rows \<le> 5 \<and>
    distinct (map tr_label_key (filter (token_active u now) rows)) \<and>
    count_where (created_within u t0) rows \<le> 5"
proof -
  have "token_limits_ok now rows"
    using assms
  proof (induction rule: tokens_reachable.induct)
    case (start t)
    then show ?case by (simp add: token_limits_ok_def count_where_def)
  next
    case (revoke t rows u token_id b rows')
    then show ?case using limits_revoke [of t rows u token_id t] by simp
  qed (auto intro: limits_later limits_create limits_touch)
  then show ?thesis by (simp add: token_limits_ok_def)
qed

section \<open>Concrete tokens\<close>

definition sample_users :: "token_user list" where
  "sample_users = [\<lparr>tu_id = 1, tu_github_login = ''l'', tu_email = [], tu_disabled_at = None\<rparr>]"

definition sample_unicode :: unicode_port where
  "sample_unicode = \<lparr>uc_nfkc = (\<lambda>s. s), uc_casefold = (\<lambda>s. s)\<rparr>"

definition counting_port :: "nat random_port" where
  "counting_port r n = (replicate n 0, 0)"

lemma sample_create:
  "\<exists>issued rows. create_scan_token (\<lambda>b. replicate 32 1) sample_unicode counting_port (token_create sample_users)
     \<lparr>ct_user_id = 1, ct_label = ''ci'', ct_expiry_days = None\<rparr> (utc 0) 0 [] = Inr (issued, rows)"
proof -
  obtain u where u: "random_uuid counting_port 0 = Inr (u, 0)" "length u = 36"
  proof
    show "random_uuid counting_port 0 = Inr (uuid_text (stamp_uuid4 (replicate 16 0)), 0)"
      by (simp add: random_uuid_def random_bytes_checked_def counting_port_def)
    show "length (uuid_text (stamp_uuid4 (replicate 16 0))) = 36"
      by (rule canonical_uuid_length [OF canonical_uuid4_uuid [OF canonical_uuid4_stamp]]) simp
  qed
  have label: "normalize_scan_token_label sample_unicode ''ci'' = Inr (''ci'', ''ci'')"
    by (simp add: normalize_scan_token_label_def sample_unicode_def category_other_def py_strip_def py_space_def Let_def)
  have r: "random_bytes_checked counting_port 0 n = Inr (replicate n 0, 0)" for n
    by (simp add: random_bytes_checked_def counting_port_def)
  have four: "MAX_COLLISION_ATTEMPTS = Suc 3" by (simp add: MAX_COLLISION_ATTEMPTS_def)
  note attempt = create_attempts.simps(2) [where n = 3, folded four]
  show ?thesis
    using u
    by (simp add: create_scan_token_def label normalize_expiry_days_def token_aware_def dt_simps
        attempt r TOKEN_ACTIVE_LIMIT_def TOKEN_CREATION_HOURLY_LIMIT_def
        token_create_def count_where_def active_label_exists_def token_row_allowed_def new_row_def
        sample_users_def digest_token_secret_def Let_def)
qed

theorem issued_token_authenticates_witness:
  "\<exists>issued rows. create_scan_token (\<lambda>b. replicate 32 1) sample_unicode counting_port (token_create sample_users)
       \<lparr>ct_user_id = 1, ct_label = ''ci'', ct_expiry_days = None\<rparr> (utc 0) 0 [] = Inr (issued, rows) \<and>
     (\<exists>p. authenticate_scan_token (\<lambda>b. replicate 32 1) (find_for_authentication sample_users rows)
       (it_plaintext_token issued) (utc 5) TOKEN_SCOPE =
         Inr \<lparr>tx_decision = Token_Authenticated, tx_principal = Some p\<rparr>)"
proof -
  obtain issued rows where c: "create_scan_token (\<lambda>b. replicate 32 1) sample_unicode counting_port
      (token_create sample_users) \<lparr>ct_user_id = 1, ct_label = ''ci'', ct_expiry_days = None\<rparr> (utc 0) 0 [] =
      Inr (issued, rows)"
    using sample_create by blast
  have t: "aware (utc 5)" by (simp add: dt_simps)
  have n: "normalize_expiry_days (ct_expiry_days \<lparr>ct_user_id = 1, ct_label = ''ci'', ct_expiry_days = None\<rparr>) = Inr 90"
    by (simp add: normalize_expiry_days_def token_constants)
  from issued_token_authenticates [OF c _ _ _ t n, of "hd sample_users"] c show ?thesis
    by (fastforce simp: sample_users_def dt_simps timedelta_defs)
qed

theorem token_limits_hold_witness:
  "\<exists>rows. rows \<noteq> [] \<and> tokens_reachable (\<lambda>b. replicate 32 1) sample_unicode (utc 0) rows \<and>
     count_where (token_active 1 (utc 0)) rows \<le> 5"
proof -
  obtain issued rows where c: "create_scan_token (\<lambda>b. replicate 32 1) sample_unicode counting_port
      (token_create sample_users) \<lparr>ct_user_id = 1, ct_label = ''ci'', ct_expiry_days = None\<rparr> (utc 0) 0 [] =
      Inr (issued, rows)"
    using sample_create by blast
  have reach: "tokens_reachable (\<lambda>b. replicate 32 1) sample_unicode (utc 0) rows"
    by (rule tokens_reachable.create [OF tokens_reachable.start c])
  have "rows \<noteq> []"
    using create_scan_token_created [OF c] token_create_cases by fastforce
  with reach token_limits_hold [OF reach] show ?thesis by blast
qed

end
