(* ===== verification/Token_Cipher.thy ===== *)
theory Token_Cipher
  imports Py_Text
begin

text \<open>
  Symmetric encryption of the tokens kept at rest (\<^verbatim>\<open>secrets.py\<close>): a stream cipher
  whose keystream is SHA-256 in counter mode, with an HMAC tag over nonce and ciphertext.  The
  hash \<open>sha\<close> and the keyed hash \<open>hmac\<close> are parameters.
\<close>

section \<open>The cipher\<close>

definition be8 :: "nat \<Rightarrow> bytes" where
  "be8 n = map (\<lambda>i. word_of_nat (n div 256 ^ i)) [7, 6, 5, 4, 3, 2, 1, 0]"

text \<open>
  The keystream loop; \<^const>\<open>None\<close> means that the fuel ran out.  A digest has at least one
  byte, so as many rounds as requested bytes are enough (\<open>keystream_returns\<close>).
\<close>

fun keystream_loop ::
    "(bytes \<Rightarrow> bytes) \<Rightarrow> bytes \<Rightarrow> bytes \<Rightarrow> nat \<Rightarrow> nat \<Rightarrow> nat \<Rightarrow> bytes \<Rightarrow> bytes option" where
  "keystream_loop sha key nonce n fuel counter out =
     (if n \<le> length out then Some (take n out)
      else case fuel of
        0 \<Rightarrow> None
      | Suc fuel' \<Rightarrow>
          keystream_loop sha key nonce n fuel' (Suc counter)
            (out @ sha (key @ nonce @ be8 counter)))"

declare keystream_loop.simps [simp del]

definition keystream :: "(bytes \<Rightarrow> bytes) \<Rightarrow> bytes \<Rightarrow> bytes \<Rightarrow> nat \<Rightarrow> bytes option" where
  "keystream sha key nonce n = keystream_loop sha key nonce n n 0 []"

definition xor_bytes :: "bytes \<Rightarrow> bytes \<Rightarrow> bytes" where
  "xor_bytes a b = map (\<lambda>(x, y). x XOR y) (zip a b)"

definition encrypt ::
    "(bytes \<Rightarrow> bytes) \<Rightarrow> (bytes \<Rightarrow> bytes \<Rightarrow> bytes) \<Rightarrow> bytes \<Rightarrow> codes \<Rightarrow> codes \<Rightarrow> string option" where
  "encrypt sha hmac nonce secret key =
     (case (utf8_encode (codes_of ''enc:'' @ key), utf8_encode (codes_of ''mac:'' @ key),
            utf8_encode secret) of
        (Some ek, Some mk, Some plaintext) \<Rightarrow>
          (let enc_key = sha ek; mac_key = sha mk in
           case keystream sha enc_key nonce (length plaintext) of
             None \<Rightarrow> None
           | Some stream \<Rightarrow>
               (let cipher = xor_bytes plaintext stream;
                    tag = hmac mac_key (nonce @ cipher)
                in Some (urlsafe_b64encode nonce @ ''.'' @ urlsafe_b64encode cipher @ ''.'' @
                         urlsafe_b64encode tag)))
      | _ \<Rightarrow> None)"

definition decrypt ::
    "(bytes \<Rightarrow> bytes) \<Rightarrow> (bytes \<Rightarrow> bytes \<Rightarrow> bytes) \<Rightarrow> string \<Rightarrow> codes \<Rightarrow> codes option" where
  "decrypt sha hmac v key =
     (case split_on (CHR ''.'') v of
        [nonce_b, cipher_b, tag_b] \<Rightarrow>
          (case (urlsafe_b64decode nonce_b, urlsafe_b64decode cipher_b, urlsafe_b64decode tag_b,
                 utf8_encode (codes_of ''enc:'' @ key), utf8_encode (codes_of ''mac:'' @ key)) of
             (Some nonce, Some cipher, Some tag, Some ek, Some mk) \<Rightarrow>
               (let enc_key = sha ek; mac_key = sha mk; expected = hmac mac_key (nonce @ cipher) in
                if tag \<noteq> expected then None
                else case keystream sha enc_key nonce (length cipher) of
                  None \<Rightarrow> None
                | Some stream \<Rightarrow> utf8_decode (xor_bytes cipher stream))
           | _ \<Rightarrow> None)
      | _ \<Rightarrow> None)"

lemma keystream_loop_returns:
  assumes "\<And>m. sha m \<noteq> []"
  shows "n \<le> length out + fuel \<Longrightarrow>
    \<exists>ks. keystream_loop sha key nonce n fuel counter out = Some ks \<and> length ks = n"
proof (induction fuel arbitrary: counter out)
  case 0
  then show ?case by (simp add: keystream_loop.simps)
next
  case (Suc fuel)
  have "1 \<le> length (sha (key @ nonce @ be8 counter))"
    using assms by (simp add: Suc_le_eq)
  then have "n \<le> length (out @ sha (key @ nonce @ be8 counter)) + fuel"
    using Suc.prems by simp
  from Suc.IH [OF this] show ?case
    by (subst keystream_loop.simps) simp
qed

lemma keystream_returns:
  "(\<And>m. sha m \<noteq> []) \<Longrightarrow> \<exists>ks. keystream sha key nonce n = Some ks \<and> length ks = n"
  unfolding keystream_def by (rule keystream_loop_returns) simp_all

lemma xor_bytes_twice: "length a \<le> length b \<Longrightarrow> xor_bytes (xor_bytes a b) b = a"
proof (induction a b rule: list_induct2')
  case (4 x xs y ys)
  then show ?case by (simp add: xor_bytes_def xor.assoc)
qed (simp_all add: xor_bytes_def)

lemma length_xor_bytes: "length a = length b \<Longrightarrow> length (xor_bytes a b) = length a"
  by (simp add: xor_bytes_def)

lemma decrypt_encrypt_sealed:
  assumes "\<And>m. length (sha m) = 32" "list_all scalar_value secret" "list_all scalar_value key"
  shows "\<exists>v. encrypt sha hmac nonce secret key = Some v \<and> decrypt sha hmac v key = Some secret"
proof -
  have ne: "sha m \<noteq> []" for m using assms(1) [of m] by auto
  have prefix: "list_all scalar_value (codes_of ''enc:'')" "list_all scalar_value (codes_of ''mac:'')"
    by (simp_all add: codes_of_def scalar_value_def)
  obtain ek where ek: "utf8_encode (codes_of ''enc:'' @ key) = Some ek"
    using assms(3) prefix by (simp add: utf8_encode_def)
  obtain mk where mk: "utf8_encode (codes_of ''mac:'' @ key) = Some mk"
    using assms(3) prefix by (simp add: utf8_encode_def)
  obtain p where p: "utf8_encode secret = Some p" using assms(2) by (simp add: utf8_encode_def)
  obtain ks where ks: "keystream sha (sha ek) nonce (length p) = Some ks" "length ks = length p"
    using keystream_returns [of sha "sha ek" nonce "length p"] ne by blast
  have len: "length (xor_bytes p ks) = length p" using ks(2) by (simp add: length_xor_bytes)
  have twice: "xor_bytes (xor_bytes p ks) ks = p" using ks(2) by (simp add: xor_bytes_twice)
  define v where "v = urlsafe_b64encode nonce @ ''.'' @ urlsafe_b64encode (xor_bytes p ks) @ ''.'' @
    urlsafe_b64encode (hmac (sha mk) (nonce @ xor_bytes p ks))"
  have "encrypt sha hmac nonce secret key = Some v"
    by (simp add: encrypt_def ek mk p ks v_def Let_def)
  moreover have "split_on (CHR ''.'') v = [urlsafe_b64encode nonce,
      urlsafe_b64encode (xor_bytes p ks), urlsafe_b64encode (hmac (sha mk) (nonce @ xor_bytes p ks))]"
    by (simp add: v_def split_on_append split_on_part b64_part)
  then have "decrypt sha hmac v key = Some secret"
    by (simp add: decrypt_def urlsafe_roundtrip ek mk ks len twice utf8_roundtrip [OF p])
  ultimately show ?thesis by blast
qed

text \<open>
  Encryption never fails on encodable text and always terminates, and decryption with the
  same key gives the secret back, whatever the nonce.
\<close>

theorem decrypt_encrypt:
  assumes "\<And>m. length (sha m) = 32" "list_all scalar_value secret" "list_all scalar_value key"
  shows "\<exists>v. encrypt sha hmac nonce secret key = Some v \<and> decrypt sha hmac v key = Some secret"
  by (rule decrypt_encrypt_sealed [OF assms])

theorem decrypt_encrypt_witness:
  "\<exists>v. encrypt (\<lambda>m. replicate 32 7) (\<lambda>k m. [1]) [] (codes_of ''token'') (codes_of ''k'') = Some v \<and>
     decrypt (\<lambda>m. replicate 32 7) (\<lambda>k m. [1]) v (codes_of ''k'') = Some (codes_of ''token'')"
  by (rule decrypt_encrypt) (simp_all add: codes_of_def scalar_value_def)

end
