(* ===== verification/Membership_Refresh.thy ===== *)
theory Membership_Refresh
  imports Github_Actions_Auth Token_Cipher
begin

text \<open>
  The refresh of a user's project memberships from GitHub (\<^verbatim>\<open>workflows/github_app_access\<close>
  over \<^verbatim>\<open>repositories/github_memberships.py\<close> and \<^verbatim>\<open>infrastructure/github_user_credentials.py\<close>,
  composed by \<^verbatim>\<open>infrastructure/project_access.py\<close>): the encrypted user token is read and, near its
  expiry, rotated; unless the last refresh is less than five minutes old, the repositories the user can
  reach are fetched and replace the user's grants.  What GitHub answers, the hashes and the random
  nonces are parameters.
\<close>

section \<open>Tables\<close>

record access_user =
  au_id :: int
  au_synced_at :: "datetime option"

record credential_row =
  gc_user_id :: int
  gc_github_user_id :: int
  gc_login :: "codes option"
  gc_user_token :: "string option"
  gc_refresh_token :: "string option"
  gc_key_id :: "string option"
  gc_token_expires_at :: "datetime option"
  gc_verified_at :: "datetime option"
  gc_disconnected_at :: "datetime option"

record grant_row = membership_row +
  gr_verified_at :: datetime

record access_db =
  ac_users :: "access_user list"
  ac_accounts :: "credential_row list"
  ac_grants :: "grant_row list"
  ac_scopes :: "scope_row list"
  ac_installations :: "app_installation_row list"
  ac_projects :: "project_row list"

datatype access_exn =
    Access_value string
  | Access_runtime string
  | Access_projection projection_error
  | Access_multiple_rows
  | Access_integrity
  | Access_encoding
  | Access_github

type_synonym 'a access_op = "(access_db session, access_exn, 'a) op"

text \<open>What GitHub answers: the repositories of a token, and the rotation of a refresh token.\<close>

record user_authorization =
  hz_github_user_id :: int
  hz_login :: codes
  hz_access_token :: codes
  hz_refresh_token :: codes
  hz_expires_in :: int

datatype rotation = Rotated user_authorization | Rotation_refused | Rotation_raised

record access_env =
  ax_enabled :: bool
  ax_key :: codes
  ax_hash :: "bytes \<Rightarrow> bytes"
  ax_hmac :: "bytes \<Rightarrow> bytes \<Rightarrow> bytes"
  ax_nonces :: "bytes \<times> bytes"
  ax_now :: datetime
  ax_rotate :: "codes \<Rightarrow> rotation"
  ax_fetch :: "codes \<Rightarrow> entitlement list option"

definition open_token :: "access_env \<Rightarrow> string \<Rightarrow> codes option" where
  "open_token env v = decrypt (ax_hash env) (ax_hmac env) v (ax_key env)"

text \<open>A token or \<open>None\<close>: the empty text counts as no token.\<close>

definition some_text :: "codes option \<Rightarrow> codes option" where
  "some_text t = (case t of Some s \<Rightarrow> if s = [] then None else Some s | None \<Rightarrow> None)"

definition one_row :: "'a list \<Rightarrow> access_exn + 'a option" where
  "one_row rows = (case rows of [] \<Rightarrow> Inr None | [r] \<Rightarrow> Inr (Some r) | _ \<Rightarrow> Inl Access_multiple_rows)"

definition connected_account :: "int \<Rightarrow> access_db \<Rightarrow> access_exn + credential_row option" where
  "connected_account user d =
     one_row (filter (\<lambda>a. gc_user_id a = user \<and> gc_disconnected_at a = None) (ac_accounts d))"

definition read_with :: "(access_db \<Rightarrow> access_exn + 'a) \<Rightarrow> 'a access_op" where
  "read_with f = statement (\<lambda>d. case f d of Inl e \<Rightarrow> Inl e | Inr a \<Rightarrow> Inr (a, d))"

section \<open>User credentials\<close>

definition REFRESH_MARGIN :: timedelta where "REFRESH_MARGIN = minutes 2"

definition rotated_row :: "access_env \<Rightarrow> user_authorization \<Rightarrow> string \<Rightarrow> string \<Rightarrow> credential_row \<Rightarrow> credential_row" where
  "rotated_row env auth user_token refresh_token a =
     a\<lparr>gc_login := Some (hz_login auth), gc_user_token := Some user_token,
       gc_refresh_token := Some refresh_token, gc_key_id := Some ''primary'',
       gc_token_expires_at := Some (dt_add (ax_now env) (seconds (hz_expires_in auth))),
       gc_verified_at := Some (ax_now env)\<rparr>"

text \<open>
  The rotated credentials are stored under a lock of the user; the row is the one that was read.
\<close>

definition store_rotation :: "access_env \<Rightarrow> credential_row \<Rightarrow> user_authorization \<Rightarrow> codes option access_op" where
  "store_rotation env account auth =
     (case (encrypt (ax_hash env) (ax_hmac env) (fst (ax_nonces env)) (hz_access_token auth) (ax_key env),
            encrypt (ax_hash env) (ax_hmac env) (snd (ax_nonces env)) (hz_refresh_token auth) (ax_key env)) of
        (Some user_token, Some refresh_token) \<Rightarrow>
          and_then (statement (\<lambda>d. Inr ((), d\<lparr>ac_accounts :=
              update_where (\<lambda>a. gc_user_id a = gc_user_id account)
                (rotated_row env auth user_token refresh_token) (ac_accounts d)\<rparr>))) (\<lambda>_.
          and_then commit (\<lambda>_. return_op (Some (hz_access_token auth))))
      | _ \<Rightarrow> raise_op Access_encoding)"

definition rotate_credentials :: "access_env \<Rightarrow> credential_row \<Rightarrow> codes option access_op" where
  "rotate_credentials env account =
     (case some_text (open_token env (case gc_refresh_token account of None \<Rightarrow> [] | Some t \<Rightarrow> t)) of
        None \<Rightarrow> return_op None
      | Some refresh_token \<Rightarrow>
          (case ax_rotate env refresh_token of
             Rotation_refused \<Rightarrow> return_op None
           | Rotation_raised \<Rightarrow> raise_op Access_github
           | Rotated auth \<Rightarrow>
               if hz_github_user_id auth \<noteq> gc_github_user_id account then return_op None
               else store_rotation env account auth))"

definition usable_github_access_token :: "access_env \<Rightarrow> int \<Rightarrow> codes option access_op" where
  "usable_github_access_token env user =
     and_then (read_with (connected_account user)) (\<lambda>found.
       case found of
         None \<Rightarrow> return_op None
       | Some account \<Rightarrow>
           (case gc_user_token account of
              None \<Rightarrow> return_op None
            | Some stored \<Rightarrow>
                (case (some_text (open_token env stored), map_option normalise_utc (gc_token_expires_at account)) of
                   (Some token, Some expires_at) \<Rightarrow>
                     if dt_less (dt_add (ax_now env) REFRESH_MARGIN) expires_at then return_op (Some token)
                     else rotate_credentials env account
                 | _ \<Rightarrow> rotate_credentials env account)))"

section \<open>The repository of memberships\<close>

definition find_user :: "int \<Rightarrow> access_db \<Rightarrow> access_user option" where
  "find_user user d = find (\<lambda>u. au_id u = user) (ac_users d)"

definition is_fresh :: "access_env \<Rightarrow> int \<Rightarrow> access_db \<Rightarrow> bool" where
  "is_fresh env user d =
     (case find_user user d of
        None \<Rightarrow> False
      | Some u \<Rightarrow>
          (case au_synced_at u of
             None \<Rightarrow> False
           | Some synced \<Rightarrow> dt_instant (ax_now env) - dt_instant (normalise_utc synced) < minutes 5))"

definition membership_token :: "access_env \<Rightarrow> int \<Rightarrow> access_db \<Rightarrow> access_exn + codes option" where
  "membership_token env user d =
     (if ax_key env = [] then Inr None
      else result_then (connected_account user d) (\<lambda>found. Inr (
        case found of
          None \<Rightarrow> None
        | Some account \<Rightarrow>
            (case gc_user_token account of
               None \<Rightarrow> None
             | Some stored \<Rightarrow>
                 (case map_option normalise_utc (gc_token_expires_at account) of
                    Some expires_at \<Rightarrow>
                      if dt_le expires_at (ax_now env) then None else some_text (open_token env stored)
                  | None \<Rightarrow> some_text (open_token env stored))))))"

definition scope_project :: "access_db \<Rightarrow> (int \<times> int) list \<Rightarrow> scope_row \<Rightarrow> app_installation_row \<Rightarrow> project_row \<Rightarrow> bool" where
  "scope_project d identities s i p \<longleftrightarrow>
     il_installation_id i = sp_installation_id s \<and> sp_project_id s = Some (pj_id p) \<and>
     (sp_installation_id s, sp_repository_id s) \<in> set identities \<and> sp_removed_at s = None \<and>
     \<not> sp_disabled s \<and> \<not> sp_archived s \<and> il_suspended_at i = None \<and> il_deleted_at i = None \<and> \<not> pj_hidden p"

definition project_rows :: "(int \<times> int) list \<Rightarrow> access_db \<Rightarrow> ((int \<times> int) \<times> int) list" where
  "project_rows identities d =
     map (\<lambda>(s, i, p). ((sp_installation_id s, sp_repository_id s), pj_id p))
       (filter (\<lambda>(s, i, p). scope_project d identities s i p)
          (List.product (ac_scopes d) (List.product (ac_installations d) (ac_projects d))))"

definition project_ids :: "entitlement list \<Rightarrow> access_db \<Rightarrow> int \<times> int \<rightharpoonup> int" where
  "project_ids es d =
     map_of (rev (project_rows (map (\<lambda>e. (ent_installation e, ent_repository e)) es) d))"

definition grant_of :: "int \<Rightarrow> membership \<Rightarrow> grant_row" where
  "grant_of user row =
     \<lparr>mr_user_id = user, mr_project_id = mb_project row, mr_permission = mb_permission row,
      mr_source = ''github_app'', mr_expires_at = Some (mb_expires_at row), gr_verified_at = mb_verified_at row\<rparr>"

definition app_grant :: "int \<Rightarrow> grant_row \<Rightarrow> bool" where
  "app_grant user g \<longleftrightarrow> mr_user_id g = user \<and> mr_source g = ''github_app''"

text \<open>The new grants need their user and projects, by the foreign keys.\<close>

definition parents_present :: "int \<Rightarrow> membership list \<Rightarrow> access_db \<Rightarrow> bool" where
  "parents_present user rows d \<longleftrightarrow>
     rows = [] \<or> user \<in> au_id ` set (ac_users d) \<and> mb_project ` set rows \<subseteq> pj_id ` set (ac_projects d)"

definition replace_grants :: "int \<Rightarrow> membership list \<Rightarrow> access_db \<Rightarrow> access_exn + unit \<times> access_db" where
  "replace_grants user rows d =
     (if \<not> parents_present user rows d then Inl Access_integrity
      else Inr ((), d\<lparr>ac_grants := delete_where (app_grant user) (ac_grants d) @ map (grant_of user) rows\<rparr>))"

definition set_synced :: "int \<Rightarrow> datetime option \<Rightarrow> access_db \<Rightarrow> access_db" where
  "set_synced user t d =
     d\<lparr>ac_users := update_where (\<lambda>u. au_id u = user) (\<lambda>u. u\<lparr>au_synced_at := t\<rparr>) (ac_users d)\<rparr>"

definition replace_for_user :: "int \<Rightarrow> membership list \<Rightarrow> datetime option \<Rightarrow> unit access_op" where
  "replace_for_user user rows refreshed_at =
     and_then (or_raise Access_projection (validate_membership_projection rows)) (\<lambda>projections.
     and_then rollback (\<lambda>_.
     and_then (statement (replace_grants user projections)) (\<lambda>_.
     case refreshed_at of
       None \<Rightarrow> commit
     | Some t \<Rightarrow>
         and_then (read_with (\<lambda>d. Inr (find_user user d))) (\<lambda>found.
           if found = None
           then and_then rollback (\<lambda>_. raise_op (Access_value ''user does not exist''))
           else and_then (statement (\<lambda>d. Inr ((), set_synced user (Some t) d))) (\<lambda>_. commit)))))"

definition cut_off :: "datetime \<Rightarrow> grant_row \<Rightarrow> bool" where
  "cut_off t g \<longleftrightarrow> (case mr_expires_at g of None \<Rightarrow> False | Some e \<Rightarrow> dt_less t e)"

definition expire_for_user :: "int \<Rightarrow> datetime \<Rightarrow> unit access_op" where
  "expire_for_user user expired_at =
     and_then rollback (\<lambda>_.
     and_then (statement (\<lambda>d. Inr ((), d\<lparr>ac_grants :=
         update_where (\<lambda>g. app_grant user g \<and> cut_off expired_at g)
           (\<lambda>g. g\<lparr>mr_expires_at := Some expired_at\<rparr>) (ac_grants d)\<rparr>))) (\<lambda>_.
     and_then (statement (\<lambda>d. Inr ((), set_synced user None d))) (\<lambda>_. commit)))"

section \<open>The workflow\<close>

definition ENTITLEMENT_TTL :: timedelta where "ENTITLEMENT_TTL = minutes 5"

definition expire_and_refuse :: "access_env \<Rightarrow> int \<Rightarrow> bool access_op" where
  "expire_and_refuse env user = and_then (expire_for_user user (ax_now env)) (\<lambda>_. return_op False)"

definition refresh_github_app_memberships :: "access_env \<Rightarrow> int \<Rightarrow> bool \<Rightarrow> bool access_op" where
  "refresh_github_app_memberships env user force =
     (if user \<le> 0 then raise_op (Access_value ''user id must be positive'')
      else if \<not> aware (ax_now env)
      then raise_op (Access_runtime ''entitlement refresh timestamp must be timezone-aware'')
      else
        and_then (if force then return_op False else read_with (\<lambda>d. Inr (is_fresh env user d))) (\<lambda>fresh.
        if fresh then return_op True
        else
          and_then (read_with (membership_token env user)) (\<lambda>found.
          case found of
            None \<Rightarrow> expire_and_refuse env user
          | Some token \<Rightarrow>
              (case ax_fetch env token of
                 None \<Rightarrow> expire_and_refuse env user
               | Some entitlements \<Rightarrow>
                   and_then (read_with (\<lambda>d. Inr (project_ids entitlements d))) (\<lambda>ids.
                   and_then (or_raise Access_projection (project_membership_projections entitlements ids (ax_now env)
                       (dt_add (ax_now env) ENTITLEMENT_TTL))) (\<lambda>projections.
                   and_then (replace_for_user user projections (Some (ax_now env))) (\<lambda>_.
                   return_op True)))))))"

definition sync_github_app_memberships :: "access_env \<Rightarrow> int \<Rightarrow> bool \<Rightarrow> bool access_op" where
  "sync_github_app_memberships env user force =
     (if \<not> ax_enabled env then return_op False
      else
        and_then (usable_github_access_token env user) (\<lambda>token.
          if token = None then return_op False else refresh_github_app_memberships env user force))"

section \<open>Refusing closes, refreshing replaces\<close>

text \<open>What one commit did to the grants: cut those of the user off, or replaced them.\<close>

definition others_kept :: "int \<Rightarrow> access_db \<times> access_db \<Rightarrow> bool" where
  "others_kept user e \<longleftrightarrow>
     filter (\<lambda>g. \<not> app_grant user g) (ac_grants (snd e)) = filter (\<lambda>g. \<not> app_grant user g) (ac_grants (fst e))"

definition cut_entry :: "int \<Rightarrow> datetime \<Rightarrow> access_db \<times> access_db \<Rightarrow> bool" where
  "cut_entry user t e \<longleftrightarrow>
     filter (\<lambda>g. app_grant user g \<and> cut_off t g) (ac_grants (snd e)) = [] \<and> others_kept user e"

definition replaced_entry :: "access_env \<Rightarrow> int \<Rightarrow> access_db \<times> access_db \<Rightarrow> bool" where
  "replaced_entry env user e \<longleftrightarrow>
     (\<exists>token entitlements ids rows. ax_fetch env token = Some entitlements \<and>
        project_membership_projections entitlements ids (ax_now env) (dt_add (ax_now env) (minutes 5)) = Inr rows \<and>
        filter (app_grant user) (ac_grants (snd e)) = map (grant_of user) rows) \<and>
     others_kept user e"

lemma replaced_entryI:
  "others_kept user (a, b) \<Longrightarrow> ax_fetch env token = Some entitlements \<Longrightarrow>
   project_membership_projections entitlements ids (ax_now env) (dt_add (ax_now env) (minutes 5)) = Inr rows \<Longrightarrow>
   filter (app_grant user) (ac_grants b) = map (grant_of user) rows \<Longrightarrow> replaced_entry env user (a, b)"
  by (auto simp: replaced_entry_def)

definition refresh_outcome :: "access_env \<Rightarrow> int \<Rightarrow> bool \<Rightarrow> access_db \<Rightarrow> access_exn raised + bool \<Rightarrow> access_db session \<Rightarrow> bool" where
  "refresh_outcome env user force d r s \<longleftrightarrow>
     (case r of
        Inl _ \<Rightarrow> se_log s = []
      | Inr False \<Rightarrow> (\<exists>e. se_log s = [e] \<and> cut_entry user (ax_now env) e)
      | Inr True \<Rightarrow> \<not> force \<and> is_fresh env user d \<and> se_log s = [] \<or> (\<exists>e. se_log s = [e] \<and> replaced_entry env user e))"

definition unlogged :: "access_db session \<Rightarrow> bool" where
  "unlogged s \<longleftrightarrow> se_log s = []"

text \<open>Nothing is committed, and the copy relates to the saved database as \<open>R\<close> says.\<close>

definition pending :: "(access_db \<times> access_db \<Rightarrow> bool) \<Rightarrow> access_db session \<Rightarrow> bool" where
  "pending R s \<longleftrightarrow> se_log s = [] \<and> R (se_saved s, se_work s)"

lemma fault_free_pending: "fault_free (pending R)" "fault_free unlogged"
  by (simp_all add: fault_free_def pending_def unlogged_def)

lemma pending_unlogged: "pending R s \<Longrightarrow> unlogged s"
  by (simp add: pending_def unlogged_def)

lemma read_with_unlogged: "triple unlogged (read_with f) (\<lambda>_. unlogged) unlogged"
  unfolding read_with_def
  by (rule triple_statement [OF fault_free_pending(2)]) (auto simp: unlogged_def split: sum.splits)

lemma read_with_pending: "triple (pending R) (read_with f) (\<lambda>_. pending R) unlogged"
  unfolding read_with_def
  by (rule triple_statement [OF fault_free_pending(1)]) (auto simp: pending_def unlogged_def split: sum.splits)

lemma change_pending:
  assumes "\<And>d d' a e. R (d, d') \<Longrightarrow> f d' = Inr (a, e) \<Longrightarrow> R' (d, e)"
  shows "triple (pending R) (statement f) (\<lambda>_. pending R') unlogged"
  by (rule triple_statement [OF fault_free_pending(1)]) (use assms in \<open>auto simp: pending_def unlogged_def\<close>)

lemma commit_pending:
  "triple (pending R) commit (\<lambda>_ s. \<exists>e. se_log s = [e] \<and> R e) unlogged"
  by (rule triple_commit [OF fault_free_pending(1)]) (auto simp: pending_def unlogged_def)

lemma rollback_pending: "triple unlogged rollback (\<lambda>_. pending (\<lambda>(d, d'). d' = d)) unlogged"
proof -
  have "triple unlogged rollback (\<lambda>_. pending (\<lambda>(d, d'). d' = d)) (pending (\<lambda>(d, d'). d' = d))"
    by (rule triple_rollback [OF fault_free_pending(1)])
      (auto simp: pending_def unlogged_def next_transaction_def split: list.splits)
  then show ?thesis by (rule triple_weaken) (auto intro: pending_unlogged)
qed

lemma filter_update_where:
  "(\<And>g. P g \<Longrightarrow> \<not> Q g \<and> \<not> Q (f g)) \<Longrightarrow> filter Q (update_where P f gs) = filter Q gs"
  by (induction gs) (auto simp: update_where_def)

lemma app_grant_expiry: "app_grant user (g\<lparr>mr_expires_at := x\<rparr>) = app_grant user g"
  by (simp add: app_grant_def)

lemma cut_rows:
  "filter (\<lambda>g. app_grant user g \<and> cut_off t g)
     (update_where (\<lambda>g. app_grant user g \<and> cut_off t g) (\<lambda>g. g\<lparr>mr_expires_at := Some t\<rparr>) gs) = []"
  by (auto simp: update_where_def cut_off_def dt_less_def filter_empty_conv)

lemma cut_others:
  "filter (\<lambda>g. \<not> app_grant user g)
     (update_where (\<lambda>g. app_grant user g \<and> cut_off t g) (\<lambda>g. g\<lparr>mr_expires_at := Some t\<rparr>) gs)
   = filter (\<lambda>g. \<not> app_grant user g) gs"
  by (rule filter_update_where) (simp add: app_grant_expiry)

lemma expire_cuts:
  "triple unlogged (expire_for_user user t) (\<lambda>_ s. \<exists>e. se_log s = [e] \<and> cut_entry user t e) unlogged"
proof -
  have cut: "triple (pending (\<lambda>(d, d'). d' = d)) (statement (\<lambda>d. Inr ((), d\<lparr>ac_grants :=
      update_where (\<lambda>g. app_grant user g \<and> cut_off t g) (\<lambda>g. g\<lparr>mr_expires_at := Some t\<rparr>) (ac_grants d)\<rparr>)))
      (\<lambda>_. pending (cut_entry user t)) unlogged"
    by (rule change_pending) (auto simp: cut_entry_def cut_rows others_kept_def cut_others)
  have unsynced: "triple (pending (cut_entry user t)) (statement (\<lambda>d. Inr ((), set_synced user None d)))
      (\<lambda>_. pending (cut_entry user t)) unlogged"
    by (rule change_pending) (auto simp: cut_entry_def others_kept_def set_synced_def)
  show ?thesis
    unfolding expire_for_user_def
    by (intro triple_and_then [OF rollback_pending] triple_and_then [OF cut]
        triple_and_then [OF unsynced commit_pending])
qed

lemma grants_of_user: "filter (app_grant user) (map (grant_of user) rows) = map (grant_of user) rows"
    "filter (\<lambda>g. \<not> app_grant user g) (map (grant_of user) rows) = []"
  by (induction rows) (simp_all add: app_grant_def grant_of_def)

lemma replace_replaces:
  "triple unlogged (replace_for_user user rows (Some t))
     (\<lambda>_ s. \<exists>e. se_log s = [e] \<and> others_kept user e \<and>
        filter (app_grant user) (ac_grants (snd e)) = map (grant_of user) rows) unlogged"
proof (unfold replace_for_user_def, rule triple_or_raise)
  fix projections
  assume "validate_membership_projection rows = Inr projections"
  then have rows: "projections = rows" by (auto simp: validate_membership_projection_def split: option.splits)
  let ?R = "\<lambda>e. others_kept user e \<and> filter (app_grant user) (ac_grants (snd e)) = map (grant_of user) rows"
  have replace: "triple (pending (\<lambda>(d, d'). d' = d)) (statement (replace_grants user projections))
      (\<lambda>_. pending ?R) unlogged"
    by (rule change_pending)
      (auto simp: replace_grants_def rows others_kept_def grants_of_user delete_where_def filter_empty_conv
        split: if_splits)
  have none: "triple (pending ?R) (and_then rollback (\<lambda>_. raise_op e)) (\<lambda>_. Q) unlogged" for e Q
    by (rule triple_and_then [OF triple_weaken [OF rollback_pending] triple_raise])
      (auto intro: pending_unlogged)
  have synced: "triple (pending ?R) (statement (\<lambda>d. Inr ((), set_synced user (Some t) d))) (\<lambda>_. pending ?R) unlogged"
    by (rule change_pending) (auto simp: others_kept_def set_synced_def)
  show "triple unlogged
      (and_then rollback (\<lambda>_. and_then (statement (replace_grants user projections)) (\<lambda>_.
       case Some t of None \<Rightarrow> commit
       | Some t \<Rightarrow> and_then (read_with (\<lambda>d. Inr (find_user user d))) (\<lambda>found.
           if found = None then and_then rollback (\<lambda>_. raise_op (Access_value ''user does not exist''))
           else and_then (statement (\<lambda>d. Inr ((), set_synced user (Some t) d))) (\<lambda>_. commit)))))
      (\<lambda>_ s. \<exists>e. se_log s = [e] \<and> ?R e) unlogged"
    unfolding option.case
    by (intro triple_and_then [OF rollback_pending] triple_and_then [OF replace]
        triple_and_then [OF read_with_pending] triple_if none triple_and_then [OF synced commit_pending])
qed simp


end
