(* ===== verification/Local_Route.thy ===== *)
theory Local_Route
  imports Local_Upload Local_Ingest Token_Store Failure_Limiter Membership_Refresh Github_Route
begin

text \<open>
  The routes of local uploads (\<^verbatim>\<open>api/routes/local_ingest.py\<close> with
  \<^verbatim>\<open>api/deps_scan_token.py\<close> and \<^verbatim>\<open>api/problem_details.py\<close>): the scan token is
  authenticated behind the failure limiter, the owner's memberships are refreshed from GitHub, the
  upload is read and validated, the workflow persists it, and every failure becomes a problem
  document.  The request's database session is represented by the table of tokens and by one session
  each for the memberships and for the ingestion: each has ended its last transaction when the next
  begins.
\<close>

section \<open>The environment\<close>

record 'p local_route_env =
  ln_enabled :: bool
  ln_identity_ready :: bool
  ln_public_base_url :: string
  ln_request_base_url :: string
  ln_limits :: upload_limits
  ln_allowlist :: "string list"
  ln_now :: datetime
  ln_monotonic :: real
  ln_elapsed_ms :: int
  ln_correlation_id :: string
  ln_recursion :: nat
  ln_sha :: "bytes \<Rightarrow> bytes"
  ln_netloc_ok :: "string \<Rightarrow> bool"
  ln_parser :: "'p body_parser"
  ln_options :: option_reader
  ln_schema :: "string \<Rightarrow> members \<Rightarrow> bool"
  ln_float_text :: "codes \<Rightarrow> codes"
  ln_word :: "nat \<Rightarrow> bool"
  ln_str :: "json \<Rightarrow> codes"
  ln_isoformat :: "datetime \<Rightarrow> string"
  ln_access :: access_env
  ln_local :: local_env

record local_request =
  lq_path :: string
  lq_client_host :: "string option"
  lq_authorization :: "string option"
  lq_idempotency_key :: "string option"
  lq_upload :: upload_request

record local_state =
  ls_users :: "token_user list"
  ls_tokens :: "api_token_row list"
  ls_limiter :: "limiter option"
  ls_access :: "access_db session"
  ls_ingest :: "ingest_db session"

datatype local_exn =
    Route_problem_local local_issue
  | Route_http int "(string \<times> string) list"
  | Route_workflow ingest_problem
  | Route_raised

type_synonym 'a local_op = "(local_state, local_exn, 'a) op"

definition as_problem :: "local_issue + 'a \<Rightarrow> local_exn + 'a" where
  "as_problem x = (case x of Inl p \<Rightarrow> Inl (Route_problem_local p) | Inr a \<Rightarrow> Inr a)"

section \<open>Problems\<close>

definition problem_from_http_exception :: "int \<Rightarrow> (string \<times> string) list \<Rightarrow> local_issue" where
  "problem_from_http_exception status headers =
     (if status = 401 then
        (local_problem 401 ''invalid_credential'' ''Invalid bearer credential''
          ''A valid scan-upload bearer token is required.'')\<lparr>lx_headers := [(''WWW-Authenticate'', ''Bearer'')]\<rparr>
      else if status = 403 then
        local_problem 403 ''insufficient_scope'' ''Insufficient token scope''
          ''The bearer token is not permitted to upload scans.''
      else if status = 429 then
        (local_problem 429 ''authentication_rate_limited'' ''Authentication rate limited''
          ''Too many invalid authentication attempts were received.'')
          \<lparr>lx_retryable := True,
            lx_headers := [(''Retry-After'',
              case map_of headers ''Retry-After'' of None \<Rightarrow> ''600'' | Some v \<Rightarrow> v)]\<rparr>
      else local_problem status ''request_rejected'' ''Request rejected'' ''The request could not be accepted.'')"

definition workflow_problem :: "ingest_problem \<Rightarrow> local_issue" where
  "workflow_problem p =
     (local_problem (pb_status p) (pb_code p) (pb_title p) (pb_detail p))
       \<lparr>lx_retryable := pb_retryable p,
         lx_headers := (case pb_retry_after p of None \<Rightarrow> [] | Some n \<Rightarrow> [(''Retry-After'', decimal_int n)])\<rparr>"

definition internal_error :: local_issue where
  "internal_error = (local_problem 500 ''internal_error'' ''Internal server error''
     ''The local scan request could not be completed.'')\<lparr>lx_retryable := True\<rparr>"

definition local_problem_of :: "local_exn \<Rightarrow> local_issue" where
  "local_problem_of e =
     (case e of
        Route_problem_local p \<Rightarrow> p
      | Route_http status headers \<Rightarrow> problem_from_http_exception status headers
      | Route_workflow p \<Rightarrow> workflow_problem p
      | Route_raised \<Rightarrow> internal_error)"

definition local_problem_response :: "string \<Rightarrow> string \<Rightarrow> local_issue \<Rightarrow> http_answer" where
  "local_problem_response path request_id p =
     (let base = problem_response path request_id
        \<lparr>pm_status = lx_status p, pm_code = lx_code p, pm_title = lx_title p, pm_detail = lx_detail p,
         pm_retryable = lx_retryable p, pm_limits = lx_limits p, pm_headers = lx_headers p\<rparr> in
      base\<lparr>an_body := an_body base @ json_object_of (lx_extensions p)\<rparr>)"

section \<open>The dependencies\<close>

definition require_local_ingest_enabled :: "'p local_route_env \<Rightarrow> local_exn + unit" where
  "require_local_ingest_enabled env =
     (if \<not> ln_enabled env \<or> \<not> ln_identity_ready env
      then Inl (Route_problem_local (local_problem 503 ''local_ingest_disabled'' ''Local ingest is disabled''
        ''This Assurance Scan instance does not accept local scan uploads.''))
      else Inr ())"

text \<open>\<^verbatim>\<open>text.partition(sep)\<close>: the text before the separator, and after it if it occurs.\<close>

definition before_mark :: "char \<Rightarrow> string \<Rightarrow> string" where
  "before_mark sep s = takeWhile (\<lambda>c. c \<noteq> sep) s"

definition after_mark :: "char \<Rightarrow> string \<Rightarrow> string option" where
  "after_mark sep s = (case dropWhile (\<lambda>c. c \<noteq> sep) s of [] \<Rightarrow> None | _ # rest \<Rightarrow> Some rest)"

definition selector_bucket :: "string \<Rightarrow> string" where
  "selector_bucket plaintext =
     (if after_mark CHR ''.'' plaintext \<noteq> None \<and> prefix ''asu_v1_'' (before_mark CHR ''.'' plaintext)
      then before_mark CHR ''.'' plaintext else ''malformed'')"

definition bearer_credential :: "string option \<Rightarrow> string" where
  "bearer_credential header =
     (let authorization = (case header of None \<Rightarrow> [] | Some v \<Rightarrow> v) in
      case after_mark CHR '' '' authorization of
        None \<Rightarrow> []
      | Some credential \<Rightarrow>
          if py_lower (before_mark CHR '' '' authorization) = ''bearer'' then py_strip credential else [])"

definition fresh_limiter :: limiter where
  "fresh_limiter = \<lparr>origin_limit = 20, selector_limit = 10, window_s = 600, max_buckets = 4096,
     origin_bk = [], selector_bk = []\<rparr>"

definition refuse_credential :: "'p local_route_env \<Rightarrow> local_request \<Rightarrow> string \<Rightarrow> 'a local_op" where
  "refuse_credential env request plaintext s =
     (let l = (case ls_limiter s of None \<Rightarrow> fresh_limiter | Some l \<Rightarrow> l);
          origin = (case lq_client_host request of None \<Rightarrow> ''unknown'' | Some h \<Rightarrow> h) in
      case record_failure l (ln_monotonic env) origin (selector_bucket plaintext) of
        (l', rate) \<Rightarrow>
          (Inl (Raised (
             if \<not> ld_allowed rate
             then Route_http 429 [(''Retry-After'', decimal_int
               (case ld_retry_after rate of None \<Rightarrow> 1 | Some n \<Rightarrow> if n = 0 then 1 else n))]
             else Route_http 401 [(''WWW-Authenticate'', ''Bearer'')])), s\<lparr>ls_limiter := Some l'\<rparr>))"

definition authenticated :: "'p local_route_env \<Rightarrow> local_request \<Rightarrow> local_state \<Rightarrow> token_error + token_auth_result" where
  "authenticated env request s =
     authenticate_scan_token (ln_sha env) (find_for_authentication (ls_users s) (ls_tokens s))
       (bearer_credential (lq_authorization request)) (ln_now env) TOKEN_SCOPE"

definition require_scan_token_principal :: "'p local_route_env \<Rightarrow> local_request \<Rightarrow> token_principal local_op" where
  "require_scan_token_principal env request s =
     (case authenticated env request s of
        Inl _ \<Rightarrow> (Inl (Raised Route_raised), s)
      | Inr result \<Rightarrow>
          if tx_decision result = Token_Insufficient_Scope then (Inl (Raised (Route_http 403 [])), s)
          else (case (if tx_decision result = Token_Authenticated then tx_principal result else None) of
             None \<Rightarrow> refuse_credential env request (bearer_credential (lq_authorization request)) s
           | Some owner \<Rightarrow>
               (Inr owner, s\<lparr>ls_tokens :=
                  touch_last_used (tp_token_id owner) (ln_now env) (hours 1) (ls_tokens s)\<rparr>)))"

definition refresh_local_project_access :: "'p local_route_env \<Rightarrow> token_principal \<Rightarrow> unit local_op" where
  "refresh_local_project_access env owner s =
     (case sync_github_app_memberships (ln_access env) (tp_user_id owner) False (ls_access s) of
        (Inl _, a) \<Rightarrow> (Inl (Raised Route_raised), s\<lparr>ls_access := a\<rparr>)
      | (Inr _, a) \<Rightarrow> (Inr (), s\<lparr>ls_access := a\<rparr>))"

section \<open>Validating the upload\<close>

definition validate_idempotency_key :: "string option \<Rightarrow> local_exn + string" where
  "validate_idempotency_key raw =
     (case raw of
        Some key \<Rightarrow> if canonical_uuid4 key then Inr key
          else Inl (Route_problem_local (local_problem 400 ''invalid_idempotency_key'' ''Invalid idempotency key''
            ''Idempotency-Key must be a canonical lowercase UUIDv4.''))
      | None \<Rightarrow> Inl (Route_problem_local (local_problem 400 ''invalid_idempotency_key'' ''Invalid idempotency key''
          ''Idempotency-Key must be a canonical lowercase UUIDv4.'')))"

definition local_upload :: "'p local_route_env \<Rightarrow> local_request \<Rightarrow> local_exn + (string \<times> bytes) list \<times> int" where
  "local_upload env request =
     (case read_multipart (ln_parser env) (ln_options env) (ln_limits env) (lq_upload request) of
        Inl (Inl p) \<Rightarrow> Inl (Route_problem_local p)
      | Inl (Inr _) \<Rightarrow> Inl Route_raised
      | Inr upload \<Rightarrow> Inr upload)"

definition part_bytes_of :: "(string \<times> bytes) list \<Rightarrow> string \<Rightarrow> bytes" where
  "part_bytes_of parts name = (case map_of parts name of None \<Rightarrow> [] | Some v \<Rightarrow> v)"

definition require_canary_repository :: "'p local_route_env \<Rightarrow> members \<Rightarrow> local_exn + unit" where
  "require_canary_repository env metadata =
     (if ln_allowlist env = [] then Inr ()
      else
        (let target = (if truthy (member_of metadata ''project_override'') then member_of metadata ''project_override''
                       else member_of metadata ''repository'');
             text = (case target of JString s \<Rightarrow> s | JNull \<Rightarrow> codes_of ''None'' | v \<Rightarrow> ln_str env v) in
         if \<not> list_all (\<lambda>c. c < 256) text then Inl (Route_problem_local (schema_problem ''metadata''))
         else (case normalize_github_repository_key (ln_netloc_ok env) (code_char text) of
           Inl _ \<Rightarrow> Inl (Route_problem_local (schema_problem ''metadata''))
         | Inr key \<Rightarrow>
             if key \<notin> set (ln_allowlist env)
             then Inl (Route_problem_local (local_problem 403 ''repository_not_enabled''
               ''Repository is not enabled for local ingest''
               ''This repository is outside the current local-ingest rollout.''))
             else Inr ())))"

definition optional_document :: "'p local_route_env \<Rightarrow> (string \<times> bytes) list \<Rightarrow> string \<Rightarrow> local_exn + json list" where
  "optional_document env parts name =
     (case map_of parts name of
        None \<Rightarrow> Inr []
      | Some payload \<Rightarrow>
          result_then (as_problem (load_json_value (ln_recursion env) payload name (ul_json_depth (ln_limits env))))
            (\<lambda>v. Inr [v]))"

definition match_request :: "members \<Rightarrow> string \<Rightarrow> local_exn + unit" where
  "match_request metadata key =
     (case map_of metadata (codes_of ''request_id'') of
        None \<Rightarrow> Inl Route_raised
      | Some v \<Rightarrow>
          if v \<noteq> JString (codes_of key)
          then Inl (Route_problem_local (local_problem 400 ''idempotency_key_mismatch''
            ''Idempotency key does not match metadata'' ''Idempotency-Key must equal metadata.request_id.''))
          else Inr ())"

definition load_part ::
    "'p local_route_env \<Rightarrow> (string \<times> bytes) list \<Rightarrow> string \<Rightarrow> local_exn + members" where
  "load_part env parts name =
     as_problem (load_json_object (ln_recursion env) (part_bytes_of parts name) name (ul_json_depth (ln_limits env)))"

definition validate_documents ::
    "'p local_route_env \<Rightarrow> members \<Rightarrow> members \<Rightarrow> local_exn + unit" where
  "validate_documents env metadata findings =
     result_then (as_problem (validate_supported_version metadata ''metadata'')) (\<lambda>_.
     result_then (as_problem (validate_supported_version findings ''findings'')) (\<lambda>_.
     result_then (as_problem (validate_schema (ln_schema env) metadata
       ''local-scan-metadata.v1.schema.json'' ''metadata'')) (\<lambda>_.
     result_then (as_problem (validate_schema (ln_schema env) findings
       ''local-scan-findings.v1.schema.json'' ''findings'')) (\<lambda>_.
     as_problem (validate_result_limits findings (ln_limits env))))))"

text \<open>\<^verbatim>\<open>frozenset(scope.split())\<close>\<close>

fun split_space :: "string \<Rightarrow> string \<Rightarrow> string list" where
  "split_space word [] = (if word = [] then [] else [rev word])"
| "split_space word (c # s) =
     (if py_space c then (if word = [] then split_space [] s else rev word # split_space [] s)
      else split_space (c # word) s)"

definition local_command_of ::
    "'p local_route_env \<Rightarrow> token_principal \<Rightarrow> string \<Rightarrow> members \<Rightarrow> members \<Rightarrow> (string \<times> bytes) list \<Rightarrow> int \<Rightarrow> string
     \<Rightarrow> local_command" where
  "local_command_of env owner key metadata findings parts received hash =
     \<lparr>lc_user_id = tp_user_id owner, lc_correlation_id = ln_correlation_id env, lc_token_id = tp_token_id owner,
      lc_token_label = tp_token_label owner, lc_token_scopes = set (split_space [] (tp_scope owner)),
      lc_request_id = key, lc_metadata = metadata, lc_findings = findings, lc_accepted_bytes = received,
      lc_payload_hash = hash, lc_findings_bytes = part_bytes_of parts ''findings'',
      lc_sarif_bytes = map_of parts ''sarif'', lc_sbom_bytes = map_of parts ''sbom'',
      lc_public_base_url = (if ln_public_base_url env = [] then ln_request_base_url env else ln_public_base_url env)\<rparr>"

definition validated_upload ::
    "'p local_route_env \<Rightarrow> local_request \<Rightarrow> token_principal \<Rightarrow> local_exn + local_command \<times> json list" where
  "validated_upload env request owner =
     result_then (validate_idempotency_key (lq_idempotency_key request)) (\<lambda>key.
     result_then (local_upload env request) (\<lambda>(parts, received).
     result_then (load_part env parts ''metadata'') (\<lambda>metadata.
     result_then (load_part env parts ''findings'') (\<lambda>findings.
     result_then (validate_documents env metadata findings) (\<lambda>_.
     result_then (match_request metadata key) (\<lambda>_.
     result_then (require_canary_repository env metadata) (\<lambda>_.
     result_then (optional_document env parts ''sarif'') (\<lambda>sarif.
     result_then (optional_document env parts ''sbom'') (\<lambda>sbom.
     case payload_hash (ln_float_text env) (ln_sha env) metadata parts of
       None \<Rightarrow> Inl Route_raised
     | Some hash \<Rightarrow> Inr (local_command_of env owner key metadata findings parts received hash, sarif @ sbom))))))))))"

section \<open>Answering\<close>

definition in_local_ingest :: "'a db_op \<Rightarrow> 'a local_op" where
  "in_local_ingest m s =
     (case m (ls_ingest s) of
        (Inl e, d) \<Rightarrow> (Inl (Raised (case e of Raised (Exn_problem p) \<Rightarrow> Route_workflow p | _ \<Rightarrow> Route_raised)),
                       s\<lparr>ls_ingest := d\<rparr>)
      | (Inr x, d) \<Rightarrow> (Inr x, s\<lparr>ls_ingest := d\<rparr>))"

definition scan_outcome_text :: "scan_outcome \<Rightarrow> string" where
  "scan_outcome_text x =
     (case x of Scan_Created \<Rightarrow> ''created'' | Scan_Replayed \<Rightarrow> ''replayed'' | Scan_In_Progress \<Rightarrow> ''in_progress'')"

definition local_success_status :: "scan_result \<Rightarrow> int" where
  "local_success_status r =
     (case sn_outcome r of Scan_Replayed \<Rightarrow> 200 | Scan_In_Progress \<Rightarrow> 202 | Scan_Created \<Rightarrow> 201)"

definition local_success_response :: "scan_result \<Rightarrow> string \<Rightarrow> http_answer" where
  "local_success_response r correlation_id =
     \<lparr>an_status = local_success_status r, an_media = ''application/json'',
      an_headers = (case sn_retry_after r of None \<Rightarrow> [] | Some n \<Rightarrow> [(''Retry-After'', decimal_int n)]),
      an_body = json_object_of
        ([(''run_id'', optional_text (sn_run_id r)), (''project_id'', JInt (sn_project_id r)),
          (''repository'', JObject (json_object_of
             [(''provider'', text_json ''github''), (''full_name'', text_json (sn_repository r))])),
          (''run_url'', optional_text (sn_run_url r)), (''status'', text_json (sn_status r)),
          (''replayed'', JBool (sn_outcome r = Scan_Replayed)), (''request_id'', text_json correlation_id)] @
         (case sn_status_url r of None \<Rightarrow> [] | Some url \<Rightarrow> [(''status_url'', text_json url)]))\<rparr>"

definition local_rejection_signal :: "'p local_route_env \<Rightarrow> local_issue \<Rightarrow> request_signal" where
  "local_rejection_signal env p =
     \<lparr>sg_origin = ''local'', sg_outcome = ''rejected'', sg_status_code = lx_status p,
      sg_duration_ms = max 0 (ln_elapsed_ms env), sg_code = lx_code p, sg_correlation_id = ln_correlation_id env,
      sg_wire_bytes = None, sg_finding_count = None, sg_scanner_count = None, sg_redaction_count = None,
      sg_project_id = None, sg_replayed = None\<rparr>"

definition local_success_signal ::
    "'p local_route_env \<Rightarrow> scan_result \<Rightarrow> int \<Rightarrow> int \<Rightarrow> int \<Rightarrow> int \<Rightarrow> request_signal" where
  "local_success_signal env r received findings scanners redactions =
     \<lparr>sg_origin = ''local'', sg_outcome = scan_outcome_text (sn_outcome r), sg_status_code = local_success_status r,
      sg_duration_ms = max 0 (ln_elapsed_ms env), sg_code = ''scan_'' @ scan_outcome_text (sn_outcome r),
      sg_correlation_id = ln_correlation_id env, sg_wire_bytes = Some received, sg_finding_count = Some findings,
      sg_scanner_count = Some scanners, sg_redaction_count = Some redactions,
      sg_project_id = Some (sn_project_id r), sg_replayed = Some (sn_outcome r = Scan_Replayed)\<rparr>"

definition redaction_count :: "'p local_route_env \<Rightarrow> members \<Rightarrow> json list \<Rightarrow> int" where
  "redaction_count env findings documents =
     int (snd (redact_json (ln_word env) None (JObject findings))) +
     sum_list (map (\<lambda>v. int (snd (redact_json (ln_word env) None v))) documents)"

definition log_local_success ::
    "'p local_route_env \<Rightarrow> scan_result \<Rightarrow> local_command \<Rightarrow> json list \<Rightarrow> local_exn + string" where
  "log_local_success env r c documents =
     (case (py_len (member_of (lc_findings c) ''findings''), py_len (member_of (lc_findings c) ''scanners'')) of
        (Some findings, Some scanners) \<Rightarrow>
          (case render_request_signal (local_success_signal env r (lc_accepted_bytes c) findings scanners
                  (redaction_count env (lc_findings c) documents)) of
             None \<Rightarrow> Inl Route_raised | Some line \<Rightarrow> Inr line)
      | _ \<Rightarrow> Inl Route_raised)"

definition upload_local_scan :: "'p local_route_env \<Rightarrow> local_request \<Rightarrow> http_answer local_op" where
  "upload_local_scan env request =
     and_then (or_raise id (require_local_ingest_enabled env)) (\<lambda>_.
     and_then (require_scan_token_principal env request) (\<lambda>owner.
     and_then (refresh_local_project_access env owner) (\<lambda>_.
     and_then (or_raise id (validated_upload env request owner)) (\<lambda>(c, documents).
     and_then (in_local_ingest (ingest_local_scan (ln_local env) c)) (\<lambda>result.
     and_then (or_raise id (log_local_success env result c documents)) (\<lambda>_.
     return_op (local_success_response result (ln_correlation_id env))))))))"

definition local_failure :: "local_exn raised \<Rightarrow> local_exn" where
  "local_failure e = (case e of Raised x \<Rightarrow> x | Db_Fault \<Rightarrow> Route_raised)"

text \<open>\<open>None\<close> when the handler itself raises, because the rejection could not be logged.\<close>

definition is_upload_request :: "string \<Rightarrow> bool" where
  "is_upload_request path \<longleftrightarrow> suffix ''/v1/ingest/local-scans'' (base_url path)"

definition local_answer ::
    "'p local_route_env \<Rightarrow> local_request \<Rightarrow> bool \<Rightarrow> (local_exn raised + http_answer) \<Rightarrow> http_answer option" where
  "local_answer env request post r =
     (case r of
        Inr answer \<Rightarrow> Some answer
      | Inl e \<Rightarrow>
          (let p = local_problem_of (local_failure e);
               answer = local_problem_response (lq_path request) (ln_correlation_id env) p in
           if post \<and> is_upload_request (lq_path request) \<and>
              render_request_signal (local_rejection_signal env p) = None
           then None else Some answer))"

definition local_upload_route ::
    "'p local_route_env \<Rightarrow> local_request \<Rightarrow> local_state \<Rightarrow> http_answer option \<times> local_state" where
  "local_upload_route env request s =
     (case upload_local_scan env request s of (r, s') \<Rightarrow> (local_answer env request True r, s'))"

section \<open>The other routes\<close>

definition json_answer :: "(string \<times> string) list \<Rightarrow> (string \<times> json) list \<Rightarrow> http_answer" where
  "json_answer headers body =
     \<lparr>an_status = 200, an_media = ''application/json'', an_headers = headers, an_body = json_object_of body\<rparr>"

definition capabilities :: "'p local_route_env \<Rightarrow> http_answer" where
  "capabilities env =
     (let limits = ln_limits env; texts = (\<lambda>ts. JArray (map text_json ts)) in
      json_answer []
        [(''api_version'', text_json ''v1''), (''supported_schema_versions'', JArray [JInt 1]),
         (''upload_media_type'', text_json ''multipart/form-data''),
         (''parts'', JObject (json_object_of
            [(''required'', texts [''metadata'', ''findings'']), (''optional'', texts [''sarif'', ''sbom''])])),
         (''limits'', JObject (json_object_of (map (\<lambda>(name, n). (name, JInt n))
            [(''wire_bytes'', ul_wire_bytes limits), (''parsed_bytes'', ul_parsed_bytes limits),
             (''metadata_bytes'', ul_metadata_bytes limits), (''findings_bytes'', ul_findings_bytes limits),
             (''sarif_bytes'', ul_sarif_bytes limits), (''sbom_bytes'', ul_sbom_bytes limits),
             (''findings_count'', ul_findings_count limits), (''scanner_results'', ul_scanner_results limits),
             (''json_depth'', ul_json_depth limits)])))])"

definition whoami :: "'p local_route_env \<Rightarrow> token_principal \<Rightarrow> http_answer" where
  "whoami env owner =
     json_answer []
       [(''account'', text_json (tp_account_name owner)), (''token_label'', text_json (tp_token_label owner)),
        (''scopes'', JArray [text_json (tp_scope owner)]),
        (''expires_at'', text_json (ln_isoformat env (tp_expires_at owner)))]"

definition capabilities_route :: "'p local_route_env \<Rightarrow> local_request \<Rightarrow> http_answer local_op" where
  "capabilities_route env request =
     and_then (or_raise id (require_local_ingest_enabled env)) (\<lambda>_.
     and_then (require_scan_token_principal env request) (\<lambda>_. return_op (capabilities env)))"

definition whoami_route :: "'p local_route_env \<Rightarrow> local_request \<Rightarrow> http_answer local_op" where
  "whoami_route env request =
     and_then (or_raise id (require_local_ingest_enabled env)) (\<lambda>_.
     and_then (require_scan_token_principal env request) (\<lambda>owner. return_op (whoami env owner)))"

record request_status =
  qs_state :: claim_state
  qs_run_id :: "string option"
  qs_project_id :: int
  qs_repository :: string
  qs_lease_expires_at :: "datetime option"

text \<open>The first row of the join of the user's claims of the request with the projects that are not hidden.\<close>

definition claim_with_project :: "int \<Rightarrow> string \<Rightarrow> ingest_db \<Rightarrow> (local_claim_row \<times> project_row) option" where
  "claim_with_project user_id request_id d =
     find (\<lambda>(c, p). pj_id p = cl_project_id c \<and> local_key c = (user_id, request_id) \<and> \<not> pj_hidden p)
       (List.product (db_local d) (db_projects d))"

definition get_local_request_status :: "datetime \<Rightarrow> int \<Rightarrow> string \<Rightarrow> ingest_db \<Rightarrow> request_status option" where
  "get_local_request_status now user_id request_id d =
     (case claim_with_project user_id request_id d of
        None \<Rightarrow> None
      | Some (claim, project) \<Rightarrow>
          (case (pj_repo project, find (\<lambda>u. us_id u = user_id) (db_users d)) of
             (Some repo, Some user) \<Rightarrow>
               if us_disabled_at user \<noteq> None \<or>
                  require_project (db_memberships d) (db_projects d) now
                    \<lparr>ap_user_id = Some (us_id user), ap_role = us_role user\<rparr> (pj_id project) VIEW = None
               then None
               else Some \<lparr>qs_state = cl_state claim, qs_run_id = cl_run_id claim, qs_project_id = pj_id project,
                          qs_repository = repo, qs_lease_expires_at = cl_lease_expires_at claim\<rparr>
           | _ \<Rightarrow> None))"

definition claim_state_text :: "claim_state \<Rightarrow> string" where
  "claim_state_text x =
     (case x of Processing \<Rightarrow> ''processing'' | Completed \<Rightarrow> ''completed'' | Claim_Failed \<Rightarrow> ''failed''
      | Tombstoned \<Rightarrow> ''tombstoned'')"

definition status_answer :: "'p local_route_env \<Rightarrow> string \<Rightarrow> request_status \<Rightarrow> http_answer" where
  "status_answer env request_id status =
     json_answer
       (if qs_state status = Processing
        then [(''Retry-After'', decimal_int (ingest_retry_after
               (map_option normalise_utc (qs_lease_expires_at status)) (ln_now env)))] else [])
       [(''request_id'', text_json request_id), (''status'', text_json (claim_state_text (qs_state status))),
        (''run_id'', optional_text (qs_run_id status)), (''project_id'', JInt (qs_project_id status)),
        (''repository'', JObject (json_object_of
           [(''provider'', text_json ''github''), (''full_name'', text_json (qs_repository status))])),
        (''run_url'', optional_text (map_option (\<lambda>r. base_url (ln_public_base_url env) @ ''/scans/'' @ r)
           (qs_run_id status)))]"

definition answer_status :: "'p local_route_env \<Rightarrow> string \<Rightarrow> request_status option \<Rightarrow> local_exn + http_answer" where
  "answer_status env request_id found =
     (case found of
        None \<Rightarrow> Inl (Route_problem_local (local_problem 404 ''scan_request_not_found'' ''Scan request not found''
          ''The scan request is not available.''))
      | Some status \<Rightarrow>
          if qs_state status = Tombstoned
          then Inl (Route_problem_local (local_problem 410 ''idempotency_tombstoned''
            ''Scan request is no longer available''
            ''This request belongs to a deleted scan and cannot yet be reused.''))
          else Inr (status_answer env request_id status))"

definition local_scan_request_status ::
    "'p local_route_env \<Rightarrow> local_request \<Rightarrow> string \<Rightarrow> http_answer local_op" where
  "local_scan_request_status env request request_id =
     and_then (or_raise id (require_local_ingest_enabled env)) (\<lambda>_.
     and_then (require_scan_token_principal env request) (\<lambda>owner.
     and_then (refresh_local_project_access env owner) (\<lambda>_.
     and_then (or_raise id (validate_idempotency_key (Some request_id))) (\<lambda>key.
     and_then (in_local_ingest (statement (\<lambda>d.
         Inr (get_local_request_status (ln_now env) (tp_user_id owner) key d, d)))) (\<lambda>found.
     or_raise id (answer_status env key found))))))"

definition local_get_route ::
    "'p local_route_env \<Rightarrow> local_request \<Rightarrow> http_answer local_op \<Rightarrow> local_state \<Rightarrow> http_answer option \<times> local_state" where
  "local_get_route env request route s = (case route s of (r, s') \<Rightarrow> (local_answer env request False r, s'))"

section \<open>What an answer has shown\<close>

text \<open>
  What the checks before the workflow have established about its command: whose it is, that the
  key of the request is that of the metadata, that both documents satisfy their schemas and
  limits, that the repository is inside the rollout, and what the payload hash covers.
\<close>

definition command_checked :: "'p local_route_env \<Rightarrow> local_request \<Rightarrow> token_principal \<Rightarrow> local_command \<Rightarrow> bool" where
  "command_checked env request owner c \<longleftrightarrow>
     lc_user_id c = tp_user_id owner \<and> lc_token_id c = tp_token_id owner \<and>
     lq_idempotency_key request = Some (lc_request_id c) \<and> canonical_uuid4 (lc_request_id c) \<and>
     map_of (lc_metadata c) (codes_of ''request_id'') = Some (JString (codes_of (lc_request_id c))) \<and>
     validate_documents env (lc_metadata c) (lc_findings c) = Inr () \<and>
     require_canary_repository env (lc_metadata c) = Inr () \<and>
     (\<exists>parts received. local_upload env request = Inr (parts, received) \<and> lc_accepted_bytes c = received \<and>
        load_part env parts ''metadata'' = Inr (lc_metadata c) \<and> load_part env parts ''findings'' = Inr (lc_findings c) \<and>
        payload_hash (ln_float_text env) (ln_sha env) (lc_metadata c) parts = Some (lc_payload_hash c))"

definition upload_answered ::
    "'p local_route_env \<Rightarrow> local_request \<Rightarrow> local_state \<Rightarrow> scan_result \<Rightarrow> local_state \<Rightarrow> bool" where
  "upload_answered env request s0 result s \<longleftrightarrow>
     (\<exists>owner c.
        ln_enabled env \<and> ln_identity_ready env \<and>
        authenticated env request s0 = Inr \<lparr>tx_decision = Token_Authenticated, tx_principal = Some owner\<rparr> \<and>
        command_checked env request owner c \<and> sn_outcome result = Scan_Created \<and>
        sn_run_id result = Some (''local-'' @ lv_run_uuid (ln_local env)) \<and> leaves c result (ls_ingest s))"

definition local_upload_accepted :: "'p local_route_env \<Rightarrow> local_request \<Rightarrow> local_state \<Rightarrow> local_state \<Rightarrow> bool" where
  "local_upload_accepted env request s0 s \<longleftrightarrow> (\<exists>result. upload_answered env request s0 result s)"

definition nothing_or_local :: "'p local_route_env \<Rightarrow> local_request \<Rightarrow> local_state \<Rightarrow> local_state \<Rightarrow> bool" where
  "nothing_or_local env request s0 s \<longleftrightarrow> published (ls_ingest s) = [] \<or> local_upload_accepted env request s0 s"

definition local_answer_sound ::
    "'p local_route_env \<Rightarrow> local_request \<Rightarrow> local_state \<Rightarrow> http_answer \<Rightarrow> local_state \<Rightarrow> bool" where
  "local_answer_sound env request s0 a s \<longleftrightarrow>
     (if created_answer a
      then \<exists>result. upload_answered env request s0 result s \<and>
        a = local_success_response result (ln_correlation_id env)
      else nothing_or_local env request s0 s)"

lemma validated_checked:
  assumes "validated_upload env request owner = Inr (c, documents)"
  shows "command_checked env request owner c"
proof -
  from assms obtain key parts received metadata findings hash where
    steps: "validate_idempotency_key (lq_idempotency_key request) = Inr key"
      "local_upload env request = Inr (parts, received)" "load_part env parts ''metadata'' = Inr metadata"
      "load_part env parts ''findings'' = Inr findings" "validate_documents env metadata findings = Inr ()"
      "match_request metadata key = Inr ()" "require_canary_repository env metadata = Inr ()"
      "payload_hash (ln_float_text env) (ln_sha env) metadata parts = Some hash"
    and c: "c = local_command_of env owner key metadata findings parts received hash"
    by (auto simp: validated_upload_def result_then_ok split: option.splits)
  have key: "lq_idempotency_key request = Some key" "canonical_uuid4 key"
    using steps(1) by (auto simp: validate_idempotency_key_def split: option.splits if_splits)
  have "map_of metadata (codes_of ''request_id'') = Some (JString (codes_of key))"
    using steps(6) by (auto simp: match_request_def split: option.splits if_splits)
  with steps key show ?thesis by (simp add: command_checked_def c local_command_of_def)
qed

text \<open>The ingestion's session before the workflow has run, and the credential that was read.\<close>

definition untouched :: "local_state \<Rightarrow> bool" where
  "untouched s \<longleftrightarrow> quiet (ls_ingest s)"

lemma untouched_nothing: "untouched s \<Longrightarrow> nothing_or_local env request s0 s"
  by (simp add: untouched_def nothing_or_local_def quiet_published)

lemma principal_authenticated:
  "triple (\<lambda>s. s = s0 \<and> untouched s) (require_scan_token_principal env request)
     (\<lambda>owner s. untouched s \<and> authenticated env request s0 =
        Inr \<lparr>tx_decision = Token_Authenticated, tx_principal = Some owner\<rparr>) untouched"
proof (rule tripleI)
  fix s :: local_state
  assume s: "s = s0 \<and> untouched s"
  show "case require_scan_token_principal env request s of
      (Inl e, s') \<Rightarrow> untouched s'
    | (Inr owner, s') \<Rightarrow> untouched s' \<and> authenticated env request s0 =
        Inr \<lparr>tx_decision = Token_Authenticated, tx_principal = Some owner\<rparr>"
  proof (cases "authenticated env request s0")
    case (Inr result)
    obtain d p where r: "result = \<lparr>tx_decision = d, tx_principal = p\<rparr>" by (cases result)
    with Inr s show ?thesis
      by (cases p; cases d) (auto simp: require_scan_token_principal_def refuse_credential_def Let_def untouched_def
          split: prod.splits)
  qed (use s in \<open>auto simp: require_scan_token_principal_def\<close>)
qed

lemma refresh_untouched: "triple untouched (refresh_local_project_access env owner) (\<lambda>_. untouched) untouched"
  by (rule tripleI) (auto simp: refresh_local_project_access_def untouched_def split: prod.splits sum.splits)

lemma in_local_ingest_leaves:
  "triple untouched (in_local_ingest (ingest_local_scan lenv c))
     (\<lambda>result s. leaves c result (ls_ingest s) \<and> names_drawn_run lenv result) (nothing_or_local env request s0)"
proof (rule tripleI)
  fix s :: local_state
  assume "untouched s"
  with ingest_local_scan_leaves [of lenv c, unfolded triple_def, THEN spec, of "ls_ingest s"]
    ingest_local_scan_drawn [of lenv c, unfolded triple_def, THEN spec, of "ls_ingest s"]
  show "case in_local_ingest (ingest_local_scan lenv c) s of
      (Inl e, s') \<Rightarrow> nothing_or_local env request s0 s'
    | (Inr result, s') \<Rightarrow> leaves c result (ls_ingest s') \<and> names_drawn_run lenv result"
    by (auto simp: in_local_ingest_def nothing_or_local_def untouched_def split: sum.splits prod.splits)
qed

lemma answered_sound:
  assumes "ln_enabled env" "ln_identity_ready env"
    and "authenticated env request s0 = Inr \<lparr>tx_decision = Token_Authenticated, tx_principal = Some owner\<rparr>"
    and "validated_upload env request owner = Inr (c, documents)"
  shows "triple (\<lambda>s. leaves c result (ls_ingest s) \<and> names_drawn_run (ln_local env) result)
    (and_then (or_raise id (log_local_success env result c documents)) (\<lambda>_.
       return_op (local_success_response result (ln_correlation_id env))))
    (local_answer_sound env request s0) (nothing_or_local env request s0)"
proof (cases "sn_outcome result = Scan_Created")
  case True
  have answered: "upload_answered env request s0 result s"
    if "leaves c result (ls_ingest s) \<and> names_drawn_run (ln_local env) result" for s
    unfolding upload_answered_def using assms validated_checked [OF assms(4)] True that
    by (auto simp: names_drawn_run_def)
  have "created_answer (local_success_response result i)" for i
    using True by (simp add: created_answer_def local_success_response_def local_success_status_def)
  with answered show ?thesis
    by (intro triple_or_raise triple_return)
      (auto simp: local_answer_sound_def nothing_or_local_def local_upload_accepted_def)
next
  case False
  then have "published (ls_ingest s) = []" if "leaves c result (ls_ingest s)" for s
    using that by (auto simp: leaves_def split: scan_outcome.splits)
  moreover have "\<not> created_answer (local_success_response result i)" for i
    using False by (simp add: created_answer_def local_success_response_def local_success_status_def split: scan_outcome.split)
  ultimately show ?thesis
    by (intro triple_or_raise triple_return) (auto simp: local_answer_sound_def nothing_or_local_def)
qed

lemma local_upload_sound:
  "triple (\<lambda>s. s = s0 \<and> untouched s) (upload_local_scan env request)
     (local_answer_sound env request s0) (nothing_or_local env request s0)"
proof (unfold upload_local_scan_def, rule triple_or_raise)
  fix u
  assume "require_local_ingest_enabled env = Inr u"
  then have enabled: "ln_enabled env" "ln_identity_ready env"
    by (auto simp: require_local_ingest_enabled_def split: if_splits)
  let ?known = "\<lambda>owner. authenticated env request s0 =
    Inr \<lparr>tx_decision = Token_Authenticated, tx_principal = Some owner\<rparr>"
  let ?rest = "\<lambda>owner. and_then (refresh_local_project_access env owner) (\<lambda>_.
     and_then (or_raise id (validated_upload env request owner)) (\<lambda>(c, documents).
     and_then (in_local_ingest (ingest_local_scan (ln_local env) c)) (\<lambda>result.
     and_then (or_raise id (log_local_success env result c documents)) (\<lambda>_.
     return_op (local_success_response result (ln_correlation_id env))))))"
  have workflow: "triple untouched
      (case cd of (c, documents) \<Rightarrow> and_then (in_local_ingest (ingest_local_scan (ln_local env) c)) (\<lambda>result.
         and_then (or_raise id (log_local_success env result c documents)) (\<lambda>_.
         return_op (local_success_response result (ln_correlation_id env)))))
      (local_answer_sound env request s0) (nothing_or_local env request s0)"
    if "?known owner" "validated_upload env request owner = Inr cd" for owner cd
    using that by (cases cd)
      (auto intro!: triple_and_then [OF in_local_ingest_leaves] answered_sound [OF enabled])
  have refresh: "triple untouched (refresh_local_project_access env owner) (\<lambda>_. untouched)
      (nothing_or_local env request s0)" for owner
    by (rule triple_weaken [OF refresh_untouched]) (auto intro: untouched_nothing)
  have principal: "triple (\<lambda>s. s = s0 \<and> untouched s) (require_scan_token_principal env request)
      (\<lambda>owner s. untouched s \<and> ?known owner) (nothing_or_local env request s0)"
    by (rule triple_weaken [OF principal_authenticated]) (auto intro: untouched_nothing)
  have rest: "triple untouched (?rest owner) (local_answer_sound env request s0) (nothing_or_local env request s0)"
    if "?known owner" for owner
    by (rule triple_and_then [OF refresh]) (rule triple_or_raise [OF workflow [OF that] untouched_nothing])
  show "triple (\<lambda>s. s = s0 \<and> untouched s) (and_then (require_scan_token_principal env request) ?rest)
      (local_answer_sound env request s0) (nothing_or_local env request s0)"
  proof (rule triple_and_then [OF principal], rule triple_known)
    fix owner s
    assume "untouched s \<and> ?known owner"
    then show "triple (\<lambda>s'. s' = s) (?rest owner) (local_answer_sound env request s0) (nothing_or_local env request s0)"
      using triple_at [OF rest] by blast
  qed
qed (auto intro: untouched_nothing)

text \<open>
  C1. The upload route publishes at most one run, and only for an upload that passed every check: the
  scan token was authenticated in the state of the tables at that time, the upload was read
  within its limits, its documents satisfied the schemas and named the request, and the commit that added the
  run also completed the claim of that user and request.  A 201 answer means that the upload
  passed every check and names the run under the id drawn for it; that run was published in this way, unless the table already
  had a run of that id, in which case nothing was published.  Every other answer, and a handler
  that raises, has published nothing or one run of an upload that passed every check.
\<close>

theorem local_route_sound:
  "case local_upload_route env request
     \<lparr>ls_users = users, ls_tokens = tokens, ls_limiter = l, ls_access = access,
      ls_ingest = new_session faults others d\<rparr> of
     (Some answer, s) \<Rightarrow> local_answer_sound env request
        \<lparr>ls_users = users, ls_tokens = tokens, ls_limiter = l, ls_access = access,
         ls_ingest = new_session faults others d\<rparr> answer s
   | (None, s) \<Rightarrow> nothing_or_local env request
        \<lparr>ls_users = users, ls_tokens = tokens, ls_limiter = l, ls_access = access,
         ls_ingest = new_session faults others d\<rparr> s"
proof -
  let ?s = "\<lparr>ls_users = users, ls_tokens = tokens, ls_limiter = l, ls_access = access,
      ls_ingest = new_session faults others d\<rparr>"
  have "untouched ?s" by (simp add: untouched_def quiet_def new_session_def published_def)
  with local_upload_sound [of ?s env request, unfolded triple_def, THEN spec, of ?s]
  have run: "case upload_local_scan env request ?s of
      (Inl e, s) \<Rightarrow> nothing_or_local env request ?s s | (Inr a, s) \<Rightarrow> local_answer_sound env request ?s a s"
    by simp
  have "local_answer_sound env request s0 (local_problem_response path i p) s"
    if "nothing_or_local env request s0 s" for s0 path i p s
    using that by (simp add: local_answer_sound_def created_answer_def local_problem_response_def
        problem_response_def Let_def)
  with run show ?thesis
    by (auto simp: local_upload_route_def local_answer_def Let_def split: prod.splits sum.splits)
qed

text \<open>
  The status of a request is answered to its owner only: a positive answer names a claim of the
  authenticated user, of a project that is not hidden and that the user may view.
\<close>

theorem status_only_for_owner:
  assumes "get_local_request_status now user_id request_id d = Some status"
  shows "\<exists>c \<in> set (db_local d). \<exists>p \<in> set (db_projects d). local_key c = (user_id, request_id) \<and>
    qs_run_id status = cl_run_id c \<and> qs_project_id status = pj_id p \<and> cl_project_id c = pj_id p \<and>
    (\<exists>role. require_project (db_memberships d) (db_projects d) now
       \<lparr>ap_user_id = Some user_id, ap_role = role\<rparr> (pj_id p) VIEW \<noteq> None)"
proof -
  from assms obtain c p user where found: "claim_with_project user_id request_id d = Some (c, p)"
    and user: "find (\<lambda>u. us_id u = user_id) (db_users d) = Some user"
    and view: "require_project (db_memberships d) (db_projects d) now
       \<lparr>ap_user_id = Some (us_id user), ap_role = us_role user\<rparr> (pj_id p) VIEW \<noteq> None"
    and status: "qs_run_id status = cl_run_id c" "qs_project_id status = pj_id p"
    by (auto simp: get_local_request_status_def split: option.splits if_splits prod.splits)
  from found have "(c, p) \<in> set (List.product (db_local d) (db_projects d))" "pj_id p = cl_project_id c"
    "local_key c = (user_id, request_id)"
    by (auto simp: claim_with_project_def dest: find_SomeD)
  moreover have "us_id user = user_id" using user by (auto dest: find_SomeD)
  moreover have "\<exists>role. require_project (db_memberships d) (db_projects d) now
       \<lparr>ap_user_id = Some user_id, ap_role = role\<rparr> (pj_id p) VIEW \<noteq> None"
    using view calculation(4) by blast
  ultimately show ?thesis using status by (intro bexI [of _ c] bexI [of _ p]) simp_all
qed

end
