(* ===== verification/Webhook_Store.thy ===== *)
theory Webhook_Store
  imports Github_Webhook "HOL-Library.List_Lexorder" "HOL-Library.Product_Lexorder"
begin

text \<open>
  The table of webhook deliveries (\<^verbatim>\<open>db/repositories/github_webhooks.py\<close>), the
  installation refresh it drives (\<^verbatim>\<open>workflows/github_installation_refresh\<close>), one turn
  of the worker (\<^verbatim>\<open>infrastructure/github_webhook_worker.py\<close>) and the answer of the
  receiving route.  A write transaction is one step.
\<close>

section \<open>The table\<close>

datatype delivery_status = Received | Processed | Acknowledged | Delivery_Failed

record delivery_row =
  dr_delivery_id :: string
  dr_body_hash :: string
  dr_event :: string
  dr_action :: codes
  dr_installation_id :: "int option"
  dr_status :: delivery_status
  dr_attempt_count :: int
  dr_available_at :: "datetime option"
  dr_lease_token :: "string option"
  dr_lease_expires_at :: "datetime option"
  dr_last_error_code :: "string option"
  dr_received_at :: datetime
  dr_processed_at :: "datetime option"
  dr_expires_at :: datetime

definition delivery_row_allowed :: "delivery_row \<Rightarrow> bool" where
  "delivery_row_allowed row \<longleftrightarrow>
     length (dr_delivery_id row) = 36 \<and> length (dr_body_hash row) = 64 \<and>
     (case dr_installation_id row of None \<Rightarrow> True | Some n \<Rightarrow> 0 < n) \<and>
     0 \<le> dr_attempt_count row \<and> dt_less (dr_received_at row) (dr_expires_at row)"

definition new_delivery :: "verified_webhook \<Rightarrow> datetime \<Rightarrow> datetime \<Rightarrow> delivery_row" where
  "new_delivery webhook received_at expires_at =
     \<lparr>dr_delivery_id = vw_delivery_id webhook, dr_body_hash = vw_body_hash webhook,
      dr_event = vw_event webhook, dr_action = vw_action webhook,
      dr_installation_id = vw_installation_id webhook,
      dr_status = (if vw_mutation_allowed webhook then Received else Acknowledged),
      dr_attempt_count = 0,
      dr_available_at = (if vw_mutation_allowed webhook then Some received_at else None),
      dr_lease_token = None, dr_lease_expires_at = None, dr_last_error_code = None,
      dr_received_at = received_at,
      dr_processed_at = (if \<not> vw_mutation_allowed webhook then Some received_at else None),
      dr_expires_at = expires_at\<rparr>"

definition delivery_claim ::
    "verified_webhook \<Rightarrow> datetime \<Rightarrow> datetime \<Rightarrow> delivery_row list
     \<Rightarrow> webhook_error + webhook_claim_decision \<times> delivery_row list" where
  "delivery_claim webhook received_at expires_at rows =
     (case find (\<lambda>row. dr_delivery_id row = vw_delivery_id webhook) rows of
        Some row \<Rightarrow>
          Inr (if dr_body_hash row = vw_body_hash webhook then Webhook_Replay else Webhook_Conflict, rows)
      | None \<Rightarrow>
          (let row = new_delivery webhook received_at expires_at in
           if delivery_row_allowed row then Inr (Webhook_Acquired, rows @ [row])
           else Inl (Webhook_ValueError ''integrity error'')))"

definition delivery_due :: "datetime \<Rightarrow> delivery_row \<Rightarrow> bool" where
  "delivery_due now row \<longleftrightarrow>
     dr_status row = Received \<and> dr_installation_id row \<noteq> None \<and>
     (case dr_available_at row of None \<Rightarrow> False | Some t \<Rightarrow> dt_le t now) \<and>
     (case dr_lease_expires_at row of None \<Rightarrow> True | Some t \<Rightarrow> dt_le t now)"

definition delivery_order :: "delivery_row \<Rightarrow> int \<times> nat list" where
  "delivery_order row = (dt_instant (dr_received_at row), codes_of (dr_delivery_id row))"

definition next_due :: "datetime \<Rightarrow> delivery_row list \<Rightarrow> delivery_row option" where
  "next_due now rows =
     (case sort_key delivery_order (filter (delivery_due now) rows) of [] \<Rightarrow> None | row # _ \<Rightarrow> Some row)"

definition delivery_lease_next ::
    "datetime \<Rightarrow> string \<Rightarrow> datetime \<Rightarrow> delivery_row list \<Rightarrow> work_lease option \<times> delivery_row list" where
  "delivery_lease_next now lease_token lease_expires_at rows =
     (case next_due now rows of
        None \<Rightarrow> (None, rows)
      | Some row \<Rightarrow>
          (case dr_installation_id row of
             None \<Rightarrow> (None, rows)
           | Some installation \<Rightarrow>
               (Some \<lparr>wl_delivery_id = dr_delivery_id row, wl_installation_id = installation,
                      wl_event = dr_event row, wl_action = dr_action row, wl_lease_token = lease_token,
                      wl_attempt_count = dr_attempt_count row + 1\<rparr>,
                update_where (\<lambda>r. dr_delivery_id r = dr_delivery_id row)
                  (\<lambda>r. r\<lparr>dr_lease_token := Some lease_token,
                         dr_lease_expires_at := Some lease_expires_at,
                         dr_attempt_count := dr_attempt_count r + 1,
                         dr_last_error_code := None\<rparr>) rows)))"

text \<open>The row a worker still holds: received, and under the worker's own token.\<close>

definition holds_lease :: "work_lease \<Rightarrow> delivery_row \<Rightarrow> bool" where
  "holds_lease lease row \<longleftrightarrow>
     dr_delivery_id row = wl_delivery_id lease \<and> dr_status row = Received \<and>
     dr_lease_token row = Some (wl_lease_token lease)"

definition lease_current :: "work_lease \<Rightarrow> datetime \<Rightarrow> delivery_row \<Rightarrow> bool" where
  "lease_current lease now row \<longleftrightarrow>
     holds_lease lease row \<and>
     (case dr_lease_expires_at row of None \<Rightarrow> False | Some t \<Rightarrow> dt_less now t)"

definition delivery_complete ::
    "work_lease \<Rightarrow> datetime \<Rightarrow> delivery_row list \<Rightarrow> bool \<times> delivery_row list" where
  "delivery_complete lease processed_at rows =
     (count_where (lease_current lease processed_at) rows = 1,
      update_where (lease_current lease processed_at)
        (\<lambda>r. r\<lparr>dr_status := Processed, dr_processed_at := Some processed_at, dr_lease_token := None,
               dr_lease_expires_at := None, dr_last_error_code := None\<rparr>) rows)"

definition delivery_renew ::
    "work_lease \<Rightarrow> datetime \<Rightarrow> datetime \<Rightarrow> delivery_row list \<Rightarrow> bool \<times> delivery_row list" where
  "delivery_renew lease renewed_at lease_expires_at rows =
     (count_where (lease_current lease renewed_at) rows = 1,
      update_where (lease_current lease renewed_at)
        (\<lambda>r. r\<lparr>dr_lease_expires_at := Some lease_expires_at\<rparr>) rows)"

definition delivery_retry ::
    "work_lease \<Rightarrow> datetime \<Rightarrow> datetime \<Rightarrow> string \<Rightarrow> bool \<Rightarrow> delivery_row list
     \<Rightarrow> bool \<times> delivery_row list" where
  "delivery_retry lease available_at failed_at error_code terminal rows =
     (count_where (holds_lease lease) rows = 1,
      update_where (holds_lease lease)
        (\<lambda>r. r\<lparr>dr_status := (if terminal then Delivery_Failed else Received),
               dr_processed_at := (if terminal then Some failed_at else None),
               dr_available_at := Some available_at, dr_lease_token := None,
               dr_lease_expires_at := None, dr_last_error_code := Some error_code\<rparr>) rows)"

section \<open>Refreshing an installation\<close>

text \<open>
  The refresh reads a snapshot from GitHub (\<open>load\<close>, which may raise) and writes through the
  reconciliation port (\<open>apply\<close>); \<open>guard\<close> renews the lease first.  The state carries the
  deliveries and the projection together.
\<close>

datatype refresh_failure =
    Lease_Lost
  | Rate_Limited datetime
  | Api_Error
  | Reconciliation_Invalid
  | Refresh_Failed

datatype 'snapshot projection =
    Deactivate int datetime
  | Suspend int datetime
  | Reconcile 'snapshot datetime

definition require_current_lease :: "('s \<Rightarrow> bool \<times> 's) \<Rightarrow> 's \<Rightarrow> (refresh_failure \<times> 's) + 's" where
  "require_current_lease guard s = (case guard s of (held, s') \<Rightarrow> if held then Inr s' else Inl (Lease_Lost, s'))"

definition refresh_github_installation ::
    "(int \<Rightarrow> datetime \<Rightarrow> refresh_failure + 'snapshot) \<Rightarrow> ('s \<Rightarrow> bool \<times> 's)
     \<Rightarrow> ('snapshot projection \<Rightarrow> 's \<Rightarrow> (refresh_failure \<times> 's) + 's)
     \<Rightarrow> work_lease \<Rightarrow> datetime \<Rightarrow> 's \<Rightarrow> (refresh_failure \<times> 's) + 's" where
  "refresh_github_installation load guard apply_projection lease refreshed_at s =
     (if wl_event lease = ''installation'' \<and> wl_action lease = codes_of ''deleted'' then
        (case require_current_lease guard s of
           Inl e \<Rightarrow> Inl e
         | Inr s1 \<Rightarrow> apply_projection (Deactivate (wl_installation_id lease) refreshed_at) s1)
      else if wl_event lease = ''installation'' \<and> wl_action lease = codes_of ''suspend'' then
        (case require_current_lease guard s of
           Inl e \<Rightarrow> Inl e
         | Inr s1 \<Rightarrow> apply_projection (Suspend (wl_installation_id lease) refreshed_at) s1)
      else case load (wl_installation_id lease) refreshed_at of
        Inl f \<Rightarrow> Inl (f, s)
      | Inr snapshot \<Rightarrow>
          (case require_current_lease guard s of
             Inl e \<Rightarrow> Inl e
           | Inr s1 \<Rightarrow> apply_projection (Reconcile snapshot refreshed_at) s1))"

section \<open>One turn of the worker\<close>

text \<open>The state of a turn: the deliveries and what the projection port keeps.\<close>

type_synonym 'p worker_state = "delivery_row list \<times> 'p"

definition failure_retry :: "refresh_failure \<Rightarrow> (string \<times> datetime option) option" where
  "failure_retry failure =
     (case failure of
        Lease_Lost \<Rightarrow> None
      | Rate_Limited retry_at \<Rightarrow> Some (''github_rate_limited'', Some retry_at)
      | Api_Error \<Rightarrow> Some (''github_api_error'', None)
      | Reconciliation_Invalid \<Rightarrow> Some (''identity_conflict'', None)
      | Refresh_Failed \<Rightarrow> Some (''internal_error'', None))"

definition guard_lease :: "work_lease \<Rightarrow> datetime \<Rightarrow> 'p worker_state \<Rightarrow> bool \<times> 'p worker_state" where
  "guard_lease lease now s =
     (case delivery_renew lease now (dt_add now WORK_LEASE) (fst s) of (held, rows) \<Rightarrow> (held, (rows, snd s)))"

text \<open>
  The clock is read when work is leased (\<open>t0\<close>), when the guard runs (\<open>t1\<close>) and at the end
  (\<open>t2\<close>).  The port writes the projection only.
\<close>

definition process_webhook_work ::
    "(int \<Rightarrow> datetime \<Rightarrow> refresh_failure + 'snapshot)
     \<Rightarrow> ('snapshot projection \<Rightarrow> 'p \<Rightarrow> (refresh_failure \<times> 'p) + 'p)
     \<Rightarrow> string \<Rightarrow> datetime \<Rightarrow> datetime \<Rightarrow> datetime \<Rightarrow> 'p worker_state
     \<Rightarrow> webhook_error + bool \<times> 'p worker_state" where
  "process_webhook_work load port token t0 t1 t2 s =
     (case lease_github_webhook_work delivery_lease_next t0 token (fst s) of
        Inl e \<Rightarrow> Inl e
      | Inr (None, rows) \<Rightarrow> Inr (False, (rows, snd s))
      | Inr (Some lease, rows) \<Rightarrow>
          (case refresh_github_installation load (guard_lease lease t1)
              (\<lambda>action state. case port action (snd state) of
                 Inl (f, p) \<Rightarrow> Inl (f, (fst state, p)) | Inr p \<Rightarrow> Inr (fst state, p))
              lease t0 (rows, snd s) of
             Inr s1 \<Rightarrow>
               (case complete_github_webhook_work delivery_complete lease t2 (fst s1) of
                  Inl e \<Rightarrow> Inl e | Inr (done_ok, rows') \<Rightarrow> Inr (True, (rows', snd s1)))
           | Inl (failure, s1) \<Rightarrow>
               (case failure_retry failure of
                  None \<Rightarrow> Inr (True, s1)
                | Some (code, not_before) \<Rightarrow>
                    (case retry_github_webhook_work delivery_retry lease t2 code not_before (fst s1) of
                       Inl e \<Rightarrow> Inl e | Inr (ok, rows') \<Rightarrow> Inr (True, (rows', snd s1))))))"

section \<open>Receiving a delivery\<close>

datatype receive_answer = Http_Problem int string | Http_Accepted string

definition webhook_problem :: "webhook_error_code \<Rightarrow> receive_answer" where
  "webhook_problem code =
     (case code of
        Body_Too_Large \<Rightarrow> Http_Problem 413 ''webhook body is too large''
      | Invalid_Content_Type \<Rightarrow> Http_Problem 415 ''Content-Type must be application/json''
      | Invalid_Signature \<Rightarrow> Http_Problem 401 ''webhook signature is invalid''
      | Invalid_Delivery_Id \<Rightarrow> Http_Problem 400 ''invalid webhook: invalid_delivery_id''
      | Invalid_Event \<Rightarrow> Http_Problem 400 ''invalid webhook: invalid_event''
      | Invalid_Json \<Rightarrow> Http_Problem 400 ''invalid webhook: invalid_json'')"

definition receive_github_webhook ::
    "webhook_error + verified_webhook \<Rightarrow> datetime \<Rightarrow> delivery_row list
     \<Rightarrow> webhook_error + receive_answer \<times> delivery_row list" where
  "receive_github_webhook verification now rows =
     (case verification of
        Inl (GithubWebhookError code) \<Rightarrow> Inr (webhook_problem code, rows)
      | Inl e \<Rightarrow> Inl e
      | Inr verified \<Rightarrow>
          (case claim_github_webhook delivery_claim verified now rows of
             Inl e \<Rightarrow> Inl e
           | Inr (decision, rows') \<Rightarrow>
               Inr (case decision of
                      Webhook_Conflict \<Rightarrow> Http_Problem 409 ''webhook delivery conflict''
                    | Webhook_Replay \<Rightarrow> Http_Accepted ''replayed''
                    | Webhook_Acquired \<Rightarrow>
                        Http_Accepted (if vw_mutation_allowed verified then ''accepted'' else ''acknowledged''),
                    rows')))"

section \<open>Histories\<close>

datatype webhook_op =
    Op_Claim verified_webhook datetime
  | Op_Lease datetime string
  | Op_Complete work_lease datetime
  | Op_Renew work_lease datetime
  | Op_Retry work_lease datetime string "datetime option"

text \<open>The table after an operation, and the delivery whose work it completed.\<close>

fun webhook_step :: "webhook_op \<Rightarrow> delivery_row list \<Rightarrow> delivery_row list \<times> string option" where
  "webhook_step (Op_Claim webhook now) rows =
     (case claim_github_webhook delivery_claim webhook now rows of
        Inl e \<Rightarrow> (rows, None) | Inr (d, rows') \<Rightarrow> (rows', None))"
| "webhook_step (Op_Lease now token) rows =
     (case lease_github_webhook_work delivery_lease_next now token rows of
        Inl e \<Rightarrow> (rows, None) | Inr (l, rows') \<Rightarrow> (rows', None))"
| "webhook_step (Op_Complete lease now) rows =
     (case complete_github_webhook_work delivery_complete lease now rows of
        Inl e \<Rightarrow> (rows, None)
      | Inr (ok, rows') \<Rightarrow> (rows', if ok then Some (wl_delivery_id lease) else None))"
| "webhook_step (Op_Renew lease now) rows =
     (case renew_github_webhook_work delivery_renew lease now rows of
        Inl e \<Rightarrow> (rows, None) | Inr (ok, rows') \<Rightarrow> (rows', None))"
| "webhook_step (Op_Retry lease now code not_before) rows =
     (case retry_github_webhook_work delivery_retry lease now code not_before rows of
        Inl e \<Rightarrow> (rows, None) | Inr (ok, rows') \<Rightarrow> (rows', None))"

fun webhook_run :: "webhook_op list \<Rightarrow> delivery_row list \<Rightarrow> delivery_row list \<times> string list" where
  "webhook_run [] rows = (rows, [])"
| "webhook_run (op # ops) rows =
     (case webhook_step op rows of (rows1, ended) \<Rightarrow>
        (case webhook_run ops rows1 of (rows2, later) \<Rightarrow>
           (rows2, (case ended of None \<Rightarrow> later | Some d \<Rightarrow> d # later))))"

definition processed_ids :: "delivery_row list \<Rightarrow> string set" where
  "processed_ids rows = dr_delivery_id ` {r \<in> set rows. dr_status r = Processed}"

lemma processed_update:
  assumes "d \<in> processed_ids rows" "\<And>r. p r \<Longrightarrow> dr_delivery_id (f r) = dr_delivery_id r"
    "\<And>r. p r \<Longrightarrow> dr_status r = Processed \<Longrightarrow> dr_status (f r) = Processed"
  shows "d \<in> processed_ids (update_where p f rows)"
proof -
  obtain r where r: "r \<in> set rows" "dr_status r = Processed" "dr_delivery_id r = d"
    using assms(1) by (auto simp: processed_ids_def)
  then have "(if p r then f r else r) \<in> set (update_where p f rows)" by (simp add: set_update_where)
  moreover have "dr_status (if p r then f r else r) = Processed" "dr_delivery_id (if p r then f r else r) = d"
    using assms(2,3) r by auto
  ultimately show ?thesis unfolding processed_ids_def by blast
qed

lemma next_due_due: "next_due now rows = Some row \<Longrightarrow> row \<in> set rows \<and> delivery_due now row"
proof -
  assume "next_due now rows = Some row"
  then obtain rest where "sort_key delivery_order (filter (delivery_due now) rows) = row # rest"
    by (auto simp: next_due_def split: list.splits)
  then have "row \<in> set (sort_key delivery_order (filter (delivery_due now) rows))" by simp
  then show ?thesis by simp
qed

definition ids_distinct :: "delivery_row list \<Rightarrow> bool" where
  "ids_distinct rows \<longleftrightarrow> distinct (map dr_delivery_id rows)"

lemma ids_update:
  "(\<And>r. p r \<Longrightarrow> dr_delivery_id (f r) = dr_delivery_id r) \<Longrightarrow> ids_distinct (update_where p f rows) = ids_distinct rows"
  by (simp add: ids_distinct_def row_simps)

lemma delivery_complete_step:
  assumes "ids_distinct rows" "delivery_complete lease t rows = (True, rows')"
  shows "wl_delivery_id lease \<notin> processed_ids rows \<and> wl_delivery_id lease \<in> processed_ids rows'"
proof -
  have "0 < count_where (lease_current lease t) rows" using assms(2) by (simp add: delivery_complete_def)
  then obtain r where r: "r \<in> set rows" "lease_current lease t r" by (auto simp: count_where_pos)
  have id: "dr_delivery_id r = wl_delivery_id lease" "dr_status r = Received"
    using r(2) by (simp_all add: lease_current_def holds_lease_def)
  have "wl_delivery_id lease \<notin> processed_ids rows"
    using distinct_key_eq [OF assms(1) [unfolded ids_distinct_def] _ r(1)] id by (auto simp: processed_ids_def)
  moreover have "wl_delivery_id lease \<in> processed_ids rows'"
  proof -
    define f where "f = (\<lambda>r :: delivery_row. r\<lparr>dr_status := Processed, dr_processed_at := Some t, dr_lease_token := None,
        dr_lease_expires_at := None, dr_last_error_code := None\<rparr>)"
    have "rows' = update_where (lease_current lease t) f rows"
      using assms(2) by (simp add: delivery_complete_def f_def)
    then have "f r \<in> set rows'" using r by (auto simp: set_update_where image_iff intro!: bexI [of _ r])
    then show ?thesis using id unfolding processed_ids_def by (force simp: f_def)
  qed
  ultimately show ?thesis by blast
qed

lemma webhook_step_ok:
  assumes ok: "ids_distinct rows" and step: "webhook_step op rows = (rows', ended)"
  shows "ids_distinct rows' \<and> processed_ids rows \<subseteq> processed_ids rows' \<and>
    (\<forall>d. ended = Some d \<longrightarrow> d \<notin> processed_ids rows \<and> d \<in> processed_ids rows')"
proof (cases op)
  case (Op_Claim webhook now)
  have "ids_distinct (rows @ [new_delivery webhook t e]) \<and>
      processed_ids rows \<subseteq> processed_ids (rows @ [new_delivery webhook t e])"
    if "find (\<lambda>row. dr_delivery_id row = vw_delivery_id webhook) rows = None" for t e
    using that ok by (auto simp: ids_distinct_def new_delivery_def find_None_iff processed_ids_def)
  with step ok Op_Claim show ?thesis
    by (auto simp: claim_github_webhook_def delivery_claim_def Let_def
        split: sum.splits option.splits if_splits prod.splits)
next
  case (Op_Lease now token)
  with step ok show ?thesis
    by (auto simp: lease_github_webhook_work_def delivery_lease_next_def ids_update
        split: sum.splits option.splits if_splits prod.splits intro!: processed_update)
next
  case (Op_Complete lease now)
  show ?thesis
  proof (cases "webhook_aware now")
    case (Inr t)
    obtain ok' rows1 where c: "delivery_complete lease t rows = (ok', rows1)" by fastforce
    have "processed_ids rows \<subseteq> processed_ids rows1" "ids_distinct rows1"
      using c ok by (auto simp: delivery_complete_def ids_update intro!: processed_update)
    with step c Op_Complete Inr delivery_complete_step [OF ok, of lease t rows1] show ?thesis
      by (auto simp: complete_github_webhook_work_def split: if_splits)
  qed (use step ok Op_Complete in \<open>simp add: complete_github_webhook_work_def\<close>)
next
  case (Op_Renew lease now)
  with step ok show ?thesis
    by (auto simp: renew_github_webhook_work_def delivery_renew_def ids_update
        split: sum.splits intro!: processed_update)
next
  case (Op_Retry lease now code not_before)
  with step ok show ?thesis
    by (auto simp: retry_github_webhook_work_def delivery_retry_def ids_update holds_lease_def
        split: sum.splits if_splits intro!: processed_update)
qed

lemma webhook_run_ok:
  "ids_distinct rows \<Longrightarrow> webhook_run ops rows = (rows', ended) \<Longrightarrow>
   ids_distinct rows' \<and> processed_ids rows \<subseteq> processed_ids rows' \<and> distinct ended \<and>
   set ended \<inter> processed_ids rows = {} \<and> set ended \<subseteq> processed_ids rows'"
proof (induction ops arbitrary: rows ended)
  case (Cons op ops)
  obtain rows1 e where s: "webhook_step op rows = (rows1, e)" by fastforce
  obtain later where r: "webhook_run ops rows1 = (rows', later)" and e: "ended = (case e of None \<Rightarrow> later | Some d \<Rightarrow> d # later)"
    using Cons.prems(2) s by (auto split: prod.splits)
  from webhook_step_ok [OF Cons.prems(1) s] have s': "ids_distinct rows1" "processed_ids rows \<subseteq> processed_ids rows1"
    "\<forall>d. e = Some d \<longrightarrow> d \<notin> processed_ids rows \<and> d \<in> processed_ids rows1" by blast+
  from Cons.IH [OF s'(1) r] s'(2,3) show ?case unfolding e by (cases e) auto
qed (simp add: processed_ids_def)

text \<open>
  C30.  However claims, leases, renewals, retries and completions of any number of workers are
  interleaved, every delivery has one row, the work of a delivery completes at most once, and
  what has completed stays processed.
\<close>

theorem delivery_completed_once:
  "distinct (map dr_delivery_id (fst (webhook_run ops []))) \<and> distinct (snd (webhook_run ops [])) \<and>
   set (snd (webhook_run ops [])) \<subseteq> processed_ids (fst (webhook_run ops []))"
  using webhook_run_ok [of "[]" ops "fst (webhook_run ops [])" "snd (webhook_run ops [])"]
  by (simp add: ids_distinct_def)

section \<open>Superseded leases\<close>

lemma superseded_lease_fenced:
  assumes "ids_distinct rows" "delivery_lease_next now token e rows = (Some l, rows')"
    "wl_delivery_id old = wl_delivery_id l" "wl_lease_token old \<noteq> token"
  shows "delivery_complete old t rows' = (False, rows') \<and> delivery_renew old t e' rows' = (False, rows') \<and>
    delivery_retry old a t code terminal rows' = (False, rows')"
proof -
  have no: "\<not> holds_lease old r" if "r \<in> set rows'" for r
    using assms that
    by (auto simp: delivery_lease_next_def holds_lease_def set_update_where split: option.splits if_splits)
  then have "count_where (holds_lease old) rows' = 0" "count_where (lease_current old t) rows' = 0"
    by (auto simp: count_where_zero lease_current_def)
  then show ?thesis by (simp add: delivery_complete_def delivery_renew_def delivery_retry_def row_simps)
qed

section \<open>Backoff\<close>

lemma retry_delay_bounds: "30 \<le> retry_delay n \<and> retry_delay n \<le> 3600"
proof -
  have "1 \<le> (2 :: int) ^ nat (max 0 (n - 1))" by simp
  then show ?thesis
    unfolding retry_delay_def MAXIMUM_RETRY_SECONDS_def INITIAL_RETRY_SECONDS_def by linarith
qed

lemma retry_delay_doubles: "1 \<le> n \<Longrightarrow> n \<le> 7 \<Longrightarrow> retry_delay n = 30 * 2 ^ nat (n - 1)"
proof -
  assume n: "1 \<le> n" "n \<le> 7"
  then have "(2 :: int) ^ nat (n - 1) \<le> 2 ^ 6" by (intro power_increasing) auto
  with n show ?thesis by (simp add: retry_delay_def MAXIMUM_RETRY_SECONDS_def INITIAL_RETRY_SECONDS_def)
qed

text \<open>
  A failed attempt becomes available again between thirty seconds and an hour later, after
  twice the previous delay for the first seven attempts, never before the time GitHub asked for
  unless that is more than an hour away; the eighth attempt is the last one.
\<close>

theorem retry_backoff_bounds:
  assumes "retry_github_webhook_work (\<lambda>lease a t code terminal s. (terminal, a)) lease now code not_before s =
    Inr (terminal, available_at)"
  shows "dt_instant now + seconds 30 \<le> dt_instant available_at \<and>
    dt_instant available_at \<le> dt_instant now + seconds 3600 \<and>
    (case not_before of None \<Rightarrow> dt_instant available_at = dt_instant now + seconds (retry_delay (wl_attempt_count lease))
     | Some t \<Rightarrow> min (dt_instant t) (dt_instant now + seconds 3600) \<le> dt_instant available_at) \<and>
    (terminal \<longleftrightarrow> 8 \<le> wl_attempt_count lease)"
  using assms retry_delay_bounds [of "wl_attempt_count lease"]
  by (auto simp: retry_github_webhook_work_def retry_available_at_def webhook_aware_def Let_def dt_simps
      timedelta_defs MAXIMUM_RETRY_SECONDS_def MAXIMUM_WORK_ATTEMPTS_def split: if_splits sum.splits option.splits)

definition sample_lease :: "int \<Rightarrow> work_lease" where
  "sample_lease n = \<lparr>wl_delivery_id = sample_delivery, wl_installation_id = 1, wl_event = ''installation'',
     wl_action = codes_of ''created'', wl_lease_token = sample_delivery, wl_attempt_count = n\<rparr>"

theorem retry_backoff_bounds_witness:
  "\<exists>terminal a. retry_github_webhook_work (\<lambda>lease a t code terminal s. (terminal, a)) (sample_lease 3) (utc 0)
       ''internal_error'' (Some (utc (seconds 5000))) (utc 0) = Inr (terminal, a) \<and>
     dt_instant a = seconds 3600 \<and> \<not> terminal"
proof -
  have code: "machine_code ''internal_error''" by (simp add: machine_code_def is_lower_az_def)
  obtain terminal a where r: "retry_github_webhook_work (\<lambda>lease a t code terminal s. (terminal, a)) (sample_lease 3) (utc 0)
       ''internal_error'' (Some (utc (seconds 5000))) (utc 0) = Inr (terminal, a)"
    by (simp add: retry_github_webhook_work_def webhook_aware_def dt_simps code retry_available_at_def Let_def)
  have "dt_instant a = seconds 3600 \<and> \<not> terminal"
    using retry_backoff_bounds [OF r] by (simp add: dt_simps timedelta_defs sample_lease_def)
  with r show ?thesis by blast
qed

end
