(* ===== verification/Reconcile_Store.thy ===== *)
theory Reconcile_Store
  imports Membership_Refresh Webhook_Store Github_Api
begin

text \<open>
  The projection of GitHub's authority onto the database
  (\<^verbatim>\<open>repositories/github_reconciliation.py\<close>) and who drives it: the turn of the webhook worker
  and the six-hour repair run (\<^verbatim>\<open>infrastructure/github_reconciliation_scheduler.py\<close>).  Each operation
  of the repository is one transaction, hence one step: it answers with the tables it committed, or
  raises and has rolled back.  Pending changes reach the database before the next query (autoflush),
  so the unique indexes of the projects are checked after every item of a snapshot.
\<close>

section \<open>Tables\<close>

record installation_state = app_installation_row +
  ix_login :: string
  ix_account_type :: account_type
  ix_selection :: repo_selection
  ix_etag :: "string option"
  ix_cursor :: "string option"
  ix_reconciled_at :: "datetime option"
  ix_created_at :: datetime
  ix_updated_at :: datetime

record enabled_scope = scope_row +
  sp_enabled_at :: datetime

record tagged_project = upload_project +
  tp_tag :: string
  tp_local_path :: "string option"
  tp_created_at :: datetime

record recon_db =
  gd_installations :: "installation_state list"
  gd_scopes :: "enabled_scope list"
  gd_projects :: "tagged_project list"
  gd_next_project :: int
  gd_users :: "access_user list"
  gd_grants :: "grant_row list"

record recon_result =
  rr_installation_id :: int
  rr_enabled :: "int list"
  rr_disabled :: "int list"
  rr_removed :: "int list"
  rr_invalidated :: "int list"

datatype recon_exn =
    Recon_validation string
  | Recon_identity string
  | Recon_integrity
  | Recon_multiple_rows
  | Recon_value string

definition nothing_done :: "int \<Rightarrow> recon_result" where
  "nothing_done inst =
     \<lparr>rr_installation_id = inst, rr_enabled = [], rr_disabled = [], rr_removed = [], rr_invalidated = []\<rparr>"

definition sorted_set :: "int list \<Rightarrow> int list" where
  "sorted_set xs = sort (remdups xs)"

definition stale :: "datetime option \<Rightarrow> datetime \<Rightarrow> bool" where
  "stale reconciled_at candidate \<longleftrightarrow>
     (case reconciled_at of None \<Rightarrow> False | Some t \<Rightarrow> dt_less candidate t)"

definition installation_at :: "int \<Rightarrow> recon_db \<Rightarrow> installation_state option" where
  "installation_at inst d = find (\<lambda>i. il_installation_id i = inst) (gd_installations d)"

definition set_installation :: "int \<Rightarrow> (installation_state \<Rightarrow> installation_state) \<Rightarrow> recon_db \<Rightarrow> recon_db" where
  "set_installation inst f d =
     d\<lparr>gd_installations := update_where (\<lambda>i. il_installation_id i = inst) f (gd_installations d)\<rparr>"

section \<open>Ending authority\<close>

text \<open>
  Every user with a grant on one of the projects has to synchronise again, and the grants that
  would last longer end.
\<close>

definition touched_grant :: "int list \<Rightarrow> grant_row \<Rightarrow> bool" where
  "touched_grant projects g \<longleftrightarrow> mr_project_id g \<in> set projects \<and> mr_source g = ''github_app''"

definition lasts_beyond :: "datetime \<Rightarrow> grant_row \<Rightarrow> bool" where
  "lasts_beyond t g \<longleftrightarrow> (case mr_expires_at g of None \<Rightarrow> True | Some e \<Rightarrow> dt_less t e)"

definition expire_memberships :: "int list \<Rightarrow> datetime \<Rightarrow> recon_db \<Rightarrow> recon_db" where
  "expire_memberships projects expired_at d =
     (if projects = [] then d
      else d\<lparr>gd_users := update_where
               (\<lambda>u. list_ex (\<lambda>g. touched_grant projects g \<and> mr_user_id g = au_id u) (gd_grants d))
               (\<lambda>u. u\<lparr>au_synced_at := None\<rparr>) (gd_users d),
             gd_grants := update_where (\<lambda>g. touched_grant projects g \<and> lasts_beyond expired_at g)
               (\<lambda>g. g\<lparr>mr_expires_at := Some expired_at\<rparr>) (gd_grants d)\<rparr>)"

definition hide_projects :: "int list \<Rightarrow> recon_db \<Rightarrow> recon_db" where
  "hide_projects projects d =
     d\<lparr>gd_projects := update_where (\<lambda>p. pj_id p \<in> set projects) (\<lambda>p. p\<lparr>pj_hidden := True\<rparr>) (gd_projects d)\<rparr>"

definition bound_projects :: "enabled_scope list \<Rightarrow> int list" where
  "bound_projects rows = List.map_filter sp_project_id rows"

text \<open>The repositories of an installation that are not removed, all closed at once.\<close>

definition current_scope :: "int \<Rightarrow> enabled_scope \<Rightarrow> bool" where
  "current_scope inst s \<longleftrightarrow> sp_installation_id s = inst \<and> sp_removed_at s = None"

definition close_scopes ::
    "(enabled_scope \<Rightarrow> bool) \<Rightarrow> (enabled_scope \<Rightarrow> enabled_scope) \<Rightarrow> recon_db \<Rightarrow> recon_db" where
  "close_scopes which f d =
     hide_projects (bound_projects (filter which (gd_scopes d)))
       (d\<lparr>gd_scopes := update_where which f (gd_scopes d)\<rparr>)"

definition deactivate_rows :: "int \<Rightarrow> datetime \<Rightarrow> recon_db \<Rightarrow> recon_exn + recon_result \<times> recon_db" where
  "deactivate_rows inst deleted_at d =
     (case installation_at inst d of
        None \<Rightarrow> Inr (nothing_done inst, d)
      | Some i \<Rightarrow>
          if stale (ix_reconciled_at i) deleted_at then Inr (nothing_done inst, d)
          else
            (let d1 = set_installation inst (\<lambda>i. i\<lparr>il_deleted_at := Some deleted_at,
                   ix_reconciled_at := Some deleted_at, ix_updated_at := deleted_at\<rparr>) d;
                 rows = filter (current_scope inst) (gd_scopes d);
                 d2 = close_scopes (current_scope inst)
                   (\<lambda>s. s\<lparr>sp_disabled := True, sp_removed_at := Some deleted_at, sp_updated_at := deleted_at\<rparr>) d1;
                 removed = sort (map sp_repository_id rows)
             in Inr (\<lparr>rr_installation_id = inst, rr_enabled = [], rr_disabled = removed, rr_removed = removed,
                      rr_invalidated = sorted_set (bound_projects rows)\<rparr>,
                     expire_memberships (bound_projects rows) deleted_at d2)))"

definition suspend_rows ::
    "int \<Rightarrow> datetime \<Rightarrow> datetime \<Rightarrow> recon_db \<Rightarrow> recon_exn + recon_result \<times> recon_db" where
  "suspend_rows inst suspended_at verified_at d =
     (case installation_at inst d of
        None \<Rightarrow> Inl (Recon_validation ''suspended installation is not yet known and must be retried'')
      | Some i \<Rightarrow>
          if stale (ix_reconciled_at i) verified_at then Inr (nothing_done inst, d)
          else
            (let d1 = set_installation inst (\<lambda>i. i\<lparr>il_suspended_at := Some suspended_at,
                   ix_reconciled_at := Some verified_at, ix_updated_at := verified_at\<rparr>) d;
                 rows = filter (current_scope inst) (gd_scopes d);
                 d2 = close_scopes (current_scope inst)
                   (\<lambda>s. s\<lparr>sp_disabled := True, sp_updated_at := verified_at\<rparr>) d1
             in Inr (\<lparr>rr_installation_id = inst, rr_enabled = [],
                      rr_disabled = sort (map sp_repository_id rows), rr_removed = [],
                      rr_invalidated = sorted_set (bound_projects rows)\<rparr>,
                     expire_memberships (bound_projects rows) suspended_at d2)))"

section \<open>Replacing an installation's scope\<close>

definition only_row :: "'a list \<Rightarrow> recon_exn + 'a option" where
  "only_row rows = (case rows of [] \<Rightarrow> Inr None | [r] \<Rightarrow> Inr (Some r) | _ \<Rightarrow> Inl Recon_multiple_rows)"

definition repository_row :: "int \<Rightarrow> int \<Rightarrow> recon_db \<Rightarrow> recon_exn + enabled_scope option" where
  "repository_row inst repository_id d =
     result_then (only_row (filter (\<lambda>s. sp_repository_id s = repository_id) (gd_scopes d))) (\<lambda>found.
       case found of
         None \<Rightarrow> Inr None
       | Some s \<Rightarrow>
           if sp_installation_id s \<noteq> inst
           then Inl (Recon_validation ''repository belongs to another installation and requires audited rebind'')
           else Inr (Some s))"

definition repository_key :: "(string \<Rightarrow> bool) \<Rightarrow> string \<Rightarrow> recon_exn + string" where
  "repository_key netloc_ok name =
     (case normalize_github_repository_key netloc_ok name of Inl e \<Rightarrow> Inl (Recon_identity e) | Inr k \<Rightarrow> Inr k)"

text \<open>The unique indexes that a repository's project can run into.\<close>

definition project_indexes :: "tagged_project list \<Rightarrow> bool" where
  "project_indexes ps \<longleftrightarrow>
     distinct (map tp_tag ps) \<and> distinct (List.map_filter pj_repo_key ps) \<and>
     distinct (List.map_filter pj_repository_id ps)"

definition flush_projects :: "tagged_project list \<Rightarrow> recon_db \<Rightarrow> recon_exn + recon_db" where
  "flush_projects ps d = (if project_indexes ps then Inr (d\<lparr>gd_projects := ps\<rparr>) else Inl Recon_integrity)"

definition project_tag :: "int \<Rightarrow> string" where
  "project_tag repository_id = ''github-'' @ decimal_int repository_id"

definition new_project :: "int \<Rightarrow> int \<Rightarrow> string \<Rightarrow> string \<Rightarrow> datetime \<Rightarrow> tagged_project" where
  "new_project pid repository_id name key created_at =
     \<lparr>pj_id = pid, pj_repo = Some name, pj_repo_key = Some key, pj_repository_id = Some repository_id,
      pj_hidden = False, pj_local_run_counter = 0, up_lifecycle_state = ''active'', up_default_scan_ref = None,
      tp_tag = project_tag repository_id, tp_local_path = None, tp_created_at = created_at\<rparr>"

definition project_for ::
    "(string \<Rightarrow> bool) \<Rightarrow> int \<Rightarrow> string \<Rightarrow> datetime \<Rightarrow> recon_db \<Rightarrow> recon_exn + int \<times> recon_db" where
  "project_for netloc_ok repository_id name verified_at d =
     result_then (only_row (filter (\<lambda>p. pj_repository_id p = Some repository_id) (gd_projects d))) (\<lambda>found.
       case found of
         Some p \<Rightarrow> Inr (pj_id p, d)
       | None \<Rightarrow>
           if list_ex (\<lambda>p. tp_tag p = project_tag repository_id) (gd_projects d)
           then Inl (Recon_validation ''deterministic project tag is already assigned to another identity'')
           else result_then (repository_key netloc_ok name) (\<lambda>key.
             result_then (flush_projects
                 (gd_projects d @ [new_project (gd_next_project d) repository_id name key verified_at]) d) (\<lambda>d1.
               Inr (gd_next_project d, d1\<lparr>gd_next_project := gd_next_project d + 1\<rparr>))))"

definition inactive :: "installation_snapshot \<Rightarrow> repository_snapshot \<Rightarrow> bool" where
  "inactive snapshot r \<longleftrightarrow>
     is_suspended_at snapshot \<noteq> None \<or> is_deleted_at snapshot \<noteq> None \<or> rs_disabled r \<or>
     rs_owner_id r \<noteq> is_owner_id snapshot"

text \<open>What of a repository decides access, for the comparison of before and after.\<close>

definition access_state :: "enabled_scope \<Rightarrow> int \<times> bool \<times> bool \<times> bool" where
  "access_state s = (sp_owner_id s, sp_archived s, sp_disabled s, sp_removed_at s \<noteq> None)"

definition scope_of ::
    "installation_snapshot \<Rightarrow> repository_snapshot \<Rightarrow> int \<Rightarrow> datetime \<Rightarrow> enabled_scope option \<Rightarrow> enabled_scope" where
  "scope_of snapshot r project verified_at old =
     \<lparr>sp_installation_id = is_installation_id snapshot, sp_repository_id = rs_repository_id r,
      sp_project_id = Some project, sp_full_name = rs_full_name r, sp_owner_id = rs_owner_id r,
      sp_default_branch = rs_default_branch r, sp_visibility = rs_visibility r, sp_archived = rs_archived r,
      sp_disabled = inactive snapshot r, sp_verified_at = verified_at, sp_removed_at = None,
      sp_updated_at = verified_at,
      sp_enabled_at = (case old of None \<Rightarrow> verified_at | Some s \<Rightarrow> sp_enabled_at s)\<rparr>"

definition store_scope :: "enabled_scope \<Rightarrow> enabled_scope option \<Rightarrow> enabled_scope list \<Rightarrow> enabled_scope list" where
  "store_scope s old rows =
     (case old of
        None \<Rightarrow> rows @ [s]
      | Some _ \<Rightarrow> update_where (\<lambda>r. sp_repository_id r = sp_repository_id s) (\<lambda>_. s) rows)"

definition verified_project :: "repository_snapshot \<Rightarrow> string \<Rightarrow> bool \<Rightarrow> tagged_project \<Rightarrow> tagged_project" where
  "verified_project r key hidden p =
     p\<lparr>pj_repo := Some (rs_full_name r), pj_repo_key := Some key, up_lifecycle_state := ''active'',
       pj_hidden := hidden\<rparr>"

text \<open>The sets and lists that the loop collects.\<close>

type_synonym collected = "int list \<times> int list \<times> int list"

definition replace_item ::
    "(string \<Rightarrow> bool) \<Rightarrow> installation_snapshot \<Rightarrow> datetime \<Rightarrow> bool \<Rightarrow> repository_snapshot
     \<Rightarrow> recon_db \<Rightarrow> recon_exn + (recon_db \<times> int list)" where
  "replace_item netloc_ok snapshot verified_at installation_changed r d =
     result_then (repository_row (is_installation_id snapshot) (rs_repository_id r) d) (\<lambda>old.
     result_then (project_for netloc_ok (rs_repository_id r) (rs_full_name r) verified_at d) (\<lambda>(project, d1).
     result_then (repository_key netloc_ok (rs_full_name r)) (\<lambda>key.
       (let s = scope_of snapshot r project verified_at old in
        result_then (flush_projects (update_where (\<lambda>p. pj_id p = project)
            (verified_project r key (inactive snapshot r)) (gd_projects d1)) d1) (\<lambda>d2.
          Inr (d2\<lparr>gd_scopes := store_scope s old (gd_scopes d2)\<rparr>,
               if installation_changed \<or> map_option access_state old \<noteq> Some (access_state s) then [project] else []))))))"

fun replace_items ::
    "(string \<Rightarrow> bool) \<Rightarrow> installation_snapshot \<Rightarrow> datetime \<Rightarrow> bool \<Rightarrow> repository_snapshot list
     \<Rightarrow> recon_db \<Rightarrow> recon_exn + (recon_db \<times> int list)" where
  "replace_items netloc_ok snapshot verified_at installation_changed [] d = Inr (d, [])"
| "replace_items netloc_ok snapshot verified_at installation_changed (r # rs) d =
     result_then (replace_item netloc_ok snapshot verified_at installation_changed r d) (\<lambda>(d1, touched).
     result_then (replace_items netloc_ok snapshot verified_at installation_changed rs d1) (\<lambda>(d2, more).
       Inr (d2, touched @ more)))"

definition installation_of :: "installation_snapshot \<Rightarrow> datetime \<Rightarrow> datetime \<Rightarrow> installation_state" where
  "installation_of snapshot created_at verified_at =
     \<lparr>il_installation_id = is_installation_id snapshot, il_owner_id = is_owner_id snapshot,
      il_suspended_at = is_suspended_at snapshot, il_deleted_at = is_deleted_at snapshot,
      ix_login = is_owner_login snapshot, ix_account_type = is_account_type snapshot,
      ix_selection = is_selection snapshot, ix_etag = is_etag snapshot, ix_cursor = is_cursor snapshot,
      ix_reconciled_at = Some verified_at, ix_created_at = created_at, ix_updated_at = verified_at\<rparr>"

definition installation_access_state :: "installation_state \<Rightarrow> repo_selection \<times> int option \<times> int option" where
  "installation_access_state i =
     (ix_selection i, map_option dt_instant (il_suspended_at i), map_option dt_instant (il_deleted_at i))"

definition store_installation :: "installation_snapshot \<Rightarrow> datetime \<Rightarrow> recon_db \<Rightarrow> recon_db" where
  "store_installation snapshot verified_at d =
     (case installation_at (is_installation_id snapshot) d of
        None \<Rightarrow> d\<lparr>gd_installations := gd_installations d @ [installation_of snapshot verified_at verified_at]\<rparr>
      | Some i \<Rightarrow>
          set_installation (is_installation_id snapshot)
            (\<lambda>i. installation_of snapshot (ix_created_at i) verified_at) d)"

text \<open>A repository of the installation that the snapshot no longer has.\<close>

definition vanished :: "installation_snapshot \<Rightarrow> enabled_scope \<Rightarrow> bool" where
  "vanished snapshot s \<longleftrightarrow>
     current_scope (is_installation_id snapshot) s \<and> sp_repository_id s \<notin> rs_repository_id ` set (is_repositories snapshot)"

definition replace_rows ::
    "(string \<Rightarrow> bool) \<Rightarrow> installation_snapshot \<Rightarrow> datetime \<Rightarrow> recon_db \<Rightarrow> recon_exn + recon_result \<times> recon_db" where
  "replace_rows netloc_ok snapshot verified_at d =
     (let found = installation_at (is_installation_id snapshot) d in
      if (case found of None \<Rightarrow> False | Some i \<Rightarrow> stale (ix_reconciled_at i) verified_at)
      then Inr (nothing_done (is_installation_id snapshot), d)
      else if (case found of None \<Rightarrow> False | Some i \<Rightarrow> il_owner_id i \<noteq> is_owner_id snapshot)
      then Inl (Recon_validation ''installation owner identity changed and requires audited rebind'')
      else
        (let d0 = store_installation snapshot verified_at d;
             changed = (case found of None \<Rightarrow> True | Some i \<Rightarrow>
               installation_access_state i \<noteq>
                 installation_access_state (installation_of snapshot verified_at verified_at));
             gone = filter (vanished snapshot) (gd_scopes d);
             closed = filter (\<lambda>r. inactive snapshot r \<or> rs_archived r) (is_repositories snapshot)
         in result_then (replace_items netloc_ok snapshot verified_at changed (is_repositories snapshot) d0)
           (\<lambda>(d1, touched).
              let invalidated = touched @ bound_projects gone;
                  d2 = close_scopes (vanished snapshot)
                    (\<lambda>s. s\<lparr>sp_removed_at := Some verified_at, sp_disabled := True, sp_updated_at := verified_at\<rparr>) d1
              in Inr (\<lparr>rr_installation_id = is_installation_id snapshot,
                       rr_enabled = sort (map rs_repository_id
                         (filter (\<lambda>r. \<not> (inactive snapshot r \<or> rs_archived r)) (is_repositories snapshot))),
                       rr_disabled = sort (map rs_repository_id closed),
                       rr_removed = sort (map sp_repository_id gone),
                       rr_invalidated = sorted_set invalidated\<rparr>,
                      expire_memberships invalidated verified_at d2))))"

section \<open>The cache for conditional requests, and the cursor\<close>

definition cached_snapshot :: "enabled_scope \<Rightarrow> repository_snapshot" where
  "cached_snapshot s =
     \<lparr>rs_repository_id = sp_repository_id s, rs_owner_id = sp_owner_id s, rs_full_name = sp_full_name s,
      rs_default_branch = sp_default_branch s, rs_visibility = sp_visibility s, rs_archived = sp_archived s,
      rs_disabled = sp_disabled s\<rparr>"

definition load_repository_cache :: "int \<Rightarrow> recon_db \<Rightarrow> string option \<times> repository_snapshot list" where
  "load_repository_cache inst d =
     (case installation_at inst d of
        None \<Rightarrow> (None, [])
      | Some i \<Rightarrow>
          (if il_suspended_at i = None \<and> il_deleted_at i = None then ix_etag i else None,
           map cached_snapshot (sort_key sp_repository_id (filter (current_scope inst) (gd_scopes d)))))"

definition cursor_ok :: "string \<Rightarrow> bool" where
  "cursor_ok cursor \<longleftrightarrow>
     cursor = ''complete'' \<or> prefix ''page:'' cursor \<and> drop 5 cursor \<noteq> [] \<and> list_all digit_char (drop 5 cursor)"

definition cursor_row :: "int \<Rightarrow> datetime \<Rightarrow> installation_state \<Rightarrow> bool" where
  "cursor_row inst checked_at i \<longleftrightarrow>
     il_installation_id i = inst \<and> il_deleted_at i = None \<and>
     (case ix_reconciled_at i of None \<Rightarrow> True | Some t \<Rightarrow> dt_le t checked_at)"

definition record_reconciliation_cursor ::
    "int \<Rightarrow> string \<Rightarrow> datetime \<Rightarrow> recon_db \<Rightarrow> recon_exn + bool \<times> recon_db" where
  "record_reconciliation_cursor inst cursor checked_at d =
     (if \<not> cursor_ok cursor then Inl (Recon_value ''GitHub reconciliation cursor is invalid'')
      else if \<not> aware checked_at
      then Inl (Recon_value ''GitHub reconciliation cursor timestamp must be timezone-aware'')
      else Inr (count_where (cursor_row inst checked_at) (gd_installations d) = 1,
                d\<lparr>gd_installations := update_where (cursor_row inst checked_at)
                    (\<lambda>i. i\<lparr>ix_cursor := Some cursor\<rparr>) (gd_installations d)\<rparr>))"

section \<open>Changes of authority\<close>

text \<open>
  The three operations behind their checks (\<^verbatim>\<open>modules/atomic/access/github_repository_reconciliation\<close>).
\<close>

datatype authority_change =
    Deactivate_Installation int datetime
  | Suspend_Installation int datetime datetime
  | Replace_Scope installation_snapshot datetime

definition checked :: "reconciliation_error + (recon_exn + 'a) \<Rightarrow> recon_exn + 'a" where
  "checked x = (case x of Inl (ReconciliationValidationError m) \<Rightarrow> Inl (Recon_validation m) | Inr y \<Rightarrow> y)"

definition apply_change ::
    "(string \<Rightarrow> bool) \<Rightarrow> authority_change \<Rightarrow> recon_db \<Rightarrow> recon_exn + recon_result \<times> recon_db" where
  "apply_change netloc_ok change d =
     (case change of
        Deactivate_Installation inst t \<Rightarrow>
          checked (deactivate_github_installation (\<lambda>i t. deactivate_rows i t d) inst t)
      | Suspend_Installation inst suspended_at verified_at \<Rightarrow>
          checked (suspend_github_installation (\<lambda>i s v. suspend_rows i s v d) inst suspended_at (Some verified_at))
      | Replace_Scope snapshot t \<Rightarrow>
          checked (reconcile_github_repositories (\<lambda>s v. replace_rows netloc_ok s v d) snapshot t))"

text \<open>The port of the webhook worker.\<close>

definition change_of :: "installation_snapshot projection \<Rightarrow> authority_change" where
  "change_of action =
     (case action of
        Deactivate inst t \<Rightarrow> Deactivate_Installation inst t
      | Suspend inst t \<Rightarrow> Suspend_Installation inst t t
      | Reconcile snapshot t \<Rightarrow> Replace_Scope snapshot t)"

definition reconciliation_port ::
    "(string \<Rightarrow> bool) \<Rightarrow> installation_snapshot projection \<Rightarrow> recon_db \<Rightarrow> (refresh_failure \<times> recon_db) + recon_db" where
  "reconciliation_port netloc_ok action d =
     (case apply_change netloc_ok (change_of action) d of
        Inl (Recon_validation _) \<Rightarrow> Inl (Reconciliation_Invalid, d)
      | Inl _ \<Rightarrow> Inl (Refresh_Failed, d)
      | Inr (_, d') \<Rightarrow> Inr d')"

definition webhook_turn ::
    "(string \<Rightarrow> bool) \<Rightarrow> (int \<Rightarrow> datetime \<Rightarrow> refresh_failure + installation_snapshot) \<Rightarrow> string
     \<Rightarrow> datetime \<Rightarrow> datetime \<Rightarrow> datetime \<Rightarrow> recon_db worker_state \<Rightarrow> webhook_error + bool \<times> recon_db worker_state" where
  "webhook_turn netloc_ok load = process_webhook_work load (reconciliation_port netloc_ok)"

section \<open>The repair run\<close>

definition REPAIR_INTERVAL :: timedelta where "REPAIR_INTERVAL = hours 6"

text \<open>
  The loader reads the cache, then the client fetches; every page it finishes is recorded by a
  transaction of its own.  The state of the world is the tables and the network.
\<close>

type_synonym 'n world = "recon_db \<times> 'n"

definition over_network :: "'n transport \<Rightarrow> 'n world transport" where
  "over_network http r w = (case http r (snd w) of (answer, n) \<Rightarrow> (answer, (fst w, n)))"

definition persist_cursor :: "int \<Rightarrow> datetime \<Rightarrow> string \<Rightarrow> 'n world \<Rightarrow> bool \<times> 'n world" where
  "persist_cursor inst checked_at cursor w =
     (case record_reconciliation_cursor inst cursor checked_at (fst w) of
        Inl _ \<Rightarrow> (False, w) | Inr (_, d) \<Rightarrow> (True, (d, snd w)))"

definition run_api :: "('w, 'a) api_op \<Rightarrow> 'w \<Rightarrow> (api_error raised + 'a) \<times> 'w" where
  "run_api m w = (case m \<lparr>ap_log = [], ap_cursors = [], ap_transport = w\<rparr> of (r, s) \<Rightarrow> (r, ap_transport s))"

definition load_installation ::
    "api_env \<Rightarrow> 'n transport \<Rightarrow> int \<Rightarrow> datetime \<Rightarrow> 'n world \<Rightarrow> (api_error raised + installation_snapshot) \<times> 'n world" where
  "load_installation env http inst checked_at w =
     (case load_repository_cache inst (fst w) of (etag, cached) \<Rightarrow>
        run_api (fetch_authoritative_installation_tracked (env\<lparr>aq_now := checked_at\<rparr>) (over_network http) inst etag
          (if etag = None then None else Some cached) (persist_cursor inst checked_at)) w)"

definition load_states ::
    "api_env \<Rightarrow> 'n transport \<Rightarrow> datetime \<Rightarrow> 'n world \<Rightarrow> (api_error raised + (int \<times> datetime option) list) \<times> 'n world" where
  "load_states env http checked_at =
     run_api (fetch_github_app_installation_states (env\<lparr>aq_now := checked_at\<rparr>) (over_network http))"

definition due_installation :: "datetime \<Rightarrow> installation_state \<Rightarrow> bool" where
  "due_installation cutoff i \<longleftrightarrow>
     il_deleted_at i = None \<and> (case ix_reconciled_at i of None \<Rightarrow> True | Some t \<Rightarrow> dt_le t cutoff)"

definition due_ids :: "datetime \<Rightarrow> recon_db \<Rightarrow> int list" where
  "due_ids cutoff d = sort (map il_installation_id (filter (due_installation cutoff) (gd_installations d)))"

record repair_result =
  rp_due :: nat
  rp_refreshed :: nat
  rp_suspended :: nat
  rp_deleted :: nat
  rp_failed :: nat

text \<open>How one installation's repair ended; \<open>Repair_Raised\<close> is an exception that the run does not expect.\<close>

datatype repair_outcome = Repair_Refreshed | Repair_Suspended | Repair_Deleted | Repair_Failed | Repair_Limited | Repair_Raised

definition settle_change :: "repair_outcome \<Rightarrow> authority_change \<Rightarrow> (string \<Rightarrow> bool) \<Rightarrow> 'n world \<Rightarrow> repair_outcome \<times> 'n world" where
  "settle_change outcome change netloc_ok w =
     (case apply_change netloc_ok change (fst w) of
        Inl (Recon_validation _) \<Rightarrow> (Repair_Failed, w)
      | Inl _ \<Rightarrow> (Repair_Raised, w)
      | Inr (_, d) \<Rightarrow> (outcome, (d, snd w)))"

definition api_outcome :: "api_error raised \<Rightarrow> repair_outcome" where
  "api_outcome e =
     (case e of Raised (Rate_limited _) \<Rightarrow> Repair_Limited | Raised (Api_error _) \<Rightarrow> Repair_Failed | _ \<Rightarrow> Repair_Raised)"

definition repair_installation ::
    "api_env \<Rightarrow> 'n transport \<Rightarrow> datetime \<Rightarrow> (int \<rightharpoonup> datetime option) \<Rightarrow> int \<Rightarrow> 'n world \<Rightarrow> repair_outcome \<times> 'n world" where
  "repair_installation env http checked_at states inst w =
     (case states inst of
        None \<Rightarrow> settle_change Repair_Deleted (Deactivate_Installation inst checked_at) (aq_netloc_ok env) w
      | Some (Some suspended_at) \<Rightarrow>
          settle_change Repair_Suspended (Suspend_Installation inst suspended_at checked_at) (aq_netloc_ok env) w
      | Some None \<Rightarrow>
          (case load_installation env http inst checked_at w of
             (Inl e, w') \<Rightarrow> (api_outcome e, w')
           | (Inr snapshot, w') \<Rightarrow>
               settle_change Repair_Refreshed (Replace_Scope snapshot checked_at) (aq_netloc_ok env) w'))"

text \<open>The outcomes in the order of the run, up to the first that ends it.\<close>

fun repair_each ::
    "(int \<Rightarrow> 'w \<Rightarrow> repair_outcome \<times> 'w) \<Rightarrow> int list \<Rightarrow> 'w \<Rightarrow> repair_outcome list \<times> 'w" where
  "repair_each repair [] w = ([], w)"
| "repair_each repair (inst # rest) w =
     (case repair inst w of (outcome, w') \<Rightarrow>
        if outcome \<in> {Repair_Limited, Repair_Raised} then ([outcome], w')
        else (case repair_each repair rest w' of (outcomes, w'') \<Rightarrow> (outcome # outcomes, w'')))"

definition repair_counts :: "nat \<Rightarrow> repair_outcome list \<Rightarrow> repair_result" where
  "repair_counts due outcomes =
     \<lparr>rp_due = due, rp_refreshed = count_list outcomes Repair_Refreshed,
      rp_suspended = count_list outcomes Repair_Suspended, rp_deleted = count_list outcomes Repair_Deleted,
      rp_failed = count_list outcomes Repair_Failed + count_list outcomes Repair_Limited\<rparr>"

definition reconcile_due_installations ::
    "api_env \<Rightarrow> 'n transport \<Rightarrow> datetime \<Rightarrow> 'n world \<Rightarrow> repair_result option \<times> 'n world" where
  "reconcile_due_installations env http checked_at w =
     (let due = due_ids (dt_add checked_at (- REPAIR_INTERVAL)) (fst w) in
      if due = [] then (Some (repair_counts 0 []), w)
      else (case load_states env http checked_at w of
        (Inl _, w') \<Rightarrow> (None, w')
      | (Inr states, w') \<Rightarrow>
          (case repair_each (repair_installation env http checked_at (map_of (rev states))) due w' of
             (outcomes, w'') \<Rightarrow>
               (if Repair_Raised \<in> set outcomes then None else Some (repair_counts (length due) outcomes), w''))))"

section \<open>Sound tables\<close>

definition closed_scope :: "enabled_scope \<Rightarrow> bool" where
  "closed_scope s \<longleftrightarrow> sp_disabled s \<or> sp_removed_at s \<noteq> None"

text \<open>
  Keys are unique; a bound project exists and is the project of that repository; and the project of
  a closed repository is hidden.
\<close>

definition scope_sound :: "tagged_project list \<Rightarrow> enabled_scope \<Rightarrow> bool" where
  "scope_sound ps s \<longleftrightarrow>
     (\<forall>pid. sp_project_id s = Some pid \<longrightarrow>
        (\<exists>p \<in> set ps. pj_id p = pid \<and> pj_repository_id p = Some (sp_repository_id s) \<and>
           (closed_scope s \<longrightarrow> pj_hidden p)))"

definition recon_ok :: "recon_db \<Rightarrow> bool" where
  "recon_ok d \<longleftrightarrow>
     distinct (map il_installation_id (gd_installations d)) \<and>
     distinct (map sp_repository_id (gd_scopes d)) \<and>
     distinct (map pj_id (gd_projects d)) \<and> list_all (\<lambda>p. pj_id p < gd_next_project d) (gd_projects d) \<and>
     project_indexes (gd_projects d) \<and> list_all (scope_sound (gd_projects d)) (gd_scopes d)"

lemma recon_okI:
  assumes "distinct (map il_installation_id (gd_installations d))" "distinct (map sp_repository_id (gd_scopes d))"
    "distinct (map pj_id (gd_projects d))" "list_all (\<lambda>p. pj_id p < gd_next_project d) (gd_projects d)"
    "project_indexes (gd_projects d)" "list_all (scope_sound (gd_projects d)) (gd_scopes d)"
  shows "recon_ok d"
  using assms by (simp add: recon_ok_def)

lemma bound_project:
  assumes "recon_ok d" "s \<in> set (gd_scopes d)" "sp_project_id s = Some pid"
  obtains p where "p \<in> set (gd_projects d)" "pj_id p = pid" "pj_repository_id p = Some (sp_repository_id s)"
    "closed_scope s \<longrightarrow> pj_hidden p"
proof -
  have "scope_sound (gd_projects d) s" using assms(1,2) by (simp add: recon_ok_def list_all_iff)
  with assms(3) that show thesis unfolding scope_sound_def by blast
qed

lemma map_filter_cons [simp]:
  "List.map_filter f (x # xs) = (case f x of None \<Rightarrow> List.map_filter f xs | Some y \<Rightarrow> y # List.map_filter f xs)"
  by (simp add: map_filter_simps)

lemma map_filter_nil [simp]: "List.map_filter f [] = []"
  by (simp add: map_filter_simps)

lemma map_filter_member: "y \<in> set (List.map_filter f xs) \<longleftrightarrow> (\<exists>x \<in> set xs. f x = Some y)"
  by (induction xs) (auto split: option.splits)

lemma map_filter_unique:
  "distinct (List.map_filter f xs) \<Longrightarrow> a \<in> set xs \<Longrightarrow> b \<in> set xs \<Longrightarrow> f a = Some y \<Longrightarrow> f b = Some y \<Longrightarrow> a = b"
  by (induction xs) (auto simp: map_filter_member split: option.splits)

lemma map_filter_update:
  "(\<And>x. p x \<Longrightarrow> f (g x) = f x) \<Longrightarrow> List.map_filter f (update_where p g xs) = List.map_filter f xs"
  by (induction xs) (auto simp: update_where_def split: option.split)

lemma bound_member: "pid \<in> set (bound_projects rows) \<longleftrightarrow> (\<exists>s \<in> set rows. sp_project_id s = Some pid)"
  by (simp add: bound_projects_def map_filter_member)

lemma list_all_update_where: "list_all q (update_where p f rows) = list_all (\<lambda>r. q (if p r then f r else r)) rows"
  by (simp add: update_where_def list.pred_map comp_def)

subsection \<open>The single changes\<close>

lemma set_installation_ok:
  assumes "recon_ok d" "\<And>i. il_installation_id i = inst \<Longrightarrow> il_installation_id (f i) = inst"
  shows "recon_ok (set_installation inst f d)"
proof -
  have "map il_installation_id (update_where (\<lambda>i. il_installation_id i = inst) f (gd_installations d)) =
      map il_installation_id (gd_installations d)"
    by (rule map_key_update_where) (simp add: assms(2))
  then show ?thesis using assms(1) by (simp add: recon_ok_def set_installation_def)
qed

lemma expire_memberships_ok: "recon_ok (expire_memberships projects t d) \<longleftrightarrow> recon_ok d"
  by (simp add: expire_memberships_def recon_ok_def)

lemma hide_indexes: "project_indexes (gd_projects (hide_projects projects d)) = project_indexes (gd_projects d)"
  by (simp add: project_indexes_def hide_projects_def map_filter_update map_key_update_where)

lemma close_scopes_ok:
  assumes "recon_ok d"
    and f: "\<And>s. sp_repository_id (f s) = sp_repository_id s" "\<And>s. sp_project_id (f s) = sp_project_id s"
  shows "recon_ok (close_scopes which f d)"
proof (rule recon_okI)
  let ?hidden = "bound_projects (filter which (gd_scopes d))"
  let ?ps = "update_where (\<lambda>p. pj_id p \<in> set ?hidden) (\<lambda>p. p\<lparr>pj_hidden := True\<rparr>) (gd_projects d)"
  have ps: "gd_projects (close_scopes which f d) = ?ps" by (simp add: close_scopes_def hide_projects_def)
  have scopes: "gd_scopes (close_scopes which f d) = update_where which f (gd_scopes d)"
    by (simp add: close_scopes_def hide_projects_def)
  have "scope_sound ?ps (if which s then f s else s)" if s: "s \<in> set (gd_scopes d)" for s
    unfolding scope_sound_def
  proof (intro allI impI)
    fix pid
    assume "sp_project_id (if which s then f s else s) = Some pid"
    then have pid: "sp_project_id s = Some pid" using f(2) by (simp split: if_splits)
    obtain p where p: "p \<in> set (gd_projects d)" "pj_id p = pid"
      "pj_repository_id p = Some (sp_repository_id s)" "closed_scope s \<longrightarrow> pj_hidden p"
      by (rule bound_project [OF assms(1) s pid])
    let ?q = "if pj_id p \<in> set ?hidden then p\<lparr>pj_hidden := True\<rparr> else p"
    have "?q \<in> set ?ps" using p(1) by (auto simp: set_update_where)
    moreover have "pid \<in> set ?hidden" if "which s" using that s pid by (auto simp: bound_member)
    ultimately show "\<exists>p \<in> set ?ps. pj_id p = pid \<and>
        pj_repository_id p = Some (sp_repository_id (if which s then f s else s)) \<and>
        (closed_scope (if which s then f s else s) \<longrightarrow> pj_hidden p)"
      using p f(1) by (intro bexI [of _ ?q]) auto
  qed
  then show "list_all (scope_sound (gd_projects (close_scopes which f d))) (gd_scopes (close_scopes which f d))"
    unfolding ps scopes list_all_update_where by (simp add: list_all_iff del: if_split)
  show "project_indexes (gd_projects (close_scopes which f d))"
    using assms(1) by (simp add: close_scopes_def hide_indexes recon_ok_def)
  show "distinct (map sp_repository_id (gd_scopes (close_scopes which f d)))"
    using assms(1) f(1) by (simp add: scopes map_key_update_where recon_ok_def)
  show "distinct (map pj_id (gd_projects (close_scopes which f d)))"
    using assms(1) by (simp add: ps map_key_update_where recon_ok_def)
  show "list_all (\<lambda>p. pj_id p < gd_next_project (close_scopes which f d)) (gd_projects (close_scopes which f d))"
    unfolding ps using assms(1)
    by (auto simp: list_all_iff set_update_where recon_ok_def close_scopes_def hide_projects_def)
qed (use assms(1) in \<open>simp add: close_scopes_def hide_projects_def recon_ok_def\<close>)

lemma only_row_Inr:
  "only_row rows = Inr None \<longleftrightarrow> rows = []" "only_row rows = Inr (Some r) \<longleftrightarrow> rows = [r]"
  by (simp_all add: only_row_def split: list.split)

lemma project_for_ok:
  assumes "recon_ok d" "project_for netloc_ok rid name verified_at d = Inr (pid, d1)"
  shows "recon_ok d1 \<and> gd_scopes d1 = gd_scopes d \<and> gd_installations d1 = gd_installations d \<and>
     gd_grants d1 = gd_grants d \<and> gd_users d1 = gd_users d \<and> set (gd_projects d) \<subseteq> set (gd_projects d1) \<and>
     (\<exists>p \<in> set (gd_projects d1). pj_id p = pid \<and> pj_repository_id p = Some rid)"
proof -
  let ?mine = "filter (\<lambda>p. pj_repository_id p = Some rid) (gd_projects d)"
  from assms(2) obtain hit where hit: "only_row ?mine = Inr hit"
    and rest: "(case hit of Some p \<Rightarrow> Inr (pj_id p, d)
       | None \<Rightarrow>
           if list_ex (\<lambda>p. tp_tag p = project_tag rid) (gd_projects d)
           then Inl (Recon_validation ''deterministic project tag is already assigned to another identity'')
           else result_then (repository_key netloc_ok name) (\<lambda>key.
             result_then (flush_projects
                 (gd_projects d @ [new_project (gd_next_project d) rid name key verified_at]) d) (\<lambda>d1.
               Inr (gd_next_project d, d1\<lparr>gd_next_project := gd_next_project d + 1\<rparr>)))) = Inr (pid, d1)"
    unfolding project_for_def result_then_ok by blast
  show ?thesis
  proof (cases hit)
    case (Some p)
    with hit have "?mine = [p]" by (simp add: only_row_Inr)
    then have "p \<in> set (gd_projects d) \<and> pj_repository_id p = Some rid"
      by (auto simp: filter_eq_Cons_iff)
    moreover have "pid = pj_id p" "d1 = d" using rest Some by simp_all
    ultimately show ?thesis using assms(1) by auto
  next
    case None
    with rest obtain key where indexes:
        "project_indexes (gd_projects d @ [new_project (gd_next_project d) rid name key verified_at])"
      and pid: "pid = gd_next_project d"
      and d1: "d1 = d\<lparr>gd_projects := gd_projects d @ [new_project (gd_next_project d) rid name key verified_at],
                gd_next_project := gd_next_project d + 1\<rparr>"
      by (auto simp: result_then_ok flush_projects_def split: if_split_asm)
    have sound: "scope_sound (gd_projects d @ [q]) s" if "scope_sound (gd_projects d) s" for q s
      using that unfolding scope_sound_def by (simp add: bex_Un)
    have below: "\<forall>p \<in> set (gd_projects d). pj_id p < gd_next_project d"
      using assms(1) by (simp add: recon_ok_def list_all_iff)
    then have "gd_next_project d \<notin> pj_id ` set (gd_projects d)" by force
    moreover have "\<forall>p \<in> set (gd_projects d). pj_id p < gd_next_project d + 1" using below by force
    ultimately have "recon_ok d1"
      using indexes assms(1) by (simp add: d1 recon_ok_def list_all_iff new_project_def sound)
    then show ?thesis by (auto simp: d1 pid new_project_def)
  qed
qed

lemma repository_row_Inr:
  assumes "repository_row inst rid d = Inr old"
  shows "case old of None \<Rightarrow> rid \<notin> sp_repository_id ` set (gd_scopes d)
    | Some s \<Rightarrow> s \<in> set (gd_scopes d) \<and> sp_repository_id s = rid \<and> sp_installation_id s = inst"
proof -
  from assms obtain hit where hit: "only_row (filter (\<lambda>s. sp_repository_id s = rid) (gd_scopes d)) = Inr hit"
    and rest: "(case hit of None \<Rightarrow> Inr None
       | Some s \<Rightarrow>
           if sp_installation_id s \<noteq> inst
           then Inl (Recon_validation ''repository belongs to another installation and requires audited rebind'')
           else Inr (Some s)) = Inr old"
    unfolding repository_row_def result_then_ok by blast
  show ?thesis
    using hit rest
    by (cases hit) (auto simp: only_row_Inr filter_empty_conv filter_eq_Cons_iff split: if_split_asm)
qed

text \<open>What one item of a snapshot does.\<close>

lemma replace_item_Inr:
  assumes "replace_item netloc_ok snapshot verified_at changed r d = Inr (d', touched)"
  obtains old pid d1 key where
    "repository_row (is_installation_id snapshot) (rs_repository_id r) d = Inr old"
    "project_for netloc_ok (rs_repository_id r) (rs_full_name r) verified_at d = Inr (pid, d1)"
    "repository_key netloc_ok (rs_full_name r) = Inr key"
    "project_indexes (update_where (\<lambda>p. pj_id p = pid) (verified_project r key (inactive snapshot r)) (gd_projects d1))"
    "d' = d1\<lparr>gd_projects := update_where (\<lambda>p. pj_id p = pid) (verified_project r key (inactive snapshot r)) (gd_projects d1),
             gd_scopes := store_scope (scope_of snapshot r pid verified_at old) old (gd_scopes d1)\<rparr>"
    "touched = (if changed \<or> map_option access_state old \<noteq> Some (access_state (scope_of snapshot r pid verified_at old))
       then [pid] else [])"
  using assms
  by (auto simp: replace_item_def result_then_ok flush_projects_def Let_def split: if_split_asm) 

lemma replace_item_ok:
  assumes ok: "recon_ok d" and item: "replace_item netloc_ok snapshot verified_at changed r d = Inr (d', touched)"
  shows "recon_ok d'"
proof -
  from item obtain old pid d1 key where
    old: "repository_row (is_installation_id snapshot) (rs_repository_id r) d = Inr old"
    and project: "project_for netloc_ok (rs_repository_id r) (rs_full_name r) verified_at d = Inr (pid, d1)"
    and indexes: "project_indexes (update_where (\<lambda>p. pj_id p = pid)
      (verified_project r key (inactive snapshot r)) (gd_projects d1))"
    and d': "d' = d1\<lparr>gd_projects := update_where (\<lambda>p. pj_id p = pid)
        (verified_project r key (inactive snapshot r)) (gd_projects d1),
      gd_scopes := store_scope (scope_of snapshot r pid verified_at old) old (gd_scopes d1)\<rparr>"
    by (rule replace_item_Inr)
  define s where "s = scope_of snapshot r pid verified_at old"
  define f where "f = verified_project r key (inactive snapshot r)"
  define ps where "ps = update_where (\<lambda>p. pj_id p = pid) f (gd_projects d1)"
  have keeps: "pj_id (f p) = pj_id p" "pj_repository_id (f p) = pj_repository_id p"
    "pj_hidden (f p) = inactive snapshot r" for p by (simp_all add: f_def verified_project_def)
  have s: "sp_repository_id s = rs_repository_id r" "sp_project_id s = Some pid"
    "closed_scope s \<longleftrightarrow> inactive snapshot r" by (simp_all add: s_def scope_of_def closed_scope_def)
  note d1 = project_for_ok [OF ok project]
  then have ok1: "recon_ok d1" and scopes1: "gd_scopes d1 = gd_scopes d" by simp_all
  from d1 obtain mine where mine: "mine \<in> set (gd_projects d1)" "pj_id mine = pid"
    "pj_repository_id mine = Some (rs_repository_id r)" by blast
  have mine': "f mine \<in> set ps" using mine by (auto simp: ps_def set_update_where)
  have sound: "scope_sound ps s"
    unfolding scope_sound_def using mine' mine keeps s by (intro allI impI bexI [of _ "f mine"]) simp_all
  have others: "scope_sound ps x" if x: "x \<in> set (gd_scopes d1)" "sp_repository_id x \<noteq> rs_repository_id r" for x
    unfolding scope_sound_def
  proof (intro allI impI)
    fix q
    assume "sp_project_id x = Some q"
    then obtain p where p: "p \<in> set (gd_projects d1)" "pj_id p = q" "pj_repository_id p = Some (sp_repository_id x)"
      "closed_scope x \<longrightarrow> pj_hidden p" by (rule bound_project [OF ok1 x(1)])
    have "pj_id p \<noteq> pid"
    proof
      assume "pj_id p = pid"
      then have "p = mine"
        using mine p(1) ok1 distinct_key_eq [of pj_id "gd_projects d1" p mine] by (simp add: recon_ok_def)
      with p(3) mine(3) x(2) show False by simp
    qed
    then have "p \<in> set ps" using p(1) by (force simp: ps_def set_update_where)
    with p show "\<exists>p \<in> set ps. pj_id p = q \<and> pj_repository_id p = Some (sp_repository_id x) \<and>
        (closed_scope x \<longrightarrow> pj_hidden p)" by blast
  qed
  have stored: "distinct (map sp_repository_id (store_scope s old (gd_scopes d1))) \<and>
      list_all (scope_sound ps) (store_scope s old (gd_scopes d1))"
  proof (cases old)
    case None
    with repository_row_Inr [OF old] have new: "rs_repository_id r \<notin> sp_repository_id ` set (gd_scopes d1)"
      by (simp add: scopes1)
    then have "list_all (scope_sound ps) (gd_scopes d1)" using others by (force simp: list_all_iff)
    with new ok1 None sound show ?thesis by (simp add: store_scope_def recon_ok_def s)
  next
    case (Some x)
    let ?mine = "\<lambda>y. sp_repository_id y = sp_repository_id s"
    have "map sp_repository_id (update_where ?mine (\<lambda>_. s) (gd_scopes d1)) = map sp_repository_id (gd_scopes d1)"
      by (rule map_key_update_where) simp
    moreover have "list_all (scope_sound ps) (update_where ?mine (\<lambda>_. s) (gd_scopes d1))"
      unfolding list_all_update_where using sound others by (simp add: list_all_iff s)
    ultimately show ?thesis using ok1 Some by (simp add: store_scope_def recon_ok_def)
  qed
  show ?thesis
  proof (rule recon_okI)
    show "project_indexes (gd_projects d')" using indexes by (simp add: d')
    show "distinct (map pj_id (gd_projects d'))"
      using ok1 keeps(1) by (simp add: d' f_def [symmetric] map_key_update_where recon_ok_def)
    show "list_all (\<lambda>p. pj_id p < gd_next_project d') (gd_projects d')"
      using ok1 keeps(1)
      by (simp add: d' f_def [symmetric] list_all_update_where recon_ok_def) (auto simp: list_all_iff)
    show "distinct (map il_installation_id (gd_installations d'))" using ok1 by (simp add: d' recon_ok_def)
    show "distinct (map sp_repository_id (gd_scopes d'))" using stored by (simp add: d' s_def)
    show "list_all (scope_sound (gd_projects d')) (gd_scopes d')"
      using stored by (simp add: d' s_def ps_def f_def)
  qed
qed

lemma replace_items_ok:
  "replace_items netloc_ok snapshot verified_at changed rs d = Inr (d', touched) \<Longrightarrow> recon_ok d \<Longrightarrow> recon_ok d'"
proof (induction rs arbitrary: d touched)
  case (Cons r rs)
  then show ?case by (auto simp: result_then_ok dest: replace_item_ok)
qed simp

lemma store_installation_ok:
  assumes "recon_ok d"
  shows "recon_ok (store_installation snapshot verified_at d)"
proof (cases "installation_at (is_installation_id snapshot) d")
  case None
  then have "is_installation_id snapshot \<notin> il_installation_id ` set (gd_installations d)"
    by (auto simp: installation_at_def find_None_iff)
  with None assms show ?thesis by (simp add: store_installation_def recon_ok_def installation_of_def)
next
  case (Some i)
  then show ?thesis
    using assms by (simp add: store_installation_def set_installation_ok installation_of_def)
qed

lemma replace_rows_ok:
  "replace_rows netloc_ok snapshot verified_at d = Inr (res, d') \<Longrightarrow> recon_ok d \<Longrightarrow> recon_ok d'"
  by (auto simp: replace_rows_def Let_def result_then_ok expire_memberships_ok
      intro!: close_scopes_ok dest!: replace_items_ok intro: store_installation_ok split: if_split_asm)

lemma deactivate_rows_ok: "deactivate_rows inst t d = Inr (res, d') \<Longrightarrow> recon_ok d \<Longrightarrow> recon_ok d'"
  by (auto simp: deactivate_rows_def Let_def expire_memberships_ok
      intro!: close_scopes_ok set_installation_ok split: if_split_asm option.split_asm)

lemma suspend_rows_ok: "suspend_rows inst s v d = Inr (res, d') \<Longrightarrow> recon_ok d \<Longrightarrow> recon_ok d'"
  by (auto simp: suspend_rows_def Let_def expire_memberships_ok
      intro!: close_scopes_ok set_installation_ok split: if_split_asm option.split_asm)

lemma checked_Inr: "checked x = Inr y \<longleftrightarrow> x = Inr (Inr y)"
  by (auto simp: checked_def split: sum.splits reconciliation_error.splits)

text \<open>An accepted change has passed its checks.\<close>

lemma apply_change_Inr:
  assumes "apply_change netloc_ok change d = Inr (res, d')"
  shows "case change of
      Deactivate_Installation inst t \<Rightarrow> deactivate_rows inst t d = Inr (res, d')
    | Suspend_Installation inst s v \<Rightarrow> suspend_rows inst s v d = Inr (res, d')
    | Replace_Scope snapshot t \<Rightarrow> snapshot_ok snapshot \<and> replace_rows netloc_ok snapshot t d = Inr (res, d')"
  using assms
  by (auto simp: apply_change_def checked_Inr deactivate_github_installation_def suspend_github_installation_def
      reconcile_github_repositories_def validate_installation_snapshot_iff Let_def
      split: authority_change.splits if_split_asm option.split_asm sum.split_asm)

lemma apply_change_ok: "apply_change netloc_ok change d = Inr (res, d') \<Longrightarrow> recon_ok d \<Longrightarrow> recon_ok d'"
  by (drule apply_change_Inr)
    (auto split: authority_change.splits dest: deactivate_rows_ok suspend_rows_ok replace_rows_ok)

lemma cursor_recorded_ok:
  assumes "record_reconciliation_cursor inst cursor t d = Inr (b, d')" "recon_ok d"
  shows "recon_ok d'"
proof -
  have "map il_installation_id (update_where (cursor_row inst t) (\<lambda>i. i\<lparr>ix_cursor := Some cursor\<rparr>) (gd_installations d)) =
      map il_installation_id (gd_installations d)"
    by (rule map_key_update_where) simp
  with assms show ?thesis
    by (auto simp: record_reconciliation_cursor_def recon_ok_def split: if_split_asm)
qed

subsection \<open>What drives the changes\<close>

text \<open>An operation of the client keeps a property of its port's state if the port and the checkpoint do.\<close>

definition api_keeps :: "('t \<Rightarrow> bool) \<Rightarrow> ('t, 'a) api_op \<Rightarrow> bool" where
  "api_keeps I m \<longleftrightarrow> (\<forall>s. I (ap_transport s) \<longrightarrow> I (ap_transport (snd (m s))))"

lemma api_keeps_and_then:
  assumes "api_keeps I m" "\<And>a. api_keeps I (f a)"
  shows "api_keeps I (and_then m f)"
  unfolding api_keeps_def
proof (intro allI impI)
  fix s :: "'a api_session"
  assume "I (ap_transport s)"
  obtain r s' where m: "m s = (r, s')" by (cases "m s")
  with assms(1) \<open>I (ap_transport s)\<close> have "I (ap_transport s')" unfolding api_keeps_def by force
  with m assms(2) show "I (ap_transport (snd (and_then m f s)))"
    by (cases r) (simp_all add: and_then_def api_keeps_def)
qed

lemma api_keeps_simple:
  "api_keeps I (or_api x)" "api_keeps I (raise_op e)" "api_keeps I (return_op a)"
  by (auto simp: api_keeps_def or_api_def raise_op_def return_op_def split: sum.splits)

lemma api_keeps_send: "(\<And>r t. I t \<Longrightarrow> I (snd (http r t))) \<Longrightarrow> api_keeps I (send http r)"
  by (auto simp: api_keeps_def send_def split: prod.splits sum.splits) (metis snd_conv)+

lemma api_keeps_note:
  "(\<And>f c t. checkpoint = Some f \<Longrightarrow> I t \<Longrightarrow> I (snd (f c t))) \<Longrightarrow> api_keeps I (note_page checkpoint cursor)"
  by (auto simp: api_keeps_def note_page_def Let_def split: prod.splits option.splits) (metis snd_conv)+

lemmas api_keeps_rules = api_keeps_and_then api_keeps_simple api_keeps_send api_keeps_note

lemma repository_pages_keep:
  assumes "\<And>r t. I t \<Longrightarrow> I (snd (http r t))" "\<And>f c t. checkpoint = Some f \<Longrightarrow> I t \<Longrightarrow> I (snd (f c t))"
  shows "api_keeps I (repository_pages http headers stored checkpoint pages etag acc)"
proof (induction pages arbitrary: stored etag acc)
  case (Cons page pages)
  show ?case
    unfolding repository_pages.simps Let_def
    by (auto intro!: api_keeps_rules assms Cons)
qed (simp add: api_keeps_simple)

lemma installation_fetch_keeps:
  assumes "\<And>r t. I t \<Longrightarrow> I (snd (http r t))" "\<And>c t. I t \<Longrightarrow> I (snd (persist c t))"
  shows "api_keeps I (fetch_authoritative_installation_tracked env http inst etag cached persist)"
proof -
  have pages: "api_keeps I (installation_repositories http headers etag (Some persist))" for headers
    unfolding installation_repositories_def by (rule repository_pages_keep) (use assms in auto)
  show ?thesis
    unfolding fetch_authoritative_installation_tracked_def fetch_authoritative_installation_def installation_token_def
    by (auto intro!: api_keeps_and_then api_keeps_simple api_keeps_send pages assms(1))
qed

lemma state_pages_keep:
  assumes "\<And>r t. I t \<Longrightarrow> I (snd (http r t))"
  shows "api_keeps I (state_pages env http headers pages states)"
proof (induction pages arbitrary: states)
  case (Cons page pages)
  show ?case
    unfolding state_pages.simps
    by (auto intro!: api_keeps_rules assms Cons split: json.split)
qed (simp add: api_keeps_simple)

lemma run_api_keeps: "api_keeps I m \<Longrightarrow> I w \<Longrightarrow> I (snd (run_api m w))"
  unfolding api_keeps_def run_api_def
  by (drule spec [of _ "\<lparr>ap_log = [], ap_cursors = [], ap_transport = w\<rparr>"], cases "m \<lparr>ap_log = [], ap_cursors = [], ap_transport = w\<rparr>") simp

abbreviation world_ok :: "'n world \<Rightarrow> bool" where "world_ok w \<equiv> recon_ok (fst w)"

lemma over_network_keeps: "world_ok w \<Longrightarrow> world_ok (snd (over_network http r w))"
  by (simp add: over_network_def split: prod.split)

lemma persist_cursor_keeps: "world_ok w \<Longrightarrow> world_ok (snd (persist_cursor inst t cursor w))"
  by (auto simp: persist_cursor_def split: sum.split dest: cursor_recorded_ok)

lemma load_installation_keeps:
  assumes "world_ok w"
  shows "world_ok (snd (load_installation env http inst t w))"
proof -
  have "api_keeps world_ok (fetch_authoritative_installation_tracked env' (over_network http) inst etag cached
      (persist_cursor inst t))" for env' etag cached
    by (rule installation_fetch_keeps) (rule over_network_keeps persist_cursor_keeps, assumption)+
  from run_api_keeps [where I = world_ok, OF this assms] show ?thesis
    unfolding load_installation_def by (simp split: prod.split)
qed

lemma load_states_keeps: "world_ok w \<Longrightarrow> world_ok (snd (load_states env http t w))"
  unfolding load_states_def fetch_github_app_installation_states_def
  by (rule run_api_keeps [where I = world_ok])
    (intro api_keeps_and_then api_keeps_simple state_pages_keep over_network_keeps)

lemma settle_change_keeps: "world_ok w \<Longrightarrow> world_ok (snd (settle_change outcome change netloc_ok w))"
  by (auto simp: settle_change_def split: sum.split recon_exn.split dest: apply_change_ok)

lemma repair_installation_keeps:
  assumes "world_ok w"
  shows "world_ok (snd (repair_installation env http t states inst w))"
proof (cases "states inst")
  case None
  then show ?thesis using settle_change_keeps [OF assms] by (simp add: repair_installation_def)
next
  case (Some suspended)
  obtain r w' where loaded: "load_installation env http inst t w = (r, w')" by (cases "load_installation env http inst t w")
  with load_installation_keeps [OF assms, of env http inst t] have "world_ok w'" by simp
  with Some loaded show ?thesis
    using settle_change_keeps [OF assms] settle_change_keeps [of w']
    by (cases suspended; cases r) (simp_all add: repair_installation_def)
qed

lemma repair_each_keeps:
  "(\<And>i w. I w \<Longrightarrow> I (snd (repair i w))) \<Longrightarrow> I w \<Longrightarrow> I (snd (repair_each repair ids w))"
proof (induction ids arbitrary: w)
  case (Cons i ids)
  obtain outcome w' where here: "repair i w = (outcome, w')" by (cases "repair i w")
  with Cons.prems(1) [OF Cons.prems(2), of i] have "I w'" by simp
  then have "I (snd (repair_each repair ids w'))" using Cons.IH Cons.prems(1) by blast
  with here \<open>I w'\<close> show ?case by (cases "repair_each repair ids w'") simp
qed simp

lemma repair_run_keeps:
  assumes "world_ok w"
  shows "world_ok (snd (reconcile_due_installations env http t w))"
proof -
  obtain r w' where states: "load_states env http t w = (r, w')" by (cases "load_states env http t w")
  with load_states_keeps [OF assms, of env http t] have "world_ok w'" by simp
  obtain outcomes w'' where
    each: "repair_each (repair_installation env http t (map_of (rev (projr r)))) (due_ids (dt_add t (- REPAIR_INTERVAL)) (fst w)) w' =
      (outcomes, w'')" by (rule prod.exhaust)
  have "world_ok w''"
    using repair_each_keeps [where I = world_ok and w = w'] repair_installation_keeps \<open>world_ok w'\<close> each by (metis snd_conv)
  with assms \<open>world_ok w'\<close> states each show ?thesis
    by (cases r) (simp_all add: reconcile_due_installations_def Let_def)
qed

text \<open>A turn of the webhook worker changes the tables by one accepted change at most.\<close>

definition one_change :: "(string \<Rightarrow> bool) \<Rightarrow> recon_db \<Rightarrow> recon_db \<Rightarrow> bool" where
  "one_change netloc_ok d d' \<longleftrightarrow> d' = d \<or> (\<exists>change res. apply_change netloc_ok change d = Inr (res, d'))"

lemma one_change_refl: "one_change netloc_ok d d"
  by (simp add: one_change_def)

lemma reconciliation_port_changes:
  "reconciliation_port netloc_ok action d = Inl (f, d') \<Longrightarrow> one_change netloc_ok d d'"
  "reconciliation_port netloc_ok action d = Inr d' \<Longrightarrow> one_change netloc_ok d d'"
  by (auto simp: reconciliation_port_def one_change_def split: sum.split_asm recon_exn.split_asm prod.split_asm)

definition worker_port ::
    "(string \<Rightarrow> bool) \<Rightarrow> installation_snapshot projection \<Rightarrow> recon_db worker_state
     \<Rightarrow> (refresh_failure \<times> recon_db worker_state) + recon_db worker_state" where
  "worker_port netloc_ok action state =
     (case reconciliation_port netloc_ok action (snd state) of
        Inl (f, p) \<Rightarrow> Inl (f, (fst state, p)) | Inr p \<Rightarrow> Inr (fst state, p))"

lemma worker_port_changes:
  "worker_port netloc_ok action (rows, d) = Inl (f, s') \<Longrightarrow> one_change netloc_ok d (snd s')"
  "worker_port netloc_ok action (rows, d) = Inr s' \<Longrightarrow> one_change netloc_ok d (snd s')"
  by (auto simp: worker_port_def reconciliation_port_changes split: sum.split_asm prod.split_asm)

lemma refresh_changes:
  "refresh_github_installation load (guard_lease lease t1) (worker_port netloc_ok) lease t0 (rows, d) = Inl (f, s')
     \<Longrightarrow> one_change netloc_ok d (snd s')"
  "refresh_github_installation load (guard_lease lease t1) (worker_port netloc_ok) lease t0 (rows, d) = Inr s'
     \<Longrightarrow> one_change netloc_ok d (snd s')"
  by (auto simp: refresh_github_installation_def require_current_lease_def guard_lease_def one_change_refl
      dest: worker_port_changes split: if_split_asm sum.split_asm prod.split_asm)

lemma webhook_turn_changes:
  "webhook_turn netloc_ok load token t0 t1 t2 (rows, d) = Inr (worked, (rows', d')) \<Longrightarrow> one_change netloc_ok d d'"
  unfolding webhook_turn_def process_webhook_work_def worker_port_def [symmetric]
  by (auto simp: one_change_refl dest: refresh_changes
      split: sum.split_asm prod.split_asm option.split_asm)

section \<open>Histories\<close>

text \<open>
  Besides the changes of authority, other components replace users and grants, the route that deletes
  a project hides it, and repair runs happen over a network that answers anything.
\<close>

datatype 'n authority_event =
    Change_Event authority_change
  | Cursor_Event int string datetime
  | Repair_Event api_env "'n transport" datetime
  | Grants_Event "access_user list" "grant_row list"
  | Hide_Event int

definition authority_step :: "(string \<Rightarrow> bool) \<Rightarrow> 'n authority_event \<Rightarrow> 'n world \<Rightarrow> 'n world" where
  "authority_step netloc_ok event w =
     (case event of
        Change_Event change \<Rightarrow>
          (case apply_change netloc_ok change (fst w) of Inl _ \<Rightarrow> w | Inr (_, d) \<Rightarrow> (d, snd w))
      | Cursor_Event inst cursor t \<Rightarrow> snd (persist_cursor inst t cursor w)
      | Repair_Event env http t \<Rightarrow> snd (reconcile_due_installations env http t w)
      | Grants_Event users grants \<Rightarrow> ((fst w)\<lparr>gd_users := users, gd_grants := grants\<rparr>, snd w)
      | Hide_Event pid \<Rightarrow> (hide_projects [pid] (fst w), snd w))"

definition authority_history :: "(string \<Rightarrow> bool) \<Rightarrow> 'n authority_event list \<Rightarrow> 'n \<Rightarrow> recon_db" where
  "authority_history netloc_ok events network =
     fst (fold (authority_step netloc_ok) events
       (\<lparr>gd_installations = [], gd_scopes = [], gd_projects = [], gd_next_project = 1, gd_users = [], gd_grants = []\<rparr>,
        network))"

lemma hide_projects_ok:
  assumes "recon_ok d"
  shows "recon_ok (hide_projects projects d)"
proof (rule recon_okI)
  have "scope_sound (gd_projects (hide_projects projects d)) s" if "scope_sound (gd_projects d) s" for s
    unfolding scope_sound_def
  proof (intro allI impI)
    fix pid
    assume "sp_project_id s = Some pid"
    with that obtain p where p: "p \<in> set (gd_projects d)" "pj_id p = pid"
      "pj_repository_id p = Some (sp_repository_id s)" "closed_scope s \<longrightarrow> pj_hidden p"
      unfolding scope_sound_def by blast
    let ?q = "if pj_id p \<in> set projects then p\<lparr>pj_hidden := True\<rparr> else p"
    show "\<exists>p \<in> set (gd_projects (hide_projects projects d)). pj_id p = pid \<and>
        pj_repository_id p = Some (sp_repository_id s) \<and> (closed_scope s \<longrightarrow> pj_hidden p)"
      using p by (intro bexI [of _ ?q]) (auto simp: hide_projects_def set_update_where)
  qed
  then show "list_all (scope_sound (gd_projects (hide_projects projects d))) (gd_scopes (hide_projects projects d))"
    using assms by (auto simp: list_all_iff recon_ok_def hide_projects_def)
  show "list_all (\<lambda>p. pj_id p < gd_next_project (hide_projects projects d)) (gd_projects (hide_projects projects d))"
    using assms by (simp add: hide_projects_def list_all_update_where recon_ok_def)
  show "project_indexes (gd_projects (hide_projects projects d))"
    using assms by (simp add: hide_indexes recon_ok_def)
  show "distinct (map pj_id (gd_projects (hide_projects projects d)))"
    using assms by (simp add: hide_projects_def map_key_update_where recon_ok_def)
qed (use assms in \<open>simp_all add: hide_projects_def recon_ok_def\<close>)

lemma authority_step_ok:
  assumes "world_ok w"
  shows "world_ok (authority_step netloc_ok event w)"
proof (cases event)
  case (Change_Event change)
  with assms show ?thesis
    by (auto simp: authority_step_def dest: apply_change_ok split: sum.split)
next
  case (Repair_Event env http t)
  with repair_run_keeps [OF assms] show ?thesis by (simp add: authority_step_def)
next
  case (Grants_Event users grants)
  with assms show ?thesis by (simp add: authority_step_def recon_ok_def)
qed (use assms in \<open>simp_all add: authority_step_def persist_cursor_keeps hide_projects_ok\<close>)

lemma authority_history_ok: "recon_ok (authority_history netloc_ok events network)"
proof -
  have "world_ok (fold (authority_step netloc_ok) events w)" if "world_ok w" for w
    using that by (induction events arbitrary: w) (simp_all add: authority_step_ok)
  then show ?thesis
    by (simp add: authority_history_def recon_ok_def project_indexes_def)
qed

section \<open>Authority ends with its source\<close>

text \<open>The tables as the access clauses read them.\<close>

definition reachable_project ::
    "recon_db \<Rightarrow> datetime \<Rightarrow> access_principal \<Rightarrow> int \<Rightarrow> permission \<Rightarrow> bool" where
  "reachable_project d now who pid needed \<longleftrightarrow>
     require_project (map membership_row.truncate (gd_grants d)) (map project_row.truncate (gd_projects d))
       now who pid needed \<noteq> None"

lemma reachable_visible:
  assumes "reachable_project d now who pid needed"
  obtains p where "p \<in> set (gd_projects d)" "pj_id p = pid" "\<not> pj_hidden p"
proof -
  from assms obtain q where "require_project (map membership_row.truncate (gd_grants d))
      (map project_row.truncate (gd_projects d)) now who pid needed = Some q"
    by (auto simp: reachable_project_def)
  from required_project_granted [OF this] obtain p where "p \<in> set (gd_projects d)" "q = project_row.truncate p"
    "pj_id q = pid" "\<not> pj_hidden q" by auto
  with that [of p] show thesis by (simp add: project_row.defs)
qed

lemma reachable_granted:
  assumes "reachable_project d now \<lparr>ap_user_id = Some user, ap_role = role\<rparr> pid needed"
  obtains g where "g \<in> set (gd_grants d)" "mr_project_id g = pid" "mr_source g = ''github_app''"
    "case mr_expires_at g of None \<Rightarrow> False | Some e \<Rightarrow> dt_less now e"
proof -
  from assms obtain q where "require_project (map membership_row.truncate (gd_grants d))
      (map project_row.truncate (gd_projects d)) now \<lparr>ap_user_id = Some user, ap_role = role\<rparr> pid needed = Some q"
    by (auto simp: reachable_project_def)
  from required_project_granted [OF this] obtain m where
    "m \<in> set (map membership_row.truncate (gd_grants d))" "membership_grants user needed now pid m" by auto
  with that show thesis by (auto simp: membership_grants_def membership_row.defs)
qed

text \<open>
  C9. A closed repository opens nothing.  Whatever the order of webhooks, repair runs, refreshed
  memberships and deleted projects, and whatever GitHub's network answers: the project of a
  repository that GitHub disabled or removed, or whose installation was suspended or deleted, is
  reachable by nobody, with any grant and at any time.
\<close>

theorem closed_scopes_unreachable:
  "list_all (\<lambda>s. if closed_scope s
       then (case sp_project_id s of
               None \<Rightarrow> True
             | Some pid \<Rightarrow> \<not> reachable_project (authority_history netloc_ok events network) now who pid needed)
       else True)
     (gd_scopes (authority_history netloc_ok events network))"
proof -
  let ?d = "authority_history netloc_ok events network"
  have ok: "recon_ok ?d" by (rule authority_history_ok)
  have "\<not> reachable_project ?d now who pid needed"
    if s: "s \<in> set (gd_scopes ?d)" "sp_project_id s = Some pid" "closed_scope s" for s pid
  proof
    assume "reachable_project ?d now who pid needed"
    then obtain q where q: "q \<in> set (gd_projects ?d)" "pj_id q = pid" "\<not> pj_hidden q" by (rule reachable_visible)
    obtain p where p: "p \<in> set (gd_projects ?d)" "pj_id p = pid" "closed_scope s \<longrightarrow> pj_hidden p"
      by (rule bound_project [OF ok s(1,2)])
    have "p = q"
      using distinct_key_eq [of pj_id "gd_projects ?d" p q] ok p(1,2) q(1,2) by (simp add: recon_ok_def)
    with p(3) q(3) s(3) show False by simp
  qed
  then show ?thesis by (auto simp: list_all_iff split: option.split)
qed

subsection \<open>What a change ends\<close>

text \<open>A repository that was open for access before and is not after.\<close>

definition open_scope :: "enabled_scope \<Rightarrow> bool" where
  "open_scope s \<longleftrightarrow> \<not> sp_disabled s \<and> \<not> sp_archived s \<and> sp_removed_at s = None"

definition scope_ended :: "recon_db \<Rightarrow> enabled_scope \<Rightarrow> bool" where
  "scope_ended d' s \<longleftrightarrow>
     open_scope s \<and> \<not> list_ex (\<lambda>x. sp_repository_id x = sp_repository_id s \<and> open_scope x) (gd_scopes d')"

definition change_time :: "authority_change \<Rightarrow> datetime" where
  "change_time change =
     (case change of Deactivate_Installation inst t \<Rightarrow> t | Suspend_Installation inst s v \<Rightarrow> s | Replace_Scope snapshot t \<Rightarrow> t)"

definition accounted :: "int list \<Rightarrow> recon_db \<Rightarrow> enabled_scope \<Rightarrow> bool" where
  "accounted projects d' s \<longleftrightarrow>
     (if scope_ended d' s then (case sp_project_id s of None \<Rightarrow> True | Some pid \<Rightarrow> pid \<in> set projects) else True)"

lemma open_scope_access: "access_state x = access_state s \<Longrightarrow> open_scope x = open_scope s"
  by (auto simp: access_state_def open_scope_def)

lemma accountedI:
  "(open_scope s \<Longrightarrow> (\<exists>x \<in> set (gd_scopes d'). sp_repository_id x = sp_repository_id s \<and> open_scope x) \<or>
      (\<forall>pid. sp_project_id s = Some pid \<longrightarrow> pid \<in> set projects)) \<Longrightarrow> accounted projects d' s"
  by (auto simp: accounted_def scope_ended_def list_ex_iff split: option.split)

lemma expired_unreachable:
  assumes "pid \<in> set projects"
  shows "\<not> reachable_project (expire_memberships projects t d) (dt_add t (int later))
     \<lparr>ap_user_id = Some user, ap_role = role\<rparr> pid needed"
proof
  assume "reachable_project (expire_memberships projects t d) (dt_add t (int later))
     \<lparr>ap_user_id = Some user, ap_role = role\<rparr> pid needed"
  then obtain g where g: "g \<in> set (gd_grants (expire_memberships projects t d))" "mr_project_id g = pid"
    "mr_source g = ''github_app''" "case mr_expires_at g of None \<Rightarrow> False | Some e \<Rightarrow> dt_less (dt_add t (int later)) e"
    by (rule reachable_granted)
  from assms have "projects \<noteq> []" by auto
  with g(1) obtain h where h: "h \<in> set (gd_grants d)"
    "g = (if touched_grant projects h \<and> lasts_beyond t h then h\<lparr>mr_expires_at := Some t\<rparr> else h)"
    by (auto simp: expire_memberships_def set_update_where)
  with g(2,3) assms have "touched_grant projects h"
    by (auto simp: touched_grant_def split: if_split_asm)
  with h(2) g(4) show False
    by (auto simp: lasts_beyond_def dt_less_def dt_instant_add split: if_split_asm option.split_asm)
qed

lemma expire_scopes [simp]: "gd_scopes (expire_memberships projects t d) = gd_scopes d"
  by (simp add: expire_memberships_def)

lemma close_scopes_scopes: "gd_scopes (close_scopes which f d) = update_where which f (gd_scopes d)"
  by (simp add: close_scopes_def hide_projects_def)

lemma set_sorted_set [simp]: "set (sorted_set xs) = set xs"
  by (simp add: sorted_set_def)

lemma closing_accounted:
  assumes "s \<in> set (gd_scopes d)" "gd_scopes d' = update_where which f (gd_scopes d)"
    "set (bound_projects (filter which (gd_scopes d))) \<subseteq> set projects"
  shows "accounted projects d' s"
proof (rule accountedI)
  assume "open_scope s"
  show "(\<exists>x \<in> set (gd_scopes d'). sp_repository_id x = sp_repository_id s \<and> open_scope x) \<or>
      (\<forall>pid. sp_project_id s = Some pid \<longrightarrow> pid \<in> set projects)"
  proof (cases "which s")
    case True
    with assms(1,3) show ?thesis by (force simp: bound_member)
  next
    case False
    with assms(1,2) have "s \<in> set (gd_scopes d')" by (force simp: set_update_where)
    with \<open>open_scope s\<close> show ?thesis by blast
  qed
qed

text \<open>The scopes through one item, and through all.\<close>

lemma replace_item_scopes:
  assumes ok: "recon_ok d" and item: "replace_item netloc_ok snapshot verified_at changed r d = Inr (d', touched)"
    and s: "s \<in> set (gd_scopes d)"
  shows "if sp_repository_id s \<noteq> rs_repository_id r then s \<in> set (gd_scopes d')
    else \<exists>x \<in> set (gd_scopes d'). sp_repository_id x = sp_repository_id s \<and>
      (access_state x = access_state s \<or> (\<forall>pid. sp_project_id s = Some pid \<longrightarrow> pid \<in> set touched))"
proof -
  from item obtain old pid d1 key where
    old: "repository_row (is_installation_id snapshot) (rs_repository_id r) d = Inr old"
    and project: "project_for netloc_ok (rs_repository_id r) (rs_full_name r) verified_at d = Inr (pid, d1)"
    and d': "d' = d1\<lparr>gd_projects := update_where (\<lambda>p. pj_id p = pid)
        (verified_project r key (inactive snapshot r)) (gd_projects d1),
      gd_scopes := store_scope (scope_of snapshot r pid verified_at old) old (gd_scopes d1)\<rparr>"
    and touched: "touched = (if changed \<or> map_option access_state old \<noteq>
        Some (access_state (scope_of snapshot r pid verified_at old)) then [pid] else [])"
    by (rule replace_item_Inr)
  let ?s = "scope_of snapshot r pid verified_at old"
  have rid: "sp_repository_id (scope_of snapshot r pid verified_at prev) = rs_repository_id r" for prev
    by (simp add: scope_of_def)
  note d1 = project_for_ok [OF ok project]
  then have scopes: "gd_scopes d' = store_scope ?s old (gd_scopes d)" by (simp add: d')
  show ?thesis
  proof (cases "sp_repository_id s = rs_repository_id r")
    case False
    with s have "s \<in> set (gd_scopes d')"
      by (cases old) (auto simp: scopes store_scope_def set_update_where rid)
    with False show ?thesis by simp
  next
    case True
    with repository_row_Inr [OF old] s have "old \<noteq> None" by (cases old) force+
    then obtain x where x: "old = Some x" "x \<in> set (gd_scopes d)" "sp_repository_id x = rs_repository_id r"
      using repository_row_Inr [OF old] by (cases old) auto
    have "x = s"
      using distinct_key_eq [of sp_repository_id "gd_scopes d" x s] ok x s True by (simp add: recon_ok_def)
    have here: "?s \<in> set (gd_scopes d')"
      using x by (force simp: scopes store_scope_def set_update_where rid)
    have "pid' \<in> set touched" if differ: "access_state ?s \<noteq> access_state s" and bound: "sp_project_id s = Some pid'" for pid'
    proof -
      obtain p where p: "p \<in> set (gd_projects d)" "pj_id p = pid'" "pj_repository_id p = Some (sp_repository_id s)"
        by (rule bound_project [OF ok s bound])
      from d1 obtain mine where mine: "mine \<in> set (gd_projects d1)" "pj_id mine = pid"
        "pj_repository_id mine = Some (rs_repository_id r)" by blast
      have "p = mine"
        by (rule map_filter_unique [of pj_repository_id "gd_projects d1"])
          (use d1 p mine True in \<open>auto simp: recon_ok_def project_indexes_def\<close>)
      then show ?thesis using differ x(1) \<open>x = s\<close> p(2) mine(2) by (auto simp: touched)
    qed
    then show ?thesis using here rid True by auto
  qed
qed

lemma replace_items_scopes:
  assumes "replace_items netloc_ok snapshot verified_at changed rs d = Inr (d', touched)" "recon_ok d"
    "distinct (map rs_repository_id rs)" "s \<in> set (gd_scopes d)"
  shows "if sp_repository_id s \<notin> rs_repository_id ` set rs then s \<in> set (gd_scopes d')
    else \<exists>x \<in> set (gd_scopes d'). sp_repository_id x = sp_repository_id s \<and>
      (access_state x = access_state s \<or> (\<forall>pid. sp_project_id s = Some pid \<longrightarrow> pid \<in> set touched))"
  using assms
proof (induction rs arbitrary: d s touched)
  case (Cons r rs)
  from Cons.prems(1) obtain d1 first more where
    item: "replace_item netloc_ok snapshot verified_at changed r d = Inr (d1, first)"
    and rest: "replace_items netloc_ok snapshot verified_at changed rs d1 = Inr (d', more)"
    and touched: "touched = first @ more"
    by (auto simp: result_then_ok)
  have ok1: "recon_ok d1" by (rule replace_item_ok [OF Cons.prems(2) item])
  note step = replace_item_scopes [OF Cons.prems(2) item Cons.prems(4)]
  note later = Cons.IH [OF rest ok1]
  show ?case
  proof (cases "sp_repository_id s = rs_repository_id r")
    case True
    with step obtain x where x: "x \<in> set (gd_scopes d1)" "sp_repository_id x = sp_repository_id s"
      "access_state x = access_state s \<or> (\<forall>pid. sp_project_id s = Some pid \<longrightarrow> pid \<in> set first)" by auto
    from True Cons.prems(3) x(2) have "sp_repository_id x \<notin> rs_repository_id ` set rs" by auto
    with later [OF _ x(1)] Cons.prems(3) have "x \<in> set (gd_scopes d')" by simp
    with x True show ?thesis by (auto simp: touched)
  next
    case False
    with step have "s \<in> set (gd_scopes d1)" by simp
    from later [OF _ this] Cons.prems(3) False show ?thesis
      by (auto simp: touched split: if_split_asm)
  qed
qed simp

text \<open>A snapshot that is older than what the tables hold.\<close>

definition snapshot_stale :: "installation_snapshot \<Rightarrow> datetime \<Rightarrow> recon_db \<Rightarrow> bool" where
  "snapshot_stale snapshot t d \<longleftrightarrow>
     (case installation_at (is_installation_id snapshot) d of None \<Rightarrow> False | Some i \<Rightarrow> stale (ix_reconciled_at i) t)"

lemma replace_rows_Inr:
  assumes "replace_rows netloc_ok snapshot t d = Inr (res, d')"
  obtains (nothing) "snapshot_stale snapshot t d" "res = nothing_done (is_installation_id snapshot)" "d' = d"
  | (replaced) changed d1 touched where "\<not> snapshot_stale snapshot t d"
      "replace_items netloc_ok snapshot t changed (is_repositories snapshot) (store_installation snapshot t d) = Inr (d1, touched)"
      "set (rr_invalidated res) = set (touched @ bound_projects (filter (vanished snapshot) (gd_scopes d)))"
      "d' = expire_memberships (touched @ bound_projects (filter (vanished snapshot) (gd_scopes d))) t
        (close_scopes (vanished snapshot)
          (\<lambda>s. s\<lparr>sp_removed_at := Some t, sp_disabled := True, sp_updated_at := t\<rparr>) d1)"
proof -
  let ?found = "installation_at (is_installation_id snapshot) d"
  let ?stale = "snapshot_stale snapshot t d"
  note snapshot_stale_def [simp]
  let ?foreign = "case ?found of None \<Rightarrow> False | Some i \<Rightarrow> il_owner_id i \<noteq> is_owner_id snapshot"
  consider "?stale" | "\<not> ?stale" "?foreign" | "\<not> ?stale" "\<not> ?foreign" by blast
  then show thesis
  proof cases
    case 1
    with assms have "res = nothing_done (is_installation_id snapshot) \<and> d' = d"
      by (auto simp: replace_rows_def Let_def)
    then show thesis using that(1) 1 by blast
  next
    case 2
    with assms show thesis by (simp add: replace_rows_def Let_def)
  next
    case 3
    with assms obtain changed d1 touched where
      "replace_items netloc_ok snapshot t changed (is_repositories snapshot) (store_installation snapshot t d) = Inr (d1, touched)"
      "res = \<lparr>rr_installation_id = is_installation_id snapshot,
         rr_enabled = sort (map rs_repository_id
           (filter (\<lambda>r. \<not> (inactive snapshot r \<or> rs_archived r)) (is_repositories snapshot))),
         rr_disabled = sort (map rs_repository_id
           (filter (\<lambda>r. inactive snapshot r \<or> rs_archived r) (is_repositories snapshot))),
         rr_removed = sort (map sp_repository_id (filter (vanished snapshot) (gd_scopes d))),
         rr_invalidated = sorted_set (touched @ bound_projects (filter (vanished snapshot) (gd_scopes d)))\<rparr>"
      "d' = expire_memberships (touched @ bound_projects (filter (vanished snapshot) (gd_scopes d))) t
        (close_scopes (vanished snapshot)
          (\<lambda>s. s\<lparr>sp_removed_at := Some t, sp_disabled := True, sp_updated_at := t\<rparr>) d1)"
      by (auto simp: replace_rows_def Let_def result_then_ok)
    with 3(1) that(2) show thesis by simp
  qed
qed

lemma replace_rows_accounts:
  assumes "recon_ok d" "replace_rows netloc_ok snapshot t d = Inr (res, d')"
    "distinct (map rs_repository_id (is_repositories snapshot))" "s \<in> set (gd_scopes d)"
  shows "accounted (rr_invalidated res) d' s"
  using assms(2)
proof (cases rule: replace_rows_Inr)
  case nothing
  with assms(4) show ?thesis by (intro accountedI) blast
next
  case (replaced changed d1 touched)
  let ?f = "\<lambda>s. s\<lparr>sp_removed_at := Some t, sp_disabled := True, sp_updated_at := t\<rparr>"
  note items = replaced(2) and res = replaced(3)
  have d': "gd_scopes d' = update_where (vanished snapshot) ?f (gd_scopes d1)"
    by (simp add: replaced(4) close_scopes_scopes)
  have start: "gd_scopes (store_installation snapshot t d) = gd_scopes d"
    by (simp add: store_installation_def set_installation_def split: option.split)
  note through = replace_items_scopes [OF items store_installation_ok [OF assms(1)] assms(3), unfolded start, OF assms(4)]
  show ?thesis
  proof (cases "sp_repository_id s \<in> rs_repository_id ` set (is_repositories snapshot)")
    case True
    with through obtain x where x: "x \<in> set (gd_scopes d1)" "sp_repository_id x = sp_repository_id s"
      "access_state x = access_state s \<or> (\<forall>pid. sp_project_id s = Some pid \<longrightarrow> pid \<in> set touched)" by auto
    have "\<not> vanished snapshot x" using True x(2) by (simp add: vanished_def)
    with x(1) have "x \<in> set (gd_scopes d')" by (force simp: d' set_update_where)
    show ?thesis
    proof (rule accountedI)
      assume "open_scope s"
      from x(3) show "(\<exists>x \<in> set (gd_scopes d'). sp_repository_id x = sp_repository_id s \<and> open_scope x) \<or>
          (\<forall>pid. sp_project_id s = Some pid \<longrightarrow> pid \<in> set (rr_invalidated res))"
      proof
        assume "access_state x = access_state s"
        then have "open_scope x" using \<open>open_scope s\<close> open_scope_access by blast
        with x(2) \<open>x \<in> set (gd_scopes d')\<close> show ?thesis by blast
      qed (simp add: res)
    qed
  next
    case False
    with through have kept: "s \<in> set (gd_scopes d1)" by simp
    show ?thesis
    proof (rule accountedI)
      assume "open_scope s"
      show "(\<exists>x \<in> set (gd_scopes d'). sp_repository_id x = sp_repository_id s \<and> open_scope x) \<or>
          (\<forall>pid. sp_project_id s = Some pid \<longrightarrow> pid \<in> set (rr_invalidated res))"
      proof (cases "vanished snapshot s")
        case True
        with assms(4) show ?thesis by (force simp: res bound_member)
      next
        case False
        with kept have "s \<in> set (gd_scopes d')" by (force simp: d' set_update_where)
        with \<open>open_scope s\<close> show ?thesis by blast
      qed
    qed
  qed
qed

lemma change_accounts:
  assumes "recon_ok d" "apply_change netloc_ok change d = Inr (res, d')" "s \<in> set (gd_scopes d)"
  shows "accounted (rr_invalidated res) d' s"
proof (cases change)
  case (Deactivate_Installation inst t)
  with apply_change_Inr [OF assms(2)] have run: "deactivate_rows inst t d = Inr (res, d')" by simp
  show ?thesis
  proof (cases "d' = d")
    case True
    with assms(3) show ?thesis by (intro accountedI) blast
  next
    case False
    with run show ?thesis
      by (intro closing_accounted [OF assms(3)])
        (auto simp: deactivate_rows_def Let_def close_scopes_scopes set_installation_def split: option.split_asm if_split_asm)
  qed
next
  case (Suspend_Installation inst u t)
  with apply_change_Inr [OF assms(2)] have run: "suspend_rows inst u t d = Inr (res, d')" by simp
  show ?thesis
  proof (cases "d' = d")
    case True
    with assms(3) show ?thesis by (intro accountedI) blast
  next
    case False
    with run show ?thesis
      by (intro closing_accounted [OF assms(3)])
        (auto simp: suspend_rows_def Let_def close_scopes_scopes set_installation_def split: option.split_asm if_split_asm)
  qed
next
  case (Replace_Scope snapshot t)
  with apply_change_Inr [OF assms(2)] have "snapshot_ok snapshot" "replace_rows netloc_ok snapshot t d = Inr (res, d')"
    by simp_all
  moreover from this(1) have "distinct (map rs_repository_id (is_repositories snapshot))"
    by (simp only: snapshot_ok_def)
  ultimately show ?thesis using assms(1,3) by (intro replace_rows_accounts)
qed

lemma change_expires:
  assumes "apply_change netloc_ok change d = Inr (res, d')" "pid \<in> set (rr_invalidated res)"
  obtains projects d1 where "d' = expire_memberships projects (change_time change) d1" "pid \<in> set projects"
proof (cases change)
  case (Deactivate_Installation inst t)
  with apply_change_Inr [OF assms(1)] have "deactivate_rows inst t d = Inr (res, d')" by simp
  with assms(2) that Deactivate_Installation show thesis
    by (auto simp: deactivate_rows_def Let_def nothing_done_def change_time_def split: option.split_asm if_split_asm)
next
  case (Suspend_Installation inst u t)
  with apply_change_Inr [OF assms(1)] have "suspend_rows inst u t d = Inr (res, d')" by simp
  with assms(2) that Suspend_Installation show thesis
    by (auto simp: suspend_rows_def Let_def nothing_done_def change_time_def split: option.split_asm if_split_asm)
next
  case (Replace_Scope snapshot t)
  with apply_change_Inr [OF assms(1)] have "replace_rows netloc_ok snapshot t d = Inr (res, d')" by simp
  then show thesis
  proof (cases rule: replace_rows_Inr)
    case nothing
    with assms(2) show thesis by (simp add: nothing_done_def)
  next
    case (replaced changed d1 touched)
    with assms(2) that Replace_Scope show thesis by (auto simp: change_time_def)
  qed
qed

text \<open>
  C8. Authority ends with its source.  Any accepted change, after any history, names the project of
  every repository that was open and no longer is; and from the time of the change on no user reaches
  a named project, in any role, before the memberships are refreshed.
\<close>

theorem change_ends_authority:
  "case apply_change netloc_ok change (authority_history netloc_ok events network) of
     Inl _ \<Rightarrow> True
   | Inr (res, d') \<Rightarrow>
       list_all (accounted (rr_invalidated res) d') (gd_scopes (authority_history netloc_ok events network)) \<and>
       list_all (\<lambda>pid. \<not> reachable_project d' (dt_add (change_time change) (int later))
           \<lparr>ap_user_id = Some user, ap_role = role\<rparr> pid needed) (rr_invalidated res)"
proof (cases "apply_change netloc_ok change (authority_history netloc_ok events network)")
  case (Inr r)
  obtain res d' where r: "r = (res, d')" by (cases r)
  note change = Inr [unfolded r]
  have "\<not> reachable_project d' (dt_add (change_time change) (int later))
      \<lparr>ap_user_id = Some user, ap_role = role\<rparr> pid needed" if "pid \<in> set (rr_invalidated res)" for pid
    using change_expires [OF change that] expired_unreachable by metis
  with change_accounts [OF authority_history_ok change] Inr show ?thesis
    by (simp add: r list_all_iff)
qed simp

section \<open>Identity by number\<close>

text \<open>An item leaves the projects of other repositories alone, and none of them has its name.\<close>

lemma replace_item_others:
  assumes "recon_ok d" "replace_item netloc_ok snapshot t changed r d = Inr (d', touched)"
    and "p \<in> set (gd_projects d)" "pj_repository_id p \<noteq> Some (rs_repository_id r)"
  shows "p \<in> set (gd_projects d') \<and> Inr (pj_repo_key p) \<noteq> map_sum id Some (repository_key netloc_ok (rs_full_name r))"
proof -
  from assms(2) obtain old pid d1 key where
    project: "project_for netloc_ok (rs_repository_id r) (rs_full_name r) t d = Inr (pid, d1)"
    and key: "repository_key netloc_ok (rs_full_name r) = Inr key"
    and indexes: "project_indexes (update_where (\<lambda>p. pj_id p = pid)
      (verified_project r key (inactive snapshot r)) (gd_projects d1))"
    and d': "d' = d1\<lparr>gd_projects := update_where (\<lambda>p. pj_id p = pid)
        (verified_project r key (inactive snapshot r)) (gd_projects d1),
      gd_scopes := store_scope (scope_of snapshot r pid t old) old (gd_scopes d1)\<rparr>"
    by (rule replace_item_Inr)
  define f where "f = verified_project r key (inactive snapshot r)"
  note d1 = project_for_ok [OF assms(1) project]
  then have p: "p \<in> set (gd_projects d1)" using assms(3) by blast
  from d1 obtain mine where mine: "mine \<in> set (gd_projects d1)" "pj_id mine = pid"
    "pj_repository_id mine = Some (rs_repository_id r)" by blast
  have "pj_id p \<noteq> pid"
  proof
    assume "pj_id p = pid"
    then have "p = mine"
      using d1 p mine distinct_key_eq [of pj_id "gd_projects d1" p mine] by (simp add: recon_ok_def)
    with mine(3) assms(4) show False by simp
  qed
  then have kept: "p \<in> set (gd_projects d')" using p by (force simp: d' set_update_where)
  have named: "f mine \<in> set (gd_projects d')" using mine by (force simp: d' set_update_where f_def)
  have "pj_repo_key p \<noteq> Some key"
  proof
    assume "pj_repo_key p = Some key"
    then have "p = f mine"
      using kept named indexes map_filter_unique [of pj_repo_key "gd_projects d'" p "f mine" key]
      by (simp add: d' project_indexes_def f_def verified_project_def)
    with mine(3) assms(4) show False by (simp add: f_def verified_project_def)
  qed
  with kept key show ?thesis by simp
qed

text \<open>
  What an accepted snapshot has made of one of its repositories: the scope row has the numeric id and the
  details of the snapshot, is bound to the project of that numeric id, and the project carries the
  current name and is visible unless the repository is inactive.  A project that had the
  numeric id before is that project, whatever it was called.
\<close>

definition projected :: "installation_snapshot \<Rightarrow> datetime \<Rightarrow> recon_db \<Rightarrow> recon_db \<Rightarrow> repository_snapshot \<Rightarrow> bool" where
  "projected snapshot t d d' r \<longleftrightarrow>
     list_ex (\<lambda>s. list_ex (\<lambda>p.
         cached_snapshot s = r\<lparr>rs_disabled := inactive snapshot r\<rparr> \<and>
         sp_installation_id s = is_installation_id snapshot \<and> sp_removed_at s = None \<and> sp_verified_at s = t \<and>
         sp_project_id s = Some (pj_id p) \<and> pj_repository_id p = Some (rs_repository_id r) \<and>
         pj_repo p = Some (rs_full_name r) \<and> pj_hidden p = inactive snapshot r \<and>
         list_all (\<lambda>q. pj_repository_id q = Some (rs_repository_id r) \<longrightarrow> pj_id q = pj_id p) (gd_projects d))
       (gd_projects d')) (gd_scopes d')"

lemma projectedI:
  assumes "s \<in> set (gd_scopes d')" "p \<in> set (gd_projects d')" "cached_snapshot s = r\<lparr>rs_disabled := inactive snapshot r\<rparr>"
    "sp_installation_id s = is_installation_id snapshot" "sp_removed_at s = None" "sp_verified_at s = t"
    "sp_project_id s = Some (pj_id p)" "pj_repository_id p = Some (rs_repository_id r)"
    "pj_repo p = Some (rs_full_name r)" "pj_hidden p = inactive snapshot r"
    "\<And>q. q \<in> set (gd_projects d) \<Longrightarrow> pj_repository_id q = Some (rs_repository_id r) \<Longrightarrow> pj_id q = pj_id p"
  shows "projected snapshot t d d' r"
  unfolding projected_def list_ex_iff list_all_iff using assms by blast

lemma projectedE:
  assumes "projected snapshot t d d' r"
  obtains s p where "s \<in> set (gd_scopes d')" "p \<in> set (gd_projects d')"
    "cached_snapshot s = r\<lparr>rs_disabled := inactive snapshot r\<rparr>"
    "sp_installation_id s = is_installation_id snapshot" "sp_removed_at s = None" "sp_verified_at s = t"
    "sp_project_id s = Some (pj_id p)" "pj_repository_id p = Some (rs_repository_id r)"
    "pj_repo p = Some (rs_full_name r)" "pj_hidden p = inactive snapshot r"
    "\<And>q. q \<in> set (gd_projects d) \<Longrightarrow> pj_repository_id q = Some (rs_repository_id r) \<Longrightarrow> pj_id q = pj_id p"
    "sp_repository_id s = rs_repository_id r"
proof -
  from assms obtain s p where sp: "s \<in> set (gd_scopes d')" "p \<in> set (gd_projects d')"
    "cached_snapshot s = r\<lparr>rs_disabled := inactive snapshot r\<rparr>"
    "sp_installation_id s = is_installation_id snapshot" "sp_removed_at s = None" "sp_verified_at s = t"
    "sp_project_id s = Some (pj_id p)" "pj_repository_id p = Some (rs_repository_id r)"
    "pj_repo p = Some (rs_full_name r)" "pj_hidden p = inactive snapshot r"
    "\<forall>q \<in> set (gd_projects d). pj_repository_id q = Some (rs_repository_id r) \<longrightarrow> pj_id q = pj_id p"
    unfolding projected_def list_ex_iff list_all_iff by blast
  moreover have "sp_repository_id s = rs_repository_id r"
    using arg_cong [OF sp(3), of rs_repository_id] by (simp add: cached_snapshot_def)
  ultimately show thesis using that by blast
qed

lemma replace_item_projects:
  assumes ok: "recon_ok d" and item: "replace_item netloc_ok snapshot t changed r d = Inr (d', touched)"
  shows "projected snapshot t d d' r"
proof -
  from item obtain old pid d1 key where
    old: "repository_row (is_installation_id snapshot) (rs_repository_id r) d = Inr old"
    and project: "project_for netloc_ok (rs_repository_id r) (rs_full_name r) t d = Inr (pid, d1)"
    and d': "d' = d1\<lparr>gd_projects := update_where (\<lambda>p. pj_id p = pid)
        (verified_project r key (inactive snapshot r)) (gd_projects d1),
      gd_scopes := store_scope (scope_of snapshot r pid t old) old (gd_scopes d1)\<rparr>"
    by (rule replace_item_Inr)
  define s where "s = scope_of snapshot r pid t old"
  note d1 = project_for_ok [OF ok project]
  from d1 obtain mine where mine: "mine \<in> set (gd_projects d1)" "pj_id mine = pid"
    "pj_repository_id mine = Some (rs_repository_id r)" by blast
  have rid: "sp_repository_id s = rs_repository_id r" by (simp add: s_def scope_of_def)
  have scopes: "gd_scopes d' = store_scope s old (gd_scopes d)" using d1 by (simp add: d' s_def)
  have "s \<in> set (store_scope s old (gd_scopes d))"
    using repository_row_Inr [OF old] rid by (cases old) (force simp: store_scope_def set_update_where)+
  moreover have "verified_project r key (inactive snapshot r) mine \<in> set (gd_projects d')"
    using mine by (force simp: d' set_update_where)
  moreover have "pj_id q = pid" if "q \<in> set (gd_projects d)" "pj_repository_id q = Some (rs_repository_id r)" for q
  proof -
    have "q = mine"
      by (rule map_filter_unique [of pj_repository_id "gd_projects d1"])
        (use d1 that mine in \<open>auto simp: recon_ok_def project_indexes_def\<close>)
    with mine(2) show ?thesis by simp
  qed
  ultimately show ?thesis
    using mine(2,3) by (intro projectedI [of s d' "verified_project r key (inactive snapshot r) mine"])
      (simp_all add: scopes, simp_all add: s_def scope_of_def cached_snapshot_def verified_project_def)
qed

lemma replace_item_keeps_projected:
  assumes ok: "recon_ok d" and item: "replace_item netloc_ok snapshot t changed r d = Inr (d', touched)"
    and "projected snapshot t d0 d r0" "rs_repository_id r0 \<noteq> rs_repository_id r"
  shows "projected snapshot t d0 d' r0"
  using assms(3)
proof (rule projectedE)
  fix s p
  assume s: "s \<in> set (gd_scopes d)" "sp_repository_id s = rs_repository_id r0"
    and p: "p \<in> set (gd_projects d)" "pj_repository_id p = Some (rs_repository_id r0)"
    and rest: "cached_snapshot s = r0\<lparr>rs_disabled := inactive snapshot r0\<rparr>"
      "sp_installation_id s = is_installation_id snapshot" "sp_removed_at s = None" "sp_verified_at s = t"
      "sp_project_id s = Some (pj_id p)" "pj_repo p = Some (rs_full_name r0)" "pj_hidden p = inactive snapshot r0"
      "\<And>q. q \<in> set (gd_projects d0) \<Longrightarrow> pj_repository_id q = Some (rs_repository_id r0) \<Longrightarrow> pj_id q = pj_id p"
  have "s \<in> set (gd_scopes d')" using replace_item_scopes [OF ok item s(1)] s(2) assms(4) by simp
  moreover have "p \<in> set (gd_projects d')" using replace_item_others [OF ok item p(1)] p(2) assms(4) by simp
  ultimately show ?thesis using rest p(2) by (intro projectedI [of s d' p])
qed

lemma replace_items_keep_projected:
  "replace_items netloc_ok snapshot t changed rs d = Inr (d', touched) \<Longrightarrow> recon_ok d \<Longrightarrow>
     projected snapshot t d0 d r0 \<Longrightarrow> rs_repository_id r0 \<notin> rs_repository_id ` set rs \<Longrightarrow>
     projected snapshot t d0 d' r0"
proof (induction rs arbitrary: d touched)
  case (Cons r rs)
  then obtain d1 first more where item: "replace_item netloc_ok snapshot t changed r d = Inr (d1, first)"
    and rest: "replace_items netloc_ok snapshot t changed rs d1 = Inr (d', more)"
    by (auto simp: result_then_ok)
  show ?case
    using Cons.IH [OF rest replace_item_ok [OF Cons.prems(2) item]
        replace_item_keeps_projected [OF Cons.prems(2) item Cons.prems(3)]] Cons.prems(4) by simp
qed simp

lemma replace_items_others:
  "replace_items netloc_ok snapshot t changed rs d = Inr (d', touched) \<Longrightarrow> recon_ok d \<Longrightarrow>
     q \<in> set (gd_projects d) \<Longrightarrow> pj_repository_id q \<notin> Some ` rs_repository_id ` set rs \<Longrightarrow> q \<in> set (gd_projects d')"
proof (induction rs arbitrary: d touched)
  case (Cons r rs)
  then obtain d1 first more where item: "replace_item netloc_ok snapshot t changed r d = Inr (d1, first)"
    and rest: "replace_items netloc_ok snapshot t changed rs d1 = Inr (d', more)"
    by (auto simp: result_then_ok)
  show ?case
    using Cons.IH [OF rest replace_item_ok [OF Cons.prems(2) item]]
      replace_item_others [OF Cons.prems(2) item Cons.prems(3)] Cons.prems(4) by simp
qed simp

lemma replace_items_project:
  "replace_items netloc_ok snapshot t changed rs d = Inr (d', touched) \<Longrightarrow> recon_ok d \<Longrightarrow>
     distinct (map rs_repository_id rs) \<Longrightarrow> r \<in> set rs \<Longrightarrow> projected snapshot t d d' r"
proof (induction rs arbitrary: d touched)
  case (Cons r0 rs)
  then obtain d1 first more where item: "replace_item netloc_ok snapshot t changed r0 d = Inr (d1, first)"
    and rest: "replace_items netloc_ok snapshot t changed rs d1 = Inr (d', more)"
    by (auto simp: result_then_ok)
  have ok1: "recon_ok d1" by (rule replace_item_ok [OF Cons.prems(2) item])
  show ?case
  proof (cases "r = r0")
    case True
    then show ?thesis
      using replace_items_keep_projected [OF rest ok1 replace_item_projects [OF Cons.prems(2) item]] Cons.prems(3) by simp
  next
    case False
    with Cons.prems(4) have here: "r \<in> set rs" by simp
    then have "rs_repository_id r \<in> rs_repository_id ` set rs" by (rule imageI)
    with here Cons.prems(3) have r: "r \<in> set rs" "rs_repository_id r \<noteq> rs_repository_id r0" by force+
    have "projected snapshot t d1 d' r" using Cons.IH [OF rest ok1 _ r(1)] Cons.prems(3) by simp
    then show ?thesis
    proof (rule projectedE)
      fix s p
      assume sp: "s \<in> set (gd_scopes d')" "p \<in> set (gd_projects d')"
        "cached_snapshot s = r\<lparr>rs_disabled := inactive snapshot r\<rparr>"
        "sp_installation_id s = is_installation_id snapshot" "sp_removed_at s = None" "sp_verified_at s = t"
        "sp_project_id s = Some (pj_id p)" "pj_repository_id p = Some (rs_repository_id r)"
        "pj_repo p = Some (rs_full_name r)" "pj_hidden p = inactive snapshot r"
        and known: "\<And>q. q \<in> set (gd_projects d1) \<Longrightarrow> pj_repository_id q = Some (rs_repository_id r) \<Longrightarrow> pj_id q = pj_id p"
      have "pj_id q = pj_id p" if "q \<in> set (gd_projects d)" "pj_repository_id q = Some (rs_repository_id r)" for q
        using known that replace_item_others [OF Cons.prems(2) item that(1)] r(2) by simp
      then show ?thesis using sp by (intro projectedI [of s d' p])
    qed
  qed
qed simp

text \<open>Closing the repositories that vanished hides none of the projects of the snapshot.\<close>

lemma closing_keeps_projected:
  assumes ok: "recon_ok d1" and "projected snapshot t d d1 r" "r \<in> set (is_repositories snapshot)"
    and f: "d' = expire_memberships projects t (close_scopes (vanished snapshot) f d1)"
  shows "projected snapshot t d d' r"
  using assms(2)
proof (rule projectedE)
  fix s p
  assume s: "s \<in> set (gd_scopes d1)" "sp_repository_id s = rs_repository_id r"
    and p: "p \<in> set (gd_projects d1)" "pj_repository_id p = Some (rs_repository_id r)"
    and rest: "cached_snapshot s = r\<lparr>rs_disabled := inactive snapshot r\<rparr>"
      "sp_installation_id s = is_installation_id snapshot" "sp_removed_at s = None" "sp_verified_at s = t"
      "sp_project_id s = Some (pj_id p)" "pj_repo p = Some (rs_full_name r)" "pj_hidden p = inactive snapshot r"
      "\<And>q. q \<in> set (gd_projects d) \<Longrightarrow> pj_repository_id q = Some (rs_repository_id r) \<Longrightarrow> pj_id q = pj_id p"
  have "s \<in> set (gd_scopes d')"
    using s assms(3) by (force simp: f close_scopes_scopes set_update_where vanished_def)
  moreover have "pj_id p \<notin> set (bound_projects (filter (vanished snapshot) (gd_scopes d1)))"
  proof
    assume "pj_id p \<in> set (bound_projects (filter (vanished snapshot) (gd_scopes d1)))"
    then obtain x where x: "x \<in> set (gd_scopes d1)" "vanished snapshot x" "sp_project_id x = Some (pj_id p)"
      by (auto simp: bound_member)
    obtain p' where p': "p' \<in> set (gd_projects d1)" "pj_id p' = pj_id p" "pj_repository_id p' = Some (sp_repository_id x)"
      by (rule bound_project [OF ok x(1,3)])
    have "p' = p"
      using distinct_key_eq [of pj_id "gd_projects d1" p' p] ok p(1) p' by (simp add: recon_ok_def)
    then have "sp_repository_id x = rs_repository_id r" using p(2) p'(3) by simp
    then show False using x(2) assms(3) imageI [OF assms(3), of rs_repository_id] by (simp add: vanished_def)
  qed
  then have "p \<in> set (gd_projects d')"
    using p(1) by (force simp: f expire_memberships_def close_scopes_def hide_projects_def set_update_where)
  ultimately show ?thesis using rest p(2) by (intro projectedI [of s d' p])
qed

text \<open>
  C32. Repositories are identified by number, never by name.  After any history an accepted snapshot, unless it is older than
  the tables, is what the tables show of its installation: every repository of the
  snapshot, also a renamed one, has its scope row with the snapshot's details, bound to the project of its
  numeric id, the same project as before if there was one; that project carries the current
  name and is visible exactly if the repository is active.  The project of a repository that the snapshot does not have
  is left alone or hidden, and keeps its name and its id.  An older snapshot changes nothing.
\<close>

theorem snapshot_projected_by_id:
  "case apply_change netloc_ok (Replace_Scope snapshot t) (authority_history netloc_ok events network) of
     Inl _ \<Rightarrow> True
   | Inr (res, d') \<Rightarrow>
       if snapshot_stale snapshot t (authority_history netloc_ok events network)
       then res = nothing_done (is_installation_id snapshot) \<and> d' = authority_history netloc_ok events network
       else
         list_all (projected snapshot t (authority_history netloc_ok events network) d') (is_repositories snapshot) \<and>
         list_all (\<lambda>q. pj_repository_id q \<in> Some ` rs_repository_id ` set (is_repositories snapshot) \<or>
             q \<in> set (gd_projects d') \<or> q\<lparr>pj_hidden := True\<rparr> \<in> set (gd_projects d'))
           (gd_projects (authority_history netloc_ok events network))"
proof (cases "apply_change netloc_ok (Replace_Scope snapshot t) (authority_history netloc_ok events network)")
  case (Inr r)
  obtain res d' where r: "r = (res, d')" by (cases r)
  let ?d = "authority_history netloc_ok events network"
  let ?repositories = "is_repositories snapshot"
  have ok: "recon_ok (store_installation snapshot t ?d)"
    by (rule store_installation_ok [OF authority_history_ok])
  have start: "gd_projects (store_installation snapshot t ?d) = gd_projects ?d"
    by (simp add: store_installation_def set_installation_def split: option.split)
  have change: "snapshot_ok snapshot" "replace_rows netloc_ok snapshot t ?d = Inr (res, d')"
    using apply_change_Inr [OF Inr [unfolded r]] by simp_all
  then have distinct: "distinct (map rs_repository_id ?repositories)" by (simp only: snapshot_ok_def)
  from change(2) show ?thesis
  proof (cases rule: replace_rows_Inr)
    case nothing
    then show ?thesis by (simp add: Inr r)
  next
    case (replaced changed d1 touched)
    have "projected snapshot t ?d d' x" if x: "x \<in> set ?repositories" for x
    proof -
      have "projected snapshot t (store_installation snapshot t ?d) d1 x"
        by (rule replace_items_project [OF replaced(2) ok distinct x])
      then have "projected snapshot t ?d d1 x" by (simp add: projected_def start)
      from closing_keeps_projected [OF replace_items_ok [OF replaced(2) ok] this x replaced(4)] show ?thesis .
    qed
    moreover have "q \<in> set (gd_projects d') \<or> q\<lparr>pj_hidden := True\<rparr> \<in> set (gd_projects d')"
      if "q \<in> set (gd_projects ?d)" "pj_repository_id q \<notin> Some ` rs_repository_id ` set ?repositories" for q
    proof -
      have "q \<in> set (gd_projects d1)" using replace_items_others [OF replaced(2) ok] that by (simp add: start)
      then show ?thesis
        by (force simp: replaced(4) expire_memberships_def close_scopes_def hide_projects_def set_update_where)
    qed
    ultimately show ?thesis using replaced(1) by (auto simp: Inr r list_all_iff)
  qed
qed simp

section \<open>A name that is used again\<close>

lemma replace_items_name_taken:
  assumes "replace_items netloc_ok snapshot t changed rs d = Inr (d', touched)" "recon_ok d" "r \<in> set rs"
    "repository_key netloc_ok (rs_full_name r) = Inr key" "p \<in> set (gd_projects d)"
    "pj_repository_id p \<notin> Some ` rs_repository_id ` set rs"
  shows "pj_repo_key p \<noteq> Some key"
  using assms
proof (induction rs arbitrary: d touched)
  case (Cons r0 rs)
  from Cons.prems(1) obtain d1 first more where
    item: "replace_item netloc_ok snapshot t changed r0 d = Inr (d1, first)"
    and rest: "replace_items netloc_ok snapshot t changed rs d1 = Inr (d', more)"
    by (auto simp: result_then_ok)
  have other: "pj_repository_id p \<noteq> Some (rs_repository_id r0)" using Cons.prems(6) by simp
  note step = replace_item_others [OF Cons.prems(2) item Cons.prems(5) other]
  show ?case
  proof (cases "r = r0")
    case True
    with step Cons.prems(4) show ?thesis by simp
  next
    case False
    with Cons.prems step show ?thesis
      by (intro Cons.IH [OF rest replace_item_ok [OF Cons.prems(2) item]]) auto
  qed
qed simp

text \<open>
  A defect of the code.  The project of a repository that left every scope keeps its name, and names are
  unique in the table.  On sound tables, a snapshot that is not older than the tables and has a new repository
  of that name is refused as a whole by the unique index, although the two have different
  numbers.
\<close>

theorem reused_name_refused:
  assumes "recon_ok d" "r \<in> set (is_repositories snapshot)"
    and "repository_key netloc_ok (rs_full_name r) = Inr key"
    and "p \<in> set (gd_projects d)" "pj_repo_key p = Some key"
    and "pj_repository_id p \<notin> Some ` rs_repository_id ` set (is_repositories snapshot)"
    and "case installation_at (is_installation_id snapshot) d of None \<Rightarrow> True | Some i \<Rightarrow> \<not> stale (ix_reconciled_at i) t"
  shows "isl (replace_rows netloc_ok snapshot t d)"
proof (rule ccontr)
  assume "\<not> ?thesis"
  then obtain res d' where "replace_rows netloc_ok snapshot t d = Inr (res, d')"
    by (cases "replace_rows netloc_ok snapshot t d") auto
  then obtain changed d1 touched where items: "replace_items netloc_ok snapshot t changed (is_repositories snapshot)
      (store_installation snapshot t d) = Inr (d1, touched)"
    using assms(7)
    by (cases "installation_at (is_installation_id snapshot) d")
      (auto simp: replace_rows_def Let_def result_then_ok split: if_split_asm)
  have "p \<in> set (gd_projects (store_installation snapshot t d))"
    using assms(4) by (simp add: store_installation_def set_installation_def split: option.split)
  with replace_items_name_taken [OF items store_installation_ok [OF assms(1)] assms(2,3) _ assms(6)] assms(5)
  show False by simp
qed

definition sample_repository :: repository_snapshot where
  "sample_repository = \<lparr>rs_repository_id = 2, rs_owner_id = 6, rs_full_name = ''o/a'', rs_default_branch = ''main'',
     rs_visibility = Private, rs_archived = False, rs_disabled = False\<rparr>"

definition sample_installation :: installation_snapshot where
  "sample_installation = \<lparr>is_installation_id = 5, is_owner_id = 6, is_owner_login = ''o'',
     is_account_type = Account_user, is_selection = Selection_all, is_suspended_at = None, is_deleted_at = None,
     is_etag = None, is_cursor = None, is_repositories = [sample_repository]\<rparr>"

text \<open>The first snapshot of an installation.\<close>

lemma sample_snapshot_accepted:
  "\<not> isl (apply_change (\<lambda>_. True) (Replace_Scope sample_installation (utc 1))
     \<lparr>gd_installations = [], gd_scopes = [], gd_projects = [], gd_next_project = 1, gd_users = [], gd_grants = []\<rparr>)"
  by code_simp

theorem snapshot_projected_by_id_witness:
  "\<exists>res d'. apply_change (\<lambda>_. True) (Replace_Scope sample_installation (utc 1))
      (authority_history (\<lambda>_. True) ([] :: unit authority_event list) ()) = Inr (res, d') \<and>
    projected sample_installation (utc 1)
      (authority_history (\<lambda>_. True) ([] :: unit authority_event list) ()) d' sample_repository"
proof -
  let ?d = "authority_history (\<lambda>_. True) ([] :: unit authority_event list) ()"
  have start: "?d = \<lparr>gd_installations = [], gd_scopes = [], gd_projects = [], gd_next_project = 1, gd_users = [], gd_grants = []\<rparr>"
    by (simp add: authority_history_def)
  obtain res d' where run: "apply_change (\<lambda>_. True) (Replace_Scope sample_installation (utc 1)) ?d = Inr (res, d')"
    using sample_snapshot_accepted unfolding start [symmetric] by (metis sum.collapse(2) surj_pair)
  have "\<not> snapshot_stale sample_installation (utc 1) ?d"
    unfolding start by (simp add: snapshot_stale_def installation_at_def)
  with snapshot_projected_by_id [where netloc_ok = "\<lambda>_. True" and snapshot = sample_installation and t = "utc 1"
      and events = "[] :: unit authority_event list" and network = "()"] run
  show ?thesis by (simp add: sample_installation_def)
qed

text \<open>The repository 1 of the same name was deleted on GitHub before.\<close>

definition sample_tables :: recon_db where
  "sample_tables = \<lparr>gd_installations = [], gd_scopes = [],
     gd_projects = [(new_project 1 1 ''o/a'' ''o/a'' (utc 0))\<lparr>pj_hidden := True\<rparr>], gd_next_project = 2,
     gd_users = [], gd_grants = []\<rparr>"

theorem reused_name_refused_witness:
  "isl (replace_rows (\<lambda>_. True) sample_installation (utc 1) sample_tables)"
proof (rule reused_name_refused [where r = sample_repository and key = "''o/a''"
      and p = "(new_project 1 1 ''o/a'' ''o/a'' (utc 0))\<lparr>pj_hidden := True\<rparr>"])
  show "recon_ok sample_tables"
    by (simp add: sample_tables_def recon_ok_def project_indexes_def new_project_def)
  show "repository_key (\<lambda>_. True) (rs_full_name sample_repository) = Inr ''o/a''"
    by code_simp
qed (simp_all add: sample_installation_def sample_repository_def sample_tables_def new_project_def installation_at_def)

end
