(* ===== verification/Retention.thy ===== *)
theory Retention
  imports Claim_Store Token_Store Webhook_Store Usage_Store Ingest_Attempt Result_Persist Operational_Signals
begin

text \<open>
  Retention (\<^verbatim>\<open>infrastructure/db/retention.py\<close> and its loop in \<^verbatim>\<open>main.py\<close>): one
  transaction deletes a bounded batch of expired rows of every table, and turns the completed
  claims of the runs it deletes into tombstones first.  A pass that raises commits nothing.
\<close>

section \<open>Tables\<close>

record retention_days =
  raw_artifacts :: int
  normalized_history :: int
  token_audit_after_inactive :: int
  deletion_tombstone :: int

definition RETENTION_DAYS :: retention_days where
  "RETENTION_DAYS =
     \<lparr>raw_artifacts = 30, normalized_history = 365, token_audit_after_inactive = 400, deletion_tombstone = 30\<rparr>"

definition RETENTION_BATCH_SIZE :: nat where "RETENTION_BATCH_SIZE = 500"

record stored_artifact = scanner_artifact +
  sf_id :: int
  sf_created_at :: datetime

text \<open>The claims and charges are kept with the numbers of their rows.\<close>

record retention_db =
  rtn_artifacts :: "stored_artifact list"
  rtn_scanner_runs :: "scanner_run list"
  rtn_runs :: "run_row list"
  rtn_local :: "(int \<times> local_claim_row) list"
  rtn_github :: "(int \<times> github_claim_row) list"
  rtn_tokens :: "api_token_row list"
  rtn_deliveries :: "delivery_row list"
  rtn_attempts :: "attempt_record list"
  rtn_charges :: "(int \<times> usage_charge) list"

record cleanup_result =
  cu_raw_artifacts :: nat
  cu_runs :: nat
  cu_tombstones :: nat
  cu_token_audits :: nat
  cu_webhook_deliveries :: nat
  cu_ingest_attempts :: nat
  cu_usage_charges :: nat

section \<open>Batches\<close>

text \<open>A column that may be NULL sorts before every time.\<close>

definition nullable_time :: "datetime option \<Rightarrow> int list" where
  "nullable_time t = (case t of None \<Rightarrow> [] | Some d \<Rightarrow> [dt_instant d])"

text \<open>The ids of the first expired rows, ordered by a time and then by the id.\<close>

definition expired_batch ::
    "('a \<Rightarrow> 'i::linorder) \<Rightarrow> ('a \<Rightarrow> datetime option) \<Rightarrow> ('a \<Rightarrow> bool) \<Rightarrow> 'a list \<Rightarrow> 'i list" where
  "expired_batch row_id time expired rows =
     map row_id (take RETENTION_BATCH_SIZE
       (sort_key (nullable_time \<circ> time) (sort_key row_id (filter expired rows))))"

definition delete_ids :: "('a \<Rightarrow> 'i) \<Rightarrow> 'i list \<Rightarrow> 'a list \<Rightarrow> 'a list" where
  "delete_ids row_id ids rows = delete_where (\<lambda>r. row_id r \<in> set ids) rows"

definition deleted_count :: "('a \<Rightarrow> 'i) \<Rightarrow> 'i list \<Rightarrow> 'a list \<Rightarrow> nat" where
  "deleted_count row_id ids rows = count_where (\<lambda>r. row_id r \<in> set ids) rows"

definition purge ::
    "('a \<Rightarrow> 'i::linorder) \<Rightarrow> ('a \<Rightarrow> datetime option) \<Rightarrow> ('a \<Rightarrow> bool) \<Rightarrow> 'a list \<Rightarrow> nat \<times> 'a list" where
  "purge row_id time expired rows =
     (let ids = expired_batch row_id time expired rows in
      (deleted_count row_id ids rows, delete_ids row_id ids rows))"

section \<open>What has expired\<close>

definition before :: "datetime option \<Rightarrow> datetime \<Rightarrow> bool" where
  "before t cutoff \<longleftrightarrow> (case t of None \<Rightarrow> False | Some d \<Rightarrow> dt_le d cutoff)"

definition cutoff :: "datetime \<Rightarrow> int \<Rightarrow> datetime" where
  "cutoff now n = dt_add now (- days n)"

definition raw_expired :: "datetime \<Rightarrow> stored_artifact \<Rightarrow> bool" where
  "raw_expired now a \<longleftrightarrow> dt_le (sf_created_at a) (cutoff now (raw_artifacts RETENTION_DAYS))"

definition run_aged :: "datetime \<Rightarrow> run_row \<Rightarrow> bool" where
  "run_aged now r \<longleftrightarrow>
     (let limit = cutoff now (normalized_history RETENTION_DAYS) in
      before (rr_completed_at r) limit \<or> (rr_completed_at r = None \<and> before (rr_started_at r) limit))"

definition has_artifacts :: "retention_db \<Rightarrow> string \<Rightarrow> bool" where
  "has_artifacts d run_id \<longleftrightarrow>
     (\<exists>a \<in> set (rtn_artifacts d). \<exists>s \<in> set (rtn_scanner_runs d).
        sa_scanner_run_id a = sc_id s \<and> sc_run_id s = run_id)"

definition run_expired :: "datetime \<Rightarrow> retention_db \<Rightarrow> run_row \<Rightarrow> bool" where
  "run_expired now d r \<longleftrightarrow> run_aged now r \<and> \<not> has_artifacts d (rr_run_id r)"

definition tombstone_expired :: "datetime \<Rightarrow> 'a claim_life_scheme \<Rightarrow> bool" where
  "tombstone_expired now row \<longleftrightarrow> cl_state row = Tombstoned \<and> before (cl_tombstone_expires_at row) now"

definition token_inactive :: "datetime \<Rightarrow> api_token_row \<Rightarrow> bool" where
  "token_inactive now row \<longleftrightarrow>
     (let limit = cutoff now (token_audit_after_inactive RETENTION_DAYS) in
      before (tr_revoked_at row) limit \<or> dt_le (tr_expires_at row) limit)"

definition token_referenced :: "retention_db \<Rightarrow> string \<Rightarrow> bool" where
  "token_referenced d token_id \<longleftrightarrow>
     (\<exists>r \<in> set (rtn_runs d). rr_submitting_token_id r = Some token_id) \<or>
     (\<exists>c \<in> set (rtn_local d). lr_token_id (snd c) = token_id)"

definition token_expired :: "datetime \<Rightarrow> retention_db \<Rightarrow> api_token_row \<Rightarrow> bool" where
  "token_expired now d row \<longleftrightarrow> token_inactive now row \<and> \<not> token_referenced d (tr_token_id row)"

section \<open>Deleting runs\<close>

definition on_rows :: "('a list \<Rightarrow> 'a list) \<Rightarrow> ('i \<times> 'a) list \<Rightarrow> ('i \<times> 'a) list" where
  "on_rows f rows = zip (map fst rows) (f (map snd rows))"

definition bury_run :: "datetime \<Rightarrow> datetime \<Rightarrow> string \<Rightarrow> nat \<times> retention_db \<Rightarrow> nat \<times> retention_db" where
  "bury_run now expiry run_id = (\<lambda>(converted, d).
     (converted +
        (if fst (local_tombstone_completed run_id now expiry (map snd (rtn_local d))) then 1 else 0) +
        (if fst (github_tombstone_completed run_id now expiry (map snd (rtn_github d))) then 1 else 0),
      d\<lparr>rtn_local := on_rows (snd \<circ> local_tombstone_completed run_id now expiry) (rtn_local d),
        rtn_github := on_rows (snd \<circ> github_tombstone_completed run_id now expiry) (rtn_github d)\<rparr>))"

definition prepare_runs_for_deletion :: "string list \<Rightarrow> datetime \<Rightarrow> retention_db \<Rightarrow> nat \<times> retention_db" where
  "prepare_runs_for_deletion run_ids now d =
     fold (bury_run now (dt_add now (days (deletion_tombstone RETENTION_DAYS)))) run_ids (0, d)"

text \<open>The foreign keys: children of a run go with it, other rows forget it.\<close>

definition forget_run :: "string list \<Rightarrow> 'a claim_life_scheme \<Rightarrow> 'a claim_life_scheme" where
  "forget_run run_ids row =
     (if cl_run_id row \<in> Some ` set run_ids then row\<lparr>cl_run_id := None\<rparr> else row)"

definition delete_runs :: "string list \<Rightarrow> retention_db \<Rightarrow> retention_db" where
  "delete_runs run_ids d =
     (let gone = filter (\<lambda>s. sc_run_id s \<in> set run_ids) (rtn_scanner_runs d) in
      d\<lparr>rtn_runs := delete_ids rr_run_id run_ids (rtn_runs d),
        rtn_scanner_runs := delete_ids sc_run_id run_ids (rtn_scanner_runs d),
        rtn_artifacts := delete_ids sa_scanner_run_id (map sc_id gone) (rtn_artifacts d),
        rtn_local := map (apsnd (forget_run run_ids)) (rtn_local d),
        rtn_github := map (apsnd (forget_run run_ids)) (rtn_github d),
        rtn_attempts := map (\<lambda>a. if at_run_id a \<in> Some ` set run_ids then a\<lparr>at_run_id := None\<rparr> else a)
          (rtn_attempts d)\<rparr>)"

section \<open>One pass\<close>

definition purge_artifacts :: "datetime \<Rightarrow> retention_db \<Rightarrow> nat \<times> retention_db" where
  "purge_artifacts now d =
     (let (n, rows) = purge sf_id (Some \<circ> sf_created_at) (raw_expired now) (rtn_artifacts d) in
      (n, d\<lparr>rtn_artifacts := rows\<rparr>))"

definition expired_runs :: "datetime \<Rightarrow> retention_db \<Rightarrow> string list" where
  "expired_runs now d = expired_batch rr_run_id rr_started_at (run_expired now d) (rtn_runs d)"

definition purge_runs :: "datetime \<Rightarrow> retention_db \<Rightarrow> nat \<times> retention_db" where
  "purge_runs now d =
     (let ids = expired_runs now d; (_, d') = prepare_runs_for_deletion ids now d in
      (deleted_count rr_run_id ids (rtn_runs d'), delete_runs ids d'))"

definition purge_tombstones :: "datetime \<Rightarrow> retention_db \<Rightarrow> nat \<times> retention_db" where
  "purge_tombstones now d =
     (let (m, local_rows) = purge fst (cl_tombstone_expires_at \<circ> snd) (tombstone_expired now \<circ> snd) (rtn_local d);
          (n, github_rows) = purge fst (cl_tombstone_expires_at \<circ> snd) (tombstone_expired now \<circ> snd) (rtn_github d) in
      (m + n, d\<lparr>rtn_local := local_rows, rtn_github := github_rows\<rparr>))"

definition purge_tokens :: "datetime \<Rightarrow> retention_db \<Rightarrow> nat \<times> retention_db" where
  "purge_tokens now d =
     (let (n, rows) = purge tr_token_id (Some \<circ> tr_expires_at) (token_expired now d) (rtn_tokens d) in
      (n, d\<lparr>rtn_tokens := rows\<rparr>))"

definition purge_deliveries :: "datetime \<Rightarrow> retention_db \<Rightarrow> nat \<times> retention_db" where
  "purge_deliveries now d =
     (let (n, rows) = purge dr_delivery_id (Some \<circ> dr_expires_at) (\<lambda>r. dt_le (dr_expires_at r) now)
            (rtn_deliveries d) in
      (n, d\<lparr>rtn_deliveries := rows\<rparr>))"

definition purge_attempts :: "datetime \<Rightarrow> retention_db \<Rightarrow> nat \<times> retention_db" where
  "purge_attempts now d =
     (let (n, rows) = purge at_id (Some \<circ> at_expires_at) (\<lambda>r. dt_le (at_expires_at r) now) (rtn_attempts d) in
      (n, d\<lparr>rtn_attempts := rows\<rparr>))"

definition purge_charges :: "datetime \<Rightarrow> retention_db \<Rightarrow> nat \<times> retention_db" where
  "purge_charges now d =
     (let (n, rows) = purge fst (Some \<circ> ch_expires_at \<circ> snd) (\<lambda>r. dt_le (ch_expires_at (snd r)) now)
            (rtn_charges d) in
      (n, d\<lparr>rtn_charges := rows\<rparr>))"

definition run_retention_cleanup :: "datetime \<Rightarrow> retention_db \<Rightarrow> cleanup_result \<times> retention_db" where
  "run_retention_cleanup now d0 =
     (let (artifacts, d1) = purge_artifacts now d0;
          (runs, d2) = purge_runs now d1;
          (tombstones, d3) = purge_tombstones now d2;
          (tokens, d4) = purge_tokens now d3;
          (deliveries, d5) = purge_deliveries now d4;
          (attempts, d6) = purge_attempts now d5;
          (charges, d7) = purge_charges now d6 in
      (\<lparr>cu_raw_artifacts = artifacts, cu_runs = runs, cu_tombstones = tombstones,
        cu_token_audits = tokens, cu_webhook_deliveries = deliveries, cu_ingest_attempts = attempts,
        cu_usage_charges = charges\<rparr>, d7))"

text \<open>The signal of a pass that committed, and of one that raised.\<close>

definition cleanup_signal :: "int \<Rightarrow> cleanup_result option \<Rightarrow> retention_signal" where
  "cleanup_signal elapsed_ms result =
     (case result of
        Some r \<Rightarrow>
          \<lparr>rg_outcome = ''completed'', rg_duration_ms = max 0 elapsed_ms,
           rg_raw_artifacts = int (cu_raw_artifacts r), rg_normalized_runs = int (cu_runs r),
           rg_token_audits = int (cu_token_audits r), rg_tombstones = int (cu_tombstones r),
           rg_webhook_deliveries = int (cu_webhook_deliveries r),
           rg_ingest_attempts = int (cu_ingest_attempts r), rg_usage_charges = int (cu_usage_charges r)\<rparr>
      | None \<Rightarrow>
          \<lparr>rg_outcome = ''failed'', rg_duration_ms = max 0 elapsed_ms, rg_raw_artifacts = 0,
           rg_normalized_runs = 0, rg_token_audits = 0, rg_tombstones = 0, rg_webhook_deliveries = 0,
           rg_ingest_attempts = 0, rg_usage_charges = 0\<rparr>)"

section \<open>Repeated passes come to an end\<close>

text \<open>Nothing is left to delete.\<close>

definition drained :: "datetime \<Rightarrow> retention_db \<Rightarrow> bool" where
  "drained now d \<longleftrightarrow>
     (\<forall>a \<in> set (rtn_artifacts d). \<not> raw_expired now a) \<and>
     (\<forall>r \<in> set (rtn_runs d). \<not> run_expired now d r) \<and>
     (\<forall>c \<in> set (rtn_local d). \<not> tombstone_expired now (snd c)) \<and>
     (\<forall>c \<in> set (rtn_github d). \<not> tombstone_expired now (snd c)) \<and>
     (\<forall>t \<in> set (rtn_tokens d). \<not> token_expired now d t) \<and>
     (\<forall>r \<in> set (rtn_deliveries d). \<not> dt_le (dr_expires_at r) now) \<and>
     (\<forall>r \<in> set (rtn_attempts d). \<not> dt_le (at_expires_at r) now) \<and>
     (\<forall>r \<in> set (rtn_charges d). \<not> dt_le (ch_expires_at (snd r)) now)"

text \<open>How many rows are old enough.\<close>

definition backlog :: "datetime \<Rightarrow> retention_db \<Rightarrow> nat" where
  "backlog now d =
     count_where (raw_expired now) (rtn_artifacts d) + count_where (run_aged now) (rtn_runs d) +
     count_where (tombstone_expired now \<circ> snd) (rtn_local d) +
     count_where (tombstone_expired now \<circ> snd) (rtn_github d) +
     count_where (token_inactive now) (rtn_tokens d) +
     count_where (\<lambda>r. dt_le (dr_expires_at r) now) (rtn_deliveries d) +
     count_where (\<lambda>r. dt_le (at_expires_at r) now) (rtn_attempts d) +
     count_where (\<lambda>r. dt_le (ch_expires_at (snd r)) now) (rtn_charges d)"

lemma batch_member:
  assumes "i \<in> set (expired_batch row_id time expired rows)"
  shows "\<exists>r \<in> set rows. expired r \<and> row_id r = i"
  using assms by (auto simp: expired_batch_def dest!: in_set_takeD)

lemma batch_empty_iff: "expired_batch row_id time expired rows = [] \<longleftrightarrow> (\<forall>r \<in> set rows. \<not> expired r)"
proof -
  have "expired_batch row_id time expired rows = [] \<longleftrightarrow>
      sort_key (nullable_time \<circ> time) (sort_key row_id (filter expired rows)) = []"
    by (simp add: expired_batch_def RETENTION_BATCH_SIZE_def)
  also have "\<dots> \<longleftrightarrow> filter expired rows = []"
    by (metis length_0_conv length_sort)
  finally show ?thesis by (simp add: filter_empty_conv)
qed

lemma batch_length: "length (expired_batch row_id time expired rows) \<le> 500"
  by (simp add: expired_batch_def RETENTION_BATCH_SIZE_def)

lemma set_delete_ids: "set (delete_ids row_id ids rows) \<subseteq> set rows"
  by (auto simp: delete_ids_def delete_where_def)

lemma count_delete_less:
  assumes "r \<in> set rows" "p r" "row_id r \<in> set ids"
  shows "count_where p (delete_ids row_id ids rows) < count_where p rows"
  using assms
proof (induction rows)
  case (Cons x rows)
  have "count_where p (delete_ids row_id ids rows) \<le> count_where p rows"
    by (simp add: delete_ids_def count_where_delete_le)
  with Cons show ?case by (auto simp: delete_ids_def delete_where_def count_where_def)
qed simp

lemma purge_progress:
  assumes "\<And>r. expired r \<Longrightarrow> p r"
  shows "count_where p (snd (purge row_id time expired rows)) + of_bool (\<exists>r \<in> set rows. expired r) \<le> count_where p rows"
proof (cases "\<exists>r \<in> set rows. expired r")
  case True
  then have "expired_batch row_id time expired rows \<noteq> []" by (simp add: batch_empty_iff)
  then obtain i where i: "i \<in> set (expired_batch row_id time expired rows)" by (meson ex_in_conv set_empty)
  from batch_member [OF i] obtain r where "r \<in> set rows" "expired r" "row_id r = i" by blast
  with i assms count_delete_less [of r rows p row_id] show ?thesis
    by (simp add: purge_def Let_def Suc_leI True)
qed (simp add: purge_def Let_def delete_ids_def count_where_delete_le)

lemma purge_idle: "\<forall>r \<in> set rows. \<not> expired r \<Longrightarrow> snd (purge row_id time expired rows) = rows"
  using batch_empty_iff [of row_id time expired rows]
  by (simp add: purge_def Let_def delete_ids_def delete_where_def)

lemma set_purge: "set (snd (purge row_id time expired rows)) \<subseteq> set rows"
  by (simp add: purge_def Let_def set_delete_ids)

text \<open>Burying a run changes no key and makes no tombstone that has expired.\<close>

lemma on_rows_update: "on_rows (update_where p f) rows = update_where (p \<circ> snd) (apsnd f) rows"
  by (induction rows) (auto simp: on_rows_def update_where_def)

lemma buried_rows:
  "on_rows (snd \<circ> life_tombstone run_id now expiry) rows =
     update_where (\<lambda>c. cl_run_id (snd c) = Some run_id \<and> cl_state (snd c) = Completed)
       (apsnd (\<lambda>row. row\<lparr>cl_state := Tombstoned, cl_run_id := None, cl_tombstoned_at := Some now,
          cl_tombstone_expires_at := Some expiry, cl_updated_at := now\<rparr>)) rows"
proof -
  have eq: "snd \<circ> life_tombstone run_id now expiry =
      update_where (\<lambda>row. cl_run_id row = Some run_id \<and> cl_state row = Completed)
        (\<lambda>row. row\<lparr>cl_state := Tombstoned, cl_run_id := None, cl_tombstoned_at := Some now,
          cl_tombstone_expires_at := Some expiry, cl_updated_at := now\<rparr>)"
    by (rule ext) (simp add: life_tombstone_def Let_def)
  show ?thesis unfolding eq on_rows_update by (simp add: comp_def)
qed

lemma bury_run_fields [simp]:
  "rtn_artifacts (snd (bury_run now expiry run_id x)) = rtn_artifacts (snd x)"
  "rtn_scanner_runs (snd (bury_run now expiry run_id x)) = rtn_scanner_runs (snd x)"
  "rtn_runs (snd (bury_run now expiry run_id x)) = rtn_runs (snd x)"
  "rtn_tokens (snd (bury_run now expiry run_id x)) = rtn_tokens (snd x)"
  "rtn_deliveries (snd (bury_run now expiry run_id x)) = rtn_deliveries (snd x)"
  "rtn_attempts (snd (bury_run now expiry run_id x)) = rtn_attempts (snd x)"
  "rtn_charges (snd (bury_run now expiry run_id x)) = rtn_charges (snd x)"
  by (simp_all add: bury_run_def split: prod.split)

lemma prepared_fields [simp]:
  "rtn_artifacts (snd (fold (bury_run now expiry) ids x)) = rtn_artifacts (snd x)"
  "rtn_scanner_runs (snd (fold (bury_run now expiry) ids x)) = rtn_scanner_runs (snd x)"
  "rtn_runs (snd (fold (bury_run now expiry) ids x)) = rtn_runs (snd x)"
  "rtn_tokens (snd (fold (bury_run now expiry) ids x)) = rtn_tokens (snd x)"
  "rtn_deliveries (snd (fold (bury_run now expiry) ids x)) = rtn_deliveries (snd x)"
  "rtn_attempts (snd (fold (bury_run now expiry) ids x)) = rtn_attempts (snd x)"
  "rtn_charges (snd (fold (bury_run now expiry) ids x)) = rtn_charges (snd x)"
  by (induction ids arbitrary: x) simp_all

text \<open>What a burial and a deletion of runs keep of a table of claims.\<close>

definition claim_kept :: "datetime \<Rightarrow> 'i \<times> 'a claim_life_scheme \<Rightarrow> 'i \<times> 'a claim_life_scheme \<Rightarrow> bool" where
  "claim_kept now c c' \<longleftrightarrow>
     fst c' = fst c \<and> claim_life.more (snd c') = claim_life.more (snd c) \<and>
     (tombstone_expired now (snd c') \<longleftrightarrow> tombstone_expired now (snd c)) \<and>
     (cl_state (snd c') = Completed \<longrightarrow> cl_state (snd c) = Completed \<and>
        (cl_run_id (snd c') = cl_run_id (snd c) \<or> cl_run_id (snd c') = None))"

abbreviation same_claims :: "datetime \<Rightarrow> ('i \<times> 'a claim_life_scheme) list \<Rightarrow> ('i \<times> 'a claim_life_scheme) list \<Rightarrow> bool" where
  "same_claims now \<equiv> list_all2 (claim_kept now)"

lemma same_claims_refl: "same_claims now rows rows"
  by (simp add: claim_kept_def list_all2_refl)

lemma same_claims_trans: "same_claims now a b \<Longrightarrow> same_claims now b c \<Longrightarrow> same_claims now a c"
  by (rule list_all2_trans [of "claim_kept now" "claim_kept now" "claim_kept now"]) (auto simp: claim_kept_def)

lemma same_claims_keys: "same_claims now a b \<Longrightarrow> map fst b = map fst a"
  by (induction rule: list_all2_induct) (auto simp: claim_kept_def)

lemma same_claims_count:
  "same_claims now a b \<Longrightarrow>
     count_where (tombstone_expired now \<circ> snd) b = count_where (tombstone_expired now \<circ> snd) a"
  by (induction rule: list_all2_induct) (auto simp: claim_kept_def count_where_def)

lemma same_claims_expired:
  "same_claims now a b \<Longrightarrow>
     (\<exists>c \<in> set b. tombstone_expired now (snd c)) \<longleftrightarrow> (\<exists>c \<in> set a. tombstone_expired now (snd c))"
  by (induction rule: list_all2_induct) (auto simp: claim_kept_def)

lemma same_claims_more:
  "same_claims now a b \<Longrightarrow> (claim_life.more \<circ> snd) ` set b = (claim_life.more \<circ> snd) ` set a"
  by (induction rule: list_all2_induct) (auto simp: claim_kept_def)

lemma same_claims_update:
  assumes "\<And>row. claim_life.more (f row) = claim_life.more row"
    and "\<And>row. p row \<Longrightarrow> tombstone_expired now (f row) = tombstone_expired now row"
    and "\<And>row. p row \<Longrightarrow> cl_state (f row) = Completed \<Longrightarrow> cl_state row = Completed \<and>
      (cl_run_id (f row) = cl_run_id row \<or> cl_run_id (f row) = None)"
  shows "same_claims now rows (update_where (p \<circ> snd) (apsnd f) rows)"
  using assms by (induction rows) (auto simp: claim_kept_def update_where_def)

lemma buried_claims:
  assumes "dt_instant now < dt_instant expiry"
  shows "same_claims now rows (on_rows (snd \<circ> life_tombstone run_id now expiry) rows)"
proof -
  let ?p = "\<lambda>row. cl_run_id row = Some run_id \<and> cl_state row = Completed"
  let ?f = "\<lambda>row. row\<lparr>cl_state := Tombstoned, cl_run_id := None, cl_tombstoned_at := Some now,
     cl_tombstone_expires_at := Some expiry, cl_updated_at := now\<rparr>"
  have "same_claims now rows (update_where (?p \<circ> snd) (apsnd ?f) rows)"
    by (rule same_claims_update) (use assms in \<open>auto simp: tombstone_expired_def before_def dt_le_def\<close>)
  then show ?thesis unfolding buried_rows by (simp add: comp_def)
qed

lemma buried_run:
  assumes "c \<in> set (on_rows (snd \<circ> life_tombstone run_id now expiry) rows)" "cl_state (snd c) = Completed"
  shows "cl_run_id (snd c) \<noteq> Some run_id \<and> c \<in> set rows"
  using assms by (auto simp: buried_rows set_update_where split: if_splits)

lemma bury_run_claims:
  "rtn_local (snd (bury_run now expiry run_id x)) = on_rows (snd \<circ> life_tombstone run_id now expiry) (rtn_local (snd x))"
  "rtn_github (snd (bury_run now expiry run_id x)) = on_rows (snd \<circ> life_tombstone run_id now expiry) (rtn_github (snd x))"
  by (simp_all add: bury_run_def local_tombstone_completed_def github_tombstone_completed_def split: prod.split)

lemma prepared_claims:
  assumes "dt_instant now < dt_instant expiry"
  shows "same_claims now (rtn_local (snd x)) (rtn_local (snd (fold (bury_run now expiry) ids x))) \<and>
    same_claims now (rtn_github (snd x)) (rtn_github (snd (fold (bury_run now expiry) ids x)))"
proof (induction ids arbitrary: x)
  case (Cons i ids)
  note IH = Cons [of "bury_run now expiry i x", unfolded bury_run_claims]
  from same_claims_trans [OF buried_claims [OF assms] IH [THEN conjunct1]]
    same_claims_trans [OF buried_claims [OF assms] IH [THEN conjunct2]]
  show ?case by simp
qed (simp add: same_claims_refl)

lemma forgotten_claims: "same_claims now rows (map (apsnd (forget_run ids)) rows)"
proof -
  have "map (apsnd (forget_run ids)) rows =
      update_where ((\<lambda>row. cl_run_id row \<in> Some ` set ids) \<circ> snd) (apsnd (\<lambda>row. row\<lparr>cl_run_id := None\<rparr>)) rows"
    by (auto simp: update_where_def forget_run_def)
  then show ?thesis
    by (simp only:) (rule same_claims_update, auto simp: tombstone_expired_def)
qed

lemma tombstone_later: "dt_instant now < dt_instant (dt_add now (days (deletion_tombstone RETENTION_DAYS)))"
  by (simp add: dt_add_def RETENTION_DAYS_def timedelta_defs)

lemma purged_runs:
  defines "e \<equiv> \<lambda>now d. snd (purge_runs now d)"
  shows "rtn_runs (e now d) = delete_ids rr_run_id (expired_runs now d) (rtn_runs d)"
    "rtn_artifacts (e now d) = delete_ids sa_scanner_run_id
       (map sc_id (filter (\<lambda>s. sc_run_id s \<in> set (expired_runs now d)) (rtn_scanner_runs d))) (rtn_artifacts d)"
    "rtn_scanner_runs (e now d) = delete_ids sc_run_id (expired_runs now d) (rtn_scanner_runs d)"
    "rtn_tokens (e now d) = rtn_tokens d" "rtn_deliveries (e now d) = rtn_deliveries d"
    "rtn_charges (e now d) = rtn_charges d"
    "rtn_attempts (e now d) = map (\<lambda>a. if at_run_id a \<in> Some ` set (expired_runs now d)
       then a\<lparr>at_run_id := None\<rparr> else a) (rtn_attempts d)"
  by (simp_all add: e_def purge_runs_def prepare_runs_for_deletion_def delete_runs_def Let_def split: prod.split)
    (metis (no_types, lifting) prepared_fields snd_conv)+

lemma purged_runs_claims:
  "same_claims now (rtn_local d) (rtn_local (snd (purge_runs now d)))"
  "same_claims now (rtn_github d) (rtn_github (snd (purge_runs now d)))"
proof -
  note kept = prepared_claims [OF tombstone_later, of now "(0, d)" "expired_runs now d"]
  have e: "snd (purge_runs now d) = delete_runs (expired_runs now d)
      (snd (prepare_runs_for_deletion (expired_runs now d) now d))"
    by (simp add: purge_runs_def Let_def split: prod.split)
  show "same_claims now (rtn_local d) (rtn_local (snd (purge_runs now d)))"
    unfolding e
    by (rule same_claims_trans [OF _ same_claims_trans [OF _ same_claims_refl]])
      (use kept forgotten_claims in \<open>auto simp: delete_runs_def Let_def prepare_runs_for_deletion_def\<close>)
  show "same_claims now (rtn_github d) (rtn_github (snd (purge_runs now d)))"
    unfolding e
    by (rule same_claims_trans [OF _ same_claims_trans [OF _ same_claims_refl]])
      (use kept forgotten_claims in \<open>auto simp: delete_runs_def Let_def prepare_runs_for_deletion_def\<close>)
qed

lemma purged_fields [simp]:
  "snd (purge_artifacts now d) =
     d\<lparr>rtn_artifacts := snd (purge sf_id (Some \<circ> sf_created_at) (raw_expired now) (rtn_artifacts d))\<rparr>"
  "snd (purge_tombstones now d) =
     d\<lparr>rtn_local := snd (purge fst (cl_tombstone_expires_at \<circ> snd) (tombstone_expired now \<circ> snd) (rtn_local d)),
       rtn_github := snd (purge fst (cl_tombstone_expires_at \<circ> snd) (tombstone_expired now \<circ> snd) (rtn_github d))\<rparr>"
  "snd (purge_tokens now d) =
     d\<lparr>rtn_tokens := snd (purge tr_token_id (Some \<circ> tr_expires_at) (token_expired now d) (rtn_tokens d))\<rparr>"
  "snd (purge_deliveries now d) =
     d\<lparr>rtn_deliveries := snd (purge dr_delivery_id (Some \<circ> dr_expires_at) (\<lambda>r. dt_le (dr_expires_at r) now)
         (rtn_deliveries d))\<rparr>"
  "snd (purge_attempts now d) =
     d\<lparr>rtn_attempts := snd (purge at_id (Some \<circ> at_expires_at) (\<lambda>r. dt_le (at_expires_at r) now) (rtn_attempts d))\<rparr>"
  "snd (purge_charges now d) =
     d\<lparr>rtn_charges := snd (purge fst (Some \<circ> ch_expires_at \<circ> snd) (\<lambda>r. dt_le (ch_expires_at (snd r)) now)
         (rtn_charges d))\<rparr>"
  by (simp_all add: purge_artifacts_def purge_tombstones_def purge_tokens_def purge_deliveries_def
      purge_attempts_def purge_charges_def split: prod.split)

definition pass :: "datetime \<Rightarrow> retention_db \<Rightarrow> retention_db" where
  "pass now d = snd (run_retention_cleanup now d)"

lemma pass_steps:
  "pass now d = snd (purge_charges now (snd (purge_attempts now (snd (purge_deliveries now (snd (purge_tokens now
     (snd (purge_tombstones now (snd (purge_runs now (snd (purge_artifacts now d)))))))))))))"
  by (simp add: pass_def run_retention_cleanup_def Let_def case_prod_beta del: purged_fields)

lemma count_map_same: "(\<And>r. p (f r) = p r) \<Longrightarrow> count_where p (map f rows) = count_where p rows"
  by (induction rows) (simp_all add: count_where_def)

lemma bex_count: "(\<exists>r \<in> set rows. p r) \<longleftrightarrow> 0 < count_where p rows"
  by (simp add: count_where_pos)

text \<open>Each step of a pass works the backlog off by at least one row, if it finds any.\<close>

lemma artifacts_progress:
  "backlog now (snd (purge_artifacts now d)) + of_bool (\<exists>a \<in> set (rtn_artifacts d). raw_expired now a) \<le> backlog now d"
  using purge_progress [of "raw_expired now" "raw_expired now" sf_id "Some \<circ> sf_created_at" "rtn_artifacts d"]
  by (simp add: backlog_def)

lemma runs_progress:
  "backlog now (snd (purge_runs now d)) + of_bool (\<exists>r \<in> set (rtn_runs d). run_expired now d r) \<le> backlog now d"
proof -
  have runs: "count_where (run_aged now) (rtn_runs (snd (purge_runs now d))) +
      of_bool (\<exists>r \<in> set (rtn_runs d). run_expired now d r) \<le> count_where (run_aged now) (rtn_runs d)"
    using purge_progress [of "run_expired now d" "run_aged now" rr_run_id rr_started_at "rtn_runs d"]
    by (simp add: purged_runs purge_def Let_def expired_runs_def run_expired_def)
  have "count_where (raw_expired now) (rtn_artifacts (snd (purge_runs now d))) \<le> count_where (raw_expired now) (rtn_artifacts d)"
    unfolding purged_runs delete_ids_def by (rule count_where_delete_le)
  moreover have "count_where (\<lambda>r. dt_le (at_expires_at r) now) (rtn_attempts (snd (purge_runs now d))) =
      count_where (\<lambda>r. dt_le (at_expires_at r) now) (rtn_attempts d)"
    unfolding purged_runs by (rule count_map_same) simp
  ultimately show ?thesis
    using runs purged_runs_claims [THEN same_claims_count, of now d]
    by (simp add: backlog_def purged_runs(4-6))
qed

lemma tombstones_progress:
  "backlog now (snd (purge_tombstones now d)) +
     of_bool ((\<exists>c \<in> set (rtn_local d). tombstone_expired now (snd c)) \<or>
              (\<exists>c \<in> set (rtn_github d). tombstone_expired now (snd c))) \<le> backlog now d"
  using purge_progress [of "tombstone_expired now \<circ> snd" "tombstone_expired now \<circ> snd" fst
      "cl_tombstone_expires_at \<circ> snd" "rtn_local d"]
    purge_progress [of "tombstone_expired now \<circ> snd" "tombstone_expired now \<circ> snd" fst
      "cl_tombstone_expires_at \<circ> snd" "rtn_github d"]
  by (auto simp: backlog_def)

lemma tokens_progress:
  "backlog now (snd (purge_tokens now d)) + of_bool (\<exists>t \<in> set (rtn_tokens d). token_expired now d t) \<le> backlog now d"
  using purge_progress [of "token_expired now d" "token_inactive now" tr_token_id "Some \<circ> tr_expires_at" "rtn_tokens d"]
  by (simp add: backlog_def token_expired_def)

lemma deliveries_progress:
  "backlog now (snd (purge_deliveries now d)) +
     of_bool (\<exists>r \<in> set (rtn_deliveries d). dt_le (dr_expires_at r) now) \<le> backlog now d"
  using purge_progress [of "\<lambda>r. dt_le (dr_expires_at r) now" "\<lambda>r. dt_le (dr_expires_at r) now" dr_delivery_id
      "Some \<circ> dr_expires_at" "rtn_deliveries d"]
  by (simp add: backlog_def)

lemma attempts_progress:
  "backlog now (snd (purge_attempts now d)) +
     of_bool (\<exists>r \<in> set (rtn_attempts d). dt_le (at_expires_at r) now) \<le> backlog now d"
  using purge_progress [of "\<lambda>r. dt_le (at_expires_at r) now" "\<lambda>r. dt_le (at_expires_at r) now" at_id
      "Some \<circ> at_expires_at" "rtn_attempts d"]
  by (simp add: backlog_def)

lemma charges_progress:
  "backlog now (snd (purge_charges now d)) +
     of_bool (\<exists>r \<in> set (rtn_charges d). dt_le (ch_expires_at (snd r)) now) \<le> backlog now d"
  using purge_progress [of "\<lambda>r. dt_le (ch_expires_at (snd r)) now" "\<lambda>r. dt_le (ch_expires_at (snd r)) now" fst
      "Some \<circ> ch_expires_at \<circ> snd" "rtn_charges d"]
  by (simp add: backlog_def)

text \<open>A row that could be deleted before the earlier steps can still be deleted after them.\<close>

lemma run_still_expired:
  assumes "r \<in> set (rtn_runs d)" "run_expired now d r"
  shows "\<exists>r \<in> set (rtn_runs (snd (purge_artifacts now d))). run_expired now (snd (purge_artifacts now d)) r"
proof -
  have "\<not> has_artifacts (snd (purge_artifacts now d)) (rr_run_id r)"
    using assms set_purge [of sf_id "Some \<circ> sf_created_at" "raw_expired now" "rtn_artifacts d"]
    by (auto simp: run_expired_def has_artifacts_def)
  with assms show ?thesis by (auto simp: run_expired_def)
qed

lemma token_row_more: "claim_life.more a = claim_life.more b \<Longrightarrow> lr_token_id a = lr_token_id b"
  by (cases a, cases b) simp

lemma token_still_expired:
  assumes "t \<in> set (rtn_tokens d)" "token_expired now d t"
  shows "token_expired now (snd (purge_tombstones now (snd (purge_runs now (snd (purge_artifacts now d)))))) t"
proof -
  let ?d1 = "snd (purge_artifacts now d)"
  let ?d3 = "snd (purge_tombstones now (snd (purge_runs now ?d1)))"
  have "set (rtn_runs ?d3) \<subseteq> set (rtn_runs d)"
    using set_delete_ids [of rr_run_id "expired_runs now ?d1" "rtn_runs ?d1"] by (simp add: purged_runs)
  moreover have "c \<in> set (rtn_local ?d3) \<Longrightarrow> \<exists>c' \<in> set (rtn_local d). lr_token_id (snd c') = lr_token_id (snd c)" for c
  proof -
    assume "c \<in> set (rtn_local ?d3)"
    then have "c \<in> set (rtn_local (snd (purge_runs now ?d1)))"
      using set_purge [of fst "cl_tombstone_expires_at \<circ> snd" "tombstone_expired now \<circ> snd"
          "rtn_local (snd (purge_runs now ?d1))"] by auto
    then have "(claim_life.more \<circ> snd) c \<in> (claim_life.more \<circ> snd) ` set (rtn_local d)"
      using same_claims_more [OF purged_runs_claims(1) [of now ?d1]] by force
    then obtain c' where "c' \<in> set (rtn_local d)" "claim_life.more (snd c') = claim_life.more (snd c)" by auto
    then show ?thesis using token_row_more [of "snd c'" "snd c"] by blast
  qed
  ultimately have "token_referenced d (tr_token_id t)" if "token_referenced ?d3 (tr_token_id t)"
    using that unfolding token_referenced_def by (metis subsetD)
  with assms show ?thesis by (auto simp: token_expired_def)
qed

lemma pass_progress: "backlog now (pass now d) + of_bool (\<not> drained now d) \<le> backlog now d"
proof -
  define d1 where "d1 = snd (purge_artifacts now d)"
  define d2 where "d2 = snd (purge_runs now d1)"
  define d3 where "d3 = snd (purge_tombstones now d2)"
  define d4 where "d4 = snd (purge_tokens now d3)"
  define d5 where "d5 = snd (purge_deliveries now d4)"
  define d6 where "d6 = snd (purge_attempts now d5)"
  have p: "pass now d = snd (purge_charges now d6)"
    by (simp only: pass_steps d1_def d2_def d3_def d4_def d5_def d6_def)
  note steps = artifacts_progress [of now d, folded d1_def] runs_progress [of now d1, folded d2_def]
    tombstones_progress [of now d2, folded d3_def] tokens_progress [of now d3, folded d4_def]
    deliveries_progress [of now d4, folded d5_def] attempts_progress [of now d5, folded d6_def]
    charges_progress [of now d6, folded p]
  have tombs: "(\<exists>c \<in> set (rtn_local d2). tombstone_expired now (snd c)) \<longleftrightarrow> (\<exists>c \<in> set (rtn_local d). tombstone_expired now (snd c))"
    "(\<exists>c \<in> set (rtn_github d2). tombstone_expired now (snd c)) \<longleftrightarrow> (\<exists>c \<in> set (rtn_github d). tombstone_expired now (snd c))"
    using same_claims_expired [OF purged_runs_claims(1) [of now d1]]
      same_claims_expired [OF purged_runs_claims(2) [of now d1]]
    by (simp_all add: d2_def d1_def)
  have rest: "rtn_tokens d3 = rtn_tokens d" "rtn_deliveries d4 = rtn_deliveries d" "rtn_charges d6 = rtn_charges d"
    by (simp_all add: d1_def d2_def d3_def d4_def d5_def d6_def purged_runs)
  have attempts: "(\<exists>r \<in> set (rtn_attempts d5). dt_le (at_expires_at r) now) \<longleftrightarrow>
      (\<exists>r \<in> set (rtn_attempts d). dt_le (at_expires_at r) now)"
    unfolding bex_count by (simp add: d1_def d2_def d3_def d4_def d5_def purged_runs count_map_same)
  have runs: "\<exists>r \<in> set (rtn_runs d1). run_expired now d1 r" if "r \<in> set (rtn_runs d)" "run_expired now d r" for r
    using run_still_expired [OF that] by (simp only: d1_def)
  have tokens: "\<exists>t \<in> set (rtn_tokens d3). token_expired now d3 t"
    if "t \<in> set (rtn_tokens d)" "token_expired now d t" for t
    using token_still_expired [OF that] that(1) unfolding rest by (auto simp: d1_def d2_def d3_def)
  have found: "(\<exists>a \<in> set (rtn_artifacts d). raw_expired now a) \<or>
      (\<exists>r \<in> set (rtn_runs d1). run_expired now d1 r) \<or>
      ((\<exists>c \<in> set (rtn_local d2). tombstone_expired now (snd c)) \<or>
        (\<exists>c \<in> set (rtn_github d2). tombstone_expired now (snd c))) \<or>
      (\<exists>t \<in> set (rtn_tokens d3). token_expired now d3 t) \<or>
      (\<exists>r \<in> set (rtn_deliveries d4). dt_le (dr_expires_at r) now) \<or>
      (\<exists>r \<in> set (rtn_attempts d5). dt_le (at_expires_at r) now) \<or>
      (\<exists>r \<in> set (rtn_charges d6). dt_le (ch_expires_at (snd r)) now)" if "\<not> drained now d"
    using that unfolding drained_def tombs attempts rest(2,3) by (blast intro: runs tokens)
  show ?thesis
  proof (cases "drained now d")
    case True
    with steps show ?thesis by simp
  next
    case False
    from found [OF this] show ?thesis using steps False by (elim disjE) simp_all
  qed
qed

lemma drained_pass:
  assumes "drained now d"
  shows "pass now d = d"
proof -
  have "snd (purge_artifacts now d) = d" using assms by (simp add: drained_def purge_idle)
  moreover have "snd (purge_runs now d) = d"
  proof -
    have "expired_runs now d = []" using assms by (simp add: expired_runs_def batch_empty_iff drained_def)
    then show ?thesis
      by (simp add: purge_runs_def prepare_runs_for_deletion_def delete_runs_def delete_ids_def delete_where_def
          Let_def forget_run_def apsnd_def map_prod_def split_beta)
  qed
  moreover have "snd (purge_tombstones now d) = d" "snd (purge_tokens now d) = d" "snd (purge_deliveries now d) = d"
    "snd (purge_attempts now d) = d" "snd (purge_charges now d) = d"
    using assms by (simp_all add: drained_def purge_idle)
  ultimately show ?thesis unfolding pass_steps by (simp only:)
qed

text \<open>
  C27. Cleaning up comes to an end: after at most as many passes as rows were old enough, a
  further pass finds nothing to delete, although every pass only takes a batch of each table and a
  run waits for its artifacts and a token for its runs and claims.
\<close>

theorem cleanup_drains: "drained now ((pass now ^^ backlog now d) d)"
proof (induction "backlog now d" arbitrary: d rule: less_induct)
  case less
  show ?case
  proof (cases "drained now d")
    case True
    then have "(pass now ^^ n) d = d" for n by (induction n) (simp_all add: drained_pass)
    with True show ?thesis by simp
  next
    case False
    with pass_progress [of now d] have l: "backlog now (pass now d) < backlog now d" by simp
    then obtain k where k: "backlog now d = Suc (k + backlog now (pass now d))"
      using less_natE add.commute by metis
    have "(pass now ^^ backlog now d) d = (pass now ^^ k) ((pass now ^^ backlog now (pass now d)) (pass now d))"
      by (simp add: k funpow_swap1 funpow_add)
    moreover have fixed: "(pass now ^^ k) x = x" if "drained now x" for x k
      using that by (induction k) (simp_all add: drained_pass)
    ultimately show ?thesis using less [OF l] by simp
  qed
qed

section \<open>What a pass keeps\<close>

lemma prepared_local_run:
  assumes "c \<in> set (rtn_local (snd (fold (bury_run now expiry) ids x)))" "cl_state (snd c) = Completed"
  shows "c \<in> set (rtn_local (snd x)) \<and> cl_run_id (snd c) \<notin> Some ` set ids"
  using assms
proof (induction ids arbitrary: x)
  case (Cons i ids)
  then have "c \<in> set (rtn_local (snd (bury_run now expiry i x))) \<and> cl_run_id (snd c) \<notin> Some ` set ids" by simp
  with buried_run [OF _ Cons.prems(2), of i now expiry "rtn_local (snd x)"] show ?case by (auto simp: bury_run_claims)
qed simp

lemma prepared_github_run:
  assumes "c \<in> set (rtn_github (snd (fold (bury_run now expiry) ids x)))" "cl_state (snd c) = Completed"
  shows "c \<in> set (rtn_github (snd x)) \<and> cl_run_id (snd c) \<notin> Some ` set ids"
  using assms
proof (induction ids arbitrary: x)
  case (Cons i ids)
  then have "c \<in> set (rtn_github (snd (bury_run now expiry i x))) \<and> cl_run_id (snd c) \<notin> Some ` set ids" by simp
  with buried_run [OF _ Cons.prems(2), of i now expiry "rtn_github (snd x)"] show ?case by (auto simp: bury_run_claims)
qed simp

lemma forget_kept: "cl_run_id row \<notin> Some ` set ids \<Longrightarrow> forget_run ids row = row"
  by (simp add: forget_run_def)

lemma forget_state [simp]: "cl_state (forget_run ids row) = cl_state row"
  by (simp add: forget_run_def)

lemma purged_runs_completed:
  shows "c \<in> set (rtn_local (snd (purge_runs now d))) \<Longrightarrow> cl_state (snd c) = Completed \<Longrightarrow>
      c \<in> set (rtn_local d) \<and> cl_run_id (snd c) \<notin> Some ` set (expired_runs now d)"
    and "c' \<in> set (rtn_github (snd (purge_runs now d))) \<Longrightarrow> cl_state (snd c') = Completed \<Longrightarrow>
      c' \<in> set (rtn_github d) \<and> cl_run_id (snd c') \<notin> Some ` set (expired_runs now d)"
proof -
  let ?ids = "expired_runs now d"
  let ?p = "snd (fold (bury_run now (dt_add now (days (deletion_tombstone RETENTION_DAYS)))) ?ids (0, d))"
  have e: "snd (purge_runs now d) = delete_runs ?ids ?p"
    by (simp add: purge_runs_def prepare_runs_for_deletion_def Let_def split: prod.split)
  show "c \<in> set (rtn_local d) \<and> cl_run_id (snd c) \<notin> Some ` set ?ids"
    if "c \<in> set (rtn_local (snd (purge_runs now d)))" "cl_state (snd c) = Completed"
  proof -
    from that(1) obtain c0 where "c0 \<in> set (rtn_local ?p)" "c = apsnd (forget_run ?ids) c0"
      by (auto simp: e delete_runs_def Let_def)
    with prepared_local_run [of c0 now _ ?ids "(0, d)"] that(2) show ?thesis by (cases c0) (auto simp: forget_kept)
  qed
  show "c' \<in> set (rtn_github d) \<and> cl_run_id (snd c') \<notin> Some ` set ?ids"
    if "c' \<in> set (rtn_github (snd (purge_runs now d)))" "cl_state (snd c') = Completed"
  proof -
    from that(1) obtain c0 where "c0 \<in> set (rtn_github ?p)" "c' = apsnd (forget_run ?ids) c0"
      by (auto simp: e delete_runs_def Let_def)
    with prepared_github_run [of c0 now _ ?ids "(0, d)"] that(2) show ?thesis by (cases c0) (auto simp: forget_kept)
  qed
qed

text \<open>Every completed claim names a run that is there.\<close>

definition claim_backed :: "run_row list \<Rightarrow> 'a claim_life_scheme \<Rightarrow> bool" where
  "claim_backed runs row \<longleftrightarrow> cl_state row \<noteq> Completed \<or> cl_run_id row \<in> Some ` rr_run_id ` set runs"

definition claims_backed :: "retention_db \<Rightarrow> bool" where
  "claims_backed d \<longleftrightarrow>
     list_all (claim_backed (rtn_runs d) \<circ> snd) (rtn_local d) \<and>
     list_all (claim_backed (rtn_runs d) \<circ> snd) (rtn_github d)"

lemma pass_tables:
  "rtn_runs (pass now d) = delete_ids rr_run_id (expired_runs now (snd (purge_artifacts now d))) (rtn_runs d)"
  "set (rtn_local (pass now d)) \<subseteq> set (rtn_local (snd (purge_runs now (snd (purge_artifacts now d)))))"
  "set (rtn_github (pass now d)) \<subseteq> set (rtn_github (snd (purge_runs now (snd (purge_artifacts now d)))))"
  unfolding pass_steps by (simp_all add: purged_runs set_purge)

lemma still_backed:
  assumes "claim_backed runs row" "cl_run_id row \<notin> Some ` set ids"
  shows "claim_backed (delete_ids rr_run_id ids runs) row"
  using assms by (auto simp: claim_backed_def delete_ids_def delete_where_def)

lemma kept_run:
  assumes "distinct (map rr_run_id runs)" "r \<in> set runs" "\<not> run_aged now r"
  shows "rr_run_id r \<notin> set (expired_batch rr_run_id time (run_expired now d) runs)"
proof
  assume "rr_run_id r \<in> set (expired_batch rr_run_id time (run_expired now d) runs)"
  from batch_member [OF this] obtain r' where "r' \<in> set runs" "run_expired now d r'" "rr_run_id r' = rr_run_id r"
    by blast
  with assms show False by (metis run_expired_def inj_on_contraD distinct_map)
qed

text \<open>
  C21. A pass deletes no run younger than a year, whatever it deletes, and afterwards every
  completed claim still names a run that is stored: the claims of deleted runs are tombstones.
\<close>

theorem cleanup_keeps_claims_backed:
  assumes "claims_backed d" "distinct (map rr_run_id (rtn_runs d))"
  shows "claims_backed (pass now d) \<and>
    filter (\<lambda>r. \<not> run_aged now r) (rtn_runs (pass now d)) = filter (\<lambda>r. \<not> run_aged now r) (rtn_runs d)"
proof (intro conjI)
  let ?d = "snd (purge_artifacts now d)"
  have same: "rtn_local ?d = rtn_local d" "rtn_github ?d = rtn_github d" "rtn_runs ?d = rtn_runs d" by simp_all
  have "claim_backed (rtn_runs (pass now d)) (snd c)" if "c \<in> set (rtn_local (pass now d))" for c
  proof (cases "cl_state (snd c) = Completed")
    case True
    with that purged_runs_completed(1) [of c now ?d] pass_tables(2) [of now d] same(1) show ?thesis
      using assms(1) unfolding pass_tables(1) by (auto simp: claims_backed_def list_all_iff intro!: still_backed)
  qed (simp add: claim_backed_def)
  moreover have "claim_backed (rtn_runs (pass now d)) (snd c)" if "c \<in> set (rtn_github (pass now d))" for c
  proof (cases "cl_state (snd c) = Completed")
    case True
    with that purged_runs_completed(2) [of c now ?d] pass_tables(3) [of now d] same(2) show ?thesis
      using assms(1) unfolding pass_tables(1) by (auto simp: claims_backed_def list_all_iff intro!: still_backed)
  qed (simp add: claim_backed_def)
  ultimately show "claims_backed (pass now d)" by (simp add: claims_backed_def list_all_iff)
  have "(rr_run_id r \<notin> set (expired_runs now ?d) \<and> \<not> run_aged now r) = (\<not> run_aged now r)" if "r \<in> set (rtn_runs d)" for r
    using kept_run [OF assms(2) that] unfolding expired_runs_def same(3) by blast
  then show "filter (\<lambda>r. \<not> run_aged now r) (rtn_runs (pass now d)) = filter (\<lambda>r. \<not> run_aged now r) (rtn_runs d)"
    unfolding pass_tables(1) delete_ids_def delete_where_def filter_filter by (auto intro!: filter_cong)
qed

text \<open>A run that has just finished, with its completed claim.\<close>

definition sample_run :: run_row where
  "sample_run =
     \<lparr>rr_run_id = ''r'', rr_project_id = 1, rr_origin = ''local'', rr_options_json = [], rr_status = ''completed'',
      rr_started_at = Some (utc 0), rr_completed_at = Some (utc 0), rr_commit_sha = [], rr_git_branch = None,
      rr_error_message = None, rr_findings_json = [], rr_repository_full_name = ''o/r'',
      rr_git_object_format = [], rr_working_tree_dirty = False, rr_source_content_hash = None,
      rr_source_manifest_version = None, rr_submitted_by_user_id = Some 1, rr_submitting_token_id = None,
      rr_payload_hash = None, rr_client_provenance_version = None, rr_client_provenance_json = None,
      rr_github_run_id = None, rr_github_run_number = None, rr_github_run_attempt = None,
      rr_github_run_url = None, rr_github_event = None, rr_github_actor = None, rr_github_head_sha = None,
      rr_local_machine_label = None, rw_local_run_number = Some 1\<rparr>"

definition sample_db :: retention_db where
  "sample_db =
     \<lparr>rtn_artifacts = [], rtn_scanner_runs = [], rtn_runs = [sample_run],
      rtn_local = [(1, (sample_row Completed ''h'')\<lparr>cl_run_id := Some ''r''\<rparr>)], rtn_github = [],
      rtn_tokens = [], rtn_deliveries = [], rtn_attempts = [], rtn_charges = []\<rparr>"

theorem cleanup_keeps_claims_backed_witness:
  "claims_backed (pass (utc 0) sample_db) \<and> rtn_runs (pass (utc 0) sample_db) = [sample_run]"
proof -
  have young: "\<not> run_aged (utc 0) sample_run"
    by (simp add: run_aged_def sample_run_def before_def cutoff_def RETENTION_DAYS_def dt_le_def dt_add_def
        dt_instant_utc timedelta_defs)
  have ok: "claims_backed sample_db" "distinct (map rr_run_id (rtn_runs sample_db))"
    by (simp_all add: claims_backed_def claim_backed_def sample_db_def sample_run_def)
  from cleanup_keeps_claims_backed [OF this, of "utc 0"] young
  have kept: "claims_backed (pass (utc 0) sample_db)"
    "filter (\<lambda>r. \<not> run_aged (utc 0) r) (rtn_runs (pass (utc 0) sample_db)) = [sample_run]"
    by (simp_all add: sample_db_def)
  have "set (rtn_runs (pass (utc 0) sample_db)) \<subseteq> {sample_run}"
    using set_delete_ids [of rr_run_id "expired_runs (utc 0) (snd (purge_artifacts (utc 0) sample_db))" "[sample_run]"]
    unfolding pass_tables(1) by (simp add: sample_db_def)
  with young have "filter (\<lambda>r. \<not> run_aged (utc 0) r) (rtn_runs (pass (utc 0) sample_db)) = rtn_runs (pass (utc 0) sample_db)"
    by (intro filter_True) auto
  with kept show ?thesis by simp
qed

end
