(* ===== verification/Single_Use.thy ===== *)
theory Single_Use
  imports Token_Cipher Py_Url
begin

text \<open>
  Single-use proofs: the state of a GitHub App installation
  (\<^verbatim>\<open>access/github_installation_state\<close>, \<^verbatim>\<open>github_installation_states.py\<close>)
  and the GitHub sign-in transaction with its PKCE verifier
  (\<^verbatim>\<open>access/github_signin_transaction\<close>, \<^verbatim>\<open>github_signin.py\<close>).  Both stores keep
  only digests, answer a proof at most once and only before it expires; the locale
  \<open>single_use\<close> states that contract and is interpreted on both.
\<close>

datatype single_use_error =
    Proof_ValidationError string
  | Proof_RuntimeError string
  | Proof_PermissionError string

definition proof_pattern :: "string \<Rightarrow> bool" where
  "proof_pattern s \<longleftrightarrow> length s = 43 \<and> list_all is_b64url s"

lemma proof_pattern_encode: "length bs = 32 \<Longrightarrow> proof_pattern (b64_encode bs)"
  by (simp add: proof_pattern_def length_b64_encode b64_encode_letters)

section \<open>The contract\<close>

text \<open>
  Stores of type \<open>'s\<close> keep material \<open>'m\<close>; a proof \<open>'p\<close> presented at an instant is answered
  with a grant \<open>'g\<close> or nothing.  A key is spent once a proof with it has been answered.
\<close>

locale single_use =
  fixes ok :: "'s \<Rightarrow> bool"
    and create :: "'m \<Rightarrow> 's \<Rightarrow> 's option"
    and consume :: "'p \<Rightarrow> datetime \<Rightarrow> 's \<Rightarrow> 's \<times> 'g option"
    and key :: "'p \<Rightarrow> 'k"
    and spent :: "'s \<Rightarrow> 'k \<Rightarrow> bool"
  assumes create_ok: "ok s \<Longrightarrow> create m s = Some s' \<Longrightarrow> ok s'"
    and create_spent: "ok s \<Longrightarrow> create m s = Some s' \<Longrightarrow> spent s k \<Longrightarrow> spent s' k"
    and consume_ok: "ok s \<Longrightarrow> ok (fst (consume p t s))"
    and consume_keeps: "ok s \<Longrightarrow> spent s k \<Longrightarrow> spent (fst (consume p t s)) k"
    and consume_spends: "ok s \<Longrightarrow> snd (consume p t s) = Some g \<Longrightarrow>
      \<not> spent s (key p) \<and> spent (fst (consume p t s)) (key p)"

datatype ('m, 'p) single_use_op = Create 'm | Consume 'p datetime

text \<open>The proofs answered along a history of operations.\<close>

fun answered_proofs ::
    "('m \<Rightarrow> 's \<Rightarrow> 's option) \<Rightarrow> ('p \<Rightarrow> datetime \<Rightarrow> 's \<Rightarrow> 's \<times> 'g option)
     \<Rightarrow> ('m, 'p) single_use_op list \<Rightarrow> 's \<Rightarrow> 'p list" where
  "answered_proofs create consume [] s = []"
| "answered_proofs create consume (Create m # ops) s =
     answered_proofs create consume ops (case create m s of None \<Rightarrow> s | Some s' \<Rightarrow> s')"
| "answered_proofs create consume (Consume p t # ops) s =
     (case consume p t s of (s', g) \<Rightarrow>
        (if g = None then [] else [p]) @ answered_proofs create consume ops s')"

context single_use
begin

lemma answered_unspent:
  "ok s \<Longrightarrow> distinct (map key (answered_proofs create consume ops s)) \<and>
     (\<forall>p \<in> set (answered_proofs create consume ops s). \<not> spent s (key p))"
proof (induction ops arbitrary: s)
  case (Cons op ops)
  show ?case
  proof (cases op)
    case (Create m)
    show ?thesis
    proof (cases "create m s")
      case (Some s')
      with Cons.IH [of s'] Cons.prems Create show ?thesis
        using create_ok create_spent by fastforce
    qed (use Cons Create in simp)
  next
    case (Consume p t)
    obtain s' g where c: "consume p t s = (s', g)" by (cases "consume p t s")
    have ok': "ok s'" using consume_ok [OF Cons.prems, of p t] c by simp
    have keep: "spent s k \<Longrightarrow> spent s' k" for k
      using consume_keeps [OF Cons.prems, of k p t] c by simp
    have spends: "\<not> spent s (key p) \<and> spent s' (key p)" if "g \<noteq> None"
      using consume_spends [OF Cons.prems, of p t] c that by auto
    show ?thesis
      using Cons.IH [OF ok'] keep spends Consume c by (auto simp: image_iff)
  qed
qed simp

lemma answered_at_most_once:
  "ok s \<Longrightarrow> distinct (map key (answered_proofs create consume ops s))"
  using answered_unspent by blast

lemma answered_only_once:
  assumes "ok s" "snd (consume p t s) = Some g" "key q = key p"
  shows "snd (consume q t' (fst (consume p t s))) = None"
proof (rule ccontr)
  assume "\<not> ?thesis"
  then obtain g' where "snd (consume q t' (fst (consume p t s))) = Some g'" by auto
  from consume_spends [OF consume_ok [OF assms(1)] this] consume_spends [OF assms(1,2)] assms(3)
  show False by simp
qed

end

text \<open>Both stores mark a row as consumed; the keys of the marked rows are the spent ones.\<close>

definition spent_in :: "('r \<Rightarrow> 'k) \<Rightarrow> ('r \<Rightarrow> datetime option) \<Rightarrow> 'r list \<Rightarrow> 'k \<Rightarrow> bool" where
  "spent_in digest consumed rows k \<longleftrightarrow> (\<exists>row \<in> set rows. digest row = k \<and> consumed row \<noteq> None)"

lemma spend_row:
  assumes "distinct (map digest rows)" "row \<in> set rows" "consumed row = None" "digest row = k"
    and "q row" "digest (f row) = digest row" "consumed (f row) \<noteq> None"
  shows "\<not> spent_in digest consumed rows k \<and> spent_in digest consumed (update_where q f rows) k"
proof
  show "\<not> spent_in digest consumed rows k"
    unfolding spent_in_def using distinct_key_eq [OF assms(1) _ assms(2)] assms(3,4) by auto
  have "f row \<in> set (update_where q f rows)"
    unfolding set_update_where by (rule image_eqI [of _ _ row]) (simp_all add: assms)
  then show "spent_in digest consumed (update_where q f rows) k"
    unfolding spent_in_def by (rule rev_bexI) (use assms in simp)
qed

lemma spent_update:
  assumes "spent_in digest consumed rows k"
    and "\<And>r. digest (f r) = digest r" "\<And>r. consumed (f r) \<noteq> None"
  shows "spent_in digest consumed (update_where q f rows) k"
proof -
  obtain r where "r \<in> set rows" "digest r = k" "consumed r \<noteq> None"
    using assms(1) by (auto simp: spent_in_def)
  then have "(if q r then f r else r) \<in> set (update_where q f rows)"
    "digest (if q r then f r else r) = k" "consumed (if q r then f r else r) \<noteq> None"
    using assms(2,3) by (auto simp: set_update_where)
  then show ?thesis unfolding spent_in_def by blast
qed

lemma spent_append: "spent_in digest consumed rows k \<Longrightarrow> spent_in digest consumed (rows @ new) k"
  by (auto simp: spent_in_def)

section \<open>Installation setup state\<close>

record installation_material =
  im_state_id :: string
  im_state :: string
  im_state_digest :: bytes
  im_browser_session_id :: string
  im_return_path :: string
  im_created_at :: datetime
  im_expires_at :: datetime

definition INSTALLATION_STATE_TTL :: timedelta where "INSTALLATION_STATE_TTL = minutes 10"

definition ALLOWED_INSTALLATION_RETURN_PATHS :: "string list" where
  "ALLOWED_INSTALLATION_RETURN_PATHS = [''/'', ''/projects'', ''/setup'']"

definition digest_installation_state :: "(bytes \<Rightarrow> bytes) \<Rightarrow> string \<Rightarrow> single_use_error + bytes" where
  "digest_installation_state sha state =
     (if \<not> proof_pattern state
      then Inl (Proof_ValidationError ''installation state has an invalid format'')
      else Inr (sha (ascii_bytes state)))"

definition issue_github_installation_state ::
    "(bytes \<Rightarrow> bytes) \<Rightarrow> 'r random_port \<Rightarrow> 'r \<Rightarrow> string \<Rightarrow> string \<Rightarrow> datetime
     \<Rightarrow> single_use_error + installation_material \<times> 'r" where
  "issue_github_installation_state sha port r browser_session_id return_path now =
     (if return_path \<notin> set ALLOWED_INSTALLATION_RETURN_PATHS
      then Inl (Proof_ValidationError ''installation return path is not allowlisted'')
      else if browser_session_id = []
      then Inl (Proof_ValidationError ''browser session id is required'')
      else if \<not> aware now
      then Inl (Proof_RuntimeError ''installation-state timestamps must be timezone-aware'')
      else
        (case random_bytes_checked port r 32 of
           Inl msg \<Rightarrow> Inl (Proof_RuntimeError msg)
         | Inr (secret, r1) \<Rightarrow>
        (let state = b64_encode secret in
         case random_uuid port r1 of
           Inl msg \<Rightarrow> Inl (Proof_RuntimeError msg)
         | Inr (state_id, r2) \<Rightarrow>
        (case digest_installation_state sha state of
           Inl e \<Rightarrow> Inl e
         | Inr digest \<Rightarrow>
             Inr (\<lparr>im_state_id = state_id, im_state = state, im_state_digest = digest,
                   im_browser_session_id = browser_session_id, im_return_path = return_path,
                   im_created_at = now,
                   im_expires_at = dt_add now INSTALLATION_STATE_TTL\<rparr>, r2)))))"

record installation_row =
  ir_id :: string
  ir_state_digest :: bytes
  ir_browser_session_id :: string
  ir_return_path :: string
  ir_created_at :: datetime
  ir_expires_at :: datetime
  ir_consumed_at :: "datetime option"

text \<open>
  The constraints of the table; a violated one makes the insert fail with no effect.  Which
  browser sessions exist is the argument \<open>sessions\<close>.
\<close>

definition installation_row_allowed ::
    "(string \<Rightarrow> bool) \<Rightarrow> installation_row list \<Rightarrow> installation_row \<Rightarrow> bool" where
  "installation_row_allowed sessions rows row \<longleftrightarrow>
     ir_id row \<notin> ir_id ` set rows \<and> ir_state_digest row \<notin> ir_state_digest ` set rows \<and>
     sessions (ir_browser_session_id row) \<and> length (ir_id row) = 36 \<and>
     length (ir_state_digest row) = 32 \<and>
     ir_return_path row \<in> set ALLOWED_INSTALLATION_RETURN_PATHS \<and>
     dt_less (ir_created_at row) (ir_expires_at row)"

definition installation_create ::
    "(string \<Rightarrow> bool) \<Rightarrow> installation_material \<Rightarrow> installation_row list \<Rightarrow> installation_row list option" where
  "installation_create sessions material rows =
     (let row = \<lparr>ir_id = im_state_id material, ir_state_digest = im_state_digest material,
                 ir_browser_session_id = im_browser_session_id material,
                 ir_return_path = im_return_path material,
                 ir_created_at = im_created_at material, ir_expires_at = im_expires_at material,
                 ir_consumed_at = None\<rparr>
      in if installation_row_allowed sessions rows row then Some (rows @ [row]) else None)"

text \<open>A proof is the state with the browser session that presents it.\<close>

definition installation_live :: "bytes \<Rightarrow> string \<Rightarrow> datetime \<Rightarrow> installation_row \<Rightarrow> bool" where
  "installation_live digest browser_session_id now row \<longleftrightarrow>
     ir_state_digest row = digest \<and> ir_browser_session_id row = browser_session_id \<and>
     ir_consumed_at row = None \<and> dt_less now (ir_expires_at row)"

definition installation_consume ::
    "(bytes \<Rightarrow> bytes) \<Rightarrow> string \<times> string \<Rightarrow> datetime \<Rightarrow> installation_row list
     \<Rightarrow> installation_row list \<times> string option" where
  "installation_consume sha = (\<lambda>(state, browser_session_id) now rows.
     (case digest_installation_state sha state of
        Inl _ \<Rightarrow> (rows, None)
      | Inr digest \<Rightarrow>
          (case find (installation_live digest browser_session_id now) rows of
             None \<Rightarrow> (rows, None)
           | Some row \<Rightarrow>
               (update_where (\<lambda>r. ir_id r = ir_id row) (\<lambda>r. r\<lparr>ir_consumed_at := Some now\<rparr>) rows,
                Some (ir_return_path row)))))"

definition installation_table_ok :: "installation_row list \<Rightarrow> bool" where
  "installation_table_ok rows \<longleftrightarrow> distinct (map ir_id rows) \<and> distinct (map ir_state_digest rows)"

lemma installation_consume_cases:
  "installation_consume sha (state, sid) now rows = (rows, None) \<or>
   (\<exists>row \<in> set rows. installation_live (sha (ascii_bytes state)) sid now row \<and>
      installation_consume sha (state, sid) now rows =
        (update_where (\<lambda>r. ir_id r = ir_id row) (\<lambda>r. r\<lparr>ir_consumed_at := Some now\<rparr>) rows,
         Some (ir_return_path row)))"
proof (cases "find (installation_live (sha (ascii_bytes state)) sid now) rows")
  case (Some row)
  with find_SomeD [OF Some] show ?thesis
    by (auto simp: installation_consume_def digest_installation_state_def)
qed (simp add: installation_consume_def digest_installation_state_def)

interpretation installation: single_use installation_table_ok "installation_create sessions"
  "installation_consume sha" "\<lambda>p. sha (ascii_bytes (fst p))" "spent_in ir_state_digest ir_consumed_at"
proof
  fix s s' :: "installation_row list" and m k
  assume s: "installation_table_ok s" and c: "installation_create sessions m s = Some s'"
  then show "installation_table_ok s'"
    by (auto simp: installation_create_def installation_row_allowed_def installation_table_ok_def
        Let_def split: if_splits)
  assume "spent_in ir_state_digest ir_consumed_at s k"
  with c show "spent_in ir_state_digest ir_consumed_at s' k"
    by (auto simp: installation_create_def spent_append Let_def split: if_splits)
next
  fix s :: "installation_row list" and p :: "string \<times> string" and t k g
  assume s: "installation_table_ok s"
  obtain state sid where p: "p = (state, sid)" by (cases p)
  note cases = installation_consume_cases [of sha state sid t s]
  show "installation_table_ok (fst (installation_consume sha p t s))"
    using cases s unfolding p by (auto simp: installation_table_ok_def row_simps)
  show "spent_in ir_state_digest ir_consumed_at (fst (installation_consume sha p t s)) k"
    if "spent_in ir_state_digest ir_consumed_at s k"
    using cases that unfolding p by (auto intro!: spent_update)
  assume "snd (installation_consume sha p t s) = Some g"
  with cases obtain row where row: "row \<in> set s" "installation_live (sha (ascii_bytes state)) sid t row"
    and upd: "fst (installation_consume sha p t s) =
      update_where (\<lambda>r. ir_id r = ir_id row) (\<lambda>r. r\<lparr>ir_consumed_at := Some t\<rparr>) s"
    unfolding p by auto
  show "\<not> spent_in ir_state_digest ir_consumed_at s (sha (ascii_bytes (fst p))) \<and>
      spent_in ir_state_digest ir_consumed_at (fst (installation_consume sha p t s))
        (sha (ascii_bytes (fst p)))"
    unfolding upd by (rule spend_row [of _ _ row])
      (use s row p in \<open>simp_all add: installation_live_def installation_table_ok_def\<close>)
qed

text \<open>
  C39.  Along any history of issued and presented installation states, no state is ever answered
  twice, whichever browser sessions present it and at whatever times.
\<close>

theorem installation_state_single_use:
  "distinct (map (\<lambda>p. sha (ascii_bytes (fst p)))
     (answered_proofs (installation_create sessions) (installation_consume sha) ops []))"
  by (rule installation.answered_at_most_once) (simp add: installation_table_ok_def)

section \<open>Sign-in transactions\<close>

record signin_material =
  sm_transaction_id :: string
  sm_transaction_cookie :: string
  sm_transaction_digest :: bytes
  sm_state :: string
  sm_state_digest :: bytes
  sm_pkce_verifier :: string
  sm_pkce_challenge :: string
  sm_return_path :: string
  sm_created_at :: datetime
  sm_expires_at :: datetime

definition SIGNIN_TTL :: timedelta where "SIGNIN_TTL = minutes 10"

definition ALLOWED_RETURN_ROOTS :: "string list" where
  "ALLOWED_RETURN_ROOTS =
     [''admin'', ''compliance'', ''fix'', ''frs'', ''help'', ''integrations'', ''projects'',
      ''regimes'', ''scans'', ''settings'', ''setup'', ''trends'']"

definition digest_signin_value :: "(bytes \<Rightarrow> bytes) \<Rightarrow> string \<Rightarrow> single_use_error + bytes" where
  "digest_signin_value sha v =
     (if \<not> proof_pattern v
      then Inl (Proof_ValidationError ''GitHub sign-in proof has an invalid format'')
      else Inr (sha (ascii_bytes v)))"

text \<open>\<^verbatim>\<open>path.split("/", maxsplit=2)[1]\<close> of a path that begins with one slash.\<close>

definition return_root :: "string \<Rightarrow> string" where
  "return_root path = takeWhile (\<lambda>c. c \<noteq> CHR ''/'') (drop 1 path)"

definition is_allowed_return_path :: "(string \<Rightarrow> bool) \<Rightarrow> string \<Rightarrow> single_use_error + bool" where
  "is_allowed_return_path netloc_ok v =
     (if v = [] \<or> 512 < length v then Inr False
      else if (\<exists>c \<in> set v. (of_char c :: nat) = 92 \<or> (of_char c :: nat) < 32) then Inr False
      else case urlsplit netloc_ok v of
        None \<Rightarrow> Inl (Proof_ValidationError ''Invalid URL'')
      | Some parsed \<Rightarrow>
          Inr (if url_scheme parsed \<noteq> [] \<or> url_netloc parsed \<noteq> [] \<or> url_fragment parsed \<noteq> []
               then False
               else if url_path parsed = ''/'' then True
               else if take 1 (url_path parsed) \<noteq> ''/'' \<or> take 2 (url_path parsed) = ''//'' then False
               else return_root (url_path parsed) \<in> set ALLOWED_RETURN_ROOTS))"

definition issue_github_signin ::
    "(bytes \<Rightarrow> bytes) \<Rightarrow> (string \<Rightarrow> bool) \<Rightarrow> 'r random_port \<Rightarrow> 'r \<Rightarrow> string \<Rightarrow> datetime
     \<Rightarrow> single_use_error + signin_material \<times> 'r" where
  "issue_github_signin sha netloc_ok port r return_path now =
     (case is_allowed_return_path netloc_ok return_path of
        Inl e \<Rightarrow> Inl e
      | Inr False \<Rightarrow>
          Inl (Proof_ValidationError ''GitHub sign-in return path is not allowlisted'')
      | Inr True \<Rightarrow>
     (if \<not> aware now
      then Inl (Proof_RuntimeError ''GitHub sign-in timestamp must be timezone-aware'')
      else case random_bytes_checked port r 32 of
        Inl msg \<Rightarrow> Inl (Proof_RuntimeError msg)
      | Inr (cookie_bytes, r1) \<Rightarrow>
     (case random_bytes_checked port r1 32 of
        Inl msg \<Rightarrow> Inl (Proof_RuntimeError msg)
      | Inr (state_bytes, r2) \<Rightarrow>
     (case random_bytes_checked port r2 64 of
        Inl msg \<Rightarrow> Inl (Proof_RuntimeError msg)
      | Inr (verifier_bytes, r3) \<Rightarrow>
     (case random_uuid port r3 of
        Inl msg \<Rightarrow> Inl (Proof_RuntimeError msg)
      | Inr (transaction_id, r4) \<Rightarrow>
     (let cookie = b64_encode cookie_bytes; state = b64_encode state_bytes;
          verifier = b64_encode verifier_bytes;
          challenge = b64_encode (sha (ascii_bytes verifier))
      in case (digest_signin_value sha cookie, digest_signin_value sha state) of
           (Inr transaction_digest, Inr state_digest) \<Rightarrow>
             Inr (\<lparr>sm_transaction_id = transaction_id, sm_transaction_cookie = cookie,
                   sm_transaction_digest = transaction_digest, sm_state = state,
                   sm_state_digest = state_digest, sm_pkce_verifier = verifier,
                   sm_pkce_challenge = challenge, sm_return_path = return_path,
                   sm_created_at = now, sm_expires_at = dt_add now SIGNIN_TTL\<rparr>, r4)
         | (Inl e, _) \<Rightarrow> Inl e
         | (_, Inl e) \<Rightarrow> Inl e))))))"

record signin_row =
  gs_id :: string
  gs_state_digest :: bytes
  gs_transaction_digest :: bytes
  gs_return_path :: string
  gs_verifier_encrypted :: string
  gs_key_id :: string
  gs_created_at :: datetime
  gs_expires_at :: datetime
  gs_consumed_at :: "datetime option"

text \<open>The cipher and the key of the repository: \<open>enc\<close> may fail, \<open>dec\<close> may refuse.\<close>

record signin_cipher =
  sc_sha :: "bytes \<Rightarrow> bytes"
  sc_hmac :: "bytes \<Rightarrow> bytes \<Rightarrow> bytes"
  sc_key :: codes
  sc_key_id :: string

definition signin_row_allowed :: "signin_row list \<Rightarrow> signin_row \<Rightarrow> bool" where
  "signin_row_allowed rows row \<longleftrightarrow>
     gs_id row \<notin> gs_id ` set rows \<and> gs_state_digest row \<notin> gs_state_digest ` set rows \<and>
     length (gs_id row) = 36 \<and> length (gs_state_digest row) = 32 \<and>
     length (gs_transaction_digest row) = 32 \<and>
     1 \<le> length (gs_return_path row) \<and> length (gs_return_path row) \<le> 512 \<and>
     take 1 (gs_return_path row) = ''/'' \<and> take 2 (gs_return_path row) \<noteq> ''//'' \<and>
     dt_less (gs_created_at row) (gs_expires_at row)"

definition signin_create ::
    "signin_cipher \<Rightarrow> bytes \<times> signin_material \<Rightarrow> signin_row list \<Rightarrow> signin_row list option" where
  "signin_create c = (\<lambda>(nonce, material) rows.
     (case encrypt (sc_sha c) (sc_hmac c) nonce (codes_of (sm_pkce_verifier material)) (sc_key c) of
        None \<Rightarrow> None
      | Some sealed \<Rightarrow>
          (let row = \<lparr>gs_id = sm_transaction_id material, gs_state_digest = sm_state_digest material,
                      gs_transaction_digest = sm_transaction_digest material,
                      gs_return_path = sm_return_path material, gs_verifier_encrypted = sealed,
                      gs_key_id = sc_key_id c, gs_created_at = sm_created_at material,
                      gs_expires_at = sm_expires_at material, gs_consumed_at = None\<rparr>
           in if signin_row_allowed rows row then Some (rows @ [row]) else None)))"

definition signin_live :: "bytes \<Rightarrow> bytes \<Rightarrow> datetime \<Rightarrow> signin_row \<Rightarrow> bool" where
  "signin_live state_digest transaction_digest now row \<longleftrightarrow>
     gs_state_digest row = state_digest \<and> gs_transaction_digest row = transaction_digest \<and>
     gs_consumed_at row = None \<and> dt_less now (gs_expires_at row)"

text \<open>
  The row is marked before the verifier is decrypted, so a proof whose verifier cannot be
  decrypted is spent as well.  A proof is the state with the transaction cookie; the grant is
  the verifier with the return path.
\<close>

definition signin_consume ::
    "signin_cipher \<Rightarrow> string \<times> string \<Rightarrow> datetime \<Rightarrow> signin_row list
     \<Rightarrow> signin_row list \<times> (codes \<times> string) option" where
  "signin_consume c = (\<lambda>(state, cookie) now rows.
     (case (digest_signin_value (sc_sha c) state, digest_signin_value (sc_sha c) cookie) of
        (Inr state_digest, Inr transaction_digest) \<Rightarrow>
          (case find (signin_live state_digest transaction_digest now) rows of
             None \<Rightarrow> (rows, None)
           | Some row \<Rightarrow>
               (update_where (\<lambda>r. gs_id r = gs_id row) (\<lambda>r. r\<lparr>gs_consumed_at := Some now\<rparr>) rows,
                case decrypt (sc_sha c) (sc_hmac c) (gs_verifier_encrypted row) (sc_key c) of
                  None \<Rightarrow> None
                | Some verifier \<Rightarrow>
                    if verifier = [] then None else Some (verifier, gs_return_path row)))
      | _ \<Rightarrow> (rows, None)))"

definition signin_table_ok :: "signin_row list \<Rightarrow> bool" where
  "signin_table_ok rows \<longleftrightarrow> distinct (map gs_id rows) \<and> distinct (map gs_state_digest rows)"

lemma signin_consume_cases:
  "signin_consume c (state, cookie) now rows = (rows, None) \<or>
   (\<exists>row \<in> set rows. signin_live (sc_sha c (ascii_bytes state)) (sc_sha c (ascii_bytes cookie)) now row \<and>
      fst (signin_consume c (state, cookie) now rows) =
        update_where (\<lambda>r. gs_id r = gs_id row) (\<lambda>r. r\<lparr>gs_consumed_at := Some now\<rparr>) rows)"
proof (cases "find (signin_live (sc_sha c (ascii_bytes state)) (sc_sha c (ascii_bytes cookie)) now) rows")
  case (Some row)
  with find_SomeD [OF Some] show ?thesis
    by (auto simp: signin_consume_def digest_signin_value_def)
qed (simp add: signin_consume_def digest_signin_value_def)

lemma signin_create_cases:
  assumes "signin_create c nm rows = Some rows'"
  shows "\<exists>row. rows' = rows @ [row] \<and> signin_row_allowed rows row"
  using assms by (auto simp: signin_create_def Let_def split: prod.splits option.splits if_splits)

interpretation signin: single_use signin_table_ok "signin_create c"
  "signin_consume c" "\<lambda>p. sc_sha c (ascii_bytes (fst p))" "spent_in gs_state_digest gs_consumed_at"
proof
  fix s s' :: "signin_row list" and m k
  assume s: "signin_table_ok s" and c: "signin_create c m s = Some s'"
  then show "signin_table_ok s'"
    using signin_create_cases [OF c] by (auto simp: signin_row_allowed_def signin_table_ok_def)
  assume "spent_in gs_state_digest gs_consumed_at s k"
  then show "spent_in gs_state_digest gs_consumed_at s' k"
    using signin_create_cases [OF c] by (auto simp: spent_append)
next
  fix s :: "signin_row list" and p :: "string \<times> string" and t k g
  assume s: "signin_table_ok s"
  obtain state cookie where p: "p = (state, cookie)" by (cases p)
  note cases = signin_consume_cases [of c state cookie t s]
  show "signin_table_ok (fst (signin_consume c p t s))"
    using cases s unfolding p by (auto simp: signin_table_ok_def row_simps)
  show "spent_in gs_state_digest gs_consumed_at (fst (signin_consume c p t s)) k"
    if "spent_in gs_state_digest gs_consumed_at s k"
    using cases that unfolding p by (auto intro!: spent_update)
  assume "snd (signin_consume c p t s) = Some g"
  with cases obtain row where row: "row \<in> set s"
      "signin_live (sc_sha c (ascii_bytes state)) (sc_sha c (ascii_bytes cookie)) t row"
    and upd: "fst (signin_consume c p t s) =
      update_where (\<lambda>r. gs_id r = gs_id row) (\<lambda>r. r\<lparr>gs_consumed_at := Some t\<rparr>) s"
    unfolding p by auto
  show "\<not> spent_in gs_state_digest gs_consumed_at s (sc_sha c (ascii_bytes (fst p))) \<and>
      spent_in gs_state_digest gs_consumed_at (fst (signin_consume c p t s))
        (sc_sha c (ascii_bytes (fst p)))"
    unfolding upd by (rule spend_row [of _ _ row])
      (use s row p in \<open>simp_all add: signin_live_def signin_table_ok_def\<close>)
qed

lemma issued_signin_fields:
  assumes "issue_github_signin sha netloc_ok port r path now = Inr (m, r')"
  shows "digest_signin_value sha (sm_state m) = Inr (sm_state_digest m) \<and>
    digest_signin_value sha (sm_transaction_cookie m) = Inr (sm_transaction_digest m) \<and>
    sm_return_path m = path \<and> sm_expires_at m = dt_add now SIGNIN_TTL \<and>
    sm_pkce_challenge m = b64_encode (sha (ascii_bytes (sm_pkce_verifier m))) \<and>
    sm_pkce_verifier m \<noteq> []"
proof -
  have "b64_encode bs = [] \<Longrightarrow> random_bytes_checked port r 64 \<noteq> Inr (bs, r')" for bs r r'
    using length_b64_encode [of bs] random_bytes_checked_length [of port r 64 bs r'] by auto
  with assms show ?thesis
    by (auto simp: issue_github_signin_def Let_def digest_signin_value_def
        split: if_splits sum.splits bool.splits)
qed

lemma codes_of_scalar: "list_all scalar_value (codes_of s)"
  using utf8_encode_codes [of s] by (simp add: utf8_encode_def split: if_splits)

text \<open>
  A sign-in that was issued and stored is answered within its ten minutes with the very
  verifier whose challenge was sent to GitHub, and with its return path; presenting its state
  again, with any cookie and at any time, gives nothing.
\<close>

theorem signin_round_trip:
  assumes "issue_github_signin (sc_sha c) netloc_ok port r path now = Inr (m, r')"
    and "\<And>b. length (sc_sha c b) = 32" "list_all scalar_value (sc_key c)"
    and "signin_table_ok rows" "signin_create c (nonce, m) rows = Some rows'"
    and "dt_instant t < dt_instant now + minutes 10"
  shows "snd (signin_consume c (sm_state m, sm_transaction_cookie m) t rows') =
      Some (codes_of (sm_pkce_verifier m), path) \<and>
    snd (signin_consume c (sm_state m, cookie) t'
      (fst (signin_consume c (sm_state m, sm_transaction_cookie m) t rows'))) = None"
proof
  note f = issued_signin_fields [OF assms(1)]
  obtain sealed where sealed: "encrypt (sc_sha c) (sc_hmac c) nonce (codes_of (sm_pkce_verifier m))
      (sc_key c) = Some sealed"
    "decrypt (sc_sha c) (sc_hmac c) sealed (sc_key c) = Some (codes_of (sm_pkce_verifier m))"
    using decrypt_encrypt_sealed [of "sc_sha c", OF assms(2) codes_of_scalar assms(3)] by blast
  define row where "row = \<lparr>gs_id = sm_transaction_id m, gs_state_digest = sm_state_digest m,
      gs_transaction_digest = sm_transaction_digest m, gs_return_path = sm_return_path m,
      gs_verifier_encrypted = sealed, gs_key_id = sc_key_id c, gs_created_at = sm_created_at m,
      gs_expires_at = sm_expires_at m, gs_consumed_at = None\<rparr>"
  have rows': "rows' = rows @ [row]" and allowed: "signin_row_allowed rows row"
    using assms(5) sealed by (auto simp: signin_create_def row_def Let_def split: if_splits)
  have live: "signin_live (sm_state_digest m) (sm_transaction_digest m) t row"
    using f assms(6) by (simp add: signin_live_def row_def dt_less_def dt_simps SIGNIN_TTL_def)
  have "\<not> signin_live (sm_state_digest m) (sm_transaction_digest m) t x" if "x \<in> set rows" for x
    using allowed imageI [OF that, of gs_state_digest]
    by (auto simp: signin_row_allowed_def signin_live_def row_def)
  then have "find (signin_live (sm_state_digest m) (sm_transaction_digest m) t) rows = None"
    by (simp add: find_None_iff)
  then have found: "find (signin_live (sm_state_digest m) (sm_transaction_digest m) t) rows' = Some row"
    using live unfolding rows' by (induction rows) (auto split: if_splits)
  show grant: "snd (signin_consume c (sm_state m, sm_transaction_cookie m) t rows') =
      Some (codes_of (sm_pkce_verifier m), path)"
    using f found sealed by (simp add: signin_consume_def row_def codes_of_def)
  show "snd (signin_consume c (sm_state m, cookie) t'
      (fst (signin_consume c (sm_state m, sm_transaction_cookie m) t rows'))) = None"
    by (rule signin.answered_only_once [OF signin.create_ok [OF assms(4,5)] grant]) simp
qed

theorem signin_round_trip_witness:
  "\<exists>c m rows'. issue_github_signin (sc_sha c) (\<lambda>n. True) zero_port () ''/projects'' (utc 0) = Inr (m, ()) \<and>
     signin_create c ([], m) [] = Some rows' \<and>
     snd (signin_consume c (sm_state m, sm_transaction_cookie m) (utc 9) rows') =
       Some (codes_of (sm_pkce_verifier m), ''/projects'')"
proof -
  define c where "c = \<lparr>sc_sha = \<lambda>b. replicate 32 1, sc_hmac = \<lambda>k b. [], sc_key = [], sc_key_id = []\<rparr>"
  obtain u where u: "random_uuid zero_port () = Inr (u, ())" "length u = 36"
    using zero_port_uuid random_uuid_canonical canonical_uuid4_uuid canonical_uuid_length by metis
  have path: "is_allowed_return_path (\<lambda>n. True) ''/projects'' = Inr True"
    by (simp add: is_allowed_return_path_def urlsplit_def split_scheme_def split_netloc_def
        unsafe_url_char_def control_or_space_def return_root_def ALLOWED_RETURN_ROOTS_def)
  have pat: "proof_pattern (b64_encode (replicate 32 0))" by (rule proof_pattern_encode) simp
  obtain m where m: "issue_github_signin (sc_sha c) (\<lambda>n. True) zero_port () ''/projects'' (utc 0) = Inr (m, ())"
    and f: "sm_transaction_id m = u" "sm_state_digest m = replicate 32 1"
      "sm_transaction_digest m = replicate 32 1" "sm_return_path m = ''/projects''"
      "sm_created_at m = utc 0" "sm_expires_at m = utc (minutes 10)"
    using u pat path
    by (simp add: issue_github_signin_def zero_port_bytes digest_signin_value_def dt_simps c_def SIGNIN_TTL_def Let_def)
  have sha: "length (sc_sha c b) = 32" for b by (simp add: c_def)
  have key: "list_all scalar_value (sc_key c)" by (simp add: c_def)
  obtain sealed where "encrypt (sc_sha c) (sc_hmac c) [] (codes_of (sm_pkce_verifier m)) (sc_key c) = Some sealed"
    using decrypt_encrypt_sealed [of "sc_sha c", OF sha codes_of_scalar key] by blast
  then obtain rows' where rows': "signin_create c ([], m) [] = Some rows'"
    using f u(2) by (simp add: signin_create_def signin_row_allowed_def dt_less_def dt_simps timedelta_defs)
  have "signin_table_ok []" by (simp add: signin_table_ok_def)
  note used = signin_round_trip [OF m sha key this rows', of "utc 9"]
  have "dt_instant (utc 9) < dt_instant (utc 0) + minutes 10" by (simp add: dt_simps timedelta_defs)
  with used m rows' show ?thesis by blast
qed

section \<open>Resolving the GitHub identity\<close>

record identity_user =
  us_id :: int
  us_github_login :: string
  us_role :: string
  us_created_at :: datetime
  us_last_login_at :: "datetime option"
  us_disabled_at :: "datetime option"

record account_row =
  ga_user_id :: int
  ga_github_user_id :: int
  ga_created_at :: datetime
  ga_linked_at :: datetime
  ga_login :: string
  ga_user_token :: string
  ga_refresh_token :: string
  ga_key_id :: string
  ga_token_expires_at :: datetime
  ga_verified_at :: datetime
  ga_disconnected_at :: "datetime option"

record github_authorization =
  au_github_user_id :: int
  au_login :: string
  au_access_token :: string
  au_refresh_token :: string
  au_expires_in_seconds :: int

record identity_tables =
  it_users :: "identity_user list"
  it_accounts :: "account_row list"

text \<open>
  The database hands out \<open>fresh_id\<close> for a new user.  Both tokens are sealed before the commit,
  so a failing cipher leaves the tables unchanged.
\<close>

definition resolve_user ::
    "signin_cipher \<Rightarrow> bytes \<times> bytes \<Rightarrow> int \<Rightarrow> github_authorization \<Rightarrow> datetime \<Rightarrow> int list
     \<Rightarrow> identity_tables \<Rightarrow> single_use_error + identity_tables \<times> identity_user" where
  "resolve_user c nonces fresh_id auth now admin_github_ids db =
     (let account = find (\<lambda>a. ga_github_user_id a = au_github_user_id auth) (it_accounts db);
          user =
            (case account of
               None \<Rightarrow>
                 Inr \<lparr>us_id = fresh_id, us_github_login = au_login auth,
                      us_role = (if au_github_user_id auth \<in> set admin_github_ids then ''admin'' else ''user''),
                      us_created_at = now, us_last_login_at = Some now, us_disabled_at = None\<rparr>
             | Some a \<Rightarrow>
                 (case find (\<lambda>u. us_id u = ga_user_id a) (it_users db) of
                    None \<Rightarrow> Inl (Proof_RuntimeError ''GitHub identity has no account'')
                  | Some u \<Rightarrow>
                      if us_disabled_at u \<noteq> None
                      then Inl (Proof_PermissionError ''account is disabled'')
                      else Inr (u\<lparr>us_github_login := au_login auth, us_last_login_at := Some now\<rparr>)))
      in case user of
           Inl e \<Rightarrow> Inl e
         | Inr u \<Rightarrow>
        (case (encrypt (sc_sha c) (sc_hmac c) (fst nonces) (codes_of (au_access_token auth)) (sc_key c),
               encrypt (sc_sha c) (sc_hmac c) (snd nonces) (codes_of (au_refresh_token auth)) (sc_key c)) of
           (Some token, Some refresh) \<Rightarrow>
             (let verified = (\<lambda>a. a\<lparr>ga_login := au_login auth, ga_user_token := token,
                    ga_refresh_token := refresh, ga_key_id := sc_key_id c,
                    ga_token_expires_at := dt_add now (seconds (au_expires_in_seconds auth)),
                    ga_verified_at := now, ga_disconnected_at := None\<rparr>)
              in case account of
                   None \<Rightarrow>
                     Inr (\<lparr>it_users = it_users db @ [u],
                           it_accounts = it_accounts db @
                             [verified \<lparr>ga_user_id = us_id u, ga_github_user_id = au_github_user_id auth,
                                ga_created_at = now, ga_linked_at = now, ga_login = [],
                                ga_user_token = [], ga_refresh_token = [], ga_key_id = [],
                                ga_token_expires_at = now, ga_verified_at = now,
                                ga_disconnected_at = None\<rparr>]\<rparr>, u)
                 | Some a \<Rightarrow>
                     Inr (\<lparr>it_users = update_where (\<lambda>v. us_id v = us_id u)
                              (\<lambda>v. v\<lparr>us_github_login := au_login auth, us_last_login_at := Some now\<rparr>)
                              (it_users db),
                           it_accounts = update_where
                              (\<lambda>b. ga_github_user_id b = au_github_user_id auth) verified
                              (it_accounts db)\<rparr>, u))
         | _ \<Rightarrow> Inl (Proof_ValidationError ''credential cannot be encoded'')))"

definition identity_ok :: "identity_tables \<Rightarrow> bool" where
  "identity_ok db \<longleftrightarrow>
     distinct (map us_id (it_users db)) \<and> distinct (map ga_github_user_id (it_accounts db)) \<and>
     distinct (map ga_user_id (it_accounts db))"

text \<open>
  Signing in keeps one account per GitHub identity and per user.  A known identity comes
  back as the same user with an unchanged role and is refused once disabled; a new identity
  becomes an administrator exactly if its GitHub id is listed.
\<close>

theorem resolve_user_identity:
  assumes "identity_ok db" "resolve_user c nonces fresh auth now admins db = Inr (db', u)"
    and fresh: "fresh \<notin> us_id ` set (it_users db)" "fresh \<notin> ga_user_id ` set (it_accounts db)"
  shows "identity_ok db' \<and> us_disabled_at u = None \<and>
    (case find (\<lambda>a. ga_github_user_id a = au_github_user_id auth) (it_accounts db) of
       None \<Rightarrow> us_id u = fresh \<and>
         us_role u = (if au_github_user_id auth \<in> set admins then ''admin'' else ''user'')
     | Some a \<Rightarrow> us_id u = ga_user_id a \<and>
         us_role u \<in> us_role ` {v \<in> set (it_users db). us_id v = ga_user_id a})"
proof (cases "find (\<lambda>a. ga_github_user_id a = au_github_user_id auth) (it_accounts db)")
  case None
  then have "au_github_user_id auth \<notin> ga_github_user_id ` set (it_accounts db)"
    by (auto simp: find_None_iff)
  with None assms show ?thesis
    by (auto simp: resolve_user_def identity_ok_def Let_def split: option.splits)
next
  case (Some a)
  obtain v where v: "find (\<lambda>u. us_id u = ga_user_id a) (it_users db) = Some v"
      "us_disabled_at v = None"
    using assms(2) Some by (auto simp: resolve_user_def Let_def split: option.splits if_splits)
  have "u = v\<lparr>us_github_login := au_login auth, us_last_login_at := Some now\<rparr>" and "identity_ok db'"
    using assms(1,2) Some v
    by (auto simp: resolve_user_def identity_ok_def row_simps Let_def split: option.splits)
  with v Some find_SomeD [OF v(1)] show ?thesis by auto
qed

theorem resolve_user_identity_witness:
  "\<exists>c db u. resolve_user c ([], []) 1 \<lparr>au_github_user_id = 5, au_login = ''l'', au_access_token = ''t'',
        au_refresh_token = ''r'', au_expires_in_seconds = 60\<rparr> (utc 0) [5] \<lparr>it_users = [], it_accounts = []\<rparr>
      = Inr (db, u) \<and> identity_ok db \<and> us_role u = ''admin''"
proof -
  define c where "c = \<lparr>sc_sha = \<lambda>b. replicate 32 1, sc_hmac = \<lambda>k b. [], sc_key = [], sc_key_id = []\<rparr>"
  have sha: "length (sc_sha c b) = 32" for b by (simp add: c_def)
  have key: "list_all scalar_value (sc_key c)" by (simp add: c_def)
  note sealed = decrypt_encrypt_sealed [of "sc_sha c", OF sha codes_of_scalar key]
  obtain s1 where s1: "encrypt (sc_sha c) (sc_hmac c) [] (codes_of ''t'') (sc_key c) = Some s1"
    using sealed by blast
  obtain s2 where s2: "encrypt (sc_sha c) (sc_hmac c) [] (codes_of ''r'') (sc_key c) = Some s2"
    using sealed by blast
  obtain db u where res: "resolve_user c ([], []) 1 \<lparr>au_github_user_id = 5, au_login = ''l'',
      au_access_token = ''t'', au_refresh_token = ''r'', au_expires_in_seconds = 60\<rparr> (utc 0) [5]
      \<lparr>it_users = [], it_accounts = []\<rparr> = Inr (db, u)"
    using s1 s2 by (simp add: resolve_user_def)
  have "identity_ok \<lparr>it_users = [], it_accounts = []\<rparr>" by (simp add: identity_ok_def)
  from resolve_user_identity [OF this res] res show ?thesis by auto
qed

end
