(* ===== verification/Spec2Isabelle.thy ===== *)
theory Spec2Isabelle
  imports
    Access_Policy
    Browser_Csrf
    Browser_Session
    Claim_Persist
    Claim_Store
    Contracts
    Db_Session
    Envelope
    Envelope_V2
    Failure_Limiter
    Finding_Parser
    Fr_State
    Fr_Tests
    Github_Actions_Auth
    Github_Api
    Github_Ingest
    Github_Oidc
    Github_Route
    Github_Webhook
    Idempotency
    Ingest_Attempt
    Jwks_Client
    Local_Ingest
    Local_Route
    Local_Upload
    Membership_Refresh
    Multipart
    Operational_Signals
    Prelude
    Project_Access
    Py_Codec
    Py_Json
    Py_Re
    Py_Text
    Py_Url
    Reconcile_Store
    Redactor
    Repo_Identity
    Result_Bundle
    Result_Persist
    Retention
    Scan_Token
    Single_Use
    Source_Context
    Token_Cipher
    Token_Store
    Usage_Quota
    Usage_Store
    Webhook_Store
begin

text \<open>
  \<^bold>\<open>Assurance Scan: results of security scans, from the upload to the state of each requirement.\<close>

  \<^bold>\<open>The program.\<close>  Assurance Scan keeps one history of security scans per project.  A developer's
  machine uploads with a scan token, a workflow of GitHub Actions with a signed identity token
  (OIDC).  The server is a FastAPI application under \<^verbatim>\<open>src/backend/app\<close>: small framework-free
  policies in \<^verbatim>\<open>modules/atomic\<close>, workflows that compose them in \<^verbatim>\<open>modules/workflows\<close>, SQL and HTTP
  adapters in \<^verbatim>\<open>infrastructure\<close>, routes in \<^verbatim>\<open>api\<close>.  An upload runs through these parts, in this
  order: the credential is authenticated (scan token, or JWT with its replay fence); the project
  authorization is read live; the multipart body is read under limits; the parts are parsed
  strictly, validated against one another, redacted, brought into canonical form and hashed; usage
  is reserved; an idempotency claim is taken under a lease; the result graph is persisted in one
  transaction together with the completion of the claim; the attempt is recorded; and the states of
  the project's requirements are computed from the findings.  Around it stand the browser sessions,
  the GitHub App's webhooks and membership projection, and retention.

  \<^bold>\<open>How the code is rendered.\<close>  A frozen dataclass or a table row is a \<^theory_text>\<open>record\<close> with the
  source's fields, an enumeration a \<^theory_text>\<open>datatype\<close>, one operation one definition under the name of
  the function it translates (a suffix avoids clashes).  An exception is the left summand of a sum
  type whose errors each component names itself; every raise and every early return is a branch.
  Python's integers are \<^typ>\<open>int\<close>; 32-bit counters of the JSON layer are kept as bounds.  Text that the
  outside controls is a list of code points, text the program makes is \<^typ>\<open>string\<close>, bytes are words of
  eight bits.  A table is the list of its rows; a write transaction is one step from a table to a
  table, because the code takes its lock first.  Where transactions of one request may interleave
  with other workers (\<^verbatim>\<open>Db_Session\<close>), the session carries the pending faults and the pending
  changes of others, so a theorem over all sessions covers every failure and every interleaving at
  the transaction boundaries.  Clocks, random bytes, SHA-256, HMAC, RSA, the JSON-schema validator, Unicode
  tables, the multipart parser and the HTTP transport are parameters; nothing is assumed of
  them except where a theorem names the assumption.

  \<^bold>\<open>Theories.\<close>

  \<^item> Foundations.  \<^verbatim>\<open>Prelude\<close> (timestamps, rounding, ordered checks, row operations, sums),
    \<^verbatim>\<open>Py_Codec\<close>, \<^verbatim>\<open>Py_Text\<close>, \<^verbatim>\<open>Py_Url\<close>, \<^verbatim>\<open>Py_Json\<close>, \<^verbatim>\<open>Py_Re\<close>: what the program uses of Python's base64,
    codecs, \<^verbatim>\<open>urllib.parse\<close>, \<^verbatim>\<open>json\<close> and \<^verbatim>\<open>re\<close>, with round trips.  \<^verbatim>\<open>Db_Session\<close>: the session.
    \<^verbatim>\<open>Contracts\<close>: the constants of \<^verbatim>\<open>shared/contracts\<close>.
  \<^item> Access.  \<^verbatim>\<open>Access_Policy\<close>, \<^verbatim>\<open>Project_Access\<close>, \<^verbatim>\<open>Repo_Identity\<close> (who may do what to which project),
    \<^verbatim>\<open>Failure_Limiter\<close>, \<^verbatim>\<open>Scan_Token\<close>, \<^verbatim>\<open>Token_Store\<close>, \<^verbatim>\<open>Token_Cipher\<close>, \<^verbatim>\<open>Browser_Session\<close>,
    \<^verbatim>\<open>Browser_Csrf\<close>, \<^verbatim>\<open>Single_Use\<close> (installation state and sign-in), \<^verbatim>\<open>Github_Oidc\<close>, \<^verbatim>\<open>Jwks_Client\<close>,
    \<^verbatim>\<open>Github_Actions_Auth\<close>, \<^verbatim>\<open>Github_Webhook\<close>, \<^verbatim>\<open>Webhook_Store\<close>.
  \<^item> GitHub's authority.  \<^verbatim>\<open>Github_Api\<close> (the client: requests, paging, entitlements, snapshots),
    \<^verbatim>\<open>Reconcile_Store\<close> (snapshots onto the tables, the repair run over the client, the port of the
    webhook worker) and \<^verbatim>\<open>Membership_Refresh\<close> (a user's credentials and grants).
  \<^item> Ingestion.  \<^verbatim>\<open>Multipart\<close>, \<^verbatim>\<open>Envelope\<close>, \<^verbatim>\<open>Envelope_V2\<close>, \<^verbatim>\<open>Redactor\<close>, \<^verbatim>\<open>Source_Context\<close>,
    \<^verbatim>\<open>Result_Bundle\<close>, \<^verbatim>\<open>Idempotency\<close>, \<^verbatim>\<open>Claim_Store\<close>, \<^verbatim>\<open>Usage_Quota\<close>, \<^verbatim>\<open>Usage_Store\<close>,
    \<^verbatim>\<open>Ingest_Attempt\<close>, \<^verbatim>\<open>Result_Persist\<close>, \<^verbatim>\<open>Claim_Persist\<close>, and the compositions \<^verbatim>\<open>Local_Ingest\<close>,
    \<^verbatim>\<open>Github_Ingest\<close>, \<^verbatim>\<open>Github_Route\<close> (the whole push endpoint), \<^verbatim>\<open>Local_Upload\<close> and \<^verbatim>\<open>Local_Route\<close> (the
    local endpoints); \<^verbatim>\<open>Operational_Signals\<close> and \<^verbatim>\<open>Retention\<close>.
  \<^item> Scanning.  \<^verbatim>\<open>Finding_Parser\<close> (scanner output to findings), \<^verbatim>\<open>Fr_Tests\<close> and \<^verbatim>\<open>Fr_State\<close> (findings to
    requirement states).

  \<^bold>\<open>Interfaces.\<close>  A contract that several components keep or rely on is a locale: \<open>text_codec\<close>
  (base64url and hexadecimal), \<open>single_use\<close> (both proof tables), \<open>leased_claims\<close> and its extension
  \<open>rebinding_claims\<close> (both claim tables), \<open>charge_ledger\<close> (both quota ledgers) and \<open>result_store\<close>
  (both persistence adapters).  Each is interpreted on the model's own definitions, and the
  properties rest on the facts of the interpretations.

  \<^bold>\<open>What the theorems show.\<close>  Every property stands after a text that states it.

  \<^item> End to end: what the push and the local route publish was authenticated, authorized live, spent
    once, bounded, validated and bound to its claim (\<^verbatim>\<open>Github_Route\<close>, \<^verbatim>\<open>Local_Route\<close>, \<^verbatim>\<open>Github_Ingest\<close>, \<^verbatim>\<open>Local_Ingest\<close>,
    \<^verbatim>\<open>Github_Actions_Auth\<close>, \<^verbatim>\<open>Github_Oidc\<close>), whatever fails and whoever interleaves.
  \<^item> Authority: the application's credentials follow the user's own proof; entitlements are GitHub's
    answers to the user; a change of authority ends what rests on it; a closed repository is
    unreachable in every history; a refresh that fails cuts the user off.
  \<^item> Integrity: the envelope hash binds every part, canonical JSON reads back, an accepted envelope is
    coherent, a claim ends once and its result is replayed until the run is tombstoned, a superseded worker is
    fenced, and repositories are identified by number.
  \<^item> Limits: quota (over all charges ever made), token, multipart, context and limiter bounds; the limiter refines the limiter
    that remembers everything.
  \<^item> Confidentiality: tokens in text values are redacted, secrets of a leak report are not copied; tokens at rest decrypt
    to themselves.
  \<^item> Meaning: a requirement that is passed is clean; no requirement gets past a dependency that is not
    settled; findings are normalized.
  \<^item> Ends: retention drains, keeps the claims it must keep, and a worker whose lease holds can renew it
    and complete.

  \<^bold>\<open>Bounds and fuel.\<close>  The JSON decoder and encoder take the interpreter's recursion limit as a
  parameter, and exceeding it is the error of the source (\<^verbatim>\<open>RecursionError\<close>), not a
  truncation.  All other loops are structural recursions or functions with a termination proof; the
  passes of retention are iterated a number of times that the theorem computes from the
  tables, and the client of GitHub reads at most a hundred pages of a listing, as its source does.  No definition is partial.

  \<^bold>\<open>Not modelled.\<close>  The HTTP framework, SQL itself (constraints that a statement may
  violate are modelled as unique keys or as the exceptions any statement may raise), the loops that repeat a run for ever, Docker and
  subprocesses, the file-system side of the command-line client, the one-time migrations, read-only
  routes, the generators of HTML under \<^verbatim>\<open>scripts\<close>, and code outside \<^verbatim>\<open>src\<close>.  Floating-point rounding
  is modelled only where a comparison depends on it (severity scores); the limiter's clock is
  real-valued.
\<close>

end
